(* ===== verification/Prelude.thy ===== *)
theory Prelude
  imports
    Main
    "HOL-Library.Word"
    "HOL-Library.Char_ord"
    "HOL-Library.List_Lexorder"
    "HOL-Library.Product_Lexorder"
begin

text \<open>
  Shared vocabulary of the development: Go's integer types, byte strings, the two shapes
  of Go's error results, the validation loops of \<^verbatim>\<open>src/internal\<close>, Go's
  \<^verbatim>\<open>sort.Search\<close>, and the interfaces (locales) that several components provide.

  A Go function returning \<^verbatim>\<open>error\<close> is a value of \<open>'e option\<close>: \<open>None\<close> is
  \<^verbatim>\<open>nil\<close>. A Go function returning \<^verbatim>\<open>(T, error)\<close> is a value of the sum
  \<open>'e + 'a\<close>: \<open>Inl\<close> is the error. An error of the domain layer is its message with the
  formatted arguments (indices, quoted values) left out; the layers whose callers inspect
  the error with \<^verbatim>\<open>errors.Is\<close> use a datatype instead.
\<close>

section \<open>Integers, bytes and strings\<close>

type_synonym u8 = "8 word"
type_synonym u16 = "16 word"
type_synonym u32 = "32 word"
type_synonym u64 = "64 word"

text \<open>
  A Go string is a sequence of bytes, as HOL's \<open>string\<close> (a list of 8-bit \<open>char\<close>) is.
  Byte slices are lists of 8-bit words; \<open>bytes_of\<close> is the conversion
  \<^verbatim>\<open>[]byte(s)\<close>.
\<close>

type_synonym bytes = "u8 list"

definition byte_of :: "char \<Rightarrow> u8" where
  "byte_of c = of_char c"

definition bytes_of :: "string \<Rightarrow> bytes" where
  "bytes_of s = map byte_of s"

named_theorems verdict_simps \<open>when a validation returns nil\<close>
named_theorems codec_simps \<open>evaluation of the codecs on their own output\<close>

lemma unat_byte_of: "unat (byte_of c) = of_char c"
proof -
  have "byte_of c = word_of_nat (of_char c)"
    by (simp add: byte_of_def of_nat_of_char)
  moreover have "(of_char c :: nat) < 2 ^ LENGTH(8)"
    using nat_of_char_less_256 [of c] by simp
  ultimately show ?thesis
    by (simp add: unat_of_nat take_bit_nat_eq_self)
qed

lemma byte_of_inject [simp]: "byte_of c = byte_of d \<longleftrightarrow> c = d"
  by (metis unat_byte_of of_char_eq_iff)

lemma bytes_of_simps [simp]:
  "bytes_of [] = []"
  "bytes_of (c # s) = byte_of c # bytes_of s"
  by (simp_all add: bytes_of_def)

lemma bytes_of_append [simp]: "bytes_of (s @ t) = bytes_of s @ bytes_of t"
  by (simp add: bytes_of_def)

lemma length_bytes_of [simp]: "length (bytes_of s) = length s"
  by (simp add: bytes_of_def)

lemma bytes_of_inject [simp]: "bytes_of s = bytes_of t \<longleftrightarrow> s = t"
  by (simp add: bytes_of_def inj_def inj_map_eq_map)

section \<open>Errors\<close>

text \<open>
  \<open>check b msg\<close> is \<^verbatim>\<open>if !b { return msg }\<close>; \<open>wrap p e\<close> is
  \<^verbatim>\<open>fmt.Errorf("p: %w", e)\<close> on a non-nil error; \<open>checks\<close> is a sequence of
  \<^verbatim>\<open>if err := ...; err != nil { return err }\<close> statements.
\<close>

definition check :: "bool \<Rightarrow> 'e \<Rightarrow> 'e option" where
  "check b e = (if b then None else Some e)"

definition wrap :: "string \<Rightarrow> string option \<Rightarrow> string option" where
  "wrap p = map_option (\<lambda>e. p @ '': '' @ e)"

fun checks :: "'e option list \<Rightarrow> 'e option" where
  "checks [] = None"
| "checks (Some e # es) = Some e"
| "checks (None # es) = checks es"

lemma check_None [verdict_simps, simp]: "check b e = None \<longleftrightarrow> b"
  by (simp add: check_def)

lemma wrap_None [verdict_simps, simp]: "wrap p e = None \<longleftrightarrow> e = None"
  by (simp add: wrap_def)

lemma verdict_values [simp]:
  "check True e = None" "check False e = Some e" "wrap p None = None" "wrap p (Some m) = Some (p @ '': '' @ m)"
  by (simp_all add: check_def wrap_def)

lemma checks_Cons [verdict_simps]: "checks (e # es) = None \<longleftrightarrow> e = None \<and> checks es = None"
  by (cases e) auto

lemma checks_Nil [verdict_simps]: "checks [] = None"
  by simp

lemma checks_None: "checks es = None \<longleftrightarrow> (\<forall>e \<in> set es. e = None)"
  by (induction es) (auto simp: checks_Cons)

lemma checks_append [verdict_simps]:
  "checks (es @ fs) = None \<longleftrightarrow> checks es = None \<and> checks fs = None"
  by (auto simp: checks_None)

definition ok :: "'e + 'a \<Rightarrow> 'a option" where
  "ok r = (case r of Inl _ \<Rightarrow> None | Inr x \<Rightarrow> Some x)"

lemma ok_simps [simp]: "ok (Inl e) = None" "ok (Inr x) = Some x"
  by (simp_all add: ok_def)

lemma ok_eq_Some [simp]: "ok r = Some x \<longleftrightarrow> r = Inr x"
  by (cases r) auto

section \<open>Validation loops over slices\<close>

text \<open>
  \<open>each f xs\<close> is \<^verbatim>\<open>for _, x := range xs { if err := f(x); err != nil { return err } }\<close>.
  \<open>each_prev f xs\<close> is the same loop where the body also compares \<^verbatim>\<open>xs[index-1]\<close> when
  \<^verbatim>\<open>index > 0\<close>: the body gets the previous element, \<open>None\<close> at index 0.
\<close>

fun each :: "('a \<Rightarrow> 'e option) \<Rightarrow> 'a list \<Rightarrow> 'e option" where
  "each f [] = None"
| "each f (x # xs) = (case f x of Some e \<Rightarrow> Some e | None \<Rightarrow> each f xs)"

fun each_prev_from :: "('a option \<Rightarrow> 'a \<Rightarrow> 'e option) \<Rightarrow> 'a option \<Rightarrow> 'a list \<Rightarrow> 'e option" where
  "each_prev_from f prev [] = None"
| "each_prev_from f prev (x # xs) =
     (case f prev x of Some e \<Rightarrow> Some e | None \<Rightarrow> each_prev_from f (Some x) xs)"

definition each_prev :: "('a option \<Rightarrow> 'a \<Rightarrow> 'e option) \<Rightarrow> 'a list \<Rightarrow> 'e option" where
  "each_prev f xs = each_prev_from f None xs"

text \<open>The test of two neighbours inside such a body.\<close>

definition check_prev :: "('a \<Rightarrow> 'a \<Rightarrow> bool) \<Rightarrow> 'a option \<Rightarrow> 'a \<Rightarrow> 'e \<Rightarrow> 'e option" where
  "check_prev good prev x e = (case prev of None \<Rightarrow> None | Some p \<Rightarrow> check (good p x) e)"

lemma each_None [verdict_simps, simp]: "each f xs = None \<longleftrightarrow> (\<forall>x \<in> set xs. f x = None)"
  by (induction xs) (auto split: option.splits)

lemma each_prev_from_None:
  assumes "\<And>prev x. f prev x = None \<longleftrightarrow> g x \<and> (\<forall>p. prev = Some p \<longrightarrow> good p x)"
  shows "each_prev_from f prev xs = None \<longleftrightarrow>
    (\<forall>x \<in> set xs. g x) \<and> successively good (case prev of None \<Rightarrow> xs | Some p \<Rightarrow> p # xs)"
proof (induction xs arbitrary: prev)
  case Nil
  then show ?case by (cases prev) auto
next
  case (Cons x xs)
  have "each_prev_from f prev (x # xs) = None \<longleftrightarrow>
      f prev x = None \<and> each_prev_from f (Some x) xs = None"
    by (cases "f prev x") auto
  then show ?case
    using Cons.IH [of "Some x"] assms [of prev x] by (cases prev) auto
qed

lemma each_prev_None:
  assumes "\<And>prev x. f prev x = None \<longleftrightarrow> g x \<and> (\<forall>p. prev = Some p \<longrightarrow> good p x)"
  shows "each_prev f xs = None \<longleftrightarrow> (\<forall>x \<in> set xs. g x) \<and> successively good xs"
  using each_prev_from_None [OF assms, where prev = None and xs = xs] by (simp add: each_prev_def)

lemma check_prev_None [verdict_simps, simp]:
  "check_prev good prev x e = None \<longleftrightarrow> (\<forall>p. prev = Some p \<longrightarrow> good p x)"
  by (simp add: check_prev_def split: option.splits)

text \<open>Neighbours in strict order are the whole list in strict order, hence distinct.\<close>

lemma successively_less_key:
  fixes k :: "'a \<Rightarrow> 'b :: linorder"
  shows "successively (\<lambda>a b. k a < k b) xs \<longleftrightarrow> sorted_wrt (<) (map k xs)"
  by (induction xs rule: induct_list012) (auto simp: sorted_wrt_map intro: less_trans)

lemma sorted_wrt_less_distinct:
  fixes xs :: "'b :: linorder list"
  shows "sorted_wrt (<) xs \<longleftrightarrow> sorted xs \<and> distinct xs"
  by (induction xs) (auto simp: less_le)

section \<open>Go's sort.Search\<close>

text \<open>
  \<^verbatim>\<open>sort.Search(n, f)\<close> of the Go library: the binary search
  \<^verbatim>\<open>for i < j { h := (i+j)/2; if !f(h) { i = h+1 } else { j = h } }\<close>.
\<close>

function search_between :: "(nat \<Rightarrow> bool) \<Rightarrow> nat \<Rightarrow> nat \<Rightarrow> nat" where
  "search_between f i j =
     (if i < j then
        (let h = (i + j) div 2
         in if \<not> f h then search_between f (h + 1) j else search_between f i h)
      else i)"
  by pat_completeness auto
termination
  by (relation "measure (\<lambda>(f, i, j). j - i)") auto

declare search_between.simps [simp del]

definition sort_search :: "nat \<Rightarrow> (nat \<Rightarrow> bool) \<Rightarrow> nat" where
  "sort_search n f = search_between f 0 n"

lemma search_between_bounds:
  "i \<le> j \<Longrightarrow> i \<le> search_between f i j \<and> search_between f i j \<le> j"
proof (induction f i j rule: search_between.induct)
  case (1 f i j)
  show ?case
  proof (cases "i < j")
    case True
    then have "(i + j) div 2 < j" "i \<le> (i + j) div 2" by auto
    with True "1.IH" show ?thesis
      by (subst (1 2) search_between.simps) (force simp: Let_def)
  next
    case False
    with "1.prems" show ?thesis by (subst (1 2) search_between.simps) simp
  qed
qed

lemma search_between_least:
  assumes "\<And>a b. a \<le> b \<Longrightarrow> b < n \<Longrightarrow> f a \<Longrightarrow> f b"
  shows "i \<le> j \<Longrightarrow> j \<le> n \<Longrightarrow> (\<And>k. k < i \<Longrightarrow> \<not> f k) \<Longrightarrow> (\<And>k. j \<le> k \<Longrightarrow> k < n \<Longrightarrow> f k) \<Longrightarrow>
    (\<forall>k < search_between f i j. \<not> f k) \<and> (\<forall>k. search_between f i j \<le> k \<longrightarrow> k < n \<longrightarrow> f k)"
  using assms
proof (induction f i j rule: search_between.induct)
  case (1 f i j)
  show ?case
  proof (cases "i < j")
    case False
    with "1.prems" show ?thesis by (subst (1 2) search_between.simps) simp
  next
    case True
    define h where "h = (i + j) div 2"
    have h: "i \<le> h" "h < j" using True by (auto simp: h_def)
    show ?thesis
    proof (cases "f h")
      case fh: True
      have "(\<forall>k < search_between f i h. \<not> f k) \<and>
          (\<forall>k. search_between f i h \<le> k \<longrightarrow> k < n \<longrightarrow> f k)"
        by (rule "1.IH"(2) [OF True h_def]) (use "1.prems" h fh in auto)
      with True fh show ?thesis
        by (subst (1 2) search_between.simps) (simp add: Let_def h_def)
    next
      case fh: False
      have "\<not> f k" if "k < h + 1" for k
        using "1.prems"(5) [of k h] "1.prems"(2) h fh that by auto
      then have "(\<forall>k < search_between f (h + 1) j. \<not> f k) \<and>
          (\<forall>k. search_between f (h + 1) j \<le> k \<longrightarrow> k < n \<longrightarrow> f k)"
        by (intro "1.IH"(1) [OF True h_def]) (use "1.prems" h fh in auto)
      with True fh show ?thesis
        by (subst (1 2) search_between.simps) (simp add: Let_def h_def)
    qed
  qed
qed

lemma sort_search_le: "sort_search n f \<le> n"
  using search_between_bounds [of 0 n f] by (simp add: sort_search_def)

lemma sort_search_least:
  assumes "\<And>a b. a \<le> b \<Longrightarrow> b < n \<Longrightarrow> f a \<Longrightarrow> f b"
  shows "k < sort_search n f \<Longrightarrow> \<not> f k" and "sort_search n f \<le> k \<Longrightarrow> k < n \<Longrightarrow> f k"
  using search_between_least [of n f 0 n, OF assms] by (simp_all add: sort_search_def)

section \<open>Interfaces\<close>

text \<open>
  Every constructor \<^verbatim>\<open>NewX\<close> of the domain package clones its argument and validates the
  clone. What the callers rely on is that cloning changes no valid value and repairs no
  invalid one.
\<close>

definition construct :: "('a \<Rightarrow> 'a) \<Rightarrow> ('a \<Rightarrow> 'e option) \<Rightarrow> 'a \<Rightarrow> 'e + 'a" where
  "construct clone validate x =
     (let c = clone x in case validate c of Some e \<Rightarrow> Inl e | None \<Rightarrow> Inr c)"

locale defensive_copy =
  fixes clone :: "'a \<Rightarrow> 'a"
    and validate :: "'a \<Rightarrow> 'e option"
  assumes clone_valid: "validate x = None \<Longrightarrow> clone x = x"
    and validate_clone: "validate (clone x) = None \<Longrightarrow> validate x = None"
begin

lemma constructed: "construct clone validate x = Inr y \<longleftrightarrow> validate x = None \<and> y = x"
proof (cases "validate x")
  case None
  then show ?thesis by (auto simp: construct_def clone_valid)
next
  case (Some e)
  then have "validate (clone x) \<noteq> None" using validate_clone [of x] by auto
  with Some show ?thesis by (auto simp: construct_def)
qed

lemma clone_idem: "validate (clone x) = None \<Longrightarrow> clone (clone x) = clone x"
  by (rule clone_valid)

lemma rejected: "(\<exists>e. construct clone validate x = Inl e) \<longleftrightarrow> validate x \<noteq> None"
  using constructed [of x] by (cases "construct clone validate x") auto

end

text \<open>
  A strict decoder accepts nothing but the encoder's own output: each value has at most one
  accepted encoding.
\<close>

locale canonical_codec =
  fixes encode :: "'a \<Rightarrow> 'b option"
    and decode :: "'b \<Rightarrow> 'a option"
  assumes canonical: "decode b = Some x \<Longrightarrow> encode x = Some b"
begin

lemma unique_encoding: "decode b = Some x \<Longrightarrow> decode c = Some x \<Longrightarrow> b = c"
  using canonical [of b x] canonical [of c x] by simp

lemma decode_image: "decode b = Some x \<Longrightarrow> \<exists>y. encode y = Some b"
  using canonical by blast

end

end
