(* ===== verification/DomainSize.thy ===== *)
theory DomainSize
  imports Prelude
begin

text \<open>
  \<^verbatim>\<open>src/internal/domain/size.go\<close>: byte quantities and filesystem facts that keep \<open>unavailable\<close>
  apart from zero, the size facts of a candidate, and their checked addition. Quantities are
  64-bit words, so the overflow test is the code's own, on wrapping arithmetic.
\<close>

section \<open>Quantities, effects and facts\<close>

record byte_quantity =
  bq_Available :: bool
  bq_Bytes :: u64

record size_effect =
  se_Apparent :: byte_quantity
  se_Allocated :: byte_quantity

record uint64_fact =
  u64_Known :: bool
  u64_Value :: u64

record uint32_fact =
  u32_Known :: bool
  u32_Value :: u32

record int64_fact =
  i64_Known :: bool
  i64_Value :: u64

record size_facts =
  sf_Apparent :: byte_quantity
  sf_Allocated :: byte_quantity
  sf_Estimated :: size_effect
  sf_Verified :: size_effect
  sf_LinkCount :: uint64_fact
  sf_Aggregate :: bool

text \<open>The zero values \<^verbatim>\<open>ByteQuantity{}\<close>, \<^verbatim>\<open>SizeEffect{}\<close>, \<^verbatim>\<open>Uint64Fact{}\<close> and \<^verbatim>\<open>SizeFacts{}\<close>.\<close>

definition no_quantity :: byte_quantity where
  "no_quantity = \<lparr> bq_Available = False, bq_Bytes = 0 \<rparr>"

definition no_effect :: size_effect where
  "no_effect = \<lparr> se_Apparent = no_quantity, se_Allocated = no_quantity \<rparr>"

definition no_uint64 :: uint64_fact where
  "no_uint64 = \<lparr> u64_Known = False, u64_Value = 0 \<rparr>"

definition no_uint32 :: uint32_fact where
  "no_uint32 = \<lparr> u32_Known = False, u32_Value = 0 \<rparr>"

definition no_int64 :: int64_fact where
  "no_int64 = \<lparr> i64_Known = False, i64_Value = 0 \<rparr>"

definition no_size_facts :: size_facts where
  "no_size_facts = \<lparr> sf_Apparent = no_quantity, sf_Allocated = no_quantity,
     sf_Estimated = no_effect, sf_Verified = no_effect, sf_LinkCount = no_uint64,
     sf_Aggregate = False \<rparr>"

definition uint64_fact_validate :: "uint64_fact \<Rightarrow> string option" where
  "uint64_fact_validate f =
     (if \<not> u64_Known f \<and> u64_Value f \<noteq> 0 then Some ''unknown uint64 fact must be zero'' else None)"

definition uint32_fact_validate :: "uint32_fact \<Rightarrow> string option" where
  "uint32_fact_validate f =
     (if \<not> u32_Known f \<and> u32_Value f \<noteq> 0 then Some ''unknown uint32 fact must be zero'' else None)"

definition int64_fact_validate :: "int64_fact \<Rightarrow> string option" where
  "int64_fact_validate f =
     (if \<not> i64_Known f \<and> i64_Value f \<noteq> 0 then Some ''unknown int64 fact must be zero'' else None)"

definition byte_quantity_validate :: "byte_quantity \<Rightarrow> string option" where
  "byte_quantity_validate quantity =
     (if \<not> bq_Available quantity \<and> bq_Bytes quantity \<noteq> 0
      then Some ''unavailable byte quantity must be zero'' else None)"

definition size_effect_validate :: "size_effect \<Rightarrow> string option" where
  "size_effect_validate effect = checks
     [wrap ''apparent effect'' (byte_quantity_validate (se_Apparent effect)),
      wrap ''allocated effect'' (byte_quantity_validate (se_Allocated effect))]"

section \<open>Size facts\<close>

definition size_facts_ownership :: "size_facts \<Rightarrow> string option" where
  "size_facts_ownership facts =
     (if sf_Aggregate facts then
        if u64_Known (sf_LinkCount facts)
        then Some ''aggregate size facts must not claim one link count''
        else if bq_Available (se_Allocated (sf_Estimated facts)) \<or>
                bq_Available (se_Allocated (sf_Verified facts))
        then Some ''aggregate allocated effects are unavailable without per-entry proof''
        else None
      else if u64_Known (sf_LinkCount facts) \<and> u64_Value (sf_LinkCount facts) = 0
      then Some ''known link count must be at least one''
      else if \<not> u64_Known (sf_LinkCount facts) \<or> u64_Value (sf_LinkCount facts) > 1 then
        if bq_Available (se_Allocated (sf_Estimated facts)) \<or>
           bq_Available (se_Allocated (sf_Verified facts))
        then Some ''allocated effect is unavailable when hard-link ownership is not exclusive''
        else None
      else None)"

definition size_facts_validate :: "size_facts \<Rightarrow> string option" where
  "size_facts_validate facts = checks
     [wrap ''apparent size'' (byte_quantity_validate (sf_Apparent facts)),
      wrap ''allocated size'' (byte_quantity_validate (sf_Allocated facts)),
      wrap ''estimated effect'' (size_effect_validate (sf_Estimated facts)),
      wrap ''verified effect'' (size_effect_validate (sf_Verified facts)),
      wrap ''link count'' (uint64_fact_validate (sf_LinkCount facts)),
      size_facts_ownership facts]"

definition addByteQuantity :: "byte_quantity \<Rightarrow> byte_quantity \<Rightarrow> string + byte_quantity" where
  "addByteQuantity left right =
     (if \<not> bq_Available left \<or> \<not> bq_Available right then Inr no_quantity
      else if bq_Bytes left > (- 1) - bq_Bytes right then Inl ''byte quantity overflow''
      else Inr \<lparr> bq_Available = True, bq_Bytes = bq_Bytes left + bq_Bytes right \<rparr>)"

definition size_facts_add :: "size_facts \<Rightarrow> size_facts \<Rightarrow> string + size_facts" where
  "size_facts_add facts other =
     (case checks [size_facts_validate facts, size_facts_validate other] of
        Some e \<Rightarrow> Inl e
      | None \<Rightarrow>
     (case addByteQuantity (sf_Apparent facts) (sf_Apparent other) of
        Inl e \<Rightarrow> Inl (''apparent size: '' @ e)
      | Inr apparent \<Rightarrow>
     (case addByteQuantity (sf_Allocated facts) (sf_Allocated other) of
        Inl e \<Rightarrow> Inl (''allocated size: '' @ e)
      | Inr allocated \<Rightarrow>
     (case addByteQuantity (se_Apparent (sf_Estimated facts)) (se_Apparent (sf_Estimated other)) of
        Inl e \<Rightarrow> Inl (''estimated apparent effect: '' @ e)
      | Inr estimated \<Rightarrow>
     (case addByteQuantity (se_Apparent (sf_Verified facts)) (se_Apparent (sf_Verified other)) of
        Inl e \<Rightarrow> Inl (''verified apparent effect: '' @ e)
      | Inr verified \<Rightarrow>
     (let result = \<lparr> sf_Apparent = apparent, sf_Allocated = allocated,
            sf_Estimated = \<lparr> se_Apparent = estimated, se_Allocated = no_quantity \<rparr>,
            sf_Verified = \<lparr> se_Apparent = verified, se_Allocated = no_quantity \<rparr>,
            sf_LinkCount = no_uint64, sf_Aggregate = True \<rparr>
      in case size_facts_validate result of Some e \<Rightarrow> Inl e | None \<Rightarrow> Inr result))))))"

section \<open>The abstract reading: optional naturals\<close>

text \<open>
  What a quantity means: an unavailable one is no number, an available one is a natural number.
  A total exists when both parts do.
\<close>

definition quantity_value :: "byte_quantity \<Rightarrow> nat option" where
  "quantity_value q = (if bq_Available q then Some (unat (bq_Bytes q)) else None)"

definition quantity_total :: "nat option \<Rightarrow> nat option \<Rightarrow> nat option" where
  "quantity_total x y = (case (x, y) of (Some m, Some n) \<Rightarrow> Some (m + n) | _ \<Rightarrow> None)"

definition fits_u64 :: "nat option \<Rightarrow> bool" where
  "fits_u64 x = (case x of None \<Rightarrow> True | Some n \<Rightarrow> n < 2 ^ 64)"

text \<open>The four quantities an aggregate keeps.\<close>

definition size_quantities :: "size_facts \<Rightarrow> byte_quantity list" where
  "size_quantities f = [sf_Apparent f, sf_Allocated f, se_Apparent (sf_Estimated f), se_Apparent (sf_Verified f)]"

definition claims_allocated_effect :: "size_facts \<Rightarrow> bool" where
  "claims_allocated_effect f \<longleftrightarrow>
     bq_Available (se_Allocated (sf_Estimated f)) \<or> bq_Available (se_Allocated (sf_Verified f))"

definition exclusive_link :: "size_facts \<Rightarrow> bool" where
  "exclusive_link f \<longleftrightarrow> \<not> sf_Aggregate f \<and> sf_LinkCount f = \<lparr> u64_Known = True, u64_Value = 1 \<rparr>"

lemma fact_validate_None [verdict_simps]:
  "uint64_fact_validate u = None \<longleftrightarrow> u64_Known u \<or> u = no_uint64"
  "uint32_fact_validate v = None \<longleftrightarrow> u32_Known v \<or> v = no_uint32"
  "int64_fact_validate i = None \<longleftrightarrow> i64_Known i \<or> i = no_int64"
  "byte_quantity_validate q = None \<longleftrightarrow> bq_Available q \<or> q = no_quantity"
  by (cases u, cases v, cases i, cases q,
      auto simp: uint64_fact_validate_def uint32_fact_validate_def int64_fact_validate_def
        byte_quantity_validate_def no_uint64_def no_uint32_def no_int64_def no_quantity_def)+

lemma max_u64_minus:
  fixes x y :: u64
  shows "x > (- 1) - y \<longleftrightarrow> unat x + unat y \<ge> 2 ^ 64"
proof -
  have "unat ((- 1) - y) = 2 ^ 64 - 1 - unat y"
  proof -
    have "y \<le> - 1" by (rule word_order.extremum)
    then have "unat ((- 1) - y) = unat (- 1 :: u64) - unat y" by (rule unat_sub)
    then show ?thesis by (simp add: unsigned_minus_1_eq_mask mask_eq_exp_minus_1)
  qed
  moreover have "unat y < 2 ^ 64"
    using unsigned_less [of y, where 'a = nat] by simp
  ultimately show ?thesis
    unfolding word_less_nat_alt by linarith
qed

lemma quantity_eqI: "\<lbrakk> bq_Available p = bq_Available q; bq_Bytes p = bq_Bytes q \<rbrakk> \<Longrightarrow> p = (q :: byte_quantity)"
  by simp

lemma addByteQuantity_Inl:
  "(\<exists>e. addByteQuantity p q = Inl e) \<longleftrightarrow>
     \<not> fits_u64 (quantity_total (quantity_value p) (quantity_value q))"
  by (auto simp: addByteQuantity_def fits_u64_def quantity_total_def quantity_value_def
      max_u64_minus not_less split: if_splits)

lemma addByteQuantity_Inr:
  assumes "addByteQuantity p q = Inr r"
  shows "quantity_value r = quantity_total (quantity_value p) (quantity_value q)"
    and "byte_quantity_validate r = None"
proof -
  have "unat (bq_Bytes p + bq_Bytes q) = unat (bq_Bytes p) + unat (bq_Bytes q)"
    if "\<not> bq_Bytes p > (- 1) - bq_Bytes q"
    using that by (simp add: max_u64_minus not_le unat_word_ariths)
  with assms show "quantity_value r = quantity_total (quantity_value p) (quantity_value q)"
    by (auto simp: addByteQuantity_def quantity_total_def quantity_value_def no_quantity_def
        simp del: not_less split: if_splits)
  from assms show "byte_quantity_validate r = None"
    by (auto simp: addByteQuantity_def verdict_simps split: if_splits)
qed

lemma addByteQuantity_commute: "addByteQuantity p q = addByteQuantity q p"
  by (auto simp: addByteQuantity_def max_u64_minus add.commute)

text \<open>A valid quantity is determined by its abstract reading.\<close>

lemma quantity_value_inject:
  assumes "byte_quantity_validate p = None" "byte_quantity_validate q = None"
  shows "quantity_value p = quantity_value q \<longleftrightarrow> p = q"
  using assms by (cases p; cases q)
    (auto simp: quantity_value_def verdict_simps no_quantity_def word_unat_eq_iff split: if_splits)

lemma addByteQuantity_iff:
  assumes "byte_quantity_validate r = None"
  shows "addByteQuantity p q = Inr r \<longleftrightarrow>
    quantity_value r = quantity_total (quantity_value p) (quantity_value q)"
proof
  assume r: "quantity_value r = quantity_total (quantity_value p) (quantity_value q)"
  have "fits_u64 (quantity_value r)"
    using unsigned_less [of "bq_Bytes r", where 'a = nat] by (simp add: fits_u64_def quantity_value_def)
  then obtain s where s: "addByteQuantity p q = Inr s"
    using r addByteQuantity_Inl [of p q] by (cases "addByteQuantity p q") auto
  with r show "addByteQuantity p q = Inr r"
    using addByteQuantity_Inr [OF s] quantity_value_inject [OF assms, of s] by simp
qed (rule addByteQuantity_Inr)

section \<open>The size facts invariant\<close>

lemma size_effect_validate_None [verdict_simps]:
  "size_effect_validate e = None \<longleftrightarrow>
     byte_quantity_validate (se_Apparent e) = None \<and> byte_quantity_validate (se_Allocated e) = None"
  by (simp add: size_effect_validate_def verdict_simps)

lemma size_facts_ownership_None:
  "size_facts_ownership f = None \<longleftrightarrow>
     (claims_allocated_effect f \<longrightarrow> exclusive_link f) \<and>
     (u64_Known (sf_LinkCount f) \<longrightarrow> \<not> sf_Aggregate f \<and> u64_Value (sf_LinkCount f) \<noteq> 0)"
proof -
  have one: "n \<noteq> 0 \<Longrightarrow> \<not> 1 < n \<longleftrightarrow> n = 1" for n :: u64
    by (simp add: word_less_nat_alt word_unat_eq_iff) linarith
  show ?thesis
    using one [of "u64_Value (sf_LinkCount f)"]
    by (cases "sf_LinkCount f")
      (auto simp: size_facts_ownership_def claims_allocated_effect_def exclusive_link_def)
qed

lemma size_facts_validate_None:
  "size_facts_validate f = None \<longleftrightarrow>
     byte_quantity_validate (sf_Apparent f) = None \<and> byte_quantity_validate (sf_Allocated f) = None \<and>
     size_effect_validate (sf_Estimated f) = None \<and> size_effect_validate (sf_Verified f) = None \<and>
     uint64_fact_validate (sf_LinkCount f) = None \<and>
     (claims_allocated_effect f \<longrightarrow> exclusive_link f) \<and>
     (u64_Known (sf_LinkCount f) \<longrightarrow> \<not> sf_Aggregate f \<and> u64_Value (sf_LinkCount f) \<noteq> 0)"
  by (simp add: size_facts_validate_def checks_Cons size_facts_ownership_None)

section \<open>Properties\<close>

text \<open>The value \<^verbatim>\<open>SizeFacts.Add\<close> promises.\<close>

definition aggregate_of :: "size_facts \<Rightarrow> size_facts \<Rightarrow> size_facts \<Rightarrow> bool" where
  "aggregate_of f g r \<longleftrightarrow>
     map quantity_value (size_quantities r) =
       map2 quantity_total (map quantity_value (size_quantities f)) (map quantity_value (size_quantities g)) \<and>
     list_all (\<lambda>q. byte_quantity_validate q = None) (size_quantities r) \<and>
     se_Allocated (sf_Estimated r) = no_quantity \<and> se_Allocated (sf_Verified r) = no_quantity \<and>
     sf_LinkCount r = no_uint64 \<and> sf_Aggregate r"

lemma aggregate_of_valid: "aggregate_of f g r \<Longrightarrow> size_facts_validate r = None"
  by (auto simp: aggregate_of_def size_facts_validate_None size_effect_validate_None fact_validate_None
      claims_allocated_effect_def size_quantities_def no_quantity_def no_uint64_def)

lemma size_facts_add_Inr:
  "size_facts_add f g = Inr r \<longleftrightarrow>
     size_facts_validate f = None \<and> size_facts_validate g = None \<and> aggregate_of f g r"
proof (cases "size_facts_validate f = None \<and> size_facts_validate g = None")
  case False
  then obtain e where "checks [size_facts_validate f, size_facts_validate g] = Some e"
    by (cases "checks [size_facts_validate f, size_facts_validate g]") (auto simp: checks_Cons)
  with False show ?thesis by (auto simp: size_facts_add_def)
next
  case True
  let ?result = "\<lambda>a b c d. \<lparr> sf_Apparent = a, sf_Allocated = b,
      sf_Estimated = \<lparr> se_Apparent = c, se_Allocated = no_quantity \<rparr>,
      sf_Verified = \<lparr> se_Apparent = d, se_Allocated = no_quantity \<rparr>,
      sf_LinkCount = no_uint64, sf_Aggregate = True \<rparr> :: size_facts"
  let ?sums = "\<lambda>a b c d. addByteQuantity (sf_Apparent f) (sf_Apparent g) = Inr a \<and>
      addByteQuantity (sf_Allocated f) (sf_Allocated g) = Inr b \<and>
      addByteQuantity (se_Apparent (sf_Estimated f)) (se_Apparent (sf_Estimated g)) = Inr c \<and>
      addByteQuantity (se_Apparent (sf_Verified f)) (se_Apparent (sf_Verified g)) = Inr d"
  have agg: "aggregate_of f g (?result a b c d)" if "?sums a b c d" for a b c d
    using that by (auto simp: aggregate_of_def size_quantities_def dest: addByteQuantity_Inr)
  have "size_facts_add f g = Inr r \<longleftrightarrow> (\<exists>a b c d. ?sums a b c d \<and> r = ?result a b c d)"
    using True agg [THEN aggregate_of_valid]
    by (auto simp: size_facts_add_def Let_def split: sum.splits)
  also have "\<dots> \<longleftrightarrow> aggregate_of f g r"
  proof
    assume r: "aggregate_of f g r"
    then have "?sums (sf_Apparent r) (sf_Allocated r) (se_Apparent (sf_Estimated r)) (se_Apparent (sf_Verified r))"
      by (simp add: aggregate_of_def size_quantities_def addByteQuantity_iff)
    moreover have "r = ?result (sf_Apparent r) (sf_Allocated r) (se_Apparent (sf_Estimated r)) (se_Apparent (sf_Verified r))"
      using r by (cases r) (auto simp: aggregate_of_def intro: size_effect.equality)
    ultimately show "\<exists>a b c d. ?sums a b c d \<and> r = ?result a b c d" by blast
  qed (use agg in blast)
  finally show ?thesis using True by simp
qed

text \<open>
  Adding size facts is exact. The addition succeeds with \<open>r\<close> just when both operands are
  valid and each quantity of \<open>r\<close> is the natural-number sum of the operands' quantities, or
  unavailable when one of them is: the 64-bit sum never wraps, an overflow is an error and not a
  smaller total, an unavailable part never counts as zero, and the total never claims allocated
  savings or a link count. In particular a total of valid facts is valid.
\<close>

theorem size_facts_add_exact:
  "(size_facts_add f g = Inr r \<longleftrightarrow>
     size_facts_validate f = None \<and> size_facts_validate g = None \<and> aggregate_of f g r) \<and>
   {r. size_facts_add f g = Inr r} \<subseteq> {r. size_facts_validate r = None \<and> \<not> claims_allocated_effect r}"
  by (auto simp: size_facts_add_Inr aggregate_of_valid)
    (auto simp: aggregate_of_def claims_allocated_effect_def no_quantity_def)

text \<open>
  Totals do not depend on the order of the operands, and whether three facts are grouped to
  the left or to the right, two successful totals are equal.
\<close>

theorem size_facts_add_commute_assoc:
  assumes "size_facts_add f g = Inr fg" "size_facts_add fg h = Inr left"
    and "size_facts_add g h = Inr gh" "size_facts_add f gh = Inr right"
  shows "size_facts_add g f = Inr fg \<and> left = right"
proof -
  have "aggregate_of f g fg" "aggregate_of fg h left" "aggregate_of g h gh" "aggregate_of f gh right"
    and valid: "size_facts_validate f = None" "size_facts_validate g = None"
    using assms by (simp_all add: size_facts_add_Inr)
  note agg = this
  have comm: "quantity_total x y = quantity_total y x" for x y
    by (auto simp: quantity_total_def split: option.splits)
  have assoc: "quantity_total (quantity_total x y) z = quantity_total x (quantity_total y z)" for x y z
    by (auto simp: quantity_total_def split: option.splits)
  have "aggregate_of g f fg"
    using agg(1) comm by (simp add: aggregate_of_def size_quantities_def)
  then have "size_facts_add g f = Inr fg"
    using valid by (simp add: size_facts_add_Inr)
  moreover have "aggregate_of f gh left"
    using agg(1-3) by (auto simp: aggregate_of_def size_quantities_def assoc)
  then have "size_facts_add f gh = Inr left"
    using assms(4) by (simp add: size_facts_add_Inr)
  with assms(4) have "left = right" by simp
  ultimately show ?thesis ..
qed

definition sample_facts :: "u64 \<Rightarrow> size_facts" where
  "sample_facts n = no_size_facts \<lparr> sf_Apparent := \<lparr> bq_Available = True, bq_Bytes = n \<rparr> \<rparr>"

definition sample_total :: "u64 \<Rightarrow> size_facts" where
  "sample_total n = sample_facts n \<lparr> sf_Aggregate := True \<rparr>"

lemma sample_add:
  "size_facts_add (sample_facts 1) (sample_facts 2) = Inr (sample_total 3)"
  "size_facts_add (sample_total 3) (sample_facts 4) = Inr (sample_total 7)"
  "size_facts_add (sample_facts 2) (sample_facts 4) = Inr (sample_total 6)"
  "size_facts_add (sample_facts 1) (sample_total 6) = Inr (sample_total 7)"
  by code_simp+

theorem size_facts_add_commute_assoc_witness:
  "size_facts_add (sample_facts 2) (sample_facts 1) = Inr (sample_total 3)"
  using size_facts_add_commute_assoc [OF sample_add] by simp

end
