(* ===== verification/PathBytes.thy ===== *)
theory PathBytes
  imports Prelude
begin

unbundle bit_operations_syntax

text \<open>
  \<^verbatim>\<open>src/internal/pathbytes/byte_path.go\<close> and \<^verbatim>\<open>trash_percent_codec.go\<close>: relative paths
  as validated raw byte components, their one-way display form, and the canonical percent
  codec of the Trash metadata. A Go string that carries path bytes is a list of bytes here.
  The limits of a decoder are Go \<^verbatim>\<open>int\<close>s that the code only compares and counts up to
  the length of its input, so they are HOL integers.
\<close>

section \<open>Byte paths\<close>

record byte_path =
  path_components :: "bytes list"

record decode_limits =
  MaxInputBytes :: int
  MaxComponents :: int
  MaxDecodedBytes :: int

definition DefaultTrashDecodeLimits :: decode_limits where
  "DefaultTrashDecodeLimits =
     \<lparr>MaxInputBytes = 262144, MaxComponents = 1024, MaxDecodedBytes = 262144\<rparr>"

definition DefaultJSONDecodeLimits :: decode_limits where
  "DefaultJSONDecodeLimits =
     \<lparr>MaxInputBytes = 1048576, MaxComponents = 1024, MaxDecodedBytes = 262144\<rparr>"

definition decode_limits_validate :: "decode_limits \<Rightarrow> string option" where
  "decode_limits_validate limits = checks
    [check (0 < MaxInputBytes limits) ''decode input-byte limit must be positive'',
     check (0 < MaxComponents limits) ''decode component limit must be positive'',
     check (0 < MaxDecodedBytes limits) ''decode decoded-byte limit must be positive'']"

definition validate_component_byte :: "u8 \<Rightarrow> string option" where
  "validate_component_byte value =
     (if value = 0 then Some ''byte path component contains NUL''
      else if value = 0x2F then Some ''byte path component contains slash''
      else None)"

definition validate_component :: "bytes \<Rightarrow> string option" where
  "validate_component component = checks
    [check (component \<noteq> []) ''byte path component is empty'',
     check (component \<noteq> [0x2E] \<and> component \<noteq> [0x2E, 0x2E])
       ''byte path component is not a file name'',
     each validate_component_byte component]"

definition validateComponents :: "bytes list \<Rightarrow> string option" where
  "validateComponents components = checks
    [check (components \<noteq> []) ''byte path must contain at least one component'',
     each validate_component components]"

definition byte_path_validate :: "byte_path \<Rightarrow> string option" where
  "byte_path_validate path = validateComponents (path_components path)"

definition byte_path_new :: "bytes list \<Rightarrow> string + byte_path" where
  "byte_path_new components = (case validateComponents components of
     Some e \<Rightarrow> Inl e | None \<Rightarrow> Inr \<lparr>path_components = components\<rparr>)"

definition byte_path_equal :: "byte_path \<Rightarrow> byte_path \<Rightarrow> bool" where
  "byte_path_equal path other =
     (length (path_components path) = length (path_components other) \<and>
      list_all (\<lambda>i. path_components path ! i = path_components other ! i)
        [0..<length (path_components path)])"

text \<open>What a valid component is, said once for the proofs.\<close>

definition good_component :: "bytes \<Rightarrow> bool" where
  "good_component c \<longleftrightarrow>
     c \<noteq> [] \<and> c \<noteq> [0x2E] \<and> c \<noteq> [0x2E, 0x2E] \<and> 0 \<notin> set c \<and> 0x2F \<notin> set c"

lemma validate_component_byte_None [simp]:
  "validate_component_byte v = None \<longleftrightarrow> v \<noteq> 0 \<and> v \<noteq> 0x2F"
  by (simp add: validate_component_byte_def)

lemma validate_component_None [simp]: "validate_component c = None \<longleftrightarrow> good_component c"
  by (auto simp: validate_component_def good_component_def verdict_simps)

lemma validateComponents_None [simp]:
  "validateComponents cs = None \<longleftrightarrow> cs \<noteq> [] \<and> (\<forall>c \<in> set cs. good_component c)"
  by (simp add: validateComponents_def verdict_simps)

lemma byte_path_new_Inr [simp]:
  "byte_path_new cs = Inr p \<longleftrightarrow>
     path_components p = cs \<and> cs \<noteq> [] \<and> (\<forall>c \<in> set cs. good_component c)"
proof (cases "validateComponents cs")
  case None
  then have good: "cs \<noteq> [] \<and> (\<forall>c \<in> set cs. good_component c)" by simp
  have "byte_path_new cs = Inr \<lparr>path_components = cs\<rparr>"
    unfolding byte_path_new_def None by simp
  with good show ?thesis by (cases p) auto
next
  case (Some e)
  then have "\<not> (cs \<noteq> [] \<and> (\<forall>c \<in> set cs. good_component c))"
    using validateComponents_None [of cs] by simp
  with Some show ?thesis by (auto simp: byte_path_new_def)
qed

lemma byte_path_equal_eq [simp]: "byte_path_equal p q \<longleftrightarrow> p = q"
proof -
  have "byte_path_equal p q \<longleftrightarrow> path_components p = path_components q"
    unfolding byte_path_equal_def list_all_iff by (auto intro: nth_equalityI)
  also have "\<dots> \<longleftrightarrow> p = q" by (cases p; cases q) simp
  finally show ?thesis .
qed

section \<open>Joining components with an escape code\<close>

text \<open>
  Both \<^verbatim>\<open>Display\<close> and \<^verbatim>\<open>PercentEncodeTrashPath\<close> write each byte through an escape code and
  put a slash before every component but the first.
\<close>

fun join_components :: "(u8 \<Rightarrow> bytes) \<Rightarrow> bytes list \<Rightarrow> bytes" where
  "join_components code [] = []"
| "join_components code [c] = concat (map code c)"
| "join_components code (c # cs) = concat (map code c) @ 0x2F # join_components code cs"

lemma join_components_Cons:
  "cs \<noteq> [] \<Longrightarrow> join_components code (c # cs) = concat (map code c) @ 0x2F # join_components code cs"
  by (cases cs) auto

lemma join_components_snoc_empty:
  "join_components code (cs @ [c, []]) = join_components code (cs @ [c]) @ [0x2F]"
  by (induction cs) (auto simp: join_components_Cons)

lemma join_components_snoc_byte:
  "join_components code (cs @ [c @ [v]]) = join_components code (cs @ [c]) @ code v"
  by (induction cs) (auto simp: join_components_Cons)

text \<open>
  What a reader of such a text relies on: the code words are nonempty, none is a proper
  prefix of another one's text, and a byte other than the slash never prints a slash.
\<close>

locale escape_code =
  fixes code :: "u8 \<Rightarrow> bytes"
  assumes code_nonempty: "code v \<noteq> []"
    and code_prefix_free: "code v @ xs = code w @ ys \<Longrightarrow> v = w"
    and code_no_slash: "v \<noteq> 0x2F \<Longrightarrow> 0x2F \<notin> set (code v)"
begin

lemma word_no_slash: "0x2F \<notin> set c \<Longrightarrow> 0x2F \<notin> set (concat (map code c))"
  by (induction c) (auto dest: code_no_slash)

lemma word_inject:
  "0x2F \<notin> set c \<Longrightarrow> 0x2F \<notin> set d \<Longrightarrow> rest \<in> {[], 0x2F # xs} \<Longrightarrow> rest' \<in> {[], 0x2F # ys} \<Longrightarrow>
   concat (map code c) @ rest = concat (map code d) @ rest' \<Longrightarrow> c = d \<and> rest = rest'"
proof (induction c arbitrary: d)
  case Nil
  show ?case
  proof (cases d)
    case Nil
    with Nil.prems show ?thesis by simp
  next
    case (Cons v d')
    obtain b bs where b: "code v = b # bs" using code_nonempty [of v] by (cases "code v") auto
    have "b \<noteq> 0x2F" using code_no_slash [of v] Nil.prems(2) b Cons by auto
    with Nil.prems b Cons show ?thesis by auto
  qed
next
  case outer: (Cons v c)
  show ?case
  proof (cases d)
    case Nil
    obtain b bs where b: "code v = b # bs" using code_nonempty [of v] by (cases "code v") auto
    have "b \<noteq> 0x2F" using code_no_slash [of v] outer.prems(1) b by auto
    with outer.prems b Nil show ?thesis by auto
  next
    case (Cons w d')
    with outer.prems(5) have "v = w" by (auto dest: code_prefix_free)
    with outer.prems Cons outer.IH [of d'] show ?thesis by simp
  qed
qed

lemma join_inject:
  "cs \<noteq> [] \<Longrightarrow> ds \<noteq> [] \<Longrightarrow> \<forall>c \<in> set cs. 0x2F \<notin> set c \<Longrightarrow> \<forall>d \<in> set ds. 0x2F \<notin> set d \<Longrightarrow>
   join_components code cs = join_components code ds \<Longrightarrow> cs = ds"
proof (induction cs arbitrary: ds)
  case Nil
  then show ?case by simp
next
  case (Cons c cs)
  obtain d ds' where ds: "ds = d # ds'" using Cons.prems(2) by (cases ds) auto
  define rc where "rc = (if cs = [] then [] else 0x2F # join_components code cs)"
  define rd where "rd = (if ds' = [] then [] else 0x2F # join_components code ds')"
  have "concat (map code c) @ rc = concat (map code d) @ rd"
    using Cons.prems(5) ds by (auto simp: rc_def rd_def join_components_Cons)
  then have "c = d \<and> rc = rd"
    by (rule word_inject [rotated 4, where xs = "join_components code cs" and ys = "join_components code ds'"])
       (use Cons.prems ds in \<open>auto simp: rc_def rd_def\<close>)
  then show ?case
    using Cons.IH [of ds'] Cons.prems ds by (auto simp: rc_def rd_def split: if_splits)
qed

end

context escape_code
begin

lemma join_slashes:
  "cs \<noteq> [] \<Longrightarrow> \<forall>c \<in> set cs. 0x2F \<notin> set c \<Longrightarrow>
   Suc (count_list (join_components code cs) 0x2F) = length cs"
proof (induction cs)
  case (Cons c cs)
  have "count_list (concat (map code c)) 0x2F = 0"
    using word_no_slash [of c] Cons.prems by (simp add: count_list_0_iff)
  with Cons show ?case by (cases cs) (auto simp: join_components_Cons)
qed simp

end

section \<open>Display\<close>

definition displayPlainByte :: "u8 \<Rightarrow> bool" where
  "displayPlainByte value = (0x21 \<le> value \<and> value \<le> 0x7E \<and> value \<noteq> 0x5C)"

definition upperHex :: "u8 \<Rightarrow> u8" where
  "upperHex value = (if value < 10 then 0x30 + value else 0x41 + (value - 10))"

definition display_byte :: "u8 \<Rightarrow> bytes" where
  "display_byte value =
     (if displayPlainByte value then [value]
      else [0x5C, 0x78, upperHex (drop_bit 4 value), upperHex (value AND 0x0F)])"

definition Display :: "byte_path \<Rightarrow> bytes" where
  "Display path = join_components display_byte (path_components path)"

section \<open>Nibbles\<close>

definition canonicalHexDigit :: "u8 \<Rightarrow> u8 option" where
  "canonicalHexDigit value =
     (if 0x30 \<le> value \<and> value \<le> 0x39 then Some (value - 0x30)
      else if 0x41 \<le> value \<and> value \<le> 0x46 then Some (value - 0x41 + 10)
      else None)"

lemma word_interval_cases:
  fixes v :: u8
  assumes "lo \<le> v" "v \<le> hi"
  shows "v \<in> word_of_nat ` set [unat lo..<Suc (unat hi)]"
proof -
  have "unat v \<in> set [unat lo..<Suc (unat hi)]"
    using assms by (auto simp: word_le_nat_alt)
  then have "word_of_nat (unat v) \<in> (word_of_nat ` set [unat lo..<Suc (unat hi)] :: u8 set)"
    by (rule imageI)
  then show ?thesis by simp
qed

lemma nibble_cases:
  fixes d :: u8
  assumes "d < 16"
  shows "d \<in> {0, 1, 2, 3, 4, 5, 6, 7, 8, 9, 10, 11, 12, 13, 14, 15}"
proof -
  have "d \<le> 15" using assms by (simp add: word_less_nat_alt word_le_nat_alt)
  then show ?thesis
    using word_interval_cases [where lo = 0 and v = d and hi = 15] by (simp add: upt_rec)
qed

lemma canonicalHexDigit_upperHex [codec_simps]: "d < 16 \<Longrightarrow> canonicalHexDigit (upperHex d) = Some d"
  by (drule nibble_cases) (auto simp: canonicalHexDigit_def upperHex_def)

lemma hex_digit_cases:
  assumes "canonicalHexDigit c = Some d"
  shows "d < 16 \<and> upperHex d = c"
proof (cases "0x30 \<le> c \<and> c \<le> 0x39")
  case True
  then have "c \<in> word_of_nat ` set [0x30..<0x3A]"
    using word_interval_cases [where lo = "0x30" and v = c and hi = "0x39"] by simp
  then have "c \<in> {0x30, 0x31, 0x32, 0x33, 0x34, 0x35, 0x36, 0x37, 0x38, 0x39}"
    by (simp add: upt_rec)
  with assms show ?thesis by (auto simp: canonicalHexDigit_def upperHex_def)
next
  case False
  with assms have "0x41 \<le> c \<and> c \<le> 0x46"
    by (auto simp: canonicalHexDigit_def split: if_splits)
  then have "c \<in> word_of_nat ` set [0x41..<0x47]"
    using word_interval_cases [where lo = "0x41" and v = c and hi = "0x46"] by simp
  then have "c \<in> {0x41, 0x42, 0x43, 0x44, 0x45, 0x46}"
    by (simp add: upt_rec)
  with assms show ?thesis by (auto simp: canonicalHexDigit_def upperHex_def)
qed


lemma nibbles_of_byte [codec_simps]:
  fixes v :: u8
  shows "push_bit 4 (drop_bit 4 v) OR (v AND 0x0F) = v"
proof (rule bit_word_eqI)
  fix n
  assume n: "n < LENGTH(8)"
  have "v AND 0x0F = take_bit 4 v" by (simp add: take_bit_eq_mask mask_eq_exp_minus_1)
  with n show "bit (push_bit 4 (drop_bit 4 v) OR (v AND 0x0F)) n = bit v n"
    by (cases "n < 4") (simp_all add: bit_simps)
qed

lemma drop_bit_4_less [codec_simps, simp]: "drop_bit 4 (v :: u8) < 16"
proof -
  have "unat v < 256" using unsigned_less [of v, where 'a = nat] by simp
  then have "unat v div 16 < 16" by simp
  then show ?thesis by (simp add: word_less_nat_alt unat_div drop_bit_eq_div)
qed

lemma and_15_less [codec_simps, simp]: "(v :: u8) AND 0x0F < 16"
proof -
  have "v AND 0x0F \<le> 0x0F" by (rule word_and_le1)
  then show ?thesis by (simp add: word_less_nat_alt word_le_nat_alt)
qed

lemma byte_of_nibbles:
  fixes h l :: u8
  assumes "h < 16" "l < 16"
  shows "drop_bit 4 (push_bit 4 h OR l) = h \<and> (push_bit 4 h OR l) AND 0x0F = l"
  using nibble_cases [OF assms(1)] nibble_cases [OF assms(2)]
  by (auto simp: push_bit_eq_mult)

section \<open>The percent codec of Trash metadata\<close>

definition trashUnreserved :: "u8 \<Rightarrow> bool" where
  "trashUnreserved value =
     (0x61 \<le> value \<and> value \<le> 0x7A \<or> 0x41 \<le> value \<and> value \<le> 0x5A \<or>
      0x30 \<le> value \<and> value \<le> 0x39 \<or>
      value = 0x2D \<or> value = 0x2E \<or> value = 0x5F \<or> value = 0x7E)"

definition percent_byte :: "u8 \<Rightarrow> bytes" where
  "percent_byte value =
     (if trashUnreserved value then [value]
      else [0x25, upperHex (drop_bit 4 value), upperHex (value AND 0x0F)])"

definition PercentEncodeTrashPath :: "byte_path \<Rightarrow> bytes" where
  "PercentEncodeTrashPath path =
     (if byte_path_validate path \<noteq> None then []
      else join_components percent_byte (path_components path))"

text \<open>The first pass counts the components the slashes announce.\<close>

fun count_components :: "int \<Rightarrow> bytes \<Rightarrow> int \<Rightarrow> string + int" where
  "count_components maximum [] n = Inr n"
| "count_components maximum (v # rest) n =
     (if v \<noteq> 0x2F then count_components maximum rest n
      else if maximum \<le> n then Inl ''trash path exceeds component limit''
      else count_components maximum rest (n + 1))"

text \<open>
  The second pass: \<open>components\<close>, the open \<open>component\<close> and the number of decoded bytes are
  the variables of the Go loop; the index into the text is the part still to be read.
\<close>

fun decode_components ::
  "int \<Rightarrow> bytes \<Rightarrow> bytes list \<Rightarrow> bytes \<Rightarrow> int \<Rightarrow> string + (bytes list \<times> bytes)" where
  "decode_components maximum [] components component decoded = Inr (components, component)"
| "decode_components maximum (value # rest) components component decoded =
     (if value = 0x2F then
        (if component = [] then Inl ''trash path contains an empty component''
         else decode_components maximum rest (components @ [component]) [] decoded)
      else if trashUnreserved value then
        (if maximum \<le> decoded then Inl ''trash path exceeds decoded-byte limit''
         else decode_components maximum rest components (component @ [value]) (decoded + 1))
      else if value = 0x25 then
        (case rest of
           high # low # rest' \<Rightarrow>
             (case (canonicalHexDigit high, canonicalHexDigit low) of
                (Some h, Some l) \<Rightarrow>
                  (let byte = push_bit 4 h OR l in
                   if trashUnreserved byte
                   then Inl ''trash path percent-escapes an unreserved byte''
                   else if maximum \<le> decoded then Inl ''trash path exceeds decoded-byte limit''
                   else decode_components maximum rest' components (component @ [byte]) (decoded + 1))
              | _ \<Rightarrow> Inl ''trash path has non-canonical percent escape'')
         | _ \<Rightarrow> Inl ''trash path has incomplete percent escape'')
      else Inl ''trash path contains a non-canonical raw byte'')"

definition PercentDecodeTrashPathWithLimits :: "bytes \<Rightarrow> decode_limits \<Rightarrow> string + byte_path" where
  "PercentDecodeTrashPathWithLimits encoded limits =
     (case decode_limits_validate limits of
        Some e \<Rightarrow> Inl (''trash path decode limits: '' @ e)
      | None \<Rightarrow>
        if encoded = [] then Inl ''trash path is empty''
        else if int (length encoded) > MaxInputBytes limits
        then Inl ''trash path exceeds input-byte limit''
        else
          (case count_components (MaxComponents limits) encoded 1 of
             Inl e \<Rightarrow> Inl e
           | Inr _ \<Rightarrow>
             (case decode_components (MaxDecodedBytes limits) encoded [] [] 0 of
                Inl e \<Rightarrow> Inl e
              | Inr (components, component) \<Rightarrow>
                if component = [] then Inl ''trash path contains an empty component''
                else byte_path_new (components @ [component]))))"

definition PercentDecodeTrashPath :: "bytes \<Rightarrow> string + byte_path" where
  "PercentDecodeTrashPath encoded =
     PercentDecodeTrashPathWithLimits encoded DefaultTrashDecodeLimits"

section \<open>The two escape codes are prefix-free\<close>

lemma escaped_nibbles_inject:
  assumes "upperHex (drop_bit 4 v) = upperHex (drop_bit 4 w)"
    and "upperHex (v AND 0x0F) = upperHex (w AND 0x0F)"
  shows "v = w"
proof -
  have "drop_bit 4 v = drop_bit 4 w"
    by (metis assms(1) canonicalHexDigit_upperHex drop_bit_4_less option.inject)
  moreover have "v AND 0x0F = w AND 0x0F"
    by (metis assms(2) canonicalHexDigit_upperHex and_15_less option.inject)
  ultimately show ?thesis
    by (metis nibbles_of_byte)
qed

lemma upperHex_not_slash: "d < 16 \<Longrightarrow> upperHex d \<noteq> 0x2F"
  by (drule nibble_cases) (auto simp: upperHex_def)

interpretation display: escape_code display_byte
proof
  show "display_byte v \<noteq> []" for v by (simp add: display_byte_def)
  show "v = w" if "display_byte v @ xs = display_byte w @ ys" for v w xs ys
    using that escaped_nibbles_inject [of v w]
    by (auto simp: display_byte_def displayPlainByte_def split: if_splits)
  show "0x2F \<notin> set (display_byte v)" if "v \<noteq> 0x2F" for v
    using that upperHex_not_slash [OF drop_bit_4_less, of v] upperHex_not_slash [OF and_15_less, of v]
    by (auto simp: display_byte_def)
qed

interpretation percent: escape_code percent_byte
proof
  show "percent_byte v \<noteq> []" for v by (simp add: percent_byte_def)
  show "v = w" if "percent_byte v @ xs = percent_byte w @ ys" for v w xs ys
    using that escaped_nibbles_inject [of v w]
    by (auto simp: percent_byte_def trashUnreserved_def split: if_splits)
  show "0x2F \<notin> set (percent_byte v)" if "v \<noteq> 0x2F" for v
    using that upperHex_not_slash [OF drop_bit_4_less, of v] upperHex_not_slash [OF and_15_less, of v]
    by (auto simp: percent_byte_def)
qed

lemma good_component_no_slash: "good_component c \<Longrightarrow> 0x2F \<notin> set c"
  by (simp add: good_component_def)

section \<open>The decoder accepts exactly the encoder's output\<close>

lemma count_components_Inr:
  "n \<le> maximum \<Longrightarrow>
   (\<exists>k. count_components maximum es n = Inr k) \<longleftrightarrow> n + int (count_list es 0x2F) \<le> maximum"
  by (induction es arbitrary: n) auto

lemma decode_components_sound:
  "decode_components maximum es cs c n = Inr (cs', c') \<Longrightarrow> n \<le> maximum \<Longrightarrow>
   join_components percent_byte (cs' @ [c']) = join_components percent_byte (cs @ [c]) @ es \<and>
   n + int (length (concat (cs' @ [c']))) \<le> maximum + int (length (concat (cs @ [c])))"
proof (induction maximum es cs c n rule: decode_components.induct)
  case (1 maximum cs c n)
  then show ?case by simp
next
  case (2 maximum v rest cs c n)
  consider (slash) "v = 0x2F" | (plain) "v \<noteq> 0x2F" "trashUnreserved v"
    | (escape) "v = 0x25" "\<not> trashUnreserved v" | (bad) "v \<noteq> 0x2F" "\<not> trashUnreserved v" "v \<noteq> 0x25"
    by blast
  then show ?case
  proof cases
    case slash
    with 2 show ?thesis
      by (auto simp: join_components_snoc_empty split: if_splits)
  next
    case plain
    with "2.prems" have step: "decode_components maximum rest cs (c @ [v]) (n + 1) = Inr (cs', c')"
      and lim: "n + 1 \<le> maximum"
      by (auto split: if_splits)
    then show ?thesis
      using "2.IH"(2) [OF plain] plain
      by (auto simp: join_components_snoc_byte percent_byte_def)
  next
    case escape
    obtain a b rest' where rest: "rest = a # b # rest'"
      using "2.prems" escape by (cases rest; cases "tl rest") auto
    obtain h l where h: "canonicalHexDigit a = Some h" and l: "canonicalHexDigit b = Some l"
      using "2.prems" escape rest
      by (cases "canonicalHexDigit a"; cases "canonicalHexDigit b") auto
    have u: "\<not> trashUnreserved (push_bit 4 h OR l)" and lim: "n + 1 \<le> maximum"
      and step: "decode_components maximum rest' cs (c @ [push_bit 4 h OR l]) (n + 1) = Inr (cs', c')"
      using "2.prems" escape rest h l by (simp_all add: Let_def split: if_splits)
    have hl: "h < 16" "l < 16" "upperHex h = a" "upperHex l = b"
      using hex_digit_cases [OF h] hex_digit_cases [OF l] by auto
    have "percent_byte (push_bit 4 h OR l) = [0x25, a, b]"
      using u hl byte_of_nibbles [OF hl(1,2)] by (simp add: percent_byte_def)
    moreover have "v \<noteq> 0x2F" using escape by auto
    ultimately show ?thesis
      using "2.IH"(3) [OF _ escape(2,1) rest refl _ h l refl u _ step lim] escape rest lim
      by (auto simp: join_components_snoc_byte)
  next
    case bad
    with "2.prems" show ?thesis by simp
  qed
qed

lemma decode_components_word:
  "0x2F \<notin> set x \<Longrightarrow> n + int (length x) \<le> maximum \<Longrightarrow>
   decode_components maximum (concat (map percent_byte x) @ es) cs c n =
   decode_components maximum es cs (c @ x) (n + int (length x))"
proof (induction x arbitrary: c n)
  case Nil
  then show ?case by simp
next
  case (Cons v x)
  have "decode_components maximum (percent_byte v @ concat (map percent_byte x) @ es) cs c n =
      decode_components maximum (concat (map percent_byte x) @ es) cs (c @ [v]) (n + 1)"
    using Cons.prems canonicalHexDigit_upperHex [OF drop_bit_4_less, of v]
      canonicalHexDigit_upperHex [OF and_15_less, of v] nibbles_of_byte [of v]
    by (auto simp: percent_byte_def trashUnreserved_def)
  with Cons.IH [of "n + 1" "c @ [v]"] Cons.prems show ?case by (simp add: algebra_simps)
qed

lemma decode_components_join:
  "ds \<noteq> [] \<Longrightarrow> \<forall>d \<in> set ds. d \<noteq> [] \<and> 0x2F \<notin> set d \<Longrightarrow> n + int (length (concat ds)) \<le> maximum \<Longrightarrow>
   decode_components maximum (join_components percent_byte ds) cs [] n = Inr (cs @ butlast ds, last ds)"
proof (induction ds arbitrary: cs n)
  case Nil
  then show ?case by simp
next
  case (Cons d ds)
  show ?case
  proof (cases "ds = []")
    case True
    then show ?thesis
      using Cons.prems decode_components_word [of d n maximum "[]" cs "[]"] by simp
  next
    case False
    have "decode_components maximum (join_components percent_byte (d # ds)) cs [] n =
        decode_components maximum (0x2F # join_components percent_byte ds) cs d (n + int (length d))"
      using Cons.prems False
        decode_components_word [of d n maximum "0x2F # join_components percent_byte ds" cs "[]"]
      by (simp add: join_components_Cons)
    also have "\<dots> = Inr ((cs @ [d]) @ butlast ds, last ds)"
      using Cons.prems Cons.IH [of "n + int (length d)" "cs @ [d]"] False by simp
    finally show ?thesis using False by simp
  qed
qed

text \<open>The budgets of a decoder, as bounds on the path it returns.\<close>

definition path_within :: "decode_limits \<Rightarrow> byte_path \<Rightarrow> bool" where
  "path_within limits p \<longleftrightarrow>
     int (length (PercentEncodeTrashPath p)) \<le> MaxInputBytes limits \<and>
     int (length (path_components p)) \<le> MaxComponents limits \<and>
     int (length (concat (path_components p))) \<le> MaxDecodedBytes limits"

lemma byte_path_validate_None [simp]:
  "byte_path_validate p = None \<longleftrightarrow>
     path_components p \<noteq> [] \<and> (\<forall>c \<in> set (path_components p). good_component c)"
  by (simp add: byte_path_validate_def)

lemma decode_limits_validate_None [simp]:
  "decode_limits_validate limits = None \<longleftrightarrow>
     0 < MaxInputBytes limits \<and> 0 < MaxComponents limits \<and> 0 < MaxDecodedBytes limits"
  by (simp add: decode_limits_validate_def verdict_simps)

lemma percent_encode_valid:
  "byte_path_validate p = None \<Longrightarrow>
   PercentEncodeTrashPath p = join_components percent_byte (path_components p)"
  by (simp add: PercentEncodeTrashPath_def)

lemma percent_encode_nonempty:
  assumes "byte_path_validate p = None"
  shows "PercentEncodeTrashPath p \<noteq> []"
proof -
  obtain c cs where "path_components p = c # cs" "good_component c"
    using assms by (cases "path_components p") auto
  moreover obtain v c' where "c = v # c'"
    using \<open>good_component c\<close> by (cases c) (auto simp: good_component_def)
  ultimately show ?thesis
    using percent_encode_valid [OF assms] percent.code_nonempty [of v]
    by (cases cs) (auto simp: join_components_Cons)
qed

lemma percent_decode_complete:
  assumes "decode_limits_validate limits = None" and valid: "byte_path_validate p = None"
    and within: "path_within limits p"
  shows "PercentDecodeTrashPathWithLimits (PercentEncodeTrashPath p) limits = Inr p"
proof -
  let ?cs = "path_components p" and ?e = "PercentEncodeTrashPath p"
  have cs: "?cs \<noteq> []" "\<forall>c \<in> set ?cs. c \<noteq> [] \<and> 0x2F \<notin> set c"
    using valid by (auto simp: good_component_def)
  have "Suc (count_list ?e 0x2F) = length ?cs"
    using percent.join_slashes [of ?cs] cs percent_encode_valid [OF valid] by simp
  then obtain k where k: "count_components (MaxComponents limits) ?e 1 = Inr k"
    using count_components_Inr [of 1 "MaxComponents limits" ?e] within assms(1)
    by (force simp: path_within_def)
  have "decode_components (MaxDecodedBytes limits) ?e [] [] 0 = Inr (butlast ?cs, last ?cs)"
    using decode_components_join [of ?cs 0 "MaxDecodedBytes limits" "[]"] cs within
      percent_encode_valid [OF valid] by (simp add: path_within_def)
  moreover have "last ?cs \<noteq> []" using cs by simp
  moreover have "byte_path_new ?cs = Inr p" using valid by simp
  ultimately show ?thesis
    unfolding PercentDecodeTrashPathWithLimits_def assms(1)
    using k within percent_encode_nonempty [OF valid] cs by (simp add: path_within_def)
qed

lemma percent_decode_sound:
  assumes "PercentDecodeTrashPathWithLimits e limits = Inr p"
  shows "decode_limits_validate limits = None \<and> byte_path_validate p = None \<and>
    e = PercentEncodeTrashPath p \<and> path_within limits p"
proof -
  have lim: "decode_limits_validate limits = None" and size: "int (length e) \<le> MaxInputBytes limits"
    using assms by (auto simp: PercentDecodeTrashPathWithLimits_def split: option.splits if_splits)
  obtain k cs c where count: "count_components (MaxComponents limits) e 1 = Inr k"
    and loop: "decode_components (MaxDecodedBytes limits) e [] [] 0 = Inr (cs, c)"
    and new: "byte_path_new (cs @ [c]) = Inr p"
    using assms
    by (auto simp: PercentDecodeTrashPathWithLimits_def split: option.splits if_splits sum.splits)
  have p: "path_components p = cs @ [c]" "\<forall>d \<in> set (cs @ [c]). good_component d"
    using new by auto
  then have valid: "byte_path_validate p = None" by simp
  have e: "e = PercentEncodeTrashPath p"
    and bytes: "int (length (concat (path_components p))) \<le> MaxDecodedBytes limits"
    using decode_components_sound [OF loop] lim p percent_encode_valid [OF valid] by auto
  have "Suc (count_list e 0x2F) = length (path_components p)"
    using percent.join_slashes [of "path_components p"] valid e percent_encode_valid [OF valid]
    by (auto simp: good_component_no_slash)
  then have "int (length (path_components p)) \<le> MaxComponents limits"
    using count count_components_Inr [of 1 "MaxComponents limits" e] lim by force
  with lim valid e bytes size show ?thesis by (simp add: path_within_def)
qed

section \<open>Properties\<close>

text \<open>
  C40: the strict decoder of Trash paths accepts exactly one text for each valid path: it
  returns a path just when the limits are positive, the path is valid, the text is that
  path's own canonical percent encoding, and the text's bytes, the components and the decoded
  bytes are within the three limits. Everything else is an error.
\<close>

theorem percent_decode_iff:
  "PercentDecodeTrashPathWithLimits e limits = Inr p \<longleftrightarrow>
     decode_limits_validate limits = None \<and> byte_path_validate p = None \<and>
     e = PercentEncodeTrashPath p \<and> path_within limits p"
  using percent_decode_sound percent_decode_complete by blast

interpretation percent_codec: canonical_codec
  "\<lambda>p. Some (PercentEncodeTrashPath p)" "\<lambda>e. ok (PercentDecodeTrashPath e)"
  by unfold_locales (auto simp: PercentDecodeTrashPath_def dest: percent_decode_sound)

text \<open>
  The one-way display form never merges two paths (different valid paths are displayed
  differently) and prints only visible ASCII: no space, control byte or escape sequence of a
  component reaches a terminal.
\<close>

theorem display_faithful:
  assumes "byte_path_validate p = None" and "byte_path_validate q = None"
  shows "(Display p = Display q \<longleftrightarrow> p = q) \<and> list_all (\<lambda>b. 0x21 \<le> b \<and> b \<le> 0x7E) (Display p)"
proof -
  have inj: "p = q" if "Display p = Display q"
  proof -
    have "path_components p = path_components q"
      using display.join_inject [of "path_components p" "path_components q"] assms that
      by (auto simp: Display_def good_component_no_slash)
    then show ?thesis by (cases p; cases q) simp
  qed
  have "0x21 \<le> upperHex d \<and> upperHex d \<le> 0x7E" if "d < 16" for d
    using nibble_cases [OF that] by (auto simp: upperHex_def)
  then have "\<forall>b \<in> set (display_byte v). 0x21 \<le> b \<and> b \<le> 0x7E" for v
    by (auto simp: display_byte_def displayPlainByte_def)
  then have "\<forall>b \<in> set (join_components display_byte cs). 0x21 \<le> b \<and> b \<le> 0x7E" for cs
    by (induction display_byte cs rule: join_components.induct) auto
  with inj show ?thesis by (auto simp: Display_def list_all_iff)
qed

theorem display_faithful_witness:
  "Display \<lparr>path_components = [[0x61, 0x20]]\<rparr> \<noteq> Display \<lparr>path_components = [[0x61], [0x20]]\<rparr> \<and>
   list_all (\<lambda>b. 0x21 \<le> b \<and> b \<le> 0x7E) (Display \<lparr>path_components = [[0x61, 0x20]]\<rparr>)"
proof -
  have "byte_path_validate \<lparr>path_components = [[0x61, 0x20]]\<rparr> = None"
    "byte_path_validate \<lparr>path_components = [[0x61], [0x20]]\<rparr> = None"
    by code_simp+
  from display_faithful [OF this] show ?thesis by simp
qed

end
