(* ===== verification/DomainIds.thy ===== *)
theory DomainIds
  imports PathBytes
begin

unbundle bit_operations_syntax

text \<open>
  \<^verbatim>\<open>src/internal/domain/identifiers.go\<close> and \<^verbatim>\<open>capability.go\<close>: the closed string vocabularies
  and the typed identifiers every other domain type is built from, the digests with their
  domain separators, and the capability snapshot. Go's string types (identifiers and closed
  vocabularies alike) are HOL strings: an unknown value is representable, as it is in Go, and
  it is the \<open>validate\<close> functions that reject it. SHA-256 is an argument of the definitions
  that hash.
\<close>

section \<open>Stable identifiers\<close>

type_synonym provider_id = string
type_synonym trusted_root_id = string
type_synonym candidate_id = string
type_synonym action_id = string
type_synonym run_id = string
type_synonym capability_id = string
type_synonym manager_object_id = string
type_synonym command = string

definition lower_or_digit :: "char \<Rightarrow> bool" where
  "lower_or_digit c = (CHR ''a'' \<le> c \<and> c \<le> CHR ''z'' \<or> CHR ''0'' \<le> c \<and> c \<le> CHR ''9'')"

definition upper_letter :: "char \<Rightarrow> bool" where
  "upper_letter c = (CHR ''A'' \<le> c \<and> c \<le> CHR ''Z'')"

definition stable_id_byte :: "string \<Rightarrow> char option \<Rightarrow> char \<Rightarrow> string option" where
  "stable_id_byte name prev character =
     check (lower_or_digit character \<or> prev \<noteq> None \<and> character \<in> {CHR ''-'', CHR ''_'', CHR ''.''})
       (name @ '' contains unsupported byte'')"

definition validateStableID :: "string \<Rightarrow> string \<Rightarrow> string option" where
  "validateStableID name value = (case value of
     [] \<Rightarrow> Some (name @ '' must contain 1 through 96 bytes'')
   | first # _ \<Rightarrow> checks
       [check (length value \<le> 96) (name @ '' must contain 1 through 96 bytes''),
        check (first \<noteq> CHR ''-'' \<and> first \<noteq> CHR ''.'')
          (name @ '' must begin with a lowercase letter or digit''),
        each_prev (stable_id_byte name) value])"

definition provider_id_validate :: "provider_id \<Rightarrow> string option" where
  "provider_id_validate = validateStableID ''provider ID''"

definition trusted_root_id_validate :: "trusted_root_id \<Rightarrow> string option" where
  "trusted_root_id_validate = validateStableID ''trusted root ID''"

definition candidate_id_validate :: "candidate_id \<Rightarrow> string option" where
  "candidate_id_validate = validateStableID ''candidate ID''"

definition action_id_validate :: "action_id \<Rightarrow> string option" where
  "action_id_validate = validateStableID ''action ID''"

definition run_id_validate :: "run_id \<Rightarrow> string option" where
  "run_id_validate = validateStableID ''run ID''"

definition capability_id_validate :: "capability_id \<Rightarrow> string option" where
  "capability_id_validate = validateStableID ''capability ID''"

text \<open>\<^verbatim>\<open>NewProviderID\<close> and its siblings: the validated string itself.\<close>

definition new_id :: "('i \<Rightarrow> string option) \<Rightarrow> 'i \<Rightarrow> string + 'i" where
  "new_id validate value = (case validate value of Some e \<Rightarrow> Inl e | None \<Rightarrow> Inr value)"

section \<open>Manager object identifiers\<close>

fun strings_contains :: "string \<Rightarrow> string \<Rightarrow> bool" where
  "strings_contains [] sub = (sub = [])"
| "strings_contains (c # s) sub = (take (length sub) (c # s) = sub \<or> strings_contains s sub)"

definition manager_object_byte :: "char \<Rightarrow> string option" where
  "manager_object_byte character =
     (if character < CHR 0x21 \<or> CHR 0x7E < character
      then Some ''manager object ID contains a non-printable byte''
      else if lower_or_digit character \<or> upper_letter character \<or> character \<in> set ''._:+@/=-''
      then None
      else Some ''manager object ID contains unsupported byte'')"

definition manager_object_id_validate :: "manager_object_id \<Rightarrow> string option" where
  "manager_object_id_validate value = (case value of
     [] \<Rightarrow> Some ''manager object ID must contain 1 through 256 bytes''
   | first # _ \<Rightarrow> checks
       [check (length value \<le> 256) ''manager object ID must contain 1 through 256 bytes'',
        check (first \<noteq> CHR ''/'' \<and> first \<noteq> CHR ''-'') ''manager object ID must not begin with that byte'',
        check (\<not> strings_contains value ''..'' \<and> \<not> strings_contains value ''//'')
          ''manager object ID contains a path-like traversal or empty segment'',
        each manager_object_byte value])"

definition commands :: "command list" where
  "commands = [''menu'', ''clean'', ''uninstall'', ''optimize'', ''analyze'', ''status'',
     ''history'', ''purge'', ''installer'', ''fingerprint'', ''completion'', ''update'', ''remove'']"

definition command_validate :: "command \<Rightarrow> string option" where
  "command_validate command = check (command \<in> set commands) ''unknown command''"

section \<open>What the identifier checks establish\<close>

definition stable_id :: "string \<Rightarrow> bool" where
  "stable_id s \<longleftrightarrow> s \<noteq> [] \<and> length s \<le> 96 \<and> lower_or_digit (hd s) \<and>
     (\<forall>c \<in> set (tl s). lower_or_digit c \<or> c \<in> {CHR ''-'', CHR ''_'', CHR ''.''})"

lemma each_prev_from_stable:
  "each_prev_from (stable_id_byte name) (Some p) s = None \<longleftrightarrow>
     (\<forall>c \<in> set s. lower_or_digit c \<or> c \<in> {CHR ''-'', CHR ''_'', CHR ''.''})"
  by (induction s arbitrary: p) (auto simp: stable_id_byte_def check_def)

lemma validateStableID_None [verdict_simps]: "validateStableID name s = None \<longleftrightarrow> stable_id s"
proof (cases s)
  case Nil
  then show ?thesis by (simp add: validateStableID_def stable_id_def)
next
  case (Cons c s')
  have "each_prev (stable_id_byte name) s = None \<longleftrightarrow> lower_or_digit c \<and>
      (\<forall>c \<in> set s'. lower_or_digit c \<or> c \<in> {CHR ''-'', CHR ''_'', CHR ''.''})"
    using each_prev_from_stable [of name c s'] Cons
    by (auto simp: each_prev_def stable_id_byte_def check_def)
  moreover have "\<not> lower_or_digit CHR ''-''" "\<not> lower_or_digit CHR ''.''"
    by (simp_all add: lower_or_digit_def)
  ultimately show ?thesis
    using Cons by (auto simp: validateStableID_def stable_id_def verdict_simps)
qed

lemmas id_validate_defs =
  provider_id_validate_def trusted_root_id_validate_def candidate_id_validate_def
  action_id_validate_def run_id_validate_def capability_id_validate_def

lemma id_validate_None [verdict_simps]:
  "provider_id_validate s = None \<longleftrightarrow> stable_id s"
  "trusted_root_id_validate s = None \<longleftrightarrow> stable_id s"
  "candidate_id_validate s = None \<longleftrightarrow> stable_id s"
  "action_id_validate s = None \<longleftrightarrow> stable_id s"
  "run_id_validate s = None \<longleftrightarrow> stable_id s"
  "capability_id_validate s = None \<longleftrightarrow> stable_id s"
  by (simp_all add: id_validate_defs verdict_simps)

lemma new_id_Inr [simp]: "new_id validate s = Inr t \<longleftrightarrow> validate s = None \<and> t = s"
  by (auto simp: new_id_def split: option.splits)

section \<open>Digests\<close>

text \<open>
  Go's \<^verbatim>\<open>[32]byte\<close> is a list of 32 bytes. \<open>digest_copy\<close> is
  \<^verbatim>\<open>copy(value[:], source)\<close> into a zeroed array, which makes a list of 32 bytes of any source.
\<close>

type_synonym plan_digest = bytes
type_synonym action_binding_digest = bytes
type_synonym trash_layout_binding = bytes
type_synonym config_digest = bytes
type_synonym evidence_digest = bytes

definition planDigestLength :: nat where
  "planDigestLength = 32"

definition zero_digest :: bytes where
  "zero_digest = replicate planDigestLength 0"

definition digest_copy :: "bytes \<Rightarrow> bytes" where
  "digest_copy source = take planDigestLength (source @ zero_digest)"

definition validateDigest :: "string \<Rightarrow> bytes \<Rightarrow> string option" where
  "validateDigest name value = check (value \<noteq> zero_digest) (name @ '' must not be all zero'')"

definition newDigest :: "bytes \<Rightarrow> string + bytes" where
  "newDigest value =
     (if length value \<noteq> planDigestLength then Inl ''digest must contain exactly 32 bytes''
      else let parsed = digest_copy value
           in case validateDigest ''digest'' parsed of Some e \<Rightarrow> Inl e | None \<Rightarrow> Inr parsed)"

definition plan_digest_validate :: "plan_digest \<Rightarrow> string option" where
  "plan_digest_validate = validateDigest ''plan digest''"

definition action_binding_digest_validate :: "action_binding_digest \<Rightarrow> string option" where
  "action_binding_digest_validate = validateDigest ''action binding digest''"

definition trash_layout_binding_validate :: "trash_layout_binding \<Rightarrow> string option" where
  "trash_layout_binding_validate = validateDigest ''Trash layout binding''"

definition config_digest_validate :: "config_digest \<Rightarrow> string option" where
  "config_digest_validate = validateDigest ''config digest''"

definition evidence_digest_validate :: "evidence_digest \<Rightarrow> string option" where
  "evidence_digest_validate = validateDigest ''evidence digest''"

definition trash_layout_binding_is_zero :: "trash_layout_binding \<Rightarrow> bool" where
  "trash_layout_binding_is_zero binding = (binding = zero_digest)"

definition planDigestDomain :: bytes where
  "planDigestDomain = bytes_of (''ldclean.plan.digest.v1'' @ [CHR 0x00])"

definition actionBindingDigestDomain :: bytes where
  "actionBindingDigestDomain = bytes_of (''ldclean.action-binding.digest.v1'' @ [CHR 0x00])"

definition trashLayoutBindingDomain :: bytes where
  "trashLayoutBindingDomain = bytes_of (''ldclean.trash-layout-binding.v1'' @ [CHR 0x00])"

definition ComputePlanDigest :: "(bytes \<Rightarrow> bytes) \<Rightarrow> bytes \<Rightarrow> plan_digest" where
  "ComputePlanDigest sha256 canonicalBody = digest_copy (sha256 (planDigestDomain @ canonicalBody))"

definition ComputeActionBindingDigest :: "(bytes \<Rightarrow> bytes) \<Rightarrow> bytes \<Rightarrow> action_binding_digest" where
  "ComputeActionBindingDigest sha256 canonicalBinding =
     digest_copy (sha256 (actionBindingDigestDomain @ canonicalBinding))"

definition ComputeTrashLayoutBinding :: "(bytes \<Rightarrow> bytes) \<Rightarrow> bytes \<Rightarrow> trash_layout_binding" where
  "ComputeTrashLayoutBinding sha256 canonicalBinding =
     digest_copy (sha256 (trashLayoutBindingDomain @ canonicalBinding))"

definition plan_digest_verify :: "(bytes \<Rightarrow> bytes) \<Rightarrow> plan_digest \<Rightarrow> bytes \<Rightarrow> bool" where
  "plan_digest_verify sha256 digest canonicalBody = (digest = ComputePlanDigest sha256 canonicalBody)"

definition action_binding_digest_verify ::
    "(bytes \<Rightarrow> bytes) \<Rightarrow> action_binding_digest \<Rightarrow> bytes \<Rightarrow> bool" where
  "action_binding_digest_verify sha256 digest canonicalBinding =
     (digest = ComputeActionBindingDigest sha256 canonicalBinding)"

definition trash_layout_binding_verify ::
    "(bytes \<Rightarrow> bytes) \<Rightarrow> trash_layout_binding \<Rightarrow> bytes \<Rightarrow> bool" where
  "trash_layout_binding_verify sha256 binding canonicalBinding =
     (binding = ComputeTrashLayoutBinding sha256 canonicalBinding)"

text \<open>\<^verbatim>\<open>hex.EncodeToString\<close> of the Go library, which the \<^verbatim>\<open>String\<close> methods use.\<close>

definition lower_hex_digit :: "u8 \<Rightarrow> char" where
  "lower_hex_digit d = ''0123456789abcdef'' ! unat d"

definition hex_encode :: "bytes \<Rightarrow> string" where
  "hex_encode bs = concat (map (\<lambda>b. [lower_hex_digit (drop_bit 4 b), lower_hex_digit (b AND 15)]) bs)"

lemma length_zero_digest [simp]: "length zero_digest = 32"
  by (simp add: zero_digest_def planDigestLength_def)

lemma length_digest_copy [simp]: "length (digest_copy s) = 32"
  by (simp add: digest_copy_def planDigestLength_def)

lemma digest_copy_same: "length s = 32 \<Longrightarrow> digest_copy s = s"
  by (simp add: digest_copy_def planDigestLength_def)

lemmas digest_validate_defs =
  plan_digest_validate_def action_binding_digest_validate_def trash_layout_binding_validate_def
  config_digest_validate_def evidence_digest_validate_def

lemma digest_validate_None [verdict_simps]:
  "plan_digest_validate d = None \<longleftrightarrow> d \<noteq> zero_digest"
  "action_binding_digest_validate d = None \<longleftrightarrow> d \<noteq> zero_digest"
  "trash_layout_binding_validate d = None \<longleftrightarrow> d \<noteq> zero_digest"
  "config_digest_validate d = None \<longleftrightarrow> d \<noteq> zero_digest"
  "evidence_digest_validate d = None \<longleftrightarrow> d \<noteq> zero_digest"
  by (simp_all add: digest_validate_defs validateDigest_def)

lemma newDigest_Inr [simp]:
  "newDigest bs = Inr d \<longleftrightarrow> length bs = 32 \<and> bs \<noteq> zero_digest \<and> d = bs"
  by (auto simp: newDigest_def planDigestLength_def validateDigest_def check_def digest_copy_same Let_def)

lemma length_hex_encode [simp]: "length (hex_encode bs) = 2 * length bs"
  by (induction bs) (simp_all add: hex_encode_def)

lemma lower_hex_digit_inject:
  assumes "d < 16" "e < 16"
  shows "lower_hex_digit d = lower_hex_digit e \<longleftrightarrow> d = e"
proof -
  have "unat d < 16" "unat e < 16"
    using assms by (simp_all add: word_less_nat_alt)
  moreover have "distinct ''0123456789abcdef''" by simp
  ultimately have "lower_hex_digit d = lower_hex_digit e \<longleftrightarrow> unat d = unat e"
    unfolding lower_hex_digit_def by (subst nth_eq_iff_index_eq) simp_all
  then show ?thesis by (simp add: word_unat_eq_iff)
qed

lemma hex_encode_inject: "hex_encode xs = hex_encode ys \<longleftrightarrow> xs = ys"
proof
  assume "hex_encode xs = hex_encode ys"
  moreover from this have "length xs = length ys"
    using length_hex_encode [of xs] length_hex_encode [of ys] by simp
  ultimately show "xs = ys"
  proof (induction xs ys rule: list_induct2')
    case (4 x xs y ys)
    then have "lower_hex_digit (drop_bit 4 x) = lower_hex_digit (drop_bit 4 y)"
      "lower_hex_digit (x AND 15) = lower_hex_digit (y AND 15)" "xs = ys"
      by (simp_all add: hex_encode_def)
    then have eqs: "drop_bit 4 x = drop_bit 4 y" "x AND 15 = y AND 15"
      by (simp_all only: lower_hex_digit_inject drop_bit_4_less and_15_less)
    have "x = y"
      using nibbles_of_byte [of x] nibbles_of_byte [of y] unfolding eqs by (rule trans [OF sym])
    then show ?case
      using \<open>xs = ys\<close> by simp
  qed simp_all
qed simp

section \<open>Capability snapshots\<close>

type_synonym capability_state = string

definition capability_states :: "capability_state list" where
  "capability_states = [''supported'', ''unsupported'', ''unavailable'']"

record capability_fact =
  cf_id :: capability_id
  cf_state :: capability_state
  cf_version :: string

record capability_snapshot =
  cs_facts :: "capability_fact list"

definition capability_state_validate :: "capability_state \<Rightarrow> string option" where
  "capability_state_validate state = check (state \<in> set capability_states) ''unknown capability state''"

definition capability_fact_validate :: "capability_fact \<Rightarrow> string option" where
  "capability_fact_validate observed = checks
     [capability_id_validate (cf_id observed),
      capability_state_validate (cf_state observed),
      check (cf_version observed \<noteq> []) ''capability fact requires a probe revision'']"

definition capability_snapshot_validate :: "capability_snapshot \<Rightarrow> string option" where
  "capability_snapshot_validate snapshot = each_prev (\<lambda>prev observed. checks
     [wrap ''capability fact'' (capability_fact_validate observed),
      check_prev (\<lambda>before after. cf_id before < cf_id after) prev observed
        ''capability facts must be strictly sorted by ID'']) (cs_facts snapshot)"

definition NewCapabilitySnapshot :: "capability_fact list \<Rightarrow> string + capability_snapshot" where
  "NewCapabilitySnapshot facts =
     (let cloned = \<lparr> cs_facts = sort_key cf_id facts \<rparr>
      in case capability_snapshot_validate cloned of Some e \<Rightarrow> Inl e | None \<Rightarrow> Inr cloned)"

definition capability_snapshot_clone :: "capability_snapshot \<Rightarrow> capability_snapshot" where
  "capability_snapshot_clone snapshot = \<lparr> cs_facts = [] @ cs_facts snapshot \<rparr>"

lemma capability_snapshot_clone_id [simp]: "capability_snapshot_clone s = s"
  by (simp add: capability_snapshot_clone_def)

lemma capability_snapshot_validate_None [verdict_simps]:
  "capability_snapshot_validate s = None \<longleftrightarrow>
     (\<forall>f \<in> set (cs_facts s). capability_fact_validate f = None) \<and>
     sorted_wrt (<) (map cf_id (cs_facts s))"
  unfolding capability_snapshot_validate_def
  by (subst each_prev_None [where g = "\<lambda>f. capability_fact_validate f = None"
        and good = "\<lambda>a b. cf_id a < cf_id b"])
    (auto simp: verdict_simps successively_less_key)

text \<open>The constructor accepts exactly the sets of valid facts with distinct identifiers, in any order.\<close>

lemma NewCapabilitySnapshot_Inr:
  "NewCapabilitySnapshot facts = Inr s \<longleftrightarrow>
     (\<forall>f \<in> set facts. capability_fact_validate f = None) \<and> distinct (map cf_id facts) \<and>
     cs_facts s = sort_key cf_id facts"
proof -
  have "distinct (map cf_id (sort_key cf_id facts)) \<longleftrightarrow> distinct (map cf_id facts)"
    by (simp add: distinct_map)
  then have "capability_snapshot_validate \<lparr> cs_facts = sort_key cf_id facts \<rparr> = None \<longleftrightarrow>
      (\<forall>f \<in> set facts. capability_fact_validate f = None) \<and> distinct (map cf_id facts)"
    by (simp add: capability_snapshot_validate_None sorted_wrt_less_distinct)
  then show ?thesis
    by (auto simp: NewCapabilitySnapshot_def Let_def split: option.splits)
qed

section \<open>Properties\<close>

text \<open>
  A stable identifier is accepted exactly when it has 1 through 96 bytes, begins with a
  lowercase letter or a digit and continues with those, \<open>-\<close>, \<open>_\<close> and \<open>.\<close>. So an accepted
  identifier has no path separator, no whitespace and no NUL, and is never an option
  (\<open>-x\<close>) nor a dot path component.
\<close>

theorem stable_id_grammar:
  "(validateStableID name s = None \<longleftrightarrow> stable_id s) \<and>
   {s. validateStableID name s = None} \<inter>
     {s. CHR ''/'' \<in> set s \<or> CHR 0x20 \<in> set s \<or> CHR 0x00 \<in> set s \<or> hd s = CHR ''-'' \<or> s \<in> {[], ''.'', ''..''}} = {}"
proof -
  have "\<not> lower_or_digit CHR ''/''" "\<not> lower_or_digit CHR 0x20" "\<not> lower_or_digit CHR 0x00"
    "\<not> lower_or_digit CHR ''-''" "\<not> lower_or_digit CHR ''.''"
    by (simp_all add: lower_or_digit_def)
  moreover from this have "CHR ''/'' \<notin> set s \<and> CHR 0x20 \<notin> set s \<and> CHR 0x00 \<notin> set s" if "stable_id s" for s
    using that by (cases s) (auto simp: stable_id_def)
  ultimately show ?thesis
    by (auto simp: validateStableID_None) (auto simp: stable_id_def)
qed

text \<open>
  The byte strings hashed for a plan, for an action binding and for a Trash layout differ
  whatever the bodies: the domain separators make the three digests independent hashes.
\<close>

theorem digest_domains_separate:
  "planDigestDomain @ body \<noteq> actionBindingDigestDomain @ body' \<and>
   planDigestDomain @ body \<noteq> trashLayoutBindingDomain @ body'' \<and>
   actionBindingDigestDomain @ body' \<noteq> trashLayoutBindingDomain @ body''"
  by (simp add: planDigestDomain_def actionBindingDigestDomain_def trashLayoutBindingDomain_def)

end
