(* ===== verification/DomainGraph.thy ===== *)
theory DomainGraph
  imports DomainIds
begin

text \<open>
  \<^verbatim>\<open>src/internal/domain/transaction_graph.go\<close> (and \<^verbatim>\<open>ManagerScope\<close> of
  \<^verbatim>\<open>candidate.go\<close>): manager object references, provider guarantees, and the
  transaction graph with its canonical order, its binary-search lookup and its validation.
  The code's three-way comparisons are integers, as in Go; the records are instances of
  \<open>linorder\<close>, and the comparisons are shown to decide that order.
\<close>

section \<open>References\<close>

type_synonym manager_scope = string
type_synonym provider_guarantee_kind = string
type_synonym transaction_edge_reason = string

definition manager_scopes :: "manager_scope list" where
  "manager_scopes = [''user'', ''system'']"

definition manager_scope_validate :: "manager_scope \<Rightarrow> string option" where
  "manager_scope_validate scope = check (scope \<in> set manager_scopes) ''unknown manager scope''"

record manager_object_ref =
  ref_ID :: manager_object_id
  ref_Scope :: manager_scope

definition manager_object_ref_validate :: "manager_object_ref \<Rightarrow> string option" where
  "manager_object_ref_validate reference = checks
     [manager_object_id_validate (ref_ID reference), manager_scope_validate (ref_Scope reference)]"

definition NewManagerObjectRef :: "manager_object_id \<Rightarrow> manager_scope \<Rightarrow> string + manager_object_ref" where
  "NewManagerObjectRef id_value scope =
     (let reference = \<lparr> ref_ID = id_value, ref_Scope = scope \<rparr>
      in case manager_object_ref_validate reference of Some e \<Rightarrow> Inl e | None \<Rightarrow> Inr reference)"

definition compareManagerObjectRef :: "manager_object_ref \<Rightarrow> manager_object_ref \<Rightarrow> int" where
  "compareManagerObjectRef left right =
     (if ref_ID left < ref_ID right then - 1
      else if ref_ID left > ref_ID right then 1
      else if ref_Scope left < ref_Scope right then - 1
      else if ref_Scope left > ref_Scope right then 1
      else 0)"

instantiation manager_object_ref_ext :: (linorder) linorder
begin

definition less_eq_manager_object_ref_ext ::
    "'a manager_object_ref_scheme \<Rightarrow> 'a manager_object_ref_scheme \<Rightarrow> bool" where
  "less_eq_manager_object_ref_ext r s \<longleftrightarrow>
     (ref_ID r, ref_Scope r, manager_object_ref.more r) \<le> (ref_ID s, ref_Scope s, manager_object_ref.more s)"

definition less_manager_object_ref_ext ::
    "'a manager_object_ref_scheme \<Rightarrow> 'a manager_object_ref_scheme \<Rightarrow> bool" where
  "less_manager_object_ref_ext r s \<longleftrightarrow>
     (ref_ID r, ref_Scope r, manager_object_ref.more r) < (ref_ID s, ref_Scope s, manager_object_ref.more s)"

instance
  by standard
    (auto simp only: less_eq_manager_object_ref_ext_def less_manager_object_ref_ext_def
      less_le_not_le prod.inject intro: order_trans manager_object_ref.equality dest: antisym)

end

lemma compareManagerObjectRef_simps [simp]:
  "compareManagerObjectRef r s < 0 \<longleftrightarrow> r < s"
  "compareManagerObjectRef r s = 0 \<longleftrightarrow> r = s"
  "0 \<le> compareManagerObjectRef r s \<longleftrightarrow> s \<le> r"
  by (auto simp: compareManagerObjectRef_def less_manager_object_ref_ext_def
      less_eq_manager_object_ref_ext_def less_prod_def less_eq_prod_def)

section \<open>Guarantees, nodes, edges and graphs\<close>

record provider_guarantee =
  pg_Kind :: provider_guarantee_kind
  pg_CoveredObjects :: "manager_object_ref list"

record transaction_node =
  tn_ID :: manager_object_id
  tn_Version :: string
  tn_Scope :: manager_scope
  tn_Protected :: bool
  tn_Essential :: bool
  tn_MaintainerScripts :: bool
  tn_RestartRequired :: bool
  tn_NetworkRequired :: bool

definition node_reference :: "transaction_node \<Rightarrow> manager_object_ref" where
  "node_reference node = \<lparr> ref_ID = tn_ID node, ref_Scope = tn_Scope node \<rparr>"

record transaction_edge =
  te_From :: manager_object_ref
  te_To :: manager_object_ref
  te_Reason :: transaction_edge_reason

record transaction_graph =
  tg_Provider :: provider_id
  tg_Nodes :: "transaction_node list"
  tg_Edges :: "transaction_edge list"
  tg_ProviderEvidenceDigest :: evidence_digest
  tg_Guarantee :: provider_guarantee

definition GuaranteeReadOnlyInventory :: provider_guarantee_kind where
  "GuaranteeReadOnlyInventory = ''read_only_inventory''"

definition GuaranteeBoundedEffectOnly :: provider_guarantee_kind where
  "GuaranteeBoundedEffectOnly = ''bounded_effect_only''"

definition GuaranteeExactTarget :: provider_guarantee_kind where
  "GuaranteeExactTarget = ''exact_target_reprobe_required''"

definition GuaranteeExactGraph :: provider_guarantee_kind where
  "GuaranteeExactGraph = ''exact_graph_reprobe_required''"

lemmas guarantee_kind_defs =
  GuaranteeReadOnlyInventory_def GuaranteeBoundedEffectOnly_def GuaranteeExactTarget_def
  GuaranteeExactGraph_def

definition provider_guarantee_kind_check :: "provider_guarantee \<Rightarrow> string option" where
  "provider_guarantee_kind_check guarantee =
     (if pg_Kind guarantee = GuaranteeReadOnlyInventory then
        check (length (pg_CoveredObjects guarantee) = 0)
          ''read-only inventory guarantee must not claim covered objects''
      else if pg_Kind guarantee \<in> {GuaranteeBoundedEffectOnly, GuaranteeExactGraph} then
        check (length (pg_CoveredObjects guarantee) \<noteq> 0) ''provider guarantee requires covered objects''
      else if pg_Kind guarantee = GuaranteeExactTarget then
        check (length (pg_CoveredObjects guarantee) = 1)
          ''exact-target provider guarantee must cover exactly one object''
      else Some ''unknown provider guarantee'')"

definition provider_guarantee_validate :: "provider_guarantee \<Rightarrow> string option" where
  "provider_guarantee_validate guarantee = checks
     [provider_guarantee_kind_check guarantee,
      each_prev (\<lambda>prev obj. checks
        [wrap ''provider guarantee object'' (manager_object_ref_validate obj),
         check_prev (\<lambda>before after. \<not> compareManagerObjectRef before after \<ge> 0) prev obj
           ''provider guarantee covered objects must be strictly sorted'']) (pg_CoveredObjects guarantee)]"

definition transaction_node_validate :: "transaction_node \<Rightarrow> string option" where
  "transaction_node_validate node = checks
     [manager_object_ref_validate (node_reference node),
      check (tn_Version node \<noteq> []) ''transaction node requires an exact version'']"

definition edge_reasons :: "transaction_edge_reason list" where
  "edge_reasons = [''dependency'', ''replacement'', ''conflict'', ''removal'']"

definition edge_reason_validate :: "transaction_edge_reason \<Rightarrow> string option" where
  "edge_reason_validate reason = check (reason \<in> set edge_reasons) ''unknown transaction edge reason''"

definition compareTransactionEdge :: "transaction_edge \<Rightarrow> transaction_edge \<Rightarrow> int" where
  "compareTransactionEdge left right =
     (let comparison = compareManagerObjectRef (te_From left) (te_From right)
      in if comparison \<noteq> 0 then comparison
      else let comparison = compareManagerObjectRef (te_To left) (te_To right)
      in if comparison \<noteq> 0 then comparison
      else if te_Reason left < te_Reason right then - 1
      else if te_Reason left > te_Reason right then 1
      else 0)"

definition hasNode :: "transaction_graph \<Rightarrow> manager_object_ref \<Rightarrow> bool" where
  "hasNode graph reference =
     (let index = sort_search (length (tg_Nodes graph))
            (\<lambda>index. compareManagerObjectRef (node_reference (tg_Nodes graph ! index)) reference \<ge> 0)
      in index < length (tg_Nodes graph) \<and> node_reference (tg_Nodes graph ! index) = reference)"

definition sameNodeSet :: "transaction_node list \<Rightarrow> manager_object_ref list \<Rightarrow> bool" where
  "sameNodeSet nodes covered =
     (length nodes = length covered \<and>
      list_all (\<lambda>index. node_reference (nodes ! index) = covered ! index) [0..<length nodes])"

definition transaction_graph_edge_check ::
    "transaction_graph \<Rightarrow> transaction_edge option \<Rightarrow> transaction_edge \<Rightarrow> string option" where
  "transaction_graph_edge_check graph prev edge = checks
     [wrap ''transaction edge source'' (manager_object_ref_validate (te_From edge)),
      wrap ''transaction edge destination'' (manager_object_ref_validate (te_To edge)),
      check (te_From edge \<noteq> te_To edge) ''transaction edge is self-referential'',
      wrap ''transaction edge'' (edge_reason_validate (te_Reason edge)),
      check (hasNode graph (te_From edge) \<and> hasNode graph (te_To edge))
        ''transaction edge has a dangling node'',
      check_prev (\<lambda>before after. \<not> compareTransactionEdge before after \<ge> 0) prev edge
        ''transaction graph edges must be strictly sorted and unique'']"

definition transaction_graph_validate :: "transaction_graph \<Rightarrow> string option" where
  "transaction_graph_validate graph = checks
     [provider_id_validate (tg_Provider graph),
      check (length (tg_Nodes graph) \<noteq> 0) ''transaction graph requires at least one node'',
      evidence_digest_validate (tg_ProviderEvidenceDigest graph),
      each_prev (\<lambda>prev node. checks
        [wrap ''transaction node'' (transaction_node_validate node),
         check_prev (\<lambda>before after.
             \<not> compareManagerObjectRef (node_reference before) (node_reference after) \<ge> 0) prev node
           ''transaction graph nodes must be strictly sorted by ID and scope'']) (tg_Nodes graph),
      each_prev (transaction_graph_edge_check graph) (tg_Edges graph),
      provider_guarantee_validate (tg_Guarantee graph),
      each (\<lambda>obj. check (hasNode graph obj)
          ''provider guarantee covers object absent from transaction graph'')
        (pg_CoveredObjects (tg_Guarantee graph)),
      check (\<not> (pg_Kind (tg_Guarantee graph) = GuaranteeExactGraph \<and>
          \<not> sameNodeSet (tg_Nodes graph) (pg_CoveredObjects (tg_Guarantee graph))))
        ''exact graph guarantee is broader than its covered evidence'']"

definition transaction_graph_clone :: "transaction_graph \<Rightarrow> transaction_graph" where
  "transaction_graph_clone graph = graph
     \<lparr> tg_Nodes := [] @ tg_Nodes graph, tg_Edges := [] @ tg_Edges graph,
       tg_Guarantee := tg_Guarantee graph
         \<lparr> pg_CoveredObjects := [] @ pg_CoveredObjects (tg_Guarantee graph) \<rparr> \<rparr>"

instantiation transaction_edge_ext :: (linorder) linorder
begin

definition less_eq_transaction_edge_ext ::
    "'a transaction_edge_scheme \<Rightarrow> 'a transaction_edge_scheme \<Rightarrow> bool" where
  "less_eq_transaction_edge_ext d e \<longleftrightarrow>
     (te_From d, te_To d, te_Reason d, transaction_edge.more d)
       \<le> (te_From e, te_To e, te_Reason e, transaction_edge.more e)"

definition less_transaction_edge_ext ::
    "'a transaction_edge_scheme \<Rightarrow> 'a transaction_edge_scheme \<Rightarrow> bool" where
  "less_transaction_edge_ext d e \<longleftrightarrow>
     (te_From d, te_To d, te_Reason d, transaction_edge.more d)
       < (te_From e, te_To e, te_Reason e, transaction_edge.more e)"

instance
  by standard
    (auto simp only: less_eq_transaction_edge_ext_def less_transaction_edge_ext_def
      less_le_not_le prod.inject intro: order_trans transaction_edge.equality dest: antisym)

end

lemma compareTransactionEdge_simps [simp]:
  "compareTransactionEdge d e < 0 \<longleftrightarrow> d < e"
  "0 \<le> compareTransactionEdge d e \<longleftrightarrow> e \<le> d"
proof -
  have sign: "compareManagerObjectRef r s < 0 \<longleftrightarrow> r < s" "compareManagerObjectRef r s = 0 \<longleftrightarrow> r = s" for r s
    by simp_all
  show less: "compareTransactionEdge d e < 0 \<longleftrightarrow> d < e" for d e
    using sign [of "te_From d" "te_From e"] sign [of "te_To d" "te_To e"]
    by (auto simp: compareTransactionEdge_def less_transaction_edge_ext_def Let_def less_prod_def
        less_eq_prod_def less_le)
  show "0 \<le> compareTransactionEdge d e \<longleftrightarrow> e \<le> d"
    using less [of d e] by auto
qed

text \<open>
  \<^verbatim>\<open>sort.Slice\<close> with a comparison function: the sort by the order it decides. Go's sort is
  not stable, but two different elements the comparison ranks equal are rejected by the
  validation that follows, so the value the constructor returns does not depend on it.
\<close>

definition transaction_graph_sorted :: "transaction_graph \<Rightarrow> transaction_graph" where
  "transaction_graph_sorted graph = graph
     \<lparr> tg_Nodes := sort_key node_reference (tg_Nodes graph),
       tg_Edges := sort (tg_Edges graph),
       tg_Guarantee := tg_Guarantee graph
         \<lparr> pg_CoveredObjects := sort (pg_CoveredObjects (tg_Guarantee graph)) \<rparr> \<rparr>"

definition NewTransactionGraph :: "transaction_graph \<Rightarrow> string + transaction_graph" where
  "NewTransactionGraph graph =
     (let cloned = transaction_graph_sorted (transaction_graph_clone graph)
      in case transaction_graph_validate cloned of Some e \<Rightarrow> Inl e | None \<Rightarrow> Inr cloned)"

section \<open>Lookup\<close>

lemma transaction_graph_clone_id [simp]: "transaction_graph_clone g = g"
  by (simp add: transaction_graph_clone_def)

definition references :: "transaction_graph \<Rightarrow> manager_object_ref list" where
  "references g = map node_reference (tg_Nodes g)"

text \<open>On strictly sorted nodes the binary search decides membership.\<close>

lemma hasNode_iff_member:
  assumes "sorted_wrt (<) (references g)"
  shows "hasNode g r \<longleftrightarrow> r \<in> set (references g)"
proof -
  let ?n = "length (tg_Nodes g)" and ?refs = "references g"
  define f where "f = (\<lambda>index. compareManagerObjectRef (node_reference (tg_Nodes g ! index)) r \<ge> 0)"
  define i where "i = sort_search ?n f"
  have f: "f k \<longleftrightarrow> r \<le> ?refs ! k" if "k < ?n" for k
    using that by (simp add: f_def references_def)
  have mono: "f b" if "a \<le> b" "b < ?n" "f a" for a b
  proof -
    have "?refs ! a \<le> ?refs ! b"
      using that assms by (cases "a = b") (auto simp: sorted_wrt_iff_nth_less references_def less_imp_le)
    with that f show ?thesis by (metis le_less_trans order_trans)
  qed
  have search: "k < i \<Longrightarrow> \<not> f k" "i \<le> k \<Longrightarrow> k < ?n \<Longrightarrow> f k" for k
    unfolding i_def by (rule sort_search_least [of ?n f], use mono in blast, assumption+)+
  have "hasNode g r \<longleftrightarrow> i < ?n \<and> ?refs ! i = r"
    by (auto simp: hasNode_def Let_def i_def f_def references_def)
  also have "\<dots> \<longleftrightarrow> r \<in> set ?refs"
  proof
    assume "r \<in> set ?refs"
    then obtain k where k: "k < ?n" "?refs ! k = r"
      by (auto simp: in_set_conv_nth references_def)
    then have fk: "f k" using f by simp
    then have "i \<le> k" using search(1) [of k] by (meson not_le)
    with k have i: "i < ?n" by simp
    then have "f i" using search(2) [of i] by simp
    with i f have "r \<le> ?refs ! i" by simp
    moreover have "?refs ! i \<le> ?refs ! k"
      using \<open>i \<le> k\<close> k assms by (cases "i = k") (auto simp: sorted_wrt_iff_nth_less references_def less_imp_le)
    ultimately show "i < ?n \<and> ?refs ! i = r" using i k by simp
  qed (auto simp: references_def)
  finally show ?thesis .
qed

lemma sameNodeSet_iff: "sameNodeSet nodes covered \<longleftrightarrow> map node_reference nodes = covered"
  unfolding sameNodeSet_def list_all_iff list_eq_iff_nth_eq by (simp add: Ball_def)

section \<open>What an accepted graph is\<close>

definition guarantee_kind_fits :: "provider_guarantee_kind \<Rightarrow> nat \<Rightarrow> bool" where
  "guarantee_kind_fits kind n \<longleftrightarrow>
     kind = GuaranteeReadOnlyInventory \<and> n = 0 \<or>
     kind \<in> {GuaranteeBoundedEffectOnly, GuaranteeExactGraph} \<and> n \<noteq> 0 \<or>
     kind = GuaranteeExactTarget \<and> n = 1"

text \<open>The order-free meaning of a graph: nothing dangles, nothing is duplicated.\<close>

definition guarantee_ok :: "provider_guarantee \<Rightarrow> bool" where
  "guarantee_ok g \<longleftrightarrow> guarantee_kind_fits (pg_Kind g) (length (pg_CoveredObjects g)) \<and>
     (\<forall>r \<in> set (pg_CoveredObjects g). manager_object_ref_validate r = None) \<and>
     distinct (pg_CoveredObjects g)"

definition edge_ok :: "transaction_graph \<Rightarrow> transaction_edge \<Rightarrow> bool" where
  "edge_ok g e \<longleftrightarrow> manager_object_ref_validate (te_From e) = None \<and>
     manager_object_ref_validate (te_To e) = None \<and> te_From e \<noteq> te_To e \<and>
     te_Reason e \<in> set edge_reasons \<and> {te_From e, te_To e} \<subseteq> set (references g)"

definition graph_ok :: "transaction_graph \<Rightarrow> bool" where
  "graph_ok g \<longleftrightarrow> stable_id (tg_Provider g) \<and> tg_Nodes g \<noteq> [] \<and>
     tg_ProviderEvidenceDigest g \<noteq> zero_digest \<and>
     (\<forall>n \<in> set (tg_Nodes g). transaction_node_validate n = None) \<and> distinct (references g) \<and>
     (\<forall>e \<in> set (tg_Edges g). edge_ok g e) \<and> distinct (tg_Edges g) \<and>
     guarantee_ok (tg_Guarantee g) \<and>
     set (pg_CoveredObjects (tg_Guarantee g)) \<subseteq> set (references g) \<and>
     (pg_Kind (tg_Guarantee g) = GuaranteeExactGraph \<longrightarrow>
        set (pg_CoveredObjects (tg_Guarantee g)) = set (references g))"

definition graph_sorted :: "transaction_graph \<Rightarrow> bool" where
  "graph_sorted g \<longleftrightarrow> sorted (references g) \<and> sorted (tg_Edges g) \<and>
     sorted (pg_CoveredObjects (tg_Guarantee g))"

lemma provider_guarantee_kind_check_None [verdict_simps]:
  "provider_guarantee_kind_check g = None \<longleftrightarrow>
     guarantee_kind_fits (pg_Kind g) (length (pg_CoveredObjects g))"
  by (simp add: provider_guarantee_kind_check_def guarantee_kind_fits_def guarantee_kind_defs)

lemma provider_guarantee_validate_None:
  "provider_guarantee_validate g = None \<longleftrightarrow> guarantee_ok g \<and> sorted (pg_CoveredObjects g)"
proof -
  have "each_prev (\<lambda>prev obj. checks
      [wrap w (manager_object_ref_validate obj),
       check_prev (\<lambda>before after. \<not> compareManagerObjectRef before after \<ge> 0) prev obj m]) rs = None \<longleftrightarrow>
    (\<forall>r \<in> set rs. manager_object_ref_validate r = None) \<and> sorted_wrt (<) rs" for w m rs
    using successively_less_key [of "\<lambda>r. r" rs]
    by (subst each_prev_None [where g = "\<lambda>r. manager_object_ref_validate r = None" and good = "(<)"])
      (auto simp: checks_Cons not_le)
  then show ?thesis
    unfolding provider_guarantee_validate_def
    by (auto simp: checks_Cons guarantee_ok_def provider_guarantee_kind_check_None sorted_wrt_less_distinct)
qed

lemma nodes_check_None:
  "each_prev (\<lambda>prev node. checks
      [wrap w (transaction_node_validate node),
       check_prev (\<lambda>before after.
         \<not> compareManagerObjectRef (node_reference before) (node_reference after) \<ge> 0) prev node m]) ns = None
   \<longleftrightarrow> (\<forall>n \<in> set ns. transaction_node_validate n = None) \<and> sorted_wrt (<) (map node_reference ns)"
  using successively_less_key [of node_reference ns]
  by (subst each_prev_None [where g = "\<lambda>n. transaction_node_validate n = None"
        and good = "\<lambda>a b. node_reference a < node_reference b"])
    (auto simp: checks_Cons not_le)

lemma edges_check_None:
  assumes "sorted_wrt (<) (references g)"
  shows "each_prev (transaction_graph_edge_check g) es = None \<longleftrightarrow>
    (\<forall>e \<in> set es. edge_ok g e) \<and> sorted_wrt (<) es"
  using successively_less_key [of "\<lambda>e. e" es] hasNode_iff_member [OF assms]
  by (subst each_prev_None [where g = "edge_ok g" and good = "(<)"])
    (auto simp: transaction_graph_edge_check_def checks_Cons edge_ok_def edge_reason_validate_def not_le)

lemma transaction_graph_validate_None:
  "transaction_graph_validate g = None \<longleftrightarrow> graph_ok g \<and> graph_sorted g"
proof (cases "sorted_wrt (<) (references g)")
  case False
  then have "transaction_graph_validate g \<noteq> None"
    unfolding transaction_graph_validate_def checks_Cons nodes_check_None by (simp add: references_def)
  with False show ?thesis by (auto simp: graph_ok_def graph_sorted_def sorted_wrt_less_distinct)
next
  case True
  let ?refs = "references g" and ?cov = "pg_CoveredObjects (tg_Guarantee g)"
  have same: "?refs = ?cov \<longleftrightarrow> set ?cov = set ?refs" if "sorted ?cov" "distinct ?cov"
    using that True sorted_distinct_set_unique [of ?refs ?cov] by (auto simp: sorted_wrt_less_distinct)
  have "transaction_graph_validate g = None \<longleftrightarrow>
      stable_id (tg_Provider g) \<and> tg_Nodes g \<noteq> [] \<and> tg_ProviderEvidenceDigest g \<noteq> zero_digest \<and>
      (\<forall>n \<in> set (tg_Nodes g). transaction_node_validate n = None) \<and>
      (\<forall>e \<in> set (tg_Edges g). edge_ok g e) \<and> sorted_wrt (<) (tg_Edges g) \<and>
      guarantee_ok (tg_Guarantee g) \<and> sorted ?cov \<and> set ?cov \<subseteq> set ?refs \<and>
      (pg_Kind (tg_Guarantee g) = GuaranteeExactGraph \<longrightarrow> ?refs = ?cov)"
    using True
    unfolding transaction_graph_validate_def checks_Cons checks_Nil nodes_check_None
      edges_check_None [OF True] provider_guarantee_validate_None id_validate_None
      digest_validate_None each_None check_None hasNode_iff_member [OF True] sameNodeSet_iff
      length_0_conv references_def [symmetric] subset_iff
    by blast
  also have "\<dots> \<longleftrightarrow> graph_ok g \<and> graph_sorted g"
    using True same unfolding graph_ok_def graph_sorted_def sorted_wrt_less_distinct guarantee_ok_def
    by blast
  finally show ?thesis .
qed

lemma graph_sorted_transaction_graph_sorted: "graph_sorted (transaction_graph_sorted g)"
  by (simp add: graph_sorted_def transaction_graph_sorted_def references_def)

lemma graph_ok_transaction_graph_sorted: "graph_ok (transaction_graph_sorted g) \<longleftrightarrow> graph_ok g"
proof -
  let ?s = "transaction_graph_sorted g"
  have refs: "set (references ?s) = set (references g)"
    "distinct (references ?s) \<longleftrightarrow> distinct (references g)"
    by (simp_all add: transaction_graph_sorted_def references_def distinct_map)
  then have edge: "edge_ok ?s = edge_ok g"
    by (simp add: edge_ok_def fun_eq_iff)
  have nonempty: "sort_key node_reference ns = [] \<longleftrightarrow> ns = []" for ns
    by (metis length_0_conv length_sort)
  show ?thesis
    unfolding graph_ok_def guarantee_ok_def refs edge
    by (simp add: transaction_graph_sorted_def nonempty)
qed

lemma NewTransactionGraph_Inr:
  "NewTransactionGraph g = Inr h \<longleftrightarrow> graph_ok g \<and> h = transaction_graph_sorted g"
proof -
  have "transaction_graph_validate (transaction_graph_sorted g) = None \<longleftrightarrow> graph_ok g"
    by (simp add: transaction_graph_validate_None graph_sorted_transaction_graph_sorted
        graph_ok_transaction_graph_sorted)
  then show ?thesis
    by (cases "transaction_graph_validate (transaction_graph_sorted g)")
      (auto simp: NewTransactionGraph_def Let_def)
qed

section \<open>Properties\<close>

text \<open>
  The constructor of a transaction graph accepts a graph exactly when it is well formed in
  the order-free sense (valid references with distinct node identities, edges between present and
  different nodes, no duplicate edge, a guarantee whose covered objects are distinct present nodes,
  all of them for an exact-graph guarantee), and returns it with its three collections sorted,
  a value its own validation accepts and a second construction leaves unchanged.
\<close>

theorem transaction_graph_constructor:
  "(NewTransactionGraph g = Inr h \<longleftrightarrow> graph_ok g \<and> h = transaction_graph_sorted g) \<and>
   (transaction_graph_validate h = None \<longleftrightarrow> graph_ok h \<and> graph_sorted h) \<and>
   {h. NewTransactionGraph g = Inr h} \<subseteq> {h. NewTransactionGraph h = Inr h}"
  by (auto simp: NewTransactionGraph_Inr transaction_graph_validate_None
      graph_ok_transaction_graph_sorted)
    (simp add: transaction_graph_sorted_def sort_key_id_if_sorted)

lemma sort_key_unique:
  assumes "set xs = set ys" "distinct (map k xs)" "distinct (map k ys)"
  shows "sort_key k xs = sort_key k ys"
  using assms
  by (intro map_sorted_distinct_set_unique [of k]) (auto simp: distinct_map)

text \<open>
  The constructed graph is a canonical form. Two accepted graphs of one provider, evidence
  digest and guarantee kind whose nodes, edges and covered objects are the same sets are
  constructed into the same value, whatever order the provider listed them in.
\<close>

theorem transaction_graph_order_insensitive:
  assumes "graph_ok g" "graph_ok g'"
    and "tg_Provider g = tg_Provider g'" "tg_ProviderEvidenceDigest g = tg_ProviderEvidenceDigest g'"
    and "pg_Kind (tg_Guarantee g) = pg_Kind (tg_Guarantee g')"
    and "set (tg_Nodes g) = set (tg_Nodes g')" "set (tg_Edges g) = set (tg_Edges g')"
    and "set (pg_CoveredObjects (tg_Guarantee g)) = set (pg_CoveredObjects (tg_Guarantee g'))"
  shows "NewTransactionGraph g = NewTransactionGraph g' \<and> (\<exists>h. NewTransactionGraph g = Inr h)"
proof -
  have "sort_key node_reference (tg_Nodes g) = sort_key node_reference (tg_Nodes g')"
    "sort (tg_Edges g) = sort (tg_Edges g')"
    "sort (pg_CoveredObjects (tg_Guarantee g)) = sort (pg_CoveredObjects (tg_Guarantee g'))"
    using assms(1,2,6-8) by (intro sort_key_unique; simp add: graph_ok_def references_def guarantee_ok_def)+
  then have "transaction_graph_sorted g = transaction_graph_sorted g'"
    using assms(3-5) unfolding transaction_graph_sorted_def
    by (intro transaction_graph.equality) simp_all
  moreover have "NewTransactionGraph g = Inr (transaction_graph_sorted g)"
    "NewTransactionGraph g' = Inr (transaction_graph_sorted g')"
    using assms(1,2) by (simp_all add: NewTransactionGraph_Inr)
  ultimately show ?thesis by simp
qed

text \<open>
  In a validated graph the binary search finds a reference exactly when a node carries it;
  the dangling-edge and coverage checks therefore miss nothing and reject nothing wrongly.
\<close>

theorem hasNode_decides:
  assumes "transaction_graph_validate g = None"
  shows "hasNode g r \<longleftrightarrow> r \<in> set (references g)"
  using assms
  by (intro hasNode_iff_member)
    (simp add: transaction_graph_validate_None graph_ok_def graph_sorted_def sorted_wrt_less_distinct)

subsection \<open>Witnesses\<close>

definition sample_ref :: "string \<Rightarrow> manager_object_ref" where
  "sample_ref name = \<lparr> ref_ID = name, ref_Scope = ''user'' \<rparr>"

definition sample_node :: "string \<Rightarrow> transaction_node" where
  "sample_node name = \<lparr> tn_ID = name, tn_Version = ''1.0'', tn_Scope = ''user'', tn_Protected = False,
     tn_Essential = False, tn_MaintainerScripts = False, tn_RestartRequired = False,
     tn_NetworkRequired = False \<rparr>"

definition sample_edge :: transaction_edge where
  "sample_edge = \<lparr> te_From = sample_ref ''vim'', te_To = sample_ref ''libc'', te_Reason = ''dependency'' \<rparr>"

definition sample_graph :: "string list \<Rightarrow> transaction_graph" where
  "sample_graph names = \<lparr> tg_Provider = ''apt'', tg_Nodes = map sample_node names,
     tg_Edges = [sample_edge], tg_ProviderEvidenceDigest = replicate 32 1,
     tg_Guarantee = \<lparr> pg_Kind = GuaranteeExactGraph, pg_CoveredObjects = map sample_ref names \<rparr> \<rparr>"

lemma sample_ref_validate:
  "manager_object_ref_validate (sample_ref ''vim'') = None"
  "manager_object_ref_validate (sample_ref ''libc'') = None"
  by code_simp+

lemma sample_node_validate:
  "transaction_node_validate (sample_node ''vim'') = None"
  "transaction_node_validate (sample_node ''libc'') = None"
  by code_simp+

lemma node_reference_sample [simp]: "node_reference (sample_node n) = sample_ref n"
  by (simp add: node_reference_def sample_node_def sample_ref_def)

lemma sample_graph_ok: "graph_ok (sample_graph [''vim'', ''libc''])" "graph_ok (sample_graph [''libc'', ''vim''])"
proof -
  have "stable_id ''apt''" by code_simp
  moreover have "replicate 32 1 \<noteq> zero_digest"
    by (simp add: zero_digest_def planDigestLength_def numeral_eq_Suc)
  moreover have "sample_ref ''vim'' \<noteq> sample_ref ''libc''" "sample_ref ''libc'' \<noteq> sample_ref ''vim''"
    by (simp_all add: sample_ref_def)
  ultimately show "graph_ok (sample_graph [''vim'', ''libc''])" "graph_ok (sample_graph [''libc'', ''vim''])"
    by (simp_all add: graph_ok_def sample_graph_def references_def edge_ok_def sample_edge_def
        sample_ref_validate sample_node_validate guarantee_ok_def guarantee_kind_fits_def edge_reasons_def
        insert_commute)
qed

theorem transaction_graph_order_insensitive_witness:
  "NewTransactionGraph (sample_graph [''vim'', ''libc'']) = NewTransactionGraph (sample_graph [''libc'', ''vim''])"
  using transaction_graph_order_insensitive [OF sample_graph_ok]
  by (simp add: sample_graph_def insert_commute)

theorem hasNode_decides_witness:
  "hasNode (sample_graph [''libc'', ''vim'']) (sample_ref ''vim'') \<and>
   \<not> hasNode (sample_graph [''libc'', ''vim'']) (sample_ref ''nano'')"
proof -
  have "transaction_graph_validate (sample_graph [''libc'', ''vim'']) = None"
    by code_simp
  from hasNode_decides [OF this] show ?thesis
    by (simp add: references_def sample_graph_def sample_ref_def)
qed

end
