(* ===== verification/DomainEvidence.thy ===== *)
theory DomainEvidence
  imports DomainSize DomainGraph
begin

unbundle bit_operations_syntax

text \<open>
  Targets (\<^verbatim>\<open>src/internal/domain/candidate.go\<close>), typed evidence (\<^verbatim>\<open>evidence.go\<close>) and
  apply-time preconditions (\<^verbatim>\<open>precondition.go\<close>): Go's discriminated unions as records with a
  kind and one optional field per variant, so that a union with no variant, two variants or a
  variant of another kind is a value of the model and its rejection a theorem.
\<close>

text \<open>From here on a valid path is an opaque notion.\<close>

declare byte_path_validate_None [simp del] validateComponents_None [simp del]
  byte_path_new_Inr [simp del]

section \<open>Targets\<close>

type_synonym target_kind = string

definition TargetFilesystem :: target_kind where
  "TargetFilesystem = ''filesystem''"

definition TargetManagerObject :: target_kind where
  "TargetManagerObject = ''manager_object''"

record filesystem_target =
  ft_Root :: trusted_root_id
  ft_Path :: byte_path

record manager_object_target =
  mt_Provider :: provider_id
  mt_Object :: manager_object_id
  mt_Scope :: manager_scope

record target =
  tgt_Kind :: target_kind
  tgt_Filesystem :: "filesystem_target option"
  tgt_ManagerObject :: "manager_object_target option"

definition cloneBytePath :: "byte_path \<Rightarrow> byte_path" where
  "cloneBytePath path = (case byte_path_new (path_components path) of
     Inl _ \<Rightarrow> \<lparr> path_components = [] \<rparr> | Inr cloned \<Rightarrow> cloned)"

definition path_check :: "string \<Rightarrow> byte_path \<Rightarrow> string option" where
  "path_check what path = (case byte_path_new (path_components path) of
     Inl e \<Rightarrow> Some (what @ '': '' @ e) | Inr _ \<Rightarrow> None)"

definition target_validate :: "target \<Rightarrow> string option" where
  "target_validate t =
     (if tgt_Kind t = TargetFilesystem then
        (case (tgt_Filesystem t, tgt_ManagerObject t) of
           (Some f, None) \<Rightarrow> checks
             [trusted_root_id_validate (ft_Root f), path_check ''filesystem target path'' (ft_Path f)]
         | _ \<Rightarrow> Some ''filesystem target must contain exactly one filesystem variant'')
      else if tgt_Kind t = TargetManagerObject then
        (case (tgt_ManagerObject t, tgt_Filesystem t) of
           (Some m, None) \<Rightarrow> checks
             [provider_id_validate (mt_Provider m), manager_object_id_validate (mt_Object m),
              manager_scope_validate (mt_Scope m)]
         | _ \<Rightarrow> Some ''manager target must contain exactly one manager-object variant'')
      else Some ''unknown target kind'')"

definition target_clone :: "target \<Rightarrow> target" where
  "target_clone t =
     \<lparr> tgt_Kind = tgt_Kind t,
       tgt_Filesystem = map_option (\<lambda>f. \<lparr> ft_Root = ft_Root f, ft_Path = cloneBytePath (ft_Path f) \<rparr>)
         (tgt_Filesystem t),
       tgt_ManagerObject = map_option (\<lambda>m. \<lparr> mt_Provider = mt_Provider m, mt_Object = mt_Object m,
           mt_Scope = mt_Scope m \<rparr>) (tgt_ManagerObject t) \<rparr>"

definition NewFilesystemTarget :: "trusted_root_id \<Rightarrow> byte_path \<Rightarrow> string + target" where
  "NewFilesystemTarget root path =
     (let t = \<lparr> tgt_Kind = TargetFilesystem,
            tgt_Filesystem = Some \<lparr> ft_Root = root, ft_Path = cloneBytePath path \<rparr>,
            tgt_ManagerObject = None \<rparr>
      in case target_validate t of Some e \<Rightarrow> Inl e | None \<Rightarrow> Inr t)"

definition NewManagerObjectTarget ::
    "provider_id \<Rightarrow> manager_object_id \<Rightarrow> manager_scope \<Rightarrow> string + target" where
  "NewManagerObjectTarget provider obj scope =
     (let t = \<lparr> tgt_Kind = TargetManagerObject, tgt_Filesystem = None,
            tgt_ManagerObject = Some \<lparr> mt_Provider = provider, mt_Object = obj, mt_Scope = scope \<rparr> \<rparr>
      in case target_validate t of Some e \<Rightarrow> Inl e | None \<Rightarrow> Inr t)"

lemma path_check_None [verdict_simps]: "path_check w p = None \<longleftrightarrow> byte_path_validate p = None"
  unfolding path_check_def byte_path_validate_def byte_path_new_def by (auto split: option.splits)

lemma cloneBytePath_cases:
  "cloneBytePath p = (if byte_path_validate p = None then p else \<lparr> path_components = [] \<rparr>)"
  unfolding cloneBytePath_def byte_path_new_def byte_path_validate_def
  by (cases p) (auto split: option.splits)

lemma empty_path_invalid: "byte_path_validate \<lparr> path_components = [] \<rparr> \<noteq> None"
  by (simp add: byte_path_validate_None)

lemma path_clone_rejected: "byte_path_validate (cloneBytePath p) = None \<longleftrightarrow> byte_path_validate p = None"
  using empty_path_invalid by (auto simp: cloneBytePath_cases)

text \<open>The two shapes of a valid target.\<close>

definition filesystem_target_ok :: "filesystem_target \<Rightarrow> bool" where
  "filesystem_target_ok f \<longleftrightarrow> stable_id (ft_Root f) \<and> byte_path_validate (ft_Path f) = None"

definition manager_target_ok :: "manager_object_target \<Rightarrow> bool" where
  "manager_target_ok m \<longleftrightarrow> stable_id (mt_Provider m) \<and>
     manager_object_id_validate (mt_Object m) = None \<and> mt_Scope m \<in> set manager_scopes"

definition target_of_filesystem :: "filesystem_target \<Rightarrow> target" where
  "target_of_filesystem f =
     \<lparr> tgt_Kind = TargetFilesystem, tgt_Filesystem = Some f, tgt_ManagerObject = None \<rparr>"

definition target_of_manager :: "manager_object_target \<Rightarrow> target" where
  "target_of_manager m =
     \<lparr> tgt_Kind = TargetManagerObject, tgt_Filesystem = None, tgt_ManagerObject = Some m \<rparr>"

lemma target_kinds_differ [simp]:
  "TargetFilesystem \<noteq> TargetManagerObject" "TargetManagerObject \<noteq> TargetFilesystem"
  by (simp_all add: TargetFilesystem_def TargetManagerObject_def)

lemma target_validate_None:
  "target_validate t = None \<longleftrightarrow>
     (\<exists>f. t = target_of_filesystem f \<and> filesystem_target_ok f) \<or>
     (\<exists>m. t = target_of_manager m \<and> manager_target_ok m)"
  by (cases t)
    (auto simp: target_validate_def target_of_filesystem_def target_of_manager_def checks_Cons
      filesystem_target_ok_def manager_target_ok_def path_check_None id_validate_None
      manager_scope_validate_def split: option.splits)

lemma target_clone_simps:
  "target_clone (target_of_filesystem f) = target_of_filesystem (f \<lparr> ft_Path := cloneBytePath (ft_Path f) \<rparr>)"
  "target_clone (target_of_manager m) = target_of_manager m"
  by (simp_all add: target_clone_def target_of_filesystem_def target_of_manager_def)

lemma target_clone_valid: "target_validate t = None \<Longrightarrow> target_clone t = t"
  by (auto simp: target_validate_None target_clone_simps filesystem_target_ok_def cloneBytePath_cases)

lemma target_clone_rejected:
  assumes "target_validate (target_clone t) = None"
  shows "target_clone t = t \<and> target_validate t = None"
proof -
  have "target_clone t = t"
  proof (cases t)
    case (fields kind fs mo)
    then show ?thesis
      using assms empty_path_invalid
      by (cases fs; cases mo)
        (auto simp: target_validate_None target_clone_def target_of_filesystem_def target_of_manager_def
          filesystem_target_ok_def cloneBytePath_cases split: if_splits)
  qed
  with assms show ?thesis by simp
qed

interpretation target_copy: defensive_copy target_clone target_validate
  by unfold_locales (blast dest: target_clone_valid target_clone_rejected)+

section \<open>Filesystem snapshots and field masks\<close>

type_synonym file_type = string
type_synonym field_mask = u32

definition FileTypeUnknown :: file_type where
  "FileTypeUnknown = []"

definition file_types :: "file_type list" where
  "file_types = [''regular'', ''directory'', ''symlink'', ''special'']"

definition file_type_validate :: "file_type \<Rightarrow> string option" where
  "file_type_validate fileType = check (fileType \<in> set file_types) ''unknown file type''"

definition FieldDevice :: field_mask where "FieldDevice = push_bit 0 1"
definition FieldInode :: field_mask where "FieldInode = push_bit 1 1"
definition FieldType :: field_mask where "FieldType = push_bit 2 1"
definition FieldUID :: field_mask where "FieldUID = push_bit 3 1"
definition FieldGID :: field_mask where "FieldGID = push_bit 4 1"
definition FieldMode :: field_mask where "FieldMode = push_bit 5 1"
definition FieldLinkCount :: field_mask where "FieldLinkCount = push_bit 6 1"
definition FieldSize :: field_mask where "FieldSize = push_bit 7 1"
definition FieldModifiedAt :: field_mask where "FieldModifiedAt = push_bit 8 1"
definition FieldChangedAt :: field_mask where "FieldChangedAt = push_bit 9 1"
definition FieldMountID :: field_mask where "FieldMountID = push_bit 10 1"

lemmas field_mask_defs = FieldDevice_def FieldInode_def FieldType_def FieldUID_def FieldGID_def
  FieldMode_def FieldLinkCount_def FieldSize_def FieldModifiedAt_def FieldChangedAt_def FieldMountID_def

definition knownFilesystemFieldMask :: field_mask where
  "knownFilesystemFieldMask = FieldDevice OR FieldInode OR FieldType OR FieldUID OR FieldGID OR
     FieldMode OR FieldLinkCount OR FieldSize OR FieldModifiedAt OR FieldChangedAt OR FieldMountID"

record filesystem_snapshot =
  fs_DeviceMajor :: uint32_fact
  fs_DeviceMinor :: uint32_fact
  fs_Inode :: uint64_fact
  fs_Type :: file_type
  fs_UID :: uint32_fact
  fs_GID :: uint32_fact
  fs_Mode :: uint32_fact
  fs_LinkCount :: uint64_fact
  fs_Size :: uint64_fact
  fs_ModifiedAt :: int64_fact
  fs_ChangedAt :: int64_fact
  fs_MountID :: uint64_fact

definition snapshot_facts_check :: "filesystem_snapshot \<Rightarrow> string option" where
  "snapshot_facts_check s = checks
     [wrap ''filesystem device major'' (uint32_fact_validate (fs_DeviceMajor s)),
      wrap ''filesystem device minor'' (uint32_fact_validate (fs_DeviceMinor s)),
      wrap ''filesystem inode'' (uint64_fact_validate (fs_Inode s)),
      wrap ''filesystem UID'' (uint32_fact_validate (fs_UID s)),
      wrap ''filesystem GID'' (uint32_fact_validate (fs_GID s)),
      wrap ''filesystem mode'' (uint32_fact_validate (fs_Mode s)),
      wrap ''filesystem link count'' (uint64_fact_validate (fs_LinkCount s)),
      wrap ''filesystem size'' (uint64_fact_validate (fs_Size s)),
      wrap ''filesystem modified time'' (int64_fact_validate (fs_ModifiedAt s)),
      wrap ''filesystem changed time'' (int64_fact_validate (fs_ChangedAt s)),
      wrap ''filesystem mount ID'' (uint64_fact_validate (fs_MountID s))]"

text \<open>\<^verbatim>\<open>if required&field != 0 && !known { return error }\<close>.\<close>

definition require_field :: "field_mask \<Rightarrow> field_mask \<Rightarrow> bool \<Rightarrow> string \<Rightarrow> string option" where
  "require_field required field known e = (if required AND field \<noteq> 0 \<and> \<not> known then Some e else None)"

definition snapshot_validate_for :: "filesystem_snapshot \<Rightarrow> field_mask \<Rightarrow> string option" where
  "snapshot_validate_for s required = checks
     [check (required \<noteq> 0) ''filesystem precondition requires a named field mask'',
      check (required AND NOT knownFilesystemFieldMask = 0)
        ''filesystem precondition contains unknown field-mask bits'',
      snapshot_facts_check s,
      (if fs_Type s \<noteq> FileTypeUnknown then wrap ''filesystem type'' (file_type_validate (fs_Type s)) else None),
      require_field required FieldDevice (u32_Known (fs_DeviceMajor s) \<and> u32_Known (fs_DeviceMinor s))
        ''filesystem precondition requires observed device major and minor'',
      require_field required FieldInode (u64_Known (fs_Inode s)) ''filesystem precondition requires observed inode'',
      (if required AND FieldType \<noteq> 0
       then wrap ''filesystem precondition requires observed type'' (file_type_validate (fs_Type s)) else None),
      require_field required FieldUID (u32_Known (fs_UID s)) ''filesystem precondition requires observed UID'',
      require_field required FieldGID (u32_Known (fs_GID s)) ''filesystem precondition requires observed GID'',
      require_field required FieldMode (u32_Known (fs_Mode s)) ''filesystem precondition requires observed mode'',
      require_field required FieldLinkCount (u64_Known (fs_LinkCount s))
        ''filesystem precondition requires observed link count'',
      require_field required FieldSize (u64_Known (fs_Size s)) ''filesystem precondition requires observed size'',
      require_field required FieldModifiedAt (i64_Known (fs_ModifiedAt s))
        ''filesystem precondition requires observed modified time'',
      require_field required FieldChangedAt (i64_Known (fs_ChangedAt s))
        ''filesystem precondition requires observed changed time'',
      require_field required FieldMountID (u64_Known (fs_MountID s))
        ''filesystem precondition requires observed mount ID'']"

definition snapshot_validate_observed :: "filesystem_snapshot \<Rightarrow> string option" where
  "snapshot_validate_observed s = snapshot_validate_for s FieldType"

text \<open>The bits of the mask and the facts they name.\<close>

definition observed_fields :: "filesystem_snapshot \<Rightarrow> nat set" where
  "observed_fields s =
     {n. n = 0 \<and> u32_Known (fs_DeviceMajor s) \<and> u32_Known (fs_DeviceMinor s) \<or>
         n = 1 \<and> u64_Known (fs_Inode s) \<or> n = 2 \<and> fs_Type s \<in> set file_types \<or>
         n = 3 \<and> u32_Known (fs_UID s) \<or> n = 4 \<and> u32_Known (fs_GID s) \<or>
         n = 5 \<and> u32_Known (fs_Mode s) \<or> n = 6 \<and> u64_Known (fs_LinkCount s) \<or>
         n = 7 \<and> u64_Known (fs_Size s) \<or> n = 8 \<and> i64_Known (fs_ModifiedAt s) \<or>
         n = 9 \<and> i64_Known (fs_ChangedAt s) \<or> n = 10 \<and> u64_Known (fs_MountID s)}"

definition required_fields :: "field_mask \<Rightarrow> nat set" where
  "required_fields m = {n. bit m n}"

definition snapshot_canonical :: "filesystem_snapshot \<Rightarrow> bool" where
  "snapshot_canonical s \<longleftrightarrow> snapshot_facts_check s = None \<and> fs_Type s \<in> set (FileTypeUnknown # file_types)"

lemma and_push_bit_1: "(m :: u32) AND push_bit n 1 \<noteq> 0 \<longleftrightarrow> bit m n"
  by (simp add: and_exp_eq_0_iff_not_bit)

lemma require_field_None: "require_field m (push_bit n 1) k e = None \<longleftrightarrow> (n \<in> required_fields m \<longrightarrow> k)"
  unfolding require_field_def and_push_bit_1 required_fields_def by simp

lemma known_mask_bits: "knownFilesystemFieldMask = mask 11"
  by (simp add: knownFilesystemFieldMask_def field_mask_defs mask_eq_exp_minus_1)

lemma unknown_bits: "m AND NOT knownFilesystemFieldMask = 0 \<longleftrightarrow> required_fields m \<subseteq> {..<11}"
proof -
  have "m AND NOT knownFilesystemFieldMask = 0 \<longleftrightarrow> take_bit 11 m = m"
    by (simp add: known_mask_bits take_bit_eq_mask bit_eq_iff bit_simps) blast
  also have "\<dots> \<longleftrightarrow> required_fields m \<subseteq> {..<11}"
    using bit_imp_le_length [of m] by (auto simp: required_fields_def bit_eq_iff bit_simps)
  finally show ?thesis .
qed

lemma snapshot_facts_check_None:
  "snapshot_facts_check s = None \<longleftrightarrow>
     list_all (\<lambda>f. uint32_fact_validate f = None)
       [fs_DeviceMajor s, fs_DeviceMinor s, fs_UID s, fs_GID s, fs_Mode s] \<and>
     list_all (\<lambda>f. uint64_fact_validate f = None) [fs_Inode s, fs_LinkCount s, fs_Size s, fs_MountID s] \<and>
     list_all (\<lambda>f. int64_fact_validate f = None) [fs_ModifiedAt s, fs_ChangedAt s]"
  unfolding snapshot_facts_check_def checks_Cons checks_Nil wrap_None list.pred_inject(2)
  by (simp only: list.pred_inject(1) simp_thms) blast

lemma observed_fields_simps:
  "0 \<in> observed_fields s \<longleftrightarrow> u32_Known (fs_DeviceMajor s) \<and> u32_Known (fs_DeviceMinor s)"
  "Suc 0 \<in> observed_fields s \<longleftrightarrow> u64_Known (fs_Inode s)"
  "2 \<in> observed_fields s \<longleftrightarrow> fs_Type s \<in> set file_types"
  "3 \<in> observed_fields s \<longleftrightarrow> u32_Known (fs_UID s)"
  "4 \<in> observed_fields s \<longleftrightarrow> u32_Known (fs_GID s)"
  "5 \<in> observed_fields s \<longleftrightarrow> u32_Known (fs_Mode s)"
  "6 \<in> observed_fields s \<longleftrightarrow> u64_Known (fs_LinkCount s)"
  "7 \<in> observed_fields s \<longleftrightarrow> u64_Known (fs_Size s)"
  "8 \<in> observed_fields s \<longleftrightarrow> i64_Known (fs_ModifiedAt s)"
  "9 \<in> observed_fields s \<longleftrightarrow> i64_Known (fs_ChangedAt s)"
  "10 \<in> observed_fields s \<longleftrightarrow> u64_Known (fs_MountID s)"
  by (simp_all add: observed_fields_def)

lemma required_subset:
  "required_fields m \<subseteq> {..<11} \<Longrightarrow> required_fields m \<subseteq> S \<longleftrightarrow>
     list_all (\<lambda>n. n \<in> required_fields m \<longrightarrow> n \<in> S) [0..<11]"
  unfolding list_all_iff set_upt subset_iff by auto

lemma required_fields_empty: "required_fields m = {} \<longleftrightarrow> m = 0"
proof
  assume "required_fields m = {}"
  then show "m = 0" by (simp add: required_fields_def bit_eq_iff)
qed (simp add: required_fields_def)

lemma snapshot_validate_for_None:
  "snapshot_validate_for s m = None \<longleftrightarrow> required_fields m \<noteq> {} \<and> required_fields m \<subseteq> {..<11} \<and>
     snapshot_canonical s \<and> required_fields m \<subseteq> observed_fields s"
proof (cases "required_fields m \<subseteq> {..<11}")
  case True
  have ftype: "(if fs_Type s \<noteq> FileTypeUnknown then wrap w (file_type_validate (fs_Type s)) else None) = None \<longleftrightarrow>
      fs_Type s \<in> set (FileTypeUnknown # file_types)" for w
    by (auto simp: file_type_validate_def)
  have reqtyp: "(if m AND push_bit 2 1 \<noteq> 0 then wrap w (file_type_validate (fs_Type s)) else None) = None \<longleftrightarrow>
      (2 \<in> required_fields m \<longrightarrow> 2 \<in> observed_fields s)" for w
    unfolding and_push_bit_1 by (simp add: file_type_validate_def required_fields_def observed_fields_simps)
  have upt: "[0..<11] = [0, Suc 0, 2, 3, 4, 5, 6, 7, 8, 9, 10]" by (simp add: upt_rec)
  show ?thesis
    using True
    unfolding required_subset [OF True] upt list.pred_inject
      snapshot_validate_for_def checks_Cons checks_Nil check_None ftype field_mask_defs reqtyp require_field_None
      unknown_bits snapshot_canonical_def required_fields_empty
    by (simp add: observed_fields_simps)
next
  case False
  then show ?thesis
    unfolding snapshot_validate_for_def checks_Cons check_None unknown_bits by blast
qed

section \<open>Evidence\<close>

type_synonym evidence_kind = string
type_synonym installer_format = string
type_synonym profile_manager_kind = string

definition EvidenceFilesystemIdentity :: evidence_kind where
  "EvidenceFilesystemIdentity = ''filesystem_identity''"
definition EvidencePackageTransaction :: evidence_kind where
  "EvidencePackageTransaction = ''package_transaction''"
definition EvidenceManagerObject :: evidence_kind where
  "EvidenceManagerObject = ''manager_object''"
definition EvidenceCapability :: evidence_kind where
  "EvidenceCapability = ''capability''"
definition EvidenceProjectMarker :: evidence_kind where
  "EvidenceProjectMarker = ''project_marker''"
definition EvidenceInstallerMetadata :: evidence_kind where
  "EvidenceInstallerMetadata = ''installer_metadata''"
definition EvidenceProfileManager :: evidence_kind where
  "EvidenceProfileManager = ''profile_manager''"

lemmas evidence_kind_defs = EvidenceFilesystemIdentity_def EvidencePackageTransaction_def
  EvidenceManagerObject_def EvidenceCapability_def EvidenceProjectMarker_def
  EvidenceInstallerMetadata_def EvidenceProfileManager_def

definition installer_formats :: "installer_format list" where
  "installer_formats = [''deb'', ''rpm'', ''archive'']"

definition profile_managers :: "profile_manager_kind list" where
  "profile_managers = [''pam_auth_update'', ''authselect'']"

definition installer_format_validate :: "installer_format \<Rightarrow> string option" where
  "installer_format_validate format = check (format \<in> set installer_formats) ''unknown installer format''"

definition profile_manager_kind_validate :: "profile_manager_kind \<Rightarrow> string option" where
  "profile_manager_kind_validate manager =
     check (manager \<in> set profile_managers) ''unknown profile manager''"

record filesystem_evidence =
  fe_Target :: target
  fe_Snapshot :: filesystem_snapshot

record package_transaction_evidence =
  pe_Graph :: transaction_graph

record manager_object_evidence =
  me_Target :: target
  me_Version :: string
  me_Present :: bool

record capability_evidence =
  ce_Capability :: capability_id
  ce_State :: capability_state
  ce_Version :: string

record project_marker_evidence =
  pm_Root :: trusted_root_id
  pm_Marker :: byte_path
  pm_Ecosystem :: string

record installer_metadata_evidence =
  im_Target :: target
  im_Format :: installer_format
  im_Digest :: evidence_digest

record profile_manager_evidence =
  pme_Provider :: provider_id
  pme_Manager :: profile_manager_kind
  pme_Version :: string

record evidence =
  ev_Kind :: evidence_kind
  ev_Filesystem :: "filesystem_evidence option"
  ev_PackageTransaction :: "package_transaction_evidence option"
  ev_ManagerObject :: "manager_object_evidence option"
  ev_Capability :: "capability_evidence option"
  ev_ProjectMarker :: "project_marker_evidence option"
  ev_InstallerMetadata :: "installer_metadata_evidence option"
  ev_ProfileManager :: "profile_manager_evidence option"

definition filesystem_evidence_validate :: "filesystem_evidence \<Rightarrow> string option" where
  "filesystem_evidence_validate e = checks
     [target_validate (fe_Target e),
      check (tgt_Kind (fe_Target e) = TargetFilesystem) ''filesystem evidence requires a filesystem target'',
      snapshot_validate_observed (fe_Snapshot e)]"

definition package_transaction_evidence_validate :: "package_transaction_evidence \<Rightarrow> string option" where
  "package_transaction_evidence_validate e = transaction_graph_validate (pe_Graph e)"

definition manager_object_evidence_validate :: "manager_object_evidence \<Rightarrow> string option" where
  "manager_object_evidence_validate e = checks
     [target_validate (me_Target e),
      check (tgt_Kind (me_Target e) = TargetManagerObject)
        ''manager object evidence requires a manager-object target'',
      check (me_Version e \<noteq> []) ''manager object evidence requires an exact version'']"

definition capability_evidence_validate :: "capability_evidence \<Rightarrow> string option" where
  "capability_evidence_validate e = checks
     [capability_id_validate (ce_Capability e), capability_state_validate (ce_State e),
      check (ce_Version e \<noteq> []) ''capability evidence requires a version or explicit probe revision'']"

definition project_marker_evidence_validate :: "project_marker_evidence \<Rightarrow> string option" where
  "project_marker_evidence_validate e = checks
     [trusted_root_id_validate (pm_Root e), path_check ''project marker path'' (pm_Marker e),
      validateStableID ''project ecosystem'' (pm_Ecosystem e)]"

definition installer_metadata_evidence_validate :: "installer_metadata_evidence \<Rightarrow> string option" where
  "installer_metadata_evidence_validate e = checks
     [target_validate (im_Target e),
      check (tgt_Kind (im_Target e) = TargetFilesystem)
        ''installer metadata evidence requires a filesystem target'',
      installer_format_validate (im_Format e), evidence_digest_validate (im_Digest e)]"

definition profile_manager_evidence_validate :: "profile_manager_evidence \<Rightarrow> string option" where
  "profile_manager_evidence_validate e = checks
     [provider_id_validate (pme_Provider e), profile_manager_kind_validate (pme_Manager e),
      check (pme_Version e \<noteq> []) ''profile manager evidence requires a version'']"

definition evidence_variant_count :: "evidence \<Rightarrow> nat" where
  "evidence_variant_count e = sum_list (map of_bool
     [ev_Filesystem e \<noteq> None, ev_PackageTransaction e \<noteq> None, ev_ManagerObject e \<noteq> None,
      ev_Capability e \<noteq> None, ev_ProjectMarker e \<noteq> None, ev_InstallerMetadata e \<noteq> None,
      ev_ProfileManager e \<noteq> None])"

text \<open>\<^verbatim>\<open>if evidence.X == nil { return error }; return evidence.X.Validate()\<close>.\<close>

definition variant_validate :: "string \<Rightarrow> ('v \<Rightarrow> string option) \<Rightarrow> 'v option \<Rightarrow> string option" where
  "variant_validate missing validate variant = (case variant of None \<Rightarrow> Some missing | Some v \<Rightarrow> validate v)"

definition evidence_validate :: "evidence \<Rightarrow> string option" where
  "evidence_validate e =
     (if evidence_variant_count e \<noteq> 1 then Some ''evidence must contain exactly one typed variant''
      else if ev_Kind e = EvidenceFilesystemIdentity then
        variant_validate ''filesystem evidence kind has no filesystem variant''
          filesystem_evidence_validate (ev_Filesystem e)
      else if ev_Kind e = EvidencePackageTransaction then
        variant_validate ''package transaction evidence kind has no package variant''
          package_transaction_evidence_validate (ev_PackageTransaction e)
      else if ev_Kind e = EvidenceManagerObject then
        variant_validate ''manager object evidence kind has no manager variant''
          manager_object_evidence_validate (ev_ManagerObject e)
      else if ev_Kind e = EvidenceCapability then
        variant_validate ''capability evidence kind has no capability variant''
          capability_evidence_validate (ev_Capability e)
      else if ev_Kind e = EvidenceProjectMarker then
        variant_validate ''project marker evidence kind has no project variant''
          project_marker_evidence_validate (ev_ProjectMarker e)
      else if ev_Kind e = EvidenceInstallerMetadata then
        variant_validate ''installer metadata evidence kind has no installer variant''
          installer_metadata_evidence_validate (ev_InstallerMetadata e)
      else if ev_Kind e = EvidenceProfileManager then
        variant_validate ''profile manager evidence kind has no profile variant''
          profile_manager_evidence_validate (ev_ProfileManager e)
      else Some ''unknown evidence kind'')"

definition evidence_clone :: "evidence \<Rightarrow> evidence" where
  "evidence_clone e = \<lparr> ev_Kind = ev_Kind e,
     ev_Filesystem = map_option (\<lambda>v. v \<lparr> fe_Target := target_clone (fe_Target v) \<rparr>) (ev_Filesystem e),
     ev_PackageTransaction =
       map_option (\<lambda>v. v \<lparr> pe_Graph := transaction_graph_clone (pe_Graph v) \<rparr>) (ev_PackageTransaction e),
     ev_ManagerObject = map_option (\<lambda>v. v \<lparr> me_Target := target_clone (me_Target v) \<rparr>) (ev_ManagerObject e),
     ev_Capability = ev_Capability e,
     ev_ProjectMarker = map_option (\<lambda>v. v \<lparr> pm_Marker := cloneBytePath (pm_Marker v) \<rparr>) (ev_ProjectMarker e),
     ev_InstallerMetadata =
       map_option (\<lambda>v. v \<lparr> im_Target := target_clone (im_Target v) \<rparr>) (ev_InstallerMetadata e),
     ev_ProfileManager = ev_ProfileManager e \<rparr>"

definition cloneEvidenceSlice :: "evidence list \<Rightarrow> evidence list" where
  "cloneEvidenceSlice es = map evidence_clone es"

subsection \<open>The union an evidence value stands for\<close>

datatype evidence_view =
    FilesystemView filesystem_evidence
  | PackageView package_transaction_evidence
  | ManagerView manager_object_evidence
  | CapabilityView capability_evidence
  | MarkerView project_marker_evidence
  | InstallerView installer_metadata_evidence
  | ProfileView profile_manager_evidence

definition no_variant :: "evidence_kind \<Rightarrow> evidence" where
  "no_variant kind = \<lparr> ev_Kind = kind, ev_Filesystem = None, ev_PackageTransaction = None,
     ev_ManagerObject = None, ev_Capability = None, ev_ProjectMarker = None,
     ev_InstallerMetadata = None, ev_ProfileManager = None \<rparr>"

primrec evidence_of :: "evidence_view \<Rightarrow> evidence" where
  "evidence_of (FilesystemView v) = no_variant EvidenceFilesystemIdentity \<lparr> ev_Filesystem := Some v \<rparr>"
| "evidence_of (PackageView v) = no_variant EvidencePackageTransaction \<lparr> ev_PackageTransaction := Some v \<rparr>"
| "evidence_of (ManagerView v) = no_variant EvidenceManagerObject \<lparr> ev_ManagerObject := Some v \<rparr>"
| "evidence_of (CapabilityView v) = no_variant EvidenceCapability \<lparr> ev_Capability := Some v \<rparr>"
| "evidence_of (MarkerView v) = no_variant EvidenceProjectMarker \<lparr> ev_ProjectMarker := Some v \<rparr>"
| "evidence_of (InstallerView v) = no_variant EvidenceInstallerMetadata \<lparr> ev_InstallerMetadata := Some v \<rparr>"
| "evidence_of (ProfileView v) = no_variant EvidenceProfileManager \<lparr> ev_ProfileManager := Some v \<rparr>"

primrec evidence_view_validate :: "evidence_view \<Rightarrow> string option" where
  "evidence_view_validate (FilesystemView v) = filesystem_evidence_validate v"
| "evidence_view_validate (PackageView v) = package_transaction_evidence_validate v"
| "evidence_view_validate (ManagerView v) = manager_object_evidence_validate v"
| "evidence_view_validate (CapabilityView v) = capability_evidence_validate v"
| "evidence_view_validate (MarkerView v) = project_marker_evidence_validate v"
| "evidence_view_validate (InstallerView v) = installer_metadata_evidence_validate v"
| "evidence_view_validate (ProfileView v) = profile_manager_evidence_validate v"

lemma evidence_kinds_distinct:
  "distinct [EvidenceFilesystemIdentity, EvidencePackageTransaction, EvidenceManagerObject,
     EvidenceCapability, EvidenceProjectMarker, EvidenceInstallerMetadata, EvidenceProfileManager]"
  by (simp add: evidence_kind_defs)

lemma evidence_validate_evidence_of: "evidence_validate (evidence_of v) = evidence_view_validate v"
  using evidence_kinds_distinct
  by (cases v) (auto simp: evidence_validate_def evidence_variant_count_def no_variant_def variant_validate_def)

text \<open>One variant is present and it is the one the kind names: every other field is nil.\<close>

lemma only_variant:
  assumes count: "of_bool (fs \<noteq> None) + (of_bool (pt \<noteq> None) + (of_bool (mo \<noteq> None) + (of_bool (ca \<noteq> None) +
      (of_bool (pm \<noteq> None) + (of_bool (im \<noteq> None) + of_bool (pr \<noteq> None)))))) = (1 :: nat)"
    and "k1 \<and> fs \<noteq> None \<or> k2 \<and> pt \<noteq> None \<or> k3 \<and> mo \<noteq> None \<or> k4 \<and> ca \<noteq> None \<or>
      k5 \<and> pm \<noteq> None \<or> k6 \<and> im \<noteq> None \<or> k7 \<and> pr \<noteq> None"
  shows "(\<exists>x. k1 \<and> fs = Some x \<and> pt = None \<and> mo = None \<and> ca = None \<and> pm = None \<and> im = None \<and> pr = None) \<or>
     (\<exists>x. k2 \<and> fs = None \<and> pt = Some x \<and> mo = None \<and> ca = None \<and> pm = None \<and> im = None \<and> pr = None) \<or>
     (\<exists>x. k3 \<and> fs = None \<and> pt = None \<and> mo = Some x \<and> ca = None \<and> pm = None \<and> im = None \<and> pr = None) \<or>
     (\<exists>x. k4 \<and> fs = None \<and> pt = None \<and> mo = None \<and> ca = Some x \<and> pm = None \<and> im = None \<and> pr = None) \<or>
     (\<exists>x. k5 \<and> fs = None \<and> pt = None \<and> mo = None \<and> ca = None \<and> pm = Some x \<and> im = None \<and> pr = None) \<or>
     (\<exists>x. k6 \<and> fs = None \<and> pt = None \<and> mo = None \<and> ca = None \<and> pm = None \<and> im = Some x \<and> pr = None) \<or>
     (\<exists>x. k7 \<and> fs = None \<and> pt = None \<and> mo = None \<and> ca = None \<and> pm = None \<and> im = None \<and> pr = Some x)"
  using assms(2)
proof (elim disjE conjE)
  assume "k1" "fs \<noteq> None"
  moreover from this obtain x where "fs = Some x" by auto
  ultimately show ?thesis using count by simp
next
  assume "k2" "pt \<noteq> None"
  moreover from this obtain x where "pt = Some x" by auto
  ultimately show ?thesis using count by simp
next
  assume "k3" "mo \<noteq> None"
  moreover from this obtain x where "mo = Some x" by auto
  ultimately show ?thesis using count by simp
next
  assume "k4" "ca \<noteq> None"
  moreover from this obtain x where "ca = Some x" by auto
  ultimately show ?thesis using count by simp
next
  assume "k5" "pm \<noteq> None"
  moreover from this obtain x where "pm = Some x" by auto
  ultimately show ?thesis using count by simp
next
  assume "k6" "im \<noteq> None"
  moreover from this obtain x where "im = Some x" by auto
  ultimately show ?thesis using count by simp
next
  assume "k7" "pr \<noteq> None"
  moreover from this obtain x where "pr = Some x" by auto
  ultimately show ?thesis using count by simp
qed

lemma evidence_of_fields:
  "\<exists>v. \<lparr> ev_Kind = EvidenceFilesystemIdentity, ev_Filesystem = Some x0, ev_PackageTransaction = None, ev_ManagerObject = None, ev_Capability = None, ev_ProjectMarker = None, ev_InstallerMetadata = None, ev_ProfileManager = None \<rparr> = evidence_of v"
  "\<exists>v. \<lparr> ev_Kind = EvidencePackageTransaction, ev_Filesystem = None, ev_PackageTransaction = Some x1, ev_ManagerObject = None, ev_Capability = None, ev_ProjectMarker = None, ev_InstallerMetadata = None, ev_ProfileManager = None \<rparr> = evidence_of v"
  "\<exists>v. \<lparr> ev_Kind = EvidenceManagerObject, ev_Filesystem = None, ev_PackageTransaction = None, ev_ManagerObject = Some x2, ev_Capability = None, ev_ProjectMarker = None, ev_InstallerMetadata = None, ev_ProfileManager = None \<rparr> = evidence_of v"
  "\<exists>v. \<lparr> ev_Kind = EvidenceCapability, ev_Filesystem = None, ev_PackageTransaction = None, ev_ManagerObject = None, ev_Capability = Some x3, ev_ProjectMarker = None, ev_InstallerMetadata = None, ev_ProfileManager = None \<rparr> = evidence_of v"
  "\<exists>v. \<lparr> ev_Kind = EvidenceProjectMarker, ev_Filesystem = None, ev_PackageTransaction = None, ev_ManagerObject = None, ev_Capability = None, ev_ProjectMarker = Some x4, ev_InstallerMetadata = None, ev_ProfileManager = None \<rparr> = evidence_of v"
  "\<exists>v. \<lparr> ev_Kind = EvidenceInstallerMetadata, ev_Filesystem = None, ev_PackageTransaction = None, ev_ManagerObject = None, ev_Capability = None, ev_ProjectMarker = None, ev_InstallerMetadata = Some x5, ev_ProfileManager = None \<rparr> = evidence_of v"
  "\<exists>v. \<lparr> ev_Kind = EvidenceProfileManager, ev_Filesystem = None, ev_PackageTransaction = None, ev_ManagerObject = None, ev_Capability = None, ev_ProjectMarker = None, ev_InstallerMetadata = None, ev_ProfileManager = Some x6 \<rparr> = evidence_of v"
  subgoal by (rule exI [of _ "FilesystemView x0"]) (simp add: no_variant_def)
  subgoal by (rule exI [of _ "PackageView x1"]) (simp add: no_variant_def)
  subgoal by (rule exI [of _ "ManagerView x2"]) (simp add: no_variant_def)
  subgoal by (rule exI [of _ "CapabilityView x3"]) (simp add: no_variant_def)
  subgoal by (rule exI [of _ "MarkerView x4"]) (simp add: no_variant_def)
  subgoal by (rule exI [of _ "InstallerView x5"]) (simp add: no_variant_def)
  subgoal by (rule exI [of _ "ProfileView x6"]) (simp add: no_variant_def)
  done

lemma evidence_validate_view:
  assumes "evidence_validate e = None"
  shows "\<exists>v. e = evidence_of v"
proof (cases e)
  case (fields kind fs pt mo ca pm im pr)
  have count: "of_bool (fs \<noteq> None) + (of_bool (pt \<noteq> None) + (of_bool (mo \<noteq> None) + (of_bool (ca \<noteq> None) +
      (of_bool (pm \<noteq> None) + (of_bool (im \<noteq> None) + of_bool (pr \<noteq> None)))))) = (1 :: nat)"
    using assms unfolding evidence_validate_def evidence_variant_count_def fields
    by (simp only: split: if_splits) simp_all
  have "kind = EvidenceFilesystemIdentity \<and> fs \<noteq> None \<or>
      kind = EvidencePackageTransaction \<and> pt \<noteq> None \<or>
      kind = EvidenceManagerObject \<and> mo \<noteq> None \<or>
      kind = EvidenceCapability \<and> ca \<noteq> None \<or>
      kind = EvidenceProjectMarker \<and> pm \<noteq> None \<or>
      kind = EvidenceInstallerMetadata \<and> im \<noteq> None \<or>
      kind = EvidenceProfileManager \<and> pr \<noteq> None"
    using assms by (auto simp: fields evidence_validate_def variant_validate_def split: if_splits option.splits)
  from only_variant [OF count this] show ?thesis
    by (elim disjE exE conjE) (simp_all only: fields evidence_of_fields)
qed

lemma evidence_validate_None:
  "evidence_validate e = None \<longleftrightarrow> (\<exists>v. e = evidence_of v \<and> evidence_view_validate v = None)"
  using evidence_validate_view evidence_validate_evidence_of by metis

lemma evidence_of_inject [simp]: "evidence_of v = evidence_of w \<longleftrightarrow> v = w"
  using evidence_kinds_distinct by (cases v; cases w) (auto simp: no_variant_def)

subsection \<open>Cloning\<close>

primrec view_clone :: "evidence_view \<Rightarrow> evidence_view" where
  "view_clone (FilesystemView v) = FilesystemView (v \<lparr> fe_Target := target_clone (fe_Target v) \<rparr>)"
| "view_clone (PackageView v) = PackageView v"
| "view_clone (ManagerView v) = ManagerView (v \<lparr> me_Target := target_clone (me_Target v) \<rparr>)"
| "view_clone (CapabilityView v) = CapabilityView v"
| "view_clone (MarkerView v) = MarkerView (v \<lparr> pm_Marker := cloneBytePath (pm_Marker v) \<rparr>)"
| "view_clone (InstallerView v) = InstallerView (v \<lparr> im_Target := target_clone (im_Target v) \<rparr>)"
| "view_clone (ProfileView v) = ProfileView v"

lemma evidence_clone_evidence_of: "evidence_clone (evidence_of v) = evidence_of (view_clone v)"
  by (cases v) (simp_all add: evidence_clone_def no_variant_def)

lemma view_validate_target:
  "filesystem_evidence_validate e = None \<Longrightarrow> target_validate (fe_Target e) = None"
  "manager_object_evidence_validate m = None \<Longrightarrow> target_validate (me_Target m) = None"
  "installer_metadata_evidence_validate i = None \<Longrightarrow> target_validate (im_Target i) = None"
  "project_marker_evidence_validate p = None \<Longrightarrow> byte_path_validate (pm_Marker p) = None"
  by (simp_all add: filesystem_evidence_validate_def manager_object_evidence_validate_def
      installer_metadata_evidence_validate_def project_marker_evidence_validate_def checks_Cons path_check_None)

lemma view_clone_valid: "evidence_view_validate v = None \<Longrightarrow> view_clone v = v"
  by (cases v) (auto simp: target_clone_valid cloneBytePath_cases dest: view_validate_target)

lemma marker_clone_rejected: "byte_path_validate (cloneBytePath p) = None \<Longrightarrow> cloneBytePath p = p"
  using path_clone_rejected [of p] by (simp add: cloneBytePath_cases)

lemma view_clone_rejected: "evidence_view_validate (view_clone v) = None \<Longrightarrow> view_clone v = v"
  by (cases v)
    (auto dest!: view_validate_target target_clone_rejected marker_clone_rejected)

lemma evidence_clone_valid: "evidence_validate e = None \<Longrightarrow> evidence_clone e = e"
  by (auto simp: evidence_validate_None evidence_clone_evidence_of view_clone_valid)

text \<open>A clone keeps the kind and the presence of every variant.\<close>

lemma clone_view:
  assumes "evidence_clone e = evidence_of w"
  shows "\<exists>v. e = evidence_of v \<and> w = view_clone v"
proof -
  have "\<exists>v. e = evidence_of v"
    using assms
    by (cases e; cases w) (auto simp: evidence_clone_def no_variant_def evidence_of_fields)
  then obtain v where "e = evidence_of v" ..
  with assms show ?thesis by (auto simp: evidence_clone_evidence_of)
qed

lemma evidence_clone_rejected:
  assumes "evidence_validate (evidence_clone e) = None"
  shows "evidence_clone e = e \<and> evidence_validate e = None"
proof -
  obtain w where "evidence_clone e = evidence_of w" "evidence_view_validate w = None"
    using assms by (auto simp: evidence_validate_None)
  moreover from clone_view [OF this(1)] obtain v where "e = evidence_of v" "w = view_clone v"
    by blast
  ultimately have "evidence_clone e = e"
    using view_clone_rejected [of v] by (simp add: evidence_clone_evidence_of)
  with assms show ?thesis by simp
qed

interpretation evidence_copy: defensive_copy evidence_clone evidence_validate
  by unfold_locales (blast dest: evidence_clone_valid evidence_clone_rejected)+

lemma cloneEvidenceSlice_valid:
  "\<forall>e \<in> set es. evidence_validate e = None \<Longrightarrow> cloneEvidenceSlice es = es"
  by (induction es) (simp_all add: cloneEvidenceSlice_def evidence_clone_valid)

lemma cloneEvidenceSlice_rejected:
  "\<forall>e \<in> set (cloneEvidenceSlice es). evidence_validate e = None \<Longrightarrow> cloneEvidenceSlice es = es"
  by (induction es) (auto simp: cloneEvidenceSlice_def dest: evidence_clone_rejected)

section \<open>Properties\<close>

text \<open>
  A snapshot satisfies a field mask exactly when the mask is nonzero, names only the eleven
  known fields, every unknown fact of the snapshot is zero and each named field was observed. The
  mask never lets an unobserved field through, and demands nothing it does not name.
\<close>

theorem snapshot_observes_required:
  "snapshot_validate_for s m = None \<longleftrightarrow> m \<noteq> 0 \<and> required_fields m \<subseteq> {..<11} \<and>
     snapshot_canonical s \<and> required_fields m \<subseteq> observed_fields s"
  by (simp add: snapshot_validate_for_None required_fields_empty)

text \<open>
  C39: the evidence records that validate are exactly the images of the closed union of seven typed
  variants whose payload validates, each of exactly one union value: a record with no variant, with
  two, or with a variant its kind does not name is rejected.
\<close>

theorem evidence_closed_union:
  "(evidence_validate e = None \<longleftrightarrow> (\<exists>v. e = evidence_of v \<and> evidence_view_validate v = None)) \<and>
   (evidence_validate e = None \<longleftrightarrow> (\<exists>!v. e = evidence_of v \<and> evidence_view_validate v = None))"
  using evidence_validate_None [of e] by auto

end
