(* ===== verification/DomainPrecondition.thy ===== *)
theory DomainPrecondition
  imports DomainEvidence
begin

text \<open>
  \<^verbatim>\<open>src/internal/domain/precondition.go\<close>: the typed preconditions revalidated at the point of
  use. The union has the shape of the evidence union; a filesystem precondition also names the
  fields a snapshot must have observed.
\<close>

section \<open>Preconditions\<close>

type_synonym precondition_kind = string

definition PreconditionFilesystemIdentity :: precondition_kind where
  "PreconditionFilesystemIdentity = ''filesystem_identity''"
definition PreconditionPackageTransaction :: precondition_kind where
  "PreconditionPackageTransaction = ''package_transaction''"
definition PreconditionManagerObjectState :: precondition_kind where
  "PreconditionManagerObjectState = ''manager_object_state''"
definition PreconditionCapability :: precondition_kind where
  "PreconditionCapability = ''capability''"
definition PreconditionProjectMarker :: precondition_kind where
  "PreconditionProjectMarker = ''project_marker''"
definition PreconditionInstallerMetadata :: precondition_kind where
  "PreconditionInstallerMetadata = ''installer_metadata''"
definition PreconditionProfileManager :: precondition_kind where
  "PreconditionProfileManager = ''profile_manager''"

lemmas precondition_kind_defs = PreconditionFilesystemIdentity_def PreconditionPackageTransaction_def
  PreconditionManagerObjectState_def PreconditionCapability_def PreconditionProjectMarker_def
  PreconditionInstallerMetadata_def PreconditionProfileManager_def

record filesystem_precondition =
  fp_Target :: target
  fp_Required :: field_mask
  fp_Snapshot :: filesystem_snapshot

record package_transaction_precondition =
  pp_Graph :: transaction_graph
  pp_ManagerStateDigest :: evidence_digest

record manager_object_precondition =
  mp_Target :: target
  mp_ExpectedVersion :: string
  mp_ExpectedPresent :: bool

record capability_precondition =
  cp_Capability :: capability_id
  cp_State :: capability_state
  cp_Version :: string

record project_marker_precondition =
  pmp_Root :: trusted_root_id
  pmp_Marker :: byte_path
  pmp_Ecosystem :: string

record installer_metadata_precondition =
  ip_Target :: target
  ip_Format :: installer_format
  ip_Digest :: evidence_digest

record profile_manager_precondition =
  pmn_Provider :: provider_id
  pmn_Manager :: profile_manager_kind
  pmn_Version :: string

record precondition =
  pc_Kind :: precondition_kind
  pc_Filesystem :: "filesystem_precondition option"
  pc_PackageTransaction :: "package_transaction_precondition option"
  pc_ManagerObject :: "manager_object_precondition option"
  pc_Capability :: "capability_precondition option"
  pc_ProjectMarker :: "project_marker_precondition option"
  pc_InstallerMetadata :: "installer_metadata_precondition option"
  pc_ProfileManager :: "profile_manager_precondition option"

definition filesystem_precondition_validate :: "filesystem_precondition \<Rightarrow> string option" where
  "filesystem_precondition_validate p = checks
     [target_validate (fp_Target p),
      check (tgt_Kind (fp_Target p) = TargetFilesystem)
        ''filesystem precondition requires a filesystem target'',
      snapshot_validate_for (fp_Snapshot p) (fp_Required p)]"

definition package_transaction_precondition_validate ::
    "package_transaction_precondition \<Rightarrow> string option" where
  "package_transaction_precondition_validate p = checks
     [transaction_graph_validate (pp_Graph p), evidence_digest_validate (pp_ManagerStateDigest p)]"

definition manager_object_precondition_validate :: "manager_object_precondition \<Rightarrow> string option" where
  "manager_object_precondition_validate p = checks
     [target_validate (mp_Target p),
      check (tgt_Kind (mp_Target p) = TargetManagerObject)
        ''manager object precondition requires a manager-object target'',
      check (mp_ExpectedVersion p \<noteq> []) ''manager object precondition requires an exact version'']"

definition capability_precondition_validate :: "capability_precondition \<Rightarrow> string option" where
  "capability_precondition_validate p = checks
     [capability_id_validate (cp_Capability p), capability_state_validate (cp_State p),
      check (cp_Version p \<noteq> []) ''capability precondition requires a probe revision'']"

definition project_marker_precondition_validate :: "project_marker_precondition \<Rightarrow> string option" where
  "project_marker_precondition_validate p = checks
     [trusted_root_id_validate (pmp_Root p), path_check ''project marker path'' (pmp_Marker p),
      validateStableID ''project ecosystem'' (pmp_Ecosystem p)]"

definition installer_metadata_precondition_validate ::
    "installer_metadata_precondition \<Rightarrow> string option" where
  "installer_metadata_precondition_validate p = checks
     [target_validate (ip_Target p),
      check (tgt_Kind (ip_Target p) = TargetFilesystem)
        ''installer metadata precondition requires a filesystem target'',
      installer_format_validate (ip_Format p), evidence_digest_validate (ip_Digest p)]"

definition profile_manager_precondition_validate :: "profile_manager_precondition \<Rightarrow> string option" where
  "profile_manager_precondition_validate p = checks
     [provider_id_validate (pmn_Provider p), profile_manager_kind_validate (pmn_Manager p),
      check (pmn_Version p \<noteq> []) ''profile manager precondition requires a version'']"

definition precondition_variant_count :: "precondition \<Rightarrow> nat" where
  "precondition_variant_count e = sum_list (map of_bool
     [pc_Filesystem e \<noteq> None, pc_PackageTransaction e \<noteq> None, pc_ManagerObject e \<noteq> None,
      pc_Capability e \<noteq> None, pc_ProjectMarker e \<noteq> None, pc_InstallerMetadata e \<noteq> None,
      pc_ProfileManager e \<noteq> None])"

definition precondition_validate :: "precondition \<Rightarrow> string option" where
  "precondition_validate e =
     (if precondition_variant_count e \<noteq> 1 then Some ''precondition must contain exactly one typed variant''
      else if pc_Kind e = PreconditionFilesystemIdentity then
        variant_validate ''filesystem precondition kind has no filesystem variant''
          filesystem_precondition_validate (pc_Filesystem e)
      else if pc_Kind e = PreconditionPackageTransaction then
        variant_validate ''package transaction precondition kind has no package variant''
          package_transaction_precondition_validate (pc_PackageTransaction e)
      else if pc_Kind e = PreconditionManagerObjectState then
        variant_validate ''manager object precondition kind has no manager variant''
          manager_object_precondition_validate (pc_ManagerObject e)
      else if pc_Kind e = PreconditionCapability then
        variant_validate ''capability precondition kind has no capability variant''
          capability_precondition_validate (pc_Capability e)
      else if pc_Kind e = PreconditionProjectMarker then
        variant_validate ''project marker precondition kind has no project variant''
          project_marker_precondition_validate (pc_ProjectMarker e)
      else if pc_Kind e = PreconditionInstallerMetadata then
        variant_validate ''installer metadata precondition kind has no installer variant''
          installer_metadata_precondition_validate (pc_InstallerMetadata e)
      else if pc_Kind e = PreconditionProfileManager then
        variant_validate ''profile manager precondition kind has no profile variant''
          profile_manager_precondition_validate (pc_ProfileManager e)
      else Some ''unknown precondition kind'')"

definition precondition_clone :: "precondition \<Rightarrow> precondition" where
  "precondition_clone e = \<lparr> pc_Kind = pc_Kind e,
     pc_Filesystem = map_option (\<lambda>v. v \<lparr> fp_Target := target_clone (fp_Target v) \<rparr>) (pc_Filesystem e),
     pc_PackageTransaction =
       map_option (\<lambda>v. v \<lparr> pp_Graph := transaction_graph_clone (pp_Graph v) \<rparr>) (pc_PackageTransaction e),
     pc_ManagerObject = map_option (\<lambda>v. v \<lparr> mp_Target := target_clone (mp_Target v) \<rparr>) (pc_ManagerObject e),
     pc_Capability = pc_Capability e,
     pc_ProjectMarker = map_option (\<lambda>v. v \<lparr> pmp_Marker := cloneBytePath (pmp_Marker v) \<rparr>) (pc_ProjectMarker e),
     pc_InstallerMetadata =
       map_option (\<lambda>v. v \<lparr> ip_Target := target_clone (ip_Target v) \<rparr>) (pc_InstallerMetadata e),
     pc_ProfileManager = pc_ProfileManager e \<rparr>"

subsection \<open>The union a precondition value stands for\<close>

datatype precondition_view =
    FilesystemPView filesystem_precondition
  | PackagePView package_transaction_precondition
  | ManagerPView manager_object_precondition
  | CapabilityPView capability_precondition
  | MarkerPView project_marker_precondition
  | InstallerPView installer_metadata_precondition
  | ProfilePView profile_manager_precondition

definition no_pvariant :: "precondition_kind \<Rightarrow> precondition" where
  "no_pvariant kind = \<lparr> pc_Kind = kind, pc_Filesystem = None, pc_PackageTransaction = None,
     pc_ManagerObject = None, pc_Capability = None, pc_ProjectMarker = None,
     pc_InstallerMetadata = None, pc_ProfileManager = None \<rparr>"

primrec precondition_of :: "precondition_view \<Rightarrow> precondition" where
  "precondition_of (FilesystemPView v) = no_pvariant PreconditionFilesystemIdentity \<lparr> pc_Filesystem := Some v \<rparr>"
| "precondition_of (PackagePView v) = no_pvariant PreconditionPackageTransaction \<lparr> pc_PackageTransaction := Some v \<rparr>"
| "precondition_of (ManagerPView v) = no_pvariant PreconditionManagerObjectState \<lparr> pc_ManagerObject := Some v \<rparr>"
| "precondition_of (CapabilityPView v) = no_pvariant PreconditionCapability \<lparr> pc_Capability := Some v \<rparr>"
| "precondition_of (MarkerPView v) = no_pvariant PreconditionProjectMarker \<lparr> pc_ProjectMarker := Some v \<rparr>"
| "precondition_of (InstallerPView v) = no_pvariant PreconditionInstallerMetadata \<lparr> pc_InstallerMetadata := Some v \<rparr>"
| "precondition_of (ProfilePView v) = no_pvariant PreconditionProfileManager \<lparr> pc_ProfileManager := Some v \<rparr>"

primrec precondition_view_validate :: "precondition_view \<Rightarrow> string option" where
  "precondition_view_validate (FilesystemPView v) = filesystem_precondition_validate v"
| "precondition_view_validate (PackagePView v) = package_transaction_precondition_validate v"
| "precondition_view_validate (ManagerPView v) = manager_object_precondition_validate v"
| "precondition_view_validate (CapabilityPView v) = capability_precondition_validate v"
| "precondition_view_validate (MarkerPView v) = project_marker_precondition_validate v"
| "precondition_view_validate (InstallerPView v) = installer_metadata_precondition_validate v"
| "precondition_view_validate (ProfilePView v) = profile_manager_precondition_validate v"

lemma precondition_kinds_distinct:
  "distinct [PreconditionFilesystemIdentity, PreconditionPackageTransaction, PreconditionManagerObjectState,
     PreconditionCapability, PreconditionProjectMarker, PreconditionInstallerMetadata, PreconditionProfileManager]"
  by (simp add: precondition_kind_defs)

lemma precondition_validate_precondition_of: "precondition_validate (precondition_of v) = precondition_view_validate v"
  using precondition_kinds_distinct
  by (cases v) (auto simp: precondition_validate_def precondition_variant_count_def no_pvariant_def variant_validate_def)

lemma precondition_of_fields:
  "\<exists>v. \<lparr> pc_Kind = PreconditionFilesystemIdentity, pc_Filesystem = Some x0, pc_PackageTransaction = None, pc_ManagerObject = None, pc_Capability = None, pc_ProjectMarker = None, pc_InstallerMetadata = None, pc_ProfileManager = None \<rparr> = precondition_of v"
  "\<exists>v. \<lparr> pc_Kind = PreconditionPackageTransaction, pc_Filesystem = None, pc_PackageTransaction = Some x1, pc_ManagerObject = None, pc_Capability = None, pc_ProjectMarker = None, pc_InstallerMetadata = None, pc_ProfileManager = None \<rparr> = precondition_of v"
  "\<exists>v. \<lparr> pc_Kind = PreconditionManagerObjectState, pc_Filesystem = None, pc_PackageTransaction = None, pc_ManagerObject = Some x2, pc_Capability = None, pc_ProjectMarker = None, pc_InstallerMetadata = None, pc_ProfileManager = None \<rparr> = precondition_of v"
  "\<exists>v. \<lparr> pc_Kind = PreconditionCapability, pc_Filesystem = None, pc_PackageTransaction = None, pc_ManagerObject = None, pc_Capability = Some x3, pc_ProjectMarker = None, pc_InstallerMetadata = None, pc_ProfileManager = None \<rparr> = precondition_of v"
  "\<exists>v. \<lparr> pc_Kind = PreconditionProjectMarker, pc_Filesystem = None, pc_PackageTransaction = None, pc_ManagerObject = None, pc_Capability = None, pc_ProjectMarker = Some x4, pc_InstallerMetadata = None, pc_ProfileManager = None \<rparr> = precondition_of v"
  "\<exists>v. \<lparr> pc_Kind = PreconditionInstallerMetadata, pc_Filesystem = None, pc_PackageTransaction = None, pc_ManagerObject = None, pc_Capability = None, pc_ProjectMarker = None, pc_InstallerMetadata = Some x5, pc_ProfileManager = None \<rparr> = precondition_of v"
  "\<exists>v. \<lparr> pc_Kind = PreconditionProfileManager, pc_Filesystem = None, pc_PackageTransaction = None, pc_ManagerObject = None, pc_Capability = None, pc_ProjectMarker = None, pc_InstallerMetadata = None, pc_ProfileManager = Some x6 \<rparr> = precondition_of v"
  subgoal by (rule exI [of _ "FilesystemPView x0"]) (simp add: no_pvariant_def)
  subgoal by (rule exI [of _ "PackagePView x1"]) (simp add: no_pvariant_def)
  subgoal by (rule exI [of _ "ManagerPView x2"]) (simp add: no_pvariant_def)
  subgoal by (rule exI [of _ "CapabilityPView x3"]) (simp add: no_pvariant_def)
  subgoal by (rule exI [of _ "MarkerPView x4"]) (simp add: no_pvariant_def)
  subgoal by (rule exI [of _ "InstallerPView x5"]) (simp add: no_pvariant_def)
  subgoal by (rule exI [of _ "ProfilePView x6"]) (simp add: no_pvariant_def)
  done

lemma precondition_validate_view:
  assumes "precondition_validate e = None"
  shows "\<exists>v. e = precondition_of v"
proof (cases e)
  case (fields kind fs pt mo ca pm im pr)
  have count: "of_bool (fs \<noteq> None) + (of_bool (pt \<noteq> None) + (of_bool (mo \<noteq> None) + (of_bool (ca \<noteq> None) +
      (of_bool (pm \<noteq> None) + (of_bool (im \<noteq> None) + of_bool (pr \<noteq> None)))))) = (1 :: nat)"
    using assms unfolding precondition_validate_def precondition_variant_count_def fields
    by (simp only: split: if_splits) simp_all
  have "kind = PreconditionFilesystemIdentity \<and> fs \<noteq> None \<or>
      kind = PreconditionPackageTransaction \<and> pt \<noteq> None \<or>
      kind = PreconditionManagerObjectState \<and> mo \<noteq> None \<or>
      kind = PreconditionCapability \<and> ca \<noteq> None \<or>
      kind = PreconditionProjectMarker \<and> pm \<noteq> None \<or>
      kind = PreconditionInstallerMetadata \<and> im \<noteq> None \<or>
      kind = PreconditionProfileManager \<and> pr \<noteq> None"
    using assms by (auto simp: fields precondition_validate_def variant_validate_def split: if_splits option.splits)
  from only_variant [OF count this] show ?thesis
    by (elim disjE exE conjE) (simp_all only: fields precondition_of_fields)
qed

lemma precondition_validate_None:
  "precondition_validate e = None \<longleftrightarrow> (\<exists>v. e = precondition_of v \<and> precondition_view_validate v = None)"
  using precondition_validate_view precondition_validate_precondition_of by metis

lemma precondition_of_inject [simp]: "precondition_of v = precondition_of w \<longleftrightarrow> v = w"
  using precondition_kinds_distinct by (cases v; cases w) (auto simp: no_pvariant_def)

subsection \<open>Cloning\<close>

primrec pview_clone :: "precondition_view \<Rightarrow> precondition_view" where
  "pview_clone (FilesystemPView v) = FilesystemPView (v \<lparr> fp_Target := target_clone (fp_Target v) \<rparr>)"
| "pview_clone (PackagePView v) = PackagePView v"
| "pview_clone (ManagerPView v) = ManagerPView (v \<lparr> mp_Target := target_clone (mp_Target v) \<rparr>)"
| "pview_clone (CapabilityPView v) = CapabilityPView v"
| "pview_clone (MarkerPView v) = MarkerPView (v \<lparr> pmp_Marker := cloneBytePath (pmp_Marker v) \<rparr>)"
| "pview_clone (InstallerPView v) = InstallerPView (v \<lparr> ip_Target := target_clone (ip_Target v) \<rparr>)"
| "pview_clone (ProfilePView v) = ProfilePView v"

lemma precondition_clone_precondition_of: "precondition_clone (precondition_of v) = precondition_of (pview_clone v)"
  by (cases v) (simp_all add: precondition_clone_def no_pvariant_def)

lemma pview_validate_target:
  "filesystem_precondition_validate e = None \<Longrightarrow> target_validate (fp_Target e) = None"
  "manager_object_precondition_validate m = None \<Longrightarrow> target_validate (mp_Target m) = None"
  "installer_metadata_precondition_validate i = None \<Longrightarrow> target_validate (ip_Target i) = None"
  "project_marker_precondition_validate p = None \<Longrightarrow> byte_path_validate (pmp_Marker p) = None"
  by (simp_all add: filesystem_precondition_validate_def manager_object_precondition_validate_def
      installer_metadata_precondition_validate_def project_marker_precondition_validate_def checks_Cons path_check_None)

lemma pview_clone_valid: "precondition_view_validate v = None \<Longrightarrow> pview_clone v = v"
  by (cases v) (auto simp: target_clone_valid cloneBytePath_cases dest: pview_validate_target)

lemma pview_clone_rejected: "precondition_view_validate (pview_clone v) = None \<Longrightarrow> pview_clone v = v"
  by (cases v)
    (auto dest!: pview_validate_target target_clone_rejected marker_clone_rejected)

lemma precondition_clone_valid: "precondition_validate e = None \<Longrightarrow> precondition_clone e = e"
  by (auto simp: precondition_validate_None precondition_clone_precondition_of pview_clone_valid)

text \<open>A clone keeps the kind and the presence of every variant.\<close>

lemma clone_pview:
  assumes "precondition_clone e = precondition_of w"
  shows "\<exists>v. e = precondition_of v \<and> w = pview_clone v"
proof -
  have "\<exists>v. e = precondition_of v"
    using assms
    by (cases e; cases w) (auto simp: precondition_clone_def no_pvariant_def precondition_of_fields)
  then obtain v where "e = precondition_of v" ..
  with assms show ?thesis by (auto simp: precondition_clone_precondition_of)
qed

lemma precondition_clone_rejected:
  assumes "precondition_validate (precondition_clone e) = None"
  shows "precondition_clone e = e \<and> precondition_validate e = None"
proof -
  obtain w where "precondition_clone e = precondition_of w" "precondition_view_validate w = None"
    using assms by (auto simp: precondition_validate_None)
  moreover from clone_pview [OF this(1)] obtain v where "e = precondition_of v" "w = pview_clone v"
    by blast
  ultimately have "precondition_clone e = e"
    using pview_clone_rejected [of v] by (simp add: precondition_clone_precondition_of)
  with assms show ?thesis by simp
qed

interpretation precondition_copy: defensive_copy precondition_clone precondition_validate
  by unfold_locales (blast dest: precondition_clone_valid precondition_clone_rejected)+

end
