(* ===== verification/DomainAction.thy ===== *)
theory DomainAction
  imports DomainPrecondition
begin

text \<open>
  \<^verbatim>\<open>src/internal/domain/action.go\<close> and the \<^verbatim>\<open>Candidate\<close> of \<^verbatim>\<open>candidate.go\<close>:
  provider observations and planned actions, the binding of evidence and precondition to the
  target, and the rule that an action's guarantee may not exceed the transaction evidence.
\<close>

section \<open>Vocabularies\<close>

type_synonym confidence = string
type_synonym action_kind = string
type_synonym risk = string
type_synonym reversibility = string
type_synonym postcondition = string

definition confidences :: "confidence list" where
  "confidences = [''low'', ''medium'', ''high'', ''exact'']"

definition action_kinds :: "action_kind list" where
  "action_kinds = [''trash_path'', ''delete_recreatable_path'', ''quarantine_path'',
     ''restore_trash_path'', ''restore_quarantine_path'', ''repair_state'', ''remove_native_package'',
     ''remove_flatpak_ref'', ''remove_snap'', ''clean_package_cache'', ''vacuum_journal'',
     ''run_owned_cache_rebuild'', ''install_completion'', ''configure_fingerprint_auth'',
     ''update_ldclean_package'', ''remove_ldclean_package'']"

definition risks :: "risk list" where
  "risks = [''low'', ''medium'', ''high'', ''critical'']"

definition reversibilities :: "reversibility list" where
  "reversibilities = [''recoverable'', ''recreatable'', ''irreversible'', ''no_rollback'']"

definition postconditions :: "postcondition list" where
  "postconditions = [''target_absent'', ''target_present'', ''state_repaired'', ''cache_cleaned'',
     ''journal_vacuumed'', ''owned_cache_rebuilt'', ''completion_installed'',
     ''fingerprint_configured'', ''package_updated'']"

definition confidence_validate :: "confidence \<Rightarrow> string option" where
  "confidence_validate c = check (c \<in> set confidences) ''unknown confidence''"

definition action_kind_validate :: "action_kind \<Rightarrow> string option" where
  "action_kind_validate kind = check (kind \<in> set action_kinds) ''unknown action kind''"

definition risk_validate :: "risk \<Rightarrow> string option" where
  "risk_validate r = check (r \<in> set risks) ''unknown action risk''"

definition reversibility_validate :: "reversibility \<Rightarrow> string option" where
  "reversibility_validate r = check (r \<in> set reversibilities) ''unknown action reversibility''"

definition postcondition_validate :: "postcondition \<Rightarrow> string option" where
  "postcondition_validate p = check (p \<in> set postconditions) ''unknown action postcondition''"

section \<open>Binding to a target\<close>

definition sameTarget :: "target \<Rightarrow> target \<Rightarrow> bool" where
  "sameTarget left right =
     (if tgt_Kind left \<noteq> tgt_Kind right then False
      else if tgt_Kind left = TargetFilesystem then
        (case (tgt_Filesystem left, tgt_Filesystem right) of
           (Some l, Some r) \<Rightarrow> ft_Root l = ft_Root r \<and> byte_path_equal (ft_Path l) (ft_Path r)
         | _ \<Rightarrow> False)
      else if tgt_Kind left = TargetManagerObject then
        (case (tgt_ManagerObject left, tgt_ManagerObject right) of
           (Some l, Some r) \<Rightarrow>
             mt_Provider l = mt_Provider r \<and> mt_Object l = mt_Object r \<and> mt_Scope l = mt_Scope r
         | _ \<Rightarrow> False)
      else False)"

definition target_reference :: "manager_object_target \<Rightarrow> manager_object_ref" where
  "target_reference m = \<lparr> ref_ID = mt_Object m, ref_Scope = mt_Scope m \<rparr>"

definition graphBindsTarget :: "transaction_graph \<Rightarrow> target \<Rightarrow> bool" where
  "graphBindsTarget graph t =
     (if tgt_Kind t \<noteq> TargetManagerObject then False
      else case tgt_ManagerObject t of None \<Rightarrow> False
      | Some m \<Rightarrow> tg_Provider graph = mt_Provider m \<and> hasNode graph (target_reference m))"

definition evidenceBindsTarget :: "evidence \<Rightarrow> target \<Rightarrow> bool" where
  "evidenceBindsTarget e t =
     (if ev_Kind e = EvidenceFilesystemIdentity then
        (case ev_Filesystem e of None \<Rightarrow> False | Some v \<Rightarrow> sameTarget (fe_Target v) t)
      else if ev_Kind e = EvidenceManagerObject then
        (case ev_ManagerObject e of None \<Rightarrow> False | Some v \<Rightarrow> sameTarget (me_Target v) t)
      else if ev_Kind e = EvidenceInstallerMetadata then
        (case ev_InstallerMetadata e of None \<Rightarrow> False | Some v \<Rightarrow> sameTarget (im_Target v) t)
      else if ev_Kind e = EvidencePackageTransaction then
        (case ev_PackageTransaction e of None \<Rightarrow> False | Some v \<Rightarrow> graphBindsTarget (pe_Graph v) t)
      else False)"

definition validatePreconditionTargetBinding :: "precondition \<Rightarrow> target \<Rightarrow> string option" where
  "validatePreconditionTargetBinding p t =
     (if pc_Kind p = PreconditionFilesystemIdentity then
        check (case pc_Filesystem p of None \<Rightarrow> False | Some v \<Rightarrow> sameTarget (fp_Target v) t)
          ''filesystem precondition does not bind the action target''
      else if pc_Kind p = PreconditionManagerObjectState then
        check (case pc_ManagerObject p of None \<Rightarrow> False | Some v \<Rightarrow> sameTarget (mp_Target v) t)
          ''manager-object precondition does not bind the action target''
      else if pc_Kind p = PreconditionInstallerMetadata then
        check (case pc_InstallerMetadata p of None \<Rightarrow> False | Some v \<Rightarrow> sameTarget (ip_Target v) t)
          ''installer metadata precondition does not bind the action target''
      else if pc_Kind p = PreconditionPackageTransaction then
        check (case pc_PackageTransaction p of None \<Rightarrow> False | Some v \<Rightarrow> graphBindsTarget (pp_Graph v) t)
          ''package transaction precondition does not bind the action target''
      else Some ''precondition kind does not bind the action target'')"

section \<open>Candidates\<close>

record candidate =
  cand_ID :: candidate_id
  cand_Provider :: provider_id
  cand_Target :: target
  cand_Evidence :: "evidence list"
  cand_Size :: size_facts
  cand_Confidence :: confidence
  cand_DiscoveryPrecondition :: precondition

text \<open>
  The provider test reads \<^verbatim>\<open>Target.ManagerObject.Provider\<close> after the target has validated, so
  the variant of a manager target is present there; the evidence loop returns the first invalid
  evidence and remembers whether one binds the target.
\<close>

definition candidate_validate :: "candidate \<Rightarrow> string option" where
  "candidate_validate c = checks
     [candidate_id_validate (cand_ID c),
      provider_id_validate (cand_Provider c),
      target_validate (cand_Target c),
      check (\<not> (tgt_Kind (cand_Target c) = TargetManagerObject \<and>
          map_option mt_Provider (tgt_ManagerObject (cand_Target c)) \<noteq> Some (cand_Provider c)))
        ''candidate provider must match its manager-object target provider'',
      check (length (cand_Evidence c) \<noteq> 0) ''candidate requires typed evidence'',
      each (\<lambda>e. wrap ''candidate evidence'' (evidence_validate e)) (cand_Evidence c),
      check (list_ex (\<lambda>e. evidenceBindsTarget e (cand_Target c)) (cand_Evidence c))
        ''candidate evidence does not bind the candidate target'',
      wrap ''candidate size facts'' (size_facts_validate (cand_Size c)),
      confidence_validate (cand_Confidence c),
      wrap ''candidate discovery precondition'' (precondition_validate (cand_DiscoveryPrecondition c)),
      wrap ''candidate discovery precondition''
        (validatePreconditionTargetBinding (cand_DiscoveryPrecondition c) (cand_Target c))]"

definition candidate_clone :: "candidate \<Rightarrow> candidate" where
  "candidate_clone c = c
     \<lparr> cand_Target := target_clone (cand_Target c),
       cand_Evidence := cloneEvidenceSlice (cand_Evidence c),
       cand_DiscoveryPrecondition := precondition_clone (cand_DiscoveryPrecondition c) \<rparr>"

definition NewCandidate :: "candidate \<Rightarrow> string + candidate" where
  "NewCandidate = construct candidate_clone candidate_validate"

section \<open>Actions\<close>

record action =
  a_ID :: action_id
  a_Kind :: action_kind
  a_Target :: target
  a_Evidence :: "evidence list"
  a_Precondition :: precondition
  a_Dependencies :: "action_id list"
  a_Risk :: risk
  a_Reversibility :: reversibility
  a_EstimatedEffect :: size_facts
  a_RequiredCapability :: capability_id
  a_ProviderGuarantee :: provider_guarantee
  a_ExpectedPostcondition :: postcondition

definition guaranteeCovers :: "provider_guarantee \<Rightarrow> manager_object_ref \<Rightarrow> bool" where
  "guaranteeCovers guarantee reference = list_ex (\<lambda>covered. covered = reference) (pg_CoveredObjects guarantee)"

definition validateBoundedGuaranteeAgainstGraph :: "provider_guarantee \<Rightarrow> transaction_graph \<Rightarrow> string option" where
  "validateBoundedGuaranteeAgainstGraph guarantee graph = checks
     [check (pg_Kind (tg_Guarantee graph) \<in> {GuaranteeBoundedEffectOnly, GuaranteeExactTarget, GuaranteeExactGraph})
        ''bounded-effect provider guarantee exceeds transaction evidence'',
      each (\<lambda>covered. check (hasNode graph covered \<and> guaranteeCovers (tg_Guarantee graph) covered)
          ''bounded-effect provider guarantee exceeds transaction evidence'') (pg_CoveredObjects guarantee)]"

definition validateExactTargetGuaranteeAgainstGraph ::
    "manager_object_ref \<Rightarrow> transaction_graph \<Rightarrow> string option" where
  "validateExactTargetGuaranteeAgainstGraph reference graph =
     (if pg_Kind (tg_Guarantee graph) \<in> {GuaranteeExactTarget, GuaranteeExactGraph} \<and>
         guaranteeCovers (tg_Guarantee graph) reference
      then None
      else Some ''exact-target provider guarantee exceeds transaction evidence'')"

definition matchingTransactionEvidenceForAction ::
    "action \<Rightarrow> manager_object_ref \<Rightarrow> provider_id \<Rightarrow> transaction_graph list" where
  "matchingTransactionEvidenceForAction a reference provider =
     (let matching = (\<lambda>graph. tg_Provider graph = provider \<and> hasNode graph reference);
          from_evidence = concat (map (\<lambda>e.
            if ev_Kind e \<noteq> EvidencePackageTransaction then []
            else case ev_PackageTransaction e of None \<Rightarrow> []
              | Some v \<Rightarrow> if matching (pe_Graph v) then [pe_Graph v] else []) (a_Evidence a));
          from_precondition =
            (if pc_Kind (a_Precondition a) \<noteq> PreconditionPackageTransaction then []
             else case pc_PackageTransaction (a_Precondition a) of None \<Rightarrow> []
               | Some v \<Rightarrow> if matching (pp_Graph v) then [pp_Graph v] else [])
      in from_evidence @ from_precondition)"

definition validateManagerGuarantee ::
    "provider_guarantee \<Rightarrow> manager_object_ref \<Rightarrow> transaction_graph list \<Rightarrow> string option" where
  "validateManagerGuarantee guarantee reference graphs =
     (if pg_Kind guarantee \<noteq> GuaranteeReadOnlyInventory \<and> length graphs = 0 then
        Some ''manager action provider guarantee has no matching transaction evidence''
      else if pg_Kind guarantee = GuaranteeReadOnlyInventory then
        Some ''manager action provider guarantee must bind its target''
      else if pg_Kind guarantee = GuaranteeBoundedEffectOnly then
        (if \<not> guaranteeCovers guarantee reference
         then Some ''bounded-effect provider guarantee does not cover the manager target''
         else each (validateBoundedGuaranteeAgainstGraph guarantee) graphs)
      else if pg_Kind guarantee = GuaranteeExactTarget then
        (if length (pg_CoveredObjects guarantee) \<noteq> 1 \<or> pg_CoveredObjects guarantee ! 0 \<noteq> reference
         then Some ''exact-target provider guarantee must cover only the manager target''
         else each (validateExactTargetGuaranteeAgainstGraph reference) graphs)
      else if pg_Kind guarantee = GuaranteeExactGraph then
        (if length graphs = 0 then Some ''exact-graph provider guarantee has no matching transaction evidence''
         else each (\<lambda>graph. check (\<not> (pg_Kind (tg_Guarantee graph) \<noteq> GuaranteeExactGraph \<or>
               \<not> sameNodeSet (tg_Nodes graph) (pg_CoveredObjects guarantee)))
             ''exact-graph provider guarantee does not match transaction evidence'') graphs)
      else None)"

definition validateActionGuaranteeBinding :: "action \<Rightarrow> string option" where
  "validateActionGuaranteeBinding a =
     (let guarantee = a_ProviderGuarantee a in
      if tgt_Kind (a_Target a) = TargetFilesystem then
        check (pg_Kind guarantee = GuaranteeReadOnlyInventory)
          ''filesystem action provider guarantee must be read-only inventory''
      else if tgt_Kind (a_Target a) = TargetManagerObject then
        (case tgt_ManagerObject (a_Target a) of
           None \<Rightarrow> Some ''manager action has no manager-object target''
         | Some m \<Rightarrow> validateManagerGuarantee guarantee (target_reference m)
             (matchingTransactionEvidenceForAction a (target_reference m) (mt_Provider m)))
      else Some ''unknown action target kind'')"

text \<open>The dependency loop with its \<^verbatim>\<open>seenDependencies\<close> set.\<close>

fun action_dependencies_check :: "action_id \<Rightarrow> action_id list \<Rightarrow> action_id list \<Rightarrow> string option" where
  "action_dependencies_check self seen [] = None"
| "action_dependencies_check self seen (d # ds) =
     (case checks
        [wrap ''action dependency'' (action_id_validate d),
         check (d \<noteq> self) ''action dependency must not reference itself'',
         check (d \<notin> set seen) ''action dependency duplicates''] of
        Some e \<Rightarrow> Some e
      | None \<Rightarrow> action_dependencies_check self (d # seen) ds)"

definition action_validate :: "action \<Rightarrow> string option" where
  "action_validate a = checks
     [wrap ''action ID'' (action_id_validate (a_ID a)),
      action_kind_validate (a_Kind a),
      wrap ''action target'' (target_validate (a_Target a)),
      check (length (a_Evidence a) \<noteq> 0) ''action requires typed evidence'',
      each (\<lambda>e. wrap ''action evidence'' (evidence_validate e)) (a_Evidence a),
      check (list_ex (\<lambda>e. evidenceBindsTarget e (a_Target a)) (a_Evidence a))
        ''action evidence does not bind the action target'',
      wrap ''action precondition'' (precondition_validate (a_Precondition a)),
      validatePreconditionTargetBinding (a_Precondition a) (a_Target a),
      action_dependencies_check (a_ID a) [] (a_Dependencies a),
      risk_validate (a_Risk a),
      reversibility_validate (a_Reversibility a),
      wrap ''action estimated effect'' (size_facts_validate (a_EstimatedEffect a)),
      wrap ''action required capability'' (capability_id_validate (a_RequiredCapability a)),
      wrap ''action provider guarantee'' (provider_guarantee_validate (a_ProviderGuarantee a)),
      validateActionGuaranteeBinding a,
      postcondition_validate (a_ExpectedPostcondition a)]"

definition action_clone :: "action \<Rightarrow> action" where
  "action_clone a = a
     \<lparr> a_Target := target_clone (a_Target a),
       a_Evidence := cloneEvidenceSlice (a_Evidence a),
       a_Precondition := precondition_clone (a_Precondition a),
       a_Dependencies := [] @ a_Dependencies a,
       a_ProviderGuarantee := \<lparr> pg_Kind = pg_Kind (a_ProviderGuarantee a),
         pg_CoveredObjects = [] @ pg_CoveredObjects (a_ProviderGuarantee a) \<rparr> \<rparr>"

definition NewAction :: "action \<Rightarrow> string + action" where
  "NewAction = construct action_clone action_validate"

section \<open>Targets are compared by value\<close>

lemma sameTarget_of:
  "sameTarget (target_of_filesystem f) (target_of_filesystem g) \<longleftrightarrow> f = g"
  "sameTarget (target_of_manager m) (target_of_manager n) \<longleftrightarrow> m = n"
  "\<not> sameTarget (target_of_filesystem f) (target_of_manager m)"
  "\<not> sameTarget (target_of_manager m) (target_of_filesystem f)"
  by (auto simp: sameTarget_def target_of_filesystem_def target_of_manager_def
      intro: filesystem_target.equality manager_object_target.equality)

lemma sameTarget_valid:
  assumes "target_validate t = None" "target_validate u = None"
  shows "sameTarget t u \<longleftrightarrow> t = u"
  using assms
  by (auto simp: target_validate_None sameTarget_of)

section \<open>Copies\<close>

lemma checks_each_wrap:
  "checks (each (\<lambda>e. wrap w (f e)) es # rest) = None \<longleftrightarrow> (\<forall>e \<in> set es. f e = None) \<and> checks rest = None"
  by (simp add: checks_Cons)

lemma candidate_validate_parts:
  assumes "candidate_validate c = None"
  shows "target_validate (cand_Target c) = None" "\<forall>e \<in> set (cand_Evidence c). evidence_validate e = None"
    "precondition_validate (cand_DiscoveryPrecondition c) = None"
    "size_facts_validate (cand_Size c) = None"
  using assms unfolding candidate_validate_def checks_Cons each_None wrap_None by blast+

lemma action_validate_parts:
  assumes "action_validate a = None"
  shows "stable_id (a_ID a)" "target_validate (a_Target a) = None"
    "\<forall>e \<in> set (a_Evidence a). evidence_validate e = None"
    "precondition_validate (a_Precondition a) = None"
    "validatePreconditionTargetBinding (a_Precondition a) (a_Target a) = None"
    "\<exists>e \<in> set (a_Evidence a). evidenceBindsTarget e (a_Target a)"
    "action_dependencies_check (a_ID a) [] (a_Dependencies a) = None"
    "provider_guarantee_validate (a_ProviderGuarantee a) = None"
    "validateActionGuaranteeBinding a = None"
    "size_facts_validate (a_EstimatedEffect a) = None"
  using assms unfolding action_validate_def checks_Cons each_None wrap_None check_None list_ex_iff
    id_validate_None by blast+

interpretation candidate_copy: defensive_copy candidate_clone candidate_validate
proof
  show "candidate_clone c = c" if "candidate_validate c = None" for c
    using candidate_validate_parts [OF that]
    by (simp add: candidate_clone_def target_clone_valid cloneEvidenceSlice_valid precondition_clone_valid)
next
  fix c
  assume valid: "candidate_validate (candidate_clone c) = None"
  note parts = candidate_validate_parts [OF valid]
  have "target_clone (cand_Target c) = cand_Target c"
    "cloneEvidenceSlice (cand_Evidence c) = cand_Evidence c"
    "precondition_clone (cand_DiscoveryPrecondition c) = cand_DiscoveryPrecondition c"
    using parts target_clone_rejected cloneEvidenceSlice_rejected precondition_clone_rejected
    by (auto simp: candidate_clone_def)
  then have "candidate_clone c = c" by (simp add: candidate_clone_def)
  with valid show "candidate_validate c = None" by simp
qed

interpretation action_copy: defensive_copy action_clone action_validate
proof
  show "action_clone a = a" if "action_validate a = None" for a
    using action_validate_parts(2-4) [OF that]
    by (simp add: action_clone_def target_clone_valid cloneEvidenceSlice_valid precondition_clone_valid)
next
  fix a
  assume valid: "action_validate (action_clone a) = None"
  have "target_clone (a_Target a) = a_Target a" "cloneEvidenceSlice (a_Evidence a) = a_Evidence a"
    "precondition_clone (a_Precondition a) = a_Precondition a"
    using action_validate_parts(2-4) [OF valid] target_clone_rejected cloneEvidenceSlice_rejected
      precondition_clone_rejected
    by (auto simp: action_clone_def)
  then have "action_clone a = a" by (simp add: action_clone_def)
  with valid show "action_validate a = None" by simp
qed

section \<open>Dependencies\<close>

lemma action_dependencies_check_None:
  "action_dependencies_check self seen ds = None \<longleftrightarrow>
     (\<forall>d \<in> set ds. stable_id d \<and> d \<noteq> self \<and> d \<notin> set seen) \<and> distinct ds"
proof (induction ds arbitrary: seen)
  case (Cons d ds)
  let ?head = "checks [wrap ''action dependency'' (action_id_validate d),
      check (d \<noteq> self) ''action dependency must not reference itself'',
      check (d \<notin> set seen) ''action dependency duplicates'']"
  have "?head = None \<longleftrightarrow> stable_id d \<and> d \<noteq> self \<and> d \<notin> set seen"
    by (simp add: checks_Cons id_validate_None)
  moreover have "action_dependencies_check self seen (d # ds) = None \<longleftrightarrow>
      ?head = None \<and> action_dependencies_check self (d # seen) ds = None"
    by (cases ?head) simp_all
  ultimately show ?case using Cons.IH [of "d # seen"] by auto
qed simp

section \<open>The guarantee of an action and its evidence\<close>

lemma matching_graph_valid:
  assumes "action_validate a = None" "g \<in> set (matchingTransactionEvidenceForAction a r p)"
  shows "transaction_graph_validate g = None \<and> tg_Provider g = p \<and> r \<in> set (references g)"
proof -
  have "hasNode g r \<and> tg_Provider g = p \<and>
      ((\<exists>e \<in> set (a_Evidence a). ev_Kind e = EvidencePackageTransaction \<and>
          (\<exists>v. ev_PackageTransaction e = Some v \<and> pe_Graph v = g)) \<or>
       pc_Kind (a_Precondition a) = PreconditionPackageTransaction \<and>
          (\<exists>v. pc_PackageTransaction (a_Precondition a) = Some v \<and> pp_Graph v = g))"
    using assms(2)
    by (auto simp: matchingTransactionEvidenceForAction_def Let_def split: if_splits option.splits)
      (metis)+
  moreover have "transaction_graph_validate (pe_Graph v) = None"
    if "e \<in> set (a_Evidence a)" "ev_Kind e = EvidencePackageTransaction" "ev_PackageTransaction e = Some v" for e v
  proof -
    have "evidence_validate e = None"
      using action_validate_parts(3) [OF assms(1)] that(1) by blast
    then obtain w where "e = evidence_of w" "evidence_view_validate w = None"
      by (auto simp: evidence_validate_None)
    with that show ?thesis
      by (cases w) (auto simp: no_variant_def package_transaction_evidence_validate_def)
  qed
  moreover have "transaction_graph_validate (pp_Graph v) = None"
    if "pc_PackageTransaction (a_Precondition a) = Some v" for v
  proof -
    obtain w where "a_Precondition a = precondition_of w" "precondition_view_validate w = None"
      using action_validate_parts(4) [OF assms(1)] that by (auto simp: precondition_validate_None)
    with that show ?thesis
      by (cases w) (auto simp: no_pvariant_def package_transaction_precondition_validate_def checks_Cons)
  qed
  ultimately have valid: "transaction_graph_validate g = None \<and> hasNode g r \<and> tg_Provider g = p"
    by auto
  then have "sorted_wrt (<) (references g)"
    by (simp add: transaction_graph_validate_None graph_ok_def graph_sorted_def sorted_wrt_less_distinct)
  with valid show ?thesis using hasNode_iff_member by blast
qed

text \<open>The strengths of the guarantee kinds, weakest first.\<close>

definition guarantee_strength :: "provider_guarantee_kind \<Rightarrow> nat" where
  "guarantee_strength kind =
     (if kind = GuaranteeReadOnlyInventory then 0 else if kind = GuaranteeBoundedEffectOnly then 1
      else if kind = GuaranteeExactTarget then 2 else if kind = GuaranteeExactGraph then 3 else 4)"

text \<open>
  A graph backs a guarantee about a target when the graph's own guarantee is at least as strong
  and covers every object the guarantee covers.
\<close>

definition backs_guarantee :: "transaction_graph \<Rightarrow> provider_guarantee \<Rightarrow> bool" where
  "backs_guarantee g guarantee \<longleftrightarrow>
     guarantee_strength (pg_Kind guarantee) \<le> guarantee_strength (pg_Kind (tg_Guarantee g)) \<and>
     set (pg_CoveredObjects guarantee) \<subseteq> set (pg_CoveredObjects (tg_Guarantee g)) \<and>
     set (pg_CoveredObjects guarantee) \<subseteq> set (references g)"

lemma guarantee_kinds_distinct:
  "distinct [GuaranteeReadOnlyInventory, GuaranteeBoundedEffectOnly, GuaranteeExactTarget, GuaranteeExactGraph]"
  by (simp add: guarantee_kind_defs)

lemma guarantee_strength_simps:
  "guarantee_strength GuaranteeReadOnlyInventory = 0" "guarantee_strength GuaranteeBoundedEffectOnly = 1"
  "guarantee_strength GuaranteeExactTarget = 2" "guarantee_strength GuaranteeExactGraph = 3"
  by (simp_all add: guarantee_strength_def guarantee_kind_defs)

lemma guaranteeCovers_iff [simp]: "guaranteeCovers g r \<longleftrightarrow> r \<in> set (pg_CoveredObjects g)"
  by (auto simp: guaranteeCovers_def list_ex_iff)

lemma valid_graph_facts:
  assumes "transaction_graph_validate g = None"
  shows "hasNode g r \<longleftrightarrow> r \<in> set (references g)"
    and "set (pg_CoveredObjects (tg_Guarantee g)) \<subseteq> set (references g)"
    and "pg_Kind (tg_Guarantee g) = GuaranteeExactGraph \<Longrightarrow>
      set (pg_CoveredObjects (tg_Guarantee g)) = set (references g)"
  using assms hasNode_iff_member [of g r]
  by (auto simp: transaction_graph_validate_None graph_ok_def graph_sorted_def sorted_wrt_less_distinct)

lemma bounded_backs:
  assumes "transaction_graph_validate g = None" "validateBoundedGuaranteeAgainstGraph guarantee g = None"
    and "pg_Kind guarantee = GuaranteeBoundedEffectOnly"
  shows "backs_guarantee g guarantee"
  using assms valid_graph_facts [OF assms(1)]
  by (auto simp: validateBoundedGuaranteeAgainstGraph_def checks_Cons backs_guarantee_def guarantee_strength_simps)

lemma exact_target_backs:
  assumes "transaction_graph_validate g = None" "validateExactTargetGuaranteeAgainstGraph r g = None"
    and "pg_Kind guarantee = GuaranteeExactTarget" "pg_CoveredObjects guarantee = [r]"
  shows "backs_guarantee g guarantee"
  using assms valid_graph_facts [OF assms(1)]
  by (auto simp: validateExactTargetGuaranteeAgainstGraph_def backs_guarantee_def guarantee_strength_simps
      split: if_splits)

lemma exact_graph_backs:
  assumes "transaction_graph_validate g = None" "pg_Kind (tg_Guarantee g) = GuaranteeExactGraph"
    and "sameNodeSet (tg_Nodes g) (pg_CoveredObjects guarantee)" "pg_Kind guarantee = GuaranteeExactGraph"
  shows "backs_guarantee g guarantee \<and> set (pg_CoveredObjects guarantee) = set (references g)"
  using assms valid_graph_facts [OF assms(1)]
  by (auto simp: sameNodeSet_iff references_def backs_guarantee_def)

lemma validateManagerGuarantee_None:
  assumes "validateManagerGuarantee guarantee r graphs = None" "provider_guarantee_validate guarantee = None"
    and valid: "\<forall>g \<in> set graphs. transaction_graph_validate g = None \<and> r \<in> set (references g)"
  shows "graphs \<noteq> [] \<and> pg_Kind guarantee \<noteq> GuaranteeReadOnlyInventory \<and>
    r \<in> set (pg_CoveredObjects guarantee) \<and> (\<forall>g \<in> set graphs. backs_guarantee g guarantee)"
proof -
  have "guarantee_kind_fits (pg_Kind guarantee) (length (pg_CoveredObjects guarantee))"
    using assms(2) by (simp add: provider_guarantee_validate_None guarantee_ok_def)
  then consider (inventory) "pg_Kind guarantee = GuaranteeReadOnlyInventory"
    | (bounded) "pg_Kind guarantee = GuaranteeBoundedEffectOnly"
    | (exact_target) "pg_Kind guarantee = GuaranteeExactTarget"
    | (exact_graph) "pg_Kind guarantee = GuaranteeExactGraph"
    by (auto simp: guarantee_kind_fits_def)
  then show ?thesis
  proof cases
    case inventory
    with assms(1) show ?thesis by (simp add: validateManagerGuarantee_def)
  next
    case bounded
    with assms(1) guarantee_kinds_distinct show ?thesis
      using bounded_backs valid by (auto simp: validateManagerGuarantee_def split: if_splits)
  next
    case exact_target
    then have "pg_CoveredObjects guarantee = [r]"
      using assms(1) guarantee_kinds_distinct
      by (auto simp: validateManagerGuarantee_def length_Suc_conv split: if_splits)
    with exact_target assms(1) guarantee_kinds_distinct show ?thesis
      using exact_target_backs valid by (auto simp: validateManagerGuarantee_def split: if_splits)
  next
    case exact_graph
    then have "graphs \<noteq> []" "\<forall>g \<in> set graphs. pg_Kind (tg_Guarantee g) = GuaranteeExactGraph \<and>
        sameNodeSet (tg_Nodes g) (pg_CoveredObjects guarantee)"
      using assms(1) guarantee_kinds_distinct by (auto simp: validateManagerGuarantee_def split: if_splits)
    with exact_graph valid exact_graph_backs show ?thesis
      using guarantee_kinds_distinct by (cases graphs) fastforce+
  qed
qed

section \<open>Properties\<close>

text \<open>What the guarantee of an accepted action rests on.\<close>

definition guarantee_backed :: "action \<Rightarrow> bool" where
  "guarantee_backed a \<longleftrightarrow>
     (case tgt_ManagerObject (a_Target a) of
        None \<Rightarrow> pg_Kind (a_ProviderGuarantee a) = GuaranteeReadOnlyInventory \<and>
          pg_CoveredObjects (a_ProviderGuarantee a) = []
      | Some m \<Rightarrow>
          let graphs = matchingTransactionEvidenceForAction a (target_reference m) (mt_Provider m)
          in graphs \<noteq> [] \<and> pg_Kind (a_ProviderGuarantee a) \<noteq> GuaranteeReadOnlyInventory \<and>
             target_reference m \<in> set (pg_CoveredObjects (a_ProviderGuarantee a)) \<and>
             list_all (\<lambda>g. transaction_graph_validate g = None \<and> tg_Provider g = mt_Provider m \<and>
               backs_guarantee g (a_ProviderGuarantee a)) graphs)"

text \<open>
  An accepted action never claims a stronger guarantee than its evidence. An action on a
  filesystem path claims the read-only inventory and covers no object; an action on a manager
  object covers its target, has at least one validated transaction graph of the target's provider
  that contains it, and every such graph carries a guarantee at least as strong over at least
  the same objects.
\<close>

theorem action_guarantee_backed:
  assumes "action_validate a = None"
  shows "guarantee_backed a"
proof -
  note parts = action_validate_parts [OF assms]
  from parts(2) consider (filesystem) f where "a_Target a = target_of_filesystem f"
    | (manager) m where "a_Target a = target_of_manager m"
    by (auto simp: target_validate_None)
  then show ?thesis
  proof cases
    case filesystem
    then have "pg_Kind (a_ProviderGuarantee a) = GuaranteeReadOnlyInventory"
      using parts(9) by (simp add: validateActionGuaranteeBinding_def target_of_filesystem_def)
    moreover from this have "pg_CoveredObjects (a_ProviderGuarantee a) = []"
      using parts(8) guarantee_kinds_distinct
      by (auto simp: provider_guarantee_validate_None guarantee_ok_def guarantee_kind_fits_def)
    ultimately show ?thesis
      using filesystem by (simp add: guarantee_backed_def target_of_filesystem_def)
  next
    case manager
    let ?graphs = "matchingTransactionEvidenceForAction a (target_reference m) (mt_Provider m)"
    have "validateManagerGuarantee (a_ProviderGuarantee a) (target_reference m) ?graphs = None"
      using parts(9) manager by (simp add: validateActionGuaranteeBinding_def target_of_manager_def)
    from validateManagerGuarantee_None [OF this parts(8)] matching_graph_valid [OF assms]
    show ?thesis
      using manager by (simp add: guarantee_backed_def target_of_manager_def list_all_iff Let_def)
  qed
qed

definition evidence_about :: "evidence_view \<Rightarrow> target \<Rightarrow> bool" where
  "evidence_about v t = (case v of
     FilesystemView f \<Rightarrow> fe_Target f = t
   | ManagerView m \<Rightarrow> me_Target m = t
   | InstallerView i \<Rightarrow> im_Target i = t
   | PackageView p \<Rightarrow> (\<exists>m. t = target_of_manager m \<and> tg_Provider (pe_Graph p) = mt_Provider m \<and>
        target_reference m \<in> set (references (pe_Graph p)))
   | _ \<Rightarrow> False)"

definition precondition_about :: "precondition_view \<Rightarrow> target \<Rightarrow> bool" where
  "precondition_about v t = (case v of
     FilesystemPView f \<Rightarrow> fp_Target f = t
   | ManagerPView m \<Rightarrow> mp_Target m = t
   | InstallerPView i \<Rightarrow> ip_Target i = t
   | PackagePView p \<Rightarrow> (\<exists>m. t = target_of_manager m \<and> tg_Provider (pp_Graph p) = mt_Provider m \<and>
        target_reference m \<in> set (references (pp_Graph p)))
   | _ \<Rightarrow> False)"

lemma graphBindsTarget_valid:
  assumes "transaction_graph_validate g = None" "target_validate t = None"
  shows "graphBindsTarget g t \<longleftrightarrow> (\<exists>m. t = target_of_manager m \<and> tg_Provider g = mt_Provider m \<and>
    target_reference m \<in> set (references g))"
  using assms valid_graph_facts(1) [OF assms(1)]
  by (auto simp: target_validate_None graphBindsTarget_def target_of_filesystem_def target_of_manager_def)

lemma evidenceBindsTarget_valid:
  assumes "evidence_view_validate v = None" "target_validate t = None"
  shows "evidenceBindsTarget (evidence_of v) t \<longleftrightarrow> evidence_about v t"
  using assms evidence_kinds_distinct sameTarget_valid graphBindsTarget_valid
  by (cases v) (auto simp: evidenceBindsTarget_def evidence_about_def no_variant_def
      package_transaction_evidence_validate_def dest: view_validate_target)

lemma preconditionBinding_valid:
  assumes "precondition_view_validate v = None" "target_validate t = None"
  shows "validatePreconditionTargetBinding (precondition_of v) t = None \<longleftrightarrow> precondition_about v t"
  using assms precondition_kinds_distinct sameTarget_valid graphBindsTarget_valid
  by (cases v) (auto simp: validatePreconditionTargetBinding_def precondition_about_def no_pvariant_def
      package_transaction_precondition_validate_def checks_Cons dest: pview_validate_target)

text \<open>
  Evidence and precondition of an accepted action are about its target. Some validated piece of
  evidence names exactly this target (equality of values decides \<^verbatim>\<open>sameTarget\<close>) or is a transaction
  graph of its provider that contains it, and so does the precondition revalidated at the point of use.
\<close>

theorem action_bound_to_target:
  assumes "action_validate a = None"
  shows "(\<exists>v. evidence_of v \<in> set (a_Evidence a) \<and> evidence_view_validate v = None \<and> evidence_about v (a_Target a)) \<and>
    (\<exists>p. a_Precondition a = precondition_of p \<and> precondition_view_validate p = None \<and>
      precondition_about p (a_Target a))"
proof -
  note parts = action_validate_parts [OF assms]
  obtain e where e: "e \<in> set (a_Evidence a)" "evidenceBindsTarget e (a_Target a)"
    using parts(6) by blast
  then obtain v where "e = evidence_of v" "evidence_view_validate v = None"
    using parts(3) evidence_validate_None by blast
  moreover from parts(4) obtain p where "a_Precondition a = precondition_of p" "precondition_view_validate p = None"
    using precondition_validate_None by blast
  ultimately show ?thesis
    using e parts(2,5) evidenceBindsTarget_valid preconditionBinding_valid by metis
qed

text \<open>
  Constructing an action or a candidate copies and validates, and the copy is invisible: the
  constructor succeeds exactly on the valid values and returns the same value, though cloning
  turns an invalid byte path into the empty path on the way.
\<close>

theorem construct_action_candidate:
  "(NewAction a = Inr b \<longleftrightarrow> action_validate a = None \<and> b = a) \<and>
   (NewCandidate c = Inr d \<longleftrightarrow> candidate_validate c = None \<and> d = c)"
  by (simp add: NewAction_def NewCandidate_def action_copy.constructed candidate_copy.constructed)

subsection \<open>Witnesses\<close>

definition sample_target :: target where
  "sample_target = target_of_manager \<lparr> mt_Provider = ''apt'', mt_Object = ''vim'', mt_Scope = ''user'' \<rparr>"

definition sample_package_action :: action where
  "sample_package_action = \<lparr> a_ID = ''a1'', a_Kind = ''remove_native_package'', a_Target = sample_target,
     a_Evidence = [evidence_of (PackageView \<lparr> pe_Graph = sample_graph [''libc'', ''vim''] \<rparr>)],
     a_Precondition = precondition_of (ManagerPView
       \<lparr> mp_Target = sample_target, mp_ExpectedVersion = ''1.0'', mp_ExpectedPresent = True \<rparr>),
     a_Dependencies = [], a_Risk = ''high'', a_Reversibility = ''no_rollback'',
     a_EstimatedEffect = no_size_facts, a_RequiredCapability = ''apt'',
     a_ProviderGuarantee = \<lparr> pg_Kind = GuaranteeExactTarget, pg_CoveredObjects = [sample_ref ''vim''] \<rparr>,
     a_ExpectedPostcondition = ''target_absent'' \<rparr>"

lemma sample_package_action_valid: "action_validate sample_package_action = None"
  by code_simp

theorem action_guarantee_backed_witness: "guarantee_backed sample_package_action"
  by (rule action_guarantee_backed [OF sample_package_action_valid])

theorem action_bound_to_target_witness:
  "\<exists>p. a_Precondition sample_package_action = precondition_of p \<and> precondition_about p sample_target"
  using action_bound_to_target [OF sample_package_action_valid]
  by (auto simp: sample_package_action_def)

end
