(* ===== verification/DomainPlan.thy ===== *)
theory DomainPlan
  imports DomainAction
begin

text \<open>
  \<^verbatim>\<open>src/internal/domain/plan.go\<close>: the plan body, its canonical form and validation, and the
  depth-first search that rejects cyclic action dependencies. The recursion of
  \<^verbatim>\<open>visitActionDependencies\<close> is bounded by a fuel; one more than the number of actions is shown
  to be enough. A \<^verbatim>\<open>time.Time\<close> is its instant in nanoseconds since 1970 and whether its location
  is UTC.
\<close>

section \<open>Caller and creation context\<close>

record go_time =
  time_instant :: int
  time_utc :: bool

definition zero_time_instant :: int where
  "zero_time_instant = - 62135596800 * 10 ^ 9"

definition time_IsZero :: "go_time \<Rightarrow> bool" where
  "time_IsZero t = (time_instant t = zero_time_instant)"

definition time_UTC :: "go_time \<Rightarrow> go_time" where
  "time_UTC t = t \<lparr> time_utc := True \<rparr>"

definition minimumUnixNanosecondTime :: int where
  "minimumUnixNanosecondTime = - (2 ^ 63)"

definition maximumUnixNanosecondTime :: int where
  "maximumUnixNanosecondTime = 2 ^ 63 - 1"

record caller_echo =
  ce_RunID :: run_id
  ce_UID :: u32
  ce_Interactive :: bool
  ce_SelectedCandidateIDs :: "candidate_id list"

record creation_context =
  cc_CreatedAt :: go_time
  cc_ToolVersion :: string
  cc_HostProfile :: string

definition SchemaVersionV1 :: u16 where
  "SchemaVersionV1 = 1"

record plan_body =
  pb_SchemaVersion :: u16
  pb_Command :: command
  pb_Caller :: caller_echo
  pb_Capabilities :: capability_snapshot
  pb_ConfigDigest :: config_digest
  pb_Actions :: "action list"
  pb_Totals :: size_facts
  pb_Creation :: creation_context

record plan =
  pl_body :: plan_body
  pl_digest :: plan_digest

definition caller_echo_validate :: "caller_echo \<Rightarrow> string option" where
  "caller_echo_validate caller = checks
     [run_id_validate (ce_RunID caller),
      each_prev (\<lambda>prev c. checks
        [wrap ''selected candidate'' (candidate_id_validate c),
         check_prev (<) prev c ''selected candidate IDs must be strictly sorted''])
        (ce_SelectedCandidateIDs caller)]"

definition caller_echo_clone :: "caller_echo \<Rightarrow> caller_echo" where
  "caller_echo_clone caller = caller \<lparr> ce_SelectedCandidateIDs := [] @ ce_SelectedCandidateIDs caller \<rparr>"

definition validateUnixNanosecondTime :: "string \<Rightarrow> go_time \<Rightarrow> string option" where
  "validateUnixNanosecondTime name value =
     (if time_instant value < minimumUnixNanosecondTime \<or> maximumUnixNanosecondTime < time_instant value
      then Some (name @ '' must be representable as an int64 Unix nanosecond value'') else None)"

definition stable_version_byte :: "char \<Rightarrow> bool" where
  "stable_version_byte c = (lower_or_digit c \<or> upper_letter c \<or>
     c \<in> {CHR ''.'', CHR ''-'', CHR ''_'', CHR ''+''})"

definition validateStableVersion :: "string \<Rightarrow> string \<Rightarrow> string option" where
  "validateStableVersion name value = checks
     [check (value \<noteq> [] \<and> length value \<le> 128) (name @ '' must contain 1 through 128 bytes''),
      each (\<lambda>c. check (stable_version_byte c) (name @ '' contains unsupported byte'')) value]"

definition creation_context_validate :: "creation_context \<Rightarrow> string option" where
  "creation_context_validate c = checks
     [check (\<not> time_IsZero (cc_CreatedAt c)) ''creation time is required'',
      check (time_utc (cc_CreatedAt c)) ''creation time must use UTC'',
      validateUnixNanosecondTime ''creation time'' (cc_CreatedAt c),
      validateStableVersion ''tool version'' (cc_ToolVersion c),
      validateStableID ''host profile'' (cc_HostProfile c)]"

definition creation_context_clone :: "creation_context \<Rightarrow> creation_context" where
  "creation_context_clone c =
     (if \<not> time_IsZero (cc_CreatedAt c) then c \<lparr> cc_CreatedAt := time_UTC (cc_CreatedAt c) \<rparr> else c)"

section \<open>The dependency graph of the actions\<close>

datatype dependencyVisitState = dependencyUnvisited | dependencyVisiting | dependencyVisited

type_synonym visit_states = "action_id \<Rightarrow> dependencyVisitState"

text \<open>
  \<^verbatim>\<open>visitActionDependencies\<close> and its loop over the dependencies. \<open>None\<close> is an exhausted
  fuel; the state map is returned because the code updates it in place.
\<close>

fun visitActionDependencies ::
    "nat \<Rightarrow> (action_id \<Rightarrow> action_id list) \<Rightarrow> action_id \<Rightarrow> visit_states \<Rightarrow> (string + visit_states) option"
  and visitAll ::
    "nat \<Rightarrow> (action_id \<Rightarrow> action_id list) \<Rightarrow> action_id list \<Rightarrow> visit_states \<Rightarrow> (string + visit_states) option"
where
  "visitActionDependencies 0 dependencies i states = None"
| "visitActionDependencies (Suc n) dependencies i states =
     (case states i of
        dependencyVisited \<Rightarrow> Some (Inr states)
      | dependencyVisiting \<Rightarrow> Some (Inl ''action dependency cycle includes'')
      | dependencyUnvisited \<Rightarrow>
          (case visitAll n dependencies (dependencies i) (states(i := dependencyVisiting)) of
             None \<Rightarrow> None
           | Some (Inl e) \<Rightarrow> Some (Inl e)
           | Some (Inr states') \<Rightarrow> Some (Inr (states'(i := dependencyVisited)))))"
| "visitAll n dependencies [] states = Some (Inr states)"
| "visitAll n dependencies (d # ds) states =
     (case visitActionDependencies n dependencies d states of
        None \<Rightarrow> None
      | Some (Inl e) \<Rightarrow> Some (Inl e)
      | Some (Inr states') \<Rightarrow> visitAll n dependencies ds states')"

text \<open>The first loop: every action validates and its identifier is new.\<close>

fun known_actions_check :: "action_id list \<Rightarrow> action list \<Rightarrow> string option" where
  "known_actions_check known [] = None"
| "known_actions_check known (a # as) =
     (case checks [wrap ''action'' (action_validate a), check (a_ID a \<notin> set known) ''duplicate action ID''] of
        Some e \<Rightarrow> Some e
      | None \<Rightarrow> known_actions_check (a_ID a # known) as)"

text \<open>The second loop: dependencies are valid, not reflexive, not repeated and known.\<close>

fun plan_dependencies_check :: "action_id list \<Rightarrow> action_id \<Rightarrow> action_id list \<Rightarrow> action_id list \<Rightarrow> string option" where
  "plan_dependencies_check known self seen [] = None"
| "plan_dependencies_check known self seen (d # ds) =
     (case checks
        [wrap ''action dependency'' (action_id_validate d),
         check (d \<noteq> self) ''action depends on itself'',
         check (d \<notin> set seen) ''action lists duplicate dependency'',
         check (d \<in> set known) ''action depends on unknown action''] of
        Some e \<Rightarrow> Some e
      | None \<Rightarrow> plan_dependencies_check known self (d # seen) ds)"

definition dependency_map :: "action list \<Rightarrow> action_id \<Rightarrow> action_id list" where
  "dependency_map actions = fold (\<lambda>a m. m(a_ID a := a_Dependencies a)) actions (\<lambda>_. [])"

definition visit_fuel :: "action list \<Rightarrow> nat" where
  "visit_fuel actions = length actions + 1"

definition dependency_cycle_check :: "action list \<Rightarrow> string option" where
  "dependency_cycle_check actions =
     (case visitAll (visit_fuel actions) (dependency_map actions) (map a_ID actions) (\<lambda>_. dependencyUnvisited) of
        None \<Rightarrow> Some ''visit fuel exhausted''
      | Some (Inl e) \<Rightarrow> Some e
      | Some (Inr _) \<Rightarrow> None)"

definition validatePlanActions :: "action list \<Rightarrow> string option" where
  "validatePlanActions actions = checks
     [known_actions_check [] actions,
      each (\<lambda>a. plan_dependencies_check (map a_ID actions) (a_ID a) [] (a_Dependencies a)) actions,
      dependency_cycle_check actions]"

section \<open>Plan bodies and plans\<close>

definition plan_body_validate :: "plan_body \<Rightarrow> string option" where
  "plan_body_validate body = checks
     [check (pb_SchemaVersion body = SchemaVersionV1) ''unsupported plan schema version'',
      command_validate (pb_Command body),
      wrap ''caller echo'' (caller_echo_validate (pb_Caller body)),
      wrap ''capability snapshot'' (capability_snapshot_validate (pb_Capabilities body)),
      wrap ''config digest'' (config_digest_validate (pb_ConfigDigest body)),
      wrap ''plan totals'' (size_facts_validate (pb_Totals body)),
      wrap ''creation context'' (creation_context_validate (pb_Creation body)),
      validatePlanActions (pb_Actions body)]"

definition plan_body_clone :: "plan_body \<Rightarrow> plan_body" where
  "plan_body_clone body = body
     \<lparr> pb_Caller := caller_echo_clone (pb_Caller body),
       pb_Capabilities := capability_snapshot_clone (pb_Capabilities body),
       pb_Actions := map action_clone (pb_Actions body),
       pb_Creation := creation_context_clone (pb_Creation body) \<rparr>"

definition canonicalPlanBody :: "plan_body \<Rightarrow> string + plan_body" where
  "canonicalPlanBody body =
     (let cloned = plan_body_clone body;
          sorted_ids = cloned \<lparr> pb_Caller := pb_Caller cloned
            \<lparr> ce_SelectedCandidateIDs := sort (ce_SelectedCandidateIDs (pb_Caller cloned)) \<rparr> \<rparr>
      in case NewCapabilitySnapshot (cs_facts (pb_Capabilities sorted_ids)) of
           Inl e \<Rightarrow> Inl (''capability snapshot: '' @ e)
         | Inr capabilities \<Rightarrow>
             (let canonical = sorted_ids \<lparr> pb_Capabilities := capabilities,
                    pb_Creation := creation_context_clone (pb_Creation sorted_ids) \<rparr>
              in case plan_body_validate canonical of Some e \<Rightarrow> Inl e | None \<Rightarrow> Inr canonical))"

definition NewPlan :: "plan_body \<Rightarrow> plan_digest \<Rightarrow> string + plan" where
  "NewPlan body digest =
     (case canonicalPlanBody body of
        Inl e \<Rightarrow> Inl e
      | Inr canonical \<Rightarrow>
          (case wrap ''plan digest'' (plan_digest_validate digest) of
             Some e \<Rightarrow> Inl e
           | None \<Rightarrow> Inr \<lparr> pl_body = canonical, pl_digest = digest \<rparr>))"

definition plan_validate :: "plan \<Rightarrow> string option" where
  "plan_validate p = checks
     [wrap ''plan body'' (plan_body_validate (pl_body p)), wrap ''plan digest'' (plan_digest_validate (pl_digest p))]"

definition plan_CanonicalBody :: "plan \<Rightarrow> plan_body" where
  "plan_CanonicalBody p = plan_body_clone (pl_body p)"

section \<open>The search decides acyclicity\<close>

text \<open>The edges from an action to its dependencies.\<close>

definition depends :: "(action_id \<Rightarrow> action_id list) \<Rightarrow> (action_id \<times> action_id) set" where
  "depends dependencies = {(a, d). d \<in> set (dependencies a)}"

text \<open>
  A successful visit leaves the nodes being visited as they were, forgets no visited node, and
  every visited node is accessible: no infinite chain of dependencies starts there.
\<close>

definition visited_accessible :: "(action_id \<Rightarrow> action_id list) \<Rightarrow> visit_states \<Rightarrow> bool" where
  "visited_accessible dependencies states \<longleftrightarrow>
     (\<forall>x. states x = dependencyVisited \<longrightarrow> Wellfounded.accp (\<lambda>d a. (a, d) \<in> depends dependencies) x)"

definition visit_progress :: "visit_states \<Rightarrow> visit_states \<Rightarrow> bool" where
  "visit_progress states states' \<longleftrightarrow>
     (\<forall>x. states x \<noteq> dependencyUnvisited \<longrightarrow> states' x = states x) \<and>
     (\<forall>x. states' x = dependencyVisiting \<longrightarrow> states x = dependencyVisiting)"

lemma visit_progress_refl: "visit_progress s s"
  by (simp add: visit_progress_def)

lemma visit_progress_trans: "visit_progress s t \<Longrightarrow> visit_progress t u \<Longrightarrow> visit_progress s u"
  unfolding visit_progress_def by metis

lemma visit_progress_finish:
  assumes "visit_progress (s(i := dependencyVisiting)) t" "s i = dependencyUnvisited"
  shows "visit_progress s (t(i := dependencyVisited))"
  using assms unfolding visit_progress_def by (metis dependencyVisitState.distinct(5) fun_upd_apply)

lemma visit_sound:
  "visitActionDependencies n deps i s = Some (Inr t) \<Longrightarrow> visited_accessible deps s \<Longrightarrow>
     visit_progress s t \<and> visited_accessible deps t \<and> t i = dependencyVisited"
  "visitAll n deps ds s = Some (Inr t) \<Longrightarrow> visited_accessible deps s \<Longrightarrow>
     visit_progress s t \<and> visited_accessible deps t \<and> (\<forall>d \<in> set ds. t d = dependencyVisited)"
proof (induction n deps i s and n deps ds s arbitrary: t and t
    rule: visitActionDependencies_visitAll.induct)
  case (2 n deps i s)
  show ?case
  proof (cases "s i")
    case dependencyUnvisited
    with 2(2) obtain u where u: "visitAll n deps (deps i) (s(i := dependencyVisiting)) = Some (Inr u)"
      and t: "t = u(i := dependencyVisited)"
      by (auto split: option.splits sum.splits)
    have "visited_accessible deps (s(i := dependencyVisiting))"
      using 2(3) by (auto simp: visited_accessible_def)
    from 2(1) [OF dependencyUnvisited u this]
    have prog: "visit_progress (s(i := dependencyVisiting)) u" and acc: "visited_accessible deps u"
      and all: "\<forall>d \<in> set (deps i). u d = dependencyVisited"
      by (simp_all del: fun_upd_apply)
    have "Wellfounded.accp (\<lambda>d a. (a, d) \<in> depends deps) i"
      by (rule accp.accI) (use acc all in \<open>auto simp: visited_accessible_def depends_def\<close>)
    with acc have "visited_accessible deps t"
      by (auto simp: visited_accessible_def t)
    with visit_progress_finish [OF prog dependencyUnvisited] show ?thesis
      by (simp add: t fun_upd_same del: fun_upd_apply)
  qed (use 2(2,3) in \<open>auto simp: visit_progress_refl\<close>)
next
  case (4 n deps d ds s)
  from 4(3) obtain u where u: "visitActionDependencies n deps d s = Some (Inr u)"
    and t: "visitAll n deps ds u = Some (Inr t)"
    by (auto split: option.splits sum.splits)
  from 4(1) [OF u 4(4)] have first: "visit_progress s u" "visited_accessible deps u" "u d = dependencyVisited"
    by simp_all
  from 4(2) [OF u refl t first(2)] have "visit_progress u t" "visited_accessible deps t"
    "\<forall>d \<in> set ds. t d = dependencyVisited"
    by simp_all
  moreover from this(1) first(3) have "t d = dependencyVisited"
    by (simp add: visit_progress_def)
  ultimately show ?case using visit_progress_trans [OF first(1)] by simp
qed (simp_all add: visit_progress_refl)

text \<open>When the search reports a cycle there is one.\<close>

lemma visit_error_cycle:
  "visitActionDependencies n deps i s = Some (Inl e) \<Longrightarrow> visited_accessible deps s \<Longrightarrow>
     (\<forall>x. s x = dependencyVisiting \<longrightarrow> (x, i) \<in> (depends deps)\<^sup>+) \<Longrightarrow> \<not> acyclic (depends deps)"
  "visitAll n deps ds s = Some (Inl e) \<Longrightarrow> visited_accessible deps s \<Longrightarrow>
     (\<forall>x. s x = dependencyVisiting \<longrightarrow> (\<forall>d \<in> set ds. (x, d) \<in> (depends deps)\<^sup>+)) \<Longrightarrow>
     \<not> acyclic (depends deps)"
proof (induction n deps i s and n deps ds s rule: visitActionDependencies_visitAll.induct)
  case (2 n deps i s)
  show ?case
  proof (cases "s i")
    case dependencyVisiting
    with 2(4) show ?thesis by (auto simp: acyclic_def)
  next
    case dependencyUnvisited
    with 2(2) have "visitAll n deps (deps i) (s(i := dependencyVisiting)) = Some (Inl e)"
      by (auto split: option.splits sum.splits)
    moreover have "visited_accessible deps (s(i := dependencyVisiting))"
      using 2(3) by (auto simp: visited_accessible_def)
    moreover have "(x, d) \<in> (depends deps)\<^sup>+"
      if "(s(i := dependencyVisiting)) x = dependencyVisiting" "d \<in> set (deps i)" for x d
    proof -
      have "(i, d) \<in> depends deps" using that by (simp add: depends_def)
      with that 2(4) show ?thesis by (cases "x = i") (auto intro: trancl_into_trancl)
    qed
    ultimately show ?thesis using 2(1) [OF dependencyUnvisited] by blast
  qed (use 2(2) in simp)
next
  case (4 n deps d ds s)
  show ?case
  proof (cases "visitActionDependencies n deps d s")
    case (Some r)
    show ?thesis
    proof (cases r)
      case (Inl e')
      with Some 4(1,4,5) 4(3) show ?thesis by simp
    next
      case (Inr u)
      with visit_sound(1) [of n deps d s u] Some 4(4)
      have "visit_progress s u" "visited_accessible deps u" by simp_all
      with 4(2) [OF Some Inr] 4(3,5) Some Inr show ?thesis
        by (auto simp: visit_progress_def)
    qed
  qed (use 4(3) in simp)
qed simp_all

text \<open>Fuel: more than the number of unvisited known nodes suffices.\<close>

definition unvisited :: "action_id set \<Rightarrow> visit_states \<Rightarrow> action_id set" where
  "unvisited known states = {x \<in> known. states x = dependencyUnvisited}"

lemma unvisited_progress:
  assumes "visit_progress s t" "finite known"
  shows "card (unvisited known t) \<le> card (unvisited known s)"
  using assms by (intro card_mono) (auto simp: unvisited_def visit_progress_def)

lemma unvisited_mark:
  assumes "finite known" "i \<in> known" "s i = dependencyUnvisited"
  shows "card (unvisited known (s(i := dependencyVisiting))) < card (unvisited known s)"
  using assms by (intro psubset_card_mono) (auto simp: unvisited_def)

lemma visit_progress_result:
  "visitActionDependencies n deps i s = Some (Inr t) \<Longrightarrow> visit_progress s t"
  "visitAll n deps ds s = Some (Inr t) \<Longrightarrow> visit_progress s t"
proof (induction n deps i s and n deps ds s arbitrary: t and t
    rule: visitActionDependencies_visitAll.induct)
  case (2 n deps i s)
  then show ?case
    by (auto simp: visit_progress_refl visit_progress_finish simp del: fun_upd_apply
        split: dependencyVisitState.splits option.splits sum.splits)
next
  case (4 n deps d ds s)
  then show ?case
    by (auto elim: visit_progress_trans split: option.splits sum.splits)
qed (simp_all add: visit_progress_refl)

lemma visit_enough_fuel:
  "finite known \<Longrightarrow> (\<forall>x \<in> known. set (deps x) \<subseteq> known) \<Longrightarrow> i \<in> known \<Longrightarrow>
     card (unvisited known s) < n \<Longrightarrow> visitActionDependencies n deps i s \<noteq> None"
  "finite known \<Longrightarrow> (\<forall>x \<in> known. set (deps x) \<subseteq> known) \<Longrightarrow> set ds \<subseteq> known \<Longrightarrow>
     card (unvisited known s) < n \<Longrightarrow> visitAll n deps ds s \<noteq> None"
proof (induction n deps i s and n deps ds s rule: visitActionDependencies_visitAll.induct)
  case (2 n deps i s)
  show ?case
  proof (cases "s i")
    case dependencyUnvisited
    have "card (unvisited known (s(i := dependencyVisiting))) < n"
      using unvisited_mark [of known i s] 2(2,4,5) dependencyUnvisited by simp
    with 2(1) [OF dependencyUnvisited] 2(2-4) dependencyUnvisited show ?thesis
      by (auto simp del: fun_upd_apply split: option.splits sum.splits)
  qed simp_all
next
  case (4 n deps d ds s)
  from 4(1,3-6) obtain r where r: "visitActionDependencies n deps d s = Some r" by auto
  show ?case
  proof (cases r)
    case (Inr u)
    have "card (unvisited known u) < n"
      using unvisited_progress [OF visit_progress_result(1)] r Inr 4(3,6) by fastforce
    with 4(2) [OF r Inr] 4(3-5) r Inr show ?thesis by simp
  qed (simp add: r)
qed simp_all

section \<open>What an accepted list of actions is\<close>

definition action_edges :: "action list \<Rightarrow> (action_id \<times> action_id) set" where
  "action_edges actions = {(a_ID a, d) | a d. a \<in> set actions \<and> d \<in> set (a_Dependencies a)}"

definition actions_ok :: "action list \<Rightarrow> bool" where
  "actions_ok actions \<longleftrightarrow> (\<forall>a \<in> set actions. action_validate a = None) \<and> distinct (map a_ID actions) \<and>
     (\<forall>a \<in> set actions. set (a_Dependencies a) \<subseteq> set (map a_ID actions)) \<and> acyclic (action_edges actions)"

lemma fold_lookup_absent:
  "i \<notin> set (map a_ID as) \<Longrightarrow> fold (\<lambda>a m. m(a_ID a := a_Dependencies a)) as m i = m i"
  by (induction as arbitrary: m) auto

lemma fold_lookup_present:
  "distinct (map a_ID as) \<Longrightarrow> a \<in> set as \<Longrightarrow>
     fold (\<lambda>a m. m(a_ID a := a_Dependencies a)) as m (a_ID a) = a_Dependencies a"
proof (induction as arbitrary: m)
  case (Cons b as)
  then show ?case
    by (cases "a = b") (auto simp: fold_lookup_absent fun_upd_same simp del: fun_upd_apply)
qed simp

lemma depends_dependency_map:
  assumes "distinct (map a_ID actions)"
  shows "depends (dependency_map actions) = action_edges actions"
proof -
  have "d \<in> set (dependency_map actions i) \<longleftrightarrow> (\<exists>a \<in> set actions. a_ID a = i \<and> d \<in> set (a_Dependencies a))" for i d
  proof (cases "i \<in> set (map a_ID actions)")
    case True
    then obtain a where a: "a \<in> set actions" "i = a_ID a" by auto
    then have "b = a" if "b \<in> set actions" "a_ID b = i" for b
      using that assms by (auto simp: distinct_map inj_on_def)
    with a show ?thesis
      using fold_lookup_present [OF assms a(1)] by (auto simp: dependency_map_def)
  next
    case False
    then show ?thesis by (auto simp: dependency_map_def fold_lookup_absent)
  qed
  then show ?thesis by (auto simp: depends_def action_edges_def)
qed

lemma known_actions_check_None:
  "known_actions_check known as = None \<longleftrightarrow>
     (\<forall>a \<in> set as. action_validate a = None) \<and> distinct (map a_ID as) \<and>
     set known \<inter> a_ID ` set as = {}"
proof (induction as arbitrary: known)
  case (Cons a as)
  define head where
    "head = checks [wrap ''action'' (action_validate a), check (a_ID a \<notin> set known) ''duplicate action ID'']"
  have "head = None \<longleftrightarrow> action_validate a = None \<and> a_ID a \<notin> set known"
    unfolding head_def checks_Cons wrap_None check_None by simp
  moreover have "known_actions_check known (a # as) = None \<longleftrightarrow>
      head = None \<and> known_actions_check (a_ID a # known) as = None"
    by (cases head) (simp_all add: head_def [symmetric])
  moreover have "set (a_ID a # known) \<inter> a_ID ` set as = {} \<longleftrightarrow>
      a_ID a \<notin> a_ID ` set as \<and> set known \<inter> a_ID ` set as = {}"
    by auto
  moreover have "set known \<inter> a_ID ` set (a # as) = {} \<longleftrightarrow>
      a_ID a \<notin> set known \<and> set known \<inter> a_ID ` set as = {}"
    by auto
  ultimately show ?case
    unfolding Cons.IH list.map distinct.simps list.set(2) ball_simps set_map by argo
qed simp

lemma plan_dependencies_check_None:
  "plan_dependencies_check known self seen ds = None \<longleftrightarrow>
     (\<forall>d \<in> set ds. stable_id d \<and> d \<noteq> self \<and> d \<notin> set seen \<and> d \<in> set known) \<and> distinct ds"
proof (induction ds arbitrary: seen)
  case (Cons d ds)
  let ?head = "checks [wrap ''action dependency'' (action_id_validate d),
      check (d \<noteq> self) ''action depends on itself'',
      check (d \<notin> set seen) ''action lists duplicate dependency'',
      check (d \<in> set known) ''action depends on unknown action'']"
  have "?head = None \<longleftrightarrow> stable_id d \<and> d \<noteq> self \<and> d \<notin> set seen \<and> d \<in> set known"
    by (simp add: checks_Cons id_validate_None)
  moreover have "plan_dependencies_check known self seen (d # ds) = None \<longleftrightarrow>
      ?head = None \<and> plan_dependencies_check known self (d # seen) ds = None"
    by (cases ?head) simp_all
  ultimately show ?case using Cons.IH [of "d # seen"] by auto
qed simp

lemma dependency_search_returns:
  assumes "\<forall>x \<in> set ids. set (deps x) \<subseteq> set ids"
  shows "visitAll (length ids + 1) deps ids (\<lambda>_. dependencyUnvisited) \<noteq> None"
proof (rule visit_enough_fuel(2) [OF _ assms])
  have "unvisited (set ids) (\<lambda>_. dependencyUnvisited) = set ids"
    by (auto simp: unvisited_def)
  then show "card (unvisited (set ids) (\<lambda>_. dependencyUnvisited)) < length ids + 1"
    using card_length [of ids] by simp
qed simp_all

lemma dependency_map_closed:
  assumes "distinct (map a_ID actions)"
    and "\<forall>a \<in> set actions. set (a_Dependencies a) \<subseteq> set (map a_ID actions)"
  shows "\<forall>x \<in> set (map a_ID actions). set (dependency_map actions x) \<subseteq> set (map a_ID actions)"
  using assms fold_lookup_present [OF assms(1)] by (auto simp: dependency_map_def)

lemma dependency_cycle_check_None:
  assumes distinct: "distinct (map a_ID actions)"
    and known: "\<forall>a \<in> set actions. set (a_Dependencies a) \<subseteq> set (map a_ID actions)"
  shows "dependency_cycle_check actions = None \<longleftrightarrow> acyclic (action_edges actions)"
proof -
  let ?deps = "dependency_map actions" and ?ids = "map a_ID actions"
  let ?start = "\<lambda>_ :: action_id. dependencyUnvisited"
  have start: "visited_accessible ?deps ?start" by (simp add: visited_accessible_def)
  have "visitAll (visit_fuel actions) ?deps ?ids ?start \<noteq> None"
    using dependency_search_returns [OF dependency_map_closed [OF distinct known]] by (simp add: visit_fuel_def)
  then obtain r where r: "visitAll (visit_fuel actions) ?deps ?ids ?start = Some r" by blast
  show ?thesis
  proof (cases r)
    case (Inl e)
    then have "\<not> acyclic (action_edges actions)"
      using visit_error_cycle(2) [of "visit_fuel actions" ?deps ?ids ?start e] r start
      by (simp add: depends_dependency_map [OF distinct])
    with r Inl show ?thesis by (simp add: dependency_cycle_check_def)
  next
    case (Inr t)
    then have visited: "visited_accessible ?deps t" "\<forall>d \<in> set ?ids. t d = dependencyVisited"
      using visit_sound(2) [of "visit_fuel actions" ?deps ?ids ?start t] r start by simp_all
    have "Wellfounded.accp (\<lambda>d a. (a, d) \<in> depends ?deps) x" for x
    proof (cases "x \<in> set ?ids")
      case True
      with visited show ?thesis by (auto simp: visited_accessible_def)
    next
      case False
      then have "?deps x = []" by (simp add: dependency_map_def fold_lookup_absent)
      then show ?thesis by (intro accp.accI [of _ x]) (simp add: depends_def)
    qed
    then have "wfp (\<lambda>d a. (a, d) \<in> depends ?deps)" by (intro accp_wfpI) simp
    then have "wf ((depends ?deps)\<inverse>)" by (simp add: wfp_def converse_unfold)
    then have "acyclic (action_edges actions)"
      using wf_acyclic [of "(action_edges actions)\<inverse>"] by (simp add: depends_dependency_map [OF distinct])
    with r Inr show ?thesis by (simp add: dependency_cycle_check_def)
  qed
qed

lemma validatePlanActions_None: "validatePlanActions actions = None \<longleftrightarrow> actions_ok actions"
proof (cases "known_actions_check [] actions = None")
  case False
  then show ?thesis
    unfolding validatePlanActions_def checks_Cons actions_ok_def known_actions_check_None by auto
next
  case True
  then have distinct: "distinct (map a_ID actions)" and valid: "\<forall>a \<in> set actions. action_validate a = None"
    by (simp_all add: known_actions_check_None)
  have own: "\<forall>d \<in> set (a_Dependencies a). stable_id d \<and> d \<noteq> a_ID a" "distinct (a_Dependencies a)"
    if "a \<in> set actions" for a
    using action_validate_parts(7) [of a] valid that by (simp_all add: action_dependencies_check_None)
  have deps: "each (\<lambda>a. plan_dependencies_check (map a_ID actions) (a_ID a) [] (a_Dependencies a)) actions = None \<longleftrightarrow>
      (\<forall>a \<in> set actions. set (a_Dependencies a) \<subseteq> set (map a_ID actions))"
    using own by (auto simp: plan_dependencies_check_None)
  show ?thesis
    unfolding validatePlanActions_def checks_Cons checks_Nil deps
    using True valid distinct dependency_cycle_check_None [OF distinct] by (auto simp: actions_ok_def)
qed

section \<open>The canonical plan body\<close>

definition canonical_body :: "plan_body \<Rightarrow> plan_body" where
  "canonical_body b = b
     \<lparr> pb_Caller := pb_Caller b \<lparr> ce_SelectedCandidateIDs := sort (ce_SelectedCandidateIDs (pb_Caller b)) \<rparr>,
       pb_Capabilities := \<lparr> cs_facts = sort_key cf_id (cs_facts (pb_Capabilities b)) \<rparr>,
       pb_Creation := pb_Creation b \<lparr> cc_CreatedAt := time_UTC (cc_CreatedAt (pb_Creation b)) \<rparr> \<rparr>"

definition creation_ok :: "creation_context \<Rightarrow> bool" where
  "creation_ok c \<longleftrightarrow> \<not> time_IsZero (cc_CreatedAt c) \<and>
     minimumUnixNanosecondTime \<le> time_instant (cc_CreatedAt c) \<and>
     time_instant (cc_CreatedAt c) \<le> maximumUnixNanosecondTime \<and>
     validateStableVersion ''tool version'' (cc_ToolVersion c) = None \<and> stable_id (cc_HostProfile c)"

text \<open>The order-free meaning of a plan body.\<close>

definition body_ok :: "plan_body \<Rightarrow> bool" where
  "body_ok b \<longleftrightarrow> pb_SchemaVersion b = SchemaVersionV1 \<and> pb_Command b \<in> set commands \<and>
     stable_id (ce_RunID (pb_Caller b)) \<and>
     (\<forall>c \<in> set (ce_SelectedCandidateIDs (pb_Caller b)). stable_id c) \<and>
     distinct (ce_SelectedCandidateIDs (pb_Caller b)) \<and>
     (\<forall>f \<in> set (cs_facts (pb_Capabilities b)). capability_fact_validate f = None) \<and>
     distinct (map cf_id (cs_facts (pb_Capabilities b))) \<and>
     pb_ConfigDigest b \<noteq> zero_digest \<and> size_facts_validate (pb_Totals b) = None \<and>
     creation_ok (pb_Creation b) \<and> actions_ok (pb_Actions b)"

definition body_sorted :: "plan_body \<Rightarrow> bool" where
  "body_sorted b \<longleftrightarrow> sorted (ce_SelectedCandidateIDs (pb_Caller b)) \<and>
     sorted (map cf_id (cs_facts (pb_Capabilities b))) \<and> time_utc (cc_CreatedAt (pb_Creation b))"

lemma caller_echo_validate_None:
  "caller_echo_validate c = None \<longleftrightarrow> stable_id (ce_RunID c) \<and>
     (\<forall>i \<in> set (ce_SelectedCandidateIDs c). stable_id i) \<and> sorted_wrt (<) (ce_SelectedCandidateIDs c)"
proof -
  have "each_prev (\<lambda>prev i. checks [wrap w (candidate_id_validate i), check_prev (<) prev i m])
      is = None \<longleftrightarrow> (\<forall>i \<in> set is. stable_id i) \<and> sorted_wrt (<) is" for w m "is"
    using successively_less_key [of "\<lambda>i. i" "is"]
    by (subst each_prev_None [where g = stable_id and good = "(<)"]) (auto simp: checks_Cons id_validate_None)
  then show ?thesis
    unfolding caller_echo_validate_def checks_Cons checks_Nil id_validate_None by simp
qed

lemma creation_context_validate_None:
  "creation_context_validate c = None \<longleftrightarrow> creation_ok c \<and> time_utc (cc_CreatedAt c)"
  unfolding creation_context_validate_def checks_Cons checks_Nil check_None validateStableID_None creation_ok_def
  by (auto simp: validateUnixNanosecondTime_def)

lemma plan_body_validate_None: "plan_body_validate b = None \<longleftrightarrow> body_ok b \<and> body_sorted b"
  unfolding plan_body_validate_def checks_Cons checks_Nil wrap_None check_None command_validate_def
    caller_echo_validate_None capability_snapshot_validate_None digest_validate_None
    creation_context_validate_None validatePlanActions_None body_ok_def body_sorted_def sorted_wrt_less_distinct
  by blast

lemma actions_clone:
  "actions_ok (map action_clone as) \<longleftrightarrow> actions_ok as"
  "actions_ok as \<Longrightarrow> map action_clone as = as"
proof -
  have same: "map action_clone as = as" if "\<forall>a \<in> set as. action_validate a = None"
    using that by (induction as) (simp_all add: action_copy.clone_valid)
  then show ok: "actions_ok as \<Longrightarrow> map action_clone as = as" by (simp add: actions_ok_def)
  have "\<forall>a \<in> set as. action_validate a = None" if "actions_ok (map action_clone as)"
    using that action_copy.validate_clone by (auto simp: actions_ok_def)
  with same ok show "actions_ok (map action_clone as) \<longleftrightarrow> actions_ok as" by auto
qed

lemma creation_context_clone_simps:
  "creation_ok (creation_context_clone c) \<longleftrightarrow> creation_ok c"
  "creation_ok c \<Longrightarrow> creation_context_clone c = c \<lparr> cc_CreatedAt := time_UTC (cc_CreatedAt c) \<rparr>"
  "creation_context_clone (creation_context_clone c) = creation_context_clone c"
  by (simp_all add: creation_context_clone_def creation_ok_def time_UTC_def time_IsZero_def)

lemma creation_clone_utc: "creation_ok c \<Longrightarrow> time_utc (cc_CreatedAt (creation_context_clone c))"
  by (simp add: creation_context_clone_simps time_UTC_def)

definition normalized_body :: "plan_body \<Rightarrow> plan_body" where
  "normalized_body b = b
     \<lparr> pb_Actions := map action_clone (pb_Actions b),
       pb_Caller := pb_Caller b \<lparr> ce_SelectedCandidateIDs := sort (ce_SelectedCandidateIDs (pb_Caller b)) \<rparr>,
       pb_Capabilities := \<lparr> cs_facts = sort_key cf_id (cs_facts (pb_Capabilities b)) \<rparr>,
       pb_Creation := creation_context_clone (pb_Creation b) \<rparr>"

lemma normalized_body_ok: "body_ok (normalized_body b) \<longleftrightarrow> body_ok b"
  by (simp add: normalized_body_def body_ok_def actions_clone(1) creation_context_clone_simps distinct_map)

lemma normalized_body_canonical: "body_ok b \<Longrightarrow> normalized_body b = canonical_body b"
  by (simp add: normalized_body_def canonical_body_def body_ok_def actions_clone(2) creation_context_clone_simps)

lemma normalized_body_sorted: "body_ok b \<Longrightarrow> body_sorted (normalized_body b)"
  by (simp add: normalized_body_def body_ok_def body_sorted_def creation_clone_utc)

lemma canonicalPlanBody_Inr: "canonicalPlanBody b = Inr c \<longleftrightarrow> body_ok b \<and> c = canonical_body b"
proof (cases "NewCapabilitySnapshot (cs_facts (pb_Capabilities b))")
  case (Inl e)
  then have "\<not> body_ok b"
    using NewCapabilitySnapshot_Inr [of "cs_facts (pb_Capabilities b)" "\<lparr> cs_facts = sort_key cf_id (cs_facts (pb_Capabilities b)) \<rparr>"]
    by (auto simp: body_ok_def)
  with Inl show ?thesis
    by (simp add: canonicalPlanBody_def Let_def plan_body_clone_def caller_echo_clone_def)
next
  case (Inr s)
  then have "s = \<lparr> cs_facts = sort_key cf_id (cs_facts (pb_Capabilities b)) \<rparr>"
    by (cases s) (simp add: NewCapabilitySnapshot_Inr)
  with Inr have "canonicalPlanBody b =
      (case plan_body_validate (normalized_body b) of Some e \<Rightarrow> Inl e | None \<Rightarrow> Inr (normalized_body b))"
    by (simp add: canonicalPlanBody_def Let_def plan_body_clone_def caller_echo_clone_def normalized_body_def
        creation_context_clone_simps(3) cong del: option.case_cong_weak)
  moreover have "plan_body_validate (normalized_body b) = None \<longleftrightarrow> body_ok b"
    using normalized_body_sorted by (auto simp: plan_body_validate_None normalized_body_ok)
  ultimately show ?thesis
    using normalized_body_canonical by (cases "plan_body_validate (normalized_body b)") auto
qed

lemma NewPlan_Inr:
  "NewPlan b d = Inr p \<longleftrightarrow> body_ok b \<and> d \<noteq> zero_digest \<and> p = \<lparr> pl_body = canonical_body b, pl_digest = d \<rparr>"
proof (cases "body_ok b")
  case True
  then have "canonicalPlanBody b = Inr (canonical_body b)" by (simp add: canonicalPlanBody_Inr)
  moreover have "wrap w (plan_digest_validate d) = None \<longleftrightarrow> d \<noteq> zero_digest" for w
    by (simp add: digest_validate_None)
  ultimately show ?thesis
    using True by (cases "wrap ''plan digest'' (plan_digest_validate d)") (auto simp: NewPlan_def)
next
  case False
  then show ?thesis
    using canonicalPlanBody_Inr [of b] by (cases "canonicalPlanBody b") (auto simp: NewPlan_def)
qed

lemma canonical_body_ok: "body_ok b \<Longrightarrow> body_ok (canonical_body b) \<and> body_sorted (canonical_body b)"
  using normalized_body_ok normalized_body_sorted normalized_body_canonical by metis

lemma canonical_body_sorted_id: "body_sorted b \<Longrightarrow> canonical_body b = b"
  by (cases b) (simp add: canonical_body_def body_sorted_def time_UTC_def sort_key_id_if_sorted)

section \<open>Properties\<close>

text \<open>
  C35: the actions of a plan are accepted exactly when every action validates, the identifiers are
  distinct, every dependency names an action of the plan, and the dependency relation is acyclic.
  The depth-first search with its three-state map is the reference definition of acyclicity, whatever
  the order of actions and dependencies.
\<close>

theorem plan_actions_acyclic:
  "validatePlanActions actions = None \<longleftrightarrow>
     list_all (\<lambda>a. action_validate a = None) actions \<and> distinct (map a_ID actions) \<and>
     list_all (\<lambda>a. set (a_Dependencies a) \<subseteq> set (map a_ID actions)) actions \<and>
     acyclic (action_edges actions)"
  by (simp add: validatePlanActions_None actions_ok_def list_all_iff)

text \<open>
  C36: the search returns. With one more unit of fuel than there are actions, the recursion never
  runs out on actions with distinct identifiers and known dependencies.
\<close>

theorem dependency_search_terminates:
  assumes "distinct (map a_ID actions)"
    and "\<forall>a \<in> set actions. set (a_Dependencies a) \<subseteq> set (map a_ID actions)"
  shows "\<exists>r. visitAll (visit_fuel actions) (dependency_map actions) (map a_ID actions)
    (\<lambda>_. dependencyUnvisited) = Some r"
  using dependency_search_returns [OF dependency_map_closed [OF assms]] by (simp add: visit_fuel_def)

text \<open>
  C37: the plan constructor accepts exactly the well-formed bodies with a nonzero digest and stores
  the canonical body: selected candidates and capability facts sorted, the creation time in UTC,
  the actions and their dependencies in the order given. What it stores validates, is handed
  out unchanged by \<^verbatim>\<open>CanonicalBody\<close>, and is a fixed point of the construction.
\<close>

theorem plan_constructor:
  "(NewPlan b d = Inr p \<longleftrightarrow> body_ok b \<and> d \<noteq> zero_digest \<and> p = \<lparr> pl_body = canonical_body b, pl_digest = d \<rparr>) \<and>
   {p. NewPlan b d = Inr p} \<subseteq>
     {p. plan_validate p = None \<and> plan_CanonicalBody p = pl_body p \<and> NewPlan (pl_body p) (pl_digest p) = Inr p \<and>
       pb_Actions (pl_body p) = pb_Actions b}"
proof (intro conjI subsetI)
  fix p
  assume "p \<in> {p. NewPlan b d = Inr p}"
  then have p: "body_ok b" "d \<noteq> zero_digest" "p = \<lparr> pl_body = canonical_body b, pl_digest = d \<rparr>"
    by (simp_all add: NewPlan_Inr)
  let ?c = "canonical_body b"
  have c: "body_ok ?c" "body_sorted ?c" using canonical_body_ok [OF p(1)] by simp_all
  then have "creation_context_clone (pb_Creation ?c) = pb_Creation ?c"
    by (simp add: body_ok_def body_sorted_def creation_context_clone_simps time_UTC_def)
  with c have "plan_body_clone ?c = ?c"
    by (simp add: plan_body_clone_def caller_echo_clone_def actions_clone(2) body_ok_def)
  with p c show "p \<in> {p. plan_validate p = None \<and> plan_CanonicalBody p = pl_body p \<and>
      NewPlan (pl_body p) (pl_digest p) = Inr p \<and> pb_Actions (pl_body p) = pb_Actions b}"
    by (auto simp: plan_validate_def checks_Cons plan_body_validate_None digest_validate_None NewPlan_Inr
        plan_CanonicalBody_def canonical_body_sorted_id)
      (simp add: canonical_body_def)
qed (rule NewPlan_Inr)

theorem dependency_search_terminates_witness:
  "\<exists>r. visitAll (visit_fuel [sample_package_action \<lparr> a_ID := ''a2'', a_Dependencies := [''a1''] \<rparr>, sample_package_action])
     (dependency_map [sample_package_action \<lparr> a_ID := ''a2'', a_Dependencies := [''a1''] \<rparr>, sample_package_action])
     [''a2'', ''a1''] (\<lambda>_. dependencyUnvisited) = Some r"
  using dependency_search_terminates
    [of "[sample_package_action \<lparr> a_ID := ''a2'', a_Dependencies := [''a1''] \<rparr>, sample_package_action]"]
  by (simp add: sample_package_action_def)

end
