(* ===== verification/DomainResult.thy ===== *)
theory DomainResult
  imports DomainPlan
begin

text \<open>
  \<^verbatim>\<open>src/internal/domain/result.go\<close>: the terminal record of a plan run. The invariants of one
  action result (which outcomes are attempted, which require reconciliation, which may carry a
  recovery handle or claim freed space), the derived exit summary with its 32-bit counters, and
  the result constructor.
\<close>

section \<open>Vocabularies and records\<close>

type_synonym outcome = string
type_synonym reconciliation_state = string
type_synonym probe_kind = string
type_synonym recovery_handle_kind = string
type_synonym recovery_disposition = string

definition OutcomeSuccess :: outcome where "OutcomeSuccess = ''success''"
definition OutcomeSkipped :: outcome where "OutcomeSkipped = ''skipped''"
definition OutcomeDrifted :: outcome where "OutcomeDrifted = ''drifted''"
definition OutcomeDenied :: outcome where "OutcomeDenied = ''denied''"
definition OutcomeUnsupported :: outcome where "OutcomeUnsupported = ''unsupported''"
definition OutcomeFailed :: outcome where "OutcomeFailed = ''failed''"
definition OutcomeInterrupted :: outcome where "OutcomeInterrupted = ''interrupted''"
definition OutcomeIndeterminate :: outcome where "OutcomeIndeterminate = ''indeterminate''"

lemmas outcome_defs = OutcomeSuccess_def OutcomeSkipped_def OutcomeDrifted_def OutcomeDenied_def
  OutcomeUnsupported_def OutcomeFailed_def OutcomeInterrupted_def OutcomeIndeterminate_def

definition outcomes :: "outcome list" where
  "outcomes = [OutcomeSuccess, OutcomeSkipped, OutcomeDrifted, OutcomeDenied, OutcomeUnsupported,
     OutcomeFailed, OutcomeInterrupted, OutcomeIndeterminate]"

definition ReconciliationNotRequired :: reconciliation_state where
  "ReconciliationNotRequired = ''not_required''"
definition ReconciliationRequired :: reconciliation_state where
  "ReconciliationRequired = ''reconciliation_required''"

definition ProbeFilesystemTarget :: probe_kind where "ProbeFilesystemTarget = ''filesystem_target''"
definition ProbePackageTransaction :: probe_kind where "ProbePackageTransaction = ''package_transaction''"
definition ProbeManagerObject :: probe_kind where "ProbeManagerObject = ''manager_object''"
definition ProbeStateRecord :: probe_kind where "ProbeStateRecord = ''state_record''"

lemmas probe_kind_defs = ProbeFilesystemTarget_def ProbePackageTransaction_def ProbeManagerObject_def
  ProbeStateRecord_def

definition recovery_handle_kinds :: "recovery_handle_kind list" where
  "recovery_handle_kinds = [''trash'', ''quarantine'']"

definition RecoveryNotApplicable :: recovery_disposition where "RecoveryNotApplicable = ''not_applicable''"
definition RecoveryRetained :: recovery_disposition where "RecoveryRetained = ''retained''"
definition RecoveryRestored :: recovery_disposition where "RecoveryRestored = ''restored''"

lemmas recovery_defs = RecoveryNotApplicable_def RecoveryRetained_def RecoveryRestored_def
lemmas reconciliation_defs = ReconciliationNotRequired_def ReconciliationRequired_def

record state_record_probe =
  srp_RunID :: run_id
  srp_ActionID :: action_id

record reconciliation_probe =
  rp_Kind :: probe_kind
  rp_Target :: target
  rp_Graph :: transaction_graph
  rp_StateRecord :: "state_record_probe option"

record recovery_handle =
  rh_Kind :: recovery_handle_kind
  rh_Root :: trusted_root_id
  rh_Token :: string
  rh_OriginalPath :: byte_path
  rh_RecordedAt :: go_time

record action_result =
  ar_ActionID :: action_id
  ar_Kind :: action_kind
  ar_Outcome :: outcome
  ar_Attempted :: bool
  ar_Reconciliation :: reconciliation_state
  ar_ReconciliationProbe :: "reconciliation_probe option"
  ar_Recovery :: recovery_disposition
  ar_RecoveryHandle :: "recovery_handle option"
  ar_VerifiedEffect :: size_facts

record exit_summary =
  es_Total :: u32
  es_SuccessCount :: u32
  es_SkippedCount :: u32
  es_DriftedCount :: u32
  es_DeniedCount :: u32
  es_UnsupportedCount :: u32
  es_FailedCount :: u32
  es_InterruptedCount :: u32
  es_IndeterminateCount :: u32
  es_Partial :: bool
  es_ReconciliationRequired :: bool

record result =
  res_SchemaVersion :: u16
  res_PlanDigest :: plan_digest
  res_RunID :: run_id
  res_Actions :: "action_result list"
  res_Summary :: exit_summary

section \<open>Probes and handles\<close>

definition outcome_validate :: "outcome \<Rightarrow> string option" where
  "outcome_validate out = check (out \<in> set outcomes) ''unknown outcome''"

definition reconciliation_state_validate :: "reconciliation_state \<Rightarrow> string option" where
  "reconciliation_state_validate state =
     check (state \<in> {ReconciliationNotRequired, ReconciliationRequired}) ''unknown reconciliation state''"

definition recovery_handle_kind_validate :: "recovery_handle_kind \<Rightarrow> string option" where
  "recovery_handle_kind_validate kind = check (kind \<in> set recovery_handle_kinds) ''unknown recovery handle kind''"

definition recovery_disposition_validate :: "recovery_disposition \<Rightarrow> string option" where
  "recovery_disposition_validate disposition =
     check (disposition \<in> {RecoveryNotApplicable, RecoveryRetained, RecoveryRestored})
       ''unknown recovery disposition''"

definition zero_target :: target where
  "zero_target = \<lparr> tgt_Kind = [], tgt_Filesystem = None, tgt_ManagerObject = None \<rparr>"

definition isZeroTarget :: "target \<Rightarrow> bool" where
  "isZeroTarget t = (t = zero_target)"

definition isZeroTransactionGraph :: "transaction_graph \<Rightarrow> bool" where
  "isZeroTransactionGraph g = (tg_Provider g = [] \<and> length (tg_Nodes g) = 0 \<and> length (tg_Edges g) = 0 \<and>
     tg_ProviderEvidenceDigest g = zero_digest \<and> pg_Kind (tg_Guarantee g) = [] \<and>
     length (pg_CoveredObjects (tg_Guarantee g)) = 0)"

definition isZeroSizeFacts :: "size_facts \<Rightarrow> bool" where
  "isZeroSizeFacts f = (f = no_size_facts)"

definition state_record_probe_validate :: "state_record_probe \<Rightarrow> string option" where
  "state_record_probe_validate p = checks
     [wrap ''state record run ID'' (run_id_validate (srp_RunID p)),
      wrap ''state record action ID'' (action_id_validate (srp_ActionID p))]"

definition reconciliation_probe_validate :: "reconciliation_probe \<Rightarrow> string option" where
  "reconciliation_probe_validate p =
     (if rp_Kind p = ProbeFilesystemTarget then checks
        [wrap ''filesystem reconciliation target'' (target_validate (rp_Target p)),
         check (tgt_Kind (rp_Target p) = TargetFilesystem)
           ''filesystem reconciliation probe requires a filesystem target'',
         check (isZeroTransactionGraph (rp_Graph p) \<and> rp_StateRecord p = None)
           ''filesystem reconciliation probe contains another variant'']
      else if rp_Kind p = ProbePackageTransaction then checks
        [check (isZeroTarget (rp_Target p) \<and> rp_StateRecord p = None)
           ''package transaction reconciliation probe contains another variant'',
         wrap ''package transaction reconciliation graph'' (transaction_graph_validate (rp_Graph p))]
      else if rp_Kind p = ProbeManagerObject then checks
        [wrap ''manager-object reconciliation target'' (target_validate (rp_Target p)),
         check (tgt_Kind (rp_Target p) = TargetManagerObject)
           ''manager-object reconciliation probe requires a manager-object target'',
         check (isZeroTransactionGraph (rp_Graph p) \<and> rp_StateRecord p = None)
           ''manager-object reconciliation probe contains another variant'']
      else if rp_Kind p = ProbeStateRecord then
        (if \<not> isZeroTarget (rp_Target p) \<or> \<not> isZeroTransactionGraph (rp_Graph p)
         then Some ''state-record reconciliation probe contains another variant''
         else case rp_StateRecord p of
             None \<Rightarrow> Some ''state-record reconciliation probe requires a record reference''
           | Some r \<Rightarrow> state_record_probe_validate r)
      else Some ''unknown reconciliation probe kind'')"

definition recovery_handle_validate :: "recovery_handle \<Rightarrow> string option" where
  "recovery_handle_validate h = checks
     [recovery_handle_kind_validate (rh_Kind h),
      wrap ''recovery root'' (trusted_root_id_validate (rh_Root h)),
      validateStableID ''recovery token'' (rh_Token h),
      path_check ''recovery original path'' (rh_OriginalPath h),
      check (\<not> time_IsZero (rh_RecordedAt h)) ''recovery handle requires a recorded time'',
      check (time_utc (rh_RecordedAt h)) ''recovery handle recorded time must be UTC'',
      validateUnixNanosecondTime ''recovery handle recorded time'' (rh_RecordedAt h)]"

section \<open>One action result\<close>

definition reconciliationState :: "action_result \<Rightarrow> reconciliation_state" where
  "reconciliationState r =
     (if ar_Reconciliation r = [] then ReconciliationNotRequired else ar_Reconciliation r)"

definition recoveryDisposition :: "action_result \<Rightarrow> recovery_disposition" where
  "recoveryDisposition r = (if ar_Recovery r = [] then RecoveryNotApplicable else ar_Recovery r)"

definition requireNoReconciliation :: "action_result \<Rightarrow> string option" where
  "requireNoReconciliation r = checks
     [check (reconciliationState r = ReconciliationNotRequired) ''action result must not require reconciliation'',
      check (ar_ReconciliationProbe r = None) ''action result must not carry a reconciliation probe'']"

definition isKnownRecoveryOutcome :: "action_result \<Rightarrow> bool" where
  "isKnownRecoveryOutcome r = (ar_Outcome r = OutcomeSuccess \<or> ar_Outcome r = OutcomeDrifted \<and> ar_Attempted r)"

definition validateRecoveryDisposition :: "action_result \<Rightarrow> string option" where
  "validateRecoveryDisposition r =
     (if recoveryDisposition r = RecoveryNotApplicable then
        check (ar_RecoveryHandle r = None) ''non-recovery action result must not carry a recovery handle''
      else if recoveryDisposition r = RecoveryRetained then checks
        [check (isKnownRecoveryOutcome r \<and> ar_RecoveryHandle r \<noteq> None)
           ''retained recovery result requires a known success or attempted drift and a recovery handle'',
         check (isZeroSizeFacts (ar_VerifiedEffect r)) ''retained recovery result must not claim freed space'']
      else if recoveryDisposition r = RecoveryRestored then checks
        [check (isKnownRecoveryOutcome r) ''restored recovery result requires a known success or attempted drift'',
         check (ar_RecoveryHandle r = None) ''restored recovery result must not retain a recovery handle'',
         check (isZeroSizeFacts (ar_VerifiedEffect r)) ''restored recovery result must not claim freed space'']
      else None)"

text \<open>The two switches of \<^verbatim>\<open>ActionResult.Validate\<close>: by outcome, and for all but success.\<close>

definition action_result_outcome_check :: "action_result \<Rightarrow> string option" where
  "action_result_outcome_check r =
     (if ar_Outcome r = OutcomeSuccess then checks
        [check (ar_Attempted r) ''successful action result must be attempted'', requireNoReconciliation r]
      else if ar_Outcome r = OutcomeFailed then checks
        [check (ar_Attempted r) ''failed action result must be attempted'', requireNoReconciliation r]
      else if ar_Outcome r = OutcomeIndeterminate then checks
        [check (ar_Attempted r) ''indeterminate action result must record attempted dispatch'',
         check (reconciliationState r = ReconciliationRequired \<and> ar_ReconciliationProbe r \<noteq> None)
           ''indeterminate action result requires reconciliation_required and a typed probe'']
      else if ar_Outcome r = OutcomeDrifted then checks
        [(if ar_Attempted r then check (recoveryDisposition r \<in> {RecoveryRetained, RecoveryRestored})
            ''attempted drifted action result requires retained or restored recovery'' else None),
         requireNoReconciliation r]
      else if ar_Outcome r \<in> {OutcomeSkipped, OutcomeDenied, OutcomeUnsupported, OutcomeInterrupted} then checks
        [check (\<not> ar_Attempted r) ''action result must become indeterminate after dispatch'',
         requireNoReconciliation r]
      else None)"

definition action_result_effect_check :: "action_result \<Rightarrow> string option" where
  "action_result_effect_check r =
     (if ar_Outcome r \<noteq> OutcomeSuccess then
        (let recoveryHandleAllowed = (ar_Outcome r = OutcomeDrifted \<and> ar_Attempted r \<and>
              recoveryDisposition r = RecoveryRetained)
         in checks
          [check (\<not> (ar_RecoveryHandle r \<noteq> None \<and> \<not> recoveryHandleAllowed))
             ''only successful actions or retained post-stage drift may carry recovery handles'',
           check (isZeroSizeFacts (ar_VerifiedEffect r))
             ''only successful action results may claim verified effects''])
      else None)"

definition action_result_validate :: "action_result \<Rightarrow> string option" where
  "action_result_validate r = checks
     [wrap ''result action ID'' (action_id_validate (ar_ActionID r)),
      wrap ''result action kind'' (action_kind_validate (ar_Kind r)),
      outcome_validate (ar_Outcome r),
      reconciliation_state_validate (reconciliationState r),
      recovery_disposition_validate (recoveryDisposition r),
      (case ar_ReconciliationProbe r of None \<Rightarrow> None
        | Some p \<Rightarrow> wrap ''reconciliation probe'' (reconciliation_probe_validate p)),
      (case ar_RecoveryHandle r of None \<Rightarrow> None
        | Some h \<Rightarrow> wrap ''recovery handle'' (recovery_handle_validate h)),
      wrap ''verified effect'' (size_facts_validate (ar_VerifiedEffect r)),
      action_result_outcome_check r,
      action_result_effect_check r,
      validateRecoveryDisposition r]"

section \<open>The summary and the result\<close>

definition zero_summary :: exit_summary where
  "zero_summary = \<lparr> es_Total = 0, es_SuccessCount = 0, es_SkippedCount = 0, es_DriftedCount = 0,
     es_DeniedCount = 0, es_UnsupportedCount = 0, es_FailedCount = 0, es_InterruptedCount = 0,
     es_IndeterminateCount = 0, es_Partial = False, es_ReconciliationRequired = False \<rparr>"

text \<open>One iteration: the summary with the two local flags \<^verbatim>\<open>anySuccess\<close> and \<^verbatim>\<open>anyNonSuccess\<close>.\<close>

definition summarize_action ::
    "action_result \<Rightarrow> exit_summary \<times> bool \<times> bool \<Rightarrow> exit_summary \<times> bool \<times> bool" where
  "summarize_action r acc =
     (let (s, anySuccess, anyNonSuccess) = acc;
          (s, anySuccess, anyNonSuccess) =
            (if ar_Outcome r = OutcomeSuccess then (s \<lparr> es_SuccessCount := es_SuccessCount s + 1 \<rparr>, True, anyNonSuccess)
             else if ar_Outcome r = OutcomeSkipped then
               (s \<lparr> es_SkippedCount := es_SkippedCount s + 1 \<rparr>, anySuccess, anyNonSuccess)
             else if ar_Outcome r = OutcomeDrifted then
               (s \<lparr> es_DriftedCount := es_DriftedCount s + 1 \<rparr>, anySuccess, True)
             else if ar_Outcome r = OutcomeDenied then
               (s \<lparr> es_DeniedCount := es_DeniedCount s + 1 \<rparr>, anySuccess, True)
             else if ar_Outcome r = OutcomeUnsupported then
               (s \<lparr> es_UnsupportedCount := es_UnsupportedCount s + 1 \<rparr>, anySuccess, True)
             else if ar_Outcome r = OutcomeFailed then
               (s \<lparr> es_FailedCount := es_FailedCount s + 1 \<rparr>, anySuccess, True)
             else if ar_Outcome r = OutcomeInterrupted then
               (s \<lparr> es_InterruptedCount := es_InterruptedCount s + 1 \<rparr>, anySuccess, True)
             else if ar_Outcome r = OutcomeIndeterminate then
               (s \<lparr> es_IndeterminateCount := es_IndeterminateCount s + 1, es_Partial := True \<rparr>, anySuccess, True)
             else (s, anySuccess, anyNonSuccess))
      in (if reconciliationState r = ReconciliationRequired then s \<lparr> es_ReconciliationRequired := True \<rparr> else s,
          anySuccess, anyNonSuccess))"

definition deriveExitSummary :: "action_result list \<Rightarrow> exit_summary" where
  "deriveExitSummary actions =
     (let (s, anySuccess, anyNonSuccess) =
        fold summarize_action actions (zero_summary \<lparr> es_Total := word_of_nat (length actions) \<rparr>, False, False)
      in if anySuccess \<and> anyNonSuccess then s \<lparr> es_Partial := True \<rparr> else s)"

definition validateStateRecordProbeBinding :: "run_id \<Rightarrow> action_result \<Rightarrow> string option" where
  "validateStateRecordProbeBinding runID r =
     (case ar_ReconciliationProbe r of None \<Rightarrow> None
      | Some p \<Rightarrow>
          if rp_Kind p \<noteq> ProbeStateRecord then None
          else (case rp_StateRecord p of None \<Rightarrow> None
            | Some s \<Rightarrow> checks
                [check (srp_RunID s = runID) ''state-record reconciliation probe run ID does not bind the result'',
                 check (srp_ActionID s = ar_ActionID r)
                   ''state-record reconciliation probe action ID does not bind the result action'']))"

fun result_actions_check :: "run_id \<Rightarrow> action_id list \<Rightarrow> action_result list \<Rightarrow> string option" where
  "result_actions_check runID seen [] = None"
| "result_actions_check runID seen (r # rs) =
     (case checks
        [wrap ''result action'' (action_result_validate r),
         wrap ''result action'' (validateStateRecordProbeBinding runID r),
         check (ar_ActionID r \<notin> set seen) ''result contains duplicate action ID''] of
        Some e \<Rightarrow> Some e
      | None \<Rightarrow> result_actions_check runID (ar_ActionID r # seen) rs)"

definition result_validate :: "result \<Rightarrow> string option" where
  "result_validate r = checks
     [check (res_SchemaVersion r = SchemaVersionV1) ''unsupported result schema version'',
      wrap ''result plan digest'' (plan_digest_validate (res_PlanDigest r)),
      wrap ''result run ID'' (run_id_validate (res_RunID r)),
      result_actions_check (res_RunID r) [] (res_Actions r),
      check (res_Summary r = deriveExitSummary (res_Actions r)) ''result summary does not match action outcomes'']"

definition reconciliation_probe_clone :: "reconciliation_probe \<Rightarrow> reconciliation_probe" where
  "reconciliation_probe_clone p = p
     \<lparr> rp_Target := target_clone (rp_Target p), rp_Graph := transaction_graph_clone (rp_Graph p) \<rparr>"

definition recovery_handle_clone :: "recovery_handle \<Rightarrow> recovery_handle" where
  "recovery_handle_clone h = h \<lparr> rh_OriginalPath := cloneBytePath (rh_OriginalPath h) \<rparr>"

definition action_result_clone :: "action_result \<Rightarrow> action_result" where
  "action_result_clone r = r
     \<lparr> ar_ReconciliationProbe := map_option reconciliation_probe_clone (ar_ReconciliationProbe r),
       ar_RecoveryHandle := map_option recovery_handle_clone (ar_RecoveryHandle r) \<rparr>"

definition result_clone :: "result \<Rightarrow> result" where
  "result_clone r = r \<lparr> res_Actions := map action_result_clone (res_Actions r) \<rparr>"

definition normalize_action_result :: "action_result \<Rightarrow> action_result" where
  "normalize_action_result r =
     (let r = (if ar_Reconciliation r = [] then r \<lparr> ar_Reconciliation := ReconciliationNotRequired \<rparr> else r)
      in if ar_Recovery r = [] then r \<lparr> ar_Recovery := RecoveryNotApplicable \<rparr> else r)"

definition NewResult :: "result \<Rightarrow> string + result" where
  "NewResult r =
     (let cloned = result_clone r;
          normalized = cloned \<lparr> res_Actions := map normalize_action_result (res_Actions cloned) \<rparr>;
          summarized = normalized \<lparr> res_Summary := deriveExitSummary (res_Actions normalized) \<rparr>
      in case result_validate summarized of Some e \<Rightarrow> Inl e | None \<Rightarrow> Inr summarized)"

section \<open>The invariants of an action result\<close>

lemma outcomes_distinct:
  "distinct [OutcomeSuccess, OutcomeSkipped, OutcomeDrifted, OutcomeDenied, OutcomeUnsupported,
     OutcomeFailed, OutcomeInterrupted, OutcomeIndeterminate]"
  by (simp add: outcome_defs)

lemma outcomes_distinct_rev:
  "distinct [OutcomeIndeterminate, OutcomeInterrupted, OutcomeFailed, OutcomeUnsupported, OutcomeDenied,
     OutcomeDrifted, OutcomeSkipped, OutcomeSuccess]"
  by (simp add: outcome_defs)

lemma recovery_values_distinct:
  "distinct [[], RecoveryNotApplicable, RecoveryRetained, RecoveryRestored]"
  "distinct [RecoveryRestored, RecoveryRetained, RecoveryNotApplicable, []]"
  "distinct [[], ReconciliationNotRequired, ReconciliationRequired]"
  "distinct [ReconciliationRequired, ReconciliationNotRequired, []]"
  by (simp_all add: recovery_defs reconciliation_defs)

text \<open>The inequalities of the vocabularies, in both orientations.\<close>

lemmas vocabulary_neq = outcomes_distinct [simplified] outcomes_distinct_rev [simplified]
  recovery_values_distinct [simplified]

lemma action_result_validate_parts:
  assumes "action_result_validate r = None"
  shows "stable_id (ar_ActionID r)" "ar_Outcome r \<in> set outcomes"
    "reconciliationState r \<in> {ReconciliationNotRequired, ReconciliationRequired}"
    "recoveryDisposition r \<in> {RecoveryNotApplicable, RecoveryRetained, RecoveryRestored}"
    "\<forall>p. ar_ReconciliationProbe r = Some p \<longrightarrow> reconciliation_probe_validate p = None"
    "\<forall>h. ar_RecoveryHandle r = Some h \<longrightarrow> recovery_handle_validate h = None"
    "size_facts_validate (ar_VerifiedEffect r) = None"
    "action_result_outcome_check r = None" "action_result_effect_check r = None"
    "validateRecoveryDisposition r = None"
  using assms
  unfolding action_result_validate_def checks_Cons wrap_None check_None outcome_validate_def
    reconciliation_state_validate_def recovery_disposition_validate_def id_validate_None
  by (auto split: option.splits)

text \<open>
  The state machine, read off: dispatched means attempted, unknown means reconciliation, a
  recovery handle means retained, and only plain success claims an effect.
\<close>

definition terminal_state_ok :: "action_result \<Rightarrow> bool" where
  "terminal_state_ok r \<longleftrightarrow>
     (reconciliationState r = ReconciliationRequired \<longleftrightarrow> ar_Outcome r = OutcomeIndeterminate) \<and>
     (ar_ReconciliationProbe r \<noteq> None \<longleftrightarrow> ar_Outcome r = OutcomeIndeterminate) \<and>
     (ar_Attempted r \<longleftrightarrow> ar_Outcome r \<in> {OutcomeSuccess, OutcomeFailed, OutcomeIndeterminate} \<or>
        ar_Outcome r = OutcomeDrifted \<and> recoveryDisposition r \<noteq> RecoveryNotApplicable) \<and>
     (ar_RecoveryHandle r \<noteq> None \<longleftrightarrow> recoveryDisposition r = RecoveryRetained) \<and>
     (recoveryDisposition r = RecoveryNotApplicable \<or> isKnownRecoveryOutcome r) \<and>
     (isZeroSizeFacts (ar_VerifiedEffect r) \<or>
        ar_Outcome r = OutcomeSuccess \<and> recoveryDisposition r = RecoveryNotApplicable)"

lemma terminal_checks_iff:
  assumes "ar_Outcome r \<in> set outcomes"
    and "reconciliationState r \<in> {ReconciliationNotRequired, ReconciliationRequired}"
    and "recoveryDisposition r \<in> {RecoveryNotApplicable, RecoveryRetained, RecoveryRestored}"
  shows "action_result_outcome_check r = None \<and> action_result_effect_check r = None \<and>
    validateRecoveryDisposition r = None \<longleftrightarrow> terminal_state_ok r"
proof -
  have out: "ar_Outcome r = OutcomeSuccess \<or> ar_Outcome r = OutcomeSkipped \<or> ar_Outcome r = OutcomeDrifted \<or>
      ar_Outcome r = OutcomeDenied \<or> ar_Outcome r = OutcomeUnsupported \<or> ar_Outcome r = OutcomeFailed \<or>
      ar_Outcome r = OutcomeInterrupted \<or> ar_Outcome r = OutcomeIndeterminate"
    using assms(1) by (auto simp: outcomes_def)
  have rec: "reconciliationState r = ReconciliationNotRequired \<or> reconciliationState r = ReconciliationRequired"
    and disp: "recoveryDisposition r = RecoveryNotApplicable \<or> recoveryDisposition r = RecoveryRetained \<or>
      recoveryDisposition r = RecoveryRestored"
    using assms(2,3) by auto
  note defs = action_result_outcome_check_def action_result_effect_check_def validateRecoveryDisposition_def
    terminal_state_ok_def requireNoReconciliation_def isKnownRecoveryOutcome_def checks_Cons Let_def
  from out rec disp show ?thesis
    by (elim disjE) (auto simp: defs vocabulary_neq)
qed

section \<open>The exit summary\<close>

definition outcome_count :: "outcome \<Rightarrow> action_result list \<Rightarrow> nat" where
  "outcome_count out rs = length (filter (\<lambda>r. ar_Outcome r = out) rs)"

definition non_success :: "outcome set" where
  "non_success = {OutcomeDrifted, OutcomeDenied, OutcomeUnsupported, OutcomeFailed, OutcomeInterrupted,
     OutcomeIndeterminate}"

lemma outcome_count_Cons: "outcome_count out (r # rs) = of_bool (ar_Outcome r = out) + outcome_count out rs"
  by (simp add: outcome_count_def)

lemma summarize_action_step:
  "summarize_action r (s, a, b) =
     (s \<lparr> es_SuccessCount := es_SuccessCount s + of_bool (ar_Outcome r = OutcomeSuccess),
       es_SkippedCount := es_SkippedCount s + of_bool (ar_Outcome r = OutcomeSkipped),
       es_DriftedCount := es_DriftedCount s + of_bool (ar_Outcome r = OutcomeDrifted),
       es_DeniedCount := es_DeniedCount s + of_bool (ar_Outcome r = OutcomeDenied),
       es_UnsupportedCount := es_UnsupportedCount s + of_bool (ar_Outcome r = OutcomeUnsupported),
       es_FailedCount := es_FailedCount s + of_bool (ar_Outcome r = OutcomeFailed),
       es_InterruptedCount := es_InterruptedCount s + of_bool (ar_Outcome r = OutcomeInterrupted),
       es_IndeterminateCount := es_IndeterminateCount s + of_bool (ar_Outcome r = OutcomeIndeterminate),
       es_Partial := es_Partial s \<or> ar_Outcome r = OutcomeIndeterminate,
       es_ReconciliationRequired := es_ReconciliationRequired s \<or> reconciliationState r = ReconciliationRequired \<rparr>,
      a \<or> ar_Outcome r = OutcomeSuccess, b \<or> ar_Outcome r \<in> non_success)"
proof (cases "ar_Outcome r \<in> set outcomes")
  case True
  then show ?thesis
    unfolding outcomes_def list.set insert_iff empty_iff
    by (elim disjE FalseE) (simp_all add: summarize_action_def non_success_def vocabulary_neq)
next
  case False
  then have "ar_Outcome r \<noteq> out" if "out \<in> set outcomes" for out using that by auto
  then show ?thesis
    by (simp add: summarize_action_def non_success_def outcomes_def)
qed

lemma fold_summarize:
  "fold summarize_action rs (s, a, b) =
     (s \<lparr> es_SuccessCount := es_SuccessCount s + word_of_nat (outcome_count OutcomeSuccess rs),
       es_SkippedCount := es_SkippedCount s + word_of_nat (outcome_count OutcomeSkipped rs),
       es_DriftedCount := es_DriftedCount s + word_of_nat (outcome_count OutcomeDrifted rs),
       es_DeniedCount := es_DeniedCount s + word_of_nat (outcome_count OutcomeDenied rs),
       es_UnsupportedCount := es_UnsupportedCount s + word_of_nat (outcome_count OutcomeUnsupported rs),
       es_FailedCount := es_FailedCount s + word_of_nat (outcome_count OutcomeFailed rs),
       es_InterruptedCount := es_InterruptedCount s + word_of_nat (outcome_count OutcomeInterrupted rs),
       es_IndeterminateCount := es_IndeterminateCount s + word_of_nat (outcome_count OutcomeIndeterminate rs),
       es_Partial := es_Partial s \<or> OutcomeIndeterminate \<in> ar_Outcome ` set rs,
       es_ReconciliationRequired := es_ReconciliationRequired s \<or>
         ReconciliationRequired \<in> reconciliationState ` set rs \<rparr>,
      a \<or> OutcomeSuccess \<in> ar_Outcome ` set rs, b \<or> non_success \<inter> ar_Outcome ` set rs \<noteq> {})"
proof (induction rs arbitrary: s a b)
  case Nil
  show ?case by (simp add: outcome_count_def)
next
  case (Cons r rs)
  have "(b \<or> ar_Outcome r \<in> non_success) \<or> non_success \<inter> ar_Outcome ` set rs \<noteq> {} \<longleftrightarrow>
      b \<or> non_success \<inter> ar_Outcome ` set (r # rs) \<noteq> {}"
    by auto
  then show ?case
    by (simp add: summarize_action_step Cons.IH outcome_count_Cons add_ac disj_ac eq_commute)
qed

text \<open>The summary in closed form: every counter is its count modulo \<open>2 ^ 32\<close>.\<close>

definition summary_of :: "action_result list \<Rightarrow> exit_summary" where
  "summary_of rs = \<lparr> es_Total = word_of_nat (length rs),
     es_SuccessCount = word_of_nat (outcome_count OutcomeSuccess rs),
     es_SkippedCount = word_of_nat (outcome_count OutcomeSkipped rs),
     es_DriftedCount = word_of_nat (outcome_count OutcomeDrifted rs),
     es_DeniedCount = word_of_nat (outcome_count OutcomeDenied rs),
     es_UnsupportedCount = word_of_nat (outcome_count OutcomeUnsupported rs),
     es_FailedCount = word_of_nat (outcome_count OutcomeFailed rs),
     es_InterruptedCount = word_of_nat (outcome_count OutcomeInterrupted rs),
     es_IndeterminateCount = word_of_nat (outcome_count OutcomeIndeterminate rs),
     es_Partial = (OutcomeIndeterminate \<in> ar_Outcome ` set rs \<or>
       OutcomeSuccess \<in> ar_Outcome ` set rs \<and> non_success \<inter> ar_Outcome ` set rs \<noteq> {}),
     es_ReconciliationRequired = (ReconciliationRequired \<in> reconciliationState ` set rs) \<rparr>"

lemma deriveExitSummary_eq: "deriveExitSummary rs = summary_of rs"
  by (auto simp: deriveExitSummary_def fold_summarize summary_of_def zero_summary_def)

section \<open>Copies and normalization\<close>

lemma target_clone_zero: "target_clone t = zero_target \<longleftrightarrow> t = zero_target"
  by (cases t) (auto simp: target_clone_def zero_target_def)

lemma probe_clone_cases:
  "reconciliation_probe_validate p = None \<Longrightarrow> target_validate (rp_Target p) = None \<or> rp_Target p = zero_target"
  by (auto simp: reconciliation_probe_validate_def checks_Cons isZeroTarget_def split: if_splits option.splits)

lemma probe_clone_valid:
  assumes "reconciliation_probe_validate p = None"
  shows "reconciliation_probe_clone p = p"
  using probe_clone_cases [OF assms] target_clone_zero [of zero_target] target_clone_valid [of "rp_Target p"]
  by (auto simp: reconciliation_probe_clone_def)

lemma probe_clone_rejected:
  assumes "reconciliation_probe_validate (reconciliation_probe_clone p) = None"
  shows "reconciliation_probe_clone p = p"
proof -
  have "target_clone (rp_Target p) = rp_Target p"
    using probe_clone_cases [OF assms] target_clone_rejected [of "rp_Target p"] target_clone_zero [of "rp_Target p"]
    by (auto simp: reconciliation_probe_clone_def)
  then show ?thesis by (simp add: reconciliation_probe_clone_def)
qed

lemma handle_path_valid:
  "recovery_handle_validate h = None \<Longrightarrow> byte_path_validate (rh_OriginalPath h) = None"
  by (simp add: recovery_handle_validate_def checks_Cons path_check_None)

lemma handle_clone_valid: "recovery_handle_validate h = None \<Longrightarrow> recovery_handle_clone h = h"
  using handle_path_valid [of h] by (simp add: recovery_handle_clone_def cloneBytePath_cases)

lemma handle_clone_rejected:
  "recovery_handle_validate (recovery_handle_clone h) = None \<Longrightarrow> recovery_handle_clone h = h"
  using handle_path_valid [of "recovery_handle_clone h"] marker_clone_rejected [of "rh_OriginalPath h"]
  by (simp add: recovery_handle_clone_def)

interpretation action_result_copy: defensive_copy action_result_clone action_result_validate
proof
  show "action_result_clone r = r" if "action_result_validate r = None" for r
    using action_result_validate_parts(5,6) [OF that]
    by (cases "ar_ReconciliationProbe r"; cases "ar_RecoveryHandle r")
      (auto simp: action_result_clone_def probe_clone_valid handle_clone_valid)
next
  fix r
  assume valid: "action_result_validate (action_result_clone r) = None"
  have "map_option reconciliation_probe_clone (ar_ReconciliationProbe r) = ar_ReconciliationProbe r"
    using action_result_validate_parts(5) [OF valid]
    by (cases "ar_ReconciliationProbe r") (auto simp: action_result_clone_def probe_clone_rejected)
  moreover have "map_option recovery_handle_clone (ar_RecoveryHandle r) = ar_RecoveryHandle r"
    using action_result_validate_parts(6) [OF valid]
    by (cases "ar_RecoveryHandle r") (auto simp: action_result_clone_def handle_clone_rejected)
  ultimately have "action_result_clone r = r" by (simp add: action_result_clone_def)
  with valid show "action_result_validate r = None" by simp
qed

lemma normalize_states [simp]:
  "reconciliationState (normalize_action_result r) = reconciliationState r"
  "recoveryDisposition (normalize_action_result r) = recoveryDisposition r"
  "ar_Outcome (normalize_action_result r) = ar_Outcome r"
  "ar_ActionID (normalize_action_result r) = ar_ActionID r"
  "ar_Kind (normalize_action_result r) = ar_Kind r"
  "ar_Attempted (normalize_action_result r) = ar_Attempted r"
  "ar_ReconciliationProbe (normalize_action_result r) = ar_ReconciliationProbe r"
  "ar_RecoveryHandle (normalize_action_result r) = ar_RecoveryHandle r"
  "ar_VerifiedEffect (normalize_action_result r) = ar_VerifiedEffect r"
  by (simp_all add: normalize_action_result_def reconciliationState_def recoveryDisposition_def Let_def
      vocabulary_neq)

lemma normalize_validate [simp]: "action_result_validate (normalize_action_result r) = action_result_validate r"
  unfolding action_result_validate_def action_result_outcome_check_def action_result_effect_check_def
    validateRecoveryDisposition_def requireNoReconciliation_def isKnownRecoveryOutcome_def normalize_states
  by (rule refl)

lemma normalize_binding [simp]:
  "validateStateRecordProbeBinding runID (normalize_action_result r) = validateStateRecordProbeBinding runID r"
  unfolding validateStateRecordProbeBinding_def normalize_states by (rule refl)

lemma normalize_idem [simp]: "normalize_action_result (normalize_action_result r) = normalize_action_result r"
  by (simp add: normalize_action_result_def Let_def vocabulary_neq)

lemma summary_of_normalize [simp]: "summary_of (map normalize_action_result rs) = summary_of rs"
  by (simp add: summary_of_def outcome_count_def filter_map comp_def image_image)

section \<open>Results\<close>

lemma result_actions_check_None:
  "result_actions_check runID seen rs = None \<longleftrightarrow>
     (\<forall>r \<in> set rs. action_result_validate r = None) \<and>
     (\<forall>r \<in> set rs. validateStateRecordProbeBinding runID r = None) \<and>
     distinct (map ar_ActionID rs) \<and> set seen \<inter> ar_ActionID ` set rs = {}"
proof (induction rs arbitrary: seen)
  case (Cons r rs)
  define head where
    "head = checks [wrap ''result action'' (action_result_validate r),
       wrap ''result action'' (validateStateRecordProbeBinding runID r),
       check (ar_ActionID r \<notin> set seen) ''result contains duplicate action ID'']"
  have "head = None \<longleftrightarrow> action_result_validate r = None \<and> validateStateRecordProbeBinding runID r = None \<and>
      ar_ActionID r \<notin> set seen"
    unfolding head_def checks_Cons wrap_None check_None by simp
  moreover have "result_actions_check runID seen (r # rs) = None \<longleftrightarrow>
      head = None \<and> result_actions_check runID (ar_ActionID r # seen) rs = None"
    by (cases head) (simp_all add: head_def [symmetric])
  moreover have "set (ar_ActionID r # seen) \<inter> ar_ActionID ` set rs = {} \<longleftrightarrow>
      ar_ActionID r \<notin> ar_ActionID ` set rs \<and> set seen \<inter> ar_ActionID ` set rs = {}"
    by auto
  moreover have "set seen \<inter> ar_ActionID ` set (r # rs) = {} \<longleftrightarrow>
      ar_ActionID r \<notin> set seen \<and> set seen \<inter> ar_ActionID ` set rs = {}"
    by auto
  ultimately show ?case
    unfolding Cons.IH list.map distinct.simps list.set(2) ball_simps set_map by argo
qed simp

definition result_ok :: "result \<Rightarrow> bool" where
  "result_ok r \<longleftrightarrow> res_SchemaVersion r = SchemaVersionV1 \<and> res_PlanDigest r \<noteq> zero_digest \<and>
     stable_id (res_RunID r) \<and> (\<forall>a \<in> set (res_Actions r). action_result_validate a = None) \<and>
     (\<forall>a \<in> set (res_Actions r). validateStateRecordProbeBinding (res_RunID r) a = None) \<and>
     distinct (map ar_ActionID (res_Actions r))"

lemma result_validate_None:
  "result_validate r = None \<longleftrightarrow> result_ok r \<and> res_Summary r = summary_of (res_Actions r)"
  unfolding result_validate_def checks_Cons checks_Nil check_None wrap_None result_actions_check_None
    digest_validate_None id_validate_None result_ok_def deriveExitSummary_eq
  by (simp only: list.set Int_empty_left simp_thms conj_assoc)

lemma clone_results:
  assumes "\<forall>a \<in> set as. action_result_validate (action_result_clone a) = None"
  shows "map action_result_clone as = as"
  by (rule map_idI) (use assms in \<open>blast intro: action_result_copy.clone_valid action_result_copy.validate_clone\<close>)

lemma NewResult_Inr:
  "NewResult r = Inr q \<longleftrightarrow> result_ok r \<and>
     q = r \<lparr> res_Actions := map normalize_action_result (res_Actions r), res_Summary := summary_of (res_Actions r) \<rparr>"
proof -
  define c where "c = map action_result_clone (res_Actions r)"
  define s where "s = r \<lparr> res_Actions := map normalize_action_result c, res_Summary := summary_of c \<rparr>"
  have new: "NewResult r = (case result_validate s of Some e \<Rightarrow> Inl e | None \<Rightarrow> Inr s)"
    by (simp add: NewResult_def result_clone_def s_def c_def Let_def deriveExitSummary_eq
        cong del: option.case_cong_weak)
  have "result_validate s = None \<longleftrightarrow> result_ok (r \<lparr> res_Actions := c \<rparr>)"
    by (simp add: result_validate_None result_ok_def s_def comp_def)
  moreover have "c = res_Actions r" if "result_ok (r \<lparr> res_Actions := c \<rparr>)"
    using that clone_results [of "res_Actions r"] by (simp add: result_ok_def c_def)
  moreover have same: "c = res_Actions r" if "result_ok r"
    unfolding c_def
    by (rule map_idI) (use that in \<open>auto simp: result_ok_def intro: action_result_copy.clone_valid\<close>)
  moreover have "r \<lparr> res_Actions := res_Actions r \<rparr> = r" by simp
  ultimately have "result_validate s = None \<longleftrightarrow> result_ok r" by metis
  with new same show ?thesis by (cases "result_validate s") (auto simp: s_def)
qed

section \<open>Properties\<close>

text \<open>
  C38: the terminal state machine of an action result, exactly. Once the fields validate on their
  own, a result is accepted just when: it requires reconciliation and carries a probe exactly if
  its outcome is indeterminate; it was attempted exactly if it succeeded, failed, is indeterminate
  or drifted after staging with a known recovery; it carries a recovery handle exactly if content
  was retained; only a success or an attempted drift has a recovery; and only a success that is
  no recovery may claim a verified effect.
\<close>

theorem action_result_state_machine:
  "action_result_validate r = None \<longleftrightarrow>
     stable_id (ar_ActionID r) \<and> ar_Kind r \<in> set action_kinds \<and> ar_Outcome r \<in> set outcomes \<and>
     reconciliationState r \<in> {ReconciliationNotRequired, ReconciliationRequired} \<and>
     recoveryDisposition r \<in> {RecoveryNotApplicable, RecoveryRetained, RecoveryRestored} \<and>
     reconciliation_probe_validate ` set_option (ar_ReconciliationProbe r) \<subseteq> {None} \<and>
     recovery_handle_validate ` set_option (ar_RecoveryHandle r) \<subseteq> {None} \<and>
     size_facts_validate (ar_VerifiedEffect r) = None \<and> terminal_state_ok r"
proof -
  have opt: "(case x of None \<Rightarrow> None | Some v \<Rightarrow> wrap w (f v)) = None \<longleftrightarrow> f ` set_option x \<subseteq> {None}"
    for x :: "'v option" and f w by (cases x) auto
  have conj: "(i \<and> k \<and> out \<and> rec \<and> disp \<and> p \<and> h \<and> e \<and> a \<and> b \<and> c) = (i \<and> k \<and> out \<and> rec \<and> disp \<and> p \<and> h \<and> e \<and> t)"
    if "out \<Longrightarrow> rec \<Longrightarrow> disp \<Longrightarrow> (a \<and> b \<and> c) = t" for i k out rec disp p h e a b c t
    using that by blast
  show ?thesis
    unfolding action_result_validate_def checks_Cons checks_Nil wrap_None check_None outcome_validate_def
      reconciliation_state_validate_def recovery_disposition_validate_def id_validate_None
      action_kind_validate_def opt simp_thms
    by (rule conj) (rule terminal_checks_iff)
qed

text \<open>
  The summary is derived, never supplied. Each counter is the number of actions with that
  outcome (modulo \<open>2 ^ 32\<close>, exact below \<open>2 ^ 32\<close> actions), the total is their sum when every
  outcome is known, the partial flag is set exactly for an indeterminate action or a mixture of
  success and non-success, and the reconciliation flag for an action that requires it.
\<close>

theorem exit_summary_exact:
  "deriveExitSummary rs = summary_of rs \<and>
   unat (es_Total (deriveExitSummary rs)) = length rs mod 2 ^ 32 \<and>
   unat (es_SuccessCount (deriveExitSummary rs)) = outcome_count OutcomeSuccess rs mod 2 ^ 32 \<and>
   unat (es_IndeterminateCount (deriveExitSummary rs)) = outcome_count OutcomeIndeterminate rs mod 2 ^ 32"
  by (simp add: deriveExitSummary_eq) (simp add: summary_of_def unat_of_nat take_bit_eq_mod)

lemma outcome_count_total:
  assumes "\<forall>r \<in> set rs. ar_Outcome r \<in> set outcomes"
  shows "length rs = sum_list (map (\<lambda>out. outcome_count out rs) outcomes)"
  using assms
proof (induction rs)
  case Nil
  show ?case by (simp add: outcome_count_def outcomes_def)
next
  case (Cons r rs)
  have "sum_list (map (\<lambda>out. of_bool (ar_Outcome r = out)) outcomes) = (1 :: nat)"
    using Cons.prems by (auto simp: outcomes_def vocabulary_neq)
  moreover have "sum_list (map (\<lambda>out. outcome_count out (r # rs)) outcomes) =
      sum_list (map (\<lambda>out. of_bool (ar_Outcome r = out)) outcomes) +
      sum_list (map (\<lambda>out. outcome_count out rs) outcomes)"
    by (simp add: outcome_count_Cons sum_list_addf)
  ultimately show ?case using Cons by simp
qed

text \<open>
  The total equals the sum of the eight counters, also when the 32-bit counters wrap.
\<close>

theorem exit_summary_total:
  assumes "result_validate r = None"
  shows "es_Total (res_Summary r) = sum_list (map (\<lambda>count. count (res_Summary r))
    [es_SuccessCount, es_SkippedCount, es_DriftedCount, es_DeniedCount, es_UnsupportedCount, es_FailedCount,
     es_InterruptedCount, es_IndeterminateCount])"
proof -
  have "\<forall>a \<in> set (res_Actions r). ar_Outcome a \<in> set outcomes"
    using assms action_result_validate_parts(2) by (auto simp: result_validate_None result_ok_def)
  from arg_cong [OF outcome_count_total [OF this], of "word_of_nat :: nat \<Rightarrow> u32"] show ?thesis
    using assms by (simp add: result_validate_None summary_of_def outcomes_def)
qed

text \<open>
  The result constructor accepts exactly the records whose action results validate, are bound
  to the run and have distinct actions; it replaces whatever summary the caller supplied by the
  derived one, makes the omitted states explicit, and is idempotent.
\<close>

theorem result_constructor:
  "(NewResult r = Inr q \<longleftrightarrow> result_ok r \<and>
     q = r \<lparr> res_Actions := map normalize_action_result (res_Actions r), res_Summary := summary_of (res_Actions r) \<rparr>) \<and>
   {q. NewResult r = Inr q} \<subseteq> {q. result_validate q = None \<and> NewResult q = Inr q}"
proof (intro conjI subsetI)
  fix q
  assume "q \<in> {q. NewResult r = Inr q}"
  then show "q \<in> {q. result_validate q = None \<and> NewResult q = Inr q}"
    by (auto simp: NewResult_Inr result_validate_None result_ok_def comp_def)
qed (rule NewResult_Inr)

subsection \<open>Witnesses\<close>

definition sample_action_result :: "action_id \<Rightarrow> outcome \<Rightarrow> bool \<Rightarrow> action_result" where
  "sample_action_result i out attempted = \<lparr> ar_ActionID = i, ar_Kind = ''trash_path'', ar_Outcome = out,
     ar_Attempted = attempted, ar_Reconciliation = [], ar_ReconciliationProbe = None, ar_Recovery = [],
     ar_RecoveryHandle = None, ar_VerifiedEffect = no_size_facts \<rparr>"

definition sample_result :: result where
  "sample_result = (let rs = [sample_action_result ''a1'' OutcomeSuccess True, sample_action_result ''a2'' OutcomeDenied False]
     in \<lparr> res_SchemaVersion = 1, res_PlanDigest = replicate 32 1, res_RunID = ''run1'', res_Actions = rs,
       res_Summary = summary_of rs \<rparr>)"

lemma sample_result_valid: "result_validate sample_result = None"
  by code_simp

theorem exit_summary_total_witness:
  "es_Total (res_Summary sample_result) = 2 \<and> es_Partial (res_Summary sample_result) \<and>
   es_Total (res_Summary sample_result) = sum_list (map (\<lambda>count. count (res_Summary sample_result))
    [es_SuccessCount, es_SkippedCount, es_DriftedCount, es_DeniedCount, es_UnsupportedCount, es_FailedCount,
     es_InterruptedCount, es_IndeterminateCount])"
proof -
  have "es_Total (res_Summary sample_result) = 2 \<and> es_Partial (res_Summary sample_result)"
    by code_simp
  with exit_summary_total [OF sample_result_valid] show ?thesis by blast
qed

end
