(* ===== verification/LinuxErrors.thy ===== *)
theory LinuxErrors
  imports DomainPlan
begin

unbundle bit_operations_syntax

text \<open>
  The sentinel errors of \<^verbatim>\<open>src/internal/linuxfs/errors.go\<close> and of
  \<^verbatim>\<open>src/internal/state/recovery_ledger.go\<close>, and the classification of kernel results. Callers of
  these layers branch on \<^verbatim>\<open>errors.Is\<close>, so an error is the list of sentinels it wraps: each
  \<^verbatim>\<open>%w\<close> contributes its sentinel, a \<^verbatim>\<open>%v\<close> contributes none, and the message is left out.
  The results of system calls and of the context are inputs of the definitions.
\<close>

section \<open>Errors as the sentinels they wrap\<close>

datatype sentinel =
    ErrUnsupported | ErrDrifted | ErrInterrupted | ErrRetained | ErrLedgerNotInitialized
  | ErrRecoveryConflict | ErrRecoveryCorrupt | ErrRecoveryUnsupported

type_synonym go_error = "sentinel list"

definition errors_Is :: "go_error \<Rightarrow> sentinel \<Rightarrow> bool" where
  "errors_Is e s = (s \<in> set e)"

definition driftedField :: go_error where
  "driftedField = [ErrDrifted]"

text \<open>\<^verbatim>\<open>contextError\<close> for the observed state of a context: done or not.\<close>

definition contextError :: "bool \<Rightarrow> go_error option" where
  "contextError live = (if live then None else Some [ErrInterrupted])"

datatype errno =
    EBADF | EINVAL | EOPNOTSUPP | EROFS | EEXIST | ENOTEMPTY | ELOOP | ENOSYS | EINTR | EAGAIN | ENOENT
  | ENOTDIR | E2BIG | EXDEV | ENOLCK | OtherErrno

definition classifyPreflightDirectorySync :: "errno \<Rightarrow> go_error" where
  "classifyPreflightDirectorySync e =
     (if e = EBADF then [ErrDrifted]
      else if e \<in> {EINVAL, EOPNOTSUPP, EROFS} then [ErrUnsupported]
      else [ErrInterrupted])"

definition classifyDurableOpenFailure :: "errno \<Rightarrow> go_error" where
  "classifyDurableOpenFailure e =
     (if e \<in> {EEXIST, ENOTEMPTY, ELOOP} then [ErrDrifted]
      else if e \<in> {ENOSYS, EINVAL, EOPNOTSUPP, EROFS} then [ErrUnsupported]
      else if e \<in> {EINTR, EAGAIN} then [ErrInterrupted]
      else [ErrDrifted])"

definition postCreateDurabilityError :: go_error where
  "postCreateDurabilityError = [ErrInterrupted]"

definition postCreateIdentityError :: "go_error \<Rightarrow> go_error" where
  "postCreateIdentityError e =
     (if errors_Is e ErrUnsupported then [ErrInterrupted, ErrUnsupported]
      else if errors_Is e ErrInterrupted then [ErrInterrupted]
      else if errors_Is e ErrDrifted then [ErrInterrupted, ErrDrifted]
      else [ErrInterrupted, ErrDrifted])"

lemma post_create_interrupted [simp]:
  "errors_Is postCreateDurabilityError ErrInterrupted"
  "errors_Is (postCreateIdentityError e) ErrInterrupted"
  by (simp_all add: errors_Is_def postCreateDurabilityError_def postCreateIdentityError_def)

lemma errors_Is_simps [simp]:
  "errors_Is [] s \<longleftrightarrow> False" "errors_Is (t # e) s \<longleftrightarrow> s = t \<or> errors_Is e s"
  by (simp_all add: errors_Is_def)

section \<open>The comparison policy of an action\<close>

definition baselineFilesystemMask :: field_mask where
  "baselineFilesystemMask = FieldDevice OR FieldInode OR FieldType OR FieldUID OR FieldGID OR
     FieldMode OR FieldMountID"

definition destructiveFilesystemMask :: field_mask where
  "destructiveFilesystemMask = baselineFilesystemMask OR FieldLinkCount OR FieldSize OR
     FieldModifiedAt OR FieldChangedAt"

definition RequiredStatMask :: "action_kind \<Rightarrow> go_error + field_mask" where
  "RequiredStatMask kind =
     (if kind \<in> {''trash_path'', ''delete_recreatable_path'', ''quarantine_path''}
      then Inr destructiveFilesystemMask
      else if kind \<in> {''restore_trash_path'', ''restore_quarantine_path''}
      then Inr baselineFilesystemMask
      else Inl [ErrUnsupported])"

end
