(* ===== verification/LinuxSnapshot.thy ===== *)
theory LinuxSnapshot
  imports LinuxErrors
begin

unbundle bit_operations_syntax

text \<open>
  \<^verbatim>\<open>src/internal/linuxfs/snapshot_linux.go\<close>, the identity checks of
  \<^verbatim>\<open>durable_file_linux.go\<close>, \<^verbatim>\<open>private_ledger_linux.go\<close> and
  \<^verbatim>\<open>private_directory_linux.go\<close>: a snapshot is built from the answer of
  \<^verbatim>\<open>statx(2)\<close> on a held descriptor and compared, field by field, with the one a plan or an
  earlier step recorded. The answer of the kernel and the effective user are inputs.
\<close>

section \<open>What statx returns\<close>

record statx_timestamp =
  ts_Sec :: u64
  ts_Nsec :: u32

record statx =
  stx_Mask :: u32
  stx_Dev_major :: u32
  stx_Dev_minor :: u32
  stx_Ino :: u64
  stx_Uid :: u32
  stx_Gid :: u32
  stx_Mode :: u16
  stx_Nlink :: u32
  stx_Size :: u64
  stx_Mtime :: statx_timestamp
  stx_Ctime :: statx_timestamp
  stx_Mnt_id :: u64

text \<open>The mask bits and file type bits of the Linux ABI.\<close>

definition STATX_TYPE :: u32 where "STATX_TYPE = 0x1"
definition STATX_MODE :: u32 where "STATX_MODE = 0x2"
definition STATX_NLINK :: u32 where "STATX_NLINK = 0x4"
definition STATX_UID :: u32 where "STATX_UID = 0x8"
definition STATX_GID :: u32 where "STATX_GID = 0x10"
definition STATX_MTIME :: u32 where "STATX_MTIME = 0x40"
definition STATX_CTIME :: u32 where "STATX_CTIME = 0x80"
definition STATX_INO :: u32 where "STATX_INO = 0x100"
definition STATX_SIZE :: u32 where "STATX_SIZE = 0x200"
definition STATX_BASIC_STATS :: u32 where "STATX_BASIC_STATS = 0x7FF"
definition STATX_MNT_ID :: u32 where "STATX_MNT_ID = 0x1000"

lemmas statx_bits = STATX_TYPE_def STATX_MODE_def STATX_NLINK_def STATX_UID_def STATX_GID_def
  STATX_MTIME_def STATX_CTIME_def STATX_INO_def STATX_SIZE_def STATX_BASIC_STATS_def STATX_MNT_ID_def

definition statxHasAll :: "u32 \<Rightarrow> u32 \<Rightarrow> bool" where
  "statxHasAll bits required = (bits AND required = required)"

definition fileTypeFromMode :: "u16 \<Rightarrow> file_type" where
  "fileTypeFromMode mode =
     (let kind = (ucast mode :: u32) AND 0xF000
      in if kind = 0x8000 then ''regular''
         else if kind = 0x4000 then ''directory''
         else if kind = 0xA000 then ''symlink''
         else ''special'')"

text \<open>
  The seconds are a signed 64-bit integer. Go's division truncates, so the lower limit is
  \<^verbatim>\<open>-9223372036\<close>; the product and the sum are 64-bit operations.
\<close>

definition statxUnixNano :: "statx_timestamp \<Rightarrow> go_error + u64" where
  "statxUnixNano timestamp =
     (if ts_Nsec timestamp \<ge> 1000000000 then Inl []
      else if sint (ts_Sec timestamp) < - (2 ^ 63 div 1000000000) \<or>
        sint (ts_Sec timestamp) > (2 ^ 63 - 1 - uint (ts_Nsec timestamp)) div 1000000000
      then Inl []
      else Inr (ts_Sec timestamp * 1000000000 + ucast (ts_Nsec timestamp)))"

section \<open>Snapshots\<close>

definition complete_snapshot :: filesystem_snapshot where
  "complete_snapshot =
     \<lparr> fs_DeviceMajor = \<lparr> u32_Known = True, u32_Value = 0 \<rparr>,
       fs_DeviceMinor = \<lparr> u32_Known = True, u32_Value = 0 \<rparr>,
       fs_Inode = \<lparr> u64_Known = True, u64_Value = 0 \<rparr>,
       fs_Type = ''regular'',
       fs_UID = \<lparr> u32_Known = True, u32_Value = 0 \<rparr>,
       fs_GID = \<lparr> u32_Known = True, u32_Value = 0 \<rparr>,
       fs_Mode = \<lparr> u32_Known = True, u32_Value = 0 \<rparr>,
       fs_LinkCount = \<lparr> u64_Known = True, u64_Value = 0 \<rparr>,
       fs_Size = \<lparr> u64_Known = True, u64_Value = 0 \<rparr>,
       fs_ModifiedAt = \<lparr> i64_Known = True, i64_Value = 0 \<rparr>,
       fs_ChangedAt = \<lparr> i64_Known = True, i64_Value = 0 \<rparr>,
       fs_MountID = \<lparr> u64_Known = True, u64_Value = 0 \<rparr> \<rparr>"

definition validateSnapshotRequirement :: "field_mask \<Rightarrow> go_error option" where
  "validateSnapshotRequirement required =
     map_option (\<lambda>_. [ErrUnsupported]) (snapshot_validate_for complete_snapshot required)"

definition statx_time_fact :: "u32 \<Rightarrow> u32 \<Rightarrow> statx_timestamp \<Rightarrow> go_error + int64_fact" where
  "statx_time_fact bits flag timestamp =
     (if statxHasAll bits flag
      then case statxUnixNano timestamp of
          Inl _ \<Rightarrow> Inl [ErrUnsupported]
        | Inr v \<Rightarrow> Inr \<lparr> i64_Known = True, i64_Value = v \<rparr>
      else Inr no_int64)"

definition statx_snapshot :: "statx \<Rightarrow> int64_fact \<Rightarrow> int64_fact \<Rightarrow> filesystem_snapshot" where
  "statx_snapshot x modified changed =
     \<lparr> fs_DeviceMajor = \<lparr> u32_Known = statxHasAll (stx_Mask x) STATX_BASIC_STATS, u32_Value = stx_Dev_major x \<rparr>,
       fs_DeviceMinor = \<lparr> u32_Known = statxHasAll (stx_Mask x) STATX_BASIC_STATS, u32_Value = stx_Dev_minor x \<rparr>,
       fs_Inode = \<lparr> u64_Known = statxHasAll (stx_Mask x) STATX_INO, u64_Value = stx_Ino x \<rparr>,
       fs_Type = (if statxHasAll (stx_Mask x) STATX_TYPE then fileTypeFromMode (stx_Mode x) else FileTypeUnknown),
       fs_UID = \<lparr> u32_Known = statxHasAll (stx_Mask x) STATX_UID, u32_Value = stx_Uid x \<rparr>,
       fs_GID = \<lparr> u32_Known = statxHasAll (stx_Mask x) STATX_GID, u32_Value = stx_Gid x \<rparr>,
       fs_Mode = \<lparr> u32_Known = statxHasAll (stx_Mask x) STATX_MODE, u32_Value = ucast (stx_Mode x) \<rparr>,
       fs_LinkCount = \<lparr> u64_Known = statxHasAll (stx_Mask x) STATX_NLINK, u64_Value = ucast (stx_Nlink x) \<rparr>,
       fs_Size = \<lparr> u64_Known = statxHasAll (stx_Mask x) STATX_SIZE, u64_Value = stx_Size x \<rparr>,
       fs_ModifiedAt = modified,
       fs_ChangedAt = changed,
       fs_MountID = \<lparr> u64_Known = statxHasAll (stx_Mask x) STATX_MNT_ID, u64_Value = stx_Mnt_id x \<rparr> \<rparr>"

definition snapshotFromStatx :: "statx \<Rightarrow> field_mask \<Rightarrow> go_error + filesystem_snapshot" where
  "snapshotFromStatx x required =
     (case validateSnapshotRequirement required of
        Some e \<Rightarrow> Inl e
      | None \<Rightarrow>
        (case statx_time_fact (stx_Mask x) STATX_MTIME (stx_Mtime x) of
           Inl e \<Rightarrow> Inl e
         | Inr modified \<Rightarrow>
           (case statx_time_fact (stx_Mask x) STATX_CTIME (stx_Ctime x) of
              Inl e \<Rightarrow> Inl e
            | Inr changed \<Rightarrow>
              (let snapshot = statx_snapshot x modified changed
               in case snapshot_validate_for snapshot required of
                   Some _ \<Rightarrow> Inl [ErrUnsupported]
                 | None \<Rightarrow> Inr snapshot))))"

definition classifyStatxError :: "errno \<Rightarrow> go_error" where
  "classifyStatxError e =
     (if e \<in> {ENOSYS, EINVAL, EOPNOTSUPP} then [ErrUnsupported]
      else if e = EINTR then [ErrInterrupted]
      else [ErrDrifted])"

definition SnapshotFD :: "int \<Rightarrow> errno + statx \<Rightarrow> field_mask \<Rightarrow> go_error + filesystem_snapshot" where
  "SnapshotFD fd answer required =
     (if fd < 0 then Inl [ErrUnsupported]
      else case validateSnapshotRequirement required of
          Some e \<Rightarrow> Inl e
        | None \<Rightarrow> (case answer of
            Inl e \<Rightarrow> Inl (classifyStatxError e)
          | Inr x \<Rightarrow> snapshotFromStatx x required))"

section \<open>Comparing an observation with an expectation\<close>

text \<open>\<open>drifts required field same\<close> is \<^verbatim>\<open>if required&field != 0 && !same { return driftedField }\<close>.\<close>

definition drifts :: "field_mask \<Rightarrow> field_mask \<Rightarrow> bool \<Rightarrow> go_error option" where
  "drifts required field same = (if required AND field \<noteq> 0 \<and> \<not> same then Some driftedField else None)"

definition ComparePrecondition :: "filesystem_precondition \<Rightarrow> filesystem_snapshot \<Rightarrow> go_error option" where
  "ComparePrecondition expected observed =
     (let s = fp_Snapshot expected; m = fp_Required expected in checks
     [map_option (\<lambda>_. [ErrUnsupported]) (filesystem_precondition_validate expected),
      map_option (\<lambda>_. [ErrUnsupported]) (snapshot_validate_for observed m),
      drifts m FieldDevice
        (fs_DeviceMajor s = fs_DeviceMajor observed \<and> fs_DeviceMinor s = fs_DeviceMinor observed),
      drifts m FieldInode (fs_Inode s = fs_Inode observed),
      drifts m FieldType (fs_Type s = fs_Type observed),
      drifts m FieldUID (fs_UID s = fs_UID observed),
      drifts m FieldGID (fs_GID s = fs_GID observed),
      drifts m FieldMode (fs_Mode s = fs_Mode observed),
      drifts m FieldLinkCount (fs_LinkCount s = fs_LinkCount observed),
      drifts m FieldSize (fs_Size s = fs_Size observed),
      drifts m FieldModifiedAt (fs_ModifiedAt s = fs_ModifiedAt observed),
      drifts m FieldChangedAt (fs_ChangedAt s = fs_ChangedAt observed),
      drifts m FieldMountID (fs_MountID s = fs_MountID observed)])"

section \<open>The identity of a private file\<close>

definition publishedFileIdentityMask :: field_mask where
  "publishedFileIdentityMask = FieldDevice OR FieldInode OR FieldType OR FieldUID OR FieldGID OR
     FieldMode OR FieldLinkCount OR FieldMountID"

definition privateLedgerEntryMask :: field_mask where
  "privateLedgerEntryMask = publishedFileIdentityMask OR FieldSize OR FieldModifiedAt OR FieldChangedAt"

definition durableFileMode :: u32 where
  "durableFileMode = 0x180"

definition maximumDurableFileBytes :: int where
  "maximumDurableFileBytes = 1048576"

definition published_file_checks :: "u32 \<Rightarrow> filesystem_snapshot \<Rightarrow> go_error option" where
  "published_file_checks euid s = checks
     [check (fs_Type s = ''regular'') driftedField,
      check (u32_Value (fs_UID s) = euid) driftedField,
      check (u32_Value (fs_Mode s) AND 0xFFF = durableFileMode) driftedField,
      check (u64_Value (fs_LinkCount s) = 1) driftedField]"

definition snapshotPublishedRegularFile :: "u32 \<Rightarrow> int \<Rightarrow> errno + statx \<Rightarrow> go_error + filesystem_snapshot" where
  "snapshotPublishedRegularFile euid fd answer =
     (case SnapshotFD fd answer publishedFileIdentityMask of
        Inl e \<Rightarrow> Inl e
      | Inr s \<Rightarrow> (case published_file_checks euid s of Some e \<Rightarrow> Inl e | None \<Rightarrow> Inr s))"

definition snapshotPrivateLedgerEntry :: "u32 \<Rightarrow> int \<Rightarrow> errno + statx \<Rightarrow> go_error + filesystem_snapshot" where
  "snapshotPrivateLedgerEntry euid fd answer =
     (case SnapshotFD fd answer privateLedgerEntryMask of
        Inl e \<Rightarrow> Inl e
      | Inr s \<Rightarrow>
        (case published_file_checks euid s of
           Some e \<Rightarrow> Inl e
         | None \<Rightarrow>
           if uint (u64_Value (fs_Size s)) > maximumDurableFileBytes then Inl [ErrUnsupported] else Inr s))"

text \<open>The comparison in \<^verbatim>\<open>verifyPublishedName\<close> before it reads the contents back.\<close>

definition published_identity_check :: "filesystem_snapshot \<Rightarrow> filesystem_snapshot \<Rightarrow> go_error option" where
  "published_identity_check expected observed = checks
     [check (fs_Type observed = ''regular'') driftedField,
      check (fs_DeviceMajor expected = fs_DeviceMajor observed \<and> fs_DeviceMinor expected = fs_DeviceMinor observed)
        driftedField,
      check (fs_Inode expected = fs_Inode observed) driftedField,
      check (fs_UID expected = fs_UID observed \<and> fs_GID expected = fs_GID observed) driftedField,
      check (fs_Mode expected = fs_Mode observed) driftedField,
      check (fs_LinkCount expected = fs_LinkCount observed) driftedField,
      check (fs_MountID expected = fs_MountID observed) driftedField]"

section \<open>The identity of a private directory\<close>

definition privateDirectoryMask :: field_mask where
  "privateDirectoryMask = baselineFilesystemMask"

definition snapshotPrivateDirectory :: "u32 \<Rightarrow> int \<Rightarrow> errno + statx \<Rightarrow> go_error + filesystem_snapshot" where
  "snapshotPrivateDirectory euid fd answer =
     (case SnapshotFD fd answer privateDirectoryMask of
        Inl e \<Rightarrow> Inl e
      | Inr s \<Rightarrow>
        (case checks
            [check (fs_Type s = ''directory'') [ErrUnsupported],
             check (u32_Value (fs_UID s) = euid) [ErrUnsupported],
             check (u32_Value (fs_Mode s) AND 0xFFF = 0x1C0) [ErrUnsupported]] of
           Some e \<Rightarrow> Inl e
         | None \<Rightarrow> Inr s))"

definition comparePrivateDirectoryIdentity :: "filesystem_snapshot \<Rightarrow> filesystem_snapshot \<Rightarrow> go_error option" where
  "comparePrivateDirectoryIdentity expected observed = checks
     [check (fs_DeviceMajor expected = fs_DeviceMajor observed \<and> fs_DeviceMinor expected = fs_DeviceMinor observed)
        driftedField,
      check (fs_Inode expected = fs_Inode observed) driftedField,
      check (fs_Type expected = fs_Type observed) driftedField,
      check (fs_UID expected = fs_UID observed \<and> fs_GID expected = fs_GID observed) driftedField,
      check (fs_Mode expected = fs_Mode observed) driftedField,
      check (fs_MountID expected = fs_MountID observed) driftedField]"

section \<open>The comparison is exact on the required fields\<close>

definition agreeing_fields :: "filesystem_snapshot \<Rightarrow> filesystem_snapshot \<Rightarrow> nat set" where
  "agreeing_fields a b =
     {n. n = 0 \<and> fs_DeviceMajor a = fs_DeviceMajor b \<and> fs_DeviceMinor a = fs_DeviceMinor b \<or>
         n = 1 \<and> fs_Inode a = fs_Inode b \<or> n = 2 \<and> fs_Type a = fs_Type b \<or>
         n = 3 \<and> fs_UID a = fs_UID b \<or> n = 4 \<and> fs_GID a = fs_GID b \<or>
         n = 5 \<and> fs_Mode a = fs_Mode b \<or> n = 6 \<and> fs_LinkCount a = fs_LinkCount b \<or>
         n = 7 \<and> fs_Size a = fs_Size b \<or> n = 8 \<and> fs_ModifiedAt a = fs_ModifiedAt b \<or>
         n = 9 \<and> fs_ChangedAt a = fs_ChangedAt b \<or> n = 10 \<and> fs_MountID a = fs_MountID b}"

lemma agreeing_fields_simps:
  "0 \<in> agreeing_fields a b \<longleftrightarrow> fs_DeviceMajor a = fs_DeviceMajor b \<and> fs_DeviceMinor a = fs_DeviceMinor b"
  "Suc 0 \<in> agreeing_fields a b \<longleftrightarrow> fs_Inode a = fs_Inode b"
  "2 \<in> agreeing_fields a b \<longleftrightarrow> fs_Type a = fs_Type b"
  "3 \<in> agreeing_fields a b \<longleftrightarrow> fs_UID a = fs_UID b"
  "4 \<in> agreeing_fields a b \<longleftrightarrow> fs_GID a = fs_GID b"
  "5 \<in> agreeing_fields a b \<longleftrightarrow> fs_Mode a = fs_Mode b"
  "6 \<in> agreeing_fields a b \<longleftrightarrow> fs_LinkCount a = fs_LinkCount b"
  "7 \<in> agreeing_fields a b \<longleftrightarrow> fs_Size a = fs_Size b"
  "8 \<in> agreeing_fields a b \<longleftrightarrow> fs_ModifiedAt a = fs_ModifiedAt b"
  "9 \<in> agreeing_fields a b \<longleftrightarrow> fs_ChangedAt a = fs_ChangedAt b"
  "10 \<in> agreeing_fields a b \<longleftrightarrow> fs_MountID a = fs_MountID b"
  by (simp_all add: agreeing_fields_def)

lemma drifts_cases: "drifts m f same \<in> {None, Some driftedField}"
  by (simp add: drifts_def)

lemma drifts_None: "drifts m (push_bit n 1) same = None \<longleftrightarrow> (n \<in> required_fields m \<longrightarrow> same)"
  unfolding drifts_def and_push_bit_1 required_fields_def by simp

lemma checks_one_error: "set es \<subseteq> {None, Some e} \<Longrightarrow> checks es = (if list_all (\<lambda>x. x = None) es then None else Some e)"
  by (induction es) auto

lemma ComparePrecondition_checks:
  assumes "filesystem_precondition_validate p = None" "snapshot_validate_for s (fp_Required p) = None"
  shows "ComparePrecondition p s =
    (if required_fields (fp_Required p) \<subseteq> agreeing_fields (fp_Snapshot p) s then None else Some driftedField)"
proof -
  let ?m = "fp_Required p" and ?a = "fp_Snapshot p"
  have fields: "required_fields ?m \<subseteq> {..<11}"
    using assms(2) by (simp add: snapshot_validate_for_None)
  define ds where "ds = [drifts ?m FieldDevice (fs_DeviceMajor ?a = fs_DeviceMajor s \<and> fs_DeviceMinor ?a = fs_DeviceMinor s),
      drifts ?m FieldInode (fs_Inode ?a = fs_Inode s), drifts ?m FieldType (fs_Type ?a = fs_Type s),
      drifts ?m FieldUID (fs_UID ?a = fs_UID s), drifts ?m FieldGID (fs_GID ?a = fs_GID s),
      drifts ?m FieldMode (fs_Mode ?a = fs_Mode s), drifts ?m FieldLinkCount (fs_LinkCount ?a = fs_LinkCount s),
      drifts ?m FieldSize (fs_Size ?a = fs_Size s), drifts ?m FieldModifiedAt (fs_ModifiedAt ?a = fs_ModifiedAt s),
      drifts ?m FieldChangedAt (fs_ChangedAt ?a = fs_ChangedAt s), drifts ?m FieldMountID (fs_MountID ?a = fs_MountID s)]"
  have "ComparePrecondition p s = checks ds"
    using assms by (simp add: ComparePrecondition_def Let_def ds_def)
  also have "set ds \<subseteq> {None, Some driftedField}"
    using drifts_cases by (auto simp: ds_def)
  note checks_one_error [OF this]
  also have "list_all (\<lambda>x. x = None) ds \<longleftrightarrow> required_fields ?m \<subseteq> agreeing_fields ?a s"
  proof -
    have upt: "[0..<11] = [0, Suc 0, 2, 3, 4, 5, 6, 7, 8, 9, 10]" by (simp add: upt_rec)
    show ?thesis
      unfolding required_subset [OF fields] upt ds_def field_mask_defs list.pred_inject drifts_None
      by (simp add: agreeing_fields_simps)
  qed
  finally show ?thesis .
qed

lemma statx_nanoseconds_value:
  assumes "- 9223372036 \<le> sint (ts_Sec t)" "sint (ts_Sec t) * 10 ^ 9 + uint (ts_Nsec t) < 2 ^ 63"
  shows "sint (ts_Sec t * 1000000000 + ucast (ts_Nsec t) :: u64) = sint (ts_Sec t) * 10 ^ 9 + uint (ts_Nsec t)"
proof -
  let ?v = "sint (ts_Sec t) * 10 ^ 9 + uint (ts_Nsec t)"
  have "word_of_int ?v = (ts_Sec t * 1000000000 + ucast (ts_Nsec t) :: u64)"
    by (simp only: of_int_add of_int_mult of_int_sint ucast_eq of_int_power of_int_numeral) simp
  then have "sint (ts_Sec t * 1000000000 + ucast (ts_Nsec t) :: u64) = sint (word_of_int ?v :: u64)"
    by simp
  also have "\<dots> = signed_take_bit 63 ?v"
    by (subst sint_sbintrunc') simp
  also have "\<dots> = ?v"
  proof (rule signed_take_bit_int_eq_self)
    have "0 \<le> uint (ts_Nsec t)" by simp
    with assms(1) have "- 9223372036854775808 \<le> sint (ts_Sec t) * 1000000000 + uint (ts_Nsec t)" by linarith
    then show "- (2 ^ 63) \<le> ?v" by simp
  qed (use assms in simp)
  finally show ?thesis .
qed

lemma statx_seconds_limit:
  "sint (ts_Sec t) \<le> (2 ^ 63 - 1 - uint (ts_Nsec t)) div 1000000000 \<longleftrightarrow>
     sint (ts_Sec t) * 10 ^ 9 + uint (ts_Nsec t) < 2 ^ 63"
proof -
  define q r where "q = (2 ^ 63 - 1 - uint (ts_Nsec t)) div 1000000000"
    and "r = (2 ^ 63 - 1 - uint (ts_Nsec t)) mod 1000000000"
  have "2 ^ 63 - 1 - uint (ts_Nsec t) = q * 1000000000 + r" "0 \<le> r" "r < 1000000000"
    by (simp_all add: q_def r_def)
  then show ?thesis unfolding q_def [symmetric] by auto
qed

section \<open>Properties\<close>

text \<open>
  C24: the drift check before a mutation is exact. When the recorded precondition is valid and the
  fresh snapshot has every required fact, the check succeeds just when the two snapshots agree on
  every field the mask names and reports drift otherwise; a missing or malformed fact is refused
  as unsupported, never compared.
\<close>

theorem compare_precondition_exact:
  "ComparePrecondition p s =
     (if filesystem_precondition_validate p = None \<and> snapshot_validate_for s (fp_Required p) = None
      then if required_fields (fp_Required p) \<subseteq> agreeing_fields (fp_Snapshot p) s then None else Some [ErrDrifted]
      else Some [ErrUnsupported])"
  using ComparePrecondition_checks [of p s]
  by (cases "filesystem_precondition_validate p"; cases "snapshot_validate_for s (fp_Required p)")
    (auto simp: driftedField_def ComparePrecondition_def Let_def)

text \<open>
  File times are exact. A kernel timestamp is converted exactly when its nanoseconds are below
  one second and the product stays within the checked limits; the value is then the number of
  nanoseconds, the 64-bit arithmetic never wraps, and the last second above the minimum is refused.
\<close>

theorem statx_time_exact:
  "statxUnixNano t = Inr v \<longleftrightarrow>
     uint (ts_Nsec t) < 10 ^ 9 \<and> - 9223372036 \<le> sint (ts_Sec t) \<and>
     sint (ts_Sec t) * 10 ^ 9 + uint (ts_Nsec t) < 2 ^ 63 \<and>
     sint v = sint (ts_Sec t) * 10 ^ 9 + uint (ts_Nsec t)"
proof (cases "uint (ts_Nsec t) < 10 ^ 9 \<and> - 9223372036 \<le> sint (ts_Sec t) \<and>
    sint (ts_Sec t) * 10 ^ 9 + uint (ts_Nsec t) < 2 ^ 63")
  case True
  then have "\<not> ts_Nsec t \<ge> 1000000000" by (simp add: word_le_def)
  then have "statxUnixNano t = Inr (ts_Sec t * 1000000000 + ucast (ts_Nsec t))"
    using True statx_seconds_limit [of t] by (simp add: statxUnixNano_def)
  then show ?thesis
    using True statx_nanoseconds_value [of t] by (auto intro: signed_word_eqI [where 'a = int])
next
  case False
  then have "\<not> (\<exists>v. statxUnixNano t = Inr v)"
    using statx_seconds_limit [of t] by (auto simp: statxUnixNano_def word_le_def)
  with False show ?thesis by auto
qed

end
