(* ===== verification/PrivateDirectory.thy ===== *)
theory PrivateDirectory
  imports LinuxSnapshot
begin

text \<open>
  \<^verbatim>\<open>src/internal/linuxfs/private_directory_linux.go\<close>: the lease on an executor-private
  directory. The lease records which layout it was opened from and the identity of the directory,
  and lends a descriptor only after both have been checked again. The layout authority of the
  \<^verbatim>\<open>mounts\<close> package is an input at each use: the root and kind it names and the descriptor or
  error it answers with, together with the answer of \<^verbatim>\<open>statx\<close> on that descriptor.
\<close>

section \<open>Errors of the layout authority\<close>

datatype mount_sentinel =
    MountErrUnsupported | MountErrDrifted | MountErrInvalidAuthority | MountErrUnknownTrustedRoot
  | MountErrUnknownLayout | MountErrUnknownTrash | MountErrLeaseClosed

type_synonym mount_error = "mount_sentinel list"

definition classifyPrivateDirectorySourceFailure :: "mount_error \<Rightarrow> go_error" where
  "classifyPrivateDirectorySourceFailure e =
     (if MountErrUnsupported \<in> set e \<or> MountErrInvalidAuthority \<in> set e \<or>
        MountErrUnknownLayout \<in> set e \<or> MountErrUnknownTrustedRoot \<in> set e
      then [ErrUnsupported] else [ErrDrifted])"

section \<open>The lease\<close>

type_synonym layout_kind = string

definition LayoutPrivateState :: layout_kind where "LayoutPrivateState = ''private_state''"
definition LayoutPrivateStaging :: layout_kind where "LayoutPrivateStaging = ''private_staging''"
definition LayoutPrivateQuarantine :: layout_kind where "LayoutPrivateQuarantine = ''private_quarantine''"

record layout_source =
  ls_RootID :: trusted_root_id
  ls_Kind :: layout_kind
  ls_Duplicate :: "mount_error + int"
  ls_Statx :: "errno + statx"

record private_directory_lease =
  pd_source :: bool
  pd_rootID :: trusted_root_id
  pd_kind :: layout_kind
  pd_expected :: filesystem_snapshot
  pd_closed :: bool

definition isPrivateLayoutKind :: "layout_kind \<Rightarrow> bool" where
  "isPrivateLayoutKind kind = (kind \<in> {LayoutPrivateState, LayoutPrivateStaging, LayoutPrivateQuarantine})"

text \<open>\<^verbatim>\<open>OpenPrivateDirectory\<close>; the source is \<open>None\<close> for a nil lease.\<close>

definition openPrivateDirectoryWithSource ::
    "u32 \<Rightarrow> layout_source option \<Rightarrow> go_error + private_directory_lease" where
  "openPrivateDirectoryWithSource euid source = (case source of
     None \<Rightarrow> Inl [ErrUnsupported]
   | Some s \<Rightarrow>
     (if trusted_root_id_validate (ls_RootID s) \<noteq> None then Inl [ErrUnsupported]
      else if \<not> isPrivateLayoutKind (ls_Kind s) then Inl [ErrUnsupported]
      else case ls_Duplicate s of
          Inl e \<Rightarrow> Inl (classifyPrivateDirectorySourceFailure e)
        | Inr fd \<Rightarrow>
          (case snapshotPrivateDirectory euid fd (ls_Statx s) of
             Inl e \<Rightarrow> Inl e
           | Inr expected \<Rightarrow> Inr \<lparr> pd_source = True, pd_rootID = ls_RootID s, pd_kind = ls_Kind s,
               pd_expected = expected, pd_closed = False \<rparr>)))"

definition lease_recheckLocked :: "private_directory_lease \<Rightarrow> layout_source \<Rightarrow> go_error option" where
  "lease_recheckLocked lease s = checks
     [check (pd_source lease) [ErrUnsupported],
      map_option (\<lambda>_. [ErrUnsupported]) (trusted_root_id_validate (pd_rootID lease)),
      check (isPrivateLayoutKind (pd_kind lease)) [ErrUnsupported],
      check (ls_RootID s = pd_rootID lease) [ErrDrifted],
      check (ls_Kind s = pd_kind lease) [ErrDrifted]]"

definition lease_recheckFDLocked ::
    "private_directory_lease \<Rightarrow> u32 \<Rightarrow> int \<Rightarrow> errno + statx \<Rightarrow> go_error option" where
  "lease_recheckFDLocked lease euid fd answer =
     (case snapshotPrivateDirectory euid fd answer of
        Inl e \<Rightarrow> Some e
      | Inr observed \<Rightarrow> comparePrivateDirectoryIdentity (pd_expected lease) observed)"

definition lease_duplicateLocked ::
    "private_directory_lease \<Rightarrow> u32 \<Rightarrow> layout_source \<Rightarrow> go_error + int" where
  "lease_duplicateLocked lease euid s =
     (if pd_closed lease then Inl [ErrDrifted]
      else case lease_recheckLocked lease s of
          Some e \<Rightarrow> Inl e
        | None \<Rightarrow> (case ls_Duplicate s of
            Inl e \<Rightarrow> Inl (classifyPrivateDirectorySourceFailure e)
          | Inr fd \<Rightarrow>
            if fd < 0 then Inl [ErrDrifted]
            else (case lease_recheckFDLocked lease euid fd (ls_Statx s) of
                Some e \<Rightarrow> Inl e
              | None \<Rightarrow> Inr fd)))"

definition lease_withFD ::
    "private_directory_lease \<Rightarrow> u32 \<Rightarrow> layout_source \<Rightarrow> (int \<Rightarrow> 's \<Rightarrow> go_error option \<times> 's) \<Rightarrow> 's \<Rightarrow>
     go_error option \<times> 's" where
  "lease_withFD lease euid s operation st =
     (case lease_duplicateLocked lease euid s of
        Inl e \<Rightarrow> (Some e, st)
      | Inr fd \<Rightarrow> operation fd st)"

definition lease_Close :: "private_directory_lease \<Rightarrow> private_directory_lease" where
  "lease_Close lease = (if pd_closed lease then lease else lease \<lparr> pd_closed := True \<rparr>)"

section \<open>What a lent descriptor establishes\<close>

lemma required_fields_or: "required_fields (a OR b) = required_fields a \<union> required_fields b"
  by (auto simp: required_fields_def bit_simps)

lemma required_fields_push_bit: "n < 32 \<Longrightarrow> required_fields (push_bit n 1) = {n}"
  by (auto simp: required_fields_def bit_simps simp del: push_bit_of_1)

lemma baseline_fields: "required_fields baselineFilesystemMask = {0, Suc 0, 2, 3, 4, 5, 10}"
  unfolding baselineFilesystemMask_def field_mask_defs required_fields_or
  by (subst required_fields_push_bit, simp)+ auto

lemma comparePrivateDirectoryIdentity_None:
  "comparePrivateDirectoryIdentity a b = None \<longleftrightarrow> required_fields baselineFilesystemMask \<subseteq> agreeing_fields a b"
  unfolding comparePrivateDirectoryIdentity_def checks_Cons checks_Nil check_None baseline_fields
  by (auto simp: agreeing_fields_simps)

definition private_directory_of :: "u32 \<Rightarrow> filesystem_snapshot \<Rightarrow> bool" where
  "private_directory_of euid s \<longleftrightarrow> fs_Type s = ''directory'' \<and> u32_Value (fs_UID s) = euid \<and>
     u32_Value (fs_Mode s) AND 0xFFF = 0x1C0"

lemma snapshotPrivateDirectory_Inr:
  "snapshotPrivateDirectory euid fd answer = Inr s \<longleftrightarrow>
     SnapshotFD fd answer baselineFilesystemMask = Inr s \<and> private_directory_of euid s"
  by (auto simp: snapshotPrivateDirectory_def privateDirectoryMask_def private_directory_of_def
      check_def split: sum.splits if_splits)

lemma lease_duplicateLocked_Inr:
  "lease_duplicateLocked lease euid s = Inr fd \<longleftrightarrow>
     \<not> pd_closed lease \<and> lease_recheckLocked lease s = None \<and> ls_Duplicate s = Inr fd \<and> \<not> fd < 0 \<and>
     lease_recheckFDLocked lease euid fd (ls_Statx s) = None"
  by (auto simp: lease_duplicateLocked_def split: sum.splits option.splits if_splits)

lemma lease_recheckFDLocked_None:
  "lease_recheckFDLocked lease euid fd answer = None \<longleftrightarrow>
     (\<exists>s. snapshotPrivateDirectory euid fd answer = Inr s \<and>
        required_fields baselineFilesystemMask \<subseteq> agreeing_fields (pd_expected lease) s)"
  by (auto simp: lease_recheckFDLocked_def comparePrivateDirectoryIdentity_None split: sum.splits)

lemma openPrivateDirectory_Inr:
  "openPrivateDirectoryWithSource euid (Some s) = Inr lease \<longleftrightarrow>
     (\<exists>fd e. ls_Duplicate s = Inr fd \<and> snapshotPrivateDirectory euid fd (ls_Statx s) = Inr e \<and>
        trusted_root_id_validate (ls_RootID s) = None \<and> isPrivateLayoutKind (ls_Kind s) \<and>
        lease = \<lparr> pd_source = True, pd_rootID = ls_RootID s, pd_kind = ls_Kind s, pd_expected = e, pd_closed = False \<rparr>)"
  by (auto simp: openPrivateDirectoryWithSource_def split: sum.splits if_splits)

section \<open>Properties\<close>

text \<open>
  A lease only ever lends the directory it was opened on. When the operation on a lent
  descriptor changes the state, the layout authority still names the same trusted root and private kind,
  and the fresh snapshot is that of a directory of the executor with mode 0700 that agrees with the
  recorded one on device, inode, type, owner, group, mode and mount. After \<^verbatim>\<open>Close\<close> no
  operation runs.
\<close>

theorem lease_lends_same_directory:
  assumes "openPrivateDirectoryWithSource euid (Some opened) = Inr lease"
    and "lease_withFD lease euid now operation st = (e, st')" and "st' \<noteq> st"
  shows "ls_RootID now = ls_RootID opened \<and> ls_Kind now = ls_Kind opened \<and>
    (\<exists>fd s. ls_Duplicate now = Inr fd \<and> SnapshotFD fd (ls_Statx now) baselineFilesystemMask = Inr s \<and>
      private_directory_of euid s \<and>
      required_fields baselineFilesystemMask \<subseteq> agreeing_fields (pd_expected lease) s) \<and>
    lease_withFD (lease_Close lease) euid now operation st = (Some [ErrDrifted], st)"
proof -
  from assms(2,3) obtain fd where "lease_duplicateLocked lease euid now = Inr fd"
    by (auto simp: lease_withFD_def split: sum.splits)
  moreover have "lease_duplicateLocked (lease_Close lease) euid now = Inl [ErrDrifted]"
    by (simp add: lease_Close_def lease_duplicateLocked_def)
  ultimately show ?thesis
    using assms(1) unfolding openPrivateDirectory_Inr lease_duplicateLocked_Inr lease_recheckFDLocked_None
      snapshotPrivateDirectory_Inr lease_recheckLocked_def checks_Cons check_None
    by (auto simp: lease_withFD_def)
qed

definition sample_statx :: "u16 \<Rightarrow> u32 \<Rightarrow> u64 \<Rightarrow> statx" where
  "sample_statx mode links bytes =
     \<lparr> stx_Mask = 0x17FF, stx_Dev_major = 8, stx_Dev_minor = 1, stx_Ino = 42, stx_Uid = 1000, stx_Gid = 1000,
       stx_Mode = mode, stx_Nlink = links, stx_Size = bytes,
       stx_Mtime = \<lparr> ts_Sec = 1700000000, ts_Nsec = 5 \<rparr>, stx_Ctime = \<lparr> ts_Sec = 1700000000, ts_Nsec = 5 \<rparr>,
       stx_Mnt_id = 77 \<rparr>"

definition sample_layout :: layout_source where
  "sample_layout = \<lparr> ls_RootID = ''root-1'', ls_Kind = LayoutPrivateState, ls_Duplicate = Inr 7,
     ls_Statx = Inr (sample_statx 0x41C0 2 4096) \<rparr>"

definition sample_snapshot :: "file_type \<Rightarrow> u32 \<Rightarrow> u64 \<Rightarrow> u64 \<Rightarrow> filesystem_snapshot" where
  "sample_snapshot kind mode links bytes =
     \<lparr> fs_DeviceMajor = \<lparr> u32_Known = True, u32_Value = 8 \<rparr>, fs_DeviceMinor = \<lparr> u32_Known = True, u32_Value = 1 \<rparr>,
       fs_Inode = \<lparr> u64_Known = True, u64_Value = 42 \<rparr>, fs_Type = kind,
       fs_UID = \<lparr> u32_Known = True, u32_Value = 1000 \<rparr>, fs_GID = \<lparr> u32_Known = True, u32_Value = 1000 \<rparr>,
       fs_Mode = \<lparr> u32_Known = True, u32_Value = mode \<rparr>, fs_LinkCount = \<lparr> u64_Known = True, u64_Value = links \<rparr>,
       fs_Size = \<lparr> u64_Known = True, u64_Value = bytes \<rparr>,
       fs_ModifiedAt = \<lparr> i64_Known = True, i64_Value = 1700000000000000005 \<rparr>,
       fs_ChangedAt = \<lparr> i64_Known = True, i64_Value = 1700000000000000005 \<rparr>,
       fs_MountID = \<lparr> u64_Known = True, u64_Value = 77 \<rparr> \<rparr>"

definition sample_lease :: private_directory_lease where
  "sample_lease = \<lparr> pd_source = True, pd_rootID = ''root-1'', pd_kind = LayoutPrivateState,
     pd_expected = sample_snapshot ''directory'' 0x41C0 2 4096, pd_closed = False \<rparr>"

lemma sample_lease_open: "openPrivateDirectoryWithSource 1000 (Some sample_layout) = Inr sample_lease"
  by code_simp

theorem lease_lends_same_directory_witness:
  "ls_RootID sample_layout = ''root-1'' \<and>
   lease_withFD (lease_Close sample_lease) 1000 sample_layout (\<lambda>_ n. (None, Suc n)) 0 = (Some [ErrDrifted], 0)"
proof -
  have "lease_withFD sample_lease 1000 sample_layout (\<lambda>_ n. (None, Suc n)) 0 = (None, 1)"
    by code_simp
  from lease_lends_same_directory [OF sample_lease_open this] show ?thesis
    by (simp add: sample_layout_def)
qed

end
