(* ===== verification/LedgerRecordID.thy ===== *)
theory LedgerRecordID
  imports PrivateDirectory
begin

text \<open>
  \<^verbatim>\<open>src/internal/linuxfs/private_ledger_linux.go\<close>: the identity of a ledger record and its
  file name. A record is found again only through its name, so the name must be a faithful code.
\<close>

section \<open>Record identities\<close>

definition privateLedgerNamespacePrefix :: string where
  "privateLedgerNamespacePrefix = ''ldc-ledger-''"
definition privateLedgerLockBasename :: string where
  "privateLedgerLockBasename = ''ldc-ledger-v1.lock''"
definition privateLedgerRecordPrefix :: string where
  "privateLedgerRecordPrefix = ''ldc-ledger-v1-''"
definition privateLedgerRecordSuffix :: string where
  "privateLedgerRecordSuffix = ''.cbor''"
definition privateLedgerDigestHexBytes :: nat where
  "privateLedgerDigestHexBytes = 64"
definition privateLedgerTokenHexBytes :: nat where
  "privateLedgerTokenHexBytes = 64"
definition maximumPrivateLedgerOrdinal :: u8 where
  "maximumPrivateLedgerOrdinal = 15"
definition maximumPrivateLedgerRecords :: int where
  "maximumPrivateLedgerRecords = 256"
definition maximumPrivateLedgerDirEntries :: int where
  "maximumPrivateLedgerDirEntries = maximumPrivateLedgerRecords + 16"

record record_id =
  rid_actionBindingDigest :: string
  rid_token :: string
  rid_ordinal :: u8

definition has_prefix :: "string \<Rightarrow> string \<Rightarrow> bool" where
  "has_prefix s p = (take (length p) s = p)"

definition has_suffix :: "string \<Rightarrow> string \<Rightarrow> bool" where
  "has_suffix s p = (length p \<le> length s \<and> drop (length s - length p) s = p)"

definition trim_prefix :: "string \<Rightarrow> string \<Rightarrow> string" where
  "trim_prefix s p = (if has_prefix s p then drop (length p) s else s)"

definition trim_suffix :: "string \<Rightarrow> string \<Rightarrow> string" where
  "trim_suffix s p = (if has_suffix s p then take (length s - length p) s else s)"

text \<open>\<^verbatim>\<open>strings.Split(s, "-")\<close>.\<close>

fun split_dash :: "string \<Rightarrow> string list" where
  "split_dash [] = [[]]"
| "split_dash (c # s) =
     (if c = CHR ''-'' then [] # split_dash s
      else case split_dash s of [] \<Rightarrow> [[c]] | part # parts \<Rightarrow> (c # part) # parts)"

definition isLowerHex :: "string \<Rightarrow> bool" where
  "isLowerHex value = list_all (\<lambda>c. CHR ''0'' \<le> c \<and> c \<le> CHR ''9'' \<or> CHR ''a'' \<le> c \<and> c \<le> CHR ''f'') value"

definition NewPrivateLedgerRecordID :: "string \<Rightarrow> string \<Rightarrow> u8 \<Rightarrow> go_error + record_id" where
  "NewPrivateLedgerRecordID actionBindingDigest token ordinal =
     (if length actionBindingDigest \<noteq> privateLedgerDigestHexBytes \<or> \<not> isLowerHex actionBindingDigest
      then Inl [ErrUnsupported]
      else if \<not> has_prefix token ''ldc-'' \<or> length token \<noteq> length ''ldc-'' + privateLedgerTokenHexBytes \<or>
        \<not> isLowerHex (drop (length ''ldc-'') token)
      then Inl [ErrUnsupported]
      else if ordinal > maximumPrivateLedgerOrdinal then Inl [ErrUnsupported]
      else Inr \<lparr> rid_actionBindingDigest = actionBindingDigest, rid_token = token, rid_ordinal = ordinal \<rparr>)"

definition record_id_validate :: "record_id \<Rightarrow> go_error option" where
  "record_id_validate i =
     (case NewPrivateLedgerRecordID (rid_actionBindingDigest i) (rid_token i) (rid_ordinal i) of
        Inl e \<Rightarrow> Some e | Inr _ \<Rightarrow> None)"

text \<open>\<^verbatim>\<open>%02d\<close> of a \<^verbatim>\<open>uint8\<close>: at least two decimal digits.\<close>

definition decimal_digit :: "nat \<Rightarrow> char" where
  "decimal_digit n = char_of (48 + n)"

definition format_02d :: "u8 \<Rightarrow> string" where
  "format_02d v =
     (let n = unat v
      in if n < 100 then [decimal_digit (n div 10), decimal_digit (n mod 10)]
         else [decimal_digit (n div 100), decimal_digit (n div 10 mod 10), decimal_digit (n mod 10)])"

definition record_basename :: "record_id \<Rightarrow> string" where
  "record_basename i = privateLedgerRecordPrefix @ rid_actionBindingDigest i @ ''-'' @ rid_token i @ ''-'' @
     format_02d (rid_ordinal i) @ privateLedgerRecordSuffix"

definition parsePrivateLedgerOrdinal :: "string \<Rightarrow> u8" where
  "parsePrivateLedgerOrdinal value = (case value of
     [a, b] \<Rightarrow>
       if a < CHR ''0'' \<or> a > CHR ''9'' \<or> b < CHR ''0'' \<or> b > CHR ''9'' then maximumPrivateLedgerOrdinal + 1
       else (byte_of a - byte_of CHR ''0'') * 10 + (byte_of b - byte_of CHR ''0'')
   | _ \<Rightarrow> maximumPrivateLedgerOrdinal + 1)"

text \<open>The caller of the parser wraps every error as \<^verbatim>\<open>ErrDrifted\<close>, so it is an option here.\<close>

definition privateLedgerRecordIDFromBasename :: "string \<Rightarrow> record_id option" where
  "privateLedgerRecordIDFromBasename basename =
     (if \<not> has_prefix basename privateLedgerRecordPrefix \<or> \<not> has_suffix basename privateLedgerRecordSuffix
      then None
      else
        let body = trim_suffix (trim_prefix basename privateLedgerRecordPrefix) privateLedgerRecordSuffix
        in case split_dash body of
             [digest, ldc, token, ordinal] \<Rightarrow>
               if ldc \<noteq> ''ldc'' then None
               else (case NewPrivateLedgerRecordID digest (''ldc-'' @ token) (parsePrivateLedgerOrdinal ordinal) of
                   Inl _ \<Rightarrow> None
                 | Inr i \<Rightarrow> if record_basename i \<noteq> basename then None else Some i)
           | _ \<Rightarrow> None)"

lemma record_id_validate_None:
  "record_id_validate i = None \<longleftrightarrow>
     NewPrivateLedgerRecordID (rid_actionBindingDigest i) (rid_token i) (rid_ordinal i) = Inr i"
  by (cases i) (auto simp: record_id_validate_def NewPrivateLedgerRecordID_def split: if_splits)

lemma NewPrivateLedgerRecordID_Inr:
  "NewPrivateLedgerRecordID d t n = Inr i \<longleftrightarrow>
     i = \<lparr> rid_actionBindingDigest = d, rid_token = t, rid_ordinal = n \<rparr> \<and> record_id_validate i = None"
  by (auto simp: record_id_validate_def NewPrivateLedgerRecordID_def split: if_splits)

text \<open>A validated file name is canonical: it is the name of the identity it parses to.\<close>

definition encode_record_name :: "record_id \<Rightarrow> string option" where
  "encode_record_name i = (if record_id_validate i = None then Some (record_basename i) else None)"

lemma record_name_canonical:
  "privateLedgerRecordIDFromBasename b = Some i \<Longrightarrow> encode_record_name i = Some b"
  by (auto simp: privateLedgerRecordIDFromBasename_def encode_record_name_def Let_def
      NewPrivateLedgerRecordID_Inr split: if_splits list.splits sum.splits)

interpretation record_name: canonical_codec encode_record_name privateLedgerRecordIDFromBasename
  by unfold_locales (rule record_name_canonical)

lemma has_prefix_append [simp]: "has_prefix (p @ s) p" "trim_prefix (p @ s) p = s"
  by (simp_all add: has_prefix_def trim_prefix_def)

lemma has_suffix_append [simp]: "has_suffix (s @ p) p" "trim_suffix (s @ p) p = s"
  by (simp_all add: has_suffix_def trim_suffix_def)

lemma split_dash_nonempty: "split_dash s \<noteq> []"
  by (induction s) (auto split: list.splits)

lemma split_dash_part: "CHR ''-'' \<notin> set s \<Longrightarrow> split_dash (s @ CHR ''-'' # r) = s # split_dash r"
  by (induction s) auto

lemma split_dash_last: "CHR ''-'' \<notin> set s \<Longrightarrow> split_dash s = [s]"
  by (induction s) auto

lemma isLowerHex_no_dash: "isLowerHex s \<Longrightarrow> CHR ''-'' \<notin> set s"
  by (auto simp: isLowerHex_def list_all_iff)

lemma small_ordinal_cases:
  assumes "(v :: u8) \<le> 15"
  shows "v \<in> {0, 1, 2, 3, 4, 5, 6, 7, 8, 9, 10, 11, 12, 13, 14, 15}"
  using word_interval_cases [of 0 v 15] assms by (auto simp: upt_rec)

lemma ordinal_format:
  assumes "(v :: u8) \<le> 15"
  shows "parsePrivateLedgerOrdinal (format_02d v) = v" "length (format_02d v) = 2"
    "CHR ''-'' \<notin> set (format_02d v)"
proof -
  have "parsePrivateLedgerOrdinal (format_02d v) = v \<and> length (format_02d v) = 2 \<and>
      CHR ''-'' \<notin> set (format_02d v)"
    if "v \<in> set [0, 1, 2, 3, 4, 5, 6, 7, 8, 9, 10, 11, 12, 13, 14, 15]" for v :: u8
  proof -
    have "list_all (\<lambda>v. parsePrivateLedgerOrdinal (format_02d v) = v \<and> length (format_02d v) = 2 \<and>
        CHR ''-'' \<notin> set (format_02d v)) [0, 1, 2, 3, 4, 5, 6, 7, 8, 9, 10, 11, 12, 13, 14, 15]"
      by code_simp
    with that show ?thesis unfolding list_all_iff by blast
  qed
  with small_ordinal_cases [OF assms]
  show "parsePrivateLedgerOrdinal (format_02d v) = v" "length (format_02d v) = 2" "CHR ''-'' \<notin> set (format_02d v)"
    by simp_all
qed

lemma record_id_valid_parts:
  assumes "record_id_validate i = None"
  obtains t where "rid_token i = ''ldc-'' @ t" "isLowerHex t" "isLowerHex (rid_actionBindingDigest i)"
    "length t = 64" "length (rid_actionBindingDigest i) = 64" "rid_ordinal i \<le> 15"
proof
  have valid: "NewPrivateLedgerRecordID (rid_actionBindingDigest i) (rid_token i) (rid_ordinal i) = Inr i"
    using assms by (simp add: record_id_validate_None)
  then have "has_prefix (rid_token i) ''ldc-''"
    by (auto simp: NewPrivateLedgerRecordID_def split: if_splits)
  have drop4: "drop 4 (rid_token i) = drop (Suc (Suc (Suc (Suc 0)))) (rid_token i)"
    by (simp add: numeral_eq_Suc)
  from \<open>has_prefix (rid_token i) ''ldc-''\<close> show "rid_token i = ''ldc-'' @ drop 4 (rid_token i)"
    using append_take_drop_id [of "length ''ldc-''" "rid_token i"] unfolding has_prefix_def
    by (simp add: numeral_eq_Suc)
  show "isLowerHex (drop 4 (rid_token i))" "isLowerHex (rid_actionBindingDigest i)"
    "length (drop 4 (rid_token i)) = 64" "length (rid_actionBindingDigest i) = 64" "rid_ordinal i \<le> 15"
    unfolding drop4
    using valid by (auto simp: NewPrivateLedgerRecordID_def privateLedgerDigestHexBytes_def
        privateLedgerTokenHexBytes_def maximumPrivateLedgerOrdinal_def split: if_splits)
qed

lemma record_name_roundtrip:
  assumes "record_id_validate i = None"
  shows "privateLedgerRecordIDFromBasename (record_basename i) = Some i"
proof -
  obtain t where t: "rid_token i = ''ldc-'' @ t" "isLowerHex t" "isLowerHex (rid_actionBindingDigest i)"
    "rid_ordinal i \<le> 15"
    using record_id_valid_parts [OF assms] by metis
  let ?body = "rid_actionBindingDigest i @ CHR ''-'' # ''ldc'' @ CHR ''-'' # t @ CHR ''-'' # format_02d (rid_ordinal i)"
  have name: "record_basename i = privateLedgerRecordPrefix @ ?body @ privateLedgerRecordSuffix"
    by (simp add: record_basename_def t)
  have "split_dash ?body = [rid_actionBindingDigest i, ''ldc'', t, format_02d (rid_ordinal i)]"
    using isLowerHex_no_dash [OF t(2)] isLowerHex_no_dash [OF t(3)] ordinal_format(3) [OF t(4)]
    by (simp add: split_dash_part split_dash_last del: split_dash.simps) (simp add: split_dash_part split_dash_last)
  moreover have "trim_suffix (trim_prefix (record_basename i) privateLedgerRecordPrefix) privateLedgerRecordSuffix = ?body"
    using has_suffix_append(2) [of ?body privateLedgerRecordSuffix] by (simp add: name)
  moreover have "has_prefix (record_basename i) privateLedgerRecordPrefix" by (simp add: name)
  moreover have "has_suffix (record_basename i) privateLedgerRecordSuffix"
    using has_suffix_append(1) [of "privateLedgerRecordPrefix @ ?body"] by (simp add: name)
  moreover have "NewPrivateLedgerRecordID (rid_actionBindingDigest i) (''ldc-'' @ t)
      (parsePrivateLedgerOrdinal (format_02d (rid_ordinal i))) = Inr i"
    using assms t(1) by (simp add: ordinal_format(1) [OF t(4)] record_id_validate_None)
  ultimately show ?thesis
    by (simp add: privateLedgerRecordIDFromBasename_def Let_def)
qed

lemma record_basename_inject:
  "record_id_validate i = None \<Longrightarrow> record_id_validate j = None \<Longrightarrow> record_basename i = record_basename j \<longleftrightarrow> i = j"
  by (metis record_name_roundtrip option.inject)

lemma parsed_name_iff:
  "privateLedgerRecordIDFromBasename b = Some i \<longleftrightarrow> record_id_validate i = None \<and> b = record_basename i"
proof
  assume "privateLedgerRecordIDFromBasename b = Some i"
  from record_name_canonical [OF this] show "record_id_validate i = None \<and> b = record_basename i"
    by (auto simp: encode_record_name_def split: if_splits)
qed (use record_name_roundtrip in blast)

section \<open>Properties\<close>

text \<open>
  File names and record identities correspond one to one. A name of the directory is read as an
  identity exactly when the identity validates and the name is the one it renders to, so no two
  records share a file and a file with any other spelling is not read as a record.
\<close>

theorem record_name_iff:
  "privateLedgerRecordIDFromBasename b = Some i \<longleftrightarrow> record_id_validate i = None \<and> b = record_basename i"
  by (rule parsed_name_iff)

end
