(* ===== verification/DurableFile.thy ===== *)
theory DurableFile
  imports PrivateDirectory
begin

text \<open>
  \<^verbatim>\<open>src/internal/linuxfs/durable_file_linux.go\<close>: the durable no-replace publication of a file in
  a private directory and the reading back of what was written. A directory is the list of its entries
  in enumeration order. What the context and the kernel answer at each program point is an input:
  a script lists the answers of the calls of one loop, and a call after the end of the script succeeds
  with everything it was asked for.
\<close>

section \<open>Entries of a directory\<close>

record dir_file =
  df_contents :: bytes
  df_statx :: "errno + statx"

type_synonym directory = "(string \<times> dir_file) list"

definition entry_names :: "directory \<Rightarrow> string list" where
  "entry_names d = map fst d"

definition file_contents :: "directory \<Rightarrow> string \<Rightarrow> bytes option" where
  "file_contents d name = map_option df_contents (map_of d name)"

definition validateBasename :: "string \<Rightarrow> go_error option" where
  "validateBasename basename =
     (if basename \<in> {[], ''.'', ''..''} then Some [ErrUnsupported]
      else each (\<lambda>c. check (c \<noteq> CHR 0x00 \<and> c \<noteq> CHR ''/'') [ErrUnsupported]) basename)"

section \<open>Opening beneath the directory\<close>

text \<open>
  Each attempt of \<^verbatim>\<open>openBeneathWithRetry\<close> is whether the context is live and the error of
  \<^verbatim>\<open>openat2\<close>, if any. Opening a name the directory does not hold is \<^verbatim>\<open>ENOENT\<close>.
\<close>

type_synonym open_script = "(bool \<times> errno option) list"

definition openat2AttemptLimit :: nat where
  "openat2AttemptLimit = 3"

definition classifyOpenat2Error :: "errno \<Rightarrow> go_error" where
  "classifyOpenat2Error e =
     (if e \<in> {ENOSYS, E2BIG, EINVAL, EOPNOTSUPP} then [ErrUnsupported]
      else if e = EXDEV then [ErrUnsupported]
      else [ErrDrifted])"

definition kernel_open :: "bool \<Rightarrow> errno option \<Rightarrow> errno option" where
  "kernel_open present answer =
     (case answer of Some e \<Rightarrow> Some e | None \<Rightarrow> if present then None else Some ENOENT)"

fun openBeneathWithRetry :: "nat \<Rightarrow> bool \<Rightarrow> open_script \<Rightarrow> go_error option" where
  "openBeneathWithRetry 0 present script = Some [ErrDrifted]"
| "openBeneathWithRetry (Suc n) present [] = map_option classifyOpenat2Error (kernel_open present None)"
| "openBeneathWithRetry (Suc n) present ((live, answer) # script) =
     (if \<not> live then Some [ErrInterrupted]
      else case kernel_open present answer of
          None \<Rightarrow> None
        | Some e \<Rightarrow> if e \<noteq> EAGAIN then Some (classifyOpenat2Error e) else openBeneathWithRetry n present script)"

definition openPublishedRecordBeneath :: "bool \<Rightarrow> open_script \<Rightarrow> go_error option" where
  "openPublishedRecordBeneath present script = openBeneathWithRetry openat2AttemptLimit present script"

section \<open>Reading and writing contents\<close>

text \<open>
  A \<^verbatim>\<open>read\<close> of a regular file fails or returns some of the bytes asked for; it returns none only
  at the end of the file.
\<close>

datatype read_result = Read_upto nat | Read_failed errno
type_synonym read_script = "(bool \<times> read_result) list"

definition kernel_read :: "nat \<Rightarrow> nat \<Rightarrow> bytes \<Rightarrow> bytes" where
  "kernel_read n wanted rest = take (min (max 1 n) wanted) rest"

text \<open>The check that a file ends here: one more byte is read.\<close>

definition read_end :: "read_script \<Rightarrow> bytes \<Rightarrow> go_error option" where
  "read_end script rest =
     (case script of
        [] \<Rightarrow> check (rest = []) driftedField
      | (live, answer) # _ \<Rightarrow>
        if \<not> live then Some [ErrInterrupted]
        else (case answer of
            Read_failed _ \<Rightarrow> Some [ErrDrifted]
          | Read_upto n \<Rightarrow> check (kernel_read n 1 rest = []) driftedField))"

definition verificationReadBufferBytes :: int where
  "verificationReadBufferBytes = 32768"

fun verifyPublishedContents :: "read_script \<Rightarrow> bytes \<Rightarrow> bytes \<Rightarrow> go_error option" where
  "verifyPublishedContents [] rest expected = check (rest = expected) driftedField"
| "verifyPublishedContents ((live, answer) # script) rest expected =
     (if expected = [] then read_end ((live, answer) # script) rest
      else if \<not> live then Some [ErrInterrupted]
      else case answer of
          Read_failed _ \<Rightarrow> Some [ErrDrifted]
        | Read_upto n \<Rightarrow>
          (let wanted = (if int (length expected) > verificationReadBufferBytes
               then nat verificationReadBufferBytes else length expected);
               got = kernel_read n wanted rest
           in if got \<noteq> take (length got) expected then Some driftedField
              else if got = [] then Some driftedField
              else verifyPublishedContents script (drop (length got) rest) (drop (length got) expected)))"

datatype write_result = Wrote int | WriteFailed errno

text \<open>
  \<^verbatim>\<open>writeDurableFileContents\<close>: the bytes that reached the file, and whether the loop failed (its
  callers wrap any failure the same way).
\<close>

fun writeDurableFileContents :: "(bool \<times> write_result) list \<Rightarrow> bytes \<Rightarrow> bytes \<times> bool" where
  "writeDurableFileContents [] contents = (contents, False)"
| "writeDurableFileContents ((live, result) # script) contents =
     (if contents = [] then ([], False)
      else if \<not> live then ([], True)
      else case result of
          WriteFailed _ \<Rightarrow> ([], True)
        | Wrote written \<Rightarrow>
            if written \<le> 0 \<or> written > int (length contents) then ([], True)
            else let (rest, failed) = writeDurableFileContents script (drop (nat written) contents)
                 in (take (nat written) contents @ rest, failed))"

section \<open>Verifying a published name\<close>

text \<open>What reopening a name by \<^verbatim>\<open>openat2\<close>, \<^verbatim>\<open>statx\<close> and \<^verbatim>\<open>read\<close> answers.\<close>

record file_view =
  fv_open :: open_script
  fv_statx :: "errno + statx"
  fv_reads :: read_script

text \<open>A descriptor the kernel returned is not negative; its number plays no other part.\<close>

definition held_descriptor :: int where
  "held_descriptor = 0"

definition verifyPublishedName ::
    "file_view \<Rightarrow> directory \<Rightarrow> string \<Rightarrow> filesystem_snapshot \<Rightarrow> bytes \<Rightarrow> go_error option" where
  "verifyPublishedName v d basename expected contents =
     (case openPublishedRecordBeneath (file_contents d basename \<noteq> None) (fv_open v) of
        Some e \<Rightarrow> Some e
      | None \<Rightarrow>
        (case SnapshotFD held_descriptor (fv_statx v) publishedFileIdentityMask of
           Inl e \<Rightarrow> Some e
         | Inr observed \<Rightarrow>
           checks [published_identity_check expected observed,
             verifyPublishedContents (fv_reads v) (the (file_contents d basename)) contents]))"

section \<open>Publication\<close>

record create_faults =
  cf_context_start :: bool
  cf_presync :: "errno option"
  cf_context_presync :: bool
  cf_open :: "errno option"
  cf_context_created :: bool
  cf_statx :: "errno + statx"
  cf_writes :: "(bool \<times> write_result) list"
  cf_syncFile :: "errno option"
  cf_close :: "errno option"
  cf_context_written :: bool
  cf_syncDirectory :: "errno option"
  cf_verify :: file_view

text \<open>
  \<^verbatim>\<open>publishFileDurableAtWith\<close>. The steps up to \<^verbatim>\<open>openat\<close> leave the directory alone; an
  occupied name is the kernel's \<^verbatim>\<open>EEXIST\<close>. After it every failure leaves the entry with the
  bytes written so far.
\<close>

definition publish_preflight :: "create_faults \<Rightarrow> int \<Rightarrow> directory \<Rightarrow> string \<Rightarrow> bytes \<Rightarrow> go_error option" where
  "publish_preflight f fd d basename contents = checks
     [contextError (cf_context_start f),
      check (\<not> fd < 0) [ErrUnsupported],
      validateBasename basename,
      check (int (length contents) \<le> maximumDurableFileBytes) [ErrUnsupported],
      map_option classifyPreflightDirectorySync (cf_presync f),
      contextError (cf_context_presync f),
      map_option classifyDurableOpenFailure
        (if basename \<in> set (entry_names d) then Some EEXIST else cf_open f)]"

definition created_entry :: "create_faults \<Rightarrow> string \<Rightarrow> bytes \<Rightarrow> directory \<Rightarrow> directory" where
  "created_entry f basename written d =
     d @ [(basename, \<lparr> df_contents = written, df_statx = fv_statx (cf_verify f) \<rparr>)]"

definition publish_created ::
    "create_faults \<Rightarrow> u32 \<Rightarrow> directory \<Rightarrow> string \<Rightarrow> bytes \<Rightarrow> go_error option \<times> directory" where
  "publish_created f euid d basename contents =
     (if \<not> cf_context_created f then (Some postCreateDurabilityError, created_entry f basename [] d)
      else case snapshotPublishedRegularFile euid held_descriptor (cf_statx f) of
          Inl e \<Rightarrow> (Some (postCreateIdentityError e), created_entry f basename [] d)
        | Inr identity \<Rightarrow>
          (let (written, failed) = writeDurableFileContents (cf_writes f) contents;
               d' = created_entry f basename written d
           in (checks
             [check (\<not> failed) postCreateDurabilityError,
              map_option (\<lambda>_. postCreateDurabilityError) (cf_syncFile f),
              map_option (\<lambda>_. postCreateDurabilityError) (cf_close f),
              check (cf_context_written f) postCreateDurabilityError,
              map_option (\<lambda>_. postCreateDurabilityError) (cf_syncDirectory f),
              map_option postCreateIdentityError
                (verifyPublishedName (cf_verify f) d' basename identity contents)], d')))"

definition publishFileDurableAtWith ::
    "create_faults \<Rightarrow> u32 \<Rightarrow> int \<Rightarrow> string \<Rightarrow> bytes \<Rightarrow> directory \<Rightarrow> go_error option \<times> directory" where
  "publishFileDurableAtWith f euid fd basename contents d =
     (case publish_preflight f fd d basename contents of
        Some e \<Rightarrow> (Some e, d)
      | None \<Rightarrow> publish_created f euid d basename contents)"

section \<open>What reading and writing establish\<close>

lemma file_contents_append:
  "name \<notin> set (entry_names d) \<Longrightarrow> file_contents (d @ [(name, f)]) name = Some (df_contents f)"
  "name' \<noteq> name \<Longrightarrow> file_contents (d @ [(name, f)]) name' = file_contents d name'"
  by (induction d) (auto simp: file_contents_def entry_names_def)

lemma entry_names_append [simp]: "entry_names (d @ e) = entry_names d @ entry_names e"
  "entry_names [] = []" "entry_names ((name, f) # d) = name # entry_names d"
  by (simp_all add: entry_names_def)

lemma kernel_read_nonempty: "kernel_read n wanted rest = [] \<longleftrightarrow> wanted = 0 \<or> rest = []"
  by (auto simp: kernel_read_def)

lemma kernel_read_prefix: "take (length (kernel_read n wanted rest)) rest = kernel_read n wanted rest"
  unfolding kernel_read_def by (metis append_eq_conv_conj append_take_drop_id)

lemma read_end_None: "read_end script rest = None \<Longrightarrow> rest = []"
  by (auto simp: read_end_def kernel_read_nonempty split: list.splits if_splits read_result.splits)

lemma verifyPublishedContents_None:
  "verifyPublishedContents script rest expected = None \<Longrightarrow> rest = expected"
proof (induction script rest expected rule: verifyPublishedContents.induct)
  case (2 live answer script rest expected)
  show ?case
  proof (cases "expected = []")
    case True
    with 2 show ?thesis using read_end_None by fastforce
  next
    case False
    with 2(2) obtain n where n: "live" "answer = Read_upto n" by (auto split: if_splits read_result.splits)
    define wanted where "wanted = (if int (length expected) > verificationReadBufferBytes
      then nat verificationReadBufferBytes else length expected)"
    define got where "got = kernel_read n wanted rest"
    have got: "got = take (length got) expected" and
      rec: "verifyPublishedContents script (drop (length got) rest) (drop (length got) expected) = None"
      and nonempty: "got \<noteq> []"
      using 2(2) False n unfolding verifyPublishedContents.simps Let_def got_def wanted_def
      by (simp_all split: if_splits)
    have "drop (length got) rest = drop (length got) expected"
      using 2(1) [OF False _ n(2) wanted_def got_def _ nonempty rec] n(1) got by simp
    moreover have "got = take (length got) rest"
      unfolding got_def by (rule kernel_read_prefix [symmetric])
    ultimately show ?thesis using got by (metis append_take_drop_id)
  qed
qed simp

lemma writeDurableFileContents_prefix:
  "writeDurableFileContents script contents = (written, failed) \<Longrightarrow>
     take (length written) contents = written \<and> (failed \<or> written = contents)"
proof (induction script contents arbitrary: written rule: writeDurableFileContents.induct)
  case (2 live result script contents)
  show ?case
  proof (cases "contents \<noteq> [] \<and> live \<and> (\<exists>n. result = Wrote n \<and> 0 < n \<and> n \<le> int (length contents))")
    case True
    then obtain n where n: "contents \<noteq> []" "live" "result = Wrote n" "0 < n" "n \<le> int (length contents)" by blast
    obtain rest where rest: "writeDurableFileContents script (drop (nat n) contents) = (rest, failed)"
      "written = take (nat n) contents @ rest"
      using 2(2) n by (auto split: prod.splits)
    have IH: "take (length rest) (drop (nat n) contents) = rest \<and> (failed \<or> rest = drop (nat n) contents)"
      using 2(1) [OF n(1) _ n(3)] n rest by auto
    then show ?thesis
      using rest n append_take_drop_id [of "nat n" contents] by (auto simp: take_add min_def)
  next
    case False
    with 2(2) show ?thesis by (auto split: if_splits write_result.splits)
  qed
qed simp

lemma checks_error:
  "list_all (pred_option P) es \<Longrightarrow> checks es = None \<or> (\<exists>e. checks es = Some e \<and> P e)"
  by (induction es rule: checks.induct) auto

lemma publish_created_outcome:
  assumes "publish_created f euid d name contents = (r, d')"
  shows "\<exists>w. d' = created_entry f name w d \<and> take (length w) contents = w \<and>
    (r = None \<and> w = contents \<or> (\<exists>e. r = Some e \<and> errors_Is e ErrInterrupted))"
proof -
  obtain w failed where w: "writeDurableFileContents (cf_writes f) contents = (w, failed)" by force
  consider (early) e where "r = Some e" "errors_Is e ErrInterrupted" "d' = created_entry f name [] d"
    | (written) identity where "d' = created_entry f name w d" "r = checks
             [check (\<not> failed) postCreateDurabilityError,
              map_option (\<lambda>_. postCreateDurabilityError) (cf_syncFile f),
              map_option (\<lambda>_. postCreateDurabilityError) (cf_close f),
              check (cf_context_written f) postCreateDurabilityError,
              map_option (\<lambda>_. postCreateDurabilityError) (cf_syncDirectory f),
              map_option postCreateIdentityError
                (verifyPublishedName (cf_verify f) d' name identity contents)]"
    using assms w by (auto simp: publish_created_def Let_def split: if_splits sum.splits)
  then show ?thesis
  proof cases
    case early
    then show ?thesis by (intro exI [of _ "[]"]) simp
  next
    case written
    have "r = None \<or> (\<exists>e. r = Some e \<and> errors_Is e ErrInterrupted)"
      unfolding written(2)
      by (rule checks_error) (simp add: check_def option.pred_map option.pred_True comp_def)
    moreover have "\<not> failed" if "r = None"
      using that unfolding written(2) checks_Cons by simp
    ultimately show ?thesis
      using writeDurableFileContents_prefix [OF w] written(1) by blast
  qed
qed

section \<open>Properties\<close>

text \<open>
  C23: publication never replaces and never disguises a possible effect. Either it fails and the
  directory is untouched, or the name was free and the directory gains exactly one last entry with a
  prefix of the contents; then it either reports success and the entry holds all of them, or
  reports an error that is \<^verbatim>\<open>ErrInterrupted\<close>, the sign to reconcile.
\<close>

theorem publish_no_replace:
  "case publishFileDurableAtWith f euid fd name contents d of (r, d') \<Rightarrow>
     (\<exists>e. r = Some e \<and> d' = d) \<or>
     (\<exists>file. d' = d @ [(name, file)] \<and> name \<notin> set (entry_names d) \<and>
        take (length (df_contents file)) contents = df_contents file \<and>
        (r = None \<and> df_contents file = contents \<or> (\<exists>e. r = Some e \<and> errors_Is e ErrInterrupted)))"
proof (cases "publish_preflight f fd d name contents")
  case None
  then have free: "name \<notin> set (entry_names d)"
    by (auto simp: publish_preflight_def checks_Cons)
  obtain r d' where "publish_created f euid d name contents = (r, d')" by force
  with free publish_created_outcome [OF this] None show ?thesis
    by (auto simp: publishFileDurableAtWith_def created_entry_def)
next
  case (Some e)
  then show ?thesis by (simp add: publishFileDurableAtWith_def)
qed

end
