(* ===== verification/PrivateLedger.thy ===== *)
theory PrivateLedger
  imports LedgerRecordID DurableFile
begin

text \<open>
  \<^verbatim>\<open>src/internal/linuxfs/private_ledger_linux.go\<close>: listing and reading the records of the
  private directory, the lock file whose initialization marks a ledger, the start of a session and
  its three operations. The state is the directory. The lock is exclusive for writers, so nothing
  else changes the directory during a session; what the context, the lease authority and the kernel
  answer is an input.
\<close>

section \<open>Listing records\<close>

text \<open>
  The scan reads the directory in batches: \<open>sc_refill n\<close> is what happens just before the
  \<open>n\<close>-th entry, \<open>sc_open\<close> the answers of opening an entry by name.
\<close>

datatype refill = Refilled | Refill_cancelled | Refill_failed

record scan_faults =
  sc_context :: bool
  sc_directory :: "errno option"
  sc_refill :: "nat \<Rightarrow> refill"
  sc_open :: "string \<Rightarrow> open_script"

definition refill_error :: "refill \<Rightarrow> go_error option" where
  "refill_error r = (case r of Refilled \<Rightarrow> None | Refill_cancelled \<Rightarrow> Some [ErrInterrupted]
     | Refill_failed \<Rightarrow> Some [ErrDrifted])"

definition classifyPrivateLedgerLockOpen :: "errno \<Rightarrow> go_error" where
  "classifyPrivateLedgerLockOpen e =
     (if e \<in> {ELOOP, ENOTDIR, ENOENT} then [ErrDrifted]
      else if e \<in> {ENOSYS, EOPNOTSUPP, EROFS} then [ErrUnsupported]
      else if e \<in> {EINTR, EAGAIN} then [ErrInterrupted]
      else [ErrDrifted])"

definition validatePrivateLedgerRecordEntry :: "u32 \<Rightarrow> open_script \<Rightarrow> dir_file \<Rightarrow> go_error option" where
  "validatePrivateLedgerRecordEntry euid script file =
     (case openPublishedRecordBeneath True script of
        Some e \<Rightarrow> Some e
      | None \<Rightarrow> (case snapshotPrivateLedgerEntry euid held_descriptor (df_statx file) of
          Inl e \<Rightarrow> Some e
        | Inr _ \<Rightarrow> None))"

fun scan_directory ::
    "scan_faults \<Rightarrow> u32 \<Rightarrow> int \<Rightarrow> directory \<Rightarrow> nat \<Rightarrow> int \<Rightarrow> record_id list \<Rightarrow> go_error + record_id list" where
  "scan_directory f euid limit [] n entries records =
     (case refill_error (sc_refill f n) of Some e \<Rightarrow> Inl e | None \<Rightarrow> Inr records)"
| "scan_directory f euid limit ((name, file) # rest) n entries records =
     (case refill_error (sc_refill f n) of
        Some e \<Rightarrow> Inl e
      | None \<Rightarrow>
        if name = ''.'' \<or> name = ''..'' then scan_directory f euid limit rest (Suc n) entries records
        else if entries + 1 > maximumPrivateLedgerDirEntries then Inl [ErrUnsupported]
        else if \<not> has_prefix name privateLedgerNamespacePrefix
        then scan_directory f euid limit rest (Suc n) (entries + 1) records
        else if name = privateLedgerLockBasename
        then scan_directory f euid limit rest (Suc n) (entries + 1) records
        else if \<not> has_prefix name privateLedgerRecordPrefix then Inl [ErrUnsupported]
        else case privateLedgerRecordIDFromBasename name of
            None \<Rightarrow> Inl [ErrDrifted]
          | Some i \<Rightarrow>
            if int (length records) \<ge> limit then Inl [ErrUnsupported]
            else (case validatePrivateLedgerRecordEntry euid (sc_open f name) file of
                Some e \<Rightarrow> Inl e
              | None \<Rightarrow> scan_directory f euid limit rest (Suc n) (entries + 1) (records @ [i])))"

definition privateLedgerRecordIDsAt ::
    "scan_faults \<Rightarrow> u32 \<Rightarrow> int \<Rightarrow> directory \<Rightarrow> go_error + record_id list" where
  "privateLedgerRecordIDsAt f euid limit d =
     (if limit \<le> 0 \<or> limit > maximumPrivateLedgerRecords then Inl [ErrUnsupported]
      else case contextError (sc_context f) of
          Some e \<Rightarrow> Inl e
        | None \<Rightarrow> (case sc_directory f of
            Some e \<Rightarrow> Inl (classifyPrivateLedgerLockOpen e)
          | None \<Rightarrow> (case scan_directory f euid limit d 0 0 [] of
              Inl e \<Rightarrow> Inl e
            | Inr records \<Rightarrow> Inr (sort_key record_basename records))))"

section \<open>Reading a record\<close>

record read_faults =
  rf_open :: open_script
  rf_reads :: read_script
  rf_after :: "(errno + statx) option"

text \<open>
  The loop that fills the buffer: the bytes, what is left of the file and of the script. Without a
  script entry the rest is read at once, and a file shorter than the buffer ends the loop.
\<close>

fun read_record_loop ::
    "read_script \<Rightarrow> bytes \<Rightarrow> nat \<Rightarrow> go_error + (bytes \<times> bytes \<times> read_script)" where
  "read_record_loop [] rest wanted =
     (if length rest < wanted then Inl driftedField else Inr (take wanted rest, drop wanted rest, []))"
| "read_record_loop ((live, answer) # script) rest wanted =
     (if wanted = 0 then Inr ([], rest, (live, answer) # script)
      else if \<not> live then Inl [ErrInterrupted]
      else case answer of
          Read_failed _ \<Rightarrow> Inl [ErrDrifted]
        | Read_upto n \<Rightarrow>
          (let got = kernel_read n wanted rest
           in if got = [] then Inl driftedField
              else case read_record_loop script (drop (length got) rest) (wanted - length got) of
                  Inl e \<Rightarrow> Inl e
                | Inr (others, left, script') \<Rightarrow> Inr (got @ others, left, script')))"

definition readPrivateLedgerRecord ::
    "read_faults \<Rightarrow> u32 \<Rightarrow> record_id \<Rightarrow> int \<Rightarrow> directory \<Rightarrow> go_error + bytes" where
  "readPrivateLedgerRecord f euid i maximumBytes d =
     (case openPublishedRecordBeneath (file_contents d (record_basename i) \<noteq> None) (rf_open f) of
        Some e \<Rightarrow> Inl e
      | None \<Rightarrow>
        (let file = the (map_of d (record_basename i))
         in case snapshotPrivateLedgerEntry euid held_descriptor (df_statx file) of
            Inl e \<Rightarrow> Inl e
          | Inr before \<Rightarrow>
            if uint (u64_Value (fs_Size before)) > maximumBytes then Inl [ErrUnsupported]
            else (case read_record_loop (rf_reads f) (df_contents file) (unat (u64_Value (fs_Size before))) of
                Inl e \<Rightarrow> Inl e
              | Inr (contents, left, script) \<Rightarrow>
                (case read_end script left of
                   Some e \<Rightarrow> Inl e
                 | None \<Rightarrow>
                   (case snapshotPrivateLedgerEntry euid held_descriptor
                      (case rf_after f of Some answer \<Rightarrow> answer | None \<Rightarrow> df_statx file) of
                      Inl e \<Rightarrow> Inl e
                    | Inr after \<Rightarrow> if before \<noteq> after then Inl driftedField else Inr contents)))))"

section \<open>The lock file\<close>

definition privateLedgerLockContents :: bytes where
  "privateLedgerLockContents = bytes_of (''ldc-ledger-v1-lock'' @ [CHR 0x0A])"

definition snapshotPrivateLedgerNewLock :: "u32 \<Rightarrow> errno + statx \<Rightarrow> go_error option" where
  "snapshotPrivateLedgerNewLock euid answer =
     (case snapshotPrivateLedgerEntry euid held_descriptor answer of
        Inl e \<Rightarrow> Some e
      | Inr s \<Rightarrow> check (u64_Value (fs_Size s) = 0) driftedField)"

definition snapshotPrivateLedgerLockState ::
    "u32 \<Rightarrow> errno + statx \<Rightarrow> go_error + (filesystem_snapshot \<times> bool)" where
  "snapshotPrivateLedgerLockState euid answer =
     (case snapshotPrivateLedgerEntry euid held_descriptor answer of
        Inl e \<Rightarrow> Inl e
      | Inr s \<Rightarrow>
        if u64_Value (fs_Size s) = 0 then Inr (s, False)
        else if uint (u64_Value (fs_Size s)) \<noteq> int (length privateLedgerLockContents) then Inl driftedField
        else Inr (s, True))"

definition snapshotPrivateLedgerLock :: "u32 \<Rightarrow> errno + statx \<Rightarrow> go_error + filesystem_snapshot" where
  "snapshotPrivateLedgerLock euid answer =
     (case snapshotPrivateLedgerLockState euid answer of
        Inl e \<Rightarrow> Inl e
      | Inr (s, initialized) \<Rightarrow> if initialized then Inr s else Inl driftedField)"

definition verifyPrivateLedgerLock :: "file_view \<Rightarrow> directory \<Rightarrow> filesystem_snapshot \<Rightarrow> go_error option" where
  "verifyPrivateLedgerLock v d expected =
     verifyPublishedName v d privateLedgerLockBasename expected privateLedgerLockContents"

section \<open>Starting a session\<close>

record start_faults =
  st_preflight :: "errno option"
  st_create :: "errno option"
  st_created_statx :: "errno + statx"
  st_reopen :: "errno option"
  st_lock :: "(bool \<times> errno option \<times> bool) list"
  st_writes :: "(bool \<times> write_result) list"
  st_sync :: "errno option"
  st_syncDirectory :: "errno option"
  st_initialized_statx :: "errno + statx"
  st_verify :: file_view
  st_context :: bool
  st_preflight_scan :: scan_faults
  st_init_scan :: scan_faults
  st_scan :: scan_faults
  st_close :: "errno option"

text \<open>
  The state while the lock is opened: the directory with its lock file. \<open>lock_file\<close> is that entry.
\<close>

definition lock_file :: "directory \<Rightarrow> dir_file option" where
  "lock_file d = map_of d privateLedgerLockBasename"

definition set_lock_file :: "dir_file \<Rightarrow> directory \<Rightarrow> directory" where
  "set_lock_file file d = map (\<lambda>(name, old). (name, if name = privateLedgerLockBasename then file else old)) d"

text \<open>
  \<^verbatim>\<open>openPrivateLedgerLock\<close>: the identity and whether the lock is initialized, with the
  directory afterwards. A read-only open that finds no lock is the error \<open>Inl None\<close>, the
  \<^verbatim>\<open>ENOENT\<close> its caller asks for.
\<close>

definition openPrivateLedgerLock ::
    "start_faults \<Rightarrow> u32 \<Rightarrow> int \<Rightarrow> bool \<Rightarrow> directory \<Rightarrow>
     (go_error option + (filesystem_snapshot option \<times> bool)) \<times> directory" where
  "openPrivateLedgerLock f euid fd writable d =
     (let reopened = (\<lambda>file. case snapshotPrivateLedgerLockState euid (df_statx file) of
          Inl e \<Rightarrow> (Inl (Some e), d)
        | Inr (identity, initialized) \<Rightarrow> (Inr (Some identity, initialized), d))
      in
      if fd < 0 then (Inl (Some [ErrUnsupported]), d)
      else if \<not> writable then
        (case kernel_open (lock_file d \<noteq> None) (st_reopen f) of
           Some e \<Rightarrow> (Inl (if e = ENOENT then None else Some (classifyPrivateLedgerLockOpen e)), d)
         | None \<Rightarrow> reopened (the (lock_file d)))
      else
        (case lock_file d of
           None \<Rightarrow>
             (case st_create f of
                None \<Rightarrow>
                  (let d' = d @ [(privateLedgerLockBasename, \<lparr> df_contents = [], df_statx = st_created_statx f \<rparr>)]
                   in case snapshotPrivateLedgerNewLock euid (st_created_statx f) of
                       Some e \<Rightarrow> (Inl (Some (postCreateIdentityError e)), d')
                     | None \<Rightarrow> (Inr (None, False), d'))
              | Some e \<Rightarrow>
                  if e \<noteq> EEXIST then (Inl (Some (classifyPrivateLedgerLockOpen e)), d)
                  else (Inl (Some (classifyPrivateLedgerLockOpen ENOENT)), d))
         | Some file \<Rightarrow>
             (case st_reopen f of
                Some e \<Rightarrow> (Inl (Some (classifyPrivateLedgerLockOpen e)), d)
              | None \<Rightarrow> reopened file)))"

text \<open>The lock is released by closing the descriptor, so failures before it is held are only errors.\<close>

fun acquirePrivateLedgerLock :: "(bool \<times> errno option \<times> bool) list \<Rightarrow> go_error option" where
  "acquirePrivateLedgerLock [] = None"
| "acquirePrivateLedgerLock ((live, answer, waited) # attempts) =
     (if \<not> live then Some [ErrInterrupted]
      else case answer of
          None \<Rightarrow> None
        | Some e \<Rightarrow>
          if e \<noteq> EAGAIN
          then (if e \<in> {ENOSYS, EOPNOTSUPP, ENOLCK} then Some [ErrUnsupported]
                else if e = EINTR then acquirePrivateLedgerLock attempts
                else Some [ErrDrifted])
          else if \<not> waited then Some [ErrInterrupted]
          else acquirePrivateLedgerLock attempts)"

definition preflightPrivateLedgerInitialization ::
    "start_faults \<Rightarrow> u32 \<Rightarrow> directory \<Rightarrow> go_error option" where
  "preflightPrivateLedgerInitialization f euid d =
     (case kernel_open (lock_file d \<noteq> None) (st_preflight f) of
        None \<Rightarrow> map_option (\<lambda>_. []) (st_close f)
      | Some e \<Rightarrow>
        if e \<noteq> ENOENT then Some (classifyPrivateLedgerLockOpen e)
        else (case privateLedgerRecordIDsAt (st_preflight_scan f) euid maximumPrivateLedgerRecords d of
            Inl e \<Rightarrow> Some e
          | Inr records \<Rightarrow> check (records = []) [ErrDrifted]))"

definition classifyMissingReadOnlyLedger :: "start_faults \<Rightarrow> u32 \<Rightarrow> directory \<Rightarrow> go_error" where
  "classifyMissingReadOnlyLedger f euid d =
     (case privateLedgerRecordIDsAt (st_preflight_scan f) euid maximumPrivateLedgerRecords d of
        Inl e \<Rightarrow> e
      | Inr records \<Rightarrow> if records \<noteq> [] then [ErrDrifted] else [ErrLedgerNotInitialized])"

definition classifyPrivateLedgerSync :: "errno \<Rightarrow> go_error" where
  "classifyPrivateLedgerSync e =
     (if e \<in> {EBADF, EINVAL, EOPNOTSUPP, EROFS} then [ErrUnsupported] else [ErrInterrupted])"

definition initializePrivateLedgerLock :: "start_faults \<Rightarrow> directory \<Rightarrow> go_error option \<times> directory" where
  "initializePrivateLedgerLock f d =
     (let (written, failed) = writeDurableFileContents (map (\<lambda>(_, w). (True, w)) (st_writes f)) privateLedgerLockContents;
          d' = set_lock_file \<lparr> df_contents = written, df_statx = st_initialized_statx f \<rparr> d
      in (checks
        [check (\<not> failed) [ErrInterrupted],
         map_option classifyPrivateLedgerSync (st_sync f),
         map_option classifyPrivateLedgerSync (st_syncDirectory f)], d'))"

record ledger_session =
  ps_lease :: private_directory_lease
  ps_fd :: int
  ps_lockID :: filesystem_snapshot
  ps_writable :: bool
  ps_active :: bool

text \<open>The same calls under \<^verbatim>\<open>context.Background()\<close>, which is never done.\<close>

definition background :: "file_view \<Rightarrow> file_view" where
  "background v = \<lparr> fv_open = map (\<lambda>(_, a). (True, a)) (fv_open v), fv_statx = fv_statx v,
     fv_reads = map (\<lambda>(_, a). (True, a)) (fv_reads v) \<rparr>"

text \<open>The initialization of a new or empty lock, under the lock: the identity afterwards.\<close>

definition finish_lock ::
    "start_faults \<Rightarrow> u32 \<Rightarrow> bool \<Rightarrow> directory \<Rightarrow> (go_error + filesystem_snapshot) \<times> directory" where
  "finish_lock f euid writable d =
     (if \<not> writable then (Inl [ErrDrifted], d)
      else case privateLedgerRecordIDsAt (st_init_scan f) euid maximumPrivateLedgerRecords d of
          Inl e \<Rightarrow> (Inl e, d)
        | Inr records \<Rightarrow>
          if records \<noteq> [] then (Inl [ErrDrifted], d)
          else (case initializePrivateLedgerLock f d of
              (Some e, d') \<Rightarrow> (Inl e, d')
            | (None, d') \<Rightarrow>
              (case snapshotPrivateLedgerLock euid (st_initialized_statx f) of
                 Inl e \<Rightarrow> (Inl (postCreateIdentityError e), d')
               | Inr identity \<Rightarrow>
                 (case checks
                    [map_option postCreateIdentityError (verifyPrivateLedgerLock (background (st_verify f)) d' identity),
                     contextError (st_context f)] of
                    Some e \<Rightarrow> (Inl e, d')
                  | None \<Rightarrow> (Inr identity, d')))))"

definition startPrivateLedgerSession ::
    "start_faults \<Rightarrow> u32 \<Rightarrow> private_directory_lease \<Rightarrow> int \<Rightarrow> bool \<Rightarrow> directory \<Rightarrow>
     (go_error + ledger_session) \<times> directory" where
  "startPrivateLedgerSession f euid lease fd writable d =
     (case (if writable then preflightPrivateLedgerInitialization f euid d else None) of
        Some e \<Rightarrow> (Inl e, d)
      | None \<Rightarrow>
        (case openPrivateLedgerLock f euid fd writable d of
           (Inl None, d') \<Rightarrow> (Inl (classifyMissingReadOnlyLedger f euid d'), d')
         | (Inl (Some e), d') \<Rightarrow> (Inl e, d')
         | (Inr (lockID, initialized), d') \<Rightarrow>
           (case acquirePrivateLedgerLock (st_lock f) of
              Some e \<Rightarrow> (Inl e, d')
            | None \<Rightarrow>
              (case (if initialized
                     then (case verifyPrivateLedgerLock (st_verify f) d' (the lockID) of
                         Some e \<Rightarrow> (Inl e, d') | None \<Rightarrow> (Inr (the lockID), d'))
                     else finish_lock f euid writable d') of
                 (Inl e, d'') \<Rightarrow> (Inl e, d'')
               | (Inr identity, d'') \<Rightarrow>
                 (case privateLedgerRecordIDsAt (st_scan f) euid maximumPrivateLedgerRecords d'' of
                    Inl e \<Rightarrow> (Inl e, d'')
                  | Inr _ \<Rightarrow> (Inr \<lparr> ps_lease = lease, ps_fd = fd, ps_lockID = identity,
                      ps_writable = writable, ps_active = True \<rparr>, d''))))))"

section \<open>The operations of a session\<close>

text \<open>What one recheck of the session observes.\<close>

record recheck_view =
  rv_context :: bool
  rv_source :: layout_source
  rv_statx :: "errno + statx"
  rv_lock :: file_view

definition session_recheckLocked ::
    "ledger_session \<Rightarrow> u32 \<Rightarrow> recheck_view \<Rightarrow> directory \<Rightarrow> go_error option" where
  "session_recheckLocked s euid v d = checks
     [contextError (rv_context v),
      check (\<not> ps_fd s < 0) [ErrDrifted],
      lease_recheckLocked (ps_lease s) (rv_source v),
      lease_recheckFDLocked (ps_lease s) euid (ps_fd s) (rv_statx v),
      verifyPrivateLedgerLock (rv_lock v) d (ps_lockID s)]"

record session_faults =
  sf_context :: bool
  sf_enter :: recheck_view
  sf_scan :: scan_faults
  sf_create :: create_faults
  sf_published :: recheck_view
  sf_read :: read_faults
  sf_leave :: recheck_view

definition session_withActive ::
    "ledger_session \<Rightarrow> u32 \<Rightarrow> session_faults \<Rightarrow> (directory \<Rightarrow> (go_error + 'a) \<times> directory) \<Rightarrow> directory \<Rightarrow>
     (go_error + 'a) \<times> directory" where
  "session_withActive s euid f operation d =
     (case checks
        [contextError (sf_context f),
         check (ps_active s \<and> \<not> ps_fd s < 0) [ErrDrifted],
         session_recheckLocked s euid (sf_enter f) d] of
        Some e \<Rightarrow> (Inl e, d)
      | None \<Rightarrow>
          (case operation d of
             (Inl e, d') \<Rightarrow> (Inl e, d')
           | (Inr x, d') \<Rightarrow>
             (case session_recheckLocked s euid (sf_leave f) d' of
                Some e \<Rightarrow> (Inl e, d')
              | None \<Rightarrow> (Inr x, d'))))"

definition publish_step ::
    "ledger_session \<Rightarrow> u32 \<Rightarrow> session_faults \<Rightarrow> record_id \<Rightarrow> bytes \<Rightarrow> directory \<Rightarrow> (go_error + unit) \<times> directory" where
  "publish_step s euid f i contents d =
     (if \<not> ps_writable s then (Inl [ErrUnsupported], d)
      else case privateLedgerRecordIDsAt (sf_scan f) euid maximumPrivateLedgerRecords d of
          Inl e \<Rightarrow> (Inl e, d)
        | Inr records \<Rightarrow>
            if int (length records) \<ge> maximumPrivateLedgerRecords then (Inl [ErrUnsupported], d)
            else (case publishFileDurableAtWith (sf_create f) euid (ps_fd s) (record_basename i) contents d of
                (Some e, d') \<Rightarrow> (Inl e, d')
              | (None, d') \<Rightarrow> (case session_recheckLocked s euid (sf_published f) d' of
                    Some e \<Rightarrow> (Inl (postCreateIdentityError e), d')
                  | None \<Rightarrow> (Inr (), d'))))"

definition session_Publish ::
    "ledger_session \<Rightarrow> u32 \<Rightarrow> session_faults \<Rightarrow> record_id \<Rightarrow> bytes \<Rightarrow> directory \<Rightarrow> (go_error + unit) \<times> directory" where
  "session_Publish s euid f i contents d =
     (case record_id_validate i of
        Some e \<Rightarrow> (Inl e, d)
      | None \<Rightarrow>
        if int (length contents) > maximumDurableFileBytes then (Inl [ErrUnsupported], d)
        else session_withActive s euid f (publish_step s euid f i contents) d)"

definition session_Read ::
    "ledger_session \<Rightarrow> u32 \<Rightarrow> session_faults \<Rightarrow> record_id \<Rightarrow> int \<Rightarrow> directory \<Rightarrow> go_error + bytes" where
  "session_Read s euid f i maximumBytes d =
     (case record_id_validate i of
        Some e \<Rightarrow> Inl e
      | None \<Rightarrow>
        if maximumBytes \<le> 0 \<or> maximumBytes > maximumDurableFileBytes then Inl [ErrUnsupported]
        else fst (session_withActive s euid f
          (\<lambda>d. (readPrivateLedgerRecord (sf_read f) euid i maximumBytes d, d)) d))"

definition session_List ::
    "ledger_session \<Rightarrow> u32 \<Rightarrow> session_faults \<Rightarrow> int \<Rightarrow> directory \<Rightarrow> go_error + record_id list" where
  "session_List s euid f limit d =
     (if limit \<le> 0 \<or> limit > maximumPrivateLedgerRecords then Inl [ErrUnsupported]
      else fst (session_withActive s euid f (\<lambda>d. (privateLedgerRecordIDsAt (sf_scan f) euid limit d, d)) d))"

text \<open>\<^verbatim>\<open>deactivate\<close>, when the callback of the session returns.\<close>

definition session_deactivate :: "ledger_session \<Rightarrow> ledger_session" where
  "session_deactivate s = s \<lparr> ps_active := False, ps_fd := - 1 \<rparr>"

text \<open>
  \<^verbatim>\<open>withPrivateLedgerSession\<close>: the callback runs on an active session and its result stands
  unless it succeeded and releasing the lock failed. The second component of the state holds the
  variables of the caller that the callback assigns.
\<close>

record run_faults =
  run_context :: bool
  run_source :: layout_source
  run_start :: start_faults
  run_release :: "errno option"

definition withPrivateLedgerSession ::
    "u32 \<Rightarrow> run_faults \<Rightarrow> private_directory_lease \<Rightarrow> bool \<Rightarrow>
     (ledger_session \<Rightarrow> directory \<times> 'v \<Rightarrow> go_error option \<times> directory \<times> 'v) \<Rightarrow>
     directory \<times> 'v \<Rightarrow> go_error option \<times> directory \<times> 'v" where
  "withPrivateLedgerSession euid f lease writable callback st =
     (case checks [contextError (run_context f), check (pd_kind lease = LayoutPrivateState) [ErrUnsupported]] of
        Some e \<Rightarrow> (Some e, st)
      | None \<Rightarrow> lease_withFD lease euid (run_source f) (\<lambda>fd (d, captured).
          (case startPrivateLedgerSession (run_start f) euid lease fd writable d of
             (Inl e, d') \<Rightarrow> (Some e, (d', captured))
           | (Inr session, d') \<Rightarrow>
             (case callback session (d', captured) of
                (Some e, st') \<Rightarrow> (Some e, st')
              | (None, st') \<Rightarrow> (map_option (\<lambda>_. [ErrInterrupted]) (run_release f), st')))) st)"

section \<open>The records of a directory\<close>

definition directory_records :: "directory \<Rightarrow> record_id list" where
  "directory_records d = List.map_filter (\<lambda>(name, _). privateLedgerRecordIDFromBasename name) d"

lemma directory_records_simps [simp]:
  "directory_records [] = []"
  "directory_records ((name, file) # d) = (case privateLedgerRecordIDFromBasename name of
     Some i \<Rightarrow> i # directory_records d | None \<Rightarrow> directory_records d)"
  "directory_records (d @ e) = directory_records d @ directory_records e"
  by (simp_all add: directory_records_def map_filter_simps split: option.splits)
    (simp add: map_filter_def)

lemma not_a_record_name:
  "\<not> has_prefix name privateLedgerRecordPrefix \<Longrightarrow> privateLedgerRecordIDFromBasename name = None"
  by (simp add: privateLedgerRecordIDFromBasename_def)

lemma other_names_no_record [simp]:
  "privateLedgerRecordIDFromBasename ''.'' = None"
  "privateLedgerRecordIDFromBasename ''..'' = None"
  "privateLedgerRecordIDFromBasename privateLedgerLockBasename = None"
  by (rule not_a_record_name, simp add: has_prefix_def privateLedgerRecordPrefix_def privateLedgerLockBasename_def)+

lemma namespace_prefix:
  "has_prefix name privateLedgerRecordPrefix \<Longrightarrow> has_prefix name privateLedgerNamespacePrefix"
proof -
  assume "has_prefix name privateLedgerRecordPrefix"
  then have "take (length privateLedgerNamespacePrefix) (take (length privateLedgerRecordPrefix) name) =
      take (length privateLedgerNamespacePrefix) privateLedgerRecordPrefix"
    by (simp add: has_prefix_def)
  then show ?thesis
    by (simp add: has_prefix_def privateLedgerNamespacePrefix_def privateLedgerRecordPrefix_def)
qed

lemma scan_directory_Inr:
  "scan_directory f euid limit d n entries records = Inr rs \<Longrightarrow> int (length records) \<le> limit \<Longrightarrow>
     rs = records @ directory_records d \<and> int (length rs) \<le> limit"
proof (induction f euid limit d n entries records rule: scan_directory.induct)
  case (1 f euid limit n entries records)
  then show ?case by (auto split: option.splits)
next
  case (2 f euid limit name entry rest n entries records)
  have refill: "refill_error (sc_refill f n) = None"
    using "2.prems" by (auto split: option.splits)
  consider "name = ''.'' \<or> name = ''..''" | "name \<noteq> ''.''" "name \<noteq> ''..''" "\<not> has_prefix name privateLedgerNamespacePrefix"
    | "name = privateLedgerLockBasename" "name \<noteq> ''.''" "name \<noteq> ''..''" "has_prefix name privateLedgerNamespacePrefix"
    | "has_prefix name privateLedgerNamespacePrefix" "name \<noteq> privateLedgerLockBasename" "name \<noteq> ''.''" "name \<noteq> ''..''"
    by blast
  then show ?case
  proof cases
    case 1
    with 2 refill show ?thesis by auto
  next
    case 2
    then have none: "privateLedgerRecordIDFromBasename name = None"
      using not_a_record_name namespace_prefix by blast
    show ?thesis using 2 refill "2.prems" "2.IH"(2) none by (auto split: if_splits)
  next
    case 3
    then show ?thesis using refill "2.prems" "2.IH"(3) by (auto split: if_splits)
  next
    case 4
    then obtain i where "has_prefix name privateLedgerRecordPrefix" "privateLedgerRecordIDFromBasename name = Some i"
      "int (length records) < limit" "validatePrivateLedgerRecordEntry euid (sc_open f name) entry = None"
      using refill "2.prems" by (auto split: if_splits option.splits)
    then show ?thesis using 4 refill "2.prems" "2.IH"(4) by (auto split: if_splits)
  qed
qed

lemma privateLedgerRecordIDsAt_Inr:
  assumes "privateLedgerRecordIDsAt f euid limit d = Inr rs"
  shows "rs = sort_key record_basename (directory_records d)" "int (length rs) \<le> limit" "0 < limit"
proof -
  from assms have "0 < limit" by (auto simp: privateLedgerRecordIDsAt_def split: if_splits)
  moreover from assms obtain records where "scan_directory f euid limit d 0 0 [] = Inr records"
    "rs = sort_key record_basename records"
    by (auto simp: privateLedgerRecordIDsAt_def split: if_splits option.splits sum.splits)
  moreover note scan_directory_Inr [OF this(1)]
  ultimately show "rs = sort_key record_basename (directory_records d)" "int (length rs) \<le> limit" "0 < limit"
    by auto
qed

lemma set_directory_records:
  "set (directory_records d) = {i. record_id_validate i = None \<and> record_basename i \<in> set (entry_names d)}"
proof -
  have "i \<in> set (directory_records d) \<longleftrightarrow> (\<exists>name \<in> set (entry_names d). privateLedgerRecordIDFromBasename name = Some i)" for i
    by (force simp: directory_records_def entry_names_def map_filter_def)
  then show ?thesis by (auto simp: parsed_name_iff)
qed

lemma distinct_directory_records: "distinct (entry_names d) \<Longrightarrow> distinct (directory_records d)"
proof (induction d)
  case (Cons entry d)
  then show ?case
    by (cases entry) (auto simp: set_directory_records parsed_name_iff split: option.splits)
qed simp

section \<open>Reading is exact\<close>

lemma read_record_loop_Inr:
  "read_record_loop script rest wanted = Inr (c, left, script') \<Longrightarrow> c @ left = rest \<and> length c = wanted"
proof (induction script rest wanted arbitrary: c rule: read_record_loop.induct)
  case (1 rest wanted)
  then show ?case by (auto split: if_splits)
next
  case (2 live answer script rest wanted)
  show ?case
  proof (cases "wanted = 0")
    case True
    with 2(2) show ?thesis by simp
  next
    case False
    with 2(2) obtain n where n: "live" "answer = Read_upto n" by (auto split: if_splits read_result.splits)
    define got where "got = kernel_read n wanted rest"
    obtain others where others: "read_record_loop script (drop (length got) rest) (wanted - length got) = Inr (others, left, script')"
      "c = got @ others" "got \<noteq> []"
      using 2(2) False n by (auto simp: got_def Let_def split: if_splits sum.splits)
    have IH: "others @ left = drop (length got) rest" "length others = wanted - length got"
      using 2(1) [OF False _ n(2) got_def others(3,1)] n(1) by simp_all
    have "length got \<le> wanted" by (simp add: got_def kernel_read_def)
    with IH(2) others(2) have "length c = wanted" by simp
    moreover have "c @ left = got @ drop (length got) rest" using IH(1) others(2) by simp
    moreover have "\<dots> = rest"
      using append_take_drop_id [of "length got" rest] kernel_read_prefix [of n wanted rest] by (simp add: got_def)
    ultimately show ?thesis by simp
  qed
qed

lemma openBeneathWithRetry_absent: "openBeneathWithRetry n False script \<noteq> None"
  by (induction n False script rule: openBeneathWithRetry.induct)
    (auto simp: kernel_open_def split: option.splits)

lemma readPrivateLedgerRecord_Inr:
  assumes "readPrivateLedgerRecord f euid i limit d = Inr c"
  shows "file_contents d (record_basename i) = Some c \<and> int (length c) \<le> limit"
proof -
  let ?name = "record_basename i"
  have opened: "openPublishedRecordBeneath (file_contents d ?name \<noteq> None) (rf_open f) = None"
    using assms by (auto simp: readPrivateLedgerRecord_def split: option.splits)
  then obtain entry where entry: "map_of d ?name = Some entry"
    using openBeneathWithRetry_absent by (cases "map_of d ?name")
      (auto simp: openPublishedRecordBeneath_def file_contents_def)
  with assms opened obtain before :: filesystem_snapshot and left script where
    "\<not> limit < uint (u64_Value (fs_Size before))"
    "read_record_loop (rf_reads f) (df_contents entry) (unat (u64_Value (fs_Size before))) = Inr (c, left, script)"
    "read_end script left = None"
    by (auto simp: readPrivateLedgerRecord_def Let_def split: sum.splits if_splits option.splits)
  note r = this
  have "c = df_contents entry" using read_record_loop_Inr [OF r(2)] read_end_None [OF r(3)] by simp
  moreover have "int (length c) = uint (u64_Value (fs_Size before))"
    using read_record_loop_Inr [OF r(2)] uint_nat by metis
  ultimately show ?thesis using r(1) entry by (simp add: file_contents_def)
qed

section \<open>What the session operations do\<close>

lemma session_withActive_Inr:
  "session_withActive s euid f operation d = (Inr x, d') \<Longrightarrow> operation d = (Inr x, d')"
  by (auto simp: session_withActive_def split: option.splits prod.splits sum.splits)

lemma session_withActive_Inl:
  "session_withActive s euid f operation d = (Inl e, d') \<Longrightarrow>
     d' = d \<or> operation d = (Inl e, d') \<or>
     (\<exists>x. operation d = (Inr x, d') \<and> session_recheckLocked s euid (sf_leave f) d' = Some e)"
  by (auto simp: session_withActive_def split: option.splits prod.splits sum.splits)

lemma session_Read_Inr:
  assumes "session_Read s euid f i limit d = Inr c"
  shows "record_id_validate i = None" "file_contents d (record_basename i) = Some c" "int (length c) \<le> limit"
proof -
  have valid: "record_id_validate i = None" "\<not> (limit \<le> 0 \<or> limit > maximumDurableFileBytes)"
    using assms by (auto simp: session_Read_def split: option.splits if_splits)
  then obtain d' where "session_withActive s euid f (\<lambda>d. (readPrivateLedgerRecord (sf_read f) euid i limit d, d)) d = (Inr c, d')"
    using assms by (auto simp: session_Read_def prod_eq_iff)
  from session_withActive_Inr [OF this] have "readPrivateLedgerRecord (sf_read f) euid i limit d = Inr c"
    by auto
  from readPrivateLedgerRecord_Inr [OF this] valid show "record_id_validate i = None"
    "file_contents d (record_basename i) = Some c" "int (length c) \<le> limit" by auto
qed

lemma session_List_Inr:
  assumes "session_List s euid f limit d = Inr rs"
  shows "rs = sort_key record_basename (directory_records d)" "int (length rs) \<le> limit" "0 < limit"
proof -
  obtain d' where "session_withActive s euid f (\<lambda>d. (privateLedgerRecordIDsAt (sf_scan f) euid limit d, d)) d = (Inr rs, d')"
    using assms by (auto simp: session_List_def prod_eq_iff split: if_splits)
  from session_withActive_Inr [OF this] have "privateLedgerRecordIDsAt (sf_scan f) euid limit d = Inr rs" by auto
  from privateLedgerRecordIDsAt_Inr [OF this]
  show "rs = sort_key record_basename (directory_records d)" "int (length rs) \<le> limit" "0 < limit" .
qed

definition published :: "string \<Rightarrow> bytes \<Rightarrow> directory \<Rightarrow> directory \<Rightarrow> bool" where
  "published name contents d d' \<longleftrightarrow> name \<notin> set (entry_names d) \<and>
     (\<exists>entry. d' = d @ [(name, entry)] \<and> take (length (df_contents entry)) contents = df_contents entry)"

lemma publishFileDurableAtWith_outcome:
  assumes "publishFileDurableAtWith f euid fd name contents d = (r, d')"
  shows "(\<exists>e. r = Some e) \<and> d' = d \<or>
    published name contents d d' \<and>
      (r = None \<and> file_contents d' name = Some contents \<or> (\<exists>e. r = Some e \<and> errors_Is e ErrInterrupted))"
proof (cases "publish_preflight f fd d name contents")
  case None
  then have free: "name \<notin> set (entry_names d)"
    by (auto simp: publish_preflight_def checks_Cons)
  with publish_created_outcome [of f euid d name contents r d'] None assms show ?thesis
    by (auto simp: publishFileDurableAtWith_def created_entry_def published_def file_contents_append)
next
  case (Some e)
  with assms show ?thesis by (auto simp: publishFileDurableAtWith_def)
qed

lemma publish_step_outcome:
  assumes "publish_step s euid f i contents d = (r, d')"
  shows "(\<exists>e. r = Inl e) \<and> d' = d \<or> published (record_basename i) contents d d' \<and> int (length (directory_records d)) < 256 \<and>
    (r = Inr () \<and> file_contents d' (record_basename i) = Some contents \<or> (\<exists>e. r = Inl e \<and> errors_Is e ErrInterrupted))"
proof (cases "\<exists>rs. ps_writable s \<and> privateLedgerRecordIDsAt (sf_scan f) euid maximumPrivateLedgerRecords d = Inr rs \<and>
    int (length rs) < maximumPrivateLedgerRecords")
  case True
  obtain q d1 where q: "publishFileDurableAtWith (sf_create f) euid (ps_fd s) (record_basename i) contents d = (q, d1)"
    by force
  from True have "int (length (directory_records d)) < 256"
    using privateLedgerRecordIDsAt_Inr(1) by (fastforce simp: maximumPrivateLedgerRecords_def)
  with True assms q publishFileDurableAtWith_outcome [OF q] show ?thesis
    by (auto simp: publish_step_def split: option.splits)
next
  case False
  with assms show ?thesis by (auto simp: publish_step_def split: if_splits sum.splits)
qed

lemma session_Publish_outcome:
  assumes "session_Publish s euid f i contents d = (r, d')"
  shows "(\<exists>e. r = Inl e) \<and> d' = d \<or>
    record_id_validate i = None \<and> published (record_basename i) contents d d' \<and> int (length (directory_records d)) < 256 \<and>
    (r = Inr () \<and> file_contents d' (record_basename i) = Some contents \<or>
     (\<exists>e. r = Inl e \<and> errors_Is e ErrInterrupted) \<or>
     (\<exists>e. r = Inl e \<and> file_contents d' (record_basename i) = Some contents \<and>
        session_recheckLocked s euid (sf_leave f) d' = Some e))"
proof (cases "record_id_validate i = None \<and> int (length contents) \<le> maximumDurableFileBytes")
  case True
  then have run: "session_withActive s euid f (publish_step s euid f i contents) d = (r, d')"
    using assms by (simp add: session_Publish_def)
  show ?thesis
  proof (cases r)
    case (Inl e)
    with session_withActive_Inl [OF run [unfolded Inl]] True publish_step_outcome [of s euid f i contents d] show ?thesis
      by fastforce
  next
    case (Inr x)
    with session_withActive_Inr [OF run [unfolded Inr]] True publish_step_outcome [of s euid f i contents d] show ?thesis
      by fastforce
  qed
next
  case False
  with assms show ?thesis by (auto simp: session_Publish_def split: option.splits if_splits)
qed

section \<open>Starting a session keeps the records\<close>

definition other_entries :: "directory \<Rightarrow> directory" where
  "other_entries d = filter (\<lambda>(name, _). name \<noteq> privateLedgerLockBasename) d"

definition lock_uninitialized :: "u32 \<Rightarrow> directory \<Rightarrow> bool" where
  "lock_uninitialized euid d = (case lock_file d of
     None \<Rightarrow> True
   | Some entry \<Rightarrow> (case snapshotPrivateLedgerLockState euid (df_statx entry) of
       Inr (_, initialized) \<Rightarrow> \<not> initialized | Inl _ \<Rightarrow> False))"

lemma other_entries_simps [simp]:
  "other_entries (d @ [(privateLedgerLockBasename, entry)]) = other_entries d"
  "other_entries (set_lock_file entry d) = other_entries d"
  by (simp_all add: other_entries_def set_lock_file_def)
    (induction d, auto)

lemma openPrivateLedgerLock_other:
  "openPrivateLedgerLock f euid fd writable d = (r, d') \<Longrightarrow>
     other_entries d' = other_entries d \<and> (writable \<or> d' = d) \<and> (lock_file d = None \<or> d' = d)"
  by (auto simp: openPrivateLedgerLock_def Let_def split: if_splits option.splits sum.splits prod.splits)

lemma no_records: "privateLedgerRecordIDsAt f euid limit d = Inr [] \<Longrightarrow> directory_records d = []"
  by (drule privateLedgerRecordIDsAt_Inr(1)) (metis set_empty set_sort)

lemma finish_lock_other:
  "finish_lock f euid writable d = (r, d') \<Longrightarrow>
     other_entries d' = other_entries d \<and> (writable \<or> d' = d) \<and>
     (directory_records d = [] \<or> d' = d \<and> (\<exists>e. r = Inl e))"
  by (auto simp: finish_lock_def initializePrivateLedgerLock_def Let_def dest: no_records
      split: if_splits option.splits sum.splits prod.splits)

lemma preflight_records:
  "preflightPrivateLedgerInitialization f euid d = None \<Longrightarrow> lock_file d = None \<Longrightarrow> directory_records d = []"
  by (auto simp: preflightPrivateLedgerInitialization_def kernel_open_def dest: no_records
      split: option.splits if_splits sum.splits)

lemma openPrivateLedgerLock_uninitialized:
  "openPrivateLedgerLock f euid fd writable d = (Inr (lockID, True), d') \<Longrightarrow> lock_uninitialized euid d \<Longrightarrow> False"
  by (auto simp: openPrivateLedgerLock_def lock_uninitialized_def Let_def kernel_open_def
      split: if_splits option.splits sum.splits prod.splits)

lemma openPrivateLedgerLock_present:
  "openPrivateLedgerLock f euid fd writable d = (Inr q, d') \<Longrightarrow> writable \<or> lock_file d \<noteq> None"
  by (auto simp: openPrivateLedgerLock_def kernel_open_def Let_def split: if_splits option.splits)

lemma start_session_cases:
  assumes "startPrivateLedgerSession f euid lease fd writable d = (r, d')"
  shows "(\<exists>e. r = Inl e) \<and> d' = d \<or>
    (writable \<longrightarrow> preflightPrivateLedgerInitialization f euid d = None) \<and>
      ((\<exists>q. openPrivateLedgerLock f euid fd writable d = (Inl q, d')) \<and> (\<exists>e. r = Inl e) \<or>
       (\<exists>lockID initialized d1. openPrivateLedgerLock f euid fd writable d = (Inr (lockID, initialized), d1) \<and>
         (d' = d1 \<and> ((\<exists>e. r = Inl e) \<or> initialized) \<or>
          \<not> initialized \<and> (\<exists>q. finish_lock f euid writable d1 = (q, d') \<and> ((\<exists>e. q = Inl e) \<longrightarrow> (\<exists>e. r = Inl e))))))"
  using assms
  by (auto simp: startPrivateLedgerSession_def split: if_splits option.splits sum.splits prod.splits)

lemma start_missing:
  "writable \<longrightarrow> preflightPrivateLedgerInitialization f euid d = None \<Longrightarrow> lock_file d = None \<Longrightarrow> writable \<Longrightarrow>
     directory_records d = []"
  using preflight_records by blast

lemma start_locked:
  assumes pre: "writable \<longrightarrow> preflightPrivateLedgerInitialization f euid d = None"
    and opened: "openPrivateLedgerLock f euid fd writable d = (Inr (lockID, initialized), d1)"
    and rest: "d' = d1 \<and> ((\<exists>e. r = Inl e) \<or> initialized) \<or>
      \<not> initialized \<and> (\<exists>q. finish_lock f euid writable d1 = (q, d') \<and> ((\<exists>e. q = Inl e) \<longrightarrow> (\<exists>e. r = Inl e)))"
  shows "other_entries d' = other_entries d \<and> (writable \<or> d' = d) \<and>
    (directory_records d \<noteq> [] \<and> lock_uninitialized euid d \<longrightarrow> d' = d \<and> (\<exists>e. r = Inl e))"
proof -
  note kept = openPrivateLedgerLock_other [OF opened]
  have d1: "d1 = d \<or> directory_records d = []"
    using kept openPrivateLedgerLock_present [OF opened] start_missing [OF pre] by metis
  have uninit: "\<not> initialized" if "lock_uninitialized euid d"
    using openPrivateLedgerLock_uninitialized that opened by metis
  from rest show ?thesis
  proof
    assume "d' = d1 \<and> ((\<exists>e. r = Inl e) \<or> initialized)"
    with kept d1 uninit show ?thesis by metis
  next
    assume "\<not> initialized \<and> (\<exists>q. finish_lock f euid writable d1 = (q, d') \<and> ((\<exists>e. q = Inl e) \<longrightarrow> (\<exists>e. r = Inl e)))"
    then obtain q where q: "finish_lock f euid writable d1 = (q, d')" "(\<exists>e. q = Inl e) \<longrightarrow> (\<exists>e. r = Inl e)"
      by blast
    from kept d1 finish_lock_other [OF q(1)] q(2) show ?thesis by metis
  qed
qed

lemma start_keeps_records:
  assumes "startPrivateLedgerSession f euid lease fd writable d = (r, d')"
  shows "other_entries d' = other_entries d \<and> (writable \<or> d' = d) \<and>
    (directory_records d \<noteq> [] \<and> lock_uninitialized euid d \<longrightarrow> d' = d \<and> (\<exists>e. r = Inl e))"
proof -
  from start_session_cases [OF assms] consider
      (refused) "(\<exists>e. r = Inl e) \<and> d' = d"
    | (opened) q where "writable \<longrightarrow> preflightPrivateLedgerInitialization f euid d = None"
        "openPrivateLedgerLock f euid fd writable d = (Inl q, d')" "\<exists>e. r = Inl e"
    | (locked) lockID initialized d1 where "writable \<longrightarrow> preflightPrivateLedgerInitialization f euid d = None"
        "openPrivateLedgerLock f euid fd writable d = (Inr (lockID, initialized), d1)"
        "d' = d1 \<and> ((\<exists>e. r = Inl e) \<or> initialized) \<or>
          \<not> initialized \<and> (\<exists>q. finish_lock f euid writable d1 = (q, d') \<and> ((\<exists>e. q = Inl e) \<longrightarrow> (\<exists>e. r = Inl e)))"
    by blast
  then show ?thesis
  proof cases
    case opened
    then show ?thesis
      using openPrivateLedgerLock_other [OF opened(2)] start_missing [OF opened(1)] by metis
  next
    case locked
    then show ?thesis by (rule start_locked)
  qed blast
qed

section \<open>Properties\<close>

text \<open>
  C22: starting a session never touches a record and never rebuilds a ledger around records it
  finds. Every entry but the lock stays as it is; a read-only session changes nothing; and when records
  exist while the lock is missing or still empty, the session is refused with the directory unchanged.
\<close>

theorem session_start_keeps_records:
  assumes "startPrivateLedgerSession f euid lease fd writable d = (r, d')"
  shows "other_entries d' = other_entries d \<and> (writable \<or> d' = d) \<and>
    (directory_records d \<noteq> [] \<and> lock_uninitialized euid d \<longrightarrow> d' = d \<and> (\<exists>e. r = Inl e))"
  by (rule start_keeps_records [OF assms])

text \<open>
  C19: the ledger is append-only and an error never hides a torn record. A publication either fails
  with the directory unchanged, or adds one last entry under the record's own name, which was free while
  fewer than 256 records existed. The entry holds a prefix of the frame; it is complete when the result
  is success. Otherwise the error is \<^verbatim>\<open>ErrInterrupted\<close>, with one exception: the recheck that
  ends the call can fail with its own error although the complete frame is already durable.
\<close>

theorem session_publish_append_only:
  "case session_Publish s euid f i contents d of (r, d') \<Rightarrow>
     (\<exists>e. r = Inl e) \<and> d' = d \<or>
     record_id_validate i = None \<and> published (record_basename i) contents d d' \<and>
     int (length (directory_records d)) < 256 \<and>
     (r = Inr () \<and> file_contents d' (record_basename i) = Some contents \<or>
      (\<exists>e. r = Inl e \<and> errors_Is e ErrInterrupted) \<or>
      (\<exists>e. r = Inl e \<and> file_contents d' (record_basename i) = Some contents \<and>
         session_recheckLocked s euid (sf_leave f) d' = Some e))"
  using session_Publish_outcome [of s euid f i contents d] by force

text \<open>
  C21: a listing is complete, exact and ordered. A successful \<^verbatim>\<open>List\<close> of a directory, whose
  entry names are distinct, returns every identity that has a file there and no other, once each, in the
  order of the file names, and no more than the limit asked for.
\<close>

theorem session_list_exact:
  assumes "distinct (entry_names d)" and "session_List s euid f limit d = Inr rs"
  shows "set rs = {i. record_id_validate i = None \<and> record_basename i \<in> set (entry_names d)} \<and>
    distinct rs \<and> sorted (map record_basename rs) \<and> int (length rs) \<le> limit"
  using session_List_Inr [OF assms(2)] distinct_directory_records [OF assms(1)]
  by (simp add: set_directory_records)

text \<open>
  C20: a record is read back exactly. Whatever the sizes of the single reads, a successful \<^verbatim>\<open>Read\<close>
  returns the whole file of a valid identity and nothing else, within the limit; after a successful
  \<^verbatim>\<open>Publish\<close> of that identity this is the published frame.
\<close>

theorem session_read_exact:
  assumes "session_Read s euid f i limit d' = Inr c"
  shows "record_id_validate i = None \<and> file_contents d' (record_basename i) = Some c \<and> int (length c) \<le> limit \<and>
    (session_Publish s' euid' f' i contents d = (Inr (), d') \<longrightarrow> c = contents)"
  using session_Read_Inr [OF assms] session_Publish_outcome [of s' euid' f' i contents d "Inr ()" d'] by auto

section \<open>Sessions without faults\<close>

text \<open>How a scan handles the two kinds of names of a ledger, and what an operation answers when every recheck succeeds.\<close>

lemma record_not_lock: "record_id_validate i = None \<Longrightarrow> record_basename i \<noteq> privateLedgerLockBasename"
  using parsed_name_iff [of privateLedgerLockBasename i] other_names_no_record(3) by auto

lemma record_name_facts:
  "record_basename i \<noteq> ''.''" "record_basename i \<noteq> ''..''" "has_prefix (record_basename i) privateLedgerNamespacePrefix"
    "has_prefix (record_basename i) privateLedgerRecordPrefix"
proof -
  show prefix: "has_prefix (record_basename i) privateLedgerRecordPrefix"
    by (simp add: record_basename_def)
  then show "has_prefix (record_basename i) privateLedgerNamespacePrefix" by (rule namespace_prefix)
  from prefix show "record_basename i \<noteq> ''.''" "record_basename i \<noteq> ''..''"
    by (auto simp: has_prefix_def privateLedgerRecordPrefix_def)
qed

lemma scan_record:
  "record_id_validate i = None \<Longrightarrow> scan_directory f euid limit ((record_basename i, file) # rest) n entries records =
     (case refill_error (sc_refill f n) of
        Some e \<Rightarrow> Inl e
      | None \<Rightarrow>
        if entries + 1 > maximumPrivateLedgerDirEntries then Inl [ErrUnsupported]
        else if int (length records) \<ge> limit then Inl [ErrUnsupported]
        else (case validatePrivateLedgerRecordEntry euid (sc_open f (record_basename i)) file of
            Some e \<Rightarrow> Inl e
          | None \<Rightarrow> scan_directory f euid limit rest (Suc n) (entries + 1) (records @ [i])))"
  by (cases "refill_error (sc_refill f n)") (simp_all add: record_name_facts record_not_lock record_name_roundtrip)

lemma scan_lock:
  "scan_directory f euid limit ((privateLedgerLockBasename, file) # rest) n entries records =
     (case refill_error (sc_refill f n) of
        Some e \<Rightarrow> Inl e
      | None \<Rightarrow>
        if entries + 1 > maximumPrivateLedgerDirEntries then Inl [ErrUnsupported]
        else scan_directory f euid limit rest (Suc n) (entries + 1) records)"
  by (simp add: privateLedgerLockBasename_def privateLedgerNamespacePrefix_def has_prefix_def)

lemma session_withActive_ok:
  assumes "sf_context f" "ps_active s" "0 \<le> ps_fd s" "session_recheckLocked s euid (sf_enter f) d = None"
    and "operation d = (Inr x, d')" "session_recheckLocked s euid (sf_leave f) d' = None"
  shows "session_withActive s euid f operation d = (Inr x, d')"
  using assms by (simp add: session_withActive_def contextError_def)

section \<open>A sample ledger\<close>

definition sample_id :: record_id where
  "sample_id = \<lparr> rid_actionBindingDigest = replicate 64 CHR ''a'', rid_token = ''ldc-'' @ replicate 64 CHR ''b'',
     rid_ordinal = 0 \<rparr>"

definition sample_view :: "u64 \<Rightarrow> file_view" where
  "sample_view bytes = \<lparr> fv_open = [(True, Some EAGAIN)], fv_statx = Inr (sample_statx 0x8180 1 bytes),
     fv_reads = [(True, Read_upto 2)] \<rparr>"

definition sample_scan :: scan_faults where
  "sample_scan = \<lparr> sc_context = True, sc_directory = None, sc_refill = (\<lambda>_. Refilled), sc_open = (\<lambda>_. []) \<rparr>"

definition sample_start :: start_faults where
  "sample_start = \<lparr> st_preflight = None, st_create = None, st_created_statx = Inr (sample_statx 0x8180 1 0),
     st_reopen = None, st_lock = [(True, Some EAGAIN, True)], st_writes = [(True, Wrote 4)], st_sync = None,
     st_syncDirectory = None, st_initialized_statx = Inr (sample_statx 0x8180 1 19), st_verify = sample_view 19,
     st_context = True, st_preflight_scan = sample_scan, st_init_scan = sample_scan, st_scan = sample_scan,
     st_close = None \<rparr>"

definition sample_lock :: dir_file where
  "sample_lock = \<lparr> df_contents = privateLedgerLockContents, df_statx = Inr (sample_statx 0x8180 1 19) \<rparr>"

definition sample_record :: dir_file where
  "sample_record = \<lparr> df_contents = [1, 2, 3], df_statx = Inr (sample_statx 0x8180 1 3) \<rparr>"

definition sample_directory :: directory where
  "sample_directory = [(privateLedgerLockBasename, sample_lock), (record_basename sample_id, sample_record)]"

definition sample_session :: ledger_session where
  "sample_session = \<lparr> ps_lease = sample_lease, ps_fd = 7, ps_lockID = sample_snapshot ''regular'' 0x8180 1 19,
     ps_writable = True, ps_active = True \<rparr>"

definition sample_recheck :: "bool \<Rightarrow> recheck_view" where
  "sample_recheck live = \<lparr> rv_context = live, rv_source = sample_layout, rv_statx = ls_Statx sample_layout,
     rv_lock = sample_view 19 \<rparr>"

definition sample_faults :: "recheck_view \<Rightarrow> session_faults" where
  "sample_faults leave = \<lparr> sf_context = True, sf_enter = sample_recheck True, sf_scan = sample_scan,
     sf_create = \<lparr> cf_context_start = True, cf_presync = None, cf_context_presync = True, cf_open = None,
       cf_context_created = True, cf_statx = Inr (sample_statx 0x8180 1 0), cf_writes = [(True, Wrote 2)],
       cf_syncFile = None, cf_close = None, cf_context_written = True, cf_syncDirectory = None,
       cf_verify = sample_view 3 \<rparr>,
     sf_published = sample_recheck True,
     sf_read = \<lparr> rf_open = [], rf_reads = [(True, Read_upto 2)], rf_after = None \<rparr>, sf_leave = leave \<rparr>"

lemma sample_session_start:
  "startPrivateLedgerSession sample_start 1000 sample_lease 7 True [] =
     (Inr sample_session, [(privateLedgerLockBasename, sample_lock)])"
  by code_simp

abbreviation sample_lock_entry :: "string \<times> dir_file" where
  "sample_lock_entry \<equiv> (privateLedgerLockBasename, sample_lock)"

lemma sample_recheck_ok:
  "session_recheckLocked (sample_session \<lparr> ps_writable := w \<rparr>) 1000 (sample_recheck True) (sample_lock_entry # rest) = None"
  by code_simp

lemma sample_fault_simps:
  "sf_context (sample_faults l) = True" "sf_enter (sample_faults l) = sample_recheck True" "sf_scan (sample_faults l) = sample_scan"
  "sf_leave (sample_faults l) = l" "sf_published (sample_faults l) = sample_recheck True"
  "sc_context sample_scan = True" "sc_directory sample_scan = None" "refill_error (sc_refill sample_scan n) = None" "sc_open sample_scan = (\<lambda>_. [])"
  by (simp_all add: sample_faults_def sample_scan_def refill_error_def)

lemma sample_active: "contextError True = None" "ps_active sample_session" "0 \<le> ps_fd sample_session" "ps_writable sample_session"
  by (simp_all add: contextError_def sample_session_def)

lemma sample_session_writable: "sample_session \<lparr> ps_writable := True \<rparr> = sample_session"
  by (simp add: sample_session_def)

lemma sample_with_active:
  assumes "operation (sample_lock_entry # rest) = (Inr x, sample_lock_entry # rest')"
    and "sf_context f" "sf_enter f = sample_recheck True" "sf_leave f = sample_recheck True"
  shows "session_withActive (sample_session \<lparr> ps_writable := w \<rparr>) 1000 f operation (sample_lock_entry # rest) = (Inr x, sample_lock_entry # rest')"
  by (rule session_withActive_ok; use assms in \<open>simp add: sample_active sample_recheck_ok\<close>)

lemmas sample_with_active_writable = sample_with_active [of _ _ _ _ _ True, unfolded sample_session_writable]

lemma sample_start_existing:
  assumes "privateLedgerRecordIDsAt sample_scan 1000 256 (sample_lock_entry # rest) = Inr ids"
  shows "startPrivateLedgerSession sample_start 1000 sample_lease 7 w (sample_lock_entry # rest) =
    (Inr (sample_session \<lparr> ps_writable := w \<rparr>), sample_lock_entry # rest)"
proof -
  have "preflightPrivateLedgerInitialization sample_start 1000 (sample_lock_entry # rest) = None"
    by code_simp
  moreover have "openPrivateLedgerLock sample_start 1000 7 w (sample_lock_entry # rest) = (Inr (Some (sample_snapshot ''regular'' 0x8180 1 19), True), sample_lock_entry # rest)"
    by (cases w; simp only:; code_simp)
  moreover have "acquirePrivateLedgerLock (st_lock sample_start) = None" by code_simp
  moreover have "verifyPrivateLedgerLock (st_verify sample_start) (sample_lock_entry # rest) (sample_snapshot ''regular'' 0x8180 1 19) = None" by code_simp
  moreover have "st_scan sample_start = sample_scan" by (simp add: sample_start_def)
  ultimately show ?thesis using assms
    by (simp add: startPrivateLedgerSession_def maximumPrivateLedgerRecords_def sample_session_def
        cong: option.case_cong sum.case_cong prod.case_cong)
qed

lemma sample_id_valid: "record_id_validate sample_id = None" "validatePrivateLedgerRecordEntry 1000 [] sample_record = None"
  by code_simp+

lemma sample_directory_scan:
  assumes "0 < limit" "limit \<le> 256"
  shows "privateLedgerRecordIDsAt sample_scan 1000 limit [sample_lock_entry] = Inr []"
    "privateLedgerRecordIDsAt sample_scan 1000 limit sample_directory = Inr [sample_id]"
  using assms
  by (simp_all add: privateLedgerRecordIDsAt_def sample_directory_def scan_lock scan_record sample_id_valid sample_fault_simps
     sample_active maximumPrivateLedgerRecords_def maximumPrivateLedgerDirEntries_def del: scan_directory.simps(2))

lemma sample_published:
  "publish_step sample_session 1000 (sample_faults l) sample_id [1, 2, 3] [sample_lock_entry] = (Inr (), sample_directory)"
proof -
  have "publishFileDurableAtWith (sf_create (sample_faults l)) 1000 7 (record_basename sample_id) [1, 2, 3] [sample_lock_entry] = (None, sample_directory)"
    by code_simp
  moreover have "session_recheckLocked sample_session 1000 (sample_recheck True) sample_directory = None"
    using sample_recheck_ok [of True] by (simp add: sample_directory_def sample_session_writable)
  moreover have "ps_fd sample_session = 7" by (simp add: sample_session_def)
  ultimately show ?thesis
    using sample_directory_scan(1) [of 256] by (simp add: publish_step_def sample_active sample_fault_simps maximumPrivateLedgerRecords_def)
qed

lemma sample_publish:
  "session_Publish sample_session 1000 (sample_faults (sample_recheck True)) sample_id [1, 2, 3]
     [(privateLedgerLockBasename, sample_lock)] = (Inr (), sample_directory)"
proof -
  have "session_withActive sample_session 1000 (sample_faults (sample_recheck True))
      (publish_step sample_session 1000 (sample_faults (sample_recheck True)) sample_id [1, 2, 3]) [sample_lock_entry] =
    (Inr (), sample_directory)"
    unfolding sample_directory_def
    by (rule sample_with_active_writable) (simp_all add: sample_published sample_fault_simps flip: sample_directory_def)
  then show ?thesis by (simp add: session_Publish_def sample_id_valid maximumDurableFileBytes_def)
qed

lemma sample_list:
  "session_List sample_session 1000 (sample_faults (sample_recheck True)) 5 sample_directory = Inr [sample_id]"
  using sample_directory_scan(2) [of 5]
  by (simp add: session_List_def sample_directory_def sample_with_active_writable sample_fault_simps maximumPrivateLedgerRecords_def)

lemma sample_read:
  "session_Read sample_session 1000 (sample_faults (sample_recheck True)) sample_id 100 sample_directory = Inr [1, 2, 3]"
proof -
  have "readPrivateLedgerRecord (sf_read (sample_faults (sample_recheck True))) 1000 sample_id 100 sample_directory = Inr [1, 2, 3]" by code_simp
  then show ?thesis
    by (simp add: session_Read_def sample_id_valid sample_directory_def sample_with_active_writable sample_fault_simps maximumDurableFileBytes_def)
qed

theorem session_start_keeps_records_witness:
  "\<exists>e. startPrivateLedgerSession sample_start 1000 sample_lease 7 True [(record_basename sample_id, sample_record)] =
     (Inl e, [(record_basename sample_id, sample_record)])"
proof -
  let ?d = "[(record_basename sample_id, sample_record)]"
  obtain r d' where run: "startPrivateLedgerSession sample_start 1000 sample_lease 7 True ?d = (r, d')" by force
  have "directory_records ?d \<noteq> [] \<and> lock_uninitialized 1000 ?d" by code_simp
  with session_start_keeps_records [OF run] run show ?thesis by blast
qed

theorem session_list_exact_witness:
  "distinct [sample_id] \<and> set [sample_id] =
     {i. record_id_validate i = None \<and> record_basename i \<in> set (entry_names sample_directory)}"
proof -
  have "distinct (entry_names sample_directory)" by code_simp
  from session_list_exact [OF this sample_list] show ?thesis by simp
qed

theorem session_read_exact_witness:
  "file_contents sample_directory (record_basename sample_id) = Some [1, 2, 3]"
  using session_read_exact [OF sample_read] by blast

text \<open>
  The recheck that ends a call comes too late to undo it. Whatever it answers, a publication that would have succeeded leaves the
  same directory with the complete record, and its result is exactly the recheck's own error. If the lock file is replaced at that moment, the
  error is \<^verbatim>\<open>ErrDrifted\<close> without \<^verbatim>\<open>ErrInterrupted\<close>, while a new session lists and reads the complete record.
\<close>

theorem publish_final_recheck:
  assumes "session_Publish s euid f i contents d = (Inr (), d')"
  shows "session_Publish s euid (f \<lparr> sf_leave := v \<rparr>) i contents d =
      (case session_recheckLocked s euid v d' of None \<Rightarrow> Inr () | Some e \<Rightarrow> Inl e, d') \<and>
    file_contents d' (record_basename i) = Some contents"
proof -
  have same: "sf_scan (f \<lparr> sf_leave := v \<rparr>) = sf_scan f" "sf_create (f \<lparr> sf_leave := v \<rparr>) = sf_create f"
    "sf_published (f \<lparr> sf_leave := v \<rparr>) = sf_published f" by simp_all
  have "publish_step s euid (f \<lparr> sf_leave := v \<rparr>) i contents d = publish_step s euid f i contents d"
    unfolding publish_step_def same by (rule refl)
  moreover have "publish_step s euid f i contents d = (Inr (), d')" "record_id_validate i = None"
    "\<not> int (length contents) > maximumDurableFileBytes"
    "checks [contextError (sf_context f), check (ps_active s \<and> \<not> ps_fd s < 0) [ErrDrifted], session_recheckLocked s euid (sf_enter f) d] = None"
    using assms by (auto simp: session_Publish_def session_withActive_def split: option.splits if_splits prod.splits sum.splits)
  ultimately have "session_Publish s euid (f \<lparr> sf_leave := v \<rparr>) i contents d =
      (case session_recheckLocked s euid v d' of None \<Rightarrow> Inr () | Some e \<Rightarrow> Inl e, d')"
    by (simp add: session_Publish_def session_withActive_def split: option.splits)
  with session_Publish_outcome [of s euid f i contents d] assms show ?thesis by auto
qed

lemma publish_drift_sample:
  "session_Publish sample_session 1000 (sample_faults (sample_recheck True \<lparr> rv_lock := sample_view 19 \<lparr> fv_open := [(True, Some ENOENT)] \<rparr> \<rparr>))
     sample_id [1, 2, 3] [(privateLedgerLockBasename, sample_lock)] = (Inl [ErrDrifted], sample_directory)"
  "session_List sample_session 1000 (sample_faults (sample_recheck True)) 5 sample_directory = Inr [sample_id]"
  "session_Read sample_session 1000 (sample_faults (sample_recheck True)) sample_id 100 sample_directory = Inr [1, 2, 3]"
proof -
  let ?leave = "sample_recheck True \<lparr> rv_lock := sample_view 19 \<lparr> fv_open := [(True, Some ENOENT)] \<rparr> \<rparr>"
  have "session_recheckLocked sample_session 1000 ?leave sample_directory = Some [ErrDrifted]" by code_simp
  then show "session_Publish sample_session 1000 (sample_faults ?leave) sample_id [1, 2, 3] [(privateLedgerLockBasename, sample_lock)] =
      (Inl [ErrDrifted], sample_directory)"
    using sample_recheck_ok [of True "[]"]
    by (simp add: session_Publish_def session_withActive_def sample_id_valid maximumDurableFileBytes_def sample_fault_simps
        sample_active sample_published sample_session_writable not_less)
qed (rule sample_list sample_read)+

end
