(* ===== verification/RecoveryBinding.thy ===== *)
theory RecoveryBinding
  imports DomainResult LedgerRecordID
begin

text \<open>
  \<^verbatim>\<open>src/internal/state/recovery_ledger.go\<close>, first part: the vocabularies of the recovery
  ledger and the binding of a recovery, the facts of an action that every frame repeats. The SHA-256 of
  the Go library and the action binding codec of \<^verbatim>\<open>planproto\<close> are fields of an environment.
  An error is the list of sentinels it wraps; \<open>marked\<close> is \<^verbatim>\<open>fmt.Errorf("%w: ...: %v", s, err)\<close>.
\<close>

section \<open>Vocabularies\<close>

type_synonym recovery_destination = string
type_synonym recovery_event = string
type_synonym recovery_outcome = string
type_synonym recovery_metadata = string

definition RecoveryDestinationTrash :: recovery_destination where "RecoveryDestinationTrash = ''trash''"
definition RecoveryDestinationQuarantine :: recovery_destination where "RecoveryDestinationQuarantine = ''quarantine''"

definition IntentReserved :: recovery_event where "IntentReserved = ''intent_reserved''"
definition MetadataDispatchRecorded :: recovery_event where "MetadataDispatchRecorded = ''metadata_dispatch_recorded''"
definition MetadataVerified :: recovery_event where "MetadataVerified = ''metadata_verified''"
definition MetadataIndeterminate :: recovery_event where "MetadataIndeterminate = ''metadata_indeterminate''"
definition MoveDispatchRecorded :: recovery_event where "MoveDispatchRecorded = ''move_dispatch_recorded''"
definition MoveVerified :: recovery_event where "MoveVerified = ''move_verified''"
definition MoveIndeterminate :: recovery_event where "MoveIndeterminate = ''move_indeterminate''"
definition RestoreDispatchRecorded :: recovery_event where "RestoreDispatchRecorded = ''restore_dispatch_recorded''"
definition RestoreVerified :: recovery_event where "RestoreVerified = ''restore_verified''"
definition RestoreIndeterminate :: recovery_event where "RestoreIndeterminate = ''restore_indeterminate''"
definition ReconciliationResolved :: recovery_event where "ReconciliationResolved = ''reconciliation_resolved''"

definition OutcomeNotApplied :: recovery_outcome where "OutcomeNotApplied = ''not_applied''"
definition OutcomeMoveVerified :: recovery_outcome where "OutcomeMoveVerified = ''move_verified''"
definition OutcomeRestoreVerified :: recovery_outcome where "OutcomeRestoreVerified = ''restore_verified''"

definition MetadataAbsent :: recovery_metadata where "MetadataAbsent = ''absent''"
definition MetadataRetained :: recovery_metadata where "MetadataRetained = ''retained''"

lemmas event_defs = IntentReserved_def MetadataDispatchRecorded_def MetadataVerified_def
  MetadataIndeterminate_def MoveDispatchRecorded_def MoveVerified_def MoveIndeterminate_def
  RestoreDispatchRecorded_def RestoreVerified_def RestoreIndeterminate_def ReconciliationResolved_def
lemmas recovery_vocabulary_defs = event_defs OutcomeNotApplied_def OutcomeMoveVerified_def
  OutcomeRestoreVerified_def MetadataAbsent_def MetadataRetained_def RecoveryDestinationTrash_def
  RecoveryDestinationQuarantine_def

definition recovery_events :: "recovery_event list" where
  "recovery_events = [IntentReserved, MetadataDispatchRecorded, MetadataVerified, MetadataIndeterminate,
     MoveDispatchRecorded, MoveVerified, MoveIndeterminate, RestoreDispatchRecorded, RestoreVerified,
     RestoreIndeterminate, ReconciliationResolved]"

definition recovery_event_validate :: "recovery_event \<Rightarrow> go_error option" where
  "recovery_event_validate event = check (event \<in> set recovery_events) [ErrRecoveryUnsupported]"

definition recovery_destination_validate :: "recovery_destination \<Rightarrow> go_error option" where
  "recovery_destination_validate destination =
     check (destination \<in> {RecoveryDestinationTrash, RecoveryDestinationQuarantine}) [ErrRecoveryUnsupported]"

definition recovery_outcome_validate :: "recovery_outcome \<Rightarrow> go_error option" where
  "recovery_outcome_validate out =
     check (out \<in> {OutcomeNotApplied, OutcomeMoveVerified, OutcomeRestoreVerified}) [ErrRecoveryUnsupported]"

definition recovery_metadata_validate :: "recovery_metadata \<Rightarrow> go_error option" where
  "recovery_metadata_validate metadata =
     check (metadata \<in> {MetadataAbsent, MetadataRetained}) [ErrRecoveryUnsupported]"

lemma distinct_recovery_events: "distinct recovery_events"
  by (simp add: recovery_events_def event_defs)

definition marked :: "sentinel \<Rightarrow> 'e option \<Rightarrow> go_error option" where
  "marked s e = map_option (\<lambda>_. [s]) e"

lemma marked_None [verdict_simps, simp]: "marked s e = None \<longleftrightarrow> e = None"
  by (simp add: marked_def)

lemma gate_Inr [verdict_simps]: "(case v of Some e \<Rightarrow> Inl e | None \<Rightarrow> x) = Inr y \<longleftrightarrow> v = None \<and> x = Inr y"
  by (cases v) simp_all

definition failed :: "'e + 'a \<Rightarrow> 'e option" where
  "failed r = (case r of Inl e \<Rightarrow> Some e | Inr _ \<Rightarrow> None)"

lemma failed_None [verdict_simps, simp]: "failed r = None \<longleftrightarrow> (\<exists>x. r = Inr x)"
  by (cases r) (simp_all add: failed_def)

section \<open>Bindings\<close>

record binding_env =
  be_sha256 :: "bytes \<Rightarrow> bytes"
  be_encodeAction :: "action \<Rightarrow> plan_digest \<Rightarrow> bytes option"
  be_decodeAction :: "bytes \<Rightarrow> (action \<times> plan_digest) option"

record recovery_binding =
  rb_actionBindingDigest :: action_binding_digest
  rb_actionBindingPayload :: bytes
  rb_planDigest :: plan_digest
  rb_token :: string
  rb_root :: trusted_root_id
  rb_source :: byte_path
  rb_actionID :: action_id
  rb_actionKind :: action_kind
  rb_destination :: recovery_destination
  rb_precondition :: filesystem_precondition
  rb_trashLayoutBinding :: trash_layout_binding

definition recoveryLedgerSchemaVersionV1 :: u16 where "recoveryLedgerSchemaVersionV1 = 1"
definition recoveryLedgerSchemaVersionV2 :: u16 where "recoveryLedgerSchemaVersionV2 = 2"
definition maximumRecoveryFrameBytes :: int where "maximumRecoveryFrameBytes = 65536"
definition maximumRecoveryLedgerRecords :: int where "maximumRecoveryLedgerRecords = 128"
definition maximumRecoveryPathComponents :: int where "maximumRecoveryPathComponents = 128"
definition maximumRecoveryPathBytes :: int where "maximumRecoveryPathBytes = 16384"

definition ActionTrashPath :: action_kind where "ActionTrashPath = ''trash_path''"
definition ActionQuarantinePath :: action_kind where "ActionQuarantinePath = ''quarantine_path''"

text \<open>The path checks give plain errors, which wrap no sentinel.\<close>

fun path_bytes_check :: "int \<Rightarrow> bytes list \<Rightarrow> go_error option" where
  "path_bytes_check decodedBytes [] = None"
| "path_bytes_check decodedBytes (component # components) =
     (let total = decodedBytes + int (length component)
      in if total > maximumRecoveryPathBytes then Some [] else path_bytes_check total components)"

definition recovery_components_check :: "bytes list \<Rightarrow> go_error option" where
  "recovery_components_check components = checks
     [check (\<not> (length components = 0 \<or> int (length components) > maximumRecoveryPathComponents)) [],
      path_bytes_check 0 components]"

definition validateRecoveryPath :: "byte_path \<Rightarrow> go_error option" where
  "validateRecoveryPath path = checks
     [recovery_components_check (path_components path),
      map_option (\<lambda>_. []) (failed (byte_path_new (path_components path)))]"

definition cloneRecoveryPath :: "byte_path \<Rightarrow> byte_path" where
  "cloneRecoveryPath path = (case byte_path_new (path_components path) of
     Inl _ \<Rightarrow> \<lparr> path_components = [] \<rparr> | Inr cloned \<Rightarrow> cloned)"

definition cloneFilesystemPrecondition :: "filesystem_precondition \<Rightarrow> filesystem_precondition" where
  "cloneFilesystemPrecondition p =
     \<lparr> fp_Target = target_clone (fp_Target p), fp_Required = fp_Required p, fp_Snapshot = fp_Snapshot p \<rparr>"

text \<open>\<^verbatim>\<open>target.Kind == TargetFilesystem && target.Filesystem\<close> is this root and path.\<close>

definition target_is_source :: "target \<Rightarrow> trusted_root_id \<Rightarrow> byte_path \<Rightarrow> bool" where
  "target_is_source t root source =
     (tgt_Kind t = TargetFilesystem \<and>
      (case tgt_Filesystem t of None \<Rightarrow> False
       | Some f \<Rightarrow> ft_Root f = root \<and> byte_path_equal (ft_Path f) source))"

definition validateRecoveryAction :: "action \<Rightarrow> go_error option" where
  "validateRecoveryAction a = checks
     [marked ErrRecoveryUnsupported (action_validate a),
      check (a_Kind a = ActionTrashPath \<or> a_Kind a = ActionQuarantinePath) [ErrRecoveryUnsupported],
      check (tgt_Kind (a_Target a) = TargetFilesystem \<and> tgt_Filesystem (a_Target a) \<noteq> None) [ErrRecoveryUnsupported],
      check (pc_Kind (a_Precondition a) = PreconditionFilesystemIdentity \<and> pc_Filesystem (a_Precondition a) \<noteq> None)
        [ErrRecoveryUnsupported],
      (case (tgt_Filesystem (a_Target a), pc_Filesystem (a_Precondition a)) of
         (Some f, Some p) \<Rightarrow> checks
           [check (target_is_source (fp_Target p) (ft_Root f) (ft_Path f)) [ErrRecoveryUnsupported],
            marked ErrRecoveryUnsupported (failed (RequiredStatMask (a_Kind a))),
            check (RequiredStatMask (a_Kind a) = Inr (fp_Required p)) [ErrRecoveryUnsupported],
            validateRecoveryPath (ft_Path f)]
       | _ \<Rightarrow> None)]"

definition destinationForAction :: "action_kind \<Rightarrow> recovery_destination" where
  "destinationForAction kind =
     (if kind = ActionQuarantinePath then RecoveryDestinationQuarantine else RecoveryDestinationTrash)"

definition validateTrashLayoutBindingForSchema ::
    "action_kind \<Rightarrow> trash_layout_binding \<Rightarrow> u16 \<Rightarrow> go_error option" where
  "validateTrashLayoutBindingForSchema kind binding schemaVersion =
     (if schemaVersion = recoveryLedgerSchemaVersionV1 then check (trash_layout_binding_is_zero binding) []
      else if schemaVersion = recoveryLedgerSchemaVersionV2 then
        (if kind = ActionTrashPath then map_option (\<lambda>_. []) (trash_layout_binding_validate binding)
         else if kind = ActionQuarantinePath then check (trash_layout_binding_is_zero binding) []
         else Some [])
      else Some [])"

definition newRecoveryBindingForSchema ::
    "'e binding_env_scheme \<Rightarrow> action \<Rightarrow> plan_digest \<Rightarrow> string \<Rightarrow> trash_layout_binding \<Rightarrow> u16 \<Rightarrow>
     go_error + recovery_binding" where
  "newRecoveryBindingForSchema env a planDigest token layout schemaVersion =
     (let cloned = action_clone a
      in case checks
        [validateRecoveryAction cloned,
         marked ErrRecoveryUnsupported (validateTrashLayoutBindingForSchema (a_Kind cloned) layout schemaVersion),
         marked ErrRecoveryUnsupported (plan_digest_validate planDigest)] of
        Some e \<Rightarrow> Inl e
      | None \<Rightarrow>
        (case be_encodeAction env cloned planDigest of
           None \<Rightarrow> Inl [ErrRecoveryUnsupported]
         | Some payload \<Rightarrow>
           (let digest = ComputeActionBindingDigest (be_sha256 env) payload;
                f = the (tgt_Filesystem (a_Target cloned))
            in case NewPrivateLedgerRecordID (hex_encode digest) token 0 of
              Inl _ \<Rightarrow> Inl [ErrRecoveryUnsupported]
            | Inr _ \<Rightarrow> Inr
                \<lparr> rb_actionBindingDigest = digest, rb_actionBindingPayload = payload, rb_planDigest = planDigest,
                  rb_token = token, rb_root = ft_Root f, rb_source = cloneRecoveryPath (ft_Path f),
                  rb_actionID = a_ID cloned, rb_actionKind = a_Kind cloned,
                  rb_destination = destinationForAction (a_Kind cloned),
                  rb_precondition = cloneFilesystemPrecondition (the (pc_Filesystem (a_Precondition cloned))),
                  rb_trashLayoutBinding = layout \<rparr>)))"

definition newRecoveryBinding ::
    "'e binding_env_scheme \<Rightarrow> action \<Rightarrow> plan_digest \<Rightarrow> string \<Rightarrow> trash_layout_binding \<Rightarrow> go_error + recovery_binding" where
  "newRecoveryBinding env a planDigest token layout =
     newRecoveryBindingForSchema env a planDigest token layout recoveryLedgerSchemaVersionV2"

definition sameFilesystemPrecondition :: "filesystem_precondition \<Rightarrow> filesystem_precondition \<Rightarrow> bool" where
  "sameFilesystemPrecondition left right =
     (fp_Required left = fp_Required right \<and> fp_Snapshot left = fp_Snapshot right \<and>
      tgt_Kind (fp_Target left) = tgt_Kind (fp_Target right) \<and>
      (case (tgt_Filesystem (fp_Target left), tgt_Filesystem (fp_Target right)) of
         (Some f, Some g) \<Rightarrow> ft_Root f = ft_Root g \<and> byte_path_equal (ft_Path f) (ft_Path g)
       | _ \<Rightarrow> False))"

definition sameRecoveryBinding :: "recovery_binding \<Rightarrow> recovery_binding \<Rightarrow> bool" where
  "sameRecoveryBinding left right =
     (rb_actionBindingDigest left = rb_actionBindingDigest right \<and>
      rb_actionBindingPayload left = rb_actionBindingPayload right \<and>
      rb_planDigest left = rb_planDigest right \<and>
      rb_token left = rb_token right \<and>
      rb_root left = rb_root right \<and>
      byte_path_equal (rb_source left) (rb_source right) \<and>
      rb_actionID left = rb_actionID right \<and>
      rb_actionKind left = rb_actionKind right \<and>
      rb_destination left = rb_destination right \<and>
      sameFilesystemPrecondition (rb_precondition left) (rb_precondition right) \<and>
      rb_trashLayoutBinding left = rb_trashLayoutBinding right)"

definition validateRecoveryBindingForSchema ::
    "'e binding_env_scheme \<Rightarrow> recovery_binding \<Rightarrow> u16 \<Rightarrow> go_error option" where
  "validateRecoveryBindingForSchema env b schemaVersion = checks
     [marked ErrRecoveryCorrupt (action_binding_digest_validate (rb_actionBindingDigest b)),
      check (\<not> (length (rb_actionBindingPayload b) = 0 \<or>
        int (length (rb_actionBindingPayload b)) > maximumRecoveryFrameBytes)) [ErrRecoveryCorrupt],
      marked ErrRecoveryCorrupt (plan_digest_validate (rb_planDigest b)),
      marked ErrRecoveryCorrupt (trusted_root_id_validate (rb_root b)),
      marked ErrRecoveryCorrupt (validateRecoveryPath (rb_source b)),
      marked ErrRecoveryCorrupt (action_id_validate (rb_actionID b)),
      marked ErrRecoveryCorrupt (action_kind_validate (rb_actionKind b)),
      check (rb_actionKind b = ActionTrashPath \<or> rb_actionKind b = ActionQuarantinePath) [ErrRecoveryCorrupt],
      marked ErrRecoveryCorrupt
        (validateTrashLayoutBindingForSchema (rb_actionKind b) (rb_trashLayoutBinding b) schemaVersion),
      marked ErrRecoveryCorrupt (recovery_destination_validate (rb_destination b)),
      check (rb_destination b = destinationForAction (rb_actionKind b)) [ErrRecoveryCorrupt],
      marked ErrRecoveryCorrupt
        (failed (NewPrivateLedgerRecordID (hex_encode (rb_actionBindingDigest b)) (rb_token b) 0)),
      check (target_is_source (fp_Target (rb_precondition b)) (rb_root b) (rb_source b)) [ErrRecoveryCorrupt],
      marked ErrRecoveryCorrupt (failed (RequiredStatMask (rb_actionKind b))),
      check (RequiredStatMask (rb_actionKind b) = Inr (fp_Required (rb_precondition b))) [ErrRecoveryCorrupt],
      marked ErrRecoveryCorrupt (filesystem_precondition_validate (rb_precondition b)),
      (case be_decodeAction env (rb_actionBindingPayload b) of
         None \<Rightarrow> Some [ErrRecoveryCorrupt]
       | Some (boundAction, boundPlanDigest) \<Rightarrow> checks
         [check (boundPlanDigest = rb_planDigest b \<and>
            action_binding_digest_verify (be_sha256 env) (rb_actionBindingDigest b) (rb_actionBindingPayload b))
            [ErrRecoveryCorrupt],
          (case newRecoveryBindingForSchema env boundAction boundPlanDigest (rb_token b)
              (rb_trashLayoutBinding b) schemaVersion of
             Inl _ \<Rightarrow> Some [ErrRecoveryCorrupt]
           | Inr expected \<Rightarrow> check (sameRecoveryBinding expected b) [ErrRecoveryCorrupt])])]"

section \<open>What an accepted binding is\<close>

text \<open>An action the ledger can reserve, with its filesystem target and precondition.\<close>

definition recovery_action :: "action \<Rightarrow> filesystem_target \<Rightarrow> filesystem_precondition \<Rightarrow> bool" where
  "recovery_action a f p \<longleftrightarrow> action_validate a = None \<and> (a_Kind a = ActionTrashPath \<or> a_Kind a = ActionQuarantinePath) \<and>
     a_Target a = target_of_filesystem f \<and> filesystem_target_ok f \<and>
     a_Precondition a = precondition_of (FilesystemPView p) \<and> filesystem_precondition_validate p = None \<and>
     fp_Target p = target_of_filesystem f \<and> RequiredStatMask (a_Kind a) = Inr (fp_Required p) \<and>
     validateRecoveryPath (ft_Path f) = None"

lemma target_is_source_of:
  assumes "target_validate t = None"
  shows "target_is_source t root source \<longleftrightarrow> t = target_of_filesystem \<lparr> ft_Root = root, ft_Path = source \<rparr>"
  using assms
  by (auto simp: target_validate_None target_is_source_def target_of_filesystem_def target_of_manager_def
      TargetFilesystem_def TargetManagerObject_def)

lemma filesystem_target_eta: "\<lparr> ft_Root = ft_Root f, ft_Path = ft_Path f \<rparr> = f"
  by simp

lemma fp_target_valid: "filesystem_precondition_validate p = None \<Longrightarrow> target_validate (fp_Target p) = None"
  by (simp add: filesystem_precondition_validate_def checks_Cons)

lemma validateRecoveryAction_None:
  "validateRecoveryAction a = None \<longleftrightarrow> (\<exists>f p. recovery_action a f p)"
proof
  assume valid: "validateRecoveryAction a = None"
  then have v: "action_validate a = None" and k: "a_Kind a = ActionTrashPath \<or> a_Kind a = ActionQuarantinePath"
    and t: "tgt_Kind (a_Target a) = TargetFilesystem" and q: "pc_Kind (a_Precondition a) = PreconditionFilesystemIdentity"
    by (auto simp: validateRecoveryAction_def checks_Cons)
  note parts = action_validate_parts [OF v]
  obtain f where f: "a_Target a = target_of_filesystem f" "filesystem_target_ok f"
    using parts(2) t by (auto simp: target_validate_None target_of_manager_def TargetFilesystem_def TargetManagerObject_def)
  obtain p where p: "a_Precondition a = precondition_of (FilesystemPView p)" "filesystem_precondition_validate p = None"
  proof -
    from parts(4) obtain v where "a_Precondition a = precondition_of v" "precondition_view_validate v = None"
      by (auto simp: precondition_validate_None)
    with q precondition_kinds_distinct that show thesis by (cases v) (auto simp: no_pvariant_def)
  qed
  have sel: "tgt_Filesystem (a_Target a) = Some f" "pc_Filesystem (a_Precondition a) = Some p"
    by (simp_all add: f p target_of_filesystem_def)
  have "target_is_source (fp_Target p) (ft_Root f) (ft_Path f)" "RequiredStatMask (a_Kind a) = Inr (fp_Required p)"
    "validateRecoveryPath (ft_Path f) = None"
    using valid unfolding validateRecoveryAction_def checks_Cons sel by (simp_all add: checks_Cons)
  with target_is_source_of [OF fp_target_valid [OF p(2)]] v k f p have "recovery_action a f p"
    by (simp add: recovery_action_def filesystem_target_eta del: precondition_of.simps)
  then show "\<exists>f p. recovery_action a f p" by blast
next
  assume "\<exists>f p. recovery_action a f p"
  then obtain f p where r: "recovery_action a f p" by blast
  then have sel: "tgt_Filesystem (a_Target a) = Some f" "pc_Filesystem (a_Precondition a) = Some p"
    "tgt_Kind (a_Target a) = TargetFilesystem" "pc_Kind (a_Precondition a) = PreconditionFilesystemIdentity"
    by (simp_all add: recovery_action_def target_of_filesystem_def no_pvariant_def)
  have "target_is_source (fp_Target p) (ft_Root f) (ft_Path f)"
    using r by (simp add: recovery_action_def target_is_source_def target_of_filesystem_def)
  with r show "validateRecoveryAction a = None"
    unfolding validateRecoveryAction_def checks_Cons sel recovery_action_def by (auto simp: checks_Cons)
qed

text \<open>The binding of an action with a payload under a token.\<close>

definition binding_of ::
    "'e binding_env_scheme \<Rightarrow> action \<Rightarrow> filesystem_target \<Rightarrow> filesystem_precondition \<Rightarrow> bytes \<Rightarrow> plan_digest \<Rightarrow>
     string \<Rightarrow> trash_layout_binding \<Rightarrow> recovery_binding" where
  "binding_of env a f p payload planDigest token layout =
     \<lparr> rb_actionBindingDigest = ComputeActionBindingDigest (be_sha256 env) payload,
       rb_actionBindingPayload = payload, rb_planDigest = planDigest, rb_token = token, rb_root = ft_Root f,
       rb_source = ft_Path f, rb_actionID = a_ID a, rb_actionKind = a_Kind a,
       rb_destination = destinationForAction (a_Kind a), rb_precondition = p, rb_trashLayoutBinding = layout \<rparr>"

lemma cloned_recovery_action:
  assumes "validateRecoveryAction (action_clone a) = None"
  shows "action_clone a = a"
proof -
  from assms have "action_validate (action_clone a) = None"
    by (simp add: validateRecoveryAction_def checks_Cons)
  then show ?thesis using action_copy.validate_clone action_copy.clone_valid by blast
qed

lemma recovery_action_clones:
  assumes "recovery_action a f p"
  shows "action_clone a = a" "cloneRecoveryPath (ft_Path f) = ft_Path f" "cloneFilesystemPrecondition p = p"
proof -
  show "action_clone a = a" using assms action_copy.clone_valid by (simp add: recovery_action_def)
  show "cloneRecoveryPath (ft_Path f) = ft_Path f"
    using assms cloneBytePath_cases [of "ft_Path f"]
    by (simp add: recovery_action_def filesystem_target_ok_def cloneRecoveryPath_def cloneBytePath_def)
  have "filesystem_precondition_validate p = None" using assms by (simp add: recovery_action_def)
  from target_clone_valid [OF fp_target_valid [OF this]] show "cloneFilesystemPrecondition p = p"
    by (simp add: cloneFilesystemPrecondition_def)
qed

lemma newRecoveryBinding_Inr:
  "newRecoveryBindingForSchema env a planDigest token layout v = Inr b \<longleftrightarrow>
     (\<exists>f p payload. recovery_action a f p \<and> validateTrashLayoutBindingForSchema (a_Kind a) layout v = None \<and>
        planDigest \<noteq> zero_digest \<and> be_encodeAction env a planDigest = Some payload \<and>
        (\<exists>i. NewPrivateLedgerRecordID (hex_encode (ComputeActionBindingDigest (be_sha256 env) payload)) token 0 = Inr i) \<and>
        b = binding_of env a f p payload planDigest token layout)"
    (is "?new \<longleftrightarrow> ?ok")
proof
  assume new: ?new
  then have "validateRecoveryAction (action_clone a) = None"
    by (auto simp: newRecoveryBindingForSchema_def Let_def checks_Cons split: option.splits)
  note clone = cloned_recovery_action [OF this]
  with \<open>validateRecoveryAction (action_clone a) = None\<close> obtain f p where r: "recovery_action a f p"
    by (auto simp: validateRecoveryAction_None)
  then have sel: "the (tgt_Filesystem (a_Target a)) = f" "the (pc_Filesystem (a_Precondition a)) = p"
    by (simp_all add: recovery_action_def target_of_filesystem_def)
  from new show ?ok
    unfolding newRecoveryBindingForSchema_def Let_def clone sel recovery_action_clones [OF r]
    using r by (auto simp: checks_Cons digest_validate_None binding_of_def split: option.splits sum.splits)
next
  assume ?ok
  then obtain f p payload i where r: "recovery_action a f p"
    and ok: "validateTrashLayoutBindingForSchema (a_Kind a) layout v = None" "planDigest \<noteq> zero_digest"
      "be_encodeAction env a planDigest = Some payload"
      "NewPrivateLedgerRecordID (hex_encode (ComputeActionBindingDigest (be_sha256 env) payload)) token 0 = Inr i"
    and b: "b = binding_of env a f p payload planDigest token layout" by blast
  from r have valid: "validateRecoveryAction a = None" by (auto simp: validateRecoveryAction_None)
  from r have sel: "the (tgt_Filesystem (a_Target a)) = f" "the (pc_Filesystem (a_Precondition a)) = p"
    by (simp_all add: recovery_action_def target_of_filesystem_def)
  have pre: "checks [validateRecoveryAction a,
      marked ErrRecoveryUnsupported (validateTrashLayoutBindingForSchema (a_Kind a) layout v),
      marked ErrRecoveryUnsupported (plan_digest_validate planDigest)] = None"
    using valid ok by (simp add: checks_Cons digest_validate_None)
  show ?new
    unfolding newRecoveryBindingForSchema_def Let_def recovery_action_clones [OF r] sel pre
    by (simp add: ok b binding_of_def)
qed

lemma sameRecoveryBinding_eq:
  assumes "filesystem_precondition_validate (rb_precondition b) = None" "filesystem_precondition_validate (rb_precondition c) = None"
  shows "sameRecoveryBinding b c \<longleftrightarrow> b = c"
proof -
  have pre: "sameFilesystemPrecondition p q \<longleftrightarrow> p = q"
    if "filesystem_precondition_validate p = None" "filesystem_precondition_validate q = None" for p q
  proof -
    have kind: "tgt_Kind (fp_Target p) = TargetFilesystem" "tgt_Kind (fp_Target q) = TargetFilesystem"
      using that by (simp_all add: filesystem_precondition_validate_def checks_Cons)
    note valid = fp_target_valid [OF that(1)] fp_target_valid [OF that(2)]
    from kind valid obtain f g where "fp_Target p = target_of_filesystem f" "fp_Target q = target_of_filesystem g"
      by (auto simp: target_validate_None target_of_manager_def TargetFilesystem_def TargetManagerObject_def)
    then show ?thesis
      by (cases p; cases q; cases f; cases g) (auto simp: sameFilesystemPrecondition_def target_of_filesystem_def)
  qed
  show ?thesis
    using pre [OF assms] by (cases b; cases c) (auto simp: sameRecoveryBinding_def)
qed

lemma RequiredStatMask_recovery:
  "RequiredStatMask ActionTrashPath = Inr destructiveFilesystemMask"
  "RequiredStatMask ActionQuarantinePath = Inr destructiveFilesystemMask"
  by (simp_all add: RequiredStatMask_def ActionTrashPath_def ActionQuarantinePath_def)

lemma recovery_kind_valid:
  "action_kind_validate ActionTrashPath = None" "action_kind_validate ActionQuarantinePath = None"
  by (simp_all add: action_kind_validate_def action_kinds_def ActionTrashPath_def ActionQuarantinePath_def)

lemma binding_of_valid:
  assumes "newRecoveryBindingForSchema env a (rb_planDigest b) (rb_token b) (rb_trashLayoutBinding b) v = Inr b"
    and "be_decodeAction env (rb_actionBindingPayload b) = Some (a, rb_planDigest b)"
    and "rb_actionBindingDigest b \<noteq> zero_digest" "rb_actionBindingPayload b \<noteq> []"
    "int (length (rb_actionBindingPayload b)) \<le> maximumRecoveryFrameBytes"
  shows "validateRecoveryBindingForSchema env b v = None"
proof -
  from assms(1) obtain f p payload where r: "recovery_action a f p"
    and ok: "validateTrashLayoutBindingForSchema (a_Kind a) (rb_trashLayoutBinding b) v = None"
      "rb_planDigest b \<noteq> zero_digest" "be_encodeAction env a (rb_planDigest b) = Some payload"
      "\<exists>i. NewPrivateLedgerRecordID (hex_encode (ComputeActionBindingDigest (be_sha256 env) payload)) (rb_token b) 0 = Inr i"
    and b: "b = binding_of env a f p payload (rb_planDigest b) (rb_token b) (rb_trashLayoutBinding b)"
    by (auto simp: newRecoveryBinding_Inr)
  have fields: "rb_actionBindingDigest b = ComputeActionBindingDigest (be_sha256 env) payload"
    "rb_actionBindingPayload b = payload" "rb_root b = ft_Root f" "rb_source b = ft_Path f" "rb_actionID b = a_ID a"
    "rb_actionKind b = a_Kind a" "rb_destination b = destinationForAction (a_Kind a)" "rb_precondition b = p"
    by (subst b, simp add: binding_of_def)+
  have kind: "a_Kind a = ActionTrashPath \<or> a_Kind a = ActionQuarantinePath" using r by (simp add: recovery_action_def)
  have ids: "stable_id (ft_Root f)" "stable_id (a_ID a)"
    using r action_validate_parts(1) by (auto simp: recovery_action_def filesystem_target_ok_def)
  have dest: "recovery_destination_validate (destinationForAction k) = None" for k
    by (simp add: recovery_destination_validate_def destinationForAction_def)
  have "target_is_source (fp_Target p) (ft_Root f) (ft_Path f)"
    using r by (simp add: recovery_action_def target_is_source_def target_of_filesystem_def)
  then show ?thesis
    using assms(2-5) r ok kind ids dest assms(1) recovery_kind_valid
      sameRecoveryBinding_eq [of b b]
    unfolding validateRecoveryBindingForSchema_def checks_Cons checks_Nil check_None marked_None failed_None fields
      digest_validate_None id_validate_None
    by (auto simp: recovery_action_def action_binding_digest_verify_def checks_Cons fields)
qed

lemma valid_binding_of:
  assumes valid: "validateRecoveryBindingForSchema env b v = None"
  shows "\<exists>a. be_decodeAction env (rb_actionBindingPayload b) = Some (a, rb_planDigest b) \<and>
    newRecoveryBindingForSchema env a (rb_planDigest b) (rb_token b) (rb_trashLayoutBinding b) v = Inr b"
    "rb_actionBindingDigest b \<noteq> zero_digest" "rb_actionBindingPayload b \<noteq> []"
    "int (length (rb_actionBindingPayload b)) \<le> maximumRecoveryFrameBytes"
proof -
  note parts = valid [unfolded validateRecoveryBindingForSchema_def checks_Cons checks_Nil check_None marked_None]
  show "rb_actionBindingDigest b \<noteq> zero_digest" "rb_actionBindingPayload b \<noteq> []"
    "int (length (rb_actionBindingPayload b)) \<le> maximumRecoveryFrameBytes"
    using parts by (auto simp: digest_validate_None)
  obtain a expected where a: "be_decodeAction env (rb_actionBindingPayload b) = Some (a, rb_planDigest b)"
    "newRecoveryBindingForSchema env a (rb_planDigest b) (rb_token b) (rb_trashLayoutBinding b) v = Inr expected"
    "sameRecoveryBinding expected b"
    using parts by (auto simp: checks_Cons split: option.splits sum.splits)
  have "filesystem_precondition_validate (rb_precondition b) = None" using parts by blast
  moreover have "filesystem_precondition_validate (rb_precondition expected) = None"
    using a(2) by (auto simp: newRecoveryBinding_Inr recovery_action_def binding_of_def)
  ultimately have "expected = b" using a(3) sameRecoveryBinding_eq by blast
  with a show "\<exists>a. be_decodeAction env (rb_actionBindingPayload b) = Some (a, rb_planDigest b) \<and>
    newRecoveryBindingForSchema env a (rb_planDigest b) (rb_token b) (rb_trashLayoutBinding b) v = Inr b" by blast
qed

section \<open>Properties\<close>

text \<open>
  A stored binding is nothing but the projection of its payload. A binding validates exactly when
  its payload of at most 64 KiB decodes to a validated Trash or quarantine action with the stored plan
  digest and the ledger would build this very binding from that action, token and layout again; so no fact of
  a frame can be altered without being noticed.
\<close>

theorem recovery_binding_projection:
  "validateRecoveryBindingForSchema env b v = None \<longleftrightarrow>
     (\<exists>a. be_decodeAction env (rb_actionBindingPayload b) = Some (a, rb_planDigest b) \<and>
        newRecoveryBindingForSchema env a (rb_planDigest b) (rb_token b) (rb_trashLayoutBinding b) v = Inr b) \<and>
     rb_actionBindingDigest b \<noteq> zero_digest \<and> length (rb_actionBindingPayload b) \<in> {1..65536}"
proof -
  have len: "xs \<noteq> [] \<and> int (length xs) \<le> maximumRecoveryFrameBytes \<longleftrightarrow> length xs \<in> {1..65536}" for xs :: bytes
    by (cases xs) (auto simp: maximumRecoveryFrameBytes_def)
  show ?thesis
    using valid_binding_of [of env b v] binding_of_valid [of env _ b v] unfolding len [symmetric] by blast
qed

section \<open>A sample action and environment\<close>

definition sample_snapshot_of :: "u64 \<Rightarrow> filesystem_snapshot" where
  "sample_snapshot_of bytes = sample_snapshot ''regular'' 0x81A4 1 bytes"

definition sample_source :: filesystem_target where
  "sample_source = \<lparr> ft_Root = ''root-1'', ft_Path = \<lparr> path_components = [[0x61], [0x62]] \<rparr> \<rparr>"

definition sample_recovery_precondition :: filesystem_precondition where
  "sample_recovery_precondition = \<lparr> fp_Target = target_of_filesystem sample_source,
     fp_Required = destructiveFilesystemMask, fp_Snapshot = sample_snapshot_of 5 \<rparr>"

definition sample_trash_action :: action where
  "sample_trash_action = \<lparr> a_ID = ''a1'', a_Kind = ActionTrashPath, a_Target = target_of_filesystem sample_source,
     a_Evidence = [evidence_of (FilesystemView \<lparr> fe_Target = target_of_filesystem sample_source,
       fe_Snapshot = sample_snapshot_of 5 \<rparr>)],
     a_Precondition = precondition_of (FilesystemPView sample_recovery_precondition),
     a_Dependencies = [], a_Risk = ''low'', a_Reversibility = ''recoverable'',
     a_EstimatedEffect = no_size_facts, a_RequiredCapability = ''trash'',
     a_ProviderGuarantee = \<lparr> pg_Kind = GuaranteeReadOnlyInventory, pg_CoveredObjects = [] \<rparr>,
     a_ExpectedPostcondition = ''target_absent'' \<rparr>"

definition sample_plan_digest :: plan_digest where
  "sample_plan_digest = replicate 32 9"

definition sample_token :: string where
  "sample_token = ''ldc-'' @ replicate 64 CHR ''b''"

definition sample_layout_binding :: trash_layout_binding where
  "sample_layout_binding = replicate 32 5"

text \<open>
  The samples come in two kinds: a recovery of a move to the Trash and one of a move into quarantine. The
  abbreviations of the \<open>sample_\<close> family are the first kind.
\<close>

datatype sample_case = TrashCase | QuarantineCase

definition case_action :: "sample_case \<Rightarrow> action" where
  "case_action c = (case c of TrashCase \<Rightarrow> sample_trash_action
     | QuarantineCase \<Rightarrow> sample_trash_action \<lparr> a_Kind := ActionQuarantinePath \<rparr>)"

definition case_layout :: "sample_case \<Rightarrow> trash_layout_binding" where
  "case_layout c = (case c of TrashCase \<Rightarrow> sample_layout_binding | QuarantineCase \<Rightarrow> zero_digest)"

definition case_binding_env :: "sample_case \<Rightarrow> binding_env" where
  "case_binding_env c = \<lparr> be_sha256 = (\<lambda>_. replicate 32 1), be_encodeAction = (\<lambda>_ _. Some [7]),
     be_decodeAction = (\<lambda>_. Some (case_action c, sample_plan_digest)) \<rparr>"

definition case_binding :: "sample_case \<Rightarrow> recovery_binding" where
  "case_binding c = binding_of (case_binding_env c) (case_action c) sample_source sample_recovery_precondition [7]
     sample_plan_digest sample_token (case_layout c)"

abbreviation sample_binding_env :: binding_env where "sample_binding_env \<equiv> case_binding_env TrashCase"
abbreviation sample_binding :: recovery_binding where "sample_binding \<equiv> case_binding TrashCase"

lemma trash_case [simp]: "case_action TrashCase = sample_trash_action" "case_layout TrashCase = sample_layout_binding"
  by (simp_all add: case_action_def case_layout_def)

lemma case_recovery_action: "recovery_action (case_action c) sample_source sample_recovery_precondition"
proof (induction c)
  case TrashCase
  show ?case unfolding recovery_action_def by (intro conjI disjI1) code_simp+
next
  case QuarantineCase
  show ?case unfolding recovery_action_def by (intro conjI disjI2) code_simp+
qed

lemma sample_recovery_action: "recovery_action sample_trash_action sample_source sample_recovery_precondition"
  using case_recovery_action [of TrashCase] by simp

end
