(* ===== verification/RecoveryFrame.thy ===== *)
theory RecoveryFrame
  imports RecoveryBinding
begin

text \<open>
  \<^verbatim>\<open>src/internal/state/recovery_ledger.go\<close>, second part: one immutable frame of a recovery, its
  validation, its wire forms of schema versions 1 and 2, the strict codec and the digest that chains
  frames. The CBOR encoder and decoders, a third-party library, are fields of the environment: they
  map wire records to bytes and back.
\<close>

section \<open>Frames\<close>

record recovery_frame =
  fr_schemaVersion :: u16
  fr_binding :: recovery_binding
  fr_event :: recovery_event
  fr_ordinal :: u8
  fr_predecessor :: bytes
  fr_outcome :: recovery_outcome
  fr_metadata :: recovery_metadata

record recovery_transition =
  tr_Event :: recovery_event
  tr_Outcome :: recovery_outcome
  tr_Metadata :: recovery_metadata

definition linuxfsMaximumLedgerOrdinal :: u8 where
  "linuxfsMaximumLedgerOrdinal = 15"

definition validateOrdinaryTransition :: "recovery_transition \<Rightarrow> go_error option" where
  "validateOrdinaryTransition t = check (\<not> (tr_Outcome t \<noteq> [] \<or> tr_Metadata t \<noteq> [])) [ErrRecoveryUnsupported]"

definition validateRecoveryFrame :: "'e binding_env_scheme \<Rightarrow> recovery_frame \<Rightarrow> go_error option" where
  "validateRecoveryFrame env f = checks
     [check (fr_schemaVersion f \<in> {recoveryLedgerSchemaVersionV1, recoveryLedgerSchemaVersionV2}) [ErrRecoveryCorrupt],
      validateRecoveryBindingForSchema env (fr_binding f) (fr_schemaVersion f),
      marked ErrRecoveryCorrupt (recovery_event_validate (fr_event f)),
      check (fr_ordinal f \<le> linuxfsMaximumLedgerOrdinal) [ErrRecoveryCorrupt],
      (if fr_ordinal f = 0 then
         check (fr_event f = IntentReserved \<and> fr_predecessor f = zero_digest \<and> fr_outcome f = [] \<and> fr_metadata f = [])
           [ErrRecoveryCorrupt]
       else if fr_event f = IntentReserved \<or> fr_predecessor f = zero_digest then Some [ErrRecoveryCorrupt]
       else if fr_event f = ReconciliationResolved then checks
         [marked ErrRecoveryCorrupt (recovery_outcome_validate (fr_outcome f)),
          (if fr_metadata f \<noteq> [] then marked ErrRecoveryCorrupt (recovery_metadata_validate (fr_metadata f)) else None)]
       else marked ErrRecoveryCorrupt (validateOrdinaryTransition
         \<lparr> tr_Event = fr_event f, tr_Outcome = fr_outcome f, tr_Metadata = fr_metadata f \<rparr>))]"

section \<open>Wire forms\<close>

record uint32_fact_wire =
  w32_Known :: bool
  w32_Value :: u32

record uint64_fact_wire =
  w64_Known :: bool
  w64_Value :: u64

record int64_fact_wire =
  wi64_Known :: bool
  wi64_Value :: u64

record precondition_wire =
  wp_Required :: u32
  wp_DeviceMajor :: uint32_fact_wire
  wp_DeviceMinor :: uint32_fact_wire
  wp_Inode :: uint64_fact_wire
  wp_Type :: string
  wp_UID :: uint32_fact_wire
  wp_GID :: uint32_fact_wire
  wp_Mode :: uint32_fact_wire
  wp_LinkCount :: uint64_fact_wire
  wp_Size :: uint64_fact_wire
  wp_ModifiedAt :: int64_fact_wire
  wp_ChangedAt :: int64_fact_wire
  wp_MountID :: uint64_fact_wire

record frame_v1_wire =
  w_SchemaVersion :: u16
  w_ActionBindingDigest :: bytes
  w_ActionBindingPayload :: bytes
  w_PlanDigest :: bytes
  w_Token :: string
  w_Root :: string
  w_Source :: "bytes list"
  w_ActionID :: string
  w_ActionKind :: string
  w_Destination :: string
  w_Precondition :: precondition_wire
  w_Event :: string
  w_Ordinal :: u8
  w_PredecessorDigest :: bytes
  w_ReconciliationOutcome :: string
  w_MetadataDisposition :: string

text \<open>Version 2 has the fields of version 1 and the layout binding, absent when nil.\<close>

record frame_v2_wire = frame_v1_wire +
  w_TrashLayoutBinding :: "bytes option"

record frame_env = binding_env +
  fe_marshalV1 :: "frame_v1_wire \<Rightarrow> bytes option"
  fe_marshalV2 :: "frame_v2_wire \<Rightarrow> bytes option"
  fe_version :: "bytes \<Rightarrow> u16 option"
  fe_unmarshalV1 :: "bytes \<Rightarrow> frame_v1_wire option"
  fe_unmarshalV2 :: "bytes \<Rightarrow> frame_v2_wire option"

definition uint32FactToWire :: "uint32_fact \<Rightarrow> uint32_fact_wire" where
  "uint32FactToWire f = \<lparr> w32_Known = u32_Known f, w32_Value = u32_Value f \<rparr>"
definition uint64FactToWire :: "uint64_fact \<Rightarrow> uint64_fact_wire" where
  "uint64FactToWire f = \<lparr> w64_Known = u64_Known f, w64_Value = u64_Value f \<rparr>"
definition int64FactToWire :: "int64_fact \<Rightarrow> int64_fact_wire" where
  "int64FactToWire f = \<lparr> wi64_Known = i64_Known f, wi64_Value = i64_Value f \<rparr>"
definition uint32FactFromWire :: "uint32_fact_wire \<Rightarrow> uint32_fact" where
  "uint32FactFromWire w = \<lparr> u32_Known = w32_Known w, u32_Value = w32_Value w \<rparr>"
definition uint64FactFromWire :: "uint64_fact_wire \<Rightarrow> uint64_fact" where
  "uint64FactFromWire w = \<lparr> u64_Known = w64_Known w, u64_Value = w64_Value w \<rparr>"
definition int64FactFromWire :: "int64_fact_wire \<Rightarrow> int64_fact" where
  "int64FactFromWire w = \<lparr> i64_Known = wi64_Known w, i64_Value = wi64_Value w \<rparr>"

lemma fact_wire_roundtrip [codec_simps]:
  "uint32FactFromWire (uint32FactToWire f) = f"
  "uint64FactFromWire (uint64FactToWire g) = g"
  "int64FactFromWire (int64FactToWire h) = h"
  by (simp_all add: uint32FactFromWire_def uint32FactToWire_def uint64FactFromWire_def uint64FactToWire_def
      int64FactFromWire_def int64FactToWire_def)

definition toFilesystemPreconditionWire :: "filesystem_precondition \<Rightarrow> precondition_wire" where
  "toFilesystemPreconditionWire p = (let s = fp_Snapshot p in
     \<lparr> wp_Required = fp_Required p,
       wp_DeviceMajor = uint32FactToWire (fs_DeviceMajor s),
       wp_DeviceMinor = uint32FactToWire (fs_DeviceMinor s),
       wp_Inode = uint64FactToWire (fs_Inode s),
       wp_Type = fs_Type s,
       wp_UID = uint32FactToWire (fs_UID s),
       wp_GID = uint32FactToWire (fs_GID s),
       wp_Mode = uint32FactToWire (fs_Mode s),
       wp_LinkCount = uint64FactToWire (fs_LinkCount s),
       wp_Size = uint64FactToWire (fs_Size s),
       wp_ModifiedAt = int64FactToWire (fs_ModifiedAt s),
       wp_ChangedAt = int64FactToWire (fs_ChangedAt s),
       wp_MountID = uint64FactToWire (fs_MountID s) \<rparr>)"

definition fromFilesystemPreconditionWire ::
    "trusted_root_id \<Rightarrow> byte_path \<Rightarrow> precondition_wire \<Rightarrow> go_error + filesystem_precondition" where
  "fromFilesystemPreconditionWire root source w =
     (case NewFilesystemTarget root source of
        Inl _ \<Rightarrow> Inl [ErrRecoveryCorrupt]
      | Inr t \<Rightarrow> Inr
        \<lparr> fp_Target = t, fp_Required = wp_Required w,
          fp_Snapshot =
           \<lparr> fs_DeviceMajor = uint32FactFromWire (wp_DeviceMajor w),
             fs_DeviceMinor = uint32FactFromWire (wp_DeviceMinor w),
             fs_Inode = uint64FactFromWire (wp_Inode w),
             fs_Type = wp_Type w,
             fs_UID = uint32FactFromWire (wp_UID w),
             fs_GID = uint32FactFromWire (wp_GID w),
             fs_Mode = uint32FactFromWire (wp_Mode w),
             fs_LinkCount = uint64FactFromWire (wp_LinkCount w),
             fs_Size = uint64FactFromWire (wp_Size w),
             fs_ModifiedAt = int64FactFromWire (wp_ModifiedAt w),
             fs_ChangedAt = int64FactFromWire (wp_ChangedAt w),
             fs_MountID = uint64FactFromWire (wp_MountID w) \<rparr> \<rparr>)"

definition toRecoveryFrameWire :: "recovery_frame \<Rightarrow> frame_v1_wire" where
  "toRecoveryFrameWire f = (let b = fr_binding f in
     \<lparr> w_SchemaVersion = fr_schemaVersion f,
       w_ActionBindingDigest = rb_actionBindingDigest b,
       w_ActionBindingPayload = rb_actionBindingPayload b,
       w_PlanDigest = rb_planDigest b,
       w_Token = rb_token b,
       w_Root = rb_root b,
       w_Source = path_components (rb_source b),
       w_ActionID = rb_actionID b,
       w_ActionKind = rb_actionKind b,
       w_Destination = rb_destination b,
       w_Precondition = toFilesystemPreconditionWire (rb_precondition b),
       w_Event = fr_event f,
       w_Ordinal = fr_ordinal f,
       w_PredecessorDigest = fr_predecessor f,
       w_ReconciliationOutcome = fr_outcome f,
       w_MetadataDisposition = fr_metadata f \<rparr>)"

definition toRecoveryFrameV2Wire :: "recovery_frame \<Rightarrow> frame_v2_wire" where
  "toRecoveryFrameV2Wire f = frame_v1_wire.extend (toRecoveryFrameWire f)
     (frame_v2_wire.fields (if trash_layout_binding_is_zero (rb_trashLayoutBinding (fr_binding f)) then None
        else Some (rb_trashLayoutBinding (fr_binding f))))"

definition newBoundedRecoveryPath :: "bytes list \<Rightarrow> go_error + byte_path" where
  "newBoundedRecoveryPath components =
     (case recovery_components_check components of
        Some e \<Rightarrow> Inl e
      | None \<Rightarrow> (case byte_path_new components of Inl _ \<Rightarrow> Inl [] | Inr p \<Rightarrow> Inr p))"

definition fromRecoveryFrameWireWithTrashLayoutBinding ::
    "'e binding_env_scheme \<Rightarrow> 'w frame_v1_wire_scheme \<Rightarrow> trash_layout_binding \<Rightarrow> go_error + recovery_frame" where
  "fromRecoveryFrameWireWithTrashLayoutBinding env w layout =
     (case (newDigest (w_ActionBindingDigest w), newDigest (w_PlanDigest w),
         new_id trusted_root_id_validate (w_Root w), newBoundedRecoveryPath (w_Source w),
         new_id action_id_validate (w_ActionID w)) of
        (Inr bindingDigest, Inr planDigest, Inr root, Inr source, Inr actionID) \<Rightarrow>
          (case fromFilesystemPreconditionWire root source (w_Precondition w) of
             Inl e \<Rightarrow> Inl e
           | Inr precondition \<Rightarrow>
             if length (w_PredecessorDigest w) \<noteq> 32 then Inl [ErrRecoveryCorrupt]
             else
               (let frame =
                 \<lparr> fr_schemaVersion = w_SchemaVersion w,
                   fr_binding =
                    \<lparr> rb_actionBindingDigest = bindingDigest,
                      rb_actionBindingPayload = w_ActionBindingPayload w,
                      rb_planDigest = planDigest,
                      rb_token = w_Token w,
                      rb_root = root,
                      rb_source = source,
                      rb_actionID = actionID,
                      rb_actionKind = w_ActionKind w,
                      rb_destination = w_Destination w,
                      rb_precondition = precondition,
                      rb_trashLayoutBinding = layout \<rparr>,
                   fr_event = w_Event w,
                   fr_ordinal = w_Ordinal w,
                   fr_predecessor = digest_copy (w_PredecessorDigest w),
                   fr_outcome = w_ReconciliationOutcome w,
                   fr_metadata = w_MetadataDisposition w \<rparr>
                in case validateRecoveryFrame env frame of Some e \<Rightarrow> Inl e | None \<Rightarrow> Inr frame))
      | _ \<Rightarrow> Inl [ErrRecoveryCorrupt])"

definition fromRecoveryFrameWire :: "'e binding_env_scheme \<Rightarrow> frame_v1_wire \<Rightarrow> go_error + recovery_frame" where
  "fromRecoveryFrameWire env w = fromRecoveryFrameWireWithTrashLayoutBinding env w zero_digest"

definition fromRecoveryFrameV2Wire :: "'e binding_env_scheme \<Rightarrow> frame_v2_wire \<Rightarrow> go_error + recovery_frame" where
  "fromRecoveryFrameV2Wire env w =
     (case w_TrashLayoutBinding w of
        None \<Rightarrow> fromRecoveryFrameWireWithTrashLayoutBinding env w zero_digest
      | Some layout \<Rightarrow>
        (case newDigest layout of
           Inl _ \<Rightarrow> Inl [ErrRecoveryCorrupt]
         | Inr parsed \<Rightarrow> fromRecoveryFrameWireWithTrashLayoutBinding env w parsed))"

section \<open>The codec\<close>

definition encodeRecoveryFrame :: "'e frame_env_scheme \<Rightarrow> recovery_frame \<Rightarrow> go_error + bytes" where
  "encodeRecoveryFrame env f =
     (case validateRecoveryFrame env f of
        Some e \<Rightarrow> Inl e
      | None \<Rightarrow>
        (let encoded =
           (if fr_schemaVersion f = recoveryLedgerSchemaVersionV1 then fe_marshalV1 env (toRecoveryFrameWire f)
            else if fr_schemaVersion f = recoveryLedgerSchemaVersionV2 then fe_marshalV2 env (toRecoveryFrameV2Wire f)
            else None)
         in case encoded of
             None \<Rightarrow> Inl [ErrRecoveryCorrupt]
           | Some bytes \<Rightarrow>
             if length bytes = 0 \<or> int (length bytes) > maximumRecoveryFrameBytes then Inl [ErrRecoveryUnsupported]
             else Inr bytes))"

definition decodeRecoveryFrame :: "'e frame_env_scheme \<Rightarrow> bytes \<Rightarrow> go_error + recovery_frame" where
  "decodeRecoveryFrame env encoded =
     (if length encoded = 0 \<or> int (length encoded) > maximumRecoveryFrameBytes then Inl [ErrRecoveryCorrupt]
      else case fe_version env encoded of
          None \<Rightarrow> Inl [ErrRecoveryCorrupt]
        | Some version \<Rightarrow>
          (let decoded =
             (if version = recoveryLedgerSchemaVersionV1
              then (case fe_unmarshalV1 env encoded of
                  None \<Rightarrow> Inl [ErrRecoveryCorrupt] | Some w \<Rightarrow> fromRecoveryFrameWire env w)
              else if version = recoveryLedgerSchemaVersionV2
              then (case fe_unmarshalV2 env encoded of
                  None \<Rightarrow> Inl [ErrRecoveryCorrupt] | Some w \<Rightarrow> fromRecoveryFrameV2Wire env w)
              else Inl [ErrRecoveryCorrupt])
           in case decoded of
               Inl e \<Rightarrow> Inl e
             | Inr frame \<Rightarrow>
               (case encodeRecoveryFrame env frame of
                  Inl e \<Rightarrow> Inl e
                | Inr canonical \<Rightarrow> if encoded \<noteq> canonical then Inl [ErrRecoveryCorrupt] else Inr frame)))"

definition recoveryFrameV1DigestDomain :: bytes where
  "recoveryFrameV1DigestDomain = bytes_of (''ldclean.recovery-frame.digest.v1'' @ [CHR 0x00])"
definition recoveryFrameV2DigestDomain :: bytes where
  "recoveryFrameV2DigestDomain = bytes_of (''ldclean.recovery-frame.digest.v2'' @ [CHR 0x00])"

definition recoveryFrameDigest :: "'e frame_env_scheme \<Rightarrow> recovery_frame \<Rightarrow> go_error + bytes" where
  "recoveryFrameDigest env f =
     (case encodeRecoveryFrame env f of
        Inl e \<Rightarrow> Inl e
      | Inr encoded \<Rightarrow>
        if fr_schemaVersion f = recoveryLedgerSchemaVersionV1
        then Inr (digest_copy (be_sha256 env (recoveryFrameV1DigestDomain @ encoded)))
        else if fr_schemaVersion f = recoveryLedgerSchemaVersionV2
        then Inr (digest_copy (be_sha256 env (recoveryFrameV2DigestDomain @ encoded)))
        else Inl [ErrRecoveryCorrupt])"

section \<open>The codec is strict\<close>

lemma decode_canonical:
  "decodeRecoveryFrame env encoded = Inr f \<Longrightarrow> encodeRecoveryFrame env f = Inr encoded"
  by (auto simp: decodeRecoveryFrame_def Let_def split: if_splits option.splits sum.splits)

interpretation frame_codec: canonical_codec
  "\<lambda>f. ok (encodeRecoveryFrame env f)" "\<lambda>b. ok (decodeRecoveryFrame env b)" for env
  by unfold_locales (auto dest: decode_canonical)

lemma encode_valid:
  "encodeRecoveryFrame env f = Inr b \<Longrightarrow> validateRecoveryFrame env f = None"
  "encodeRecoveryFrame env f = Inr b \<Longrightarrow> b \<noteq> [] \<and> int (length b) \<le> maximumRecoveryFrameBytes"
  by (auto simp: encodeRecoveryFrame_def Let_def split: if_splits option.splits)

lemma decode_valid: "decodeRecoveryFrame env b = Inr f \<Longrightarrow> validateRecoveryFrame env f = None"
  using decode_canonical encode_valid(1) by blast

lemma valid_frame_binding:
  "validateRecoveryFrame env f = None \<Longrightarrow> validateRecoveryBindingForSchema env (fr_binding f) (fr_schemaVersion f) = None"
  by (simp add: validateRecoveryFrame_def checks_Cons)

text \<open>The digests of a Go frame are arrays of 32 bytes.\<close>

definition frame_arrays :: "recovery_frame \<Rightarrow> bool" where
  "frame_arrays f \<longleftrightarrow> length (fr_predecessor f) = 32 \<and> length (rb_planDigest (fr_binding f)) = 32 \<and>
     length (rb_trashLayoutBinding (fr_binding f)) = 32"

text \<open>What the CBOR library does with the wire form of one frame: it decodes what it encoded.\<close>

definition cbor_faithful :: "'e frame_env_scheme \<Rightarrow> recovery_frame \<Rightarrow> bytes \<Rightarrow> bool" where
  "cbor_faithful env f b \<longleftrightarrow>
     (if fr_schemaVersion f = 1
      then fe_marshalV1 env (toRecoveryFrameWire f) = Some b \<longrightarrow>
        fe_version env b = Some 1 \<and> fe_unmarshalV1 env b = Some (toRecoveryFrameWire f)
      else fe_marshalV2 env (toRecoveryFrameV2Wire f) = Some b \<longrightarrow>
        fe_version env b = Some 2 \<and> fe_unmarshalV2 env b = Some (toRecoveryFrameV2Wire f))"

lemma recovery_path_bounded:
  "validateRecoveryPath p = None \<Longrightarrow> newBoundedRecoveryPath (path_components p) = Inr p"
  by (cases p) (auto simp: validateRecoveryPath_def newBoundedRecoveryPath_def checks_Cons byte_path_new_def
      split: option.splits sum.splits)

lemma precondition_wire_roundtrip:
  assumes "filesystem_precondition_validate p = None" "fp_Target p = target_of_filesystem f"
  shows "fromFilesystemPreconditionWire (ft_Root f) (ft_Path f) (toFilesystemPreconditionWire p) = Inr p"
proof -
  have valid: "target_validate (target_of_filesystem f) = None"
    using fp_target_valid [OF assms(1)] assms(2) by simp
  then have "filesystem_target_ok f"
    by (auto simp: target_validate_None target_of_filesystem_def target_of_manager_def)
  then have "cloneBytePath (ft_Path f) = ft_Path f"
    by (simp add: filesystem_target_ok_def cloneBytePath_cases)
  then have "NewFilesystemTarget (ft_Root f) (ft_Path f) = Inr (target_of_filesystem f)"
    using valid by (cases f) (simp add: NewFilesystemTarget_def Let_def target_of_filesystem_def)
  then show ?thesis
    using assms(2) by (cases p)
      (simp add: fromFilesystemPreconditionWire_def toFilesystemPreconditionWire_def Let_def codec_simps)
qed

lemma valid_frame_facts:
  assumes "validateRecoveryFrame env f = None"
  obtains a g p where "recovery_action a g p" "rb_actionBindingDigest (fr_binding f) \<noteq> zero_digest"
    "length (rb_actionBindingDigest (fr_binding f)) = 32" "rb_planDigest (fr_binding f) \<noteq> zero_digest"
    "rb_root (fr_binding f) = ft_Root g" "rb_source (fr_binding f) = ft_Path g" "rb_actionID (fr_binding f) = a_ID a"
    "rb_precondition (fr_binding f) = p"
proof -
  let ?b = "fr_binding f"
  note valid = valid_frame_binding [OF assms]
  from valid_binding_of(1) [OF valid] obtain a where
    "newRecoveryBindingForSchema env a (rb_planDigest ?b) (rb_token ?b) (rb_trashLayoutBinding ?b) (fr_schemaVersion f) = Inr ?b"
    by blast
  then obtain g p payload where "recovery_action a g p" "rb_planDigest ?b \<noteq> zero_digest"
    "?b = binding_of env a g p payload (rb_planDigest ?b) (rb_token ?b) (rb_trashLayoutBinding ?b)"
    by (auto simp: newRecoveryBinding_Inr)
  note r = this
  show thesis
  proof (rule that [OF r(1)])
    show "rb_actionBindingDigest ?b \<noteq> zero_digest" by (rule valid_binding_of(2) [OF valid])
    show "rb_planDigest ?b \<noteq> zero_digest" by (rule r(2))
  qed (subst r(3), simp add: binding_of_def ComputeActionBindingDigest_def)+
qed

lemma from_wire_of_frame:
  assumes "validateRecoveryFrame env f = None" "frame_arrays f"
  shows "fromRecoveryFrameWireWithTrashLayoutBinding env (frame_v1_wire.extend (toRecoveryFrameWire f) x)
    (rb_trashLayoutBinding (fr_binding f)) = Inr f"
proof -
  obtain a g p where g: "recovery_action a g p" "rb_actionBindingDigest (fr_binding f) \<noteq> zero_digest"
    "length (rb_actionBindingDigest (fr_binding f)) = 32" "rb_planDigest (fr_binding f) \<noteq> zero_digest"
    "rb_root (fr_binding f) = ft_Root g" "rb_source (fr_binding f) = ft_Path g" "rb_actionID (fr_binding f) = a_ID a"
    "rb_precondition (fr_binding f) = p"
    using valid_frame_facts [OF assms(1)] by metis
  have ids: "new_id trusted_root_id_validate (ft_Root g) = Inr (ft_Root g)" "new_id action_id_validate (a_ID a) = Inr (a_ID a)"
    using g(1) action_validate_parts(1) by (auto simp: recovery_action_def filesystem_target_ok_def id_validate_None)
  have path: "newBoundedRecoveryPath (path_components (ft_Path g)) = Inr (ft_Path g)"
    using g(1) by (auto simp: recovery_action_def recovery_path_bounded)
  have pre: "fromFilesystemPreconditionWire (ft_Root g) (ft_Path g) (toFilesystemPreconditionWire p) = Inr p"
    using g(1) by (auto simp: recovery_action_def intro: precondition_wire_roundtrip)
  have dig: "newDigest (rb_actionBindingDigest (fr_binding f)) = Inr (rb_actionBindingDigest (fr_binding f))"
    "newDigest (rb_planDigest (fr_binding f)) = Inr (rb_planDigest (fr_binding f))"
    using g assms(2) by (simp_all add: frame_arrays_def)
  have pred: "length (fr_predecessor f) = 32" using assms(2) by (simp add: frame_arrays_def)
  have frame: "\<lparr> fr_schemaVersion = fr_schemaVersion f, fr_binding =
      \<lparr> rb_actionBindingDigest = rb_actionBindingDigest (fr_binding f), rb_actionBindingPayload = rb_actionBindingPayload (fr_binding f),
        rb_planDigest = rb_planDigest (fr_binding f), rb_token = rb_token (fr_binding f), rb_root = ft_Root g, rb_source = ft_Path g,
        rb_actionID = a_ID a, rb_actionKind = rb_actionKind (fr_binding f), rb_destination = rb_destination (fr_binding f),
        rb_precondition = p, rb_trashLayoutBinding = rb_trashLayoutBinding (fr_binding f) \<rparr>,
      fr_event = fr_event f, fr_ordinal = fr_ordinal f, fr_predecessor = fr_predecessor f, fr_outcome = fr_outcome f,
      fr_metadata = fr_metadata f \<rparr> = f"
    using g(5-8) by (cases f; cases "fr_binding f") auto
  show ?thesis
    unfolding fromRecoveryFrameWireWithTrashLayoutBinding_def toRecoveryFrameWire_def Let_def
    by (simp add: frame_v1_wire.defs g(5-8) ids path pre dig pred digest_copy_same frame assms(1)
        del: newDigest_Inr new_id_Inr)
qed

lemma schema_layout:
  assumes "validateRecoveryFrame env f = None"
  shows "fr_schemaVersion f = 1 \<or> fr_schemaVersion f = 2"
    "fr_schemaVersion f = 1 \<Longrightarrow> rb_trashLayoutBinding (fr_binding f) = zero_digest"
  using assms valid_frame_binding [OF assms]
  by (auto simp: validateRecoveryFrame_def checks_Cons recoveryLedgerSchemaVersionV1_def recoveryLedgerSchemaVersionV2_def
      validateRecoveryBindingForSchema_def validateTrashLayoutBindingForSchema_def trash_layout_binding_is_zero_def)

lemma from_v1_wire:
  assumes "validateRecoveryFrame env f = None" "frame_arrays f" "fr_schemaVersion f = 1"
  shows "fromRecoveryFrameWire env (toRecoveryFrameWire f) = Inr f"
proof -
  have "frame_v1_wire.extend (toRecoveryFrameWire f) () = toRecoveryFrameWire f" by (simp add: frame_v1_wire.defs)
  with from_wire_of_frame [OF assms(1,2), of "()"] schema_layout(2) [OF assms(1,3)] show ?thesis
    by (simp add: fromRecoveryFrameWire_def)
qed

lemma from_v2_wire:
  assumes "validateRecoveryFrame env f = None" "frame_arrays f"
  shows "fromRecoveryFrameV2Wire env (toRecoveryFrameV2Wire f) = Inr f"
proof -
  let ?layout = "rb_trashLayoutBinding (fr_binding f)"
  have "w_TrashLayoutBinding (toRecoveryFrameV2Wire f) = (if ?layout = zero_digest then None else Some ?layout)"
    by (simp add: toRecoveryFrameV2Wire_def trash_layout_binding_is_zero_def frame_v1_wire.defs frame_v2_wire.defs)
  moreover have "fromRecoveryFrameWireWithTrashLayoutBinding env (toRecoveryFrameV2Wire f) ?layout = Inr f"
    unfolding toRecoveryFrameV2Wire_def by (rule from_wire_of_frame [OF assms])
  moreover have "?layout = zero_digest \<or> newDigest ?layout = Inr ?layout"
    using assms(2) by (auto simp: frame_arrays_def)
  ultimately show ?thesis by (auto simp: fromRecoveryFrameV2Wire_def simp del: newDigest_Inr)
qed

lemma encode_decode:
  assumes "encodeRecoveryFrame env f = Inr b" "frame_arrays f" "cbor_faithful env f b"
  shows "decodeRecoveryFrame env b = Inr f"
proof -
  note valid = encode_valid(1) [OF assms(1)]
  from schema_layout(1) [OF valid] show ?thesis
  proof
    assume v: "fr_schemaVersion f = 1"
    then have "fe_marshalV1 env (toRecoveryFrameWire f) = Some b"
      using assms(1) by (auto simp: encodeRecoveryFrame_def recoveryLedgerSchemaVersionV1_def Let_def
          split: option.splits if_splits)
    with assms v encode_valid(2) [OF assms(1)] from_v1_wire [OF valid assms(2) v] show ?thesis
      by (simp add: cbor_faithful_def decodeRecoveryFrame_def recoveryLedgerSchemaVersionV1_def)
  next
    assume v: "fr_schemaVersion f = 2"
    then have "fe_marshalV2 env (toRecoveryFrameV2Wire f) = Some b"
      using assms(1) by (auto simp: encodeRecoveryFrame_def recoveryLedgerSchemaVersionV1_def
          recoveryLedgerSchemaVersionV2_def Let_def split: option.splits if_splits)
    with assms v encode_valid(2) [OF assms(1)] from_v2_wire [OF valid assms(2)] show ?thesis
      by (simp add: cbor_faithful_def decodeRecoveryFrame_def recoveryLedgerSchemaVersionV1_def recoveryLedgerSchemaVersionV2_def)
  qed
qed

section \<open>Properties\<close>

text \<open>
  C33: frames have one encoding. For a frame with 32-byte digests whose CBOR form the library
  decodes as it encoded it, the strict decoder accepts exactly the bytes the encoder writes for that
  frame, in either schema version; every other spelling of the same frame is corrupt.
\<close>

theorem recovery_frame_codec:
  assumes "frame_arrays f" and "cbor_faithful env f b"
  shows "decodeRecoveryFrame env b = Inr f \<longleftrightarrow> encodeRecoveryFrame env f = Inr b"
  using decode_canonical encode_decode assms by blast

section \<open>A sample frame\<close>

text \<open>An environment that encodes a frame as its ordinal and decodes it again.\<close>

definition case_frame :: "sample_case \<Rightarrow> u8 \<Rightarrow> recovery_event \<Rightarrow> recovery_outcome \<Rightarrow> recovery_metadata \<Rightarrow> recovery_frame" where
  "case_frame c n event out metadata = \<lparr> fr_schemaVersion = 2, fr_binding = case_binding c, fr_event = event,
     fr_ordinal = n, fr_predecessor = replicate 32 (if n = 0 then 0 else 1), fr_outcome = out,
     fr_metadata = metadata \<rparr>"

abbreviation sample_frame :: "u8 \<Rightarrow> recovery_event \<Rightarrow> recovery_outcome \<Rightarrow> recovery_metadata \<Rightarrow> recovery_frame" where
  "sample_frame \<equiv> case_frame TrashCase"

definition sample_intent :: recovery_frame where
  "sample_intent = sample_frame 0 IntentReserved [] []"

definition case_env :: "sample_case \<Rightarrow> (u8 \<Rightarrow> recovery_frame) \<Rightarrow> frame_env" where
  "case_env c frames = binding_env.extend (case_binding_env c)
     \<lparr> fe_marshalV1 = (\<lambda>_. None), fe_marshalV2 = (\<lambda>w. Some [w_Ordinal w, 1]), fe_version = (\<lambda>_. Some 2),
       fe_unmarshalV1 = (\<lambda>_. None),
       fe_unmarshalV2 = (\<lambda>b. case b of [n, _] \<Rightarrow> Some (toRecoveryFrameV2Wire (frames n)) | _ \<Rightarrow> None) \<rparr>"

abbreviation sample_env :: "(u8 \<Rightarrow> recovery_frame) \<Rightarrow> frame_env" where "sample_env \<equiv> case_env TrashCase"

end
