(* ===== verification/RecoveryReplay.thy ===== *)
theory RecoveryReplay
  imports RecoveryFrame
begin

text \<open>
  \<^verbatim>\<open>src/internal/state/recovery_ledger.go\<close>, third part: the closed transition graph of a
  recovery, replaying its retained frames into the current facts, and appending the next frame. The
  abstract reading is an \<^emph>\<open>inductive\<close> step relation on stages; the replayed histories are exactly
  the chained paths of that relation.
\<close>

section \<open>Recoveries\<close>

record recovery =
  rec_schemaVersion :: u16
  rec_binding :: recovery_binding
  rec_event :: recovery_event
  rec_ordinal :: u8
  rec_digest :: bytes
  rec_outcome :: recovery_outcome
  rec_metadata :: recovery_metadata

definition recovery_Closed :: "recovery \<Rightarrow> bool" where
  "recovery_Closed r =
     (if rec_event r = RestoreVerified then True
      else rec_event r = ReconciliationResolved \<and> rec_outcome r \<noteq> OutcomeMoveVerified)"

definition newIntentFrameForSchema :: "'e binding_env_scheme \<Rightarrow> recovery_binding \<Rightarrow> u16 \<Rightarrow> go_error + recovery_frame" where
  "newIntentFrameForSchema env b schemaVersion =
     (let frame = \<lparr> fr_schemaVersion = schemaVersion, fr_binding = b, fr_event = IntentReserved, fr_ordinal = 0,
        fr_predecessor = zero_digest, fr_outcome = [], fr_metadata = [] \<rparr>
      in case validateRecoveryFrame env frame of Some e \<Rightarrow> Inl e | None \<Rightarrow> Inr frame)"

definition newIntentFrame :: "'e binding_env_scheme \<Rightarrow> recovery_binding \<Rightarrow> go_error + recovery_frame" where
  "newIntentFrame env b = newIntentFrameForSchema env b recoveryLedgerSchemaVersionV2"

definition recoveryFromFrame :: "'e frame_env_scheme \<Rightarrow> recovery_frame \<Rightarrow> go_error + recovery" where
  "recoveryFromFrame env f =
     (case recoveryFrameDigest env f of
        Inl e \<Rightarrow> Inl e
      | Inr digest \<Rightarrow> Inr \<lparr> rec_schemaVersion = fr_schemaVersion f, rec_binding = fr_binding f, rec_event = fr_event f,
          rec_ordinal = fr_ordinal f, rec_digest = digest, rec_outcome = fr_outcome f, rec_metadata = fr_metadata f \<rparr>)"

definition recovery_apply :: "'e frame_env_scheme \<Rightarrow> recovery \<Rightarrow> recovery_frame \<Rightarrow> go_error + recovery" where
  "recovery_apply env r f =
     (if rec_schemaVersion r \<noteq> fr_schemaVersion f then Inl [ErrRecoveryCorrupt]
      else case recoveryFrameDigest env f of
          Inl e \<Rightarrow> Inl e
        | Inr digest \<Rightarrow> Inr (r \<lparr> rec_event := fr_event f, rec_ordinal := fr_ordinal f, rec_digest := digest,
            rec_outcome := fr_outcome f, rec_metadata := fr_metadata f \<rparr>))"

section \<open>The transition graph\<close>

definition validateNoEffectReconciliation :: "recovery_destination \<Rightarrow> recovery_transition \<Rightarrow> go_error option" where
  "validateNoEffectReconciliation destination t = checks
     [check (\<not> (tr_Event t \<noteq> ReconciliationResolved \<or> tr_Outcome t \<noteq> OutcomeNotApplied)) [ErrRecoveryConflict],
      recovery_metadata_validate (tr_Metadata t),
      check (\<not> (destination = RecoveryDestinationQuarantine \<and> tr_Metadata t \<noteq> MetadataAbsent)) [ErrRecoveryConflict]]"

definition validateMoveIndeterminateReconciliation :: "recovery_transition \<Rightarrow> go_error option" where
  "validateMoveIndeterminateReconciliation t = checks
     [check (tr_Event t = ReconciliationResolved) [ErrRecoveryConflict],
      check (tr_Outcome t \<in> {OutcomeNotApplied, OutcomeMoveVerified}) [ErrRecoveryConflict],
      check (tr_Metadata t = []) [ErrRecoveryUnsupported]]"

definition validateRestoreIndeterminateReconciliation :: "recovery_transition \<Rightarrow> go_error option" where
  "validateRestoreIndeterminateReconciliation t = checks
     [check (tr_Event t = ReconciliationResolved) [ErrRecoveryConflict],
      check (tr_Outcome t \<in> {OutcomeMoveVerified, OutcomeRestoreVerified}) [ErrRecoveryConflict],
      check (tr_Metadata t = []) [ErrRecoveryUnsupported]]"

definition recovery_stage :: "recovery \<Rightarrow> recovery_event" where
  "recovery_stage r =
     (if rec_event r = ReconciliationResolved \<and> rec_outcome r = OutcomeMoveVerified then MoveVerified else rec_event r)"

text \<open>The \<^verbatim>\<open>switch stage\<close>; falling out of it is the conflict at the end.\<close>

definition stage_transition ::
    "recovery_destination \<Rightarrow> recovery_event \<Rightarrow> recovery_transition \<Rightarrow> go_error option" where
  "stage_transition destination stage t =
     (if stage = IntentReserved then
        (if tr_Event t = ReconciliationResolved then validateNoEffectReconciliation destination t
         else if destination = RecoveryDestinationTrash \<and> tr_Event t = MetadataDispatchRecorded
         then validateOrdinaryTransition t
         else if destination = RecoveryDestinationQuarantine \<and> tr_Event t = MoveDispatchRecorded
         then validateOrdinaryTransition t
         else Some [ErrRecoveryConflict])
      else if stage = MetadataDispatchRecorded then
        (if tr_Event t = MetadataVerified \<or> tr_Event t = MetadataIndeterminate then validateOrdinaryTransition t
         else Some [ErrRecoveryConflict])
      else if stage = MetadataVerified then
        (if tr_Event t = MoveDispatchRecorded then validateOrdinaryTransition t
         else if tr_Event t = ReconciliationResolved then validateNoEffectReconciliation destination t
         else Some [ErrRecoveryConflict])
      else if stage = MetadataIndeterminate then
        (if tr_Event t = ReconciliationResolved then
           (if tr_Outcome t \<noteq> OutcomeNotApplied then Some [ErrRecoveryConflict]
            else validateNoEffectReconciliation destination t)
         else Some [ErrRecoveryConflict])
      else if stage = MoveDispatchRecorded then
        (if tr_Event t = MoveVerified \<or> tr_Event t = MoveIndeterminate then validateOrdinaryTransition t
         else Some [ErrRecoveryConflict])
      else if stage = MoveVerified then
        (if tr_Event t = RestoreDispatchRecorded then validateOrdinaryTransition t else Some [ErrRecoveryConflict])
      else if stage = RestoreDispatchRecorded then
        (if tr_Event t = RestoreVerified \<or> tr_Event t = RestoreIndeterminate then validateOrdinaryTransition t
         else Some [ErrRecoveryConflict])
      else if stage = MoveIndeterminate then
        (if tr_Event t = ReconciliationResolved then validateMoveIndeterminateReconciliation t
         else Some [ErrRecoveryConflict])
      else if stage = RestoreIndeterminate then
        (if tr_Event t = ReconciliationResolved then validateRestoreIndeterminateReconciliation t
         else Some [ErrRecoveryConflict])
      else Some [ErrRecoveryConflict])"

definition validateRecoveryTransition :: "'e frame_env_scheme \<Rightarrow> recovery \<Rightarrow> recovery_transition \<Rightarrow> go_error option" where
  "validateRecoveryTransition env r t = checks
     [validateRecoveryBindingForSchema env (rec_binding r) (rec_schemaVersion r),
      check (\<not> recovery_Closed r) [ErrRecoveryConflict],
      recovery_event_validate (tr_Event t),
      check (tr_Event t \<noteq> IntentReserved) [ErrRecoveryUnsupported],
      stage_transition (rb_destination (rec_binding r)) (recovery_stage r) t]"

section \<open>Replay\<close>

definition transition_of :: "recovery_frame \<Rightarrow> recovery_transition" where
  "transition_of f = \<lparr> tr_Event = fr_event f, tr_Outcome = fr_outcome f, tr_Metadata = fr_metadata f \<rparr>"

text \<open>
  The body of the loop: the frame at \<open>index\<close> with the frame before it and the recovery built so
  far, both \<open>None\<close> at index 0. \<^verbatim>\<open>uint8(index)\<close> cannot wrap below the frame limit.
\<close>

definition replay_frame ::
    "'e frame_env_scheme \<Rightarrow> nat \<Rightarrow> recovery_frame option \<Rightarrow> recovery option \<Rightarrow> recovery_frame \<Rightarrow> go_error + recovery" where
  "replay_frame env index previous state frame =
     (case checks
        [validateRecoveryFrame env frame,
         check (fr_ordinal frame = word_of_nat index) [ErrRecoveryCorrupt]] of
        Some e \<Rightarrow> Inl e
      | None \<Rightarrow>
        (case (previous, state) of
           (Some prev, Some r) \<Rightarrow>
             (case checks
                [check (fr_schemaVersion frame = rec_schemaVersion r) [ErrRecoveryCorrupt],
                 check (sameRecoveryBinding (rec_binding r) (fr_binding frame)) [ErrRecoveryCorrupt],
                 failed (recoveryFrameDigest env prev),
                 check (recoveryFrameDigest env prev = Inr (fr_predecessor frame)) [ErrRecoveryCorrupt],
                 marked ErrRecoveryCorrupt (validateRecoveryTransition env r (transition_of frame))] of
                Some e \<Rightarrow> Inl e
              | None \<Rightarrow> recovery_apply env r frame)
         | _ \<Rightarrow>
             if fr_event frame \<noteq> IntentReserved \<or> fr_predecessor frame \<noteq> zero_digest then Inl [ErrRecoveryCorrupt]
             else recoveryFromFrame env frame))"

fun replay_loop ::
    "'e frame_env_scheme \<Rightarrow> nat \<Rightarrow> recovery_frame option \<Rightarrow> recovery option \<Rightarrow> recovery_frame list \<Rightarrow> go_error + recovery option" where
  "replay_loop env index previous state [] = Inr state"
| "replay_loop env index previous state (frame # frames) =
     (case replay_frame env index previous state frame of
        Inl e \<Rightarrow> Inl e
      | Inr r \<Rightarrow> replay_loop env (Suc index) (Some frame) (Some r) frames)"

definition replayRecoveryFrames :: "'e frame_env_scheme \<Rightarrow> recovery_frame list \<Rightarrow> go_error + recovery" where
  "replayRecoveryFrames env frames =
     (if length frames = 0 \<or> length frames > unat linuxfsMaximumLedgerOrdinal + 1 then Inl [ErrRecoveryCorrupt]
      else case replay_loop env 0 None None frames of
          Inl e \<Rightarrow> Inl e
        | Inr state \<Rightarrow> Inr (the state))"

section \<open>Appending a transition\<close>

definition appendRecoveryTransition ::
    "'e frame_env_scheme \<Rightarrow> recovery_frame list \<Rightarrow> recovery_transition \<Rightarrow> go_error + recovery_frame" where
  "appendRecoveryTransition env history t =
     (case replayRecoveryFrames env history of
        Inl e \<Rightarrow> Inl e
      | Inr r \<Rightarrow>
        (case checks
          [check (rec_schemaVersion r = recoveryLedgerSchemaVersionV2) [ErrRecoveryUnsupported],
           check (\<not> (length history = 0 \<or> fr_ordinal (last history) \<ge> linuxfsMaximumLedgerOrdinal)) [ErrRecoveryConflict],
           validateRecoveryTransition env r t] of
          Some e \<Rightarrow> Inl e
        | None \<Rightarrow>
          (case recoveryFrameDigest env (last history) of
             Inl e \<Rightarrow> Inl e
           | Inr predecessor \<Rightarrow>
             (let frame = \<lparr> fr_schemaVersion = rec_schemaVersion r, fr_binding = rec_binding r, fr_event = tr_Event t,
                fr_ordinal = rec_ordinal r + 1, fr_predecessor = predecessor, fr_outcome = tr_Outcome t,
                fr_metadata = tr_Metadata t \<rparr>
              in case validateRecoveryFrame env frame of Some e \<Rightarrow> Inl e | None \<Rightarrow> Inr frame))))"

section \<open>The abstract graph\<close>

datatype stage =
    Reserved | MetaDispatched | MetaVerified | MetaUnknown | MoveDispatched | Moved | MoveUnknown
  | RestoreDispatched | RestoreUnknown | NotApplied | Restored

definition stage_of :: "recovery_event \<Rightarrow> recovery_outcome \<Rightarrow> stage option" where
  "stage_of event out =
     (if event = IntentReserved then Some Reserved
      else if event = MetadataDispatchRecorded then Some MetaDispatched
      else if event = MetadataVerified then Some MetaVerified
      else if event = MetadataIndeterminate then Some MetaUnknown
      else if event = MoveDispatchRecorded then Some MoveDispatched
      else if event = MoveVerified then Some Moved
      else if event = MoveIndeterminate then Some MoveUnknown
      else if event = RestoreDispatchRecorded then Some RestoreDispatched
      else if event = RestoreIndeterminate then Some RestoreUnknown
      else if event = RestoreVerified then Some Restored
      else if event = ReconciliationResolved then
        (if out = OutcomeNotApplied then Some NotApplied
         else if out = OutcomeMoveVerified then Some Moved
         else if out = OutcomeRestoreVerified then Some Restored
         else None)
      else None)"

text \<open>One step of a recovery to the Trash (\<open>True\<close>) or to the quarantine (\<open>False\<close>).\<close>

inductive recovery_step :: "bool \<Rightarrow> stage \<Rightarrow> stage \<Rightarrow> bool" for trash where
  dispatch_metadata: "trash \<Longrightarrow> recovery_step trash Reserved MetaDispatched"
| metadata_done: "recovery_step trash MetaDispatched MetaVerified"
| metadata_unknown: "recovery_step trash MetaDispatched MetaUnknown"
| dispatch_after_metadata: "recovery_step trash MetaVerified MoveDispatched"
| dispatch_quarantine: "\<not> trash \<Longrightarrow> recovery_step trash Reserved MoveDispatched"
| moved: "recovery_step trash MoveDispatched Moved"
| move_unknown: "recovery_step trash MoveDispatched MoveUnknown"
| found_moved: "recovery_step trash MoveUnknown Moved"
| dispatch_restore: "recovery_step trash Moved RestoreDispatched"
| restored: "recovery_step trash RestoreDispatched Restored"
| restore_unknown: "recovery_step trash RestoreDispatched RestoreUnknown"
| found_still_moved: "recovery_step trash RestoreUnknown Moved"
| found_restored: "recovery_step trash RestoreUnknown Restored"
| no_effect: "s \<in> {Reserved, MetaVerified, MetaUnknown, MoveUnknown} \<Longrightarrow> recovery_step trash s NotApplied"

code_pred recovery_step .

inductive_cases from_closed [elim!]: "recovery_step trash NotApplied s" "recovery_step trash Restored s"
inductive_cases to_dispatched: "recovery_step trash s MoveDispatched"
inductive_cases to_metadata: "recovery_step trash s MetaDispatched"
inductive_simps step_simps: "recovery_step trash s t"

abbreviation is_trash :: "recovery_binding \<Rightarrow> bool" where
  "is_trash b \<equiv> rb_destination b = RecoveryDestinationTrash"

lemma closed_stage:
  assumes "stage_of (rec_event r) (rec_outcome r) = Some s"
  shows "recovery_Closed r \<longleftrightarrow> s = NotApplied \<or> s = Restored"
  using assms unfolding stage_of_def recovery_Closed_def
  by (simp add: recovery_vocabulary_defs split: if_splits)

lemma stage_of_recovery_stage:
  "stage_of (rec_event r) (rec_outcome r) = Some s \<Longrightarrow> s \<noteq> NotApplied \<Longrightarrow> s \<noteq> Restored \<Longrightarrow>
     stage_of (recovery_stage r) [] = Some s"
  unfolding stage_of_def recovery_stage_def
  by (simp add: recovery_vocabulary_defs split: if_splits)

lemma stage_transition_step:
  assumes "stage_transition d stage t = None" "stage_of stage [] = Some s"
    "d = RecoveryDestinationTrash \<or> d = RecoveryDestinationQuarantine"
  shows "\<exists>s'. stage_of (tr_Event t) (tr_Outcome t) = Some s' \<and> recovery_step (d = RecoveryDestinationTrash) s s'"
  using assms
  unfolding stage_transition_def validateNoEffectReconciliation_def validateMoveIndeterminateReconciliation_def
    validateRestoreIndeterminateReconciliation_def checks_Cons check_None stage_of_def
  by (auto simp: recovery_vocabulary_defs recovery_step.simps checks_Cons split: if_splits)

text \<open>The transition that records a step.\<close>

definition transition_to :: "bool \<Rightarrow> stage \<Rightarrow> stage \<Rightarrow> recovery_transition" where
  "transition_to trash s s' =
     (let ordinary = (\<lambda>event. \<lparr> tr_Event = event, tr_Outcome = [], tr_Metadata = [] \<rparr>);
          resolved = (\<lambda>out metadata. \<lparr> tr_Event = ReconciliationResolved, tr_Outcome = out, tr_Metadata = metadata \<rparr>)
      in case s' of
          MetaDispatched \<Rightarrow> ordinary MetadataDispatchRecorded
        | MetaVerified \<Rightarrow> ordinary MetadataVerified
        | MetaUnknown \<Rightarrow> ordinary MetadataIndeterminate
        | MoveDispatched \<Rightarrow> ordinary MoveDispatchRecorded
        | MoveUnknown \<Rightarrow> ordinary MoveIndeterminate
        | RestoreDispatched \<Rightarrow> ordinary RestoreDispatchRecorded
        | RestoreUnknown \<Rightarrow> ordinary RestoreIndeterminate
        | Moved \<Rightarrow> if s = MoveDispatched then ordinary MoveVerified else resolved OutcomeMoveVerified []
        | Restored \<Rightarrow> if s = RestoreDispatched then ordinary RestoreVerified else resolved OutcomeRestoreVerified []
        | NotApplied \<Rightarrow> resolved OutcomeNotApplied (if s = MoveUnknown then [] else MetadataAbsent)
        | Reserved \<Rightarrow> ordinary IntentReserved)"

fun stage_event :: "stage \<Rightarrow> recovery_event" where
  "stage_event Reserved = IntentReserved"
| "stage_event MetaDispatched = MetadataDispatchRecorded"
| "stage_event MetaVerified = MetadataVerified"
| "stage_event MetaUnknown = MetadataIndeterminate"
| "stage_event MoveDispatched = MoveDispatchRecorded"
| "stage_event Moved = MoveVerified"
| "stage_event MoveUnknown = MoveIndeterminate"
| "stage_event RestoreDispatched = RestoreDispatchRecorded"
| "stage_event RestoreUnknown = RestoreIndeterminate"
| "stage_event Restored = RestoreVerified"
| "stage_event NotApplied = ReconciliationResolved"

lemma stage_of_event: "stage_of event [] = Some s \<Longrightarrow> event = stage_event s"
  unfolding stage_of_def by (auto simp: recovery_vocabulary_defs split: if_splits)

lemma step_transition:
  assumes "recovery_step (d = RecoveryDestinationTrash) s s'" "stage_of stage [] = Some s"
    "d = RecoveryDestinationTrash \<or> d = RecoveryDestinationQuarantine"
  defines "t \<equiv> transition_to (d = RecoveryDestinationTrash) s s'"
  shows "stage_transition d stage t = None \<and> stage_of (tr_Event t) (tr_Outcome t) = Some s' \<and>
    recovery_event_validate (tr_Event t) = None \<and> tr_Event t \<noteq> IntentReserved"
proof -
  have stage: "stage = stage_event s" by (rule stage_of_event [OF assms(2)])
  show ?thesis
    using assms(1,3) unfolding stage t_def
    by (cases rule: recovery_step.cases)
      (auto simp: transition_to_def stage_transition_def stage_of_def checks_Cons
        validateNoEffectReconciliation_def validateMoveIndeterminateReconciliation_def
        validateRestoreIndeterminateReconciliation_def validateOrdinaryTransition_def recovery_metadata_validate_def
        recovery_event_validate_def recovery_events_def recovery_vocabulary_defs)
qed

section \<open>Histories\<close>

text \<open>The chained frame lists a recovery can have, one rule for the intent and one for each later frame.\<close>

inductive history :: "'e frame_env_scheme \<Rightarrow> recovery_frame list \<Rightarrow> recovery \<Rightarrow> bool" for env where
  intent: "validateRecoveryFrame env f = None \<Longrightarrow> fr_ordinal f = 0 \<Longrightarrow> recoveryFromFrame env f = Inr r \<Longrightarrow>
    history env [f] r"
| extended: "history env h r \<Longrightarrow> length h < 16 \<Longrightarrow> validateRecoveryFrame env f = None \<Longrightarrow>
    fr_ordinal f = word_of_nat (length h) \<Longrightarrow> fr_schemaVersion f = rec_schemaVersion r \<Longrightarrow>
    fr_binding f = rec_binding r \<Longrightarrow> fr_predecessor f = rec_digest r \<Longrightarrow>
    validateRecoveryTransition env r (transition_of f) = None \<Longrightarrow> recovery_apply env r f = Inr r' \<Longrightarrow>
    history env (h @ [f]) r'"

lemma recoveryFromFrame_Inr:
  "recoveryFromFrame env f = Inr r \<longleftrightarrow> recoveryFrameDigest env f = Inr (rec_digest r) \<and>
     rec_schemaVersion r = fr_schemaVersion f \<and> rec_binding r = fr_binding f \<and> rec_event r = fr_event f \<and>
     rec_ordinal r = fr_ordinal f \<and> rec_outcome r = fr_outcome f \<and> rec_metadata r = fr_metadata f"
  by (cases r) (auto simp: recoveryFromFrame_def split: sum.splits)

lemma recovery_apply_Inr:
  "recovery_apply env r f = Inr r' \<longleftrightarrow> rec_schemaVersion r = fr_schemaVersion f \<and>
     recoveryFrameDigest env f = Inr (rec_digest r') \<and> rec_schemaVersion r' = rec_schemaVersion r \<and>
     rec_binding r' = rec_binding r \<and> rec_event r' = fr_event f \<and> rec_ordinal r' = fr_ordinal f \<and>
     rec_outcome r' = fr_outcome f \<and> rec_metadata r' = fr_metadata f"
  by (cases r; cases r') (auto simp: recovery_apply_def split: sum.splits)

lemma history_facts:
  assumes "history env h r"
  shows "h \<noteq> [] \<and> length h \<le> 16 \<and> validateRecoveryFrame env (last h) = None \<and>
    recoveryFrameDigest env (last h) = Inr (rec_digest r) \<and> rec_schemaVersion r = fr_schemaVersion (last h) \<and>
    rec_binding r = fr_binding (last h) \<and> rec_event r = fr_event (last h) \<and>
    fr_ordinal (last h) = word_of_nat (length h - 1) \<and> rec_ordinal r = fr_ordinal (last h) \<and>
    rec_outcome r = fr_outcome (last h) \<and> rec_metadata r = fr_metadata (last h)"
  using assms
  by (induction rule: history.induct) (auto simp: recoveryFromFrame_Inr recovery_apply_Inr)

lemma replay_loop_append:
  "xs \<noteq> [] \<Longrightarrow> replay_loop env i p st (xs @ ys) =
     (case replay_loop env i p st xs of
        Inl e \<Rightarrow> Inl e
      | Inr st' \<Rightarrow> replay_loop env (i + length xs) (Some (last xs)) st' ys)"
proof (induction xs arbitrary: i p st)
  case (Cons f xs)
  show ?case
  proof (cases "replay_frame env i p st f")
    case (Inr r)
    with Cons.IH show ?thesis by (cases "xs = []") (simp_all split: sum.split)
  qed simp
qed simp

lemma valid_binding_precondition:
  "validateRecoveryBindingForSchema env b v = None \<Longrightarrow> filesystem_precondition_validate (rb_precondition b) = None"
  unfolding validateRecoveryBindingForSchema_def checks_Cons marked_None by blast

lemma replay_step:
  assumes "history env h r"
  shows "replay_loop env (length h) (Some (last h)) (Some r) [f] = Inr (Some r') \<longleftrightarrow>
    validateRecoveryFrame env f = None \<and> fr_ordinal f = word_of_nat (length h) \<and>
    fr_schemaVersion f = rec_schemaVersion r \<and> fr_binding f = rec_binding r \<and> fr_predecessor f = rec_digest r \<and>
    validateRecoveryTransition env r (transition_of f) = None \<and> recovery_apply env r f = Inr r'"
proof -
  note facts = history_facts [OF assms]
  have "filesystem_precondition_validate (rb_precondition (rec_binding r)) = None"
    using facts valid_frame_binding valid_binding_precondition by metis
  then have same: "sameRecoveryBinding (rec_binding r) (fr_binding f) \<longleftrightarrow> rec_binding r = fr_binding f"
    if "validateRecoveryFrame env f = None"
    using sameRecoveryBinding_eq valid_frame_binding [OF that] valid_binding_precondition by metis
  have digest: "recoveryFrameDigest env (last h) = Inr (rec_digest r)" using facts by blast
  have "replay_loop env (length h) (Some (last h)) (Some r) [f] = Inr (Some r') \<longleftrightarrow>
      replay_frame env (length h) (Some (last h)) (Some r) f = Inr r'"
    by (auto split: sum.splits)
  then show ?thesis
    using same by (auto simp: replay_frame_def gate_Inr digest checks_Cons)
qed

lemma ordinal_zero: "validateRecoveryFrame env f = None \<Longrightarrow> fr_ordinal f = 0 \<Longrightarrow>
    fr_event f = IntentReserved \<and> fr_predecessor f = zero_digest \<and> fr_outcome f = [] \<and> fr_metadata f = []"
  by (simp add: validateRecoveryFrame_def checks_Cons)

lemma replay_single:
  "replay_loop env 0 None None [f] = Inr (Some r) \<longleftrightarrow>
     validateRecoveryFrame env f = None \<and> fr_ordinal f = 0 \<and> recoveryFromFrame env f = Inr r"
  using ordinal_zero [of env f] by (auto simp: replay_frame_def gate_Inr checks_Cons split: sum.splits)

lemma replay_loop_Some: "replay_loop env i p (Some r) xs \<noteq> Inr None"
  by (induction xs arbitrary: i p r) (auto split: sum.splits)

lemma replay_loop_nonempty: "xs \<noteq> [] \<Longrightarrow> replay_loop env i p st xs \<noteq> Inr None"
  by (cases xs) (auto simp: replay_loop_Some split: sum.splits)

lemma replay_history:
  "replay_loop env 0 None None h = Inr (Some r) \<and> length h \<le> 16 \<longleftrightarrow> history env h r"
proof
  assume "replay_loop env 0 None None h = Inr (Some r) \<and> length h \<le> 16"
  then show "history env h r"
  proof (induction h arbitrary: r rule: rev_induct)
    case (snoc f h)
    show ?case
    proof (cases "h = []")
      case True
      with snoc.prems show ?thesis by (auto simp: replay_single simp del: replay_loop.simps intro: history.intent)
    next
      case False
      then obtain st where st: "replay_loop env 0 None None h = Inr st"
        "replay_loop env (length h) (Some (last h)) st [f] = Inr (Some r)"
        using snoc.prems replay_loop_append [OF False, of env 0 None None "[f]"] by (auto split: sum.splits)
      then obtain r0 where r0: "st = Some r0" using replay_loop_nonempty [OF False] by (cases st) auto
      with snoc.IH st(1) snoc.prems have h: "history env h r0" by simp
      from st(2) have "replay_loop env (length h) (Some (last h)) (Some r0) [f] = Inr (Some r)" unfolding r0 .
      from this [unfolded replay_step [OF h]] h snoc.prems show ?thesis
        by (auto intro: history.extended)
    qed
  qed simp
next
  assume "history env h r"
  then show "replay_loop env 0 None None h = Inr (Some r) \<and> length h \<le> 16"
  proof (induction rule: history.induct)
    case (intent f r)
    then show ?case by (simp add: replay_single del: replay_loop.simps)
  next
    case (extended h r f r')
    have "h \<noteq> []" using history_facts [OF extended.hyps(1)] by blast
    moreover have "replay_loop env (length h) (Some (last h)) (Some r) [f] = Inr (Some r')"
      using extended.hyps by (simp add: replay_step [OF extended.hyps(1)] del: replay_loop.simps)
    ultimately show ?case
      using extended.IH extended.hyps(2) replay_loop_append [of h env 0 None None "[f]"] by simp
  qed
qed

lemma replay_iff: "replayRecoveryFrames env h = Inr r \<longleftrightarrow> history env h r"
proof -
  have "replayRecoveryFrames env h = Inr r \<longleftrightarrow> replay_loop env 0 None None h = Inr (Some r) \<and> length h \<le> 16"
    if "h \<noteq> []"
    using that replay_loop_nonempty [OF that, of env 0 None None]
    by (auto simp: replayRecoveryFrames_def linuxfsMaximumLedgerOrdinal_def split: sum.splits)
  moreover have "replayRecoveryFrames env [] \<noteq> Inr r" "\<not> history env [] r"
    using history_facts [of env "[]" r] by (auto simp: replayRecoveryFrames_def)
  ultimately show ?thesis using replay_history by (cases "h = []") auto
qed

section \<open>Histories follow the graph\<close>

definition frame_stage :: "recovery_frame \<Rightarrow> stage option" where
  "frame_stage f = stage_of (fr_event f) (fr_outcome f)"

lemma valid_destination:
  "validateRecoveryBindingForSchema env b v = None \<Longrightarrow>
     rb_destination b = RecoveryDestinationTrash \<or> rb_destination b = RecoveryDestinationQuarantine"
  unfolding validateRecoveryBindingForSchema_def checks_Cons marked_None recovery_destination_validate_def check_None
  by blast

lemma accepted_transition_step:
  assumes "validateRecoveryTransition env r t = None" "stage_of (rec_event r) (rec_outcome r) = Some s"
  shows "\<exists>s'. stage_of (tr_Event t) (tr_Outcome t) = Some s' \<and> recovery_step (is_trash (rec_binding r)) s s'"
proof -
  note parts = assms(1) [unfolded validateRecoveryTransition_def checks_Cons check_None]
  have "s \<noteq> NotApplied" "s \<noteq> Restored" using parts closed_stage [OF assms(2)] by auto
  from stage_of_recovery_stage [OF assms(2) this] stage_transition_step parts valid_destination
  show ?thesis by blast
qed

lemma step_accepted:
  assumes "recovery_step (is_trash (rec_binding r)) s s'" "stage_of (rec_event r) (rec_outcome r) = Some s"
    "validateRecoveryBindingForSchema env (rec_binding r) (rec_schemaVersion r) = None"
  shows "\<exists>t. validateRecoveryTransition env r t = None \<and> stage_of (tr_Event t) (tr_Outcome t) = Some s'"
proof -
  have "s \<noteq> NotApplied" "s \<noteq> Restored" using assms(1) by auto
  with closed_stage [OF assms(2)] stage_of_recovery_stage [OF assms(2)]
    step_transition [OF assms(1) _ valid_destination [OF assms(3)]] assms(3)
  show ?thesis by (auto simp: validateRecoveryTransition_def checks_Cons)
qed

lemma accepted_successors:
  assumes "stage_of (rec_event r) (rec_outcome r) = Some s"
    "validateRecoveryBindingForSchema env (rec_binding r) (rec_schemaVersion r) = None"
  shows "(\<exists>t. validateRecoveryTransition env r t = None \<and> stage_of (tr_Event t) (tr_Outcome t) = Some s') \<longleftrightarrow>
    recovery_step (is_trash (rec_binding r)) s s'"
proof
  assume "\<exists>t. validateRecoveryTransition env r t = None \<and> stage_of (tr_Event t) (tr_Outcome t) = Some s'"
  then obtain t where t: "validateRecoveryTransition env r t = None" "stage_of (tr_Event t) (tr_Outcome t) = Some s'"
    by blast
  from accepted_transition_step [OF t(1) assms(1)] t(2)
  show "recovery_step (is_trash (rec_binding r)) s s'" by simp
qed (rule step_accepted [OF _ assms])

lemma history_path:
  assumes "history env h r"
  shows "\<exists>ss. map frame_stage h = map Some ss \<and> hd ss = Reserved \<and>
    stage_of (rec_event r) (rec_outcome r) = Some (last ss) \<and> successively (recovery_step (is_trash (rec_binding r))) ss"
  using assms
proof (induction rule: history.induct)
  case (intent f r)
  then have "stage_of (fr_event f) (fr_outcome f) = Some Reserved"
    using ordinal_zero [of env f] by (simp add: stage_of_def)
  with intent show ?case
    by (intro exI [of _ "[Reserved]"]) (simp add: frame_stage_def recoveryFromFrame_Inr)
next
  case (extended h r f r')
  from extended.IH obtain ss where ss: "map frame_stage h = map Some ss" "hd ss = Reserved"
    "stage_of (rec_event r) (rec_outcome r) = Some (last ss)" "successively (recovery_step (is_trash (rec_binding r))) ss"
    by blast
  from accepted_transition_step [OF extended.hyps(8) ss(3)] obtain s' where
    s': "frame_stage f = Some s'" "stage_of (fr_event f) (fr_outcome f) = Some s'"
      "recovery_step (is_trash (rec_binding r)) (last ss) s'"
    by (auto simp: transition_of_def frame_stage_def)
  have "ss \<noteq> []" using ss(1) history_facts [OF extended.hyps(1)] by auto
  with ss s' extended.hyps(9) show ?case
    by (intro exI [of _ "ss @ [s']"]) (auto simp: successively_append_iff recovery_apply_Inr)
qed

lemma history_binding:
  assumes "history env h r" "f \<in> set h"
  shows "validateRecoveryFrame env f = None" "fr_binding f = rec_binding r" "fr_schemaVersion f = rec_schemaVersion r"
  using assms by (induction rule: history.induct) (auto simp: recoveryFromFrame_Inr recovery_apply_Inr)

lemma history_snoc:
  assumes "history env h r"
  shows "history env (h @ [f]) r' \<longleftrightarrow> length h < 16 \<and>
    validateRecoveryFrame env f = None \<and> fr_ordinal f = word_of_nat (length h) \<and>
    fr_schemaVersion f = rec_schemaVersion r \<and> fr_binding f = rec_binding r \<and> fr_predecessor f = rec_digest r \<and>
    validateRecoveryTransition env r (transition_of f) = None \<and> recovery_apply env r f = Inr r'"
proof -
  have ne: "h \<noteq> []" using history_facts [OF assms] by blast
  have "replay_loop env 0 None None h = Inr (Some r)" using assms by (simp add: replay_history [symmetric])
  then have "history env (h @ [f]) r' \<longleftrightarrow> replay_loop env (length h) (Some (last h)) (Some r) [f] = Inr (Some r') \<and> length h < 16"
    using ne by (auto simp: replay_history [symmetric] replay_loop_append simp del: replay_loop.simps)
  then show ?thesis unfolding replay_step [OF assms] by blast
qed

section \<open>Appending is replaying one frame more\<close>

lemma small_ordinal: "n < 16 \<Longrightarrow> unat (word_of_nat n :: u8) = n"
  by (simp add: unat_of_nat take_bit_nat_eq_self)

lemma ordinal_length:
  assumes "history env h r"
  shows "unat (fr_ordinal (last h)) = length h - 1"
proof -
  have "h \<noteq> []" "length h \<le> 16" "fr_ordinal (last h) = word_of_nat (length h - 1)"
    using history_facts [OF assms] by auto
  then show ?thesis using small_ordinal [of "length h - 1"] by (cases h) auto
qed

lemma ordinal_capacity:
  assumes "history env h r"
  shows "fr_ordinal (last h) \<ge> linuxfsMaximumLedgerOrdinal \<longleftrightarrow> length h = 16"
proof -
  have "h \<noteq> []" "length h \<le> 16" using history_facts [OF assms] by auto
  with ordinal_length [OF assms] show ?thesis
    by (cases h) (auto simp: word_le_nat_alt linuxfsMaximumLedgerOrdinal_def)
qed

lemma next_ordinal:
  assumes "history env h r" "length h < 16"
  shows "rec_ordinal r + 1 = word_of_nat (length h)"
  using history_facts [OF assms(1)] by (cases h) auto

lemma append_Inr:
  assumes "history env h r"
  shows "appendRecoveryTransition env h t = Inr f \<longleftrightarrow>
    rec_schemaVersion r = 2 \<and> length h < 16 \<and> validateRecoveryTransition env r t = None \<and>
    validateRecoveryFrame env f = None \<and> transition_of f = t \<and> fr_ordinal f = word_of_nat (length h) \<and>
    fr_schemaVersion f = rec_schemaVersion r \<and> fr_binding f = rec_binding r \<and> fr_predecessor f = rec_digest r"
proof -
  note facts = history_facts [OF assms]
  have len: "\<not> (length h = 0 \<or> fr_ordinal (last h) \<ge> linuxfsMaximumLedgerOrdinal) \<longleftrightarrow> length h < 16"
    using facts ordinal_capacity [OF assms] by auto
  show ?thesis
    unfolding appendRecoveryTransition_def assms [folded replay_iff] sum.case gate_Inr checks_Cons checks_Nil check_None len
    using facts next_ordinal [OF assms] 
    by (cases f; cases t) (auto simp: Let_def transition_of_def gate_Inr recoveryLedgerSchemaVersionV2_def)
qed

section \<open>A sample history\<close>

text \<open>
  A fact of a sample history is an event with its outcome. A reconciliation to the Trash found that the move
  was not applied and the record was retained.
\<close>

definition case_metadata :: "sample_case \<Rightarrow> recovery_event \<times> recovery_outcome \<Rightarrow> recovery_metadata" where
  "case_metadata c p = (if c = TrashCase \<and> p = (ReconciliationResolved, OutcomeNotApplied) then MetadataRetained else [])"

lemma case_metadata_simps [simp]:
  "case_metadata QuarantineCase p = []" "case_metadata c (IntentReserved, []) = []" "case_metadata c (MetadataDispatchRecorded, []) = []"
  "case_metadata c (MetadataVerified, []) = []" "case_metadata c (MetadataIndeterminate, []) = []" "case_metadata c (MoveDispatchRecorded, []) = []"
  "case_metadata c (MoveVerified, []) = []" "case_metadata c (MoveIndeterminate, []) = []" "case_metadata c (RestoreIndeterminate, []) = []"
  "case_metadata c (ReconciliationResolved, OutcomeMoveVerified) = []" "case_metadata c (ReconciliationResolved, OutcomeRestoreVerified) = []"
  "case_metadata TrashCase (ReconciliationResolved, OutcomeNotApplied) = MetadataRetained"
  by (simp_all add: case_metadata_def recovery_vocabulary_defs)

definition case_frames :: "sample_case \<Rightarrow> (recovery_event \<times> recovery_outcome) list \<Rightarrow> recovery_frame list" where
  "case_frames c facts = map (\<lambda>n. case_frame c (word_of_nat n) (fst (facts ! n)) (snd (facts ! n)) (case_metadata c (facts ! n))) [0..<length facts]"

text \<open>A retained Trash move whose restore stays indeterminate and is found not to have happened, three times.\<close>

definition sample_restore_loop :: "(recovery_event \<times> recovery_outcome) list" where
  "sample_restore_loop = [(IntentReserved, []), (MetadataDispatchRecorded, []), (MetadataVerified, []),
     (MoveDispatchRecorded, []), (MoveVerified, []),
     (RestoreDispatchRecorded, []), (RestoreIndeterminate, []), (ReconciliationResolved, OutcomeMoveVerified),
     (RestoreDispatchRecorded, []), (RestoreIndeterminate, []), (ReconciliationResolved, OutcomeMoveVerified),
     (RestoreDispatchRecorded, []), (RestoreIndeterminate, []), (ReconciliationResolved, OutcomeMoveVerified),
     (RestoreDispatchRecorded, []), (RestoreIndeterminate, [])]"

lemma sample_env_simps:
  "be_sha256 (case_env c g) = (\<lambda>_. replicate 32 1)" "be_encodeAction (case_env c g) = (\<lambda>_ _. Some [7])"
  "be_decodeAction (case_env c g) = (\<lambda>_. Some (case_action c, sample_plan_digest))"
  "fe_marshalV2 (case_env c g) = (\<lambda>w. Some [w_Ordinal w, 1])"
  by (simp_all add: case_env_def case_binding_env_def binding_env.defs)

lemma sample_new_binding:
  "newRecoveryBindingForSchema (case_env c g) (case_action c) (rb_planDigest (case_binding c))
     (rb_token (case_binding c)) (rb_trashLayoutBinding (case_binding c)) 2 = Inr (case_binding c)"
  unfolding newRecoveryBinding_Inr
proof (intro exI conjI)
  show "recovery_action (case_action c) sample_source sample_recovery_precondition"
    by (rule case_recovery_action)
  show "be_encodeAction (case_env c g) (case_action c) (rb_planDigest (case_binding c)) = Some [7]"
    by (simp add: sample_env_simps)
  show "case_binding c = binding_of (case_env c g) (case_action c) sample_source sample_recovery_precondition [7]
      (rb_planDigest (case_binding c)) (rb_token (case_binding c)) (rb_trashLayoutBinding (case_binding c))"
    by (cases c) (simp_all add: case_binding_def binding_of_def sample_env_simps case_binding_env_def)
  show "NewPrivateLedgerRecordID (hex_encode (ComputeActionBindingDigest (be_sha256 (case_env c g)) [7]))
      (rb_token (case_binding c)) 0 = Inr \<lparr> rid_actionBindingDigest = hex_encode (replicate 32 1),
        rid_token = sample_token, rid_ordinal = 0 \<rparr>"
    unfolding sample_env_simps by (induct c; code_simp)
qed (induct c; code_simp)+

lemma sample_binding_valid: "validateRecoveryBindingForSchema (case_env c g) (case_binding c) 2 = None"
proof (rule binding_of_valid [where a = "case_action c"])
  show "newRecoveryBindingForSchema (case_env c g) (case_action c) (rb_planDigest (case_binding c))
      (rb_token (case_binding c)) (rb_trashLayoutBinding (case_binding c)) 2 = Inr (case_binding c)"
    by (rule sample_new_binding)
qed ((simp add: sample_env_simps; fail) | (cases c; code_simp))+

definition case_recovery :: "sample_case \<Rightarrow> u8 \<Rightarrow> recovery_event \<times> recovery_outcome \<Rightarrow> recovery" where
  "case_recovery c n p = \<lparr> rec_schemaVersion = 2, rec_binding = case_binding c, rec_event = fst p, rec_ordinal = n,
     rec_digest = replicate 32 1, rec_outcome = snd p, rec_metadata = case_metadata c p \<rparr>"

abbreviation sample_frames :: "(recovery_event \<times> recovery_outcome) list \<Rightarrow> recovery_frame list" where
  "sample_frames \<equiv> case_frames TrashCase"
abbreviation sample_recovery :: "u8 \<Rightarrow> recovery_event \<times> recovery_outcome \<Rightarrow> recovery" where
  "sample_recovery \<equiv> case_recovery TrashCase"

lemma case_destination: "rb_destination (case_binding c) = (if c = TrashCase then RecoveryDestinationTrash else RecoveryDestinationQuarantine)"
  by (induct c; code_simp)

text \<open>When the frame of the fact \<open>q\<close> may follow the frame of \<open>p\<close>.\<close>

definition case_follows :: "sample_case \<Rightarrow> recovery_event \<times> recovery_outcome \<Rightarrow> recovery_event \<times> recovery_outcome \<Rightarrow> bool" where
  "case_follows c p q \<longleftrightarrow> \<not> recovery_Closed (case_recovery c 0 p) \<and> recovery_event_validate (fst q) = None \<and>
     fst q \<noteq> IntentReserved \<and>
     stage_transition (rb_destination (case_binding c)) (recovery_stage (case_recovery c 0 p))
       \<lparr> tr_Event = fst q, tr_Outcome = snd q, tr_Metadata = case_metadata c q \<rparr> = None \<and>
     (if fst q = ReconciliationResolved then recovery_outcome_validate (snd q) = None else snd q = [])"

abbreviation sample_follows :: "recovery_event \<times> recovery_outcome \<Rightarrow> recovery_event \<times> recovery_outcome \<Rightarrow> bool" where
  "sample_follows \<equiv> case_follows TrashCase"

lemma sample_frame_simps [simp]:
  "fr_schemaVersion (case_frame c n e out m) = 2" "fr_binding (case_frame c n e out m) = case_binding c"
  "fr_event (case_frame c n e out m) = e" "fr_ordinal (case_frame c n e out m) = n"
  "fr_predecessor (case_frame c n e out m) = replicate 32 (if n = 0 then 0 else 1)"
  "fr_outcome (case_frame c n e out m) = out" "fr_metadata (case_frame c n e out m) = m"
  by (simp_all add: case_frame_def)

lemma sample_intent_valid: "validateRecoveryFrame (case_env c g) (case_frame c 0 IntentReserved [] []) = None"
  by (simp add: validateRecoveryFrame_def case_frame_def checks_Cons sample_binding_valid marked_None
      recoveryLedgerSchemaVersionV2_def zero_digest_def planDigestLength_def recovery_event_validate_def recovery_events_def
      linuxfsMaximumLedgerOrdinal_def)

lemma sample_frame_valid:
  assumes "case_follows c p q" "n \<noteq> 0" "n \<le> 15"
  shows "validateRecoveryFrame (case_env c g) (case_frame c n (fst q) (snd q) (case_metadata c q)) = None"
proof -
  have "replicate 32 (1 :: u8) \<noteq> zero_digest" by (simp add: zero_digest_def)
  moreover have "case_metadata c q \<noteq> [] \<Longrightarrow> fst q = ReconciliationResolved \<and> recovery_metadata_validate (case_metadata c q) = None"
    by (simp add: case_metadata_def recovery_metadata_validate_def split: if_splits)
  ultimately show ?thesis using assms
    by (auto simp: validateRecoveryFrame_def case_frame_def checks_Cons sample_binding_valid marked_None
        recoveryLedgerSchemaVersionV2_def linuxfsMaximumLedgerOrdinal_def case_follows_def
        validateOrdinaryTransition_def split: if_splits)
qed

lemma sample_encode:
  assumes "validateRecoveryFrame (case_env c g) f = None" "fr_schemaVersion f = 2"
  shows "encodeRecoveryFrame (case_env c g) f = Inr [fr_ordinal f, 1]"
  using assms by (simp add: encodeRecoveryFrame_def recoveryLedgerSchemaVersionV1_def
      recoveryLedgerSchemaVersionV2_def sample_env_simps maximumRecoveryFrameBytes_def
      toRecoveryFrameV2Wire_def toRecoveryFrameWire_def Let_def frame_v1_wire.defs)

lemma sample_digest:
  assumes "validateRecoveryFrame (case_env c g) f = None" "fr_schemaVersion f = 2"
  shows "recoveryFrameDigest (case_env c g) f = Inr (replicate 32 1)"
  using sample_encode [OF assms] assms(2)
  by (simp add: recoveryFrameDigest_def recoveryLedgerSchemaVersionV1_def recoveryLedgerSchemaVersionV2_def
      sample_env_simps digest_copy_same)

lemma sample_transition:
  assumes "case_follows c p q"
  shows "validateRecoveryTransition (case_env c g) (case_recovery c n p)
    \<lparr> tr_Event = fst q, tr_Outcome = snd q, tr_Metadata = case_metadata c q \<rparr> = None"
proof -
  have "recovery_Closed (case_recovery c n p) = recovery_Closed (case_recovery c 0 p)"
    "recovery_stage (case_recovery c n p) = recovery_stage (case_recovery c 0 p)"
    by (simp_all add: recovery_Closed_def recovery_stage_def case_recovery_def)
  moreover have "rec_binding (case_recovery c n p) = case_binding c" "rec_schemaVersion (case_recovery c n p) = 2"
    by (simp_all add: case_recovery_def)
  ultimately show ?thesis
    using assms by (simp add: validateRecoveryTransition_def checks_Cons case_follows_def sample_binding_valid)
qed

lemma sample_history:
  assumes "facts \<noteq> []" "length facts \<le> 16" "hd facts = (IntentReserved, [])" "successively (case_follows c) facts"
  shows "history (case_env c g) (case_frames c facts) (case_recovery c (word_of_nat (length facts - 1)) (last facts))"
  using assms
proof (induction facts rule: rev_induct)
  case (snoc q facts)
  show ?case
  proof (cases "facts = []")
    case True
    with snoc.prems have "q = (IntentReserved, [])" by simp
    with True sample_intent_valid [of c g] show ?thesis
      using sample_digest [OF sample_intent_valid [of c g]]
      by (auto intro!: history.intent simp: case_frames_def recoveryFromFrame_Inr case_recovery_def)
  next
    case False
    let ?n = "word_of_nat (length facts) :: u8" and ?r = "case_recovery c (word_of_nat (length facts - 1)) (last facts)"
    let ?f = "case_frame c ?n (fst q) (snd q) (case_metadata c q)"
    have h: "history (case_env c g) (case_frames c facts) ?r"
      using snoc False by (simp add: successively_append_iff)
    have follows: "case_follows c (last facts) q" using snoc.prems(4) False by (simp add: successively_append_iff)
    have small: "unat ?n = length facts" using snoc.prems(2) small_ordinal by simp
    then have n: "?n \<noteq> 0" "?n \<le> 15" using False snoc.prems(2)
      by (auto simp: word_le_nat_alt)
    note valid = sample_frame_valid [OF follows n, of g]
    have frames: "case_frames c (facts @ [q]) = case_frames c facts @ [?f]"
      unfolding case_frames_def by (simp add: nth_append)
    have "history (case_env c g) (case_frames c facts @ [?f]) (case_recovery c ?n q)"
    proof (rule history.extended [OF h _ valid])
      show "recovery_apply (case_env c g) ?r ?f = Inr (case_recovery c ?n q)"
        using sample_digest [OF valid] by (simp add: recovery_apply_Inr case_recovery_def)
      show "validateRecoveryTransition (case_env c g) ?r (transition_of ?f) = None"
        using sample_transition [OF follows] by (simp add: transition_of_def)
    qed (use snoc.prems(2) n in \<open>simp_all add: case_frames_def case_recovery_def\<close>)
    then show ?thesis by (simp add: frames)
  qed
qed simp

lemma sample_loop_history:
  "history (sample_env g) (sample_frames sample_restore_loop) (sample_recovery 15 (RestoreIndeterminate, []))"
proof -
  have "successively sample_follows sample_restore_loop" by code_simp
  from sample_history [OF _ _ _ this, of g] show ?thesis by (simp add: sample_restore_loop_def)
qed

section \<open>Properties\<close>

lemma path_nth:
  assumes "map frame_stage h = map Some ss" "successively (recovery_step trash) ss" "hd ss = Reserved"
    "n < length h" "frame_stage (h ! n) = Some s" "s \<noteq> Reserved"
  shows "0 < n \<and> (\<exists>s0. frame_stage (h ! (n - 1)) = Some s0 \<and> recovery_step trash s0 s)"
proof -
  have len: "length ss = length h" using assms(1) by (rule map_eq_imp_length_eq [symmetric])
  have stages: "frame_stage (h ! m) = Some (ss ! m)" if "m < length h" for m
    using arg_cong [OF assms(1), of "\<lambda>xs. xs ! m"] that len by simp
  have "n \<noteq> 0"
  proof
    assume "n = 0"
    with assms(4) len have "ss \<noteq> []" by auto
    with stages [OF assms(4)] assms(3,5,6) \<open>n = 0\<close> show False by (simp add: hd_conv_nth)
  qed
  then obtain m where "n = Suc m" by (cases n) auto
  with assms(2,4,5) stages len show ?thesis by (auto simp: successively_conv_nth)
qed

lemma stage_of_MoveDispatched: "stage_of e out = Some MoveDispatched \<longleftrightarrow> e = MoveDispatchRecorded"
  and stage_of_MetaDispatched: "stage_of e out = Some MetaDispatched \<longleftrightarrow> e = MetadataDispatchRecorded"
  and stage_of_RestoreDispatched: "stage_of e out = Some RestoreDispatched \<longleftrightarrow> e = RestoreDispatchRecorded"
  and stage_of_Reserved: "stage_of e out = Some Reserved \<longleftrightarrow> e = IntentReserved"
  and stage_of_MetaVerified: "stage_of e out = Some MetaVerified \<longleftrightarrow> e = MetadataVerified"
  and stage_of_Moved: "stage_of e out = Some Moved \<longleftrightarrow> e = MoveVerified \<or> e = ReconciliationResolved \<and> out = OutcomeMoveVerified"
  by (auto simp: stage_of_def recovery_vocabulary_defs)

lemmas stage_of_iff = stage_of_MoveDispatched stage_of_MetaDispatched stage_of_RestoreDispatched
  stage_of_Reserved stage_of_MetaVerified stage_of_Moved

inductive_cases to_verified: "recovery_step trash s MetaVerified"
inductive_cases to_restore: "recovery_step trash s RestoreDispatched"

text \<open>
  C30: a recovery is a path of the closed graph. The frames an accepted history holds are the
  stages of a path of the step relation that starts at the reservation; the recovery is closed exactly
  when the path ended; and the transitions the code accepts next lead to exactly the successors the
  graph has, no more and no fewer.
\<close>

theorem replay_follows_graph:
  assumes "replayRecoveryFrames env h = Inr r"
  shows "\<exists>ss. map frame_stage h = map Some ss \<and> hd ss = Reserved \<and>
    successively (recovery_step (is_trash (rec_binding r))) ss \<and>
    (recovery_Closed r \<longleftrightarrow> last ss \<in> {NotApplied, Restored}) \<and>
    {s'. \<exists>t. validateRecoveryTransition env r t = None \<and> stage_of (tr_Event t) (tr_Outcome t) = Some s'} =
      {s'. recovery_step (is_trash (rec_binding r)) (last ss) s'}"
proof -
  have h: "history env h r" using assms by (simp add: replay_iff)
  from history_path [OF h] obtain ss where ss: "map frame_stage h = map Some ss" "hd ss = Reserved"
    "stage_of (rec_event r) (rec_outcome r) = Some (last ss)" "successively (recovery_step (is_trash (rec_binding r))) ss"
    by blast
  have valid: "validateRecoveryBindingForSchema env (rec_binding r) (rec_schemaVersion r) = None"
    using history_facts [OF h] valid_frame_binding by metis
  have "{s'. \<exists>t. validateRecoveryTransition env r t = None \<and> stage_of (tr_Event t) (tr_Outcome t) = Some s'} =
      {s'. recovery_step (is_trash (rec_binding r)) (last ss) s'}"
    by (simp only: accepted_successors [OF ss(3) valid])
  with ss closed_stage [OF ss(3)] show ?thesis by blast
qed

text \<open>
  Content is only dispatched after what must precede it is durable. In an accepted history the
  move of a Trash action directly follows its verified metadata and the move of a quarantine action
  its reservation; metadata is dispatched only for the Trash, right after the reservation; and a restore
  directly follows a frame that verified the move.
\<close>

theorem dispatch_order:
  assumes "replayRecoveryFrames env h = Inr r" and "n < length h"
  shows "(fr_event (h ! n) = MoveDispatchRecorded \<longrightarrow> 0 < n \<and>
      fr_event (h ! (n - 1)) = (if is_trash (rec_binding r) then MetadataVerified else IntentReserved)) \<and>
    (fr_event (h ! n) = MetadataDispatchRecorded \<longrightarrow> is_trash (rec_binding r) \<and> 0 < n \<and>
      fr_event (h ! (n - 1)) = IntentReserved) \<and>
    (fr_event (h ! n) = RestoreDispatchRecorded \<longrightarrow> 0 < n \<and>
      (fr_event (h ! (n - 1)) = MoveVerified \<or>
       fr_event (h ! (n - 1)) = ReconciliationResolved \<and> fr_outcome (h ! (n - 1)) = OutcomeMoveVerified))"
proof -
  have "history env h r" using assms(1) by (simp add: replay_iff)
  from history_path [OF this] obtain ss where ss: "map frame_stage h = map Some ss" "hd ss = Reserved"
    "successively (recovery_step (is_trash (rec_binding r))) ss" by blast
  note before = path_nth [OF ss(1,3,2), unfolded frame_stage_def]
  have trash: "is_trash (rec_binding r)"
    if "m < length h" "stage_of (fr_event (h ! m)) (fr_outcome (h ! m)) = Some MetaDispatched" for m
    using before [OF that] by (auto elim: to_metadata)
  have verified: "is_trash (rec_binding r)"
    if "m < length h" "stage_of (fr_event (h ! m)) (fr_outcome (h ! m)) = Some MetaVerified" for m
    using before [OF that] less_imp_diff_less [OF that(1), of 1] trash [of "m - 1"] by (auto elim: to_verified)
  have "0 < n \<and> fr_event (h ! (n - 1)) = (if is_trash (rec_binding r) then MetadataVerified else IntentReserved)"
    if "fr_event (h ! n) = MoveDispatchRecorded"
    using before [OF assms(2), of MoveDispatched] that less_imp_diff_less [OF assms(2), of 1] verified [of "n - 1"]
    by (auto simp: stage_of_iff elim!: to_dispatched)
  moreover have "is_trash (rec_binding r) \<and> 0 < n \<and> fr_event (h ! (n - 1)) = IntentReserved"
    if "fr_event (h ! n) = MetadataDispatchRecorded"
    using before [OF assms(2), of MetaDispatched] that by (auto simp: stage_of_iff elim!: to_metadata)
  moreover have "0 < n \<and> (fr_event (h ! (n - 1)) = MoveVerified \<or>
      fr_event (h ! (n - 1)) = ReconciliationResolved \<and> fr_outcome (h ! (n - 1)) = OutcomeMoveVerified)"
    if "fr_event (h ! n) = RestoreDispatchRecorded"
    using before [OF assms(2), of RestoreDispatched] that by (auto simp: stage_of_iff elim!: to_restore)
  ultimately show ?thesis by blast
qed

text \<open>
  C31: appending is replaying one frame more. For a history of the current schema, the appender
  builds exactly the frame that extends it: a longer history replays if and only if its last frame is the
  one the appender returns for the facts it carries, and it replays to the recovery the frame is applied to.
\<close>

theorem append_extends_replay:
  assumes "replayRecoveryFrames env h = Inr r" and "rec_schemaVersion r = 2"
  shows "replayRecoveryFrames env (h @ [f]) = Inr r' \<longleftrightarrow>
    appendRecoveryTransition env h (transition_of f) = Inr f \<and> recovery_apply env r f = Inr r'"
proof -
  have "history env h r" using assms(1) by (simp add: replay_iff)
  from history_snoc [OF this] append_Inr [OF this] show ?thesis
    using assms(2) by (auto simp: replay_iff)
qed

lemma chain_seals:
  assumes "history env h r" "history env h' r'" "rec_digest r = rec_digest r'"
    and injective: "\<And>f f'. f \<in> set h \<Longrightarrow> f' \<in> set h' \<Longrightarrow> recoveryFrameDigest env f = recoveryFrameDigest env f' \<Longrightarrow> f = f'"
  shows "h = h'"
  using assms
proof (induction arbitrary: h' r' rule: history.induct)
  case (intent f r)
  note facts' = history_facts [OF intent.prems(1)]
  have "f = last h'"
    using intent.prems(2,3) intent.hyps facts' by (simp add: recoveryFromFrame_Inr)
  then have "unat (fr_ordinal f) = length h' - 1" using ordinal_length [OF intent.prems(1)] by simp
  with facts' intent.hyps(2) have "length h' = 1" by (cases h') auto
  with \<open>f = last h'\<close> show ?case by (cases h') auto
next
  case (extended h r f r1)
  note facts' = history_facts [OF extended.prems(1)]
  have f: "f = last h'"
    using extended.prems(2,3) extended.hyps(9) facts' by (simp add: recovery_apply_Inr)
  have "unat (fr_ordinal f) = length h" using extended.hyps(2,4) small_ordinal [of "length h"] by simp
  then have "length h = length h' - 1" using f ordinal_length [OF extended.prems(1)] by simp
  moreover have "h \<noteq> []" using history_facts [OF extended.hyps(1)] by blast
  ultimately have "length h' \<noteq> 1" by (cases h) auto
  with extended.prems(1) obtain h0 r0 where h0: "h' = h0 @ [f]" "history env h0 r0" "fr_predecessor f = rec_digest r0"
    using f by (cases rule: history.cases) auto
  with extended.IH [of h0 r0] extended.hyps(7) extended.prems(3) show ?case by auto
qed

text \<open>
  C32: the digest of the last frame seals the whole history. Two accepted histories with the same
  current digest are the same list of frames, unless two different frames of theirs exhibit a collision
  of the frame digest.
\<close>

theorem digest_seals_history:
  assumes "replayRecoveryFrames env h = Inr r" and "replayRecoveryFrames env h' = Inr r'"
    and "rec_digest r = rec_digest r'"
  shows "h = h' \<or> (\<exists>f \<in> set h. \<exists>f' \<in> set h'. f \<noteq> f' \<and> recoveryFrameDigest env f = recoveryFrameDigest env f')"
  using chain_seals [of env h r h' r'] assms by (auto simp: replay_iff)

text \<open>
  C34: an open recovery can run out of ordinals. A Trash move whose restore stays indeterminate and is
  found not to have happened three times reaches the last ordinal, 15, while it is still open: its frames
  replay, the graph offers two ways on, and every transition is refused as a conflict for ever after.
\<close>

theorem ordinal_exhaustion:
  "replayRecoveryFrames (sample_env g) (sample_frames sample_restore_loop) =
     Inr (sample_recovery 15 (RestoreIndeterminate, [])) \<and>
   \<not> recovery_Closed (sample_recovery 15 (RestoreIndeterminate, [])) \<and>
   validateRecoveryTransition (sample_env g) (sample_recovery 15 (RestoreIndeterminate, []))
     \<lparr> tr_Event = ReconciliationResolved, tr_Outcome = OutcomeRestoreVerified, tr_Metadata = [] \<rparr> = None \<and>
   appendRecoveryTransition (sample_env g) (sample_frames sample_restore_loop) t = Inl [ErrRecoveryConflict]"
proof -
  let ?r = "sample_recovery 15 (RestoreIndeterminate, [])"
  have h: "history (sample_env g) (sample_frames sample_restore_loop) ?r" by (rule sample_loop_history)
  have "sample_follows (RestoreIndeterminate, []) (ReconciliationResolved, OutcomeRestoreVerified)" by code_simp
  from sample_transition [OF this] have next_step: "validateRecoveryTransition (sample_env g) ?r
     \<lparr> tr_Event = ReconciliationResolved, tr_Outcome = OutcomeRestoreVerified, tr_Metadata = [] \<rparr> = None" by simp
  have "length (sample_frames sample_restore_loop) = 16" by (simp add: case_frames_def sample_restore_loop_def)
  with h have "appendRecoveryTransition (sample_env g) (sample_frames sample_restore_loop) t = Inl [ErrRecoveryConflict]"
    using ordinal_capacity [OF h]
    by (simp add: appendRecoveryTransition_def h [folded replay_iff] checks_Cons case_recovery_def
        recoveryLedgerSchemaVersionV2_def check_def)
  moreover have "\<not> recovery_Closed ?r" by code_simp
  ultimately show ?thesis using h next_step by (simp add: replay_iff)
qed

section \<open>Witnesses\<close>

text \<open>In these the decoder is not consulted; one frame stands for all it could decode to.\<close>

abbreviation witness_env :: frame_env where
  "witness_env \<equiv> sample_env (\<lambda>_. sample_intent)"

lemma sample_loop_replay:
  "replayRecoveryFrames witness_env (sample_frames sample_restore_loop) =
     Inr (sample_recovery 15 (RestoreIndeterminate, []))"
  using sample_loop_history [of "\<lambda>_. sample_intent"] by (simp add: replay_iff)

lemma sample_intent_replay:
  "replayRecoveryFrames witness_env (sample_frames [(IntentReserved, [])]) =
     Inr (sample_recovery 0 (IntentReserved, []))"
  using sample_history [of "[(IntentReserved, [])]" TrashCase "\<lambda>_. sample_intent"] by (simp add: replay_iff)

lemma sample_dispatch_replay:
  "replayRecoveryFrames witness_env (sample_frames [(IntentReserved, []), (MetadataDispatchRecorded, [])]) =
     Inr (sample_recovery 1 (MetadataDispatchRecorded, []))"
proof -
  have "successively sample_follows [(IntentReserved, []), (MetadataDispatchRecorded, [])]" by code_simp
  from sample_history [OF _ _ _ this, of "\<lambda>_. sample_intent"] show ?thesis by (simp add: replay_iff)
qed

theorem recovery_frame_codec_witness:
  "decodeRecoveryFrame witness_env [0, 1] = Inr sample_intent"
proof -
  have valid: "validateRecoveryFrame witness_env sample_intent = None"
    using sample_intent_valid by (simp add: sample_intent_def)
  have arrays: "frame_arrays sample_intent"
    by (simp add: frame_arrays_def sample_intent_def case_binding_def binding_of_def
        sample_plan_digest_def sample_layout_binding_def)
  have faithful: "cbor_faithful witness_env sample_intent [0, 1]"
    by (simp add: cbor_faithful_def sample_intent_def case_env_def binding_env.defs)
  show ?thesis
    using recovery_frame_codec [OF arrays faithful] sample_encode [OF valid] by (simp add: sample_intent_def)
qed

theorem replay_follows_graph_witness:
  "\<exists>ss. map frame_stage (sample_frames sample_restore_loop) = map Some ss \<and> hd ss = Reserved \<and>
     successively (recovery_step (is_trash sample_binding)) ss"
  using replay_follows_graph [OF sample_loop_replay] by (auto simp: case_recovery_def)

theorem dispatch_order_witness:
  "fr_event (sample_frames sample_restore_loop ! 3) = MoveDispatchRecorded \<and>
   fr_event (sample_frames sample_restore_loop ! 2) = MetadataVerified"
proof -
  have "3 < length (sample_frames sample_restore_loop)" "is_trash sample_binding"
    "fr_event (sample_frames sample_restore_loop ! 3) = MoveDispatchRecorded"
    by (simp add: case_frames_def sample_restore_loop_def, code_simp, simp add: case_frames_def sample_restore_loop_def)
  with dispatch_order [OF sample_loop_replay this(1)] show ?thesis by (simp add: case_recovery_def)
qed

theorem append_extends_replay_witness:
  "appendRecoveryTransition witness_env (sample_frames [(IntentReserved, [])])
     \<lparr> tr_Event = MetadataDispatchRecorded, tr_Outcome = [], tr_Metadata = [] \<rparr> =
     Inr (sample_frame 1 MetadataDispatchRecorded [] [])"
proof -
  have "rec_schemaVersion (sample_recovery 0 (IntentReserved, [])) = 2" by (simp add: case_recovery_def)
  note extends = append_extends_replay [OF sample_intent_replay this]
  have "sample_frames [(IntentReserved, []), (MetadataDispatchRecorded, [])] =
      sample_frames [(IntentReserved, [])] @ [sample_frame 1 MetadataDispatchRecorded [] []]"
    by (simp add: case_frames_def)
  with extends sample_dispatch_replay show ?thesis by (simp add: transition_of_def)
qed

theorem digest_seals_history_witness:
  "\<exists>f \<in> set (sample_frames [(IntentReserved, [])]). \<exists>f' \<in> set (sample_frames sample_restore_loop).
     f \<noteq> f' \<and> recoveryFrameDigest witness_env f = recoveryFrameDigest witness_env f'"
proof -
  have "length (sample_frames [(IntentReserved, [])]) \<noteq> length (sample_frames sample_restore_loop)"
    by (simp add: case_frames_def sample_restore_loop_def)
  then have "sample_frames [(IntentReserved, [])] \<noteq> sample_frames sample_restore_loop" by metis
  with digest_seals_history [OF sample_intent_replay sample_loop_replay] show ?thesis
    by (simp add: case_recovery_def)
qed

end
