(* ===== verification/RecoveryRecords.thy ===== *)
theory RecoveryRecords
  imports RecoveryReplay "HOL-Library.AList" "HOL-Library.Multiset"
begin

text \<open>
  \<^verbatim>\<open>src/internal/state/recovery_ledger.go\<close>, fourth part: from the records of a ledger to the
  recoveries they hold. Records are decoded and grouped by action binding digest and token, each group
  is sorted by ordinal and replayed, and no two open recoveries may keep the same source. A Go map is
  an association list with one entry per key; the code sorts its keys before it uses them.
\<close>

section \<open>Records and histories\<close>

record ledger_record =
  lr_id :: record_id
  lr_contents :: bytes

record recovery_history =
  rh_frames :: "recovery_frame list"
  rh_recovery :: recovery

type_synonym history_key = "string \<times> string"

definition frame_key :: "recovery_frame \<Rightarrow> history_key" where
  "frame_key f = (hex_encode (rb_actionBindingDigest (fr_binding f)), rb_token (fr_binding f))"

definition frame_id :: "recovery_frame \<Rightarrow> record_id" where
  "frame_id f = \<lparr> rid_actionBindingDigest = fst (frame_key f), rid_token = snd (frame_key f), rid_ordinal = fr_ordinal f \<rparr>"

definition appendRecoveryKeyPart :: "bytes \<Rightarrow> bytes \<Rightarrow> bytes" where
  "appendRecoveryKeyPart encoded value =
     (let len = length value
      in encoded @ [word_of_nat (len div 2 ^ 24), word_of_nat (len div 2 ^ 16), word_of_nat (len div 2 ^ 8),
           word_of_nat len] @ value)"

definition recoverySourceKey :: "recovery_binding \<Rightarrow> bytes" where
  "recoverySourceKey b =
     foldl appendRecoveryKeyPart (appendRecoveryKeyPart [] (bytes_of (rb_root b))) (path_components (rb_source b))"

fun unique_sources :: "bytes list \<Rightarrow> recovery_history list \<Rightarrow> go_error option" where
  "unique_sources seen [] = None"
| "unique_sources seen (h # hs) =
     (if recovery_Closed (rh_recovery h) then unique_sources seen hs
      else
        (let key = recoverySourceKey (rec_binding (rh_recovery h))
         in if key \<in> set seen then Some [ErrRecoveryConflict] else unique_sources (key # seen) hs))"

definition ensureUniqueOutstandingSources :: "recovery_history list \<Rightarrow> go_error option" where
  "ensureUniqueOutstandingSources hs = unique_sources [] hs"

text \<open>
  One record of the first loop: \<open>groups\<close> is the map of frames and \<open>seen\<close> the ordinals
  already met under each key.
\<close>

definition group_record ::
    "'e frame_env_scheme \<Rightarrow> (history_key \<times> recovery_frame list) list \<Rightarrow> (history_key \<times> u8) list \<Rightarrow> ledger_record \<Rightarrow>
     go_error + recovery_frame" where
  "group_record env groups seen r =
     (case NewPrivateLedgerRecordID (rid_actionBindingDigest (lr_id r)) (rid_token (lr_id r)) (rid_ordinal (lr_id r)) of
        Inl _ \<Rightarrow> Inl [ErrRecoveryCorrupt]
      | Inr i \<Rightarrow>
        (case decodeRecoveryFrame env (lr_contents r) of
           Inl e \<Rightarrow> Inl e
         | Inr f \<Rightarrow>
           if hex_encode (rb_actionBindingDigest (fr_binding f)) \<noteq> rid_actionBindingDigest i \<or>
             rb_token (fr_binding f) \<noteq> rid_token i \<or> fr_ordinal f \<noteq> rid_ordinal i
           then Inl [ErrRecoveryCorrupt]
           else if ((rid_actionBindingDigest i, rid_token i), rid_ordinal i) \<in> set seen then Inl [ErrRecoveryCorrupt]
           else Inr f))"

fun group_records ::
    "'e frame_env_scheme \<Rightarrow> (history_key \<times> recovery_frame list) list \<Rightarrow> (history_key \<times> u8) list \<Rightarrow> ledger_record list \<Rightarrow>
     go_error + (history_key \<times> recovery_frame list) list" where
  "group_records env groups seen [] = Inr groups"
| "group_records env groups seen (r # rs) =
     (case group_record env groups seen r of
        Inl e \<Rightarrow> Inl e
      | Inr f \<Rightarrow> group_records env (AList.map_default (frame_key f) [f] (\<lambda>fs. fs @ [f]) groups)
          ((frame_key f, fr_ordinal f) # seen) rs)"

fun replay_groups ::
    "'e frame_env_scheme \<Rightarrow> (history_key \<Rightarrow> recovery_frame list) \<Rightarrow> history_key list \<Rightarrow> go_error + recovery_history list" where
  "replay_groups env frames_of [] = Inr []"
| "replay_groups env frames_of (k # ks) =
     (let frames = sort_key fr_ordinal (frames_of k)
      in case replayRecoveryFrames env frames of
          Inl e \<Rightarrow> Inl e
        | Inr r \<Rightarrow>
          (case replay_groups env frames_of ks of
             Inl e \<Rightarrow> Inl e
           | Inr hs \<Rightarrow> Inr (\<lparr> rh_frames = frames, rh_recovery = r \<rparr> # hs)))"

definition replayRecoveryLedgerRecords ::
    "'e frame_env_scheme \<Rightarrow> ledger_record list \<Rightarrow> go_error + recovery_history list" where
  "replayRecoveryLedgerRecords env records =
     (if int (length records) > maximumRecoveryLedgerRecords then Inl [ErrRecoveryUnsupported]
      else case group_records env [] [] records of
          Inl e \<Rightarrow> Inl e
        | Inr groups \<Rightarrow>
          (case replay_groups env (\<lambda>k. case map_of groups k of None \<Rightarrow> [] | Some fs \<Rightarrow> fs) (sort (map fst groups)) of
             Inl e \<Rightarrow> Inl e
           | Inr hs \<Rightarrow> (case ensureUniqueOutstandingSources hs of Some e \<Rightarrow> Inl e | None \<Rightarrow> Inr hs)))"

section \<open>Questions to the histories\<close>

text \<open>The zero \<^verbatim>\<open>Recovery\<close> is \<open>None\<close>; its token is empty.\<close>

definition recovery_Token :: "recovery option \<Rightarrow> string" where
  "recovery_Token r = (case r of None \<Rightarrow> [] | Some r \<Rightarrow> rb_token (rec_binding r))"

fun capacity_check :: "int \<Rightarrow> recovery_history list \<Rightarrow> go_error option" where
  "capacity_check retained_count [] = None"
| "capacity_check retained_count (h # hs) =
     (let total = retained_count + int (length (rh_frames h))
      in if total \<ge> maximumRecoveryLedgerRecords then Some [ErrRecoveryConflict] else capacity_check total hs)"

definition requireRecoveryLedgerPublicationCapacity :: "recovery_history list \<Rightarrow> go_error option" where
  "requireRecoveryLedgerPublicationCapacity hs = capacity_check 0 hs"

fun find_outstanding ::
    "trusted_root_id \<Rightarrow> byte_path \<Rightarrow> recovery option \<Rightarrow> recovery_history list \<Rightarrow> go_error + recovery option" where
  "find_outstanding root source found [] = Inr found"
| "find_outstanding root source found (h # hs) =
     (let candidate = rh_recovery h
      in if recovery_Closed candidate \<or> rb_root (rec_binding candidate) \<noteq> root \<or>
           \<not> byte_path_equal (rb_source (rec_binding candidate)) source
         then find_outstanding root source found hs
         else if recovery_Token found \<noteq> [] then Inl [ErrRecoveryConflict]
         else find_outstanding root source (Some candidate) hs)"

definition findOutstandingRecovery ::
    "recovery_history list \<Rightarrow> trusted_root_id \<Rightarrow> byte_path \<Rightarrow> go_error + recovery option" where
  "findOutstandingRecovery hs root source = find_outstanding root source None hs"

fun collect_outstanding :: "int \<Rightarrow> recovery list \<Rightarrow> recovery_history list \<Rightarrow> go_error + recovery list" where
  "collect_outstanding limit recoveries [] = Inr recoveries"
| "collect_outstanding limit recoveries (h # hs) =
     (if recovery_Closed (rh_recovery h) then collect_outstanding limit recoveries hs
      else if int (length recoveries) = limit then Inl [ErrRecoveryUnsupported]
      else collect_outstanding limit (recoveries @ [rh_recovery h]) hs)"

definition outstandingRecoveries :: "recovery_history list \<Rightarrow> int \<Rightarrow> go_error + recovery list" where
  "outstandingRecoveries hs limit =
     (if limit \<le> 0 \<or> limit > maximumRecoveryLedgerRecords then Inl [ErrRecoveryUnsupported]
      else collect_outstanding limit [] hs)"

definition same_identity :: "recovery \<Rightarrow> recovery \<Rightarrow> bool" where
  "same_identity r s = (rb_actionBindingDigest (rec_binding r) = rb_actionBindingDigest (rec_binding s) \<and>
     rb_token (rec_binding r) = rb_token (rec_binding s))"

definition findRecoveryHistory :: "recovery_history list \<Rightarrow> recovery \<Rightarrow> go_error + recovery_history" where
  "findRecoveryHistory hs r =
     (case find (\<lambda>h. same_identity (rh_recovery h) r) hs of
        None \<Rightarrow> Inl [ErrRecoveryConflict] | Some h \<Rightarrow> Inr h)"

section \<open>Grouping keeps every frame under its key\<close>

lemma frame_id_eq: "frame_id f = frame_id g \<longleftrightarrow> frame_key f = frame_key g \<and> fr_ordinal f = fr_ordinal g"
  by (auto simp: frame_id_def prod_eq_iff)

lemma valid_frame_id:
  assumes "validateRecoveryFrame env f = None"
  shows "record_id_validate (frame_id f) = None"
proof -
  have "\<exists>i. NewPrivateLedgerRecordID (fst (frame_key f)) (snd (frame_key f)) 0 = Inr i"
    using valid_frame_binding [OF assms] by (simp add: validateRecoveryBindingForSchema_def checks_Cons frame_key_def)
  moreover have "fr_ordinal f \<le> 15"
    using assms by (simp add: validateRecoveryFrame_def checks_Cons linuxfsMaximumLedgerOrdinal_def)
  ultimately show ?thesis
    by (auto simp: record_id_validate_def NewPrivateLedgerRecordID_def frame_id_def maximumPrivateLedgerOrdinal_def
        split: if_splits)
qed

lemma group_record_Inr:
  "group_record env groups seen r = Inr f \<longleftrightarrow>
     decodeRecoveryFrame env (lr_contents r) = Inr f \<and> lr_id r = frame_id f \<and> (frame_key f, fr_ordinal f) \<notin> set seen"
proof -
  have id_eq: "lr_id r = frame_id f \<longleftrightarrow> rid_actionBindingDigest (lr_id r) = hex_encode (rb_actionBindingDigest (fr_binding f)) \<and>
      rid_token (lr_id r) = rb_token (fr_binding f) \<and> rid_ordinal (lr_id r) = fr_ordinal f" for f
    by (cases "lr_id r") (simp add: frame_id_def frame_key_def)
  show ?thesis
  proof (cases "record_id_validate (lr_id r)")
    case None
    then have new: "NewPrivateLedgerRecordID (rid_actionBindingDigest (lr_id r)) (rid_token (lr_id r)) (rid_ordinal (lr_id r)) =
        Inr (lr_id r)" by (simp add: record_id_validate_None)
    show ?thesis
    proof (cases "decodeRecoveryFrame env (lr_contents r)")
      case (Inr g)
      then show ?thesis
        unfolding group_record_def new id_eq frame_key_def sum.case Inr
        by (cases "g = f") (auto split: if_splits)
    qed (simp add: group_record_def new)
  next
    case (Some e)
    then have "group_record env groups seen r \<noteq> Inr f"
      by (auto simp: group_record_def record_id_validate_def split: sum.splits)
    moreover have "lr_id r \<noteq> frame_id f" if "decodeRecoveryFrame env (lr_contents r) = Inr f"
      using valid_frame_id [OF decode_valid [OF that]] Some by auto
    ultimately show ?thesis by blast
  qed
qed

definition decoded_records :: "'e frame_env_scheme \<Rightarrow> ledger_record list \<Rightarrow> recovery_frame list \<Rightarrow> bool" where
  "decoded_records env rs fs \<longleftrightarrow>
     list_all2 (\<lambda>r f. decodeRecoveryFrame env (lr_contents r) = Inr f \<and> lr_id r = frame_id f) rs fs"

abbreviation add_frame :: "recovery_frame \<Rightarrow> (history_key \<times> recovery_frame list) list \<Rightarrow> (history_key \<times> recovery_frame list) list" where
  "add_frame f \<equiv> AList.map_default (frame_key f) [f] (\<lambda>fs. fs @ [f])"

lemma group_records_Inr:
  "group_records env groups seen rs = Inr gs \<longleftrightarrow>
     (\<exists>fs. decoded_records env rs fs \<and> distinct (map frame_id fs) \<and>
        (\<forall>f \<in> set fs. (frame_key f, fr_ordinal f) \<notin> set seen) \<and> gs = fold add_frame fs groups)"
proof (induction rs arbitrary: groups seen)
  case Nil
  then show ?case by (auto simp: decoded_records_def)
next
  case (Cons r rs)
  show ?case
  proof (cases "group_record env groups seen r")
    case (Inl e)
    then have "\<not> (decodeRecoveryFrame env (lr_contents r) = Inr f \<and> lr_id r = frame_id f \<and> (frame_key f, fr_ordinal f) \<notin> set seen)" for f
      using group_record_Inr [of env groups seen r f] by simp
    with Inl show ?thesis by (auto simp: decoded_records_def list_all2_Cons1)
  next
    case (Inr f)
    then have f: "decodeRecoveryFrame env (lr_contents r) = Inr f" "lr_id r = frame_id f"
      "(frame_key f, fr_ordinal f) \<notin> set seen"
      by (auto simp: group_record_Inr)
    have new_id: "frame_id f \<notin> frame_id ` set fs \<longleftrightarrow> (\<forall>g \<in> set fs. frame_key g = frame_key f \<longrightarrow> fr_ordinal g \<noteq> fr_ordinal f)" for fs
      by (auto simp: image_iff frame_id_eq)
    have "group_records env groups seen (r # rs) = Inr gs \<longleftrightarrow>
        (\<exists>fs. decoded_records env rs fs \<and> distinct (map frame_id (f # fs)) \<and>
          (\<forall>f \<in> set (f # fs). (frame_key f, fr_ordinal f) \<notin> set seen) \<and> gs = fold add_frame (f # fs) groups)"
      using Inr f(3) by (simp add: Cons.IH new_id ball_conj_distrib) blast
    also have "\<dots> \<longleftrightarrow> (\<exists>fs. decoded_records env (r # rs) fs \<and> distinct (map frame_id fs) \<and>
          (\<forall>f \<in> set fs. (frame_key f, fr_ordinal f) \<notin> set seen) \<and> gs = fold add_frame fs groups)"
    proof -
      have "decoded_records env (r # rs) fs \<longleftrightarrow> (\<exists>gs. fs = f # gs \<and> decoded_records env rs gs)" for fs
        using f(1,2) by (cases fs) (auto simp: decoded_records_def)
      then show ?thesis by (simp only: ex_simps simp_thms) blast
    qed
    finally show ?thesis .
  qed
qed

lemma map_of_groups:
  "map_of (fold add_frame fs groups) k =
     (if \<exists>f \<in> set fs. frame_key f = k
      then Some ((case map_of groups k of None \<Rightarrow> [] | Some xs \<Rightarrow> xs) @ filter (\<lambda>f. frame_key f = k) fs)
      else map_of groups k)"
proof (induction fs arbitrary: groups)
  case (Cons f fs)
  then show ?case
    by (auto simp: map_of_map_default filter_empty_conv split: option.splits)
qed simp

lemma group_keys:
  "set (map fst (fold add_frame fs [])) = frame_key ` set fs" "distinct (map fst (fold add_frame fs []))"
proof -
  have "set (map fst (fold add_frame fs groups)) = frame_key ` set fs \<union> set (map fst groups)" for groups
    by (induction fs arbitrary: groups) (auto simp: dom_map_default)
  from this [of "[]"] show "set (map fst (fold add_frame fs [])) = frame_key ` set fs" by simp
  have "distinct (map fst groups) \<Longrightarrow> distinct (map fst (fold add_frame fs groups))" for groups
    by (induction fs arbitrary: groups) (auto simp: distinct_map_default)
  from this [of "[]"] show "distinct (map fst (fold add_frame fs []))" by simp
qed

lemma replay_groups_Inr:
  "replay_groups env frames_of ks = Inr hs \<longleftrightarrow>
     list_all2 (\<lambda>k h. rh_frames h = sort_key fr_ordinal (frames_of k) \<and> history env (rh_frames h) (rh_recovery h)) ks hs"
proof (induction ks arbitrary: hs)
  case (Cons k ks)
  show ?case
  proof (cases hs)
    case Nil
    then show ?thesis by (auto simp: Let_def split: sum.splits)
  next
    fix h hs'
    assume hs: "hs = h # hs'"
    show ?thesis
      unfolding hs list_all2_Cons Cons.IH [symmetric]
      by (cases h) (auto simp: Let_def replay_iff [symmetric] split: sum.splits)
  qed
qed auto

text \<open>The histories of a list of frames: one for each key, in the order of the keys.\<close>

definition key_histories :: "'e frame_env_scheme \<Rightarrow> recovery_frame list \<Rightarrow> recovery_history list \<Rightarrow> bool" where
  "key_histories env fs hs \<longleftrightarrow>
     list_all2 (\<lambda>k h. rh_frames h = sort_key fr_ordinal (filter (\<lambda>f. frame_key f = k) fs) \<and>
       history env (rh_frames h) (rh_recovery h)) (sorted_list_of_set (frame_key ` set fs)) hs"

definition open_source_keys :: "recovery_history list \<Rightarrow> bytes list" where
  "open_source_keys hs = map (\<lambda>h. recoverySourceKey (rec_binding (rh_recovery h)))
     (filter (\<lambda>h. \<not> recovery_Closed (rh_recovery h)) hs)"

lemma unique_sources_None:
  "unique_sources seen hs = None \<longleftrightarrow> distinct (open_source_keys hs) \<and> set (open_source_keys hs) \<inter> set seen = {}"
  by (induction hs arbitrary: seen) (auto simp: open_source_keys_def Let_def)

lemma replayRecoveryLedgerRecords_Inr:
  "replayRecoveryLedgerRecords env rs = Inr hs \<longleftrightarrow>
     length rs \<le> 128 \<and> distinct (open_source_keys hs) \<and>
     (\<exists>fs. decoded_records env rs fs \<and> distinct (map frame_id fs) \<and> key_histories env fs hs)"
proof -
  have groups: "replay_groups env (\<lambda>k. case map_of (fold add_frame fs []) k of None \<Rightarrow> [] | Some fs \<Rightarrow> fs)
      (sort (map fst (fold add_frame fs []))) = Inr hs \<longleftrightarrow> key_histories env fs hs" for fs hs
  proof -
    have "sort ks = sorted_list_of_set (set ks)" if "distinct ks" for ks :: "history_key list"
      using that by (simp add: sorted_list_of_set_sort_remdups distinct_remdups_id)
    from this [OF group_keys(2)] have "sort (map fst (fold add_frame fs [])) = sorted_list_of_set (frame_key ` set fs)"
      unfolding group_keys(1) .
    moreover have "(case map_of (fold add_frame fs []) k of None \<Rightarrow> [] | Some fs \<Rightarrow> fs) =
        filter (\<lambda>f. frame_key f = k) fs" for k
      by (auto simp: map_of_groups filter_empty_conv)
    ultimately show ?thesis by (simp add: replay_groups_Inr key_histories_def)
  qed
  have "replayRecoveryLedgerRecords env rs = Inr hs \<longleftrightarrow> length rs \<le> 128 \<and>
      (\<exists>gs. group_records env [] [] rs = Inr gs \<and>
        replay_groups env (\<lambda>k. case map_of gs k of None \<Rightarrow> [] | Some fs \<Rightarrow> fs) (sort (map fst gs)) = Inr hs) \<and>
      distinct (open_source_keys hs)"
    by (auto simp: replayRecoveryLedgerRecords_def maximumRecoveryLedgerRecords_def ensureUniqueOutstandingSources_def
        gate_Inr unique_sources_None split: sum.splits)
  then show ?thesis by (auto simp: group_records_Inr groups)
qed

section \<open>Histories and the records they retain\<close>

lemma history_ordinals:
  "history env h r \<Longrightarrow> map (\<lambda>f. unat (fr_ordinal f)) h = [0..<length h]"
  by (induction rule: history.induct) (auto simp: small_ordinal)

lemma history_sorted:
  assumes "history env h r"
  shows "sorted (map fr_ordinal h)" "distinct (map fr_ordinal h)"
proof -
  have "sorted_wrt (<) (map (\<lambda>f. unat (fr_ordinal f)) h)"
    unfolding history_ordinals [OF assms] by simp
  then have "sorted_wrt (<) (map fr_ordinal h)"
    by (simp add: sorted_wrt_map word_less_nat_alt)
  then show "sorted (map fr_ordinal h)" "distinct (map fr_ordinal h)"
    by (simp_all add: sorted_wrt_less_distinct)
qed

definition history_key :: "recovery_history \<Rightarrow> history_key" where
  "history_key h = (hex_encode (rb_actionBindingDigest (rec_binding (rh_recovery h))), rb_token (rec_binding (rh_recovery h)))"

abbreviation is_history :: "'e frame_env_scheme \<Rightarrow> recovery_history \<Rightarrow> bool" where
  "is_history env h \<equiv> history env (rh_frames h) (rh_recovery h)"

lemma history_frame_key: "is_history env h \<Longrightarrow> f \<in> set (rh_frames h) \<Longrightarrow> frame_key f = history_key h"
  using history_binding(2) by (force simp: frame_key_def history_key_def)

lemma history_nonempty: "is_history env h \<Longrightarrow> rh_frames h \<noteq> []"
  using history_facts by blast

text \<open>
  The abstract state of a ledger is a partial function from record identities to contents. It
  \<^emph>\<open>retains\<close> a list of histories when its records are exactly the encoded frames of them, the
  histories stand in the order of their keys, and no two open ones have the same source.
\<close>

type_synonym record_store = "record_id \<rightharpoonup> bytes"

definition frame_at :: "'e frame_env_scheme \<Rightarrow> record_store \<Rightarrow> record_id \<Rightarrow> recovery_frame \<Rightarrow> bool" where
  "frame_at env m i f \<longleftrightarrow> (\<exists>c. m i = Some c \<and> decodeRecoveryFrame env c = Inr f)"

definition retained :: "'e frame_env_scheme \<Rightarrow> record_store \<Rightarrow> recovery_history list \<Rightarrow> bool" where
  "retained env m hs \<longleftrightarrow> finite (dom m) \<and> card (dom m) \<le> 128 \<and>
     (\<forall>h \<in> set hs. is_history env h) \<and> sorted_wrt (<) (map history_key hs) \<and>
     dom m = (\<Union>h \<in> set hs. frame_id ` set (rh_frames h)) \<and>
     (\<forall>h \<in> set hs. \<forall>f \<in> set (rh_frames h). frame_at env m (frame_id f) f) \<and>
     distinct (open_source_keys hs)"

definition records_of :: "record_store \<Rightarrow> record_id list \<Rightarrow> ledger_record list" where
  "records_of m ids = map (\<lambda>i. \<lparr> lr_id = i, lr_contents = the (m i) \<rparr>) ids"

lemma decoded_records_of:
  assumes "set ids = dom m"
  shows "decoded_records env (records_of m ids) fs \<longleftrightarrow> map frame_id fs = ids \<and> (\<forall>f \<in> set fs. frame_at env m (frame_id f) f)"
proof -
  have "decoded_records env (records_of m xs) fs \<longleftrightarrow> map frame_id fs = xs \<and> (\<forall>f \<in> set fs. frame_at env m (frame_id f) f)"
    if "set xs \<subseteq> dom m" for xs
    using that
  proof (induction fs arbitrary: xs)
    case (Cons f fs)
    then show ?case
      by (cases xs) (auto simp: decoded_records_def records_of_def frame_at_def)
  qed (auto simp: decoded_records_def records_of_def)
  with assms show ?thesis by simp
qed

lemma sorted_key_unique:
  assumes "sorted (map fr_ordinal xs)" "distinct (map fr_ordinal xs)" "sorted (map fr_ordinal ys)" "distinct (map fr_ordinal ys)"
    "set xs = set ys" "\<And>f. f \<in> set ys \<Longrightarrow> frame_key f = k"
    "\<And>f g. f \<in> set ys \<Longrightarrow> g \<in> set ys \<Longrightarrow> frame_id f = frame_id g \<Longrightarrow> f = g"
  shows "xs = ys"
  using assms by (intro map_sorted_distinct_set_unique [of fr_ordinal]) (auto simp: inj_on_def frame_id_eq)

lemma frame_at_unique: "frame_at env m i f \<Longrightarrow> frame_at env m i g \<Longrightarrow> f = g"
  by (auto simp: frame_at_def)

lemma key_histories_facts:
  assumes "key_histories env fs hs"
  shows "\<forall>h \<in> set hs. is_history env h" "map history_key hs = sorted_list_of_set (frame_key ` set fs)"
    "\<And>h. h \<in> set hs \<Longrightarrow> rh_frames h = sort_key fr_ordinal (filter (\<lambda>f. frame_key f = history_key h) fs)"
proof -
  have step: "is_history env h \<and> history_key h = k \<and> rh_frames h = sort_key fr_ordinal (filter (\<lambda>f. frame_key f = k) fs)"
    if "rh_frames h = sort_key fr_ordinal (filter (\<lambda>f. frame_key f = k) fs) \<and> is_history env h" for h k
  proof -
    from that have "rh_frames h \<noteq> []" by (auto dest: history_nonempty)
    then obtain f where f: "f \<in> set (rh_frames h)" by (cases "rh_frames h") auto
    with that have "frame_key f = k" by auto
    moreover have "frame_key f = history_key h" using that f history_frame_key by blast
    ultimately have "history_key h = k" by simp
    with that show ?thesis by blast
  qed
  have "list_all2 (\<lambda>k h. is_history env h \<and> history_key h = k \<and> rh_frames h = sort_key fr_ordinal (filter (\<lambda>f. frame_key f = k) fs))
      (sorted_list_of_set (frame_key ` set fs)) hs"
    using assms unfolding key_histories_def by (rule list_all2_mono) (use step in blast)
  then show "\<forall>h \<in> set hs. is_history env h" "map history_key hs = sorted_list_of_set (frame_key ` set fs)"
    "\<And>h. h \<in> set hs \<Longrightarrow> rh_frames h = sort_key fr_ordinal (filter (\<lambda>f. frame_key f = history_key h) fs)"
    by (auto simp: list_all2_conv_all_nth in_set_conv_nth intro!: nth_equalityI)
qed

lemma key_histories_frames:
  assumes "key_histories env fs hs"
  shows "(\<Union>h \<in> set hs. set (rh_frames h)) = set fs"
proof -
  note facts = key_histories_facts [OF assms]
  have "frame_key ` set fs = set (map history_key hs)" unfolding facts(2) by simp
  moreover have "set (rh_frames h) = {f \<in> set fs. frame_key f = history_key h}" if "h \<in> set hs" for h
    using facts(3) [OF that] by auto
  ultimately show ?thesis by (auto simp: image_iff)
qed

lemma retained_of_key_histories:
  assumes keys: "key_histories env fs hs" and ids: "map frame_id fs = ids" "set ids = dom m" "distinct ids" "length ids \<le> 128"
    and stored: "\<forall>f \<in> set fs. frame_at env m (frame_id f) f" and "distinct (open_source_keys hs)"
  shows "retained env m hs"
proof -
  note facts = key_histories_facts [OF keys] and frames = key_histories_frames [OF keys]
  have "dom m = frame_id ` set fs" using ids(1,2) by auto
  then have "dom m = (\<Union>h \<in> set hs. frame_id ` set (rh_frames h))"
    unfolding frames [symmetric] by blast
  moreover have "finite (dom m)" "card (dom m) \<le> 128"
    using ids(2-4) distinct_card [of ids] by (metis List.finite_set, metis)
  moreover have "\<forall>h \<in> set hs. \<forall>f \<in> set (rh_frames h). frame_at env m (frame_id f) f"
    using stored frames by blast
  ultimately show ?thesis
    using facts assms(7) by (simp add: retained_def)
qed

lemma retained_history:
  assumes "retained env m hs" "h \<in> set hs" "h' \<in> set hs" "f \<in> set (rh_frames h')" "frame_key f = history_key h"
  shows "h' = h"
proof -
  have "history_key h' = history_key h"
    using assms history_frame_key by (metis retained_def)
  moreover have "distinct (map history_key hs)"
    using assms(1) by (simp add: retained_def sorted_wrt_less_distinct)
  ultimately show ?thesis using assms(2,3) by (auto simp: distinct_map dest: inj_onD)
qed

lemma key_histories_of_retained:
  assumes ret: "retained env m hs" and fs: "set fs = (\<Union>h \<in> set hs. set (rh_frames h))" "distinct (map frame_id fs)"
  shows "key_histories env fs hs"
proof -
  from ret have hist: "is_history env h" if "h \<in> set hs" for h using that by (simp add: retained_def)
  have key: "rh_frames h = sort_key fr_ordinal (filter (\<lambda>f. frame_key f = history_key h) fs)" if h: "h \<in> set hs" for h
  proof (rule sorted_key_unique [where k = "history_key h"])
    let ?own = "filter (\<lambda>f. frame_key f = history_key h) fs"
    show "sorted (map fr_ordinal (rh_frames h))" "distinct (map fr_ordinal (rh_frames h))"
      using history_sorted [OF hist [OF h]] .
    show "sorted (map fr_ordinal (sort_key fr_ordinal ?own))" by simp
    have "distinct (map frame_id ?own)" using fs(2) by (simp add: distinct_map_filter)
    moreover have "inj_on frame_id (set fs)" using fs(2) by (simp add: distinct_map)
    ultimately have "distinct (map fr_ordinal ?own)"
      by (auto simp: distinct_map inj_on_def frame_id_eq)
    then show "distinct (map fr_ordinal (sort_key fr_ordinal ?own))"
      by (simp add: distinct_map)
    show "set (rh_frames h) = set (sort_key fr_ordinal ?own)"
    proof -
      have "f \<in> set (rh_frames h)" if "h' \<in> set hs" "f \<in> set (rh_frames h')" "frame_key f = history_key h" for f h'
        using retained_history [OF ret h that] that(2) by simp
      moreover have "set (sort_key fr_ordinal ?own) = {f \<in> \<Union>h \<in> set hs. set (rh_frames h). frame_key f = history_key h}"
        using fs(1) by simp
      ultimately show ?thesis using h history_frame_key [OF hist [OF h]] by blast
    qed
    show "frame_key f = history_key h" if "f \<in> set (sort_key fr_ordinal ?own)" for f using that by simp
    show "f = g" if "f \<in> set (sort_key fr_ordinal ?own)" "g \<in> set (sort_key fr_ordinal ?own)" "frame_id f = frame_id g" for f g
      using that \<open>inj_on frame_id (set fs)\<close> by (auto simp: inj_on_def)
  qed
  have keys: "map history_key hs = sorted_list_of_set (frame_key ` set fs)"
  proof -
    have "set (map history_key hs) = frame_key ` set fs"
    proof -
      have "history_key h \<in> frame_key ` set fs" if "h \<in> set hs" for h
        using history_nonempty [OF hist [OF that]] history_frame_key [OF hist [OF that]] that fs(1)
        by (cases "rh_frames h") force+
      with fs(1) history_frame_key [OF hist] show ?thesis by auto
    qed
    with ret show ?thesis
      by (metis retained_def sorted_wrt_less_distinct sorted_list_of_set.idem_if_sorted_distinct)
  qed
  show ?thesis
    unfolding key_histories_def keys [symmetric] list_all2_map1
    using key hist by (simp add: list_all2_same)
qed

lemma replay_retained:
  assumes "distinct ids" "set ids = dom m"
  shows "replayRecoveryLedgerRecords env (records_of m ids) = Inr hs \<longleftrightarrow> retained env m hs"
proof
  assume "replayRecoveryLedgerRecords env (records_of m ids) = Inr hs"
  then obtain fs where fs: "length ids \<le> 128" "distinct (open_source_keys hs)"
    "decoded_records env (records_of m ids) fs" "key_histories env fs hs"
    unfolding replayRecoveryLedgerRecords_Inr records_of_def length_map by blast
  from fs(3) have decoded: "map frame_id fs = ids" "\<forall>f \<in> set fs. frame_at env m (frame_id f) f"
    unfolding decoded_records_of [OF assms(2)] by blast+
  show "retained env m hs"
    by (rule retained_of_key_histories [OF fs(4) decoded(1) assms(2,1) fs(1) decoded(2) fs(2)])
next
  assume ret: "retained env m hs"
  let ?frames = "\<Union>h \<in> set hs. set (rh_frames h)"
  from ret have ids: "set ids = (\<Union>h \<in> set hs. frame_id ` set (rh_frames h))"
    and kept: "\<forall>h \<in> set hs. \<forall>f \<in> set (rh_frames h). frame_at env m (frame_id f) f"
    unfolding retained_def assms(2) by simp_all
  have at: "\<exists>f \<in> ?frames. frame_id f = i \<and> frame_at env m i f" if "i \<in> set ids" for i
    using that kept unfolding ids by blast
  then obtain frame where frame: "\<And>i. i \<in> set ids \<Longrightarrow> frame i \<in> ?frames \<and> frame_id (frame i) = i \<and> frame_at env m i (frame i)"
    by metis
  let ?fs = "map frame ids"
  have id: "map frame_id ?fs = ids" using frame by (auto intro: map_idI)
  have stored: "\<forall>f \<in> set ?fs. frame_at env m (frame_id f) f" using frame by auto
  have "set ?fs = ?frames"
  proof
    show "set ?fs \<subseteq> ?frames" using frame by auto
    show "?frames \<subseteq> set ?fs"
    proof
      fix f assume f: "f \<in> ?frames"
      with kept have f_id: "frame_id f \<in> set ids" "frame_at env m (frame_id f) f"
        unfolding ids by auto
      with frame frame_at_unique have "frame (frame_id f) = f" by blast
      with f_id(1) show "f \<in> set ?fs" by (simp add: image_iff) metis
    qed
  qed
  with key_histories_of_retained [OF ret this] id assms(1) have "key_histories env ?fs hs" by metis
  moreover have "length ids \<le> 128"
    using ret distinct_card [OF assms(1)] unfolding retained_def assms(2) by linarith
  ultimately show "replayRecoveryLedgerRecords env (records_of m ids) = Inr hs"
    using ret id stored assms unfolding replayRecoveryLedgerRecords_Inr
    by (intro conjI exI [of _ ?fs]) (simp_all add: decoded_records_of retained_def, simp add: records_of_def)
qed

section \<open>The source key is exact\<close>

definition be32 :: "nat \<Rightarrow> bytes" where
  "be32 n = [word_of_nat (n div 2 ^ 24), word_of_nat (n div 2 ^ 16), word_of_nat (n div 2 ^ 8), word_of_nat n]"

definition key_part :: "bytes \<Rightarrow> bytes" where
  "key_part v = be32 (length v) @ v"

lemma recoverySourceKey_parts:
  "recoverySourceKey b = concat (map key_part (bytes_of (rb_root b) # path_components (rb_source b)))"
proof -
  have "foldl appendRecoveryKeyPart enc vs = enc @ concat (map key_part vs)" for enc vs
    by (induction vs arbitrary: enc) (simp_all add: appendRecoveryKeyPart_def Let_def key_part_def be32_def)
  then show ?thesis by (simp add: recoverySourceKey_def appendRecoveryKeyPart_def Let_def key_part_def be32_def)
qed

lemma be32_value:
  fixes n :: nat
  assumes "n < 2 ^ 32"
  shows "n = n div 16777216 mod 256 * 16777216 + n div 65536 mod 256 * 65536 + n div 256 mod 256 * 256 + n mod 256"
proof -
  have "n div 16777216 mod 256 = n div 16777216" using assms by (simp add: less_mult_imp_div_less)
  moreover have "n div 65536 = n div 16777216 * 256 + n div 65536 mod 256"
    using div_mult_mod_eq [of "n div 65536" 256] by (simp add: div_mult2_eq [symmetric])
  moreover have "n div 256 = n div 65536 * 256 + n div 256 mod 256"
    using div_mult_mod_eq [of "n div 256" 256] by (simp add: div_mult2_eq [symmetric])
  moreover have "n = n div 256 * 256 + n mod 256" by simp
  ultimately show ?thesis by linarith
qed

lemma be32_inject:
  assumes "n < 2 ^ 32" "m < 2 ^ 32" "be32 n = be32 m"
  shows "n = m"
proof -
  have byte: "(word_of_nat a :: u8) = word_of_nat b \<longleftrightarrow> a mod 256 = b mod 256" for a b
    by (simp add: word_of_nat_eq_iff take_bit_eq_mod)
  have eqs: "n div 16777216 mod 256 = m div 16777216 mod 256" "n div 65536 mod 256 = m div 65536 mod 256"
    "n div 256 mod 256 = m div 256 mod 256" "n mod 256 = m mod 256"
    using assms(3) unfolding be32_def list.inject byte by simp_all
  note be32_value [OF assms(1)]
  also note eqs(1)
  also note eqs(2)
  also note eqs(3)
  also note eqs(4)
  also note be32_value [OF assms(2), symmetric]
  finally show ?thesis .
qed

lemma key_parts_Cons: "concat (map key_part (v # vs)) = be32 (length v) @ v @ concat (map key_part vs)"
  by (simp add: key_part_def)

lemma key_parts_inject:
  "\<lbrakk>\<forall>v \<in> set xs. length v < 2 ^ 32; \<forall>v \<in> set ys. length v < 2 ^ 32; concat (map key_part xs) = concat (map key_part ys)\<rbrakk> \<Longrightarrow>
     xs = ys"
proof (induction xs arbitrary: ys)
  case Nil
  then show ?case by (cases ys) (auto simp: key_part_def be32_def)
next
  case (Cons x xs)
  then obtain y ys' where ys: "ys = y # ys'" by (cases ys) (auto simp: key_part_def be32_def)
  with Cons.prems(3) have "be32 (length x) @ x @ concat (map key_part xs) = be32 (length y) @ y @ concat (map key_part ys')"
    unfolding ys key_parts_Cons by simp
  moreover have "length (be32 (length x)) = length (be32 (length y))" by (simp add: be32_def)
  ultimately have "be32 (length x) = be32 (length y)" "x @ concat (map key_part xs) = y @ concat (map key_part ys')"
    by simp_all
  moreover from this(1) have "length x = length y" using be32_inject Cons.prems ys by auto
  ultimately show ?case using Cons ys by auto
qed

lemma path_bytes_check_length:
  "path_bytes_check n vs = None \<Longrightarrow> 0 \<le> n \<Longrightarrow> v \<in> set vs \<Longrightarrow> int (length v) \<le> maximumRecoveryPathBytes"
proof (induction n vs rule: path_bytes_check.induct)
  case (2 n w vs)
  then show ?case by (auto simp: Let_def split: if_splits)
qed simp

lemma valid_source_parts:
  assumes "trusted_root_id_validate (rb_root b) = None" "validateRecoveryPath (rb_source b) = None"
  shows "\<forall>w \<in> set (bytes_of (rb_root b) # path_components (rb_source b)). length w < 2 ^ 32"
proof -
  from assms have "length (rb_root b) \<le> 96" "path_bytes_check 0 (path_components (rb_source b)) = None"
    by (auto simp: id_validate_None stable_id_def validateRecoveryPath_def recovery_components_check_def checks_Cons)
  with path_bytes_check_length [of 0 "path_components (rb_source b)"] show ?thesis
    by (fastforce simp: maximumRecoveryPathBytes_def)
qed

lemma source_key_parts:
  assumes "trusted_root_id_validate (rb_root b) = None" "validateRecoveryPath (rb_source b) = None"
    "trusted_root_id_validate (rb_root b') = None" "validateRecoveryPath (rb_source b') = None"
  shows "recoverySourceKey b = recoverySourceKey b' \<longleftrightarrow> rb_root b = rb_root b' \<and> rb_source b = rb_source b'"
proof -
  have "recoverySourceKey b = recoverySourceKey b' \<longleftrightarrow>
      bytes_of (rb_root b) # path_components (rb_source b) = bytes_of (rb_root b') # path_components (rb_source b')"
    unfolding recoverySourceKey_parts
    using key_parts_inject [OF valid_source_parts [OF assms(1,2)] valid_source_parts [OF assms(3,4)]] by metis
  then show ?thesis by (cases "rb_source b"; cases "rb_source b'") auto
qed

lemma source_key_iff:
  assumes "validateRecoveryBindingForSchema env b v = None" "validateRecoveryBindingForSchema env' b' v' = None"
  shows "recoverySourceKey b = recoverySourceKey b' \<longleftrightarrow> rb_root b = rb_root b' \<and> rb_source b = rb_source b'"
  using assms by (intro source_key_parts) (simp_all add: validateRecoveryBindingForSchema_def checks_Cons)

section \<open>What the questions answer\<close>

definition open_at :: "trusted_root_id \<Rightarrow> byte_path \<Rightarrow> recovery_history \<Rightarrow> bool" where
  "open_at root source h \<longleftrightarrow> \<not> recovery_Closed (rh_recovery h) \<and>
     rb_root (rec_binding (rh_recovery h)) = root \<and> rb_source (rec_binding (rh_recovery h)) = source"

lemma find_outstanding_step:
  "find_outstanding root source found (h # hs) =
     (if \<not> open_at root source h then find_outstanding root source found hs
      else if recovery_Token found \<noteq> [] then Inl [ErrRecoveryConflict]
      else find_outstanding root source (Some (rh_recovery h)) hs)"
  by (auto simp: open_at_def Let_def)

declare find_outstanding.simps(2) [simp del]

lemma find_outstanding_none:
  "\<forall>h \<in> set hs. \<not> open_at root source h \<Longrightarrow> find_outstanding root source found hs = Inr found"
  by (induction hs) (simp_all add: find_outstanding_step)

lemma open_at_key: "open_at root source h \<Longrightarrow> open_at root source h' \<Longrightarrow>
    recoverySourceKey (rec_binding (rh_recovery h)) = recoverySourceKey (rec_binding (rh_recovery h'))"
  by (simp add: recoverySourceKey_def open_at_def)

lemma find_outstanding_unique:
  "distinct (open_source_keys hs) \<Longrightarrow>
     findOutstandingRecovery hs root source = Inr (map_option rh_recovery (find (open_at root source) hs))"
  unfolding findOutstandingRecovery_def
proof (induction hs)
  case (Cons h hs)
  have rest: "distinct (open_source_keys hs)"
    using Cons.prems by (cases "recovery_Closed (rh_recovery h)") (simp_all add: open_source_keys_def)
  show ?case
  proof (cases "open_at root source h")
    case True
    have "\<not> open_at root source h'" if "h' \<in> set hs" for h'
    proof
      assume h': "open_at root source h'"
      then have "recoverySourceKey (rec_binding (rh_recovery h')) \<in> set (open_source_keys hs)"
        using that by (auto simp: open_source_keys_def open_at_def)
      with Cons.prems True open_at_key [OF True h'] show False
        by (simp add: open_source_keys_def open_at_def)
    qed
    with True show ?thesis
      using find_outstanding_none [of hs] by (simp add: find_outstanding_step recovery_Token_def)
  next
    case False
    with Cons.IH [OF rest] show ?thesis by (simp add: find_outstanding_step)
  qed
qed simp

lemma collect_outstanding_all:
  "int (length acc) \<le> limit \<Longrightarrow> collect_outstanding limit acc hs =
     (let open_recoveries = filter (\<lambda>r. \<not> recovery_Closed r) (map rh_recovery hs)
      in if int (length acc + length open_recoveries) \<le> limit then Inr (acc @ open_recoveries)
         else Inl [ErrRecoveryUnsupported])"
  by (induction hs arbitrary: acc) (auto simp: Let_def)

lemma capacity_check_None:
  "capacity_check n hs = None \<longleftrightarrow> hs = [] \<or> n + int (length (concat (map rh_frames hs))) < 128"
  by (induction hs arbitrary: n) (auto simp: Let_def maximumRecoveryLedgerRecords_def)

lemma retained_frames:
  assumes "retained env m hs"
  shows "distinct (map frame_id (concat (map rh_frames hs)))" "set (map frame_id (concat (map rh_frames hs))) = dom m"
proof -
  have hist: "is_history env h" if "h \<in> set hs" for h using assms that by (simp add: retained_def)
  have keys: "distinct (map history_key hs)" using assms by (simp add: retained_def sorted_wrt_less_distinct)
  have own: "distinct (map frame_id (rh_frames h))" if "h \<in> set hs" for h
    using history_sorted(2) [OF hist [OF that]] by (auto simp: distinct_map inj_on_def frame_id_eq)
  have "distinct (map frame_id (concat (map rh_frames gs)))" if "set gs \<subseteq> set hs" "distinct (map history_key gs)" for gs
    using that
  proof (induction gs)
    case (Cons g gs)
    have "frame_id f \<noteq> frame_id f'" if "f \<in> set (rh_frames g)" "g' \<in> set gs" "f' \<in> set (rh_frames g')" for f f' g'
      using Cons.prems that history_frame_key [OF hist] by (auto simp: frame_id_eq image_iff)
    with Cons own show ?case by (auto simp: distinct_append image_iff)
  qed simp
  from this [of hs] keys show "distinct (map frame_id (concat (map rh_frames hs)))" by simp
  show "set (map frame_id (concat (map rh_frames hs))) = dom m"
    using assms by (auto simp: retained_def)
qed

lemma retained_capacity:
  assumes "retained env m hs"
  shows "requireRecoveryLedgerPublicationCapacity hs = None \<longleftrightarrow> card (dom m) < 128"
proof -
  have "card (dom m) = length (concat (map rh_frames hs))"
    using retained_frames [OF assms] by (metis distinct_card length_map)
  then show ?thesis
    by (auto simp: requireRecoveryLedgerPublicationCapacity_def capacity_check_None)
qed

section \<open>Adding one frame\<close>

definition extend_history :: "recovery_history \<Rightarrow> recovery_frame \<Rightarrow> recovery \<Rightarrow> recovery_history \<Rightarrow> recovery_history" where
  "extend_history h f r g = (if g = h then \<lparr> rh_frames = rh_frames h @ [f], rh_recovery = r \<rparr> else g)"

lemma frame_at_update: "frame_at env m i f \<Longrightarrow> j \<notin> dom m \<Longrightarrow> frame_at env (m(j \<mapsto> c)) i f"
  by (auto simp: frame_at_def)

lemma card_insert_dom:
  "finite (dom m) \<Longrightarrow> card (dom m) < n \<Longrightarrow> card (dom (m(i \<mapsto> c))) \<le> n"
  using card_insert_le_m1 [of n "dom m" i] by (cases "i \<in> dom m") (auto simp: card_insert_if insert_absorb)

lemma history_extends:
  assumes "history env h r" "history env (h @ [f]) r'"
  shows "rec_binding r' = rec_binding r" "\<not> recovery_Closed r" "frame_id f \<notin> frame_id ` set h"
proof -
  note parts = assms(2) [unfolded history_snoc [OF assms(1)]]
  from parts show "rec_binding r' = rec_binding r" by (auto simp: recovery_apply_Inr)
  from parts show "\<not> recovery_Closed r" by (auto simp: validateRecoveryTransition_def checks_Cons)
  have "distinct (map fr_ordinal (h @ [f]))" by (rule history_sorted(2) [OF assms(2)])
  then show "frame_id f \<notin> frame_id ` set h" by (force simp: frame_id_eq)
qed

lemma extended_open_keys:
  assumes "rec_binding r' = rec_binding (rh_recovery h)" "\<not> recovery_Closed (rh_recovery h)" "distinct (open_source_keys hs)"
  shows "distinct (open_source_keys (map (extend_history h f r') hs))"
proof -
  let ?key = "\<lambda>h. recoverySourceKey (rec_binding (rh_recovery h))" and ?open = "\<lambda>h. \<not> recovery_Closed (rh_recovery h)"
  let ?still = "\<lambda>g. ?open (extend_history h f r' g)"
  have key: "?key (extend_history h f r' g) = ?key g" for g using assms(1) by (simp add: extend_history_def)
  have still: "filter ?still hs = filter ?still (filter ?open hs)"
    using assms(2) by (auto simp: extend_history_def intro!: filter_cong)
  have "open_source_keys (map (extend_history h f r') hs) = map ?key (filter ?still (filter ?open hs))"
    unfolding open_source_keys_def still [symmetric] by (simp add: filter_map comp_def key)
  then show ?thesis using assms(3) by (simp only: open_source_keys_def distinct_map_filter)
qed

lemma retained_extend:
  assumes ret: "retained env m hs" and h: "h \<in> set hs" and ext: "history env (rh_frames h @ [f]) r'"
    and c: "decodeRecoveryFrame env c = Inr f" and room: "card (dom m) < 128"
  shows "frame_id f \<notin> dom m" "retained env (m(frame_id f \<mapsto> c)) (map (extend_history h f r') hs)"
proof -
  from ret h have hist: "is_history env h" by (simp add: retained_def)
  note new = history_extends [OF hist ext]
  let ?h' = "\<lparr> rh_frames = rh_frames h @ [f], rh_recovery = r' \<rparr>"
  have h': "is_history env ?h'" "history_key ?h' = history_key h"
    using ext new(1) by (simp_all add: history_key_def)
  have "frame_key f = history_key h" using history_frame_key [OF h'(1), of f] h'(2) by simp
  then have other: "frame_id f \<notin> frame_id ` set (rh_frames g)" if "g \<in> set hs" for g
    using that retained_history [OF ret h that] new(3) by (auto simp: frame_id_eq image_iff)
  then show free: "frame_id f \<notin> dom m" using ret by (auto simp: retained_def)
  have keys: "map history_key (map (extend_history h f r') hs) = map history_key hs"
    using h'(2) by (simp add: extend_history_def)
  have "(\<Union>g \<in> set (map (extend_history h f r') hs). frame_id ` set (rh_frames g)) =
      insert (frame_id f) (\<Union>g \<in> set hs. frame_id ` set (rh_frames g))"
    using h by (auto simp: extend_history_def)
  moreover have "\<forall>g \<in> set (map (extend_history h f r') hs). \<forall>f' \<in> set (rh_frames g). frame_at env (m(frame_id f \<mapsto> c)) (frame_id f') f'"
    using ret h c frame_at_update [of env m _ _ "frame_id f" c, OF _ free] by (auto simp: extend_history_def retained_def frame_at_def [of env "m(frame_id f \<mapsto> c)" "frame_id f" f])
  moreover have "\<forall>g \<in> set (map (extend_history h f r') hs). is_history env g"
    using ret h'(1) by (auto simp: extend_history_def retained_def)
  ultimately show "retained env (m(frame_id f \<mapsto> c)) (map (extend_history h f r') hs)"
    using ret card_insert_dom [OF _ room] extended_open_keys [OF new(1,2)] unfolding retained_def keys
    by (simp del: map_map)
qed

lemma retained_insert:
  assumes ret: "retained env m hs" and one: "history env [f] r" and c: "decodeRecoveryFrame env c = Inr f"
    and room: "card (dom m) < 128" and free: "frame_id f \<notin> dom m"
    and source: "\<not> recovery_Closed r \<Longrightarrow> recoverySourceKey (rec_binding r) \<notin> set (open_source_keys hs)"
  shows "retained env (m(frame_id f \<mapsto> c)) (insort_key history_key \<lparr> rh_frames = [f], rh_recovery = r \<rparr> hs)"
proof -
  let ?h = "\<lparr> rh_frames = [f], rh_recovery = r \<rparr>"
  have hist: "is_history env g" if "g \<in> set hs" for g using ret that by (simp add: retained_def)
  have h: "is_history env ?h" "history_key ?h = frame_key f"
    using one history_frame_key [of env ?h f] by simp_all
  have first: "fr_ordinal (hd (rh_frames g)) = 0" if "is_history env g" for g
    using history_ordinals [OF that] history_nonempty [OF that]
    by (cases "rh_frames g") (auto simp: unat_eq_zero upt_conv_Cons simp del: upt_Suc)
  have "frame_key f \<noteq> history_key g" if "g \<in> set hs" for g
  proof
    assume "frame_key f = history_key g"
    moreover have g: "hd (rh_frames g) \<in> set (rh_frames g)" using history_nonempty [OF hist [OF that]] by simp
    ultimately have "frame_id f = frame_id (hd (rh_frames g))"
      using first [OF h(1)] first [OF hist [OF that]] history_frame_key [OF hist [OF that]] by (simp add: frame_id_eq)
    with g that ret free show False by (auto simp: retained_def)
  qed
  then have "history_key ?h \<notin> set (map history_key hs)" unfolding h(2) by auto
  moreover have "sorted (map history_key hs)" "distinct (map history_key hs)"
    using ret by (simp_all add: retained_def sorted_wrt_less_distinct)
  ultimately have "sorted_wrt (<) (map history_key (insort_key history_key ?h hs))"
    by (auto simp: sorted_wrt_less_distinct sorted_insort_key distinct_map distinct_insort set_insort_key inj_on_insert)
  moreover have "mset (open_source_keys (insort_key history_key ?h hs)) =
      mset (if recovery_Closed r then open_source_keys hs else recoverySourceKey (rec_binding r) # open_source_keys hs)"
    by (simp add: open_source_keys_def)
  note mset_eq_imp_distinct_iff [OF this]
  moreover have "distinct (open_source_keys hs)" using ret by (simp add: retained_def)
  ultimately have "distinct (open_source_keys (insort_key history_key ?h hs))"
    "sorted_wrt (<) (map history_key (insort_key history_key ?h hs))"
    using source by simp_all
  then show ?thesis
    using ret h(1) c frame_at_update [of env m _ _ "frame_id f" c, OF _ free] card_insert_dom [OF _ room]
    by (auto simp: retained_def set_insort_key frame_at_def)
qed

section \<open>Properties\<close>

text \<open>
  The source key is exact. For bindings with a valid root and source path, two keys are equal exactly
  when root and path are: the length prefixes keep components apart, and cannot wrap within the limits. So
  the uniqueness check never confuses two sources and never misses one.
\<close>

theorem source_key_exact:
  assumes "trusted_root_id_validate (rb_root b) = None" and "validateRecoveryPath (rb_source b) = None"
    and "trusted_root_id_validate (rb_root b') = None" and "validateRecoveryPath (rb_source b') = None"
  shows "recoverySourceKey b = recoverySourceKey b' \<longleftrightarrow> rb_root b = rb_root b' \<and> rb_source b = rb_source b'"
  by (rule source_key_parts [OF assms])

text \<open>The paths \<^verbatim>\<open>a/b\<close> and \<^verbatim>\<open>ab\<close> have different keys.\<close>

theorem source_key_exact_witness:
  "recoverySourceKey sample_binding \<noteq> recoverySourceKey (sample_binding \<lparr> rb_source := \<lparr> path_components = [[0x61, 0x62]] \<rparr> \<rparr>)"
proof -
  let ?b = "sample_binding \<lparr> rb_source := \<lparr> path_components = [[0x61, 0x62]] \<rparr> \<rparr>"
  have "trusted_root_id_validate (rb_root sample_binding) = None" "validateRecoveryPath (rb_source sample_binding) = None"
    "trusted_root_id_validate (rb_root ?b) = None" "validateRecoveryPath (rb_source ?b) = None" by code_simp+
  from source_key_exact [OF this] show ?thesis
    by (simp add: case_binding_def binding_of_def sample_source_def)
qed

text \<open>
  C28: what a ledger holds depends on its records only. For every listing of the records of a store,
  in whatever order, decoding, grouping and replaying succeeds with some histories exactly when the store
  retains them: every record is a frame of one of them, each is an accepted history, they stand in the
  order of their keys and no two open ones share a source. One record that is not such a frame, a torn one
  for instance, makes the whole ledger unreadable; no record is ever skipped.
\<close>

theorem replay_refines_store:
  assumes "distinct ids" and "set ids = dom m"
  shows "replayRecoveryLedgerRecords env (records_of m ids) = Inr hs \<longleftrightarrow> retained env m hs"
  by (rule replay_retained [OF assms])

end
