(* ===== verification/RecoveryLedger.thy ===== *)
theory RecoveryLedger
  imports RecoveryRecords PrivateLedger
begin

text \<open>
  \<^verbatim>\<open>src/internal/state/recovery_ledger.go\<close>, last part: the recovery ledger on top of a locked
  private-ledger session. The session interface of the Go code is a record of three operations on a
  state; what the client relies on is the locale \<open>ledger_session\<close>, and the private ledger of
  \<^verbatim>\<open>linuxfs\<close> is its interpretation.
\<close>

section \<open>Sessions and the adapters\<close>

record 'd session_ops =
  so_Publish :: "record_id \<Rightarrow> bytes \<Rightarrow> 'd \<Rightarrow> (go_error + unit) \<times> 'd"
  so_Read :: "record_id \<Rightarrow> int \<Rightarrow> 'd \<Rightarrow> go_error + bytes"
  so_List :: "int \<Rightarrow> 'd \<Rightarrow> go_error + record_id list"

fun read_records :: "'d session_ops \<Rightarrow> 'd \<Rightarrow> record_id list \<Rightarrow> go_error + ledger_record list" where
  "read_records ops d [] = Inr []"
| "read_records ops d (i # ids) =
     (case so_Read ops i maximumRecoveryFrameBytes d of
        Inl e \<Rightarrow> Inl e
      | Inr contents \<Rightarrow>
        (case read_records ops d ids of
           Inl e \<Rightarrow> Inl e
         | Inr records \<Rightarrow> Inr (\<lparr> lr_id = i, lr_contents = contents \<rparr> # records)))"

definition readRecoveryHistories ::
    "'e frame_env_scheme \<Rightarrow> 'd session_ops \<Rightarrow> 'd \<Rightarrow> go_error + recovery_history list" where
  "readRecoveryHistories env ops d =
     (case so_List ops maximumRecoveryLedgerRecords d of
        Inl e \<Rightarrow> Inl e
      | Inr ids \<Rightarrow>
        (case read_records ops d ids of
           Inl e \<Rightarrow> Inl e
         | Inr records \<Rightarrow> replayRecoveryLedgerRecords env records))"

text \<open>The random source gives 32 bytes or fails.\<close>

definition newRecoveryToken :: "bytes option \<Rightarrow> go_error + string" where
  "newRecoveryToken random = (case random of
     None \<Rightarrow> Inl [ErrRecoveryUnsupported] | Some bytes \<Rightarrow> Inr (''ldc-'' @ hex_encode bytes))"

definition validateRecoveryContext :: "bool \<Rightarrow> go_error option" where
  "validateRecoveryContext live = check live [ErrInterrupted]"

definition validateRecoveryIdentity :: "recovery \<Rightarrow> go_error option" where
  "validateRecoveryIdentity r = checks
     [marked ErrRecoveryUnsupported (action_binding_digest_validate (rb_actionBindingDigest (rec_binding r))),
      marked ErrRecoveryUnsupported
        (failed (NewPrivateLedgerRecordID (hex_encode (rb_actionBindingDigest (rec_binding r))) (rb_token (rec_binding r)) 0))]"

definition validateRecoveryReservation :: "action_kind \<Rightarrow> trash_layout_binding \<Rightarrow> go_error option" where
  "validateRecoveryReservation kind layout =
     marked ErrRecoveryUnsupported (validateTrashLayoutBindingForSchema kind layout recoveryLedgerSchemaVersionV2)"

section \<open>Reserving and advancing a recovery\<close>

text \<open>
  What \<^verbatim>\<open>Reserve\<close> computes between reading the histories and publishing: the candidate, the
  identity of its first record and the contents.
\<close>

definition reserve_candidate ::
    "'e frame_env_scheme \<Rightarrow> recovery_binding \<Rightarrow> recovery_history list \<Rightarrow> go_error + recovery \<times> record_id \<times> bytes" where
  "reserve_candidate env b hs =
     (case requireRecoveryLedgerPublicationCapacity hs of
        Some e \<Rightarrow> Inl e
      | None \<Rightarrow>
        (case findOutstandingRecovery hs (rb_root b) (rb_source b) of
           Inl e \<Rightarrow> Inl e
         | Inr existing \<Rightarrow>
           if recovery_Token existing \<noteq> [] then Inl [ErrRecoveryConflict]
           else
             (case newIntentFrame env b of
                Inl e \<Rightarrow> Inl e
              | Inr intent \<Rightarrow>
                (case recoveryFromFrame env intent of
                   Inl e \<Rightarrow> Inl e
                 | Inr candidate \<Rightarrow>
                   (case NewPrivateLedgerRecordID (hex_encode (rb_actionBindingDigest b)) (rb_token b) (fr_ordinal intent) of
                      Inl _ \<Rightarrow> Inl [ErrRecoveryUnsupported]
                    | Inr i \<Rightarrow>
                      (case encodeRecoveryFrame env intent of
                         Inl e \<Rightarrow> Inl e
                       | Inr contents \<Rightarrow> Inr (candidate, i, contents)))))))"

text \<open>The same for \<^verbatim>\<open>Transition\<close>.\<close>

definition transition_candidate ::
    "'e frame_env_scheme \<Rightarrow> recovery \<Rightarrow> recovery_transition \<Rightarrow> recovery_history list \<Rightarrow>
     go_error + recovery \<times> record_id \<times> bytes" where
  "transition_candidate env r t hs =
     (case findRecoveryHistory hs r of
        Inl e \<Rightarrow> Inl e
      | Inr h \<Rightarrow>
        (case checks
          [check (rec_schemaVersion (rh_recovery h) = recoveryLedgerSchemaVersionV2) [ErrRecoveryUnsupported],
           requireRecoveryLedgerPublicationCapacity hs] of
          Some e \<Rightarrow> Inl e
        | None \<Rightarrow>
          (case appendRecoveryTransition env (rh_frames h) t of
             Inl e \<Rightarrow> Inl e
           | Inr next_frame \<Rightarrow>
             (case recovery_apply env (rh_recovery h) next_frame of
                Inl e \<Rightarrow> Inl e
              | Inr candidate \<Rightarrow>
                (case NewPrivateLedgerRecordID (hex_encode (rb_actionBindingDigest (rec_binding candidate)))
                    (rb_token (rec_binding candidate)) (fr_ordinal next_frame) of
                   Inl _ \<Rightarrow> Inl [ErrRecoveryCorrupt]
                 | Inr i \<Rightarrow>
                   (case encodeRecoveryFrame env next_frame of
                      Inl e \<Rightarrow> Inl e
                    | Inr contents \<Rightarrow> Inr (candidate, i, contents)))))))"

text \<open>
  The end of both callbacks. The captured variable becomes the candidate on success and when the
  error of the publication is \<^verbatim>\<open>ErrInterrupted\<close>.
\<close>

definition publish_candidate ::
    "'d session_ops \<Rightarrow> recovery \<times> record_id \<times> bytes \<Rightarrow> 'd \<times> recovery option \<Rightarrow> go_error option \<times> 'd \<times> recovery option" where
  "publish_candidate ops c st =
     (case (c, st) of ((candidate, i, contents), (d, out)) \<Rightarrow>
        (case so_Publish ops i contents d of
           (Inl e, d') \<Rightarrow> (Some e, (d', if errors_Is e ErrInterrupted then Some candidate else out))
         | (Inr _, d') \<Rightarrow> (None, (d', Some candidate))))"

definition reserve_callback ::
    "'e frame_env_scheme \<Rightarrow> bytes option \<Rightarrow> action \<Rightarrow> plan_digest \<Rightarrow> trash_layout_binding \<Rightarrow> 'd session_ops \<Rightarrow>
     'd \<times> recovery option \<Rightarrow> go_error option \<times> 'd \<times> recovery option" where
  "reserve_callback env random a planDigest layout ops st =
     (case newRecoveryToken random of
        Inl e \<Rightarrow> (Some e, st)
      | Inr token \<Rightarrow>
        (case newRecoveryBinding env a planDigest token layout of
           Inl e \<Rightarrow> (Some e, st)
         | Inr b \<Rightarrow>
           (case readRecoveryHistories env ops (fst st) of
              Inl e \<Rightarrow> (Some e, st)
            | Inr hs \<Rightarrow>
              (case reserve_candidate env b hs of
                 Inl e \<Rightarrow> (Some e, st)
               | Inr c \<Rightarrow> publish_candidate ops c st))))"

definition transition_callback ::
    "'e frame_env_scheme \<Rightarrow> recovery \<Rightarrow> recovery_transition \<Rightarrow> 'd session_ops \<Rightarrow>
     'd \<times> recovery option \<Rightarrow> go_error option \<times> 'd \<times> recovery option" where
  "transition_callback env r t ops st =
     (case readRecoveryHistories env ops (fst st) of
        Inl e \<Rightarrow> (Some e, st)
      | Inr hs \<Rightarrow>
        (case transition_candidate env r t hs of
           Inl e \<Rightarrow> (Some e, st)
         | Inr c \<Rightarrow> publish_candidate ops c st))"

text \<open>
  The operations run their callback in a session: \<open>with_session\<close> is \<^verbatim>\<open>withWrite\<close> or
  \<^verbatim>\<open>withRead\<close>. An operation returns the recovery, \<open>None\<close> for the zero value, and the error.
\<close>

type_synonym ('d, 'v) with_session =
  "('d session_ops \<Rightarrow> 'd \<times> 'v \<Rightarrow> go_error option \<times> 'd \<times> 'v) \<Rightarrow> 'd \<times> 'v \<Rightarrow> go_error option \<times> 'd \<times> 'v"

definition mutation_result :: "go_error option \<times> 'd \<times> recovery option \<Rightarrow> (recovery option \<times> go_error option) \<times> 'd" where
  "mutation_result outcome =
     (case outcome of (err, d, out) \<Rightarrow>
        ((case err of
            None \<Rightarrow> (out, None)
          | Some e \<Rightarrow> if recovery_Token out \<noteq> [] \<and> errors_Is e ErrInterrupted then (out, Some e) else (None, Some e)), d))"

definition Reserve ::
    "'e frame_env_scheme \<Rightarrow> bool \<Rightarrow> bytes option \<Rightarrow> ('d, recovery option) with_session \<Rightarrow> action \<Rightarrow> plan_digest \<Rightarrow>
     trash_layout_binding \<Rightarrow> 'd \<Rightarrow> (recovery option \<times> go_error option) \<times> 'd" where
  "Reserve env live random withWrite a planDigest layout d =
     (let cloned = action_clone a
      in case checks
        [validateRecoveryContext live,
         validateRecoveryAction cloned,
         validateRecoveryReservation (a_Kind cloned) layout,
         marked ErrRecoveryUnsupported (plan_digest_validate planDigest)] of
        Some e \<Rightarrow> ((None, Some e), d)
      | None \<Rightarrow> mutation_result (withWrite (reserve_callback env random cloned planDigest layout) (d, None)))"

definition Transition ::
    "'e frame_env_scheme \<Rightarrow> bool \<Rightarrow> ('d, recovery option) with_session \<Rightarrow> recovery \<Rightarrow> recovery_transition \<Rightarrow> 'd \<Rightarrow>
     (recovery option \<times> go_error option) \<times> 'd" where
  "Transition env live withWrite r t d =
     (case checks [validateRecoveryContext live, validateRecoveryIdentity r] of
        Some e \<Rightarrow> ((None, Some e), d)
      | None \<Rightarrow> mutation_result (withWrite (transition_callback env r t) (d, None)))"

section \<open>Reading\<close>

text \<open>
  A read callback computes an answer from the histories and assigns it to the captured variable, which
  is the zero value again when the answer is an error.
\<close>

definition read_callback ::
    "'e frame_env_scheme \<Rightarrow> (recovery_history list \<Rightarrow> go_error + 'v) \<Rightarrow> 'v \<Rightarrow> 'd session_ops \<Rightarrow> 'd \<times> 'v \<Rightarrow>
     go_error option \<times> 'd \<times> 'v" where
  "read_callback env answer zero ops st =
     (case readRecoveryHistories env ops (fst st) of
        Inl e \<Rightarrow> (Some e, st)
      | Inr hs \<Rightarrow>
        (case answer hs of
           Inl e \<Rightarrow> (Some e, (fst st, zero))
         | Inr v \<Rightarrow> (None, (fst st, v))))"

definition FindOutstanding ::
    "'e frame_env_scheme \<Rightarrow> bool \<Rightarrow> ('d, recovery option) with_session \<Rightarrow> trusted_root_id \<Rightarrow> byte_path \<Rightarrow> 'd \<Rightarrow>
     (go_error + recovery option \<times> bool) \<times> 'd" where
  "FindOutstanding env live withRead root source d =
     (case checks
        [validateRecoveryContext live,
         marked ErrRecoveryUnsupported (trusted_root_id_validate root),
         marked ErrRecoveryUnsupported (validateRecoveryPath source)] of
        Some e \<Rightarrow> (Inl e, d)
      | None \<Rightarrow>
        (case withRead (read_callback env (\<lambda>hs. findOutstandingRecovery hs root source) None) (d, None) of
           (Some e, (d', _)) \<Rightarrow> (Inl e, d')
         | (None, (d', found)) \<Rightarrow> (Inr (found, recovery_Token found \<noteq> []), d')))"

definition ListOutstanding ::
    "'e frame_env_scheme \<Rightarrow> bool \<Rightarrow> ('d, recovery list) with_session \<Rightarrow> int \<Rightarrow> 'd \<Rightarrow> (go_error + recovery list) \<times> 'd" where
  "ListOutstanding env live withRead limit d =
     (case checks
        [validateRecoveryContext live,
         check (\<not> (limit \<le> 0 \<or> limit > maximumRecoveryLedgerRecords)) [ErrRecoveryUnsupported]] of
        Some e \<Rightarrow> (Inl e, d)
      | None \<Rightarrow>
        (case withRead (read_callback env (\<lambda>hs. outstandingRecoveries hs limit) []) (d, []) of
           (Some e, (d', _)) \<Rightarrow> (Inl e, d')
         | (None, (d', recoveries)) \<Rightarrow> (Inr recoveries, d')))"

definition Reload ::
    "'e frame_env_scheme \<Rightarrow> bool \<Rightarrow> ('d, recovery option) with_session \<Rightarrow> recovery \<Rightarrow> 'd \<Rightarrow>
     (go_error + recovery option) \<times> 'd" where
  "Reload env live withRead r d =
     (case checks [validateRecoveryContext live, validateRecoveryIdentity r] of
        Some e \<Rightarrow> (Inl e, d)
      | None \<Rightarrow>
        (case withRead (read_callback env (\<lambda>hs. case findRecoveryHistory hs r of
              Inl e \<Rightarrow> Inl e | Inr h \<Rightarrow> Inr (Some (rh_recovery h))) None) (d, None) of
           (Some e, (d', _)) \<Rightarrow> (Inl e, d')
         | (None, (d', reloaded)) \<Rightarrow> (Inr reloaded, d')))"

section \<open>What the client relies on\<close>

text \<open>
  \<open>store\<close> is the abstract content of the ledger. A listing is exact, a read returns what is
  stored, and a publication changes nothing or adds its record: completely on success, and perhaps a
  prefix of it when the error is \<^verbatim>\<open>ErrInterrupted\<close>.
\<close>

definition record_added :: "record_store \<Rightarrow> record_id \<Rightarrow> bytes \<Rightarrow> go_error + unit \<Rightarrow> record_store \<Rightarrow> bool" where
  "record_added m i c r m' \<longleftrightarrow> i \<notin> dom m \<and>
     (\<exists>c'. m' = m(i \<mapsto> c') \<and> take (length c') c = c' \<and> (c' = c \<or> (\<exists>e. r = Inl e \<and> errors_Is e ErrInterrupted)))"

locale ledger_session =
  fixes ops :: "'d session_ops"
    and store :: "'d \<Rightarrow> record_store"
    and invar :: "'d \<Rightarrow> bool"
  assumes listed: "invar d \<Longrightarrow> so_List ops limit d = Inr ids \<Longrightarrow> distinct ids \<and> set ids = dom (store d)"
    and read_stored: "so_Read ops i n d = Inr c \<Longrightarrow> store d i = Some c"
    and published_record: "invar d \<Longrightarrow> so_Publish ops i c d = (r, d') \<Longrightarrow>
      invar d' \<and> ((\<exists>e. r = Inl e) \<and> store d' = store d \<or> record_added (store d) i c r (store d'))"
begin

lemma read_records_stored:
  "read_records ops d ids = Inr records \<Longrightarrow> records = records_of (store d) ids"
  by (induction ids arbitrary: records)
    (auto simp: records_of_def dest: read_stored split: sum.splits)

lemma histories_retained:
  assumes "invar d" and "readRecoveryHistories env ops d = Inr hs"
  shows "retained env (store d) hs"
proof -
  obtain ids where ids: "so_List ops maximumRecoveryLedgerRecords d = Inr ids"
    "replayRecoveryLedgerRecords env (records_of (store d) ids) = Inr hs"
    using assms(2) read_records_stored by (auto simp: readRecoveryHistories_def split: sum.splits)
  with listed [OF assms(1) ids(1)] replay_retained [of ids "store d" env hs] show ?thesis by blast
qed

lemma publish_candidate_outcome:
  assumes "invar d" "publish_candidate ops (candidate, i, c) (d, None) = (err, (d', out))"
  shows "invar d' \<and>
    (err \<noteq> None \<and> store d' = store d \<or>
     (\<exists>r. record_added (store d) i c r (store d') \<and> (err = None \<longleftrightarrow> r = Inr ()) \<and> (\<forall>e. err = Some e \<longleftrightarrow> r = Inl e))) \<and>
    out = (if err = None \<or> (\<exists>e. err = Some e \<and> errors_Is e ErrInterrupted) then Some candidate else None)"
proof -
  obtain r d1 where p: "so_Publish ops i c d = (r, d1)" by force
  from published_record [OF assms(1) p] assms(2) p show ?thesis
    by (cases r) (auto simp: publish_candidate_def)
qed

end

section \<open>The private ledger provides it\<close>

text \<open>
  The operations of an active session on the ledger directory. Each call meets faults of its own; the
  calls of one callback differ in the operation or in the record they name.
\<close>

definition private_ops ::
    "u32 \<Rightarrow> session_faults \<Rightarrow> (record_id \<Rightarrow> session_faults) \<Rightarrow> session_faults \<Rightarrow> ledger_session \<Rightarrow> directory session_ops" where
  "private_ops euid listing reading publishing s =
     \<lparr> so_Publish = session_Publish s euid publishing, so_Read = (\<lambda>i. session_Read s euid (reading i) i),
       so_List = session_List s euid listing \<rparr>"

definition ledger_store :: "directory \<Rightarrow> record_store" where
  "ledger_store d i = (if record_id_validate i = None then file_contents d (record_basename i) else None)"

definition distinct_records :: "directory \<Rightarrow> bool" where
  "distinct_records d \<longleftrightarrow> distinct (entry_names (other_entries d))"

lemma directory_records_other: "directory_records (other_entries d) = directory_records d"
  by (induction d) (auto simp: other_entries_def split: option.splits)

lemma file_contents_other: "name \<noteq> privateLedgerLockBasename \<Longrightarrow> file_contents (other_entries d) name = file_contents d name"
  by (induction d) (auto simp: file_contents_def other_entries_def)

lemma ledger_store_other: "ledger_store (other_entries d) = ledger_store d"
  by (rule ext) (simp add: ledger_store_def file_contents_other record_not_lock)

lemma dom_ledger_store: "dom (ledger_store d) = set (directory_records d)"
proof -
  have "map_of d name = None \<longleftrightarrow> name \<notin> set (entry_names d)" for name
    by (simp add: map_of_eq_None_iff entry_names_def)
  then show ?thesis
    by (simp add: set_eq_iff domIff ledger_store_def file_contents_def set_directory_records del: not_None_eq)
qed

lemma published_store:
  assumes "record_id_validate i = None" "published (record_basename i) c d d'" "distinct_records d"
  shows "distinct_records d'" "i \<notin> dom (ledger_store d)"
    "\<exists>c'. ledger_store d' = (ledger_store d)(i \<mapsto> c') \<and> take (length c') c = c' \<and> file_contents d' (record_basename i) = Some c'"
proof -
  obtain entry where entry: "record_basename i \<notin> set (entry_names d)" "d' = d @ [(record_basename i, entry)]"
    "take (length (df_contents entry)) c = df_contents entry"
    using assms(2) by (auto simp: published_def)
  have other: "other_entries d' = other_entries d @ [(record_basename i, entry)]"
    using record_not_lock [OF assms(1)] by (simp add: entry(2) other_entries_def)
  have "set (entry_names (other_entries d)) \<subseteq> set (entry_names d)"
    by (auto simp: other_entries_def entry_names_def)
  with entry(1) assms(3) show "distinct_records d'"
    unfolding distinct_records_def other by (auto simp: entry_names_def)
  show "i \<notin> dom (ledger_store d)" using entry(1) by (simp add: dom_ledger_store set_directory_records)
  have contents: "file_contents d' (record_basename i) = Some (df_contents entry)"
    using entry(1) by (auto simp: entry(2) file_contents_def entry_names_def map_add_def split: option.splits dest: map_of_SomeD)
      (metis fst_conv image_eqI map_of_SomeD)
  have "ledger_store d' j = ((ledger_store d)(i \<mapsto> df_contents entry)) j" for j
  proof (cases "j = i")
    case True
    then show ?thesis using contents assms(1) by (simp add: ledger_store_def)
  next
    case False
    then have "record_id_validate j = None \<Longrightarrow> record_basename j \<noteq> record_basename i"
      using record_basename_inject assms(1) by blast
    with False show ?thesis by (auto simp: ledger_store_def entry(2) file_contents_def map_add_def split: option.splits)
  qed
  with entry(3) contents show "\<exists>c'. ledger_store d' = (ledger_store d)(i \<mapsto> c') \<and> take (length c') c = c' \<and>
      file_contents d' (record_basename i) = Some c'" by blast
qed

interpretation private_session: ledger_session "private_ops euid listing reading publishing s" ledger_store distinct_records
  for euid listing reading publishing s
proof
  fix d limit ids
  assume "distinct_records d" "so_List (private_ops euid listing reading publishing s) limit d = Inr ids"
  then have ids: "ids = sort_key record_basename (directory_records d)"
    using session_List_Inr(1) by (simp add: private_ops_def)
  have "distinct (directory_records d)"
    using distinct_directory_records [of "other_entries d"] \<open>distinct_records d\<close>
    by (simp add: distinct_records_def directory_records_other)
  with ids show "distinct ids \<and> set ids = dom (ledger_store d)" by (simp add: dom_ledger_store)
next
  fix i n d c
  assume "so_Read (private_ops euid listing reading publishing s) i n d = Inr c"
  then have "session_Read s euid (reading i) i n d = Inr c" by (simp add: private_ops_def)
  from session_Read_Inr [OF this] show "ledger_store d i = Some c" by (simp add: ledger_store_def)
next
  fix d i c r d'
  assume d: "distinct_records d" and "so_Publish (private_ops euid listing reading publishing s) i c d = (r, d')"
  then have "session_Publish s euid publishing i c d = (r, d')" by (simp add: private_ops_def)
  from session_Publish_outcome [OF this] show "distinct_records d' \<and>
      ((\<exists>e. r = Inl e) \<and> ledger_store d' = ledger_store d \<or> record_added (ledger_store d) i c r (ledger_store d'))"
    using d published_store [OF _ _ d, of i c d'] unfolding record_added_def by fastforce
qed

section \<open>The abstract ledger\<close>

text \<open>
  The abstract operations on the histories of a ledger: a new recovery for a source without an open
  one, or one more frame for a retained history, while there is room.
\<close>

definition has_room :: "recovery_history list \<Rightarrow> bool" where
  "has_room hs \<longleftrightarrow> requireRecoveryLedgerPublicationCapacity hs = None"

inductive ledger_step ::
    "'e frame_env_scheme \<Rightarrow> recovery_history list \<Rightarrow> recovery_frame \<Rightarrow> recovery \<Rightarrow> recovery_history list \<Rightarrow> bool" for env hs where
  reserved: "has_room hs \<Longrightarrow> history env [f] r \<Longrightarrow>
    \<forall>h \<in> set hs. \<not> open_at (rb_root (rec_binding r)) (rb_source (rec_binding r)) h \<Longrightarrow>
    ledger_step env hs f r (insort_key history_key \<lparr> rh_frames = [f], rh_recovery = r \<rparr> hs)"
| advanced: "has_room hs \<Longrightarrow> h \<in> set hs \<Longrightarrow> history env (rh_frames h @ [f]) r \<Longrightarrow>
    ledger_step env hs f r (map (extend_history h f r) hs)"

lemma history_binding_valid:
  "history env h r \<Longrightarrow> validateRecoveryBindingForSchema env (rec_binding r) (rec_schemaVersion r) = None"
  using history_facts valid_frame_binding by metis

lemma history_token: "history env h r \<Longrightarrow> rb_token (rec_binding r) \<noteq> []"
  using history_binding_valid [of env h r]
  by (auto simp: validateRecoveryBindingForSchema_def checks_Cons NewPrivateLedgerRecordID_def split: if_splits)

lemma ledger_step_retained:
  assumes ret: "retained env m hs" and step: "ledger_step env hs f r hs'" and free: "frame_id f \<notin> dom m"
    and c: "decodeRecoveryFrame env c = Inr f"
  shows "retained env (m(frame_id f \<mapsto> c)) hs'"
  using step
proof cases
  case reserved
  have room: "card (dom m) < 128" using reserved(2) ret by (simp add: has_room_def retained_capacity)
  have "recoverySourceKey (rec_binding r) \<notin> set (open_source_keys hs)"
  proof
    assume "recoverySourceKey (rec_binding r) \<in> set (open_source_keys hs)"
    then obtain h where h: "h \<in> set hs" "\<not> recovery_Closed (rh_recovery h)"
      "recoverySourceKey (rec_binding r) = recoverySourceKey (rec_binding (rh_recovery h))"
      by (auto simp: open_source_keys_def)
    from h(1) ret have "is_history env h" by (simp add: retained_def)
    with h(3) have "rb_root (rec_binding (rh_recovery h)) = rb_root (rec_binding r)"
      "rb_source (rec_binding (rh_recovery h)) = rb_source (rec_binding r)"
      using source_key_iff [OF history_binding_valid [OF reserved(3)] history_binding_valid] by metis+
    with h(1,2) reserved(4) show False by (auto simp: open_at_def)
  qed
  with retained_insert [OF ret reserved(3) c room free] reserved(1) show ?thesis by simp
next
  case (advanced h)
  have "card (dom m) < 128" using advanced(2) ret by (simp add: has_room_def retained_capacity)
  with retained_extend(2) [OF ret advanced(3,4) c] advanced(1) show ?thesis by simp
qed

lemma newIntentFrame_Inr:
  "newIntentFrame env b = Inr f \<longleftrightarrow> validateRecoveryFrame env f = None \<and> fr_schemaVersion f = 2 \<and> fr_binding f = b \<and>
     fr_event f = IntentReserved \<and> fr_ordinal f = 0 \<and> fr_predecessor f = zero_digest \<and> fr_outcome f = [] \<and> fr_metadata f = []"
  by (cases f) (auto simp: newIntentFrame_def newIntentFrameForSchema_def Let_def gate_Inr recoveryLedgerSchemaVersionV2_def)

lemma reserve_candidate_step:
  assumes ret: "retained env m hs" and run: "reserve_candidate env b hs = Inr (r, i, c)"
  shows "\<exists>f. newIntentFrame env b = Inr f \<and> rec_binding r = b \<and> i = frame_id f \<and> encodeRecoveryFrame env f = Inr c \<and>
    ledger_step env hs f r (insort_key history_key \<lparr> rh_frames = [f], rh_recovery = r \<rparr> hs)"
proof -
  have "distinct (open_source_keys hs)" using ret by (simp add: retained_def)
  from run find_outstanding_unique [OF this, of "rb_root b" "rb_source b"] obtain f where f: "has_room hs"
    "recovery_Token (map_option rh_recovery (find (open_at (rb_root b) (rb_source b)) hs)) = []"
    "newIntentFrame env b = Inr f" "recoveryFromFrame env f = Inr r"
    "NewPrivateLedgerRecordID (hex_encode (rb_actionBindingDigest b)) (rb_token b) (fr_ordinal f) = Inr i"
    "encodeRecoveryFrame env f = Inr c"
    by (auto simp: reserve_candidate_def has_room_def split: option.splits sum.splits if_splits)
  have "history env [f] r"
    using f(3,4) by (auto intro: history.intent simp: newIntentFrame_Inr)
  moreover have r: "rec_binding r = b" using f(3,4) by (simp add: recoveryFromFrame_Inr newIntentFrame_Inr)
  moreover have "\<not> open_at (rb_root b) (rb_source b) h" if "h \<in> set hs" for h
  proof -
    have "find (open_at (rb_root b) (rb_source b)) hs \<noteq> Some g" for g
    proof
      assume g: "find (open_at (rb_root b) (rb_source b)) hs = Some g"
      then have "g \<in> set hs" by (auto simp: find_Some_iff)
      with ret have "is_history env g" by (simp add: retained_def)
      with history_token [OF this] f(2) g show False by (simp add: recovery_Token_def)
    qed
    then have "find (open_at (rb_root b) (rb_source b)) hs = None"
      by (cases "find (open_at (rb_root b) (rb_source b)) hs") auto
    with that show ?thesis by (simp add: find_None_iff)
  qed
  moreover have "i = frame_id f"
    using f(3,5) by (simp add: NewPrivateLedgerRecordID_Inr frame_id_def frame_key_def newIntentFrame_Inr)
  ultimately show ?thesis using f ledger_step.reserved [of hs env f r] by blast
qed

lemma transition_candidate_step:
  assumes ret: "retained env m hs" and run: "transition_candidate env s t hs = Inr (r, i, c)"
  shows "\<exists>h f. h \<in> set hs \<and> same_identity (rh_recovery h) s \<and> appendRecoveryTransition env (rh_frames h) t = Inr f \<and>
    replayRecoveryFrames env (rh_frames h @ [f]) = Inr r \<and>
    i = frame_id f \<and> encodeRecoveryFrame env f = Inr c \<and> ledger_step env hs f r (map (extend_history h f r) hs)"
proof -
  from run obtain h f where f: "find (\<lambda>h. same_identity (rh_recovery h) s) hs = Some h"
    "has_room hs" "rec_schemaVersion (rh_recovery h) = 2"
    "appendRecoveryTransition env (rh_frames h) t = Inr f" "recovery_apply env (rh_recovery h) f = Inr r"
    "NewPrivateLedgerRecordID (hex_encode (rb_actionBindingDigest (rec_binding r))) (rb_token (rec_binding r)) (fr_ordinal f) = Inr i"
    "encodeRecoveryFrame env f = Inr c"
    by (auto simp: transition_candidate_def findRecoveryHistory_def has_room_def checks_Cons recoveryLedgerSchemaVersionV2_def
        split: option.splits sum.splits)
  from f(1) have h: "h \<in> set hs" "same_identity (rh_recovery h) s" by (auto simp: find_Some_iff)
  with ret have hist: "is_history env h" by (simp add: retained_def)
  note app = f(4) [unfolded append_Inr [OF hist]]
  have new: "history env (rh_frames h @ [f]) r"
    unfolding history_snoc [OF hist] using app f(5) by auto
  have "i = frame_id f"
    using f(5,6) app by (simp add: NewPrivateLedgerRecordID_Inr frame_id_def frame_key_def recovery_apply_Inr)
  with h f new ledger_step.advanced [OF f(2) h(1) new] show ?thesis by (auto simp: replay_iff)
qed

section \<open>What the operations do to the ledger\<close>

text \<open>
  The contract of a mutation of the records \<open>m\<close> into \<open>m'\<close>: it is refused and nothing
  changes, or it attempted one abstract step, whose record is absent, added, or partly added with an
  \<^verbatim>\<open>ErrInterrupted\<close>. The recovery is returned on success and with that error.
\<close>

definition mutation_spec ::
    "'e frame_env_scheme \<Rightarrow> (recovery_frame \<Rightarrow> recovery \<Rightarrow> bool) \<Rightarrow> record_store \<Rightarrow> go_error option \<Rightarrow> recovery option \<Rightarrow>
     record_store \<Rightarrow> bool" where
  "mutation_spec env wanted m err out m' \<longleftrightarrow>
     err \<noteq> None \<and> out = None \<and> m' = m \<or>
     (\<exists>hs f r c hs'. retained env m hs \<and> ledger_step env hs f r hs' \<and> wanted f r \<and> encodeRecoveryFrame env f = Inr c \<and>
        (err \<noteq> None \<and> m' = m \<or>
         frame_id f \<notin> dom m \<and> (\<exists>c'. m' = m(frame_id f \<mapsto> c') \<and> take (length c') c = c' \<and>
           (c' = c \<or> (\<exists>e. err = Some e \<and> errors_Is e ErrInterrupted)))) \<and>
        out = (if err = None \<or> (\<exists>e. err = Some e \<and> errors_Is e ErrInterrupted) then Some r else None))"

context ledger_session
begin

lemma publish_candidate_spec:
  assumes "invar d" "publish_candidate ops (r, frame_id f, c) (d, None) = (err, (d', out))"
    and "retained env (store d) hs" "ledger_step env hs f r hs'" "wanted f r" "encodeRecoveryFrame env f = Inr c"
  shows "invar d' \<and> mutation_spec env wanted (store d) err out (store d')"
proof -
  have out: "out = (if err = None \<or> (\<exists>e. err = Some e \<and> errors_Is e ErrInterrupted) then Some r else None)"
    and "invar d'"
    and "err \<noteq> None \<and> store d' = store d \<or>
      frame_id f \<notin> dom (store d) \<and> (\<exists>c'. store d' = (store d)(frame_id f \<mapsto> c') \<and> take (length c') c = c' \<and>
        (c' = c \<or> (\<exists>e. err = Some e \<and> errors_Is e ErrInterrupted)))"
    using publish_candidate_outcome [OF assms(1,2)] unfolding record_added_def by blast+
  with assms(3-6) show ?thesis unfolding mutation_spec_def by blast
qed

lemma reserve_callback_spec:
  assumes "invar d" "reserve_callback env random a planDigest layout ops (d, None) = (err, (d', out))"
  shows "invar d' \<and> mutation_spec env
    (\<lambda>f r. \<exists>token. newRecoveryToken random = Inr token \<and>
       newRecoveryBinding env a planDigest token layout = Inr (rec_binding r) \<and> newIntentFrame env (rec_binding r) = Inr f)
    (store d) err out (store d')"
proof (cases "\<exists>token b hs cand. newRecoveryToken random = Inr token \<and> newRecoveryBinding env a planDigest token layout = Inr b \<and>
    readRecoveryHistories env ops d = Inr hs \<and> reserve_candidate env b hs = Inr cand")
  case True
  then obtain token b hs r i c where run: "newRecoveryToken random = Inr token"
    "newRecoveryBinding env a planDigest token layout = Inr b" "readRecoveryHistories env ops d = Inr hs"
    "reserve_candidate env b hs = Inr (r, i, c)" by auto
  note ret = histories_retained [OF assms(1) run(3)]
  from reserve_candidate_step [OF ret run(4)] obtain f where
    f: "newIntentFrame env b = Inr f" "rec_binding r = b" "i = frame_id f" "encodeRecoveryFrame env f = Inr c"
      "ledger_step env hs f r (insort_key history_key \<lparr> rh_frames = [f], rh_recovery = r \<rparr> hs)" by blast
  have "publish_candidate ops (r, frame_id f, c) (d, None) = (err, (d', out))"
    using assms(2) run f(3) by (simp add: reserve_callback_def)
  from publish_candidate_spec [OF assms(1) this ret f(5) _ f(4)] show ?thesis using run(1,2) f(1,2) by simp
next
  case False
  with assms show ?thesis
    by (auto simp: reserve_callback_def mutation_spec_def split: sum.splits)
qed

lemma transition_callback_spec:
  assumes "invar d" "transition_callback env s t ops (d, None) = (err, (d', out))"
  shows "invar d' \<and> mutation_spec env
    (\<lambda>f r. \<exists>h. is_history env h \<and> same_identity (rh_recovery h) s \<and> appendRecoveryTransition env (rh_frames h) t = Inr f \<and>
       replayRecoveryFrames env (rh_frames h @ [f]) = Inr r)
    (store d) err out (store d')"
proof (cases "\<exists>hs cand. readRecoveryHistories env ops d = Inr hs \<and> transition_candidate env s t hs = Inr cand")
  case True
  then obtain hs r i c where run: "readRecoveryHistories env ops d = Inr hs"
    "transition_candidate env s t hs = Inr (r, i, c)" by auto
  note ret = histories_retained [OF assms(1) run(1)]
  from transition_candidate_step [OF ret run(2)] obtain h f where
    f: "h \<in> set hs" "same_identity (rh_recovery h) s" "appendRecoveryTransition env (rh_frames h) t = Inr f"
      "replayRecoveryFrames env (rh_frames h @ [f]) = Inr r" "i = frame_id f" "encodeRecoveryFrame env f = Inr c"
      "ledger_step env hs f r (map (extend_history h f r) hs)" by blast
  have run': "publish_candidate ops (r, frame_id f, c) (d, None) = (err, (d', out))"
    using assms(2) run f(5) by (simp add: transition_callback_def)
  have "is_history env h" using ret f(1) by (simp add: retained_def)
  with f(2-4) have wanted: "\<exists>h. is_history env h \<and> same_identity (rh_recovery h) s \<and>
      appendRecoveryTransition env (rh_frames h) t = Inr f \<and> replayRecoveryFrames env (rh_frames h @ [f]) = Inr r" by blast
  show ?thesis by (rule publish_candidate_spec [OF assms(1) run' ret f(7) _ f(6)]) (rule wanted)
next
  case False
  with assms show ?thesis
    by (auto simp: transition_callback_def mutation_spec_def split: sum.splits)
qed

lemma read_callback_spec:
  assumes "invar d" "read_callback env answer zero ops (d, v) = (err, (d', out))"
  shows "d' = d \<and> (err = None \<longrightarrow> (\<exists>hs. retained env (store d) hs \<and> answer hs = Inr out))"
  using assms histories_retained [OF assms(1)] by (auto simp: read_callback_def split: sum.splits)

end

text \<open>A step that was recorded completely leads to the histories of the step.\<close>

lemma from_wire_arrays:
  assumes "fromRecoveryFrameWireWithTrashLayoutBinding env w layout = Inr g" "length layout = 32"
  shows "frame_arrays g"
proof -
  from assms(1) obtain planDigest where plan: "newDigest (w_PlanDigest w) = Inr planDigest"
    "rb_planDigest (fr_binding g) = planDigest" "rb_trashLayoutBinding (fr_binding g) = layout"
    "length (w_PredecessorDigest w) = 32" "fr_predecessor g = digest_copy (w_PredecessorDigest w)"
    unfolding fromRecoveryFrameWireWithTrashLayoutBinding_def Let_def
    by (cases "newDigest (w_ActionBindingDigest w)"; cases "newDigest (w_PlanDigest w)";
        cases "new_id trusted_root_id_validate (w_Root w)"; cases "newBoundedRecoveryPath (w_Source w)";
        cases "new_id action_id_validate (w_ActionID w)")
      (simp_all del: newDigest_Inr new_id_Inr split: sum.splits option.splits if_splits, fastforce?)
  from plan(1) have "length planDigest = 32" by auto
  with plan assms(2) show ?thesis by (simp add: frame_arrays_def digest_copy_same)
qed

lemma from_wire_versions_arrays:
  "fromRecoveryFrameWire env w1 = Inr f \<Longrightarrow> frame_arrays f"
  "fromRecoveryFrameV2Wire env w2 = Inr f \<Longrightarrow> frame_arrays f"
proof -
  have zero: "length zero_digest = 32" by (simp add: zero_digest_def planDigestLength_def)
  show "fromRecoveryFrameWire env w1 = Inr f \<Longrightarrow> frame_arrays f"
    unfolding fromRecoveryFrameWire_def by (rule from_wire_arrays [OF _ zero])
  assume v2: "fromRecoveryFrameV2Wire env w2 = Inr f"
  show "frame_arrays f"
  proof (cases "w_TrashLayoutBinding w2")
    case None
    with v2 show ?thesis unfolding fromRecoveryFrameV2Wire_def by (auto intro: from_wire_arrays [OF _ zero])
  next
    case (Some layout)
    with v2 obtain parsed where "newDigest layout = Inr parsed"
      "fromRecoveryFrameWireWithTrashLayoutBinding env w2 parsed = Inr f"
      by (auto simp: fromRecoveryFrameV2Wire_def simp del: newDigest_Inr split: sum.splits)
    moreover from this(1) have "length parsed = 32" by auto
    ultimately show ?thesis using from_wire_arrays by blast
  qed
qed

lemma decoded_arrays:
  assumes "decodeRecoveryFrame env c = Inr f"
  shows "frame_arrays f"
proof -
  from assms have "(\<exists>w. fromRecoveryFrameWire env w = Inr f) \<or> (\<exists>w. fromRecoveryFrameV2Wire env w = Inr f)"
    by (auto simp: decodeRecoveryFrame_def Let_def split: option.splits if_splits sum.splits)
  with from_wire_versions_arrays show ?thesis by blast
qed

section \<open>The operations on the private ledger\<close>

text \<open>
  \<^verbatim>\<open>linuxfsRecoveryLedgerSessions\<close>: \<open>with_ledger True\<close> is \<^verbatim>\<open>withWrite\<close>,
  \<open>with_ledger False\<close> is \<^verbatim>\<open>withRead\<close>. The world holds the lease and what the kernel answers.
\<close>

record ledger_world =
  lw_euid :: u32
  lw_lease :: private_directory_lease
  lw_run :: run_faults
  lw_listing :: session_faults
  lw_reading :: "record_id \<Rightarrow> session_faults"
  lw_publishing :: session_faults

definition world_ops :: "ledger_world \<Rightarrow> ledger_session \<Rightarrow> directory session_ops" where
  "world_ops w = private_ops (lw_euid w) (lw_listing w) (lw_reading w) (lw_publishing w)"

definition with_ledger :: "bool \<Rightarrow> ledger_world \<Rightarrow> (directory, 'v) with_session" where
  "with_ledger writable w callback =
     withPrivateLedgerSession (lw_euid w) (lw_run w) (lw_lease w) writable (\<lambda>s. callback (world_ops w s))"

interpretation world_session: ledger_session "world_ops w s" ledger_store distinct_records for w s
  unfolding world_ops_def by (rule private_session.ledger_session_axioms)

lemma withPrivateLedgerSession_cases:
  assumes "withPrivateLedgerSession euid f lease writable callback (d, v) = (err, (d', v'))"
  shows "err \<noteq> None \<and> d' = d \<and> v' = v \<or>
    (\<exists>fd e. startPrivateLedgerSession (run_start f) euid lease fd writable d = (Inl e, d') \<and> v' = v \<and> err = Some e) \<or>
    (\<exists>fd s d1 e. startPrivateLedgerSession (run_start f) euid lease fd writable d = (Inr s, d1) \<and>
       callback s (d1, v) = (e, (d', v')) \<and> (err = e \<or> e = None \<and> err = Some [ErrInterrupted]))"
proof (cases "checks [contextError (run_context f), check (pd_kind lease = LayoutPrivateState) [ErrUnsupported]]")
  case None
  show ?thesis
  proof (cases "lease_duplicateLocked lease euid (run_source f)")
    case (Inl e)
    with None assms show ?thesis by (auto simp: withPrivateLedgerSession_def lease_withFD_def)
  next
    case (Inr fd)
    obtain r d1 where start: "startPrivateLedgerSession (run_start f) euid lease fd writable d = (r, d1)" by force
    show ?thesis
    proof (cases r)
      case (Inl e)
      with None Inr start assms show ?thesis by (auto simp: withPrivateLedgerSession_def lease_withFD_def)
    next
      fix s assume r: "r = Inr s"
      obtain e st where call: "callback s (d1, v) = (e, st)" by (rule prod.exhaust)
      have "(err, (d', v')) = (case e of Some e \<Rightarrow> (Some e, st) | None \<Rightarrow> (map_option (\<lambda>_. [ErrInterrupted]) (run_release f), st))"
        using None Inr start r call assms by (simp add: withPrivateLedgerSession_def lease_withFD_def split: option.splits)
      then have "st = (d', v')" "err = e \<or> e = None \<and> err = Some [ErrInterrupted]"
        by (cases e; cases "run_release f"; simp)+
      with start r call show ?thesis by blast
    qed
  qed
qed (use assms in \<open>auto simp: withPrivateLedgerSession_def\<close>)

lemma with_ledger_cases:
  assumes "with_ledger writable w callback (d, v) = (err, (d', v'))" "distinct_records d"
  obtains "err \<noteq> None" "v' = v" "ledger_store d' = ledger_store d" "distinct_records d'" "writable \<or> d' = d"
  | s d1 e where "callback (world_ops w s) (d1, v) = (e, (d', v'))" "ledger_store d1 = ledger_store d"
      "distinct_records d1" "writable \<or> d1 = d" "err = e \<or> e = None \<and> err = Some [ErrInterrupted]"
proof -
  let ?start = "startPrivateLedgerSession (run_start (lw_run w)) (lw_euid w) (lw_lease w)"
  from withPrivateLedgerSession_cases [OF assms(1) [unfolded with_ledger_def]]
  consider "err \<noteq> None" "d' = d" "v' = v"
    | fd e where "?start fd writable d = (Inl e, d')" "v' = v" "err = Some e"
    | fd s d1 e where "?start fd writable d = (Inr s, d1)" "callback (world_ops w s) (d1, v) = (e, (d', v'))"
        "err = e \<or> e = None \<and> err = Some [ErrInterrupted]"
    by metis
  then show thesis
  proof cases
    case 1
    with that(1) assms(2) show thesis by simp
  next
    case (2 fd e)
    from start_keeps_records [OF 2(1)] have kept: "other_entries d' = other_entries d" "writable \<or> d' = d" by auto
    with 2 assms(2) ledger_store_other [of d] ledger_store_other [of d'] that(1) show thesis
      by (simp add: distinct_records_def)
  next
    case (3 fd s d1 e)
    from start_keeps_records [OF 3(1)] have kept: "other_entries d1 = other_entries d" "writable \<or> d1 = d" by auto
    with 3 assms(2) ledger_store_other [of d] ledger_store_other [of d1] that(2) show thesis
      by (simp add: distinct_records_def)
  qed
qed

lemma mutation_result_spec:
  assumes "mutation_spec env wanted m e out m'" "err = e \<or> e = None \<and> err = Some [ErrInterrupted]"
    "mutation_result (err, (d', out)) = ((out', err'), d'')"
  shows "err' = err \<and> d'' = d' \<and> mutation_spec env wanted m err out' m'"
proof -
  have token: "recovery_Token (Some r) \<noteq> []" if "ledger_step env hs f r hs'" for hs f r hs'
    using that by cases (use history_token in \<open>auto simp: recovery_Token_def\<close>)
  from assms(1) consider "e \<noteq> None" "out = None" "m' = m"
    | (attempted) hs f r c hs' where "retained env m hs" "ledger_step env hs f r hs'" "wanted f r" "encodeRecoveryFrame env f = Inr c"
      "e \<noteq> None \<and> m' = m \<or> frame_id f \<notin> dom m \<and> (\<exists>c'. m' = m(frame_id f \<mapsto> c') \<and> take (length c') c = c' \<and>
           (c' = c \<or> (\<exists>x. e = Some x \<and> errors_Is x ErrInterrupted)))"
      "out = (if e = None \<or> (\<exists>x. e = Some x \<and> errors_Is x ErrInterrupted) then Some r else None)"
    unfolding mutation_spec_def by blast
  then show ?thesis
  proof cases
    case 1
    with assms(2,3) show ?thesis by (auto simp: mutation_result_def mutation_spec_def recovery_Token_def split: option.splits)
  next
    case attempted
    have out': "out' = (if err = None \<or> (\<exists>x. err = Some x \<and> errors_Is x ErrInterrupted) then Some r else None)"
      "err' = err" "d'' = d'"
      using assms(2,3) attempted(6) token [OF attempted(2)]
      by (auto simp: mutation_result_def split: option.splits if_splits)
    have "err \<noteq> None \<and> m' = m \<or> frame_id f \<notin> dom m \<and> (\<exists>c'. m' = m(frame_id f \<mapsto> c') \<and> take (length c') c = c' \<and>
           (c' = c \<or> (\<exists>x. err = Some x \<and> errors_Is x ErrInterrupted)))"
      using attempted(5) assms(2) by auto
    with attempted(1-4) out' show ?thesis unfolding mutation_spec_def by blast
  qed
qed

lemma mutation_refused: "err \<noteq> None \<Longrightarrow> mutation_spec env wanted m err None m"
  by (simp add: mutation_spec_def)

lemma run_mutation:
  assumes run: "mutation_result (with_ledger True w callback (d, None)) = ((out, err), d')" and d: "distinct_records d"
    and spec: "\<And>s d1 e d2 v. distinct_records d1 \<Longrightarrow> callback (world_ops w s) (d1, None) = (e, (d2, v)) \<Longrightarrow>
      distinct_records d2 \<and> mutation_spec env wanted (ledger_store d1) e v (ledger_store d2)"
  shows "distinct_records d' \<and> mutation_spec env wanted (ledger_store d) err out (ledger_store d')"
proof -
  obtain e d1 v where st: "with_ledger True w callback (d, None) = (e, (d1, v))" by (metis prod_cases3)
  from st d show ?thesis
  proof (cases rule: with_ledger_cases)
    case 1
    with run st mutation_refused [of e] show ?thesis
      by (auto simp: mutation_result_def recovery_Token_def)
  next
    case (2 s d0 e0)
    note done_ = spec [OF 2(3,1)]
    have "mutation_result (e, (d1, v)) = ((out, err), d')" using run st by simp
    from mutation_result_spec [OF done_ [THEN conjunct2] 2(5) this] done_ 2(2) show ?thesis by simp
  qed
qed

lemma Reserve_mutation:
  assumes "distinct_records d"
    and "Reserve env live random (with_ledger True w) a planDigest layout d = ((out, err), d')"
  shows "distinct_records d' \<and> mutation_spec env
    (\<lambda>f r. \<exists>token. newRecoveryToken random = Inr token \<and>
       newRecoveryBinding env (action_clone a) planDigest token layout = Inr (rec_binding r) \<and>
       newIntentFrame env (rec_binding r) = Inr f)
    (ledger_store d) err out (ledger_store d')"
proof (cases "\<exists>e. out = None \<and> err = Some e \<and> d' = d")
  case True
  with assms(1) show ?thesis by (auto intro: mutation_refused)
next
  case False
  with assms(2) have "mutation_result (with_ledger True w (reserve_callback env random (action_clone a) planDigest layout) (d, None)) =
      ((out, err), d')"
    by (auto simp: Reserve_def Let_def split: option.splits)
  from run_mutation [OF this assms(1)] world_session.reserve_callback_spec show ?thesis by blast
qed

lemma Transition_mutation:
  assumes "distinct_records d"
    and "Transition env live (with_ledger True w) s t d = ((out, err), d')"
  shows "distinct_records d' \<and> mutation_spec env
    (\<lambda>f r. \<exists>h. is_history env h \<and> same_identity (rh_recovery h) s \<and> appendRecoveryTransition env (rh_frames h) t = Inr f \<and>
       replayRecoveryFrames env (rh_frames h @ [f]) = Inr r)
    (ledger_store d) err out (ledger_store d')"
proof (cases "\<exists>e. out = None \<and> err = Some e \<and> d' = d")
  case True
  with assms(1) show ?thesis by (auto intro: mutation_refused)
next
  case False
  with assms(2) have "mutation_result (with_ledger True w (transition_callback env s t) (d, None)) = ((out, err), d')"
    by (auto simp: Transition_def split: option.splits)
  from run_mutation [OF this assms(1)] world_session.transition_callback_spec show ?thesis by blast
qed

section \<open>Properties\<close>

text \<open>
  C26: reserving refines the abstract ledger. Whatever the kernel answers, \<^verbatim>\<open>Reserve\<close> either is
  refused with the records unchanged, or attempts exactly one step: the intent frame of a new
  recovery of this action under the drawn token, for a source without an open recovery and while the
  ledger has room. Success means that its record is complete; only with \<^verbatim>\<open>ErrInterrupted\<close> can it be
  partial, and with that error, as on success, the caller gets the recovery back.
\<close>

theorem reserve_refines:
  assumes "distinct_records d"
    and "Reserve env live random (with_ledger True w) a planDigest layout d = ((out, err), d')"
  shows "distinct_records d' \<and> mutation_spec env
    (\<lambda>f r. \<exists>token. newRecoveryToken random = Inr token \<and>
       newRecoveryBinding env (action_clone a) planDigest token layout = Inr (rec_binding r) \<and>
       newIntentFrame env (rec_binding r) = Inr f)
    (ledger_store d) err out (ledger_store d')"
  by (rule Reserve_mutation [OF assms])

text \<open>
  C27: a transition refines the abstract ledger. \<^verbatim>\<open>Transition\<close> ignores the stale facts of its
  argument: it is refused, or it attempts to append to the retained history with the same identity
  the frame the appender builds for it, and returns what the longer history replays to.
\<close>

theorem transition_refines:
  assumes "distinct_records d"
    and "Transition env live (with_ledger True w) s t d = ((out, err), d')"
  shows "distinct_records d' \<and> mutation_spec env
    (\<lambda>f r. \<exists>h. is_history env h \<and> same_identity (rh_recovery h) s \<and> appendRecoveryTransition env (rh_frames h) t = Inr f \<and>
       replayRecoveryFrames env (rh_frames h @ [f]) = Inr r)
    (ledger_store d) err out (ledger_store d')"
  by (rule Transition_mutation [OF assms])

text \<open>
  C25: a completed step keeps the ledger readable. After an abstract step whose frame was stored
  completely, reading the records in any order gives exactly the histories of the step; in
  particular no two open recoveries share a source, and no retained history changed but the one
  that was extended. (The frame holds 32-byte arrays and the CBOR library decodes what it encoded.)
\<close>

theorem completed_step_readable:
  assumes "retained env m hs" and "ledger_step env hs f r hs'" and "frame_id f \<notin> dom m"
    and "encodeRecoveryFrame env f = Inr c" and "frame_arrays f" and "cbor_faithful env f c"
    and "distinct ids" and "set ids = insert (frame_id f) (dom m)"
  shows "replayRecoveryLedgerRecords env (records_of (m(frame_id f \<mapsto> c)) ids) = Inr hs'"
proof -
  have "decodeRecoveryFrame env c = Inr f" by (rule encode_decode [OF assms(4-6)])
  note ledger_step_retained [OF assms(1-3) this]
  moreover have "set ids = dom (m(frame_id f \<mapsto> c))" using assms(8) by simp
  ultimately show ?thesis by (simp only: replay_retained [OF assms(7)])
qed

text \<open>
  C29: an inventory is complete and exact. A successful \<^verbatim>\<open>ListOutstanding\<close> changes nothing and returns
  the open recoveries of the retained histories, each once, in the order of their keys and within the limit;
  their sources are pairwise different.
\<close>

theorem list_outstanding_exact:
  assumes "distinct_records d" and "ListOutstanding env live (with_ledger False w) limit d = (Inr rs, d')"
  shows "d' = d \<and> int (length rs) \<le> limit \<and>
    distinct (map (\<lambda>r. (rb_root (rec_binding r), rb_source (rec_binding r))) rs) \<and>
    (\<exists>hs. retained env (ledger_store d) hs \<and> rs = filter (\<lambda>r. \<not> recovery_Closed r) (map rh_recovery hs))"
proof -
  have limit: "0 < limit" "limit \<le> 128"
    and run: "with_ledger False w (read_callback env (\<lambda>hs. outstandingRecoveries hs limit) []) (d, []) = (None, (d', rs))"
    using assms(2) by (auto simp: ListOutstanding_def checks_Cons maximumRecoveryLedgerRecords_def
        split: option.splits prod.splits)
  from run assms(1) obtain hs where hs: "retained env (ledger_store d) hs" "outstandingRecoveries hs limit = Inr rs" "d' = d"
  proof (cases rule: with_ledger_cases)
    case (2 s d1 e)
    have "d1 = d" "e = None" using 2(4,5) by auto
    with world_session.read_callback_spec [OF 2(3,1)] that show thesis by blast
  qed simp
  have rs: "rs = filter (\<lambda>r. \<not> recovery_Closed r) (map rh_recovery hs) \<and> int (length rs) \<le> limit"
    using hs(2) limit
    by (auto simp: outstandingRecoveries_def maximumRecoveryLedgerRecords_def collect_outstanding_all Let_def split: if_splits)
  have "open_source_keys hs = map (\<lambda>r. recoverySourceKey (rec_binding r)) rs"
    using rs by (simp add: open_source_keys_def filter_map comp_def)
  then have "distinct (map (\<lambda>r. recoverySourceKey (rec_binding r)) rs)" using hs(1) by (simp add: retained_def)
  then have "distinct (map (\<lambda>r. (rb_root (rec_binding r), rb_source (rec_binding r))) rs)"
    by (auto simp: distinct_map inj_on_def recoverySourceKey_def)
  with rs hs show ?thesis by blast
qed

section \<open>A sample ledger\<close>

definition sample_ledger_faults :: session_faults where
  "sample_ledger_faults = (sample_faults (sample_recheck True))
     \<lparr> sf_create := (sf_create (sample_faults (sample_recheck True))) \<lparr> cf_verify := sample_view 2 \<rparr> \<rparr>"

definition sample_world :: ledger_world where
  "sample_world = \<lparr> lw_euid = 1000, lw_lease = sample_lease,
     lw_run = \<lparr> run_context = True, run_source = sample_layout, run_start = sample_start, run_release = None \<rparr>,
     lw_listing = sample_ledger_faults, lw_reading = (\<lambda>_. sample_ledger_faults), lw_publishing = sample_ledger_faults \<rparr>"

definition empty_ledger :: directory where
  "empty_ledger = [(privateLedgerLockBasename, sample_lock)]"

definition frame_file :: "u8 \<Rightarrow> dir_file" where
  "frame_file n = \<lparr> df_contents = [n, 1], df_statx = Inr (sample_statx 0x8180 1 2) \<rparr>"

definition sample_record_id :: "u8 \<Rightarrow> record_id" where
  "sample_record_id n = \<lparr> rid_actionBindingDigest = hex_encode (replicate 32 1), rid_token = sample_token, rid_ordinal = n \<rparr>"

definition reserved_ledger :: directory where
  "reserved_ledger = empty_ledger @ [(record_basename (sample_record_id 0), frame_file 0)]"

definition dispatched_ledger :: directory where
  "dispatched_ledger = reserved_ledger @ [(record_basename (sample_record_id 1), frame_file 1)]"

abbreviation decoding_env :: frame_env where
  "decoding_env \<equiv> sample_env (\<lambda>n. if n = 0 then sample_intent else sample_frame 1 MetadataDispatchRecorded [] [])"

lemma sample_binding_digest: "rb_actionBindingDigest (case_binding c) = replicate 32 1" "rb_token (case_binding c) = sample_token"
  "rb_planDigest (case_binding c) = sample_plan_digest" "rb_trashLayoutBinding (case_binding c) = case_layout c"
  by (simp_all add: case_binding_def binding_of_def case_binding_env_def ComputeActionBindingDigest_def digest_copy_same)

lemma sample_frame_id: "frame_id (case_frame c n e out m) = sample_record_id n"
  by (simp add: frame_id_def frame_key_def sample_record_id_def sample_binding_digest)

lemma sample_entry_ok: "validatePrivateLedgerRecordEntry 1000 [] (frame_file n) = None"
  by code_simp

lemma sample_record_ids: "record_id_validate (sample_record_id 0) = None" "record_id_validate (sample_record_id 1) = None"
  by code_simp+

lemma sample_scans:
  assumes "1 < limit" "limit \<le> 256"
  shows "privateLedgerRecordIDsAt sample_scan 1000 limit empty_ledger = Inr []"
    "privateLedgerRecordIDsAt sample_scan 1000 limit reserved_ledger = Inr [sample_record_id 0]"
  using assms
  by (simp_all add: privateLedgerRecordIDsAt_def empty_ledger_def reserved_ledger_def scan_lock scan_record sample_record_ids sample_fault_simps
     sample_active sample_entry_ok maximumPrivateLedgerRecords_def maximumPrivateLedgerDirEntries_def del: scan_directory.simps(2))

lemma sample_leave: "sf_context sample_ledger_faults" "sf_enter sample_ledger_faults = sample_recheck True"
  "sf_leave sample_ledger_faults = sample_recheck True" "sf_published sample_ledger_faults = sample_recheck True" "sf_scan sample_ledger_faults = sample_scan"
  by (simp_all add: sample_ledger_faults_def sample_fault_simps)

lemma ledger_lock: "empty_ledger = (privateLedgerLockBasename, sample_lock) # []"
  "reserved_ledger = (privateLedgerLockBasename, sample_lock) # [(record_basename (sample_record_id 0), frame_file 0)]"
  "dispatched_ledger = (privateLedgerLockBasename, sample_lock) # [(record_basename (sample_record_id 0), frame_file 0), (record_basename (sample_record_id 1), frame_file 1)]"
  by (simp_all add: empty_ledger_def reserved_ledger_def dispatched_ledger_def)

lemma sample_started:
  "startPrivateLedgerSession sample_start 1000 sample_lease 7 True empty_ledger = (Inr sample_session, empty_ledger)"
  "startPrivateLedgerSession sample_start 1000 sample_lease 7 True reserved_ledger = (Inr sample_session, reserved_ledger)"
  "startPrivateLedgerSession sample_start 1000 sample_lease 7 False reserved_ledger =
     (Inr (sample_session \<lparr> ps_writable := False \<rparr>), reserved_ledger)"
  using sample_scans [of 256] by (simp_all add: ledger_lock sample_start_existing sample_session_writable)

lemma sample_lists:
  "session_List sample_session 1000 sample_ledger_faults 128 empty_ledger = Inr []"
  "session_List sample_session 1000 sample_ledger_faults 128 reserved_ledger = Inr [sample_record_id 0]"
  "session_List (sample_session \<lparr> ps_writable := False \<rparr>) 1000 sample_ledger_faults 128 reserved_ledger = Inr [sample_record_id 0]"
  using sample_scans [of 128]
  by (simp_all add: session_List_def ledger_lock sample_with_active sample_with_active_writable sample_leave maximumPrivateLedgerRecords_def)

lemma sample_read_record: "readPrivateLedgerRecord (sf_read sample_ledger_faults) 1000 (sample_record_id 0) 65536 reserved_ledger = Inr [0, 1]"
  by code_simp

lemma sample_reads:
  "session_Read sample_session 1000 sample_ledger_faults (sample_record_id 0) 65536 reserved_ledger = Inr [0, 1]"
  "session_Read (sample_session \<lparr> ps_writable := False \<rparr>) 1000 sample_ledger_faults (sample_record_id 0) 65536 reserved_ledger = Inr [0, 1]"
  using sample_read_record
  by (simp_all add: session_Read_def sample_record_ids ledger_lock sample_with_active sample_with_active_writable sample_leave maximumDurableFileBytes_def)

lemma sample_created:
  "publishFileDurableAtWith (sf_create sample_ledger_faults) 1000 7 (record_basename (sample_record_id 0)) [0, 1] empty_ledger =
     (None, reserved_ledger)"
  "publishFileDurableAtWith (sf_create sample_ledger_faults) 1000 7 (record_basename (sample_record_id 1)) [1, 1] reserved_ledger =
     (None, dispatched_ledger)"
  by code_simp+

lemma sample_publishes:
  "session_Publish sample_session 1000 sample_ledger_faults (sample_record_id 0) [0, 1] empty_ledger = (Inr (), reserved_ledger)"
  "session_Publish sample_session 1000 sample_ledger_faults (sample_record_id 1) [1, 1] reserved_ledger = (Inr (), dispatched_ledger)"
proof -
  have fd: "ps_fd sample_session = 7" by (simp add: sample_session_def)
  have rechecks: "session_recheckLocked sample_session 1000 (sample_recheck True) reserved_ledger = None"
    "session_recheckLocked sample_session 1000 (sample_recheck True) dispatched_ledger = None"
    using sample_recheck_ok [of True] by (simp_all add: ledger_lock sample_session_writable)
  have "publish_step sample_session 1000 sample_ledger_faults (sample_record_id 0) [0, 1] empty_ledger = (Inr (), reserved_ledger)"
    "publish_step sample_session 1000 sample_ledger_faults (sample_record_id 1) [1, 1] reserved_ledger = (Inr (), dispatched_ledger)"
    using sample_scans [of 256]
    by (simp_all add: publish_step_def sample_active sample_leave fd sample_created rechecks maximumPrivateLedgerRecords_def)
  then show "session_Publish sample_session 1000 sample_ledger_faults (sample_record_id 0) [0, 1] empty_ledger = (Inr (), reserved_ledger)"
    "session_Publish sample_session 1000 sample_ledger_faults (sample_record_id 1) [1, 1] reserved_ledger = (Inr (), dispatched_ledger)"
    unfolding ledger_lock
    by (simp_all add: session_Publish_def sample_record_ids maximumDurableFileBytes_def sample_with_active_writable sample_leave)
qed

lemmas sample_calls = sample_lists sample_reads sample_publishes

lemma with_sample_ledger:
  assumes "startPrivateLedgerSession sample_start 1000 sample_lease 7 writable d = (Inr s, d)"
  shows "with_ledger writable sample_world callback (d, v) = callback (world_ops sample_world s) (d, v)"
proof -
  have "lease_duplicateLocked sample_lease 1000 sample_layout = Inr 7" by code_simp
  moreover have "pd_kind sample_lease = LayoutPrivateState" by (simp add: sample_lease_def)
  ultimately show ?thesis
    using assms
    by (simp add: with_ledger_def withPrivateLedgerSession_def lease_withFD_def sample_world_def contextError_def
        split: prod.splits option.splits)
qed

lemma sample_ops:
  "so_List (world_ops sample_world s) = session_List s 1000 sample_ledger_faults"
  "so_Read (world_ops sample_world s) = session_Read s 1000 sample_ledger_faults"
  "so_Publish (world_ops sample_world s) = session_Publish s 1000 sample_ledger_faults"
  by (simp_all add: world_ops_def private_ops_def sample_world_def)

lemma sample_intent_facts:
  "validateRecoveryFrame decoding_env sample_intent = None" "encodeRecoveryFrame decoding_env sample_intent = Inr [0, 1]"
  "frame_arrays sample_intent" "cbor_faithful decoding_env sample_intent [0, 1]"
  "newIntentFrame decoding_env sample_binding = Inr sample_intent"
  "recoveryFromFrame decoding_env sample_intent = Inr (sample_recovery 0 (IntentReserved, []))"
proof -
  show valid: "validateRecoveryFrame decoding_env sample_intent = None"
    using sample_intent_valid by (simp add: sample_intent_def)
  show "encodeRecoveryFrame decoding_env sample_intent = Inr [0, 1]"
    using sample_encode [OF valid] by (simp add: sample_intent_def)
  show "frame_arrays sample_intent"
    by (simp add: frame_arrays_def sample_intent_def sample_binding_digest sample_plan_digest_def sample_layout_binding_def)
  show "cbor_faithful decoding_env sample_intent [0, 1]"
    by (simp add: cbor_faithful_def sample_intent_def case_env_def binding_env.defs)
  show "newIntentFrame decoding_env sample_binding = Inr sample_intent"
    using valid by (simp add: newIntentFrame_Inr sample_intent_def zero_digest_def planDigestLength_def)
  show "recoveryFromFrame decoding_env sample_intent = Inr (sample_recovery 0 (IntentReserved, []))"
    using sample_digest [OF valid] by (simp add: recoveryFromFrame_Inr sample_intent_def case_recovery_def)
qed

lemma sample_intent_decoded: "decodeRecoveryFrame decoding_env [0, 1] = Inr sample_intent"
  using encode_decode sample_intent_facts by blast

definition reserved_history :: recovery_history where
  "reserved_history = \<lparr> rh_frames = [sample_intent], rh_recovery = sample_recovery 0 (IntentReserved, []) \<rparr>"

lemma reserved_is_history: "is_history decoding_env reserved_history"
  using sample_intent_facts by (auto simp: reserved_history_def sample_intent_def intro: history.intent)

lemma sample_replay_records:
  "replayRecoveryLedgerRecords decoding_env [\<lparr> lr_id = sample_record_id 0, lr_contents = [0, 1] \<rparr>] = Inr [reserved_history]"
proof -
  have "group_record decoding_env [] [] \<lparr> lr_id = sample_record_id 0, lr_contents = [0, 1] \<rparr> = Inr sample_intent"
    using sample_intent_decoded by (simp add: group_record_Inr sample_intent_def sample_frame_id)
  moreover have "replayRecoveryFrames decoding_env [sample_intent] = Inr (sample_recovery 0 (IntentReserved, []))"
    using reserved_is_history by (simp add: replay_iff reserved_history_def)
  ultimately show ?thesis
    by (simp add: replayRecoveryLedgerRecords_def maximumRecoveryLedgerRecords_def Let_def
        ensureUniqueOutstandingSources_def reserved_history_def)
qed

theorem replay_refines_store_witness:
  "retained decoding_env [sample_record_id 0 \<mapsto> [0, 1]] [reserved_history]"
proof -
  have "distinct [sample_record_id 0]" "set [sample_record_id 0] = dom [sample_record_id 0 \<mapsto> [0, 1 :: u8]]" by simp_all
  from replay_refines_store [OF this, of decoding_env "[reserved_history]"] sample_replay_records show ?thesis by (simp add: records_of_def)
qed

lemma sample_histories:
  "readRecoveryHistories decoding_env (world_ops sample_world sample_session) empty_ledger = Inr []"
  "readRecoveryHistories decoding_env (world_ops sample_world sample_session) reserved_ledger = Inr [reserved_history]"
  "readRecoveryHistories decoding_env (world_ops sample_world (sample_session \<lparr> ps_writable := False \<rparr>)) reserved_ledger =
     Inr [reserved_history]"
proof -
  note sample_replay_records
  moreover have "replayRecoveryLedgerRecords decoding_env [] = Inr []"
    by (simp add: replayRecoveryLedgerRecords_def maximumRecoveryLedgerRecords_def ensureUniqueOutstandingSources_def)
  ultimately show
    "readRecoveryHistories decoding_env (world_ops sample_world sample_session) empty_ledger = Inr []"
    "readRecoveryHistories decoding_env (world_ops sample_world sample_session) reserved_ledger = Inr [reserved_history]"
    "readRecoveryHistories decoding_env (world_ops sample_world (sample_session \<lparr> ps_writable := False \<rparr>)) reserved_ledger =
       Inr [reserved_history]"
    by (simp_all add: readRecoveryHistories_def sample_ops sample_calls
        maximumRecoveryLedgerRecords_def maximumRecoveryFrameBytes_def)
qed

lemma sample_reserve:
  "Reserve decoding_env True (Some (replicate 32 0xBB)) (with_ledger True sample_world) sample_trash_action
     sample_plan_digest sample_layout_binding empty_ledger =
     ((Some (sample_recovery 0 (IntentReserved, [])), None), reserved_ledger)"
proof -
  have token: "newRecoveryToken (Some (replicate 32 0xBB)) = Inr sample_token" by code_simp
  have binding: "newRecoveryBinding decoding_env sample_trash_action sample_plan_digest sample_token sample_layout_binding = Inr sample_binding"
    using sample_new_binding [of TrashCase] by (simp add: newRecoveryBinding_def recoveryLedgerSchemaVersionV2_def sample_binding_digest)
  have "NewPrivateLedgerRecordID (hex_encode (replicate 32 1)) sample_token 0 = Inr (sample_record_id 0)"
    unfolding sample_record_id_def by code_simp
  then have candidate: "reserve_candidate decoding_env sample_binding [] =
      Inr (sample_recovery 0 (IntentReserved, []), sample_record_id 0, [0, 1])"
    using sample_intent_facts
    by (simp add: reserve_candidate_def requireRecoveryLedgerPublicationCapacity_def findOutstandingRecovery_def
        recovery_Token_def sample_binding_digest sample_intent_def)
  have "validateRecoveryReservation (a_Kind sample_trash_action) sample_layout_binding = None"
    "plan_digest_validate sample_plan_digest = None" by code_simp+
  moreover have "validateRecoveryAction sample_trash_action = None"
    using sample_recovery_action by (auto simp: validateRecoveryAction_None)
  ultimately show ?thesis
    using recovery_action_clones(1) [OF sample_recovery_action]
    by (simp add: Reserve_def Let_def validateRecoveryContext_def with_sample_ledger [OF sample_started(1)]
        reserve_callback_def token binding sample_histories candidate publish_candidate_def sample_ops sample_calls
        mutation_result_def marked_def)
qed

lemma sample_distinct: "distinct_records empty_ledger" "distinct_records reserved_ledger"
  by code_simp+

theorem reserve_refines_witness:
  "\<exists>f. encodeRecoveryFrame decoding_env f = Inr [0, 1] \<and>
     ledger_store reserved_ledger = (ledger_store empty_ledger)(frame_id f \<mapsto> [0, 1])"
proof -
  from reserve_refines [OF sample_distinct(1) sample_reserve] obtain f c where f: "encodeRecoveryFrame decoding_env f = Inr c"
    "newIntentFrame decoding_env (rec_binding (sample_recovery 0 (IntentReserved, []))) = Inr f"
    "ledger_store reserved_ledger = (ledger_store empty_ledger)(frame_id f \<mapsto> c)"
    unfolding mutation_spec_def by simp blast
  then have "f = sample_intent" using sample_intent_facts(5) by (simp add: case_recovery_def)
  with f sample_intent_facts(2) show ?thesis by auto
qed

lemma sample_dispatch_facts:
  "appendRecoveryTransition decoding_env [sample_intent] \<lparr> tr_Event = MetadataDispatchRecorded, tr_Outcome = [], tr_Metadata = [] \<rparr> =
     Inr (sample_frame 1 MetadataDispatchRecorded [] [])"
  "recovery_apply decoding_env (sample_recovery 0 (IntentReserved, [])) (sample_frame 1 MetadataDispatchRecorded [] []) =
     Inr (sample_recovery 1 (MetadataDispatchRecorded, []))"
  "encodeRecoveryFrame decoding_env (sample_frame 1 MetadataDispatchRecorded [] []) = Inr [1, 1]"
proof -
  let ?f = "sample_frame 1 MetadataDispatchRecorded [] []"
  have follows: "sample_follows (IntentReserved, []) (MetadataDispatchRecorded, [])" by code_simp
  have valid: "validateRecoveryFrame decoding_env ?f = None"
    using sample_frame_valid [OF follows, of 1] by simp
  show "recovery_apply decoding_env (sample_recovery 0 (IntentReserved, [])) ?f = Inr (sample_recovery 1 (MetadataDispatchRecorded, []))"
    using sample_digest [OF valid] by (simp add: recovery_apply_Inr case_recovery_def)
  show "encodeRecoveryFrame decoding_env ?f = Inr [1, 1]" using sample_encode [OF valid] by simp
  have "history decoding_env [sample_intent] (sample_recovery 0 (IntentReserved, []))"
    using reserved_is_history by (simp add: reserved_history_def)
  from append_Inr [OF this] valid sample_transition [OF follows]
  show "appendRecoveryTransition decoding_env [sample_intent] \<lparr> tr_Event = MetadataDispatchRecorded, tr_Outcome = [], tr_Metadata = [] \<rparr> = Inr ?f"
    by (simp add: transition_of_def) (simp add: case_recovery_def)
qed

lemma sample_transition_run:
  "Transition decoding_env True (with_ledger True sample_world) (sample_recovery 0 (IntentReserved, []))
     \<lparr> tr_Event = MetadataDispatchRecorded, tr_Outcome = [], tr_Metadata = [] \<rparr> reserved_ledger =
     ((Some (sample_recovery 1 (MetadataDispatchRecorded, [])), None), dispatched_ledger)"
proof -
  have id: "NewPrivateLedgerRecordID (hex_encode (replicate 32 1)) sample_token 1 = Inr (sample_record_id 1)"
    "NewPrivateLedgerRecordID (hex_encode (replicate 32 1)) sample_token 0 = Inr (sample_record_id 0)"
    unfolding sample_record_id_def by code_simp+
  have fields: "rec_binding (sample_recovery n p) = sample_binding" "rec_schemaVersion (sample_recovery n p) = 2" for n p
    by (simp_all add: case_recovery_def)
  have "transition_candidate decoding_env (sample_recovery 0 (IntentReserved, []))
      \<lparr> tr_Event = MetadataDispatchRecorded, tr_Outcome = [], tr_Metadata = [] \<rparr> [reserved_history] =
      Inr (sample_recovery 1 (MetadataDispatchRecorded, []), sample_record_id 1, [1, 1])"
    using sample_dispatch_facts id
    by (simp add: transition_candidate_def findRecoveryHistory_def same_identity_def reserved_history_def fields
        requireRecoveryLedgerPublicationCapacity_def maximumRecoveryLedgerRecords_def recoveryLedgerSchemaVersionV2_def
        sample_binding_digest Let_def)
  moreover have "validateRecoveryIdentity (sample_recovery 0 (IntentReserved, [])) = None"
    using id by (simp add: validateRecoveryIdentity_def checks_Cons fields sample_binding_digest digest_validate_None zero_digest_def
        planDigestLength_def)
  ultimately show ?thesis
    by (simp add: Transition_def validateRecoveryContext_def with_sample_ledger [OF sample_started(2)] checks_Cons
        transition_callback_def sample_histories publish_candidate_def sample_ops sample_calls mutation_result_def)
qed

theorem transition_refines_witness:
  "\<exists>f r. appendRecoveryTransition decoding_env [sample_intent]
       \<lparr> tr_Event = MetadataDispatchRecorded, tr_Outcome = [], tr_Metadata = [] \<rparr> = Inr f \<and>
     dom (ledger_store dispatched_ledger) = insert (frame_id r) (dom (ledger_store reserved_ledger))"
proof -
  from transition_refines [OF sample_distinct(2) sample_transition_run] obtain r c where
    "ledger_store dispatched_ledger = (ledger_store reserved_ledger)(frame_id r \<mapsto> c)"
    unfolding mutation_spec_def by simp blast
  then have "dom (ledger_store dispatched_ledger) = insert (frame_id r) (dom (ledger_store reserved_ledger))" by simp
  with sample_dispatch_facts(1) show ?thesis by blast
qed

theorem completed_step_readable_witness:
  "replayRecoveryLedgerRecords decoding_env (records_of [sample_record_id 0 \<mapsto> [0, 1]] [sample_record_id 0]) = Inr [reserved_history]"
proof -
  have empty: "retained decoding_env Map.empty []" by (simp add: retained_def open_source_keys_def)
  have "history decoding_env [sample_intent] (sample_recovery 0 (IntentReserved, []))"
    using reserved_is_history by (simp add: reserved_history_def)
  then have step: "ledger_step decoding_env [] sample_intent (sample_recovery 0 (IntentReserved, []))
      (insort_key history_key \<lparr> rh_frames = [sample_intent], rh_recovery = sample_recovery 0 (IntentReserved, []) \<rparr> [])"
    by (intro ledger_step.reserved) (simp_all add: has_room_def requireRecoveryLedgerPublicationCapacity_def)
  have "frame_id sample_intent = sample_record_id 0" by (simp add: sample_intent_def sample_frame_id)
  with completed_step_readable [OF empty step _ sample_intent_facts(2,3,4), of "[sample_record_id 0]"] show ?thesis
    by (simp add: reserved_history_def)
qed

lemma sample_list_run:
  "ListOutstanding decoding_env True (with_ledger False sample_world) 5 reserved_ledger =
     (Inr [sample_recovery 0 (IntentReserved, [])], reserved_ledger)"
proof -
  have "\<not> recovery_Closed (sample_recovery 0 (IntentReserved, []))" by code_simp
  then show ?thesis
    by (simp add: ListOutstanding_def validateRecoveryContext_def maximumRecoveryLedgerRecords_def checks_Cons
        with_sample_ledger [OF sample_started(3)] read_callback_def sample_histories outstandingRecoveries_def reserved_history_def)
qed

theorem list_outstanding_exact_witness:
  "\<exists>hs. retained decoding_env (ledger_store reserved_ledger) hs \<and>
     [sample_recovery 0 (IntentReserved, [])] = filter (\<lambda>r. \<not> recovery_Closed r) (map rh_recovery hs)"
  using list_outstanding_exact [OF sample_distinct(2) sample_list_run] by blast

end
