(* ===== verification/RecoveryPort.thy ===== *)
theory RecoveryPort
  imports RecoveryLedger
begin

text \<open>
  \<^verbatim>\<open>src/internal/recoveryport/ledger.go\<close>, the data-only interface between the durable
  ledger and the content operations, and its implementation on the recovery ledger,
  \<^verbatim>\<open>src/internal/state/recovery_ledger_port.go\<close>. A ticket of the port carries the recovery
  it stands for; the content operations see only the facts of a ticket.
\<close>

section \<open>The vocabulary of the port\<close>

type_synonym port_destination = string
type_synonym port_event = string
type_synonym port_outcome = string
type_synonym port_metadata = string

definition DestinationTrash :: port_destination where "DestinationTrash = ''trash''"
definition DestinationQuarantine :: port_destination where "DestinationQuarantine = ''quarantine''"

definition EventIntentReserved :: port_event where "EventIntentReserved = ''intent_reserved''"
definition EventMetadataDispatchRecorded :: port_event where "EventMetadataDispatchRecorded = ''metadata_dispatch_recorded''"
definition EventMetadataVerified :: port_event where "EventMetadataVerified = ''metadata_verified''"
definition EventMetadataIndeterminate :: port_event where "EventMetadataIndeterminate = ''metadata_indeterminate''"
definition EventMoveDispatchRecorded :: port_event where "EventMoveDispatchRecorded = ''move_dispatch_recorded''"
definition EventMoveVerified :: port_event where "EventMoveVerified = ''move_verified''"
definition EventMoveIndeterminate :: port_event where "EventMoveIndeterminate = ''move_indeterminate''"
definition EventRestoreDispatchRecorded :: port_event where "EventRestoreDispatchRecorded = ''restore_dispatch_recorded''"
definition EventRestoreVerified :: port_event where "EventRestoreVerified = ''restore_verified''"
definition EventRestoreIndeterminate :: port_event where "EventRestoreIndeterminate = ''restore_indeterminate''"
definition EventReconciliationResolved :: port_event where "EventReconciliationResolved = ''reconciliation_resolved''"

definition PortOutcomeNotApplied :: port_outcome where "PortOutcomeNotApplied = ''not_applied''"
definition PortOutcomeMoveVerified :: port_outcome where "PortOutcomeMoveVerified = ''move_verified''"
definition PortOutcomeRestoreVerified :: port_outcome where "PortOutcomeRestoreVerified = ''restore_verified''"

definition PortMetadataAbsent :: port_metadata where "PortMetadataAbsent = ''absent''"
definition PortMetadataRetained :: port_metadata where "PortMetadataRetained = ''retained''"

lemmas port_vocabulary_defs = DestinationTrash_def DestinationQuarantine_def EventIntentReserved_def
  EventMetadataDispatchRecorded_def EventMetadataVerified_def EventMetadataIndeterminate_def EventMoveDispatchRecorded_def
  EventMoveVerified_def EventMoveIndeterminate_def EventRestoreDispatchRecorded_def EventRestoreVerified_def
  EventRestoreIndeterminate_def EventReconciliationResolved_def PortOutcomeNotApplied_def PortOutcomeMoveVerified_def
  PortOutcomeRestoreVerified_def PortMetadataAbsent_def PortMetadataRetained_def

record port_transition =
  pt_Event :: port_event
  pt_ReconciliationOutcome :: port_outcome
  pt_MetadataDisposition :: port_metadata

text \<open>\<^verbatim>\<open>recoveryport.Ticket\<close> and \<^verbatim>\<open>recoveryport.Ledger\<close>: what each accessor of a ticket answers, and the operations over a state \<open>'w\<close>.\<close>

record ticket_facts =
  tk_Token :: string
  tk_RootID :: trusted_root_id
  tk_Source :: byte_path
  tk_ActionID :: action_id
  tk_ActionKind :: action_kind
  tk_Destination :: port_destination
  tk_Precondition :: filesystem_precondition
  tk_Event :: port_event
  tk_Outcome :: port_outcome
  tk_MetadataDisposition :: port_metadata
  tk_TrashLayoutBinding :: trash_layout_binding
  tk_Closed :: bool

record ('t, 'w) ledger_port =
  lp_Reserve :: "action \<Rightarrow> plan_digest \<Rightarrow> trash_layout_binding \<Rightarrow> 'w \<Rightarrow> ('t option \<times> go_error option) \<times> 'w"
  lp_Transition :: "'t option \<Rightarrow> port_transition \<Rightarrow> 'w \<Rightarrow> ('t option \<times> go_error option) \<times> 'w"
  lp_FindOutstanding :: "trusted_root_id \<Rightarrow> byte_path \<Rightarrow> 'w \<Rightarrow> ('t option \<times> bool \<times> go_error option) \<times> 'w"
  lp_ListOutstanding :: "int \<Rightarrow> 'w \<Rightarrow> (go_error + 't list) \<times> 'w"
  lp_Reload :: "'t option \<Rightarrow> 'w \<Rightarrow> ('t option \<times> go_error option) \<times> 'w"

section \<open>Translating the vocabularies\<close>

text \<open>A \<^verbatim>\<open>switch\<close> over string constants is a table; its \<^verbatim>\<open>default\<close> is the error.\<close>

definition switch :: "(string \<times> string) list \<Rightarrow> go_error \<Rightarrow> string \<Rightarrow> go_error + string" where
  "switch cases e s = (case map_of cases s of None \<Rightarrow> Inl e | Some t \<Rightarrow> Inr t)"

definition recoveryDestinationToPort :: "recovery_destination \<Rightarrow> go_error + port_destination" where
  "recoveryDestinationToPort = switch
     [(RecoveryDestinationTrash, DestinationTrash), (RecoveryDestinationQuarantine, DestinationQuarantine)]
     [ErrRecoveryCorrupt]"

definition recoveryEventToPort :: "recovery_event \<Rightarrow> go_error + port_event" where
  "recoveryEventToPort = switch
     [(IntentReserved, EventIntentReserved), (MetadataDispatchRecorded, EventMetadataDispatchRecorded),
      (MetadataVerified, EventMetadataVerified), (MetadataIndeterminate, EventMetadataIndeterminate),
      (MoveDispatchRecorded, EventMoveDispatchRecorded), (MoveVerified, EventMoveVerified),
      (MoveIndeterminate, EventMoveIndeterminate), (RestoreDispatchRecorded, EventRestoreDispatchRecorded),
      (RestoreVerified, EventRestoreVerified), (RestoreIndeterminate, EventRestoreIndeterminate),
      (ReconciliationResolved, EventReconciliationResolved)]
     [ErrRecoveryCorrupt]"

definition recoveryOutcomeToPort :: "recovery_outcome \<Rightarrow> go_error + port_outcome" where
  "recoveryOutcomeToPort = switch
     [([], []), (OutcomeNotApplied, PortOutcomeNotApplied), (OutcomeMoveVerified, PortOutcomeMoveVerified),
      (OutcomeRestoreVerified, PortOutcomeRestoreVerified)]
     [ErrRecoveryCorrupt]"

definition recoveryMetadataDispositionToPort :: "recovery_metadata \<Rightarrow> go_error + port_metadata" where
  "recoveryMetadataDispositionToPort = switch
     [([], []), (MetadataAbsent, PortMetadataAbsent), (MetadataRetained, PortMetadataRetained)] [ErrRecoveryCorrupt]"

definition recoveryEventFromPort :: "port_event \<Rightarrow> go_error + recovery_event" where
  "recoveryEventFromPort = switch
     [(EventIntentReserved, IntentReserved), (EventMetadataDispatchRecorded, MetadataDispatchRecorded),
      (EventMetadataVerified, MetadataVerified), (EventMetadataIndeterminate, MetadataIndeterminate),
      (EventMoveDispatchRecorded, MoveDispatchRecorded), (EventMoveVerified, MoveVerified),
      (EventMoveIndeterminate, MoveIndeterminate), (EventRestoreDispatchRecorded, RestoreDispatchRecorded),
      (EventRestoreVerified, RestoreVerified), (EventRestoreIndeterminate, RestoreIndeterminate),
      (EventReconciliationResolved, ReconciliationResolved)]
     [ErrRecoveryUnsupported]"

definition recoveryOutcomeFromPort :: "port_outcome \<Rightarrow> go_error + recovery_outcome" where
  "recoveryOutcomeFromPort = switch
     [([], []), (PortOutcomeNotApplied, OutcomeNotApplied), (PortOutcomeMoveVerified, OutcomeMoveVerified),
      (PortOutcomeRestoreVerified, OutcomeRestoreVerified)]
     [ErrRecoveryUnsupported]"

definition recoveryMetadataDispositionFromPort :: "port_metadata \<Rightarrow> go_error + recovery_metadata" where
  "recoveryMetadataDispositionFromPort = switch
     [([], []), (PortMetadataAbsent, MetadataAbsent), (PortMetadataRetained, MetadataRetained)] [ErrRecoveryUnsupported]"

definition recoveryTransitionFromPort :: "port_transition \<Rightarrow> go_error + recovery_transition" where
  "recoveryTransitionFromPort t =
     (case recoveryEventFromPort (pt_Event t) of
        Inl e \<Rightarrow> Inl e
      | Inr event \<Rightarrow>
        (case recoveryOutcomeFromPort (pt_ReconciliationOutcome t) of
           Inl e \<Rightarrow> Inl e
         | Inr out \<Rightarrow>
           (case recoveryMetadataDispositionFromPort (pt_MetadataDisposition t) of
              Inl e \<Rightarrow> Inl e
            | Inr metadata \<Rightarrow> Inr \<lparr> tr_Event = event, tr_Outcome = out, tr_Metadata = metadata \<rparr>)))"

section \<open>Tickets\<close>

text \<open>
  A port is a pointer, here a number. The dynamic value of a ticket is a pointer to a
  \<^verbatim>\<open>recoveryTicket\<close>, perhaps \<^verbatim>\<open>nil\<close>, or another implementation of the interface.
\<close>

record recovery_ticket =
  rt_port :: nat
  rt_recovery :: recovery
  rt_destination :: port_destination
  rt_event :: port_event
  rt_outcome :: port_outcome
  rt_metadata :: port_metadata
  rt_precondition :: filesystem_precondition
  rt_source :: byte_path

datatype port_ticket = RecoveryTicket "recovery_ticket option" | ForeignTicket ticket_facts

definition recovery_Source :: "recovery \<Rightarrow> byte_path" where
  "recovery_Source r = cloneRecoveryPath (rb_source (rec_binding r))"

text \<open>The accessors of \<^verbatim>\<open>*recoveryTicket\<close>; a nil receiver answers zero values.\<close>

definition zero_snapshot :: filesystem_snapshot where
  "zero_snapshot =
     (let u32 = \<lparr> u32_Known = False, u32_Value = 0 \<rparr>; u64 = \<lparr> u64_Known = False, u64_Value = 0 \<rparr>;
          i64 = \<lparr> i64_Known = False, i64_Value = 0 \<rparr>
      in \<lparr> fs_DeviceMajor = u32, fs_DeviceMinor = u32, fs_Inode = u64, fs_Type = FileTypeUnknown, fs_UID = u32,
           fs_GID = u32, fs_Mode = u32, fs_LinkCount = u64, fs_Size = u64, fs_ModifiedAt = i64, fs_ChangedAt = i64,
           fs_MountID = u64 \<rparr>)"

definition zero_precondition :: filesystem_precondition where
  "zero_precondition = \<lparr> fp_Target = zero_target, fp_Required = 0, fp_Snapshot = zero_snapshot \<rparr>"

definition recoveryTicket_facts :: "recovery_ticket option \<Rightarrow> ticket_facts" where
  "recoveryTicket_facts t = (case t of
     None \<Rightarrow>
       \<lparr> tk_Token = [], tk_RootID = [], tk_Source = \<lparr> path_components = [] \<rparr>, tk_ActionID = [], tk_ActionKind = [],
         tk_Destination = [], tk_Precondition = zero_precondition, tk_Event = [], tk_Outcome = [],
         tk_MetadataDisposition = [], tk_TrashLayoutBinding = zero_digest, tk_Closed = False \<rparr>
   | Some t \<Rightarrow>
       (let b = rec_binding (rt_recovery t)
        in \<lparr> tk_Token = rb_token b, tk_RootID = rb_root b, tk_Source = cloneRecoveryPath (rt_source t),
             tk_ActionID = rb_actionID b, tk_ActionKind = rb_actionKind b, tk_Destination = rt_destination t,
             tk_Precondition = cloneFilesystemPrecondition (rt_precondition t), tk_Event = rt_event t,
             tk_Outcome = rt_outcome t, tk_MetadataDisposition = rt_metadata t,
             tk_TrashLayoutBinding = rb_trashLayoutBinding b, tk_Closed = recovery_Closed (rt_recovery t) \<rparr>))"

definition ticket_view :: "port_ticket \<Rightarrow> ticket_facts" where
  "ticket_view t = (case t of RecoveryTicket r \<Rightarrow> recoveryTicket_facts r | ForeignTicket f \<Rightarrow> f)"

definition newTicket :: "nat \<Rightarrow> recovery \<Rightarrow> go_error + recovery_ticket" where
  "newTicket port r =
     (case validateRecoveryIdentity r of
        Some _ \<Rightarrow> Inl [ErrRecoveryCorrupt]
      | None \<Rightarrow>
        (case recoveryDestinationToPort (rb_destination (rec_binding r)) of
           Inl e \<Rightarrow> Inl e
         | Inr destination \<Rightarrow>
           (case recoveryEventToPort (rec_event r) of
              Inl e \<Rightarrow> Inl e
            | Inr event \<Rightarrow>
              (case recoveryOutcomeToPort (rec_outcome r) of
                 Inl e \<Rightarrow> Inl e
               | Inr out \<Rightarrow>
                 (case recoveryMetadataDispositionToPort (rec_metadata r) of
                    Inl e \<Rightarrow> Inl e
                  | Inr metadata \<Rightarrow> Inr
                      \<lparr> rt_port = port, rt_recovery = r, rt_destination = destination, rt_event = event,
                        rt_outcome = out, rt_metadata = metadata,
                        rt_precondition = cloneFilesystemPrecondition (rb_precondition (rec_binding r)),
                        rt_source = cloneRecoveryPath (recovery_Source r) \<rparr>)))))"

definition ticketResult :: "nat \<Rightarrow> recovery option \<Rightarrow> go_error option \<Rightarrow> port_ticket option \<times> go_error option" where
  "ticketResult port r operationErr =
     (case r of
        None \<Rightarrow> (None, Some (case operationErr of None \<Rightarrow> [ErrRecoveryCorrupt] | Some e \<Rightarrow> e))
      | Some recovery \<Rightarrow>
        if recovery_Token r = [] then (None, Some (case operationErr of None \<Rightarrow> [ErrRecoveryCorrupt] | Some e \<Rightarrow> e))
        else (case newTicket port recovery of
            Inl e \<Rightarrow> (None, Some e)
          | Inr t \<Rightarrow> (Some (RecoveryTicket (Some t)), operationErr)))"

definition unwrap :: "nat \<Rightarrow> port_ticket option \<Rightarrow> go_error + recovery" where
  "unwrap port t = (case t of
     Some (RecoveryTicket (Some owned)) \<Rightarrow>
       if rt_port owned \<noteq> port then Inl [ErrRecoveryUnsupported] else Inr (rt_recovery owned)
   | _ \<Rightarrow> Inl [ErrRecoveryUnsupported])"

section \<open>The port on the recovery ledger\<close>

text \<open>
  The state is the ledger directory. Each call of the port meets the context, the random source and
  the kernel as they are at that moment: \<open>pw_calls\<close> gives them for the call with this number.
\<close>

record call_faults =
  cf_live :: bool
  cf_random :: "bytes option"
  cf_world :: ledger_world

record port_world =
  pw_directory :: directory
  pw_clock :: nat
  pw_calls :: "nat \<Rightarrow> call_faults"

definition ledger_call :: "(call_faults \<Rightarrow> directory \<Rightarrow> 'v \<times> directory) \<Rightarrow> 'f port_world_scheme \<Rightarrow> 'v \<times> 'f port_world_scheme" where
  "ledger_call f w =
     (case f (pw_calls w (pw_clock w)) (pw_directory w) of
        (v, d) \<Rightarrow> (v, w \<lparr> pw_directory := d, pw_clock := Suc (pw_clock w) \<rparr>))"

definition port_Reserve ::
    "'e frame_env_scheme \<Rightarrow> nat \<Rightarrow> action \<Rightarrow> plan_digest \<Rightarrow> trash_layout_binding \<Rightarrow> 'f port_world_scheme \<Rightarrow>
     (port_ticket option \<times> go_error option) \<times> 'f port_world_scheme" where
  "port_Reserve env port a planDigest layout w =
     (case ledger_call (\<lambda>c. Reserve env (cf_live c) (cf_random c) (with_ledger True (cf_world c)) a planDigest layout) w of
        ((r, err), w') \<Rightarrow> (ticketResult port r err, w'))"

definition port_Transition ::
    "'e frame_env_scheme \<Rightarrow> nat \<Rightarrow> port_ticket option \<Rightarrow> port_transition \<Rightarrow> 'f port_world_scheme \<Rightarrow>
     (port_ticket option \<times> go_error option) \<times> 'f port_world_scheme" where
  "port_Transition env port ticket t w =
     (case unwrap port ticket of
        Inl e \<Rightarrow> ((None, Some e), w)
      | Inr r \<Rightarrow>
        (case recoveryTransitionFromPort t of
           Inl e \<Rightarrow> ((None, Some e), w)
         | Inr stateTransition \<Rightarrow>
           (case ledger_call (\<lambda>c. Transition env (cf_live c) (with_ledger True (cf_world c)) r stateTransition) w of
              ((updated, err), w') \<Rightarrow> (ticketResult port updated err, w'))))"

definition port_FindOutstanding ::
    "'e frame_env_scheme \<Rightarrow> nat \<Rightarrow> trusted_root_id \<Rightarrow> byte_path \<Rightarrow> 'f port_world_scheme \<Rightarrow>
     (port_ticket option \<times> bool \<times> go_error option) \<times> 'f port_world_scheme" where
  "port_FindOutstanding env port root source w =
     (case ledger_call (\<lambda>c. FindOutstanding env (cf_live c) (with_ledger False (cf_world c)) root source) w of
        (Inl e, w') \<Rightarrow> ((None, False, Some e), w')
      | (Inr (_, False), w') \<Rightarrow> ((None, False, None), w')
      | (Inr (None, True), w') \<Rightarrow> ((None, False, Some [ErrRecoveryCorrupt]), w')
      | (Inr (Some r, True), w') \<Rightarrow>
        (case newTicket port r of
           Inl e \<Rightarrow> ((None, False, Some e), w')
         | Inr t \<Rightarrow> ((Some (RecoveryTicket (Some t)), True, None), w')))"

fun newTickets :: "nat \<Rightarrow> recovery list \<Rightarrow> go_error + port_ticket list" where
  "newTickets port [] = Inr []"
| "newTickets port (r # rs) =
     (case newTicket port r of
        Inl e \<Rightarrow> Inl e
      | Inr t \<Rightarrow>
        (case newTickets port rs of
           Inl e \<Rightarrow> Inl e
         | Inr ts \<Rightarrow> Inr (RecoveryTicket (Some t) # ts)))"

definition port_ListOutstanding ::
    "'e frame_env_scheme \<Rightarrow> nat \<Rightarrow> int \<Rightarrow> 'f port_world_scheme \<Rightarrow> (go_error + port_ticket list) \<times> 'f port_world_scheme" where
  "port_ListOutstanding env port limit w =
     (case ledger_call (\<lambda>c. ListOutstanding env (cf_live c) (with_ledger False (cf_world c)) limit) w of
        (Inl e, w') \<Rightarrow> (Inl e, w')
      | (Inr rs, w') \<Rightarrow> (newTickets port rs, w'))"

definition port_Reload ::
    "'e frame_env_scheme \<Rightarrow> nat \<Rightarrow> port_ticket option \<Rightarrow> 'f port_world_scheme \<Rightarrow> (port_ticket option \<times> go_error option) \<times> 'f port_world_scheme" where
  "port_Reload env port ticket w =
     (case unwrap port ticket of
        Inl e \<Rightarrow> ((None, Some e), w)
      | Inr r \<Rightarrow>
        (case ledger_call (\<lambda>c. Reload env (cf_live c) (with_ledger False (cf_world c)) r) w of
           (Inl e, w') \<Rightarrow> (ticketResult port None (Some e), w')
         | (Inr reloaded, w') \<Rightarrow> (ticketResult port reloaded None, w')))"

definition recovery_ledger_port :: "'e frame_env_scheme \<Rightarrow> nat \<Rightarrow> (port_ticket, 'f port_world_scheme) ledger_port" where
  "recovery_ledger_port env port =
     \<lparr> lp_Reserve = port_Reserve env port, lp_Transition = port_Transition env port,
       lp_FindOutstanding = port_FindOutstanding env port, lp_ListOutstanding = port_ListOutstanding env port,
       lp_Reload = port_Reload env port \<rparr>"

section \<open>The vocabularies coincide\<close>

text \<open>Both packages spell their constants alike, so every table is the identity on its keys.\<close>

lemma same_vocabulary:
  "DestinationTrash = RecoveryDestinationTrash" "DestinationQuarantine = RecoveryDestinationQuarantine"
  "EventIntentReserved = IntentReserved" "EventMetadataDispatchRecorded = MetadataDispatchRecorded"
  "EventMetadataVerified = MetadataVerified" "EventMetadataIndeterminate = MetadataIndeterminate"
  "EventMoveDispatchRecorded = MoveDispatchRecorded" "EventMoveVerified = MoveVerified"
  "EventMoveIndeterminate = MoveIndeterminate" "EventRestoreDispatchRecorded = RestoreDispatchRecorded"
  "EventRestoreVerified = RestoreVerified" "EventRestoreIndeterminate = RestoreIndeterminate"
  "EventReconciliationResolved = ReconciliationResolved"
  "PortOutcomeNotApplied = OutcomeNotApplied" "PortOutcomeMoveVerified = OutcomeMoveVerified"
  "PortOutcomeRestoreVerified = OutcomeRestoreVerified"
  "PortMetadataAbsent = MetadataAbsent" "PortMetadataRetained = MetadataRetained"
  by (simp_all only: port_vocabulary_defs recovery_vocabulary_defs)

lemma switch_same: "switch (map (\<lambda>x. (x, x)) xs) e s = Inr t \<longleftrightarrow> t = s \<and> s \<in> set xs"
  by (induction xs) (auto simp: switch_def split: option.splits if_splits)

lemma tables:
  "recoveryDestinationToPort = switch (map (\<lambda>x. (x, x)) [RecoveryDestinationTrash, RecoveryDestinationQuarantine]) [ErrRecoveryCorrupt]"
  "recoveryEventToPort = switch (map (\<lambda>x. (x, x)) recovery_events) [ErrRecoveryCorrupt]"
  "recoveryEventFromPort = switch (map (\<lambda>x. (x, x)) recovery_events) [ErrRecoveryUnsupported]"
  "recoveryOutcomeToPort = switch (map (\<lambda>x. (x, x)) [[], OutcomeNotApplied, OutcomeMoveVerified, OutcomeRestoreVerified]) [ErrRecoveryCorrupt]"
  "recoveryOutcomeFromPort = switch (map (\<lambda>x. (x, x)) [[], OutcomeNotApplied, OutcomeMoveVerified, OutcomeRestoreVerified]) [ErrRecoveryUnsupported]"
  "recoveryMetadataDispositionToPort = switch (map (\<lambda>x. (x, x)) [[], MetadataAbsent, MetadataRetained]) [ErrRecoveryCorrupt]"
  "recoveryMetadataDispositionFromPort = switch (map (\<lambda>x. (x, x)) [[], MetadataAbsent, MetadataRetained]) [ErrRecoveryUnsupported]"
  by (simp_all only: recoveryDestinationToPort_def recoveryEventToPort_def recoveryEventFromPort_def recoveryOutcomeToPort_def
      recoveryOutcomeFromPort_def recoveryMetadataDispositionToPort_def recoveryMetadataDispositionFromPort_def
      same_vocabulary recovery_events_def list.map)

lemma to_port_Inr:
  "recoveryDestinationToPort s = Inr t \<longleftrightarrow> t = s \<and> recovery_destination_validate s = None"
  "recoveryEventToPort s = Inr t \<longleftrightarrow> t = s \<and> recovery_event_validate s = None"
  "recoveryOutcomeToPort s = Inr t \<longleftrightarrow> t = s \<and> (s = [] \<or> recovery_outcome_validate s = None)"
  "recoveryMetadataDispositionToPort s = Inr t \<longleftrightarrow> t = s \<and> (s = [] \<or> recovery_metadata_validate s = None)"
  unfolding tables switch_same
  by (auto simp: recovery_destination_validate_def recovery_event_validate_def recovery_outcome_validate_def
      recovery_metadata_validate_def)

lemma from_port_Inr:
  "recoveryEventFromPort s = Inr t \<longleftrightarrow> t = s \<and> recovery_event_validate s = None"
  "recoveryOutcomeFromPort s = Inr t \<longleftrightarrow> t = s \<and> (s = [] \<or> recovery_outcome_validate s = None)"
  "recoveryMetadataDispositionFromPort s = Inr t \<longleftrightarrow> t = s \<and> (s = [] \<or> recovery_metadata_validate s = None)"
  unfolding tables switch_same
  by (auto simp: recovery_event_validate_def recovery_outcome_validate_def recovery_metadata_validate_def)

section \<open>What the port promises its clients\<close>

text \<open>
  A recovery is recorded in the ledger when every frame of its history is stored completely. The facts
  of its ticket are those of the recovery.
\<close>

definition stored :: "'e frame_env_scheme \<Rightarrow> record_store \<Rightarrow> recovery_frame \<Rightarrow> bool" where
  "stored env m f \<longleftrightarrow> (\<exists>c. encodeRecoveryFrame env f = Inr c \<and> m (frame_id f) = Some c)"

definition recorded :: "'e frame_env_scheme \<Rightarrow> record_store \<Rightarrow> recovery_frame list \<Rightarrow> recovery \<Rightarrow> bool" where
  "recorded env m fs r \<longleftrightarrow> history env fs r \<and> (\<forall>f \<in> set fs. stored env m f)"

definition recovery_facts :: "recovery \<Rightarrow> ticket_facts" where
  "recovery_facts r =
     (let b = rec_binding r
      in \<lparr> tk_Token = rb_token b, tk_RootID = rb_root b, tk_Source = rb_source b, tk_ActionID = rb_actionID b,
           tk_ActionKind = rb_actionKind b, tk_Destination = rb_destination b, tk_Precondition = rb_precondition b,
           tk_Event = rec_event r, tk_Outcome = rec_outcome r, tk_MetadataDisposition = rec_metadata r,
           tk_TrashLayoutBinding = rb_trashLayoutBinding b, tk_Closed = recovery_Closed r \<rparr>)"

lemma frame_at_stored: "frame_at env m (frame_id f) f \<Longrightarrow> stored env m f"
  using decode_canonical by (auto simp: frame_at_def stored_def)

lemma retained_recorded: "retained env m hs \<Longrightarrow> h \<in> set hs \<Longrightarrow> recorded env m (rh_frames h) (rh_recovery h)"
  by (auto simp: retained_def recorded_def intro: frame_at_stored)

lemma stored_update: "stored env m f \<Longrightarrow> frame_id f \<noteq> i \<Longrightarrow> stored env (m(i \<mapsto> c)) f"
  by (auto simp: stored_def)

lemma mutation_recorded:
  assumes "mutation_spec env wanted m None out m'"
  obtains fs f r where "out = Some r" "wanted f r" "recorded env m' (fs @ [f]) r"
proof -
  from assms obtain hs f r c hs' where step: "retained env m hs" "ledger_step env hs f r hs'" "wanted f r"
    "encodeRecoveryFrame env f = Inr c" "frame_id f \<notin> dom m" "m' = m(frame_id f \<mapsto> c)" "out = Some r"
    unfolding mutation_spec_def by simp blast
  have new: "stored env m' f" using step by (simp add: stored_def)
  from step(2) show thesis
  proof cases
    case reserved
    with new step that [of r f "[]"] show thesis by (simp add: recorded_def)
  next
    case (advanced h)
    have "stored env m' g" if "g \<in> set (rh_frames h)" for g
    proof -
      have "frame_at env m (frame_id g) g" using step(1) advanced that by (simp add: retained_def)
      then have "stored env m g" "frame_id g \<in> dom m" by (auto intro: frame_at_stored simp: frame_at_def)
      with step(5,6) show ?thesis by (auto intro: stored_update)
    qed
    with advanced new step that [of r f "rh_frames h"] show thesis by (auto simp: recorded_def)
  qed
qed

lemma valid_copies:
  assumes "history env fs r"
  shows "cloneRecoveryPath (rb_source (rec_binding r)) = rb_source (rec_binding r)"
    "cloneFilesystemPrecondition (rb_precondition (rec_binding r)) = rb_precondition (rec_binding r)"
proof -
  have f: "validateRecoveryFrame env (last fs) = None" "fr_binding (last fs) = rec_binding r"
    using history_facts [OF assms] by auto
  obtain a g p where a: "recovery_action a g p" "rb_source (rec_binding r) = ft_Path g" "rb_precondition (rec_binding r) = p"
    using valid_frame_facts [OF f(1)] f(2) by metis
  from recovery_action_clones [OF a(1)] a show
    "cloneRecoveryPath (rb_source (rec_binding r)) = rb_source (rec_binding r)"
    "cloneFilesystemPrecondition (rb_precondition (rec_binding r)) = rb_precondition (rec_binding r)" by auto
qed

lemma newTicket_history:
  assumes "history env fs r"
  obtains t where "newTicket port r = Inr t" "rt_port t = port" "rt_recovery t = r"
    "recoveryTicket_facts (Some t) = recovery_facts r"
proof -
  let ?b = "rec_binding r"
  have f: "validateRecoveryFrame env (last fs) = None" "fr_binding (last fs) = ?b" "fr_event (last fs) = rec_event r"
    "fr_outcome (last fs) = rec_outcome r" "fr_metadata (last fs) = rec_metadata r"
    using history_facts [OF assms] by auto
  have binding: "validateRecoveryBindingForSchema env ?b (fr_schemaVersion (last fs)) = None"
    using valid_frame_binding [OF f(1)] f(2) by simp
  have identity: "validateRecoveryIdentity r = None"
    using binding by (auto simp: validateRecoveryIdentity_def validateRecoveryBindingForSchema_def checks_Cons)
  have destination: "recovery_destination_validate (rb_destination ?b) = None"
    using binding
    by (simp add: validateRecoveryBindingForSchema_def checks_Cons recovery_destination_validate_def destinationForAction_def)
  have event: "recovery_event_validate (rec_event r) = None"
    using f by (simp add: validateRecoveryFrame_def checks_Cons)
  have facts: "(rec_outcome r = [] \<or> recovery_outcome_validate (rec_outcome r) = None) \<and>
      (rec_metadata r = [] \<or> recovery_metadata_validate (rec_metadata r) = None)"
    using f(1) unfolding validateRecoveryFrame_def checks_Cons f(3-5)
    by (auto simp: validateOrdinaryTransition_def checks_Cons split: if_splits)
  have "recoveryDestinationToPort (rb_destination ?b) = Inr (rb_destination ?b)" "recoveryEventToPort (rec_event r) = Inr (rec_event r)"
    "recoveryOutcomeToPort (rec_outcome r) = Inr (rec_outcome r)" "recoveryMetadataDispositionToPort (rec_metadata r) = Inr (rec_metadata r)"
    using destination event facts by (simp_all add: to_port_Inr)
  with identity that show thesis
    by (simp add: newTicket_def recovery_Source_def valid_copies [OF assms] recoveryTicket_facts_def recovery_facts_def Let_def)
qed

text \<open>
  Up to the end of the move the graph has no choice: the last event determines the events before it.
\<close>

definition dispatch_events :: "bool \<Rightarrow> recovery_event list" where
  "dispatch_events trash =
     (if trash then [IntentReserved, MetadataDispatchRecorded, MetadataVerified, MoveDispatchRecorded]
      else [IntentReserved, MoveDispatchRecorded])"

definition forward_events :: "bool \<Rightarrow> recovery_event \<Rightarrow> recovery_event list" where
  "forward_events trash e =
     (if e = IntentReserved then [IntentReserved]
      else if e = MetadataDispatchRecorded then [IntentReserved, MetadataDispatchRecorded]
      else if e = MetadataVerified then [IntentReserved, MetadataDispatchRecorded, MetadataVerified]
      else if e = MetadataIndeterminate then [IntentReserved, MetadataDispatchRecorded, MetadataIndeterminate]
      else if e = MoveDispatchRecorded then dispatch_events trash
      else dispatch_events trash @ [e])"

definition is_forward :: "recovery_event \<Rightarrow> bool" where
  "is_forward e \<longleftrightarrow> e \<in> {IntentReserved, MetadataDispatchRecorded, MetadataVerified, MetadataIndeterminate,
     MoveDispatchRecorded, MoveVerified, MoveIndeterminate}"

text \<open>The stage a forward event follows.\<close>

lemma stage_before:
  assumes "stage_transition d stage t = None"
  shows "tr_Event t = MetadataDispatchRecorded \<Longrightarrow> stage = IntentReserved \<and> d = RecoveryDestinationTrash"
    "tr_Event t = MetadataVerified \<Longrightarrow> stage = MetadataDispatchRecorded"
    "tr_Event t = MetadataIndeterminate \<Longrightarrow> stage = MetadataDispatchRecorded"
    "tr_Event t = MoveDispatchRecorded \<Longrightarrow> stage = MetadataVerified \<or> stage = IntentReserved \<and> d = RecoveryDestinationQuarantine"
    "tr_Event t = MoveVerified \<Longrightarrow> stage = MoveDispatchRecorded"
    "tr_Event t = MoveIndeterminate \<Longrightarrow> stage = MoveDispatchRecorded"
  using assms unfolding stage_transition_def
  by (auto simp: recovery_vocabulary_defs split: if_splits)

lemma stage_event_of: "recovery_stage r = e \<Longrightarrow> e \<noteq> MoveVerified \<Longrightarrow> rec_event r = e"
  by (auto simp: recovery_stage_def split: if_splits)

lemma forward_simps:
  "forward_events trash IntentReserved = [IntentReserved]"
  "forward_events trash MetadataDispatchRecorded = [IntentReserved, MetadataDispatchRecorded]"
  "forward_events trash MetadataVerified = [IntentReserved, MetadataDispatchRecorded, MetadataVerified]"
  "forward_events trash MetadataIndeterminate = [IntentReserved, MetadataDispatchRecorded, MetadataIndeterminate]"
  "forward_events trash MoveDispatchRecorded = dispatch_events trash"
  "forward_events trash MoveVerified = dispatch_events trash @ [MoveVerified]"
  "forward_events trash MoveIndeterminate = dispatch_events trash @ [MoveIndeterminate]"
  by (simp_all add: forward_events_def event_defs)

definition metadata_event :: "recovery_event \<Rightarrow> bool" where
  "metadata_event e \<longleftrightarrow> e \<in> {MetadataDispatchRecorded, MetadataVerified, MetadataIndeterminate}"

lemma metadata_event_simps:
  "\<not> metadata_event IntentReserved" "\<not> metadata_event MoveDispatchRecorded" "\<not> metadata_event MoveVerified"
  "\<not> metadata_event MoveIndeterminate" "metadata_event MetadataDispatchRecorded" "metadata_event MetadataVerified"
  "metadata_event MetadataIndeterminate"
  by (simp_all add: metadata_event_def event_defs)

lemma history_forward:
  assumes "history env fs r"
  shows "(is_forward (rec_event r) \<longrightarrow> map fr_event fs = forward_events (is_trash (rec_binding r)) (rec_event r)) \<and>
    (metadata_event (rec_event r) \<longrightarrow> is_trash (rec_binding r))"
  using assms
proof (induction rule: history.induct)
  case (intent f r)
  then have "rec_event r = IntentReserved" "fr_event f = IntentReserved"
    using ordinal_zero [of env f] by (simp_all add: recoveryFromFrame_Inr)
  then show ?case by (simp add: forward_simps metadata_event_simps)
next
  case (extended h r f r')
  let ?t = "transition_of f" and ?b = "rec_binding r"
  have facts: "rec_event r' = fr_event f" "rec_binding r' = ?b" using extended.hyps(9) by (simp_all add: recovery_apply_Inr)
  have t: "stage_transition (rb_destination ?b) (recovery_stage r) ?t = None" "fr_event f \<noteq> IntentReserved"
    using extended.hyps(8) by (auto simp: validateRecoveryTransition_def checks_Cons transition_of_def)
  have event: "tr_Event ?t = fr_event f" by (simp add: transition_of_def)
  note before = stage_before [OF t(1), unfolded event]
  have from_stage: "rec_event r = e" "is_forward e" "map fr_event h = forward_events (is_trash ?b) e" "metadata_event e \<longrightarrow> is_trash ?b"
    if "recovery_stage r = e" "e \<in> {IntentReserved, MetadataDispatchRecorded, MetadataVerified, MoveDispatchRecorded}" for e
  proof -
    have "e \<noteq> MoveVerified" using that(2) by (auto simp: event_defs)
    then show e: "rec_event r = e" by (rule stage_event_of [OF that(1)])
    show f: "is_forward e" using that(2) by (auto simp: is_forward_def)
    with e extended.IH show "map fr_event h = forward_events (is_trash ?b) e" "metadata_event e \<longrightarrow> is_trash ?b" by auto
  qed
  have quarantine: "rb_destination ?b = RecoveryDestinationQuarantine \<Longrightarrow> \<not> is_trash ?b"
    by (simp add: RecoveryDestinationTrash_def RecoveryDestinationQuarantine_def)
  consider "fr_event f = MetadataDispatchRecorded" | "fr_event f = MetadataVerified" | "fr_event f = MetadataIndeterminate"
    | "fr_event f = MoveDispatchRecorded" | "fr_event f = MoveVerified" | "fr_event f = MoveIndeterminate"
    | "\<not> is_forward (fr_event f)"
    using t(2) by (auto simp: is_forward_def)
  then show ?case
  proof cases
    case 1
    with before(1) from_stage [of IntentReserved] show ?thesis by (simp add: facts forward_simps)
  next
    case 2
    with before(2) from_stage [of MetadataDispatchRecorded] show ?thesis by (simp add: facts forward_simps metadata_event_def)
  next
    case 3
    with before(3) from_stage [of MetadataDispatchRecorded] show ?thesis by (simp add: facts forward_simps metadata_event_def)
  next
    case 4
    from 4 before(4) from_stage [of IntentReserved] from_stage [of MetadataVerified] quarantine show ?thesis
      by (auto simp: facts forward_simps dispatch_events_def metadata_event_simps)
  next
    case 5
    from 5 before(5) from_stage [of MoveDispatchRecorded] show ?thesis by (simp add: facts forward_simps metadata_event_simps)
  next
    case 6
    from 6 before(6) from_stage [of MoveDispatchRecorded] show ?thesis by (simp add: facts forward_simps metadata_event_simps)
  next
    case 7
    then show ?thesis by (auto simp: facts is_forward_def metadata_event_def)
  qed
qed

section \<open>The contract\<close>

text \<open>
  What a client of \<^verbatim>\<open>recoveryport.Ledger\<close> relies on. \<open>durable w k es\<close>: in the state \<open>w\<close> all
  the facts of ticket \<open>k\<close> are stored, and their events are \<open>es\<close>. An answer without an error carries a
  ticket whose facts are durable; a ticket that comes with an error comes with \<^verbatim>\<open>ErrInterrupted\<close>. No operation loses a durable
  fact, and neither does anything that leaves the ledger alone (\<open>same w w'\<close>).
\<close>

locale durable_ledger =
  fixes port :: "('t, 'w) ledger_port"
    and view :: "'t \<Rightarrow> ticket_facts"
    and invar :: "'w \<Rightarrow> bool"
    and durable :: "'w \<Rightarrow> 't \<Rightarrow> port_event list \<Rightarrow> bool"
    and same :: "'w \<Rightarrow> 'w \<Rightarrow> bool"
  assumes reserved: "invar w \<Longrightarrow> lp_Reserve port a planDigest layout w = ((t, err), w') \<Longrightarrow>
      invar w' \<and> (err = None \<longrightarrow> (\<exists>k. t = Some k \<and> durable w' k [EventIntentReserved])) \<and>
      (t \<noteq> None \<and> err \<noteq> None \<longrightarrow> errors_Is (the err) ErrInterrupted)"
    and advanced: "invar w \<Longrightarrow> lp_Transition port current tr w = ((t, err), w') \<Longrightarrow>
      invar w' \<and> (err = None \<longrightarrow> (\<exists>k' es. t = Some k' \<and> durable w' k' (es @ [pt_Event tr]))) \<and>
      (t \<noteq> None \<and> err \<noteq> None \<longrightarrow> errors_Is (the err) ErrInterrupted)"
    and reloaded: "invar w \<Longrightarrow> lp_Reload port current w = ((t, err), w') \<Longrightarrow>
      same w w' \<and> (err = None \<longrightarrow> (\<exists>k' es. t = Some k' \<and> durable w' k' es)) \<and> (err \<noteq> None \<longrightarrow> t = None)"
    and reserve_keeps: "invar w \<Longrightarrow> lp_Reserve port a planDigest layout w = (result, w') \<Longrightarrow> durable w k es \<Longrightarrow> durable w' k es"
    and advance_keeps: "invar w \<Longrightarrow> lp_Transition port current tr w = (result, w') \<Longrightarrow> durable w k es \<Longrightarrow> durable w' k es"
    and unaffected: "same w w' \<Longrightarrow> invar w \<Longrightarrow> invar w'" "same w w' \<Longrightarrow> durable w k es \<Longrightarrow> durable w' k es"
    and last_event: "durable w k es \<Longrightarrow> es \<noteq> [] \<and> last es = tk_Event (view k)"
    and forward: "durable w k es \<Longrightarrow> is_forward (tk_Event (view k)) \<Longrightarrow>
      es = forward_events (tk_Destination (view k) = DestinationTrash) (tk_Event (view k))"
begin

lemma advanced_event: "invar w \<Longrightarrow> lp_Transition port current tr w = ((Some k', None), w') \<Longrightarrow>
    \<exists>es. durable w' k' es \<and> tk_Event (view k') = pt_Event tr"
  using advanced last_event by fastforce

end

definition port_durable :: "'e frame_env_scheme \<Rightarrow> nat \<Rightarrow> 'f port_world_scheme \<Rightarrow> port_ticket \<Rightarrow> port_event list \<Rightarrow> bool" where
  "port_durable env port w k es \<longleftrightarrow> (\<exists>t fs. k = RecoveryTicket (Some t) \<and> rt_port t = port \<and>
     ticket_view k = recovery_facts (rt_recovery t) \<and> recorded env (ledger_store (pw_directory w)) fs (rt_recovery t) \<and>
     es = map fr_event fs)"

lemma ticket_of_history:
  assumes "history env fs r"
  obtains t where "newTicket port r = Inr t" "rt_port t = port" "rt_recovery t = r"
    "ticket_view (RecoveryTicket (Some t)) = recovery_facts r"
    "ticketResult port (Some r) err = (Some (RecoveryTicket (Some t)), err)"
proof -
  obtain t where t: "newTicket port r = Inr t" "rt_port t = port" "rt_recovery t = r"
    "recoveryTicket_facts (Some t) = recovery_facts r"
    using newTicket_history [OF assms, of port] by blast
  moreover have "ticketResult port (Some r) err = (Some (RecoveryTicket (Some t)), err)"
    using t(1) history_token [OF assms] by (simp add: ticketResult_def recovery_Token_def)
  ultimately show thesis using that by (simp add: ticket_view_def)
qed

lemma mutation_attempt:
  assumes "mutation_spec env wanted m err out m'" "out = Some r"
  obtains fs where "history env fs r"
proof -
  from assms obtain hs f hs' where "ledger_step env hs f r hs'" unfolding mutation_spec_def
    by (auto split: if_splits)
  then show thesis using that by cases auto
qed

lemma ticket_of_mutation:
  assumes spec: "mutation_spec env wanted m err out m'" and result: "ticketResult port out err = (t, err')"
  shows "err' = err \<and>
    (err = None \<longrightarrow> (\<exists>rt fs f. t = Some (RecoveryTicket (Some rt)) \<and> rt_port rt = port \<and>
       ticket_view (RecoveryTicket (Some rt)) = recovery_facts (rt_recovery rt) \<and> wanted f (rt_recovery rt) \<and>
       recorded env m' (fs @ [f]) (rt_recovery rt))) \<and>
    (t \<noteq> None \<and> err \<noteq> None \<longrightarrow> errors_Is (the err) ErrInterrupted)"
proof (cases out)
  case None
  with spec have "err \<noteq> None" by (auto simp: mutation_spec_def)
  with None result show ?thesis by (auto simp: ticketResult_def)
next
  case (Some r)
  from mutation_attempt [OF spec Some] obtain fs where h: "history env fs r" by blast
  obtain rt where rt: "rt_port rt = port" "rt_recovery rt = r" "ticket_view (RecoveryTicket (Some rt)) = recovery_facts r"
    "ticketResult port (Some r) err = (Some (RecoveryTicket (Some rt)), err)"
    using ticket_of_history [OF h] by metis
  show ?thesis
  proof (cases err)
    case None
    with spec have "mutation_spec env wanted m None out m'" by simp
    then obtain gs f r' where "out = Some r'" "wanted f r'" "recorded env m' (gs @ [f]) r'" by (rule mutation_recorded)
    with rt result Some None show ?thesis by auto
  next
    case e: (Some e)
    with spec Some have "errors_Is e ErrInterrupted" by (auto simp: mutation_spec_def split: if_splits)
    moreover have "t = Some (RecoveryTicket (Some rt))" "err' = err" using rt(4) result Some by simp_all
    ultimately show ?thesis using e by simp
  qed
qed

lemma ledger_call_eq:
  "ledger_call f w = (v, w') \<longleftrightarrow> (\<exists>d. f (pw_calls w (pw_clock w)) (pw_directory w) = (v, d) \<and>
     w' = w \<lparr> pw_directory := d, pw_clock := Suc (pw_clock w) \<rparr>)"
  by (auto simp: ledger_call_def split: prod.splits)

lemma port_Reserve_durable:
  assumes "distinct_records (pw_directory w)" "port_Reserve env port a planDigest layout w = ((t, err), w')"
  shows "distinct_records (pw_directory w') \<and>
    (err = None \<longrightarrow> (\<exists>k. t = Some k \<and> port_durable env port w' k [EventIntentReserved])) \<and>
    (t \<noteq> None \<and> err \<noteq> None \<longrightarrow> errors_Is (the err) ErrInterrupted)"
proof -
  let ?c = "pw_calls w (pw_clock w)"
  obtain out e d where run: "Reserve env (cf_live ?c) (cf_random ?c) (with_ledger True (cf_world ?c)) a planDigest layout (pw_directory w) =
      ((out, e), d)" by (metis prod.exhaust)
  then have w': "w' = w \<lparr> pw_directory := d, pw_clock := Suc (pw_clock w) \<rparr>" "ticketResult port out e = (t, err)"
    using assms(2) by (auto simp: port_Reserve_def ledger_call_def)
  from Reserve_mutation [OF assms(1) run] have d: "distinct_records d" by blast
  note result = ticket_of_mutation [OF conjunct2 [OF Reserve_mutation [OF assms(1) run]] w'(2)]
  have "\<exists>k. t = Some k \<and> port_durable env port w' k [EventIntentReserved]" if "err = None"
  proof -
    from result that obtain rt fs f where rt: "t = Some (RecoveryTicket (Some rt))" "rt_port rt = port"
      "ticket_view (RecoveryTicket (Some rt)) = recovery_facts (rt_recovery rt)"
      "newIntentFrame env (rec_binding (rt_recovery rt)) = Inr f" "recorded env (ledger_store d) (fs @ [f]) (rt_recovery rt)"
      by blast
    have h: "history env (fs @ [f]) (rt_recovery rt)" using rt(5) by (simp add: recorded_def)
    have "rec_event (rt_recovery rt) = IntentReserved"
      using history_facts [OF h] rt(4) by (simp add: newIntentFrame_Inr)
    with history_forward [OF h] have "map fr_event (fs @ [f]) = [IntentReserved]"
      by (simp add: forward_simps is_forward_def)
    with rt w'(1) show ?thesis unfolding port_durable_def same_vocabulary
      by (intro exI [of _ "RecoveryTicket (Some rt)"] conjI exI [of _ rt] exI [of _ "fs @ [f]"]) auto
  qed
  with d w'(1) result show ?thesis by simp
qed

lemma port_Transition_durable:
  assumes "distinct_records (pw_directory w)" "port_Transition env port k tr w = ((t, err), w')"
  shows "distinct_records (pw_directory w') \<and>
    (err = None \<longrightarrow> (\<exists>k' es. t = Some k' \<and> port_durable env port w' k' (es @ [pt_Event tr]))) \<and>
    (t \<noteq> None \<and> err \<noteq> None \<longrightarrow> errors_Is (the err) ErrInterrupted)"
proof (cases "\<exists>r tr'. unwrap port k = Inr r \<and> recoveryTransitionFromPort tr = Inr tr'")
  case False
  with assms show ?thesis by (auto simp: port_Transition_def split: sum.splits)
next
  case True
  then obtain r tr' where tr: "unwrap port k = Inr r" "recoveryTransitionFromPort tr = Inr tr'" by blast
  then have event: "tr_Event tr' = pt_Event tr"
    by (auto simp: recoveryTransitionFromPort_def from_port_Inr split: sum.splits)
  let ?c = "pw_calls w (pw_clock w)"
  obtain out e d where run: "Transition env (cf_live ?c) (with_ledger True (cf_world ?c)) r tr' (pw_directory w) = ((out, e), d)"
    by (metis prod.exhaust)
  then have w': "w' = w \<lparr> pw_directory := d, pw_clock := Suc (pw_clock w) \<rparr>" "ticketResult port out e = (t, err)"
    using assms(2) tr by (auto simp: port_Transition_def ledger_call_def)
  from Transition_mutation [OF assms(1) run] have d: "distinct_records d" by blast
  note result = ticket_of_mutation [OF conjunct2 [OF Transition_mutation [OF assms(1) run]] w'(2)]
  have "\<exists>k' es. t = Some k' \<and> port_durable env port w' k' (es @ [pt_Event tr])" if "err = None"
  proof -
    from result that obtain rt fs f h where rt: "t = Some (RecoveryTicket (Some rt))" "rt_port rt = port"
      "ticket_view (RecoveryTicket (Some rt)) = recovery_facts (rt_recovery rt)"
      "is_history env h" "appendRecoveryTransition env (rh_frames h) tr' = Inr f" "recorded env (ledger_store d) (fs @ [f]) (rt_recovery rt)"
      by blast
    have "fr_event f = pt_Event tr" using rt(5) event unfolding append_Inr [OF rt(4)] by (auto simp: transition_of_def)
    with rt w'(1) show ?thesis unfolding port_durable_def
      by (intro exI [of _ "RecoveryTicket (Some rt)"] exI [of _ "map fr_event fs"] conjI exI [of _ rt] exI [of _ "fs @ [f]"]) auto
  qed
  with d w'(1) result show ?thesis by simp
qed

lemma port_Reload_durable:
  assumes "distinct_records (pw_directory w)" "port_Reload env port k w = ((t, err), w')"
  shows "pw_directory w' = pw_directory w \<and>
    (err = None \<longrightarrow> (\<exists>k' es. t = Some k' \<and> port_durable env port w' k' es)) \<and> (err \<noteq> None \<longrightarrow> t = None)"
proof (cases "unwrap port k")
  case (Inl e)
  with assms show ?thesis by (auto simp: port_Reload_def)
next
  case (Inr r)
  let ?c = "pw_calls w (pw_clock w)"
  let ?d = "pw_directory w"
  let ?answer = "\<lambda>hs. case findRecoveryHistory hs r of Inl e \<Rightarrow> Inl e | Inr h \<Rightarrow> Inr (Some (rh_recovery h))"
  obtain result d where run: "Reload env (cf_live ?c) (with_ledger False (cf_world ?c)) r ?d = (result, d)"
    by (metis prod.exhaust)
  have w': "w' = w \<lparr> pw_directory := d, pw_clock := Suc (pw_clock w) \<rparr>"
    and ticket: "(t, err) = (case result of Inl e \<Rightarrow> ticketResult port None (Some e) | Inr out \<Rightarrow> ticketResult port out None)"
    using assms(2) Inr run by (auto simp: port_Reload_def ledger_call_def split: sum.splits)
  have fails: "d = ?d"
  proof (cases "checks [validateRecoveryContext (cf_live ?c), validateRecoveryIdentity r]")
    case None
    obtain e d' out where inner: "with_ledger False (cf_world ?c) (read_callback env ?answer None) (?d, None) = (e, (d', out))"
      by (metis prod.exhaust)
    with run None have "d' = d" by (auto simp: Reload_def split: option.splits)
    from inner assms(1) show ?thesis
    proof (cases rule: with_ledger_cases)
      case (2 s d1 e')
      with world_session.read_callback_spec [OF 2(3,1)] \<open>d' = d\<close> show ?thesis by simp
    qed (use \<open>d' = d\<close> in simp)
  qed (use run assms(1) in \<open>auto simp: Reload_def\<close>)
  show ?thesis
  proof (cases result)
    case (Inl e)
    with ticket fails w' show ?thesis by (simp add: ticketResult_def)
  next
    case (Inr out)
    then have inner: "with_ledger False (cf_world ?c) (read_callback env ?answer None) (?d, None) = (None, (d, out))"
      using run by (auto simp: Reload_def split: option.splits prod.splits)
    from inner assms(1) obtain hs where hs: "retained env (ledger_store d) hs" "?answer hs = Inr out"
    proof (cases rule: with_ledger_cases)
      case (2 s d1 e)
      have "e = None" using 2(5) by auto
      with world_session.read_callback_spec [OF 2(3,1)] that show thesis by blast
    qed simp
    then obtain h where h: "h \<in> set hs" "out = Some (rh_recovery h)"
      unfolding findRecoveryHistory_def by (auto simp: find_Some_iff split: option.splits) (metis nth_mem)
    then have rec: "recorded env (ledger_store d) (rh_frames h) (rh_recovery h)" using retained_recorded [OF hs(1)] by blast
    obtain rt where rt: "rt_port rt = port" "rt_recovery rt = rh_recovery h"
      "ticket_view (RecoveryTicket (Some rt)) = recovery_facts (rh_recovery h)"
      "ticketResult port (Some (rh_recovery h)) None = (Some (RecoveryTicket (Some rt)), None)"
      using ticket_of_history rec unfolding recorded_def by metis
    with ticket Inr h have "t = Some (RecoveryTicket (Some rt))" "err = None" by simp_all
    moreover have "port_durable env port w' (RecoveryTicket (Some rt)) (map fr_event (rh_frames h))"
      unfolding port_durable_def using rt rec w' by auto
    ultimately show ?thesis using fails w' by auto
  qed
qed

lemma port_durable_history:
  assumes "port_durable env port w k es"
  obtains fs r where "history env fs r" "ticket_view k = recovery_facts r" "es = map fr_event fs"
  using assms by (auto simp: port_durable_def recorded_def)

lemma mutation_keeps:
  assumes "mutation_spec env wanted m err out m'" "recorded env m fs r"
  shows "recorded env m' fs r"
proof -
  from assms(1) consider "m' = m" | i c where "i \<notin> dom m" "m' = m(i \<mapsto> c)"
    unfolding mutation_spec_def by blast
  then show ?thesis
  proof cases
    case 2
    have "stored env m' f" if "f \<in> set fs" for f
    proof -
      have "stored env m f" using assms(2) that by (simp add: recorded_def)
      moreover from this have "frame_id f \<noteq> i" using 2(1) by (auto simp: stored_def)
      ultimately show ?thesis using 2(2) by (simp add: stored_update)
    qed
    with assms(2) show ?thesis by (simp add: recorded_def)
  qed (use assms in simp)
qed

lemma ledger_call_keeps:
  assumes "\<And>c v d. f c (pw_directory w) = (v, d) \<Longrightarrow> \<exists>wanted err out. mutation_spec env wanted (ledger_store (pw_directory w)) err out (ledger_store d)"
    and "ledger_call f w = (v, w')" "port_durable env port w k es"
  shows "port_durable env port w' k es"
proof -
  obtain d where d: "f (pw_calls w (pw_clock w)) (pw_directory w) = (v, d)" "pw_directory w' = d"
    using assms(2) by (auto simp: ledger_call_eq)
  from assms(1) [OF d(1)] obtain wanted err out where
    spec: "mutation_spec env wanted (ledger_store (pw_directory w)) err out (ledger_store d)" by blast
  from assms(3) mutation_keeps [OF spec] d(2) show ?thesis unfolding port_durable_def by blast
qed

lemma port_Reserve_keeps:
  assumes "distinct_records (pw_directory w)" "port_Reserve env port a planDigest layout w = (result, w')"
    and "port_durable env port' w k es"
  shows "port_durable env port' w' k es"
proof -
  obtain v where "ledger_call (\<lambda>c. Reserve env (cf_live c) (cf_random c) (with_ledger True (cf_world c)) a planDigest layout) w = (v, w')"
    using assms(2) by (auto simp: port_Reserve_def split: prod.splits)
  from _ this assms(3) show ?thesis
  proof (rule ledger_call_keeps)
    fix c v d
    assume "Reserve env (cf_live c) (cf_random c) (with_ledger True (cf_world c)) a planDigest layout (pw_directory w) = (v, d)"
    moreover obtain out err where "v = (out, err)" by (rule prod.exhaust)
    ultimately show "\<exists>wanted err out. mutation_spec env wanted (ledger_store (pw_directory w)) err out (ledger_store d)"
      using Reserve_mutation [OF assms(1)] by blast
  qed
qed

lemma port_Transition_keeps:
  assumes "distinct_records (pw_directory w)" "port_Transition env port current tr w = (result, w')"
    and "port_durable env port' w k es"
  shows "port_durable env port' w' k es"
proof (cases "\<exists>r tr'. unwrap port current = Inr r \<and> recoveryTransitionFromPort tr = Inr tr'")
  case False
  with assms show ?thesis by (auto simp: port_Transition_def split: sum.splits)
next
  case True
  then obtain r tr' v where "unwrap port current = Inr r" "recoveryTransitionFromPort tr = Inr tr'"
    and "ledger_call (\<lambda>c. Transition env (cf_live c) (with_ledger True (cf_world c)) r tr') w = (v, w')"
    using assms(2) by (auto simp: port_Transition_def split: prod.splits)
  from _ this(3) assms(3) show ?thesis
  proof (rule ledger_call_keeps)
    fix c v d
    assume "Transition env (cf_live c) (with_ledger True (cf_world c)) r tr' (pw_directory w) = (v, d)"
    moreover obtain out err where "v = (out, err)" by (rule prod.exhaust)
    ultimately show "\<exists>wanted err out. mutation_spec env wanted (ledger_store (pw_directory w)) err out (ledger_store d)"
      using Transition_mutation [OF assms(1)] by blast
  qed
qed

text \<open>
  What a transition can do to the records: it fails and leaves them alone, or it adds one record, free before, with a prefix of
  one frame. That frame carries the transition and continues a stored history of the ticket's identity.
\<close>

definition port_extends ::
    "'e frame_env_scheme \<Rightarrow> nat \<Rightarrow> record_store \<Rightarrow> port_ticket \<Rightarrow> port_transition \<Rightarrow> record_store \<Rightarrow> bool" where
  "port_extends env port m k tr m' \<longleftrightarrow> (\<exists>t fs r f r' c c'. k = RecoveryTicket (Some t) \<and> rt_port t = port \<and>
     recorded env m fs r \<and> same_identity r (rt_recovery t) \<and> history env (fs @ [f]) r' \<and>
     fr_event f = pt_Event tr \<and> fr_outcome f = pt_ReconciliationOutcome tr \<and> fr_metadata f = pt_MetadataDisposition tr \<and>
     encodeRecoveryFrame env f = Inr c \<and> frame_id f \<notin> dom m \<and> take (length c') c = c' \<and> m' = m(frame_id f \<mapsto> c'))"

definition port_attempt ::
    "'e frame_env_scheme \<Rightarrow> nat \<Rightarrow> port_ticket \<Rightarrow> port_transition \<Rightarrow> 'f port_world_scheme \<Rightarrow> bool \<Rightarrow> 'f port_world_scheme \<Rightarrow> bool" where
  "port_attempt env port k tr w erred w' \<longleftrightarrow>
     erred \<and> ledger_store (pw_directory w') = ledger_store (pw_directory w) \<or>
     port_extends env port (ledger_store (pw_directory w)) k tr (ledger_store (pw_directory w'))"

lemma transition_extends:
  assumes "mutation_spec env (\<lambda>f r. \<exists>h. is_history env h \<and> same_identity (rh_recovery h) s \<and>
      appendRecoveryTransition env (rh_frames h) t = Inr f \<and> replayRecoveryFrames env (rh_frames h @ [f]) = Inr r) m err out m'"
  shows "err \<noteq> None \<and> m' = m \<or> (\<exists>fs r f r' c c'. recorded env m fs r \<and> same_identity r s \<and> history env (fs @ [f]) r' \<and>
    transition_of f = t \<and> encodeRecoveryFrame env f = Inr c \<and> frame_id f \<notin> dom m \<and> take (length c') c = c' \<and> m' = m(frame_id f \<mapsto> c'))"
proof (cases "err \<noteq> None \<and> m' = m")
  case False
  with assms obtain hs f r c hs' h c' where step: "retained env m hs" "ledger_step env hs f r hs'" "is_history env h"
    "same_identity (rh_recovery h) s" "appendRecoveryTransition env (rh_frames h) t = Inr f"
    and added: "encodeRecoveryFrame env f = Inr c" "frame_id f \<notin> dom m" "m' = m(frame_id f \<mapsto> c')" "take (length c') c = c'"
    unfolding mutation_spec_def by blast
  note appended = step(5) [unfolded append_Inr [OF step(3)]]
  then have t: "transition_of f = t" "fr_binding f = rec_binding (rh_recovery h)" "fr_event f \<noteq> IntentReserved"
    by (auto simp: validateRecoveryTransition_def checks_Cons transition_of_def)
  from step(2) obtain g where g: "g \<in> set hs" "history env (rh_frames g @ [f]) r"
  proof cases
    case reserved
    have "fr_ordinal f = 0" using history_facts [OF reserved(3)] by simp
    moreover have "fr_ordinal f = word_of_nat (length (rh_frames h))" "length (rh_frames h) < 16" using appended by simp_all
    ultimately have "rh_frames h = []" using small_ordinal [of "length (rh_frames h)"] by simp
    with history_facts [OF step(3)] show ?thesis by simp
  qed (rule that)
  have rec: "recorded env m (rh_frames g) (rh_recovery g)" by (rule retained_recorded [OF step(1) g(1)])
  then have "history env (rh_frames g) (rh_recovery g)" by (simp add: recorded_def)
  from history_snoc [OF this] g(2) have "fr_binding f = rec_binding (rh_recovery g)" by simp
  with t(2) step(4) have "same_identity (rh_recovery g) s" by (simp add: same_identity_def)
  with rec g(2) t(1) added show ?thesis by blast
qed simp

lemma port_Transition_attempt:
  assumes "distinct_records (pw_directory w)" "port_Transition env port (Some k) tr w = ((t, err), w')"
  shows "port_attempt env port k tr w (err \<noteq> None) w'"
proof (cases "\<exists>r tr'. unwrap port (Some k) = Inr r \<and> recoveryTransitionFromPort tr = Inr tr'")
  case False
  with assms(2) show ?thesis by (auto simp: port_Transition_def port_attempt_def split: sum.splits)
next
  case True
  then obtain r tr' where tr: "unwrap port (Some k) = Inr r" "recoveryTransitionFromPort tr = Inr tr'" by blast
  then have tr': "tr' = \<lparr> tr_Event = pt_Event tr, tr_Outcome = pt_ReconciliationOutcome tr, tr_Metadata = pt_MetadataDisposition tr \<rparr>"
    by (auto simp: recoveryTransitionFromPort_def from_port_Inr split: sum.splits)
  from tr(1) obtain rt where rt: "k = RecoveryTicket (Some rt)" "rt_port rt = port" "r = rt_recovery rt"
    by (auto simp: unwrap_def split: port_ticket.splits option.splits if_splits)
  let ?c = "pw_calls w (pw_clock w)"
  obtain out e d where run: "Transition env (cf_live ?c) (with_ledger True (cf_world ?c)) r tr' (pw_directory w) = ((out, e), d)"
    by (metis prod.exhaust)
  then have w': "w' = w \<lparr> pw_directory := d, pw_clock := Suc (pw_clock w) \<rparr>" "ticketResult port out e = (t, err)"
    using assms(2) tr by (auto simp: port_Transition_def ledger_call_def)
  note spec = conjunct2 [OF Transition_mutation [OF assms(1) run]]
  from ticket_of_mutation [OF spec w'(2)] have err: "err = e" by simp
  have d: "pw_directory w' = d" using w'(1) by simp
  from transition_extends [OF spec] show ?thesis
  proof
    assume "e \<noteq> None \<and> ledger_store d = ledger_store (pw_directory w)"
    then show ?thesis by (simp add: port_attempt_def d err)
  next
    assume "\<exists>fs r' f r'' c c'. recorded env (ledger_store (pw_directory w)) fs r' \<and> same_identity r' r \<and> history env (fs @ [f]) r'' \<and>
      transition_of f = tr' \<and> encodeRecoveryFrame env f = Inr c \<and> frame_id f \<notin> dom (ledger_store (pw_directory w)) \<and>
      take (length c') c = c' \<and> ledger_store d = (ledger_store (pw_directory w))(frame_id f \<mapsto> c')"
    then obtain fs r' f r'' c c' where x: "recorded env (ledger_store (pw_directory w)) fs r'" "same_identity r' (rt_recovery rt)"
      "history env (fs @ [f]) r''" "transition_of f = tr'" "encodeRecoveryFrame env f = Inr c"
      "frame_id f \<notin> dom (ledger_store (pw_directory w))" "take (length c') c = c'"
      "ledger_store d = (ledger_store (pw_directory w))(frame_id f \<mapsto> c')" unfolding rt(3) by blast
    moreover from x(4) have "fr_event f = pt_Event tr" "fr_outcome f = pt_ReconciliationOutcome tr" "fr_metadata f = pt_MetadataDisposition tr"
      by (simp_all add: transition_of_def tr')
    ultimately have "port_extends env port (ledger_store (pw_directory w)) k tr (ledger_store d)"
      unfolding port_extends_def using rt(1,2) by blast
    then show ?thesis by (simp add: port_attempt_def d)
  qed
qed

interpretation recovery_port: durable_ledger "recovery_ledger_port env port" ticket_view
    "\<lambda>w. distinct_records (pw_directory w)" "port_durable env port" "\<lambda>w w'. pw_directory w' = pw_directory w"
  for env :: "'e frame_env_scheme" and port
proof
  fix w a planDigest layout t err w'
  assume "distinct_records (pw_directory w)" "lp_Reserve (recovery_ledger_port env port) a planDigest layout w = ((t, err), w')"
  then show "distinct_records (pw_directory w') \<and>
      (err = None \<longrightarrow> (\<exists>k. t = Some k \<and> port_durable env port w' k [EventIntentReserved])) \<and>
      (t \<noteq> None \<and> err \<noteq> None \<longrightarrow> errors_Is (the err) ErrInterrupted)"
    by (simp add: recovery_ledger_port_def port_Reserve_durable)
next
  fix w current tr t err w'
  assume "distinct_records (pw_directory w)" "lp_Transition (recovery_ledger_port env port) current tr w = ((t, err), w')"
  then show "distinct_records (pw_directory w') \<and>
      (err = None \<longrightarrow> (\<exists>k' es. t = Some k' \<and> port_durable env port w' k' (es @ [pt_Event tr]))) \<and>
      (t \<noteq> None \<and> err \<noteq> None \<longrightarrow> errors_Is (the err) ErrInterrupted)"
    using port_Transition_durable [of w env port current tr t err w'] by (simp add: recovery_ledger_port_def)
next
  fix w current t err w'
  assume "distinct_records (pw_directory w)" "lp_Reload (recovery_ledger_port env port) current w = ((t, err), w')"
  then show "pw_directory w' = pw_directory w \<and>
      (err = None \<longrightarrow> (\<exists>k' es. t = Some k' \<and> port_durable env port w' k' es)) \<and> (err \<noteq> None \<longrightarrow> t = None)"
    using port_Reload_durable [of w env port current t err w'] by (simp add: recovery_ledger_port_def)
next
  fix w a planDigest layout result w' k es
  assume "distinct_records (pw_directory w)" "lp_Reserve (recovery_ledger_port env port) a planDigest layout w = (result, w')"
    "port_durable env port w k es"
  then show "port_durable env port w' k es" by (simp add: recovery_ledger_port_def port_Reserve_keeps)
next
  fix w current tr result w' k es
  assume "distinct_records (pw_directory w)" "lp_Transition (recovery_ledger_port env port) current tr w = (result, w')"
    "port_durable env port w k es"
  then show "port_durable env port w' k es" by (simp add: recovery_ledger_port_def port_Transition_keeps)
next
  fix w w' k es
  assume "pw_directory w' = pw_directory w"
  then show "distinct_records (pw_directory w) \<Longrightarrow> distinct_records (pw_directory w')"
    "port_durable env port w k es \<Longrightarrow> port_durable env port w' k es" by (simp_all add: port_durable_def)
next
  fix w k es
  assume "port_durable env port w k es"
  then obtain fs r where f: "history env fs r" "ticket_view k = recovery_facts r" "es = map fr_event fs"
    by (rule port_durable_history)
  then have "fs \<noteq> []" "fr_event (last fs) = rec_event r" using history_facts [OF f(1)] by auto
  with f show "es \<noteq> [] \<and> last es = tk_Event (ticket_view k)" by (simp add: recovery_facts_def last_map Let_def)
next
  fix w k es
  assume "port_durable env port w k es" and event: "is_forward (tk_Event (ticket_view k))"
  then obtain fs r where f: "history env fs r" "ticket_view k = recovery_facts r" "es = map fr_event fs"
    by (metis port_durable_history)
  then show "es = forward_events (tk_Destination (ticket_view k) = DestinationTrash) (tk_Event (ticket_view k))"
    using history_forward [OF f(1)] event by (simp add: recovery_facts_def Let_def same_vocabulary)
qed

text \<open>
  A client that only observes between two ledger operations needs to chain observations.
\<close>

locale observed_ledger = durable_ledger +
  assumes same_refl: "same w w" and same_trans: "same w w' \<Longrightarrow> same w' w'' \<Longrightarrow> same w w''"
begin

lemma reload_observes: "invar w \<Longrightarrow> lp_Reload port current w = (result, w') \<Longrightarrow> same w w'"
  using reloaded by (cases result) blast

end

interpretation observed_port: observed_ledger "recovery_ledger_port env port" ticket_view
    "\<lambda>w. distinct_records (pw_directory w)" "port_durable env port" "\<lambda>w w'. pw_directory w' = pw_directory w"
  for env port
  by unfold_locales simp_all

text \<open>
  A client that records one resolution needs to know what the ledger can have become when the answer is an error.
  \<open>attempt k tr w erred w'\<close>: the step from \<open>w\<close> to \<open>w'\<close> is at most the one record of \<open>tr\<close> for \<open>k\<close>, and it is that record
  unless the call failed.
\<close>

locale recording_ledger = observed_ledger +
  fixes attempt :: "'a \<Rightarrow> port_transition \<Rightarrow> 'b \<Rightarrow> bool \<Rightarrow> 'b \<Rightarrow> bool"
  assumes attempted: "invar w \<Longrightarrow> lp_Transition port (Some k) tr w = ((t, err), w') \<Longrightarrow> attempt k tr w (err \<noteq> None) w'"
    and attempt_failed: "attempt k tr w erred w' \<Longrightarrow> attempt k tr w True w'"
    and attempt_observed: "same v w \<Longrightarrow> attempt k tr w erred w' \<Longrightarrow> same w' v' \<Longrightarrow> attempt k tr v erred v'"

interpretation recording_port: recording_ledger "recovery_ledger_port env port" ticket_view
    "\<lambda>w. distinct_records (pw_directory w)" "port_durable env port" "\<lambda>w w'. pw_directory w' = pw_directory w" "port_attempt env port"
  for env port
proof
  fix w k tr t err w'
  assume "distinct_records (pw_directory w)" "lp_Transition (recovery_ledger_port env port) (Some k) tr w = ((t, err), w')"
  then show "port_attempt env port k tr w (err \<noteq> None) w'"
    using port_Transition_attempt [of w env port k tr t err w'] by (simp add: recovery_ledger_port_def)
qed (auto simp: port_attempt_def)

end
