(* ===== verification/CivilTime.thy ===== *)
theory CivilTime
  imports Prelude
begin

text \<open>
  What the program uses of Go's \<^verbatim>\<open>time.Time\<close>: the wall clock in a zone, the zero instant,
  \<^verbatim>\<open>Format\<close> and \<^verbatim>\<open>time.Parse\<close> with the layout \<^verbatim>\<open>2006-01-02T15:04:05\<close> of a
  Trash deletion date. The zone is its offset in seconds.
\<close>

record civil_time =
  ct_Year :: int
  ct_Month :: nat
  ct_Day :: nat
  ct_Hour :: nat
  ct_Minute :: nat
  ct_Second :: nat
  ct_Nanosecond :: nat
  ct_Offset :: int

section \<open>The calendar\<close>

definition leap_year :: "int \<Rightarrow> bool" where
  "leap_year y = (y mod 4 = 0 \<and> (y mod 100 \<noteq> 0 \<or> y mod 400 = 0))"

definition days_in :: "nat \<Rightarrow> int \<Rightarrow> nat" where
  "days_in month year =
     (if month = 2 then (if leap_year year then 29 else 28)
      else if month \<in> {4, 6, 9, 11} then 30 else 31)"

text \<open>Every \<^verbatim>\<open>time.Time\<close> has a wall clock of this form.\<close>

definition civil_ok :: "civil_time \<Rightarrow> bool" where
  "civil_ok t \<longleftrightarrow> 1 \<le> ct_Month t \<and> ct_Month t \<le> 12 \<and> 1 \<le> ct_Day t \<and> ct_Day t \<le> days_in (ct_Month t) (ct_Year t) \<and>
     ct_Hour t < 24 \<and> ct_Minute t < 60 \<and> ct_Second t < 60 \<and> ct_Nanosecond t < 1000000000"

text \<open>The seconds of a wall clock since the start of year 1.\<close>

definition days_before_year :: "int \<Rightarrow> int" where
  "days_before_year y = 365 * (y - 1) + (y - 1) div 4 - (y - 1) div 100 + (y - 1) div 400"

definition days_before_month :: "nat \<Rightarrow> int \<Rightarrow> int" where
  "days_before_month month year = sum_list (map (\<lambda>m. int (days_in m year)) [1..<month])"

definition wall_seconds :: "civil_time \<Rightarrow> int" where
  "wall_seconds t =
     (days_before_year (ct_Year t) + days_before_month (ct_Month t) (ct_Year t) + int (ct_Day t) - 1) * 86400 +
     int (ct_Hour t) * 3600 + int (ct_Minute t) * 60 + int (ct_Second t)"

definition civil_IsZero :: "civil_time \<Rightarrow> bool" where
  "civil_IsZero t = (wall_seconds t - ct_Offset t = 0 \<and> ct_Nanosecond t = 0)"

section \<open>Format\<close>

definition digit :: "nat \<Rightarrow> u8" where
  "digit d = word_of_nat (48 + d)"

fun decimal :: "nat \<Rightarrow> bytes" where
  "decimal n = (if n < 10 then [digit n] else decimal (n div 10) @ [digit (n mod 10)])"

declare decimal.simps [simp del]

text \<open>\<^verbatim>\<open>appendInt\<close>: decimal, with leading zeros up to a width.\<close>

definition append_int :: "int \<Rightarrow> nat \<Rightarrow> bytes" where
  "append_int x width =
     (let ds = decimal (nat (abs x))
      in (if x < 0 then [0x2D] else []) @ replicate (width - length ds) (digit 0) @ ds)"

definition format_date :: "civil_time \<Rightarrow> bytes" where
  "format_date t =
     append_int (ct_Year t) 4 @ 0x2D # append_int (int (ct_Month t)) 2 @ 0x2D # append_int (int (ct_Day t)) 2 @
     0x54 # append_int (int (ct_Hour t)) 2 @ 0x3A # append_int (int (ct_Minute t)) 2 @
     0x3A # append_int (int (ct_Second t)) 2"

section \<open>Parse\<close>

definition is_digit :: "u8 \<Rightarrow> bool" where
  "is_digit c = (0x30 \<le> c \<and> c \<le> 0x39)"

definition digit_value :: "u8 \<Rightarrow> nat" where
  "digit_value c = unat (c - 0x30)"

text \<open>\<^verbatim>\<open>getnum\<close>: two digits, or one when the field need not be fixed.\<close>

fun getnum :: "bool \<Rightarrow> bytes \<Rightarrow> (nat \<times> bytes) option" where
  "getnum fixed (c # d # value) =
     (if \<not> is_digit c then None
      else if is_digit d then Some (digit_value c * 10 + digit_value d, value)
      else if fixed then None else Some (digit_value c, d # value))"
| "getnum fixed [c] = (if is_digit c \<and> \<not> fixed then Some (digit_value c, []) else None)"
| "getnum fixed [] = None"

definition get_in_range :: "bool \<Rightarrow> nat \<Rightarrow> nat \<Rightarrow> bytes \<Rightarrow> (nat \<times> bytes) option" where
  "get_in_range fixed low high value = (case getnum fixed value of
     None \<Rightarrow> None | Some (n, rest) \<Rightarrow> if low \<le> n \<and> n < high then Some (n, rest) else None)"

fun skip_literal :: "u8 \<Rightarrow> bytes \<Rightarrow> bytes option" where
  "skip_literal c [] = None"
| "skip_literal c (d # value) = (if c = d then Some value else None)"

fun get_year :: "bytes \<Rightarrow> (int \<times> bytes) option" where
  "get_year (a # b # c # d # value) =
     (if is_digit a \<and> is_digit b \<and> is_digit c \<and> is_digit d
      then Some (int (((digit_value a * 10 + digit_value b) * 10 + digit_value c) * 10 + digit_value d), value)
      else None)"
| "get_year _ = None"

text \<open>
  \<^verbatim>\<open>time.Parse\<close> of a value of 19 bytes, the only length the program passes: no room is left
  for the fractional second the function would accept after the seconds.
\<close>

definition parse_date :: "bytes \<Rightarrow> civil_time option" where
  "parse_date value =
     Option.bind (get_year value) (\<lambda>(year, v). Option.bind (skip_literal 0x2D v) (\<lambda>v.
     Option.bind (get_in_range True 1 13 v) (\<lambda>(month, v). Option.bind (skip_literal 0x2D v) (\<lambda>v.
     Option.bind (getnum True v) (\<lambda>(day, v). Option.bind (skip_literal 0x54 v) (\<lambda>v.
     Option.bind (get_in_range False 0 24 v) (\<lambda>(hour, v). Option.bind (skip_literal 0x3A v) (\<lambda>v.
     Option.bind (get_in_range True 0 60 v) (\<lambda>(minute, v). Option.bind (skip_literal 0x3A v) (\<lambda>v.
     Option.bind (get_in_range True 0 60 v) (\<lambda>(sec, v).
       if v \<noteq> [] \<or> day < 1 \<or> day > days_in month year then None
       else Some \<lparr> ct_Year = year, ct_Month = month, ct_Day = day, ct_Hour = hour, ct_Minute = minute,
         ct_Second = sec, ct_Nanosecond = 0, ct_Offset = 0 \<rparr>)))))))))))"

section \<open>Parsing what was formatted\<close>

lemma digit_simps [simp]:
  assumes "d < 10"
  shows "is_digit (digit d)" "digit_value (digit d) = d"
proof -
  have "d \<in> {0, 1, 2, 3, 4, 5, 6, 7, 8, 9}" using assms by auto
  then show "is_digit (digit d)" "digit_value (digit d) = d"
    by (auto simp: is_digit_def digit_value_def digit_def)
qed

lemma decimal_digits:
  "n < 10 \<Longrightarrow> decimal n = [digit n]"
  "10 \<le> n \<Longrightarrow> n < 100 \<Longrightarrow> decimal n = [digit (n div 10), digit (n mod 10)]"
  by (simp_all add: decimal.simps)

lemma decimal_step: "10 \<le> n \<Longrightarrow> decimal n = decimal (n div 10) @ [digit (n mod 10)]"
  by (subst decimal.simps) simp

lemma zeros: "replicate 1 x = [x]" "replicate 2 x = [x, x]" "replicate 3 x = [x, x, x]" "replicate (Suc 0) x = [x]"
  by (simp_all add: numeral_2_eq_2 numeral_3_eq_3)

lemma append_two: "n < 100 \<Longrightarrow> append_int (int n) 2 = [digit (n div 10), digit (n mod 10)]"
  by (cases "n < 10") (simp_all add: append_int_def decimal_digits zeros)

lemma append_four:
  assumes "n < 10000"
  shows "append_int (int n) 4 = [digit (n div 1000), digit (n div 100 mod 10), digit (n div 10 mod 10), digit (n mod 10)]"
proof -
  consider "n < 10" | "10 \<le> n" "n < 100" | "100 \<le> n" "n < 1000" | "1000 \<le> n" using assms by linarith
  then show ?thesis
  proof cases
    case 1
    then show ?thesis by (simp add: append_int_def decimal_digits zeros)
  next
    case 2
    then show ?thesis by (simp add: append_int_def decimal_digits zeros)
  next
    case 3
    then have "decimal n = [digit (n div 100), digit (n div 10 mod 10), digit (n mod 10)]"
      using decimal_step [of n] decimal_digits(2) [of "n div 10"] by (simp add: div_mult2_eq [symmetric])
    with 3 show ?thesis by (simp add: append_int_def zeros)
  next
    case 4
    have "decimal (n div 10) = [digit (n div 1000), digit (n div 100 mod 10), digit (n div 10 mod 10)]"
      using 4 assms decimal_step [of "n div 10"] decimal_digits(2) [of "n div 100"] by (simp add: div_mult2_eq [symmetric])
    with 4 decimal_step [of n] have "decimal n = [digit (n div 1000), digit (n div 100 mod 10), digit (n div 10 mod 10), digit (n mod 10)]"
      by simp
    then show ?thesis by (simp add: append_int_def)
  qed
qed

lemma get_two: "n < 100 \<Longrightarrow> getnum fixed (append_int (int n) 2 @ rest) = Some (n, rest)"
  by (simp add: append_two)

lemma get_four:
  assumes "0 \<le> y" "y < 10000"
  shows "get_year (append_int y 4 @ rest) = Some (y, rest)"
proof -
  obtain n where n: "y = int n" "n < 10000" using assms by (auto elim: nonneg_int_cases)
  have "n div 10 * 10 + n mod 10 = n" "n div 100 * 10 + n div 10 mod 10 = n div 10"
    "n div 1000 * 10 + n div 100 mod 10 = n div 100"
    using div_mult_mod_eq [of n 10] div_mult_mod_eq [of "n div 10" 10] div_mult_mod_eq [of "n div 100" 10]
    by (simp_all add: div_mult2_eq [symmetric])
  then have "((n div 1000 * 10 + n div 100 mod 10) * 10 + n div 10 mod 10) * 10 + n mod 10 = n" by simp
  moreover have "n div 1000 < 10" using n(2) by (simp add: less_mult_imp_div_less)
  ultimately show ?thesis using n by (simp add: append_four)
qed

lemma parse_format:
  assumes "civil_ok t" "0 \<le> ct_Year t" "ct_Year t < 10000"
  shows "parse_date (format_date t) = Some (t \<lparr> ct_Nanosecond := 0, ct_Offset := 0 \<rparr>)"
proof -
  have "days_in (ct_Month t) (ct_Year t) \<le> 31" by (simp add: days_in_def)
  then have bounds: "ct_Month t < 100" "ct_Day t < 100" "ct_Hour t < 100" "ct_Minute t < 100" "ct_Second t < 100"
    using assms(1) by (auto simp: civil_ok_def)
  have last: "getnum fixed (append_int (int (ct_Second t)) 2) = Some (ct_Second t, [])" for fixed
    using get_two [OF bounds(5), of fixed "[]"] by simp
  show ?thesis
    using assms bounds get_two last get_four [OF assms(2,3)]
    by (simp add: parse_date_def format_date_def get_in_range_def civil_ok_def)
qed

lemma length_format:
  assumes "civil_ok t" "0 \<le> ct_Year t" "ct_Year t < 10000"
  shows "length (format_date t) = 19"
proof -
  obtain n where n: "ct_Year t = int n" "n < 10000"
    using assms by (auto elim: nonneg_int_cases)
  have "days_in (ct_Month t) (ct_Year t) \<le> 31" by (simp add: days_in_def)
  then have "ct_Month t < 100" "ct_Day t < 100" "ct_Hour t < 100" "ct_Minute t < 100" "ct_Second t < 100"
    using assms(1) by (auto simp: civil_ok_def)
  then show ?thesis by (simp add: format_date_def append_two n append_four)
qed

lemma parsed_ok: "parse_date value = Some t \<Longrightarrow> civil_ok t \<and> 0 \<le> ct_Year t \<and> ct_Nanosecond t = 0 \<and> ct_Offset t = 0"
  by (auto simp: parse_date_def get_in_range_def civil_ok_def bind_eq_Some_conv split: option.splits prod.splits if_splits
      elim!: get_year.elims)

end
