(* ===== verification/TrashInfo.thy ===== *)
theory TrashInfo
  imports PathBytes CivilTime LedgerRecordID
begin

text \<open>
  \<^verbatim>\<open>src/internal/trash/metadata.go\<close>: the \<^verbatim>\<open>.trashinfo\<close> record that names the original
  place of a file in the Trash, its canonical serialization and its parser. The record binds a token,
  which is also the name of the file, the path in its basis, and the wall clock of the deletion.
\<close>

section \<open>Records\<close>

definition trashInfoHeader :: bytes where "trashInfoHeader = bytes_of ''[Trash Info]''"
definition maxTrashInfoBytes :: int where "maxTrashInfoBytes = 2 ^ 20"
definition maxTrashTokenBytes :: nat where "maxTrashTokenBytes = 245"
definition minTrashTokenHexBytes :: nat where "minTrashTokenHexBytes = 16"
definition trashInfoFilenameSuffix :: string where "trashInfoFilenameSuffix = ''.trashinfo''"
definition trashTokenRequiredPrefix :: string where "trashTokenRequiredPrefix = ''ldc-''"

type_synonym trash_path_basis = u8

definition trashPathBasisHomeAbsolute :: trash_path_basis where "trashPathBasisHomeAbsolute = 1"
definition trashPathBasisTopDirectoryRelative :: trash_path_basis where "trashPathBasisTopDirectoryRelative = 2"

record trash_info =
  ti_token :: string
  ti_basis :: trash_path_basis
  ti_metadataPath :: byte_path
  ti_deletedAt :: civil_time

definition validateTrashToken :: "string \<Rightarrow> string option" where
  "validateTrashToken token = checks
     [check (\<not> (length token = 0 \<or> length token > maxTrashTokenBytes)) ''trash token length'',
      check (\<not> (\<not> has_prefix token trashTokenRequiredPrefix \<or>
        length token - length trashTokenRequiredPrefix < minTrashTokenHexBytes)) ''trash token prefix'',
      check (isLowerHex (drop (length trashTokenRequiredPrefix) token)) ''trash token contains an unsupported byte'']"

definition trashInfoBasename :: "string \<Rightarrow> string + string" where
  "trashInfoBasename token = (case validateTrashToken token of
     Some e \<Rightarrow> Inl e | None \<Rightarrow> Inr (token @ trashInfoFilenameSuffix))"

definition trash_path_basis_validate :: "trash_path_basis \<Rightarrow> string option" where
  "trash_path_basis_validate basis =
     check (basis \<in> {trashPathBasisHomeAbsolute, trashPathBasisTopDirectoryRelative}) ''unknown trash metadata path basis''"

definition validateTrashDeletionDate :: "civil_time \<Rightarrow> string option" where
  "validateTrashDeletionDate deletedAt = checks
     [check (\<not> civil_IsZero deletedAt) ''trash deletion date is required'',
      check (ct_Nanosecond deletedAt = 0) ''trash deletion date must have whole-second precision'',
      check (\<not> (ct_Year deletedAt < 1 \<or> ct_Year deletedAt > 9999)) ''trash deletion date year is outside the four-digit range'']"

definition error_of :: "string \<Rightarrow> string + 'a \<Rightarrow> string option" where
  "error_of p r = (case r of Inl e \<Rightarrow> Some (p @ '': '' @ e) | Inr _ \<Rightarrow> None)"

definition trash_info_validate :: "trash_info \<Rightarrow> string option" where
  "trash_info_validate info = checks
     [validateTrashToken (ti_token info),
      trash_path_basis_validate (ti_basis info),
      error_of ''trash metadata path'' (byte_path_new (path_components (ti_metadataPath info))),
      error_of ''trash metadata path is outside the recoverable decoder profile''
        (PercentDecodeTrashPath (PercentEncodeTrashPath (ti_metadataPath info))),
      validateTrashDeletionDate (ti_deletedAt info)]"

definition newTrashInfo :: "string \<Rightarrow> trash_path_basis \<Rightarrow> byte_path \<Rightarrow> civil_time \<Rightarrow> string + trash_info" where
  "newTrashInfo token basis metadataPath deletedAt =
     (let info = \<lparr> ti_token = token, ti_basis = basis, ti_metadataPath = metadataPath, ti_deletedAt = deletedAt \<rparr>
      in case trash_info_validate info of Some e \<Rightarrow> Inl e | None \<Rightarrow> Inr info)"

section \<open>Serialization\<close>

definition trash_info_contents :: "bytes \<Rightarrow> bytes \<Rightarrow> bytes" where
  "trash_info_contents path date =
     trashInfoHeader @ 0x0A # bytes_of ''Path='' @ path @ 0x0A # bytes_of ''DeletionDate='' @ date @ [0x0A]"

definition marshal :: "trash_info \<Rightarrow> string + bytes" where
  "marshal info =
     (case trash_info_validate info of
        Some e \<Rightarrow> Inl e
      | None \<Rightarrow>
        (let encoded = PercentEncodeTrashPath (ti_metadataPath info)
         in if encoded = [] then Inl ''trash metadata path cannot be encoded''
            else let path = if ti_basis info = trashPathBasisHomeAbsolute then 0x2F # encoded else encoded;
                     contents = trash_info_contents path (format_date (ti_deletedAt info))
              in if int (length contents) > maxTrashInfoBytes then Inl ''trash info exceeds the supported size''
                 else Inr contents))"

section \<open>Parsing\<close>

text \<open>\<^verbatim>\<open>bytes.Split(contents, "\n")\<close>.\<close>

fun split_lines :: "bytes \<Rightarrow> bytes list" where
  "split_lines [] = [[]]"
| "split_lines (c # s) =
     (if c = 0x0A then [] # split_lines s
      else case split_lines s of [] \<Rightarrow> [[c]] | line # lines \<Rightarrow> (c # line) # lines)"

definition starts_with :: "bytes \<Rightarrow> bytes \<Rightarrow> bool" where
  "starts_with s p = (take (length p) s = p)"

definition is_group_header :: "bytes \<Rightarrow> bool" where
  "is_group_header line = (2 \<le> length line \<and> hd line = 0x5B \<and> last line = 0x5D)"

text \<open>The scan of the lines after the header for the first \<^verbatim>\<open>Path\<close> and \<^verbatim>\<open>DeletionDate\<close>.\<close>

fun info_fields :: "bytes list \<Rightarrow> bytes option \<Rightarrow> bytes option \<Rightarrow> bytes option \<times> bytes option" where
  "info_fields [] path date = (path, date)"
| "info_fields (line # lines) path date =
     (if is_group_header line then (path, date)
      else if path = None \<and> starts_with line (bytes_of ''Path='')
      then info_fields lines (Some (drop (length ''Path='') line)) date
      else if date = None \<and> starts_with line (bytes_of ''DeletionDate='')
      then info_fields lines path (Some (drop (length ''DeletionDate='') line))
      else info_fields lines path date)"

definition parseTrashMetadataPath :: "bytes \<Rightarrow> trash_path_basis \<Rightarrow> string + byte_path" where
  "parseTrashMetadataPath encoded basis =
     (if length encoded = 0 then Inl ''trash Path is empty''
      else case trash_path_basis_validate basis of
        Some e \<Rightarrow> Inl e
      | None \<Rightarrow>
        if basis = trashPathBasisHomeAbsolute \<and> (hd encoded \<noteq> 0x2F \<or> length encoded = 1)
        then Inl ''home-trash Path must be absolute''
        else if basis = trashPathBasisTopDirectoryRelative \<and> hd encoded = 0x2F
        then Inl ''top-directory Trash Path must be relative''
        else (case PercentDecodeTrashPath (if basis = trashPathBasisHomeAbsolute then tl encoded else encoded) of
            Inl e \<Rightarrow> Inl (''decode trash Path: '' @ e)
          | Inr decoded \<Rightarrow> Inr decoded))"

definition parseTrashDeletionDate :: "bytes \<Rightarrow> string + civil_time" where
  "parseTrashDeletionDate value =
     (if length value \<noteq> length ''2006-01-02T15:04:05'' then Inl ''trash DeletionDate has an invalid length''
      else case parse_date value of
        None \<Rightarrow> Inl ''parse trash DeletionDate''
      | Some parsed \<Rightarrow>
        if format_date parsed \<noteq> value then Inl ''trash DeletionDate is not canonical''
        else (case validateTrashDeletionDate parsed of Some e \<Rightarrow> Inl e | None \<Rightarrow> Inr parsed))"

definition parseTrashInfo :: "bytes \<Rightarrow> string \<Rightarrow> trash_path_basis \<Rightarrow> string + trash_info" where
  "parseTrashInfo contents token expectedBasis =
     (case checks
        [validateTrashToken token,
         trash_path_basis_validate expectedBasis,
         check (\<not> (length contents = 0 \<or> int (length contents) > maxTrashInfoBytes)) ''trash info size'',
         check (\<not> (0 \<in> set contents \<or> 0x0D \<in> set contents)) ''trash info contains an unsafe control byte'',
         check (hd (split_lines contents) = trashInfoHeader) ''trash info header''] of
        Some e \<Rightarrow> Inl e
      | None \<Rightarrow>
        (case info_fields (tl (split_lines contents)) None None of
           (Some pathValue, Some dateValue) \<Rightarrow>
             (case parseTrashMetadataPath pathValue expectedBasis of
                Inl e \<Rightarrow> Inl e
              | Inr metadataPath \<Rightarrow>
                (case parseTrashDeletionDate dateValue of
                   Inl e \<Rightarrow> Inl e
                 | Inr deletedAt \<Rightarrow> newTrashInfo token expectedBasis metadataPath deletedAt))
         | _ \<Rightarrow> Inl ''trash info requires Path and DeletionDate''))"

section \<open>What the bytes of a record look like\<close>

lemma error_of_None [verdict_simps, simp]: "error_of p r = None \<longleftrightarrow> (\<exists>x. r = Inr x)"
  by (cases r) (auto simp: error_of_def)

text \<open>An encoded path holds no control byte and no square bracket, and does not start with a slash.\<close>

lemma upperHex_visible: "d < 16 \<Longrightarrow> 0x2D \<le> upperHex d \<and> upperHex d \<le> 0x5A"
  by (drule nibble_cases) (auto simp: upperHex_def)

lemma percent_byte_visible: "b \<in> set (percent_byte v) \<Longrightarrow> 0x25 \<le> b"
  using upperHex_visible [of "drop_bit 4 v"] upperHex_visible [of "v AND 0x0F"]
  by (auto simp: percent_byte_def trashUnreserved_def split: if_splits elim: order_trans [rotated])

lemma join_percent_visible: "b \<in> set (join_components percent_byte cs) \<Longrightarrow> 0x25 \<le> b"
  by (induction percent_byte cs rule: join_components.induct) (auto dest: percent_byte_visible)

lemma encoded_visible: "b \<in> set (PercentEncodeTrashPath p) \<Longrightarrow> 0x25 \<le> b"
  by (auto simp: PercentEncodeTrashPath_def dest: join_percent_visible split: if_splits)

lemma encoded_relative:
  assumes "byte_path_validate p = None"
  shows "hd (PercentEncodeTrashPath p) \<noteq> 0x2F"
proof -
  obtain c cs where c: "path_components p = c # cs" "good_component c"
    using assms unfolding byte_path_validate_None by (cases "path_components p") auto
  then obtain v w where v: "c = v # w" "v \<noteq> 0x2F" by (cases c) (auto simp: good_component_def)
  have "percent_byte v \<noteq> []" by (simp add: percent_byte_def)
  then have "hd (PercentEncodeTrashPath p) = hd (percent_byte v)"
    using percent_encode_valid [OF assms] c(1) v(1) by (cases cs) (auto simp: join_components_Cons)
  with v(2) show ?thesis by (auto simp: percent_byte_def)
qed

lemma digit_visible: "d < 10 \<Longrightarrow> 0x25 \<le> digit d"
proof -
  assume "d < 10"
  then have "d \<in> {0, 1, 2, 3, 4, 5, 6, 7, 8, 9}" by auto
  then show ?thesis by (auto simp: digit_def)
qed

lemma date_visible:
  assumes "civil_ok t" "0 \<le> ct_Year t" "ct_Year t < 10000" "b \<in> set (format_date t)"
  shows "0x25 \<le> b"
proof -
  obtain n where n: "ct_Year t = int n" "n < 10000" using assms(2,3) by (auto elim: nonneg_int_cases)
  have "days_in (ct_Month t) (ct_Year t) \<le> 31" by (simp add: days_in_def)
  then have "ct_Month t < 100" "ct_Day t < 100" "ct_Hour t < 100" "ct_Minute t < 100" "ct_Second t < 100"
    using assms(1) by (auto simp: civil_ok_def)
  with assms(4) n show ?thesis
    by (auto simp: format_date_def append_two append_four intro!: digit_visible)
qed

lemma split_lines_append: "0x0A \<notin> set a \<Longrightarrow> split_lines (a @ 0x0A # s) = a # split_lines s"
  by (induction a) (auto split: list.splits)

lemma no_newline: "\<forall>b \<in> set s. 0x25 \<le> b \<Longrightarrow> 0x0A \<notin> set s \<and> 0 \<notin> set s \<and> (0x0D :: u8) \<notin> set s"
  by fastforce

lemma contents_lines:
  assumes "\<forall>b \<in> set path. 0x25 \<le> b" "\<forall>b \<in> set date. 0x25 \<le> b"
  shows "split_lines (trash_info_contents path date) =
    [trashInfoHeader, bytes_of ''Path='' @ path, bytes_of ''DeletionDate='' @ date, []]"
proof -
  have "0x0A \<notin> set trashInfoHeader" "0x0A \<notin> set (bytes_of ''Path='' @ path)" "0x0A \<notin> set (bytes_of ''DeletionDate='' @ date)"
    using no_newline [OF assms(1)] no_newline [OF assms(2)] by (auto simp: trashInfoHeader_def byte_of_def)
  note steps = this [THEN split_lines_append]
  show ?thesis unfolding trash_info_contents_def
    using steps(1) steps(2) [of "bytes_of ''DeletionDate='' @ date @ [0x0A]"] steps(3) [of "[]"] by simp
qed

lemma contents_inject:
  assumes "\<forall>b \<in> set path. 0x25 \<le> b" "\<forall>b \<in> set date. 0x25 \<le> b" "\<forall>b \<in> set path'. 0x25 \<le> b" "\<forall>b \<in> set date'. 0x25 \<le> b"
  shows "trash_info_contents path date = trash_info_contents path' date' \<longleftrightarrow> path = path' \<and> date = date'"
proof
  assume "trash_info_contents path date = trash_info_contents path' date'"
  then have "split_lines (trash_info_contents path date) = split_lines (trash_info_contents path' date')" by (rule arg_cong)
  then show "path = path' \<and> date = date'" unfolding contents_lines [OF assms(1,2)] contents_lines [OF assms(3,4)] by simp
qed simp

lemma contents_fields:
  "info_fields [bytes_of ''Path='' @ path, bytes_of ''DeletionDate='' @ date, []] None None = (Some path, Some date)"
  by (simp add: is_group_header_def starts_with_def byte_of_def)

section \<open>What validation means\<close>

definition clean_date :: "civil_time \<Rightarrow> bool" where
  "clean_date t \<longleftrightarrow> ct_Nanosecond t = 0 \<and> 1 \<le> ct_Year t \<and> ct_Year t \<le> 9999"

lemma trash_info_validate_None:
  "trash_info_validate info = None \<longleftrightarrow> validateTrashToken (ti_token info) = None \<and>
     trash_path_basis_validate (ti_basis info) = None \<and> byte_path_validate (ti_metadataPath info) = None \<and>
     path_within DefaultTrashDecodeLimits (ti_metadataPath info) \<and>
     \<not> civil_IsZero (ti_deletedAt info) \<and> clean_date (ti_deletedAt info)"
proof -
  have valid: "(\<exists>x. byte_path_new (path_components p) = Inr x) \<longleftrightarrow> byte_path_validate p = None" for p
    unfolding byte_path_new_def byte_path_validate_def by (auto split: option.splits)
  have limits: "decode_limits_validate DefaultTrashDecodeLimits = None" by (simp add: DefaultTrashDecodeLimits_def)
  have within: "(\<exists>x. PercentDecodeTrashPath (PercentEncodeTrashPath p) = Inr x) \<longleftrightarrow> path_within DefaultTrashDecodeLimits p"
    if "byte_path_validate p = None" for p
  proof
    assume "\<exists>x. PercentDecodeTrashPath (PercentEncodeTrashPath p) = Inr x"
    then obtain x where "PercentDecodeTrashPath (PercentEncodeTrashPath p) = Inr x" by blast
    from percent_decode_sound [OF this [unfolded PercentDecodeTrashPath_def]]
    have "byte_path_validate x = None" "PercentEncodeTrashPath p = PercentEncodeTrashPath x" "path_within DefaultTrashDecodeLimits x"
      by auto
    moreover from this that have "path_components p = path_components x"
      by (intro percent.join_inject) (auto simp: percent_encode_valid byte_path_validate_None good_component_def)
    ultimately show "path_within DefaultTrashDecodeLimits p" by (simp add: path_within_def)
  next
    assume "path_within DefaultTrashDecodeLimits p"
    from percent_decode_complete [OF limits that this] show "\<exists>x. PercentDecodeTrashPath (PercentEncodeTrashPath p) = Inr x"
      by (simp add: PercentDecodeTrashPath_def)
  qed
  show ?thesis
    using within valid
    by (auto simp: trash_info_validate_def checks_Cons validateTrashDeletionDate_def clean_date_def)
qed

lemma newTrashInfo_Inr:
  "newTrashInfo token basis p t = Inr info \<longleftrightarrow> trash_info_validate info = None \<and> ti_token info = token \<and> ti_basis info = basis \<and>
     ti_metadataPath info = p \<and> ti_deletedAt info = t"
  by (cases info) (auto simp: newTrashInfo_def Let_def split: option.splits)

lemma path_unique:
  assumes "byte_path_validate p = None" "byte_path_validate q = None" "PercentEncodeTrashPath p = PercentEncodeTrashPath q"
  shows "p = q"
proof -
  have "path_components p = path_components q"
    using assms by (intro percent.join_inject) (auto simp: percent_encode_valid byte_path_validate_None good_component_def)
  then show ?thesis by simp
qed

text \<open>The serialized form of a valid record; the size limit is never reached.\<close>

definition basis_path :: "trash_info \<Rightarrow> bytes" where
  "basis_path info = (if ti_basis info = trashPathBasisHomeAbsolute then [0x2F] else []) @ PercentEncodeTrashPath (ti_metadataPath info)"

lemma basis_path_visible: "b \<in> set (basis_path info) \<Longrightarrow> 0x25 \<le> b"
  by (auto simp: basis_path_def dest: encoded_visible split: if_splits)

lemma basis_path_inject:
  assumes "trash_info_validate info = None" "trash_info_validate other = None"
  shows "basis_path info = basis_path other \<longleftrightarrow> ti_basis info = ti_basis other \<and> ti_metadataPath info = ti_metadataPath other"
proof
  note parts = assms [unfolded trash_info_validate_None]
  let ?e = "\<lambda>info. PercentEncodeTrashPath (ti_metadataPath info)"
  have basis: "ti_basis i = trashPathBasisHomeAbsolute \<longleftrightarrow> hd (basis_path i) = 0x2F" if "trash_info_validate i = None" for i
    using that encoded_relative [of "ti_metadataPath i"] unfolding trash_info_validate_None by (simp add: basis_path_def)
  assume eq: "basis_path info = basis_path other"
  then have home: "ti_basis info = trashPathBasisHomeAbsolute \<longleftrightarrow> ti_basis other = trashPathBasisHomeAbsolute"
    using basis assms by simp
  with parts have "ti_basis info = ti_basis other" by (auto simp: trash_path_basis_validate_def)
  moreover have "?e info = ?e other" using eq home by (auto simp: basis_path_def split: if_splits)
  with path_unique parts have "ti_metadataPath info = ti_metadataPath other" by blast
  ultimately show "ti_basis info = ti_basis other \<and> ti_metadataPath info = ti_metadataPath other" by blast
qed (simp add: basis_path_def)

lemma marshal_valid:
  assumes "trash_info_validate info = None" "civil_ok (ti_deletedAt info)"
  shows "marshal info = Inr (trash_info_contents (basis_path info) (format_date (ti_deletedAt info)))"
    "int (length (trash_info_contents (basis_path info) (format_date (ti_deletedAt info)))) \<le> maxTrashInfoBytes"
proof -
  note parts = assms(1) [unfolded trash_info_validate_None]
  have "int (length (PercentEncodeTrashPath (ti_metadataPath info))) \<le> 262144"
    using parts by (simp add: path_within_def DefaultTrashDecodeLimits_def)
  moreover have "length (format_date (ti_deletedAt info)) = 19"
    using parts assms(2) by (simp add: length_format clean_date_def)
  ultimately show size: "int (length (trash_info_contents (basis_path info) (format_date (ti_deletedAt info)))) \<le> maxTrashInfoBytes"
    by (simp add: trash_info_contents_def basis_path_def maxTrashInfoBytes_def trashInfoHeader_def)
  have "PercentEncodeTrashPath (ti_metadataPath info) \<noteq> []" using percent_encode_nonempty parts by blast
  with size assms(1) show "marshal info = Inr (trash_info_contents (basis_path info) (format_date (ti_deletedAt info)))"
    by (auto simp: marshal_def Let_def basis_path_def)
qed

lemma parse_basis_path:
  assumes "trash_info_validate info = None"
  shows "parseTrashMetadataPath (basis_path info) (ti_basis info) = Inr (ti_metadataPath info)"
proof -
  note parts = assms [unfolded trash_info_validate_None]
  let ?e = "PercentEncodeTrashPath (ti_metadataPath info)"
  have e: "?e \<noteq> []" "hd ?e \<noteq> 0x2F" using parts percent_encode_nonempty encoded_relative by auto
  have "PercentDecodeTrashPath ?e = Inr (ti_metadataPath info)"
    unfolding PercentDecodeTrashPath_def
    by (rule percent_decode_complete) (use parts in \<open>simp_all add: DefaultTrashDecodeLimits_def\<close>)
  with e parts show ?thesis
    by (auto simp: parseTrashMetadataPath_def basis_path_def trashPathBasisHomeAbsolute_def trashPathBasisTopDirectoryRelative_def)
qed

lemma parse_formatted_date:
  assumes "civil_ok t" "clean_date t"
  shows "parseTrashDeletionDate (format_date t) =
    (if wall_seconds t = 0 then Inl ''trash deletion date is required'' else Inr (t \<lparr> ct_Offset := 0 \<rparr>))"
proof -
  have year: "0 \<le> ct_Year t" "ct_Year t < 10000" and "ct_Nanosecond t = 0" using assms(2) by (auto simp: clean_date_def)
  then have parsed: "parse_date (format_date t) = Some (t \<lparr> ct_Offset := 0 \<rparr>)"
    using parse_format [OF assms(1) year] by simp
  have "format_date (t \<lparr> ct_Offset := 0 \<rparr>) = format_date t" "wall_seconds (t \<lparr> ct_Offset := 0 \<rparr>) = wall_seconds t"
    by (simp_all add: format_date_def wall_seconds_def)
  with parsed length_format [OF assms(1) year] assms(2) show ?thesis
    by (auto simp: parseTrashDeletionDate_def validateTrashDeletionDate_def civil_IsZero_def clean_date_def)
qed

text \<open>What the parser answers on serialized contents.\<close>

lemma parse_contents:
  assumes "validateTrashToken token = None" "trash_path_basis_validate basis = None"
    and "\<forall>b \<in> set path. 0x25 \<le> b" "\<forall>b \<in> set date. 0x25 \<le> b"
    and "int (length (trash_info_contents path date)) \<le> maxTrashInfoBytes"
  shows "parseTrashInfo (trash_info_contents path date) token basis =
    (case parseTrashMetadataPath path basis of
       Inl e \<Rightarrow> Inl e
     | Inr metadataPath \<Rightarrow>
       (case parseTrashDeletionDate date of Inl e \<Rightarrow> Inl e | Inr t \<Rightarrow> newTrashInfo token basis metadataPath t))"
proof -
  have "0 \<notin> set (trash_info_contents path date)" "0x0D \<notin> set (trash_info_contents path date)"
    using no_newline [OF assms(3)] no_newline [OF assms(4)] by (auto simp: trash_info_contents_def trashInfoHeader_def byte_of_def)
  moreover have "trash_info_contents path date \<noteq> []" by (simp add: trash_info_contents_def)
  ultimately show ?thesis
    using assms contents_lines [OF assms(3,4)] contents_fields [of path date] by (simp add: parseTrashInfo_def)
qed

lemma parse_marshal:
  assumes "trash_info_validate info = None" "civil_ok (ti_deletedAt info)"
  shows "parseTrashInfo (trash_info_contents (basis_path info) (format_date (ti_deletedAt info))) (ti_token info) (ti_basis info) =
    (if wall_seconds (ti_deletedAt info) = 0 then Inl ''trash deletion date is required''
     else Inr (info \<lparr> ti_deletedAt := (ti_deletedAt info) \<lparr> ct_Offset := 0 \<rparr> \<rparr>))"
proof -
  let ?t = "ti_deletedAt info"
  note parts = assms(1) [unfolded trash_info_validate_None]
  have date: "\<forall>b \<in> set (format_date ?t). 0x25 \<le> b"
    using date_visible [OF assms(2)] parts by (auto simp: clean_date_def)
  have "parseTrashInfo (trash_info_contents (basis_path info) (format_date ?t)) (ti_token info) (ti_basis info) =
    (case parseTrashDeletionDate (format_date ?t) of Inl e \<Rightarrow> Inl e
     | Inr t \<Rightarrow> newTrashInfo (ti_token info) (ti_basis info) (ti_metadataPath info) t)"
    using parse_contents [OF _ _ _ date marshal_valid(2) [OF assms], of "ti_token info" "ti_basis info"] basis_path_visible parts
      parse_basis_path [OF assms(1)] by simp
  moreover have "trash_info_validate (info \<lparr> ti_deletedAt := ?t \<lparr> ct_Offset := 0 \<rparr> \<rparr>) = None" if "wall_seconds ?t \<noteq> 0"
    using parts that unfolding trash_info_validate_None by (simp add: clean_date_def civil_IsZero_def wall_seconds_def)
  ultimately show ?thesis
    using parts assms(2) parse_formatted_date [of ?t] newTrashInfo_Inr [of "ti_token info" "ti_basis info" "ti_metadataPath info" "?t \<lparr> ct_Offset := 0 \<rparr>"]
    by simp
qed

section \<open>Properties\<close>

text \<open>
  C18: what the parser makes of a serialized record. With the token and basis of the record it accepts what
  \<^verbatim>\<open>marshal\<close> wrote and returns the record itself, its wall clock now in UTC, unless the wall clock reads
  0001-01-01T00:00:00. That record is refused whatever its zone, although validation and \<^verbatim>\<open>marshal\<close>
  accept it in every zone but UTC. (The fields of a Go time are a civil date and time: \<open>civil_ok\<close>.)
\<close>

theorem trash_info_reread:
  assumes "marshal info = Inr contents" and "civil_ok (ti_deletedAt info)"
  shows "parseTrashInfo contents (ti_token info) (ti_basis info) =
    (if wall_seconds (ti_deletedAt info) = 0 then Inl ''trash deletion date is required''
     else Inr (info \<lparr> ti_deletedAt := (ti_deletedAt info) \<lparr> ct_Offset := 0 \<rparr> \<rparr>))"
proof -
  have valid: "trash_info_validate info = None" using assms(1) by (auto simp: marshal_def split: option.splits)
  from marshal_valid [OF this assms(2)] parse_marshal [OF this assms(2)] assms(1) show ?thesis by simp
qed

text \<open>
  A record binds the original place: two serializations are equal exactly when they have the same
  basis, the same path and the same wall clock. (The token is the name of the file.)
\<close>

theorem trash_info_binds:
  assumes "marshal info = Inr c" and "marshal other = Inr c'" and "civil_ok (ti_deletedAt info)" and "civil_ok (ti_deletedAt other)"
  shows "c = c' \<longleftrightarrow> ti_basis info = ti_basis other \<and> ti_metadataPath info = ti_metadataPath other \<and>
    (ti_deletedAt info) \<lparr> ct_Offset := 0 \<rparr> = (ti_deletedAt other) \<lparr> ct_Offset := 0 \<rparr>"
proof -
  have valid: "trash_info_validate info = None" "trash_info_validate other = None"
    using assms(1,2) by (auto simp: marshal_def split: option.splits)
  note parts = valid [unfolded trash_info_validate_None]
  let ?d = "\<lambda>info. format_date (ti_deletedAt info)"
  have c: "c = trash_info_contents (basis_path info) (?d info)" "c' = trash_info_contents (basis_path other) (?d other)"
    using marshal_valid [OF valid(1) assms(3)] marshal_valid [OF valid(2) assms(4)] assms(1,2) by auto
  have visible: "\<forall>b \<in> set (?d info). 0x25 \<le> b" "\<forall>b \<in> set (?d other). 0x25 \<le> b"
    "\<forall>b \<in> set (basis_path info). 0x25 \<le> b" "\<forall>b \<in> set (basis_path other). 0x25 \<le> b"
    using date_visible [OF assms(3)] date_visible [OF assms(4)] basis_path_visible parts by (auto simp: clean_date_def)
  have "c = c' \<longleftrightarrow> basis_path info = basis_path other \<and> ?d info = ?d other"
    unfolding c by (rule contents_inject [OF visible(3,1,4,2)])
  moreover have "basis_path info = basis_path other \<longleftrightarrow> ti_basis info = ti_basis other \<and> ti_metadataPath info = ti_metadataPath other"
    by (rule basis_path_inject [OF valid])
  moreover have "?d info = ?d other \<longleftrightarrow>
      (ti_deletedAt info) \<lparr> ct_Offset := 0 \<rparr> = (ti_deletedAt other) \<lparr> ct_Offset := 0 \<rparr>" (is "_ \<longleftrightarrow> ?u = ?v")
  proof
    have "ct_Nanosecond (ti_deletedAt info) = 0" "ct_Nanosecond (ti_deletedAt other) = 0" using parts by (auto simp: clean_date_def)
    then have "parse_date (?d info) = Some ?u" "parse_date (?d other) = Some ?v"
      using parse_format [OF assms(3)] parse_format [OF assms(4)] parts by (auto simp: clean_date_def)
    then show "?d info = ?d other \<Longrightarrow> ?u = ?v" by simp
    have offset: "format_date (t \<lparr> ct_Offset := 0 \<rparr>) = format_date t" for t by (simp add: format_date_def)
    show "?u = ?v \<Longrightarrow> ?d info = ?d other" using offset [of "ti_deletedAt info"] offset [of "ti_deletedAt other"] by simp
  qed
  ultimately show ?thesis by simp
qed

text \<open>
  Whatever the parser accepts, foreign keys and repeated keys included, is a valid record with the
  given token and basis whose serialization is accepted again with the same result: parsing
  normalizes to the program's own profile.
\<close>

theorem trash_info_parse_normalizes:
  assumes "parseTrashInfo contents token basis = Inr info"
  shows "ti_token info = token \<and> ti_basis info = basis \<and> trash_info_validate info = None \<and>
    (\<exists>c. marshal info = Inr c \<and> parseTrashInfo c token basis = Inr info)"
proof -
  from assms obtain path date t p where parsed: "parseTrashDeletionDate date = Inr t" "newTrashInfo token basis p t = Inr info"
    by (auto simp: parseTrashInfo_def split: option.splits sum.splits prod.splits)
  then have info: "trash_info_validate info = None" "ti_token info = token" "ti_basis info = basis" "ti_deletedAt info = t"
    by (simp_all add: newTrashInfo_Inr)
  have "parse_date date = Some t" "\<not> civil_IsZero t"
    using parsed(1) by (auto simp: parseTrashDeletionDate_def validateTrashDeletionDate_def checks_Cons split: option.splits if_splits)
  from parsed_ok [OF this(1)] this(2) have t: "civil_ok t" "ct_Offset t = 0" "wall_seconds t \<noteq> 0" by (auto simp: civil_IsZero_def)
  then have "t \<lparr> ct_Offset := 0 \<rparr> = t" by simp
  with marshal_valid [OF info(1)] parse_marshal [OF info(1)] info t show ?thesis by simp
qed

text \<open>
  The exception is real: a deletion at 1 January of year 1, 00:00:00 in a zone other than UTC is serialized.
\<close>

definition midnight_info :: trash_info where
  "midnight_info = \<lparr> ti_token = ''ldc-0123456789abcdef'', ti_basis = trashPathBasisHomeAbsolute,
     ti_metadataPath = \<lparr> path_components = [bytes_of ''a''] \<rparr>,
     ti_deletedAt = \<lparr> ct_Year = 1, ct_Month = 1, ct_Day = 1, ct_Hour = 0, ct_Minute = 0, ct_Second = 0,
       ct_Nanosecond = 0, ct_Offset = 3600 \<rparr> \<rparr>"

lemma midnight_serialized:
  "civil_ok (ti_deletedAt midnight_info)" "wall_seconds (ti_deletedAt midnight_info) = 0" "\<exists>c. marshal midnight_info = Inr c"
proof -
  have "validateTrashToken (ti_token midnight_info) = None" by code_simp
  moreover have "path_within DefaultTrashDecodeLimits (ti_metadataPath midnight_info)" by code_simp
  moreover have wall: "wall_seconds (ti_deletedAt midnight_info) = 0"
    by (simp add: midnight_info_def wall_seconds_def days_before_year_def days_before_month_def)
  moreover from this have "civil_IsZero (ti_deletedAt midnight_info) = False" by (simp add: civil_IsZero_def midnight_info_def)
  ultimately have valid: "trash_info_validate midnight_info = None"
    by (simp add: midnight_info_def trash_info_validate_None byte_path_validate_None good_component_def clean_date_def
        trash_path_basis_validate_def byte_of_def)
  show ok: "civil_ok (ti_deletedAt midnight_info)" by (simp add: midnight_info_def civil_ok_def days_in_def)
  from marshal_valid(1) [OF valid ok] show "\<exists>c. marshal midnight_info = Inr c" by blast
  show "wall_seconds (ti_deletedAt midnight_info) = 0" by (rule wall)
qed

section \<open>A sample record\<close>

definition sample_date :: civil_time where
  "sample_date = \<lparr> ct_Year = 2024, ct_Month = 2, ct_Day = 29, ct_Hour = 12, ct_Minute = 30, ct_Second = 5,
     ct_Nanosecond = 0, ct_Offset = 7200 \<rparr>"

definition sample_info :: "bytes \<Rightarrow> trash_info" where
  "sample_info name = \<lparr> ti_token = ''ldc-0123456789abcdef'', ti_basis = trashPathBasisHomeAbsolute,
     ti_metadataPath = \<lparr> path_components = [name] \<rparr>, ti_deletedAt = sample_date \<rparr>"

lemma sample_date_facts: "civil_ok sample_date" "clean_date sample_date" "wall_seconds sample_date = 63844806605"
  by (simp_all add: sample_date_def civil_ok_def clean_date_def days_in_def leap_year_def wall_seconds_def
      days_before_year_def days_before_month_def upt_rec)

lemma sample_info_valid:
  assumes "name \<in> {[0x61], [0x62]}"
  shows "trash_info_validate (sample_info name) = None"
proof -
  have "validateTrashToken ''ldc-0123456789abcdef'' = None" by code_simp
  moreover have "path_within DefaultTrashDecodeLimits \<lparr> path_components = [[0x61]] \<rparr>" "path_within DefaultTrashDecodeLimits \<lparr> path_components = [[0x62]] \<rparr>"
    by code_simp+
  ultimately show ?thesis
    using assms sample_date_facts
    by (auto simp: trash_info_validate_None sample_info_def byte_path_validate_None good_component_def
        trash_path_basis_validate_def civil_IsZero_def sample_date_def)
qed

lemma sample_marshal:
  "name \<in> {[0x61], [0x62]} \<Longrightarrow> \<exists>c. marshal (sample_info name) = Inr c \<and>
     parseTrashInfo c (ti_token (sample_info name)) trashPathBasisHomeAbsolute =
       Inr (sample_info name \<lparr> ti_deletedAt := sample_date \<lparr> ct_Offset := 0 \<rparr> \<rparr>)"
  using marshal_valid [of "sample_info name"] parse_marshal [of "sample_info name"] sample_info_valid [of name] sample_date_facts
  by (simp add: sample_info_def)

theorem trash_info_reread_witness:
  "(\<exists>c. marshal (sample_info [0x61]) = Inr c \<and> parseTrashInfo c (ti_token (sample_info [0x61])) trashPathBasisHomeAbsolute =
      Inr (sample_info [0x61] \<lparr> ti_deletedAt := sample_date \<lparr> ct_Offset := 0 \<rparr> \<rparr>)) \<and>
   (\<exists>c. marshal midnight_info = Inr c \<and> parseTrashInfo c (ti_token midnight_info) (ti_basis midnight_info) =
      Inl ''trash deletion date is required'')"
proof -
  obtain c d where c: "marshal (sample_info [0x61]) = Inr c" and d: "marshal midnight_info = Inr d"
    using sample_marshal midnight_serialized(3) by blast
  from trash_info_reread [OF c] sample_date_facts
  have "parseTrashInfo c (ti_token (sample_info [0x61])) trashPathBasisHomeAbsolute =
      Inr (sample_info [0x61] \<lparr> ti_deletedAt := sample_date \<lparr> ct_Offset := 0 \<rparr> \<rparr>)" by (simp add: sample_info_def)
  moreover from trash_info_reread [OF d] midnight_serialized
  have "parseTrashInfo d (ti_token midnight_info) (ti_basis midnight_info) = Inl ''trash deletion date is required''" by simp
  ultimately show ?thesis using c d by blast
qed

theorem trash_info_binds_witness:
  "\<exists>c c'. marshal (sample_info [0x61]) = Inr c \<and> marshal (sample_info [0x62]) = Inr c' \<and> c \<noteq> c'"
proof -
  obtain c c' where c: "marshal (sample_info [0x61]) = Inr c" "marshal (sample_info [0x62]) = Inr c'" using sample_marshal by blast
  with trash_info_binds [OF c] sample_date_facts show ?thesis by (simp add: sample_info_def)
qed

theorem trash_info_parse_normalizes_witness:
  "\<exists>c info. parseTrashInfo c (ti_token (sample_info [0x61])) trashPathBasisHomeAbsolute = Inr info \<and>
     trash_info_validate info = None \<and> ti_basis info = trashPathBasisHomeAbsolute"
proof -
  obtain c where c: "parseTrashInfo c (ti_token (sample_info [0x61])) trashPathBasisHomeAbsolute =
      Inr (sample_info [0x61] \<lparr> ti_deletedAt := sample_date \<lparr> ct_Offset := 0 \<rparr> \<rparr>)" using sample_marshal by blast
  with trash_info_parse_normalizes [OF c] show ?thesis by metis
qed

end
