(* ===== verification/TrashWrite.thy ===== *)
theory TrashWrite
  imports RecoveryPort TrashInfo
begin

text \<open>
  \<^verbatim>\<open>src/internal/trash/write.go\<close>: the durable publication of a \<^verbatim>\<open>.trashinfo\<close> record. The
  authority over a Trash layout and the selected directories are the private interfaces of the source;
  their operations act on the state \<open>'x\<close> of the world. A function value is never nil here, so the
  tests of the source for nil operations have no counterpart.
\<close>

section \<open>The authority over a Trash layout\<close>

type_synonym trash_anchor_kind = string
type_synonym trash_metadata_basis = string

definition TrashAnchorHomeData :: trash_anchor_kind where "TrashAnchorHomeData = ''home_data''"
definition TrashAnchorFilesystemTop :: trash_anchor_kind where "TrashAnchorFilesystemTop = ''filesystem_top''"
definition TrashMetadataBasisHomeAbsolute :: trash_metadata_basis where "TrashMetadataBasisHomeAbsolute = ''home_absolute''"
definition TrashMetadataBasisTopRelative :: trash_metadata_basis where "TrashMetadataBasisTopRelative = ''top_relative''"

record 'x trash_authority =
  ta_RootID :: trusted_root_id
  ta_AnchorKind :: trash_anchor_kind
  ta_MetadataReconciliationIdentity :: "'x \<Rightarrow> mount_error + trash_layout_binding"
  ta_MetadataBasis :: trash_metadata_basis
  ta_MetadataPathFor :: "byte_path \<Rightarrow> 'x \<Rightarrow> mount_error + byte_path"

definition trashPathBasisFromMounts :: "trash_metadata_basis \<Rightarrow> go_error + trash_path_basis" where
  "trashPathBasisFromMounts basis =
     (if basis = TrashMetadataBasisHomeAbsolute then Inr trashPathBasisHomeAbsolute
      else if basis = TrashMetadataBasisTopRelative then Inr trashPathBasisTopDirectoryRelative
      else Inl [ErrUnsupported])"

definition classifyTrashMetadataAuthorityFailure :: "mount_error \<Rightarrow> go_error" where
  "classifyTrashMetadataAuthorityFailure e =
     (if MountErrLeaseClosed \<in> set e \<or> MountErrDrifted \<in> set e then [ErrDrifted]
      else if MountErrUnsupported \<in> set e \<or> MountErrInvalidAuthority \<in> set e \<or> MountErrUnknownTrash \<in> set e then [ErrUnsupported]
      else [ErrDrifted])"

text \<open>\<open>live\<close>: the context is not nil and not done.\<close>

definition writeTrashInfoContextError :: "bool \<Rightarrow> go_error option" where
  "writeTrashInfoContextError live = check live [ErrInterrupted]"

section \<open>Publication\<close>

text \<open>The receipt; the LinuxFS publication inside it is a pointer of type \<open>'p\<close>.\<close>

record 'p metadata_publication =
  mpub_rootID :: trusted_root_id
  mpub_token :: string
  mpub_publication :: "'p option"

definition publication_RootID :: "'p metadata_publication option \<Rightarrow> trusted_root_id" where
  "publication_RootID p = (case p of None \<Rightarrow> [] | Some p \<Rightarrow> mpub_rootID p)"

definition publication_Token :: "'p metadata_publication option \<Rightarrow> string" where
  "publication_Token p = (case p of None \<Rightarrow> [] | Some p \<Rightarrow> mpub_token p)"

text \<open>The selector and the operations of the selected directories.\<close>

record ('x, 'd, 'p) publication_operations =
  po_openDirectories :: "'x \<Rightarrow> (go_error + 'd option) \<times> 'x"
  po_publish :: "'d \<Rightarrow> string \<Rightarrow> bytes \<Rightarrow> 'x \<Rightarrow> (go_error + 'p option) \<times> 'x"
  po_close :: "'d \<Rightarrow> 'x \<Rightarrow> 'x"

definition serialize_trash_info ::
    "'x trash_authority \<Rightarrow> string \<Rightarrow> byte_path \<Rightarrow> civil_time \<Rightarrow> 'x \<Rightarrow> go_error + bytes" where
  "serialize_trash_info authority token source deletedAt x =
     (case ta_MetadataPathFor authority source x of
        Inl e \<Rightarrow> Inl (classifyTrashMetadataAuthorityFailure e)
      | Inr metadataPath \<Rightarrow>
        (case trashPathBasisFromMounts (ta_MetadataBasis authority) of
           Inl e \<Rightarrow> Inl e
         | Inr basis \<Rightarrow>
           (case newTrashInfo token basis metadataPath deletedAt of
              Inl _ \<Rightarrow> Inl [ErrUnsupported]
            | Inr info \<Rightarrow>
              (case marshal info of Inl _ \<Rightarrow> Inl [ErrUnsupported] | Inr contents \<Rightarrow> Inr contents))))"

definition publish_receipt ::
    "('x, 'd, 'p) publication_operations \<Rightarrow> trusted_root_id \<Rightarrow> string \<Rightarrow> bytes \<Rightarrow> 'd \<Rightarrow> 'x \<Rightarrow>
     (go_error + 'p metadata_publication) \<times> 'x" where
  "publish_receipt ops root token contents directories x =
     (case po_publish ops directories token contents x of
        (Inl e, x') \<Rightarrow> (Inl e, x')
      | (Inr None, x') \<Rightarrow> (Inl [ErrInterrupted], x')
      | (Inr (Some receipt), x') \<Rightarrow>
          (Inr \<lparr> mpub_rootID = root, mpub_token = token, mpub_publication = Some receipt \<rparr>, x'))"

definition writeTrashInfoDurableWith ::
    "bool \<Rightarrow> 'x trash_authority \<Rightarrow> string \<Rightarrow> byte_path \<Rightarrow> civil_time \<Rightarrow> ('x, 'd, 'p) publication_operations \<Rightarrow> 'x \<Rightarrow>
     (go_error + 'p metadata_publication) \<times> 'x" where
  "writeTrashInfoDurableWith live authority token source deletedAt ops x =
     (case checks
        [writeTrashInfoContextError live,
         marked ErrUnsupported (trusted_root_id_validate (ta_RootID authority))] of
        Some e \<Rightarrow> (Inl e, x)
      | None \<Rightarrow>
        (case serialize_trash_info authority token source deletedAt x of
           Inl e \<Rightarrow> (Inl e, x)
         | Inr contents \<Rightarrow>
           (case po_openDirectories ops x of
              (Inl e, x1) \<Rightarrow> (Inl e, x1)
            | (Inr None, x1) \<Rightarrow> (Inl [ErrUnsupported], x1)
            | (Inr (Some directories), x1) \<Rightarrow>
              (case publish_receipt ops (ta_RootID authority) token contents directories x1 of
                 (result, x2) \<Rightarrow> (result, po_close ops directories x2)))))"

section \<open>What is published\<close>

text \<open>The record the authority, the token, the source and the deletion time determine.\<close>

definition intended_info ::
    "'x trash_authority \<Rightarrow> string \<Rightarrow> byte_path \<Rightarrow> civil_time \<Rightarrow> 'x \<Rightarrow> trash_info \<Rightarrow> bool" where
  "intended_info authority token source deletedAt x info \<longleftrightarrow>
     ti_token info = token \<and> ti_deletedAt info = deletedAt \<and>
     ta_MetadataPathFor authority source x = Inr (ti_metadataPath info) \<and>
     trashPathBasisFromMounts (ta_MetadataBasis authority) = Inr (ti_basis info)"

lemma serialize_Inr:
  "serialize_trash_info authority token source deletedAt x = Inr contents \<longleftrightarrow>
     (\<exists>info. intended_info authority token source deletedAt x info \<and> trash_info_validate info = None \<and>
        marshal info = Inr contents)"
  by (auto simp: serialize_trash_info_def intended_info_def newTrashInfo_Inr split: sum.splits)
    (metis (mono_tags) newTrashInfo_Inr sum.distinct(1) sum.inject(2) trash_info.surjective old.unit.exhaust)+

lemma published:
  assumes "writeTrashInfoDurableWith live authority token source deletedAt ops x = (Inr p, x')"
  obtains contents directories receipt x1 x2 where
    "trusted_root_id_validate (ta_RootID authority) = None"
    "serialize_trash_info authority token source deletedAt x = Inr contents"
    "po_openDirectories ops x = (Inr (Some directories), x1)"
    "po_publish ops directories token contents x1 = (Inr (Some receipt), x2)"
    "x' = po_close ops directories x2"
    "p = \<lparr> mpub_rootID = ta_RootID authority, mpub_token = token, mpub_publication = Some receipt \<rparr>"
  using assms
  by (auto simp: writeTrashInfoDurableWith_def publish_receipt_def checks_Cons split: option.splits sum.splits prod.splits)

text \<open>The serialized record is read back as the intended one, its wall clock now in UTC, or refused for its wall clock.\<close>

lemma serialized_parses:
  assumes "serialize_trash_info authority token source deletedAt x = Inr contents" and "civil_ok deletedAt"
  obtains info where "intended_info authority token source deletedAt x info"
    "parseTrashInfo contents token (ti_basis info) =
      (if wall_seconds deletedAt = 0 then Inl ''trash deletion date is required''
       else Inr (info \<lparr> ti_deletedAt := deletedAt \<lparr> ct_Offset := 0 \<rparr> \<rparr>))"
proof -
  from assms(1) obtain info where info: "intended_info authority token source deletedAt x info"
    "trash_info_validate info = None" "marshal info = Inr contents" unfolding serialize_Inr by blast
  then have date: "civil_ok (ti_deletedAt info)" "ti_token info = token" "ti_deletedAt info = deletedAt"
    using assms(2) by (simp_all add: intended_info_def)
  show thesis
    using that [OF info(1)] marshal_valid [OF info(2) date(1)] parse_marshal [OF info(2) date(1)] info(3) date by simp
qed

end
