(* ===== verification/LedgerProgress.thy ===== *)
theory LedgerProgress
  imports RecoveryPort
begin

text \<open>
  What the recovery ledger does when nothing goes wrong: a live context, a kernel without errors and a
  well-formed ledger directory. Every operation the transition graph allows then succeeds. The
  directory holds the initialized lock and one complete file per record.
\<close>

section \<open>A directory and a kernel without faults\<close>

definition plain_file :: "bytes \<Rightarrow> dir_file" where
  "plain_file c = \<lparr> df_contents = c, df_statx = Inr (sample_statx 0x8180 1 (word_of_nat (length c))) \<rparr>"

definition record_files :: "(record_id \<times> bytes) list \<Rightarrow> directory" where
  "record_files rs = map (\<lambda>(i, c). (record_basename i, plain_file c)) rs"

definition calm_directory :: "(record_id \<times> bytes) list \<Rightarrow> directory" where
  "calm_directory rs = sample_lock_entry # record_files rs"

definition calm_records :: "(record_id \<times> bytes) list \<Rightarrow> bool" where
  "calm_records rs \<longleftrightarrow> distinct (map fst rs) \<and> length rs \<le> 128 \<and>
     (\<forall>(i, c) \<in> set rs. record_id_validate i = None \<and> int (length c) \<le> maximumRecoveryFrameBytes)"

text \<open>The next record that is published has \<open>n\<close> bytes.\<close>

definition calm_faults :: "nat \<Rightarrow> session_faults" where
  "calm_faults n = \<lparr> sf_context = True, sf_enter = sample_recheck True, sf_scan = sample_scan,
     sf_create = \<lparr> cf_context_start = True, cf_presync = None, cf_context_presync = True, cf_open = None,
       cf_context_created = True, cf_statx = Inr (sample_statx 0x8180 1 0), cf_writes = [],
       cf_syncFile = None, cf_close = None, cf_context_written = True, cf_syncDirectory = None,
       cf_verify = \<lparr> fv_open = [], fv_statx = Inr (sample_statx 0x8180 1 (word_of_nat n)), fv_reads = [] \<rparr> \<rparr>,
     sf_published = sample_recheck True,
     sf_read = \<lparr> rf_open = [], rf_reads = [], rf_after = None \<rparr>, sf_leave = sample_recheck True \<rparr>"

definition calm_world :: "nat \<Rightarrow> ledger_world" where
  "calm_world n = \<lparr> lw_euid = 1000, lw_lease = sample_lease,
     lw_run = \<lparr> run_context = True, run_source = sample_layout, run_start = sample_start, run_release = None \<rparr>,
     lw_listing = calm_faults n, lw_reading = (\<lambda>_. calm_faults n), lw_publishing = calm_faults n \<rparr>"

definition calm_session :: "bool \<Rightarrow> ledger_session" where
  "calm_session writable = sample_session \<lparr> ps_writable := writable \<rparr>"

section \<open>Listing, reading and publishing\<close>

lemma calm_entry:
  "snapshotPrivateLedgerEntry 1000 held_descriptor (Inr (sample_statx 0x8180 1 n)) =
     (if uint n > maximumDurableFileBytes then Inl [ErrUnsupported] else Inr (sample_snapshot ''regular'' 0x8180 1 n))"
  by (code_simp; simp add: sample_snapshot_def)

lemma calm_published:
  "SnapshotFD held_descriptor (Inr (sample_statx 0x8180 1 n)) publishedFileIdentityMask = Inr (sample_snapshot ''regular'' 0x8180 1 n)"
  "snapshotPublishedRegularFile 1000 held_descriptor (Inr (sample_statx 0x8180 1 n)) = Inr (sample_snapshot ''regular'' 0x8180 1 n)"
  "published_identity_check (sample_snapshot ''regular'' 0x8180 1 m) (sample_snapshot ''regular'' 0x8180 1 n) = None"
  by (code_simp; simp add: sample_snapshot_def)+

lemma calm_size:
  assumes "int (length c) \<le> maximumRecoveryFrameBytes"
  shows "unat (word_of_nat (length c) :: u64) = length c" "uint (word_of_nat (length c) :: u64) = int (length c)"
    "int (length c) \<le> maximumDurableFileBytes"
proof -
  show u: "unat (word_of_nat (length c) :: u64) = length c"
    using assms by (simp add: unat_of_nat maximumRecoveryFrameBytes_def take_bit_nat_eq_self)
  then show "uint (word_of_nat (length c) :: u64) = int (length c)" by (metis uint_nat)
  show "int (length c) \<le> maximumDurableFileBytes"
    using assms by (simp add: maximumRecoveryFrameBytes_def maximumDurableFileBytes_def)
qed

lemma calm_file:
  assumes "int (length c) \<le> maximumRecoveryFrameBytes"
  shows "snapshotPrivateLedgerEntry 1000 held_descriptor (df_statx (plain_file c)) =
    Inr (sample_snapshot ''regular'' 0x8180 1 (word_of_nat (length c)))"
  using calm_size [OF assms] by (simp add: plain_file_def calm_entry not_less del: of_nat_eq_0_iff)

lemma openat2AttemptLimit_Suc: "openat2AttemptLimit = Suc (Suc (Suc 0))"
  by (simp add: openat2AttemptLimit_def)

lemma opens_first [simp]: "openPublishedRecordBeneath True [] = None"
  by (simp add: openPublishedRecordBeneath_def openat2AttemptLimit_Suc kernel_open_def)

lemma record_files_simps:
  "record_files [] = []" "record_files ((i, c) # rs) = (record_basename i, plain_file c) # record_files rs"
  "record_files (rs @ qs) = record_files rs @ record_files qs"
  "map fst (record_files rs) = map record_basename (map fst rs)"
  by (simp_all add: record_files_def case_prod_beta' comp_def)

lemma calm_scan_records:
  assumes "\<forall>(i, c) \<in> set rs. record_id_validate i = None \<and> int (length c) \<le> maximumRecoveryFrameBytes"
    and "int (length records) + int (length rs) \<le> limit" "limit \<le> 256" "entries + int (length rs) \<le> 272"
  shows "scan_directory sample_scan 1000 limit (record_files rs) n entries records =
    Inr (records @ map fst rs)"
  using assms
proof (induction rs arbitrary: n entries records)
  case (Cons r rs)
  obtain i c where r: "r = (i, c)" by (metis prod.exhaust)
  from Cons.prems r have i: "record_id_validate i = None" "int (length c) \<le> maximumRecoveryFrameBytes" by auto
  have "validatePrivateLedgerRecordEntry 1000 (sc_open sample_scan (record_basename i)) (plain_file c) = None"
    using calm_file [OF i(2)] by (simp add: validatePrivateLedgerRecordEntry_def sample_fault_simps)
  moreover have "\<not> entries + 1 > maximumPrivateLedgerDirEntries" "\<not> int (length records) \<ge> limit"
    using Cons.prems(2-4) by (simp_all add: maximumPrivateLedgerDirEntries_def maximumPrivateLedgerRecords_def)
  ultimately show ?case
    using Cons.IH [of "records @ [i]" "entries + 1" "Suc n"] Cons.prems
    by (simp add: r record_files_simps scan_record [OF i(1)] sample_fault_simps del: scan_directory.simps)
qed (simp add: record_files_simps sample_fault_simps)

lemma calm_ids:
  assumes "calm_records rs" "int (length rs) \<le> limit" "0 < limit" "limit \<le> 256"
  shows "privateLedgerRecordIDsAt sample_scan 1000 limit (calm_directory rs) = Inr (sort_key record_basename (map fst rs))"
proof -
  have "scan_directory sample_scan 1000 limit (record_files rs) 1 1 [] = Inr (map fst rs)"
    using assms calm_scan_records [of rs "[]" limit 1 1] by (auto simp: calm_records_def)
  then show ?thesis
    using assms(3,4)
    by (simp add: privateLedgerRecordIDsAt_def calm_directory_def scan_lock sample_fault_simps sample_active
        maximumPrivateLedgerRecords_def maximumPrivateLedgerDirEntries_def del: scan_directory.simps)
qed

lemma calm_names:
  assumes "calm_records rs"
  shows "distinct (map fst (record_files rs))" "privateLedgerLockBasename \<notin> set (map fst (record_files rs))"
    "record_id_validate i = None \<Longrightarrow> map_of (record_files rs) (record_basename i) = map_option plain_file (map_of rs i)"
proof -
  have valid: "record_id_validate j = None" if "j \<in> fst ` set rs" for j
    using assms that by (auto simp: calm_records_def)
  have "inj_on record_basename (fst ` set rs)"
    using valid record_basename_inject by (metis inj_onI)
  with assms show "distinct (map fst (record_files rs))"
    by (simp add: record_files_simps calm_records_def distinct_map [of record_basename] del: map_map)
  show "privateLedgerLockBasename \<notin> set (map fst (record_files rs))"
    using record_not_lock [OF valid] by (force simp: record_files_simps simp del: map_map)
  have "map_of (record_files qs) (record_basename i) = map_option plain_file (map_of qs i)"
    if "fst ` set qs \<subseteq> fst ` set rs" "record_id_validate i = None" for qs
    using that
  proof (induction qs)
    case (Cons q qs)
    obtain j c where q: "q = (j, c)" by (metis prod.exhaust)
    with Cons.prems valid have "record_basename j = record_basename i \<longleftrightarrow> j = i"
      using record_basename_inject [of j i] by auto
    with Cons show ?case by (auto simp: q record_files_simps)
  qed (simp add: record_files_simps)
  then show "record_id_validate i = None \<Longrightarrow> map_of (record_files rs) (record_basename i) = map_option plain_file (map_of rs i)"
    by blast
qed

lemma calm_map_of:
  assumes "calm_records rs" "record_id_validate i = None"
  shows "map_of (calm_directory rs) (record_basename i) = map_option plain_file (map_of rs i)"
  using calm_names(3) [OF assms] record_not_lock [OF assms(2)] by (simp add: calm_directory_def)

lemma calm_store:
  assumes "calm_records rs"
  shows "ledger_store (calm_directory rs) = map_of rs" "distinct_records (calm_directory rs)"
proof -
  have "ledger_store (calm_directory rs) i = map_of rs i" for i
  proof (cases "record_id_validate i = None")
    case True
    from calm_map_of [OF assms True] True show ?thesis
      by (simp add: ledger_store_def file_contents_def option.map_comp plain_file_def comp_def option.map_ident)
  next
    case False
    then have "i \<notin> fst ` set rs" using assms by (auto simp: calm_records_def)
    then have "map_of rs i = None" by (simp add: map_of_eq_None_iff)
    with False show ?thesis by (auto simp: ledger_store_def)
  qed
  then show "ledger_store (calm_directory rs) = map_of rs" by (rule ext)
  have "other_entries (calm_directory rs) = record_files rs"
    using calm_names(2) [OF assms] by (force simp: other_entries_def calm_directory_def filter_id_conv)
  with calm_names(1) [OF assms] show "distinct_records (calm_directory rs)"
    by (simp add: distinct_records_def entry_names_def)
qed

lemma ordinal_plain:
  assumes "(v :: u8) \<le> 15"
  shows "CHR 0x00 \<notin> set (format_02d v)" "CHR ''/'' \<notin> set (format_02d v)"
proof -
  have "list_all (\<lambda>v. CHR 0x00 \<notin> set (format_02d v) \<and> CHR ''/'' \<notin> set (format_02d v))
      [0, 1, 2, 3, 4, 5, 6, 7, 8, 9, 10, 11, 12, 13, 14, 15]" by code_simp
  then show "CHR 0x00 \<notin> set (format_02d v)" "CHR ''/'' \<notin> set (format_02d v)"
    using small_ordinal_cases [OF assms] unfolding list_all_iff by auto
qed

lemma record_name_plain:
  assumes "record_id_validate i = None"
  shows "validateBasename (record_basename i) = None"
proof -
  obtain t where parts: "rid_token i = ''ldc-'' @ t" "isLowerHex t" "isLowerHex (rid_actionBindingDigest i)" "rid_ordinal i \<le> 15"
    using record_id_valid_parts [OF assms] .
  have hex: "CHR 0x00 \<notin> set s" "CHR ''/'' \<notin> set s" if "isLowerHex s" for s
    using that by (auto simp: isLowerHex_def list_all_iff)
  have "CHR 0x00 \<notin> set (record_basename i)" "CHR ''/'' \<notin> set (record_basename i)"
    using hex [OF parts(2)] hex [OF parts(3)] ordinal_plain [OF parts(4)]
    by (simp_all add: record_basename_def parts(1) privateLedgerRecordPrefix_def privateLedgerRecordSuffix_def)
  moreover have "record_basename i \<noteq> []"
    by (simp add: record_basename_def)
  ultimately show ?thesis using record_name_facts(1,2) [of i] by (auto simp: validateBasename_def)
qed

lemma calm_faults_simps:
  "sf_context (calm_faults n)" "sf_enter (calm_faults n) = sample_recheck True" "sf_leave (calm_faults n) = sample_recheck True"
  "sf_published (calm_faults n) = sample_recheck True" "sf_scan (calm_faults n) = sample_scan"
  by (simp_all add: calm_faults_def)

lemma calm_active:
  assumes "operation (calm_directory rs) = (Inr x, calm_directory rs')"
  shows "session_withActive (calm_session w) 1000 (calm_faults n) operation (calm_directory rs) = (Inr x, calm_directory rs')"
  using assms unfolding calm_directory_def calm_session_def
  by (intro sample_with_active) (simp_all add: calm_faults_simps)

lemma calm_query:
  assumes "f (calm_directory rs) = Inr x"
  shows "session_withActive (calm_session w) 1000 (calm_faults n) (\<lambda>d. (f d, d)) (calm_directory rs) = (Inr x, calm_directory rs)"
  by (rule calm_active) (simp add: assms)

lemma calm_list:
  assumes "calm_records rs"
  shows "session_List (calm_session w) 1000 (calm_faults n) 128 (calm_directory rs) = Inr (sort_key record_basename (map fst rs))"
proof -
  have "privateLedgerRecordIDsAt (sf_scan (calm_faults n)) 1000 128 (calm_directory rs) =
      Inr (sort_key record_basename (map fst rs))"
    using assms calm_ids [OF assms, of 128] by (simp add: calm_faults_simps calm_records_def)
  from calm_query [of "privateLedgerRecordIDsAt (sf_scan (calm_faults n)) 1000 128", OF this]
  show ?thesis by (simp add: session_List_def maximumPrivateLedgerRecords_def)
qed

lemma calm_read:
  assumes "calm_records rs" "(i, c) \<in> set rs"
  shows "session_Read (calm_session w) 1000 (calm_faults n) i maximumRecoveryFrameBytes (calm_directory rs) = Inr c"
proof -
  from assms have i: "record_id_validate i = None" "int (length c) \<le> maximumRecoveryFrameBytes" by (auto simp: calm_records_def)
  have stored: "map_of rs i = Some c" using assms by (simp add: calm_records_def)
  have "df_contents (plain_file c) = c" "sf_read (calm_faults n) = \<lparr> rf_open = [], rf_reads = [], rf_after = None \<rparr>"
    "fs_Size (sample_snapshot ''regular'' 0x8180 1 m) = \<lparr> u64_Known = True, u64_Value = m \<rparr>" for m
    by (simp_all add: plain_file_def calm_faults_def sample_snapshot_def)
  then have "readPrivateLedgerRecord (sf_read (calm_faults n)) 1000 i maximumRecoveryFrameBytes (calm_directory rs) = Inr c"
    using calm_map_of [OF assms(1) i(1)] stored calm_file [OF i(2)] calm_size [OF i(2)] i(2)
    by (simp add: readPrivateLedgerRecord_def file_contents_def read_end_def Let_def not_less)
  from calm_query [of "readPrivateLedgerRecord (sf_read (calm_faults n)) 1000 i maximumRecoveryFrameBytes", OF this] i(1) show ?thesis
    by (simp add: session_Read_def) (simp add: maximumRecoveryFrameBytes_def maximumDurableFileBytes_def)
qed

lemma calm_append:
  "calm_directory (rs @ [(i, c)]) = calm_directory rs @ [(record_basename i, plain_file c)]"
  by (simp add: calm_directory_def record_files_simps)

lemma calm_publish:
  assumes "calm_records (rs @ [(i, c)])"
  shows "session_Publish (calm_session True) 1000 (calm_faults (length c)) i c (calm_directory rs) =
    (Inr (), calm_directory (rs @ [(i, c)]))"
proof -
  from assms have rs: "calm_records rs" "length rs < 128" and i: "record_id_validate i = None"
    "int (length c) \<le> maximumRecoveryFrameBytes" "i \<notin> fst ` set rs" by (auto simp: calm_records_def)
  let ?f = "calm_faults (length c)" and ?d = "calm_directory rs" and ?d' = "calm_directory (rs @ [(i, c)])"
  have free: "record_basename i \<notin> set (entry_names ?d)"
  proof
    assume "record_basename i \<in> set (entry_names ?d)"
    then have "map_of (calm_directory rs) (record_basename i) \<noteq> None"
      by (simp add: map_of_eq_None_iff entry_names_def)
    with calm_map_of [OF rs(1) i(1)] i(3) show False by (simp add: map_of_eq_None_iff [symmetric])
  qed
  have "publish_preflight (sf_create ?f) 7 ?d (record_basename i) c = None"
    using free calm_size(3) [OF i(2)] record_name_plain [OF i(1)]
    by (simp add: publish_preflight_def checks_Cons calm_faults_def contextError_def)
  moreover have "publish_created (sf_create ?f) 1000 ?d (record_basename i) c = (None, ?d')"
  proof -
    have "created_entry (sf_create ?f) (record_basename i) c ?d = ?d'"
      by (simp add: created_entry_def calm_append calm_faults_def plain_file_def)
    moreover have "file_contents ?d' (record_basename i) = Some c"
      using file_contents_append(1) [OF free] by (simp add: calm_append plain_file_def)
    ultimately show ?thesis
      by (simp add: publish_created_def calm_published calm_faults_def verifyPublishedName_def checks_Cons)
  qed
  ultimately have created: "publishFileDurableAtWith (sf_create ?f) 1000 7 (record_basename i) c ?d = (None, ?d')"
    by (simp add: publishFileDurableAtWith_def)
  have "session_recheckLocked (calm_session True) 1000 (sample_recheck True) ?d' = None"
    unfolding calm_session_def calm_directory_def by (rule sample_recheck_ok)
  moreover have "ps_fd (calm_session True) = 7" "ps_writable (calm_session True)"
    by (simp_all add: calm_session_def sample_session_def)
  ultimately have "publish_step (calm_session True) 1000 ?f i c ?d = (Inr (), ?d')"
    using calm_ids [OF rs(1), of 256] rs(2)
    by (simp add: publish_step_def calm_faults_simps maximumPrivateLedgerRecords_def created)
  then have "session_withActive (calm_session True) 1000 ?f (publish_step (calm_session True) 1000 ?f i c) ?d = (Inr (), ?d')"
    by (rule calm_active)
  then show ?thesis
    using i calm_size(3) [OF i(2)] by (simp add: session_Publish_def not_less)
qed

section \<open>Sessions\<close>

lemma with_calm_ledger:
  assumes "calm_records rs"
  shows "with_ledger w (calm_world n) callback (calm_directory rs, v) = callback (world_ops (calm_world n) (calm_session w)) (calm_directory rs, v)"
proof -
  have "startPrivateLedgerSession sample_start 1000 sample_lease 7 w (calm_directory rs) = (Inr (calm_session w), calm_directory rs)"
    unfolding calm_directory_def calm_session_def
    using assms calm_ids [OF assms, of 256]
    by (intro sample_start_existing) (simp add: calm_directory_def calm_records_def)
  moreover have "lease_duplicateLocked sample_lease 1000 sample_layout = Inr 7" by code_simp
  moreover have "pd_kind sample_lease = LayoutPrivateState" by (simp add: sample_lease_def)
  ultimately show ?thesis
    by (simp add: with_ledger_def withPrivateLedgerSession_def lease_withFD_def calm_world_def contextError_def
        split: prod.splits option.splits)
qed

lemma calm_ops:
  "so_List (world_ops (calm_world n) s) = session_List s 1000 (calm_faults n)"
  "so_Read (world_ops (calm_world n) s) = session_Read s 1000 (calm_faults n)"
  "so_Publish (world_ops (calm_world n) s) = session_Publish s 1000 (calm_faults n)"
  by (simp_all add: world_ops_def private_ops_def calm_world_def)

lemma calm_read_records:
  assumes "calm_records rs" "set ids \<subseteq> fst ` set rs"
  shows "read_records (world_ops (calm_world n) (calm_session w)) (calm_directory rs) ids = Inr (records_of (map_of rs) ids)"
  using assms(2)
proof (induction ids)
  case (Cons i ids)
  then obtain c where c: "(i, c) \<in> set rs" by auto
  then have "map_of rs i = Some c" using assms(1) by (simp add: calm_records_def)
  with Cons calm_read [OF assms(1) c] show ?case by (simp add: calm_ops records_of_def)
qed (simp add: records_of_def)

lemma calm_histories:
  assumes "calm_records rs" "retained env (map_of rs) hs"
  shows "readRecoveryHistories env (world_ops (calm_world n) (calm_session w)) (calm_directory rs) = Inr hs"
proof -
  let ?ids = "sort_key record_basename (map fst rs)"
  have ids: "distinct ?ids" "set ?ids = dom (map_of rs)"
    using assms(1) by (simp_all add: calm_records_def dom_map_of_conv_image_fst)
  have "read_records (world_ops (calm_world n) (calm_session w)) (calm_directory rs) ?ids = Inr (records_of (map_of rs) ?ids)"
    by (rule calm_read_records [OF assms(1)]) simp
  with replay_retained [OF ids, of env hs] assms(2) calm_list [OF assms(1)] show ?thesis
    by (simp add: readRecoveryHistories_def calm_ops maximumRecoveryLedgerRecords_def)
qed

lemma calm_extend:
  assumes "calm_records rs" "length rs < 128" "retained env (map_of rs) hs" "ledger_step env hs f r hs'"
    and "encodeRecoveryFrame env f = Inr c" "decodeRecoveryFrame env c = Inr f" "frame_id f \<notin> dom (map_of rs)"
  shows "calm_records (rs @ [(frame_id f, c)])" "map_of (rs @ [(frame_id f, c)]) = (map_of rs)(frame_id f \<mapsto> c)"
    "retained env (map_of (rs @ [(frame_id f, c)])) hs'"
proof -
  have free: "frame_id f \<notin> fst ` set rs" using assms(7) by (simp add: dom_map_of_conv_image_fst)
  have valid: "validateRecoveryFrame env f = None" "int (length c) \<le> maximumRecoveryFrameBytes"
    using assms(5) by (auto simp: encodeRecoveryFrame_def Let_def split: option.splits if_splits)
  with assms(1,2) free valid_frame_id [OF valid(1)] show "calm_records (rs @ [(frame_id f, c)])"
    by (auto simp: calm_records_def)
  have "map_of (rs @ [(frame_id f, c)]) i = ((map_of rs)(frame_id f \<mapsto> c)) i" for i
    using assms(7) by (auto simp: map_add_def split: option.splits)
  then show map: "map_of (rs @ [(frame_id f, c)]) = (map_of rs)(frame_id f \<mapsto> c)" by (rule ext)
  from ledger_step_retained [OF assms(3,4,7,6)] show "retained env (map_of (rs @ [(frame_id f, c)])) hs'" by (simp only: map)
qed

lemma calm_room:
  assumes "calm_records rs" "length rs < 128" "retained env (map_of rs) hs"
  shows "requireRecoveryLedgerPublicationCapacity hs = None"
proof -
  have "card (dom (map_of rs)) = length rs"
    using assms(1) by (simp add: calm_records_def dom_map_of_conv_image_fst distinct_card flip: set_map)
  with retained_capacity [OF assms(3)] assms(2) show ?thesis by simp
qed

lemma calm_publish_candidate:
  assumes "calm_records (rs @ [(i, c)])"
  shows "publish_candidate (world_ops (calm_world (length c)) (calm_session True)) (r, i, c) (calm_directory rs, v) =
    (None, (calm_directory (rs @ [(i, c)]), Some r))"
  using calm_publish [OF assms] by (simp add: publish_candidate_def calm_ops)

section \<open>Operations\<close>

lemma calm_transition:
  assumes rs: "calm_records rs" "length rs < 128" and ret: "retained env (map_of rs) hs" and find: "findRecoveryHistory hs r = Inr h"
    and app: "appendRecoveryTransition env (rh_frames h) t = Inr f"
    and codec: "encodeRecoveryFrame env f = Inr c" "decodeRecoveryFrame env c = Inr f"
  obtains r' where "Transition env True (with_ledger True (calm_world (length c))) r t (calm_directory rs) =
      ((Some r', None), calm_directory (rs @ [(frame_id f, c)]))"
    "history env (rh_frames h @ [f]) r'" "calm_records (rs @ [(frame_id f, c)])"
    "retained env (map_of (rs @ [(frame_id f, c)])) (map (extend_history h f r') hs)"
proof -
  from find have h: "h \<in> set hs" "same_identity (rh_recovery h) r"
    by (auto simp: findRecoveryHistory_def find_Some_iff split: option.splits)
  with ret have hist: "history env (rh_frames h) (rh_recovery h)" by (simp add: retained_def)
  note new = app [unfolded append_Inr [OF hist]]
  obtain digest where "recoveryFrameDigest env f = Inr digest"
    using codec(1) new by (auto simp: recoveryFrameDigest_def recoveryLedgerSchemaVersionV2_def recoveryLedgerSchemaVersionV1_def)
  then obtain r' where r': "recovery_apply env (rh_recovery h) f = Inr r'"
    using new by (auto simp: recovery_apply_def)
  have ext: "history env (rh_frames h @ [f]) r'"
    unfolding history_snoc [OF hist] using new r' by auto
  have room: "has_room hs" using calm_room [OF rs ret] by (simp add: has_room_def)
  have step: "ledger_step env hs f r' (map (extend_history h f r') hs)"
    by (rule ledger_step.advanced [OF room h(1) ext])
  have "card (dom (map_of rs)) < 128" using room ret by (simp add: has_room_def retained_capacity)
  from retained_extend(1) [OF ret h(1) ext codec(2) this] have free: "frame_id f \<notin> dom (map_of rs)" .
  note calm = calm_extend [OF rs ret step codec free]
  have binding: "rec_binding r' = rec_binding (rh_recovery h)" using r' by (auto simp: recovery_apply_def split: if_splits sum.splits)
  have "NewPrivateLedgerRecordID (hex_encode (rb_actionBindingDigest (rec_binding r'))) (rb_token (rec_binding r')) (fr_ordinal f) =
      Inr (frame_id f)"
    unfolding NewPrivateLedgerRecordID_Inr using valid_frame_id [of env f] new binding
    by (simp add: frame_id_def frame_key_def)
  then have cand: "transition_candidate env r t hs = Inr (r', frame_id f, c)"
    using find app r' codec new calm_room [OF rs ret]
    by (simp add: transition_candidate_def recoveryLedgerSchemaVersionV2_def)
  have "validateRecoveryIdentity (rh_recovery h) = None"
    using history_binding_valid [OF hist]
    by (auto simp: validateRecoveryIdentity_def validateRecoveryBindingForSchema_def checks_Cons)
  then have "validateRecoveryIdentity r = None"
    using h(2) by (simp add: validateRecoveryIdentity_def same_identity_def)
  then have "Transition env True (with_ledger True (calm_world (length c))) r t (calm_directory rs) =
      ((Some r', None), calm_directory (rs @ [(frame_id f, c)]))"
    using calm_histories [OF rs(1) ret] cand calm_publish_candidate [OF calm(1)]
    by (simp add: Transition_def validateRecoveryContext_def with_calm_ledger [OF rs(1)] transition_callback_def mutation_result_def)
  with that ext calm(1,3) show thesis by blast
qed

lemma calm_reserve:
  assumes rs: "calm_records rs" "length rs < 128" and ret: "retained env (map_of rs) hs"
    and request: "validateRecoveryAction (action_clone a) = None" "validateRecoveryReservation (a_Kind (action_clone a)) layout = None"
      "plan_digest_validate planDigest = None"
    and token: "newRecoveryToken random = Inr token" "newRecoveryBinding env (action_clone a) planDigest token layout = Inr b"
    and source: "\<forall>h \<in> set hs. \<not> open_at (rb_root b) (rb_source b) h"
    and frame: "newIntentFrame env b = Inr f" "recoveryFromFrame env f = Inr r"
    and codec: "encodeRecoveryFrame env f = Inr c" "decodeRecoveryFrame env c = Inr f" and free: "frame_id f \<notin> fst ` set rs"
  shows "Reserve env True random (with_ledger True (calm_world (length c))) a planDigest layout (calm_directory rs) =
      ((Some r, None), calm_directory (rs @ [(frame_id f, c)]))"
    "calm_records (rs @ [(frame_id f, c)])"
    "retained env (map_of (rs @ [(frame_id f, c)])) (insort_key history_key \<lparr> rh_frames = [f], rh_recovery = r \<rparr> hs)"
proof -
  note f = frame(1) [unfolded newIntentFrame_Inr]
  have hist: "history env [f] r" using f frame(2) by (auto intro: history.intent)
  have binding: "rec_binding r = b" using frame(2) f by (simp add: recoveryFromFrame_Inr)
  have room: "has_room hs" using calm_room [OF rs ret] by (simp add: has_room_def)
  have step: "ledger_step env hs f r (insort_key history_key \<lparr> rh_frames = [f], rh_recovery = r \<rparr> hs)"
    by (rule ledger_step.reserved [OF room hist]) (use source binding in simp)
  have free': "frame_id f \<notin> dom (map_of rs)" using free by (simp add: dom_map_of_conv_image_fst)
  note calm = calm_extend [OF rs ret step codec free']
  have "NewPrivateLedgerRecordID (hex_encode (rb_actionBindingDigest b)) (rb_token b) (fr_ordinal f) = Inr (frame_id f)"
    unfolding NewPrivateLedgerRecordID_Inr using valid_frame_id [of env f] f by (simp add: frame_id_def frame_key_def)
  moreover have "distinct (open_source_keys hs)" using ret by (simp add: retained_def)
  from find_outstanding_unique [OF this, of "rb_root b" "rb_source b"] source
  have "findOutstandingRecovery hs (rb_root b) (rb_source b) = Inr None" by (simp add: find_None_iff)
  ultimately have cand: "reserve_candidate env b hs = Inr (r, frame_id f, c)"
    using frame codec calm_room [OF rs ret] by (simp add: reserve_candidate_def recovery_Token_def)
  show "Reserve env True random (with_ledger True (calm_world (length c))) a planDigest layout (calm_directory rs) =
      ((Some r, None), calm_directory (rs @ [(frame_id f, c)]))"
    using calm_histories [OF rs(1) ret] cand calm_publish_candidate [OF calm(1)] request token
    by (simp add: Reserve_def Let_def validateRecoveryContext_def with_calm_ledger [OF rs(1)] reserve_callback_def mutation_result_def
        marked_def)
  show "calm_records (rs @ [(frame_id f, c)])"
    "retained env (map_of (rs @ [(frame_id f, c)])) (insort_key history_key \<lparr> rh_frames = [f], rh_recovery = r \<rparr> hs)"
    by (rule calm(1), rule calm(3))
qed

lemma calm_reload:
  assumes rs: "calm_records rs" and ret: "retained env (map_of rs) hs" and find: "findRecoveryHistory hs r = Inr h"
  shows "Reload env True (with_ledger False (calm_world n)) r (calm_directory rs) = (Inr (Some (rh_recovery h)), calm_directory rs)"
proof -
  from find have h: "h \<in> set hs" "same_identity (rh_recovery h) r"
    by (auto simp: findRecoveryHistory_def find_Some_iff split: option.splits)
  with ret have hist: "history env (rh_frames h) (rh_recovery h)" by (simp add: retained_def)
  have "validateRecoveryIdentity (rh_recovery h) = None"
    using history_binding_valid [OF hist]
    by (auto simp: validateRecoveryIdentity_def validateRecoveryBindingForSchema_def checks_Cons)
  then have "validateRecoveryIdentity r = None"
    using h(2) by (simp add: validateRecoveryIdentity_def same_identity_def)
  then show ?thesis
    using calm_histories [OF rs ret] find
    by (simp add: Reload_def validateRecoveryContext_def with_calm_ledger [OF rs] read_callback_def)
qed

section \<open>Properties\<close>

text \<open>
  C17: the ledger makes progress. When nothing fails, every transition the graph allows from the retained
  history is recorded: \<^verbatim>\<open>Transition\<close> returns without an error what the longer history replays to, and
  the frame is stored completely as a new last file, while fewer than 128 records are stored. (The CBOR
  library encodes the new frame and decodes what it encoded.)
\<close>

theorem ledger_progress:
  assumes "calm_records rs" and "length rs < 128" and "retained env (map_of rs) hs" and "findRecoveryHistory hs r = Inr h"
    and "appendRecoveryTransition env (rh_frames h) t = Inr f"
    and "encodeRecoveryFrame env f = Inr c" and "decodeRecoveryFrame env c = Inr f"
  shows "\<exists>r'. Transition env True (with_ledger True (calm_world (length c))) r t (calm_directory rs) =
      ((Some r', None), calm_directory (rs @ [(frame_id f, c)])) \<and>
    replayRecoveryFrames env (rh_frames h @ [f]) = Inr r'"
  using calm_transition [OF assms] unfolding replay_iff by metis

section \<open>A sample recovery, step by step\<close>

text \<open>
  For a path \<open>fs\<close> of the transition graph: the CBOR library of its frames, the first \<open>k\<close> records and
  the history they hold.
\<close>

definition case_facts_env :: "sample_case \<Rightarrow> (recovery_event \<times> recovery_outcome) list \<Rightarrow> frame_env" where
  "case_facts_env c fs = case_env c (\<lambda>n. case_frames c fs ! unat n)"

definition facts_records :: "nat \<Rightarrow> (record_id \<times> bytes) list" where
  "facts_records k = map (\<lambda>n. (sample_record_id (word_of_nat n), [word_of_nat n, 1])) [0..<k]"

definition case_history :: "sample_case \<Rightarrow> (recovery_event \<times> recovery_outcome) list \<Rightarrow> nat \<Rightarrow> recovery_history" where
  "case_history c fs k = \<lparr> rh_frames = case_frames c (take k fs),
     rh_recovery = case_recovery c (word_of_nat (k - 1)) (fs ! (k - 1)) \<rparr>"

definition good_case :: "sample_case \<Rightarrow> (recovery_event \<times> recovery_outcome) list \<Rightarrow> bool" where
  "good_case c fs \<longleftrightarrow> length fs \<le> 16 \<and> hd fs = (IntentReserved, []) \<and> successively (case_follows c) fs"

abbreviation facts_env :: "(recovery_event \<times> recovery_outcome) list \<Rightarrow> frame_env" where
  "facts_env \<equiv> case_facts_env TrashCase"
abbreviation facts_history :: "(recovery_event \<times> recovery_outcome) list \<Rightarrow> nat \<Rightarrow> recovery_history" where
  "facts_history \<equiv> case_history TrashCase"
abbreviation good_facts :: "(recovery_event \<times> recovery_outcome) list \<Rightarrow> bool" where
  "good_facts \<equiv> good_case TrashCase"

lemma case_metadata_plain [simp]: "snd p = [] \<Longrightarrow> case_metadata c p = []"
  by (auto simp: case_metadata_def recovery_vocabulary_defs)

lemma facts_records_Suc: "facts_records (Suc k) = facts_records k @ [(sample_record_id (word_of_nat k), [word_of_nat k, 1])]"
  by (simp add: facts_records_def)

lemma length_facts_records [simp]: "length (facts_records k) = k"
  by (simp add: facts_records_def)

lemma facts_frames: "k < length fs \<Longrightarrow> case_frames c fs ! k = case_frame c (word_of_nat k) (fst (fs ! k)) (snd (fs ! k)) (case_metadata c (fs ! k))"
  by (simp add: case_frames_def)

lemma facts_frames_take:
  assumes "k \<le> length fs"
  shows "case_frames c (take k fs) = take k (case_frames c fs)"
  using assms by (simp add: case_frames_def take_map)

lemma facts_frames_Suc:
  "k < length fs \<Longrightarrow> case_frames c (take (Suc k) fs) =
     case_frames c (take k fs) @ [case_frame c (word_of_nat k) (fst (fs ! k)) (snd (fs ! k)) (case_metadata c (fs ! k))]"
  by (rule nth_equalityI) (auto simp: case_frames_def nth_append less_Suc_eq)

lemma facts_is_history:
  assumes "good_case c fs" "0 < k" "k \<le> length fs"
  shows "is_history (case_env c g) (case_history c fs k)"
proof -
  have "successively (case_follows c) (take k fs)"
    using assms(1) unfolding good_case_def by (metis append_take_drop_id successively_append_iff)
  moreover have take: "take k fs \<noteq> []" "length (take k fs) = k" "hd (take k fs) = (IntentReserved, [])"
    using assms by (auto simp: good_case_def)
  moreover have "last (take k fs) = fs ! (k - 1)" using take(1,2) assms(2) by (simp add: last_conv_nth)
  ultimately show ?thesis
    using sample_history [of "take k fs" c g] assms by (simp add: case_history_def good_case_def)
qed

lemma facts_frame_codec:
  assumes "good_case c fs" "k < length fs"
  defines "f \<equiv> case_frame c (word_of_nat k) (fst (fs ! k)) (snd (fs ! k)) (case_metadata c (fs ! k))"
  shows "validateRecoveryFrame (case_facts_env c fs) f = None" "encodeRecoveryFrame (case_facts_env c fs) f = Inr [word_of_nat k, 1]"
    "decodeRecoveryFrame (case_facts_env c fs) [word_of_nat k, 1] = Inr f" "frame_id f = sample_record_id (word_of_nat k)"
proof -
  have small: "unat (word_of_nat k :: u8) = k"
    using assms(1,2) small_ordinal by (simp add: good_case_def)
  show valid: "validateRecoveryFrame (case_facts_env c fs) f = None"
  proof (cases "k = 0")
    case True
    then have "fs ! k = (IntentReserved, [])" using assms(1,2) by (cases fs) (simp_all add: good_case_def)
    with True sample_intent_valid show ?thesis by (simp add: f_def case_facts_env_def)
  next
    case False
    have "case_follows c (fs ! (k - 1)) (fs ! k)"
      using assms(1,2) False by (auto simp: good_case_def successively_conv_nth dest: spec [of _ "k - 1"])
    moreover have "(word_of_nat k :: u8) \<noteq> 0" "(word_of_nat k :: u8) \<le> 15"
      using small False assms(1,2) by (auto simp: word_le_nat_alt good_case_def)
    ultimately show ?thesis using sample_frame_valid unfolding f_def case_facts_env_def by blast
  qed
  have encode: "encodeRecoveryFrame (case_env c g) f = Inr [word_of_nat k, 1]" if "validateRecoveryFrame (case_env c g) f = None" for g
    using sample_encode [OF that] by (simp add: f_def)
  with valid show enc: "encodeRecoveryFrame (case_facts_env c fs) f = Inr [word_of_nat k, 1]" by (simp add: case_facts_env_def)
  have "frame_arrays f"
    by (cases c) (simp_all add: frame_arrays_def f_def sample_binding_digest sample_plan_digest_def case_layout_def
        sample_layout_binding_def zero_digest_def planDigestLength_def)
  moreover have "cbor_faithful (case_facts_env c fs) f [word_of_nat k, 1]"
    using facts_frames [OF assms(2)] small
    by (simp add: cbor_faithful_def f_def case_facts_env_def case_env_def binding_env.defs)
  ultimately show "decodeRecoveryFrame (case_facts_env c fs) [word_of_nat k, 1] = Inr f" using encode_decode [OF enc] by blast
  show "frame_id f = sample_record_id (word_of_nat k)" by (simp add: f_def sample_frame_id)
qed

lemma facts_calm:
  assumes "good_case c fs" "k \<le> length fs"
  shows "calm_records (facts_records k)"
    "0 < k \<Longrightarrow> retained (case_facts_env c fs) (map_of (facts_records k)) [case_history c fs k]"
proof -
  have k: "k \<le> 16" using assms by (simp add: good_case_def)
  have inj: "word_of_nat m = (word_of_nat n :: u8) \<longleftrightarrow> m = n" if "m < 16" "n < 16" for m n
    using that small_ordinal by metis
  have valid: "record_id_validate (sample_record_id (word_of_nat n)) = None" if "n < k" for n
    using valid_frame_id facts_frame_codec(1,4) [OF assms(1), of n] that assms(2) by (metis less_le_trans)
  have ids: "map fst (facts_records k) = map (\<lambda>n. sample_record_id (word_of_nat n)) [0..<k]"
    by (simp add: facts_records_def)
  have dist: "distinct (map fst (facts_records k))"
    unfolding ids using inj k by (auto simp: distinct_map inj_on_def sample_record_id_def)
  then show calm: "calm_records (facts_records k)"
    using k valid by (auto simp: calm_records_def facts_records_def maximumRecoveryFrameBytes_def)
  assume "0 < k"
  have hist: "is_history (case_facts_env c fs) (case_history c fs k)"
    unfolding case_facts_env_def by (rule facts_is_history [OF assms(1) \<open>0 < k\<close> assms(2)])
  have at: "frame_at (case_facts_env c fs) (map_of (facts_records k)) (frame_id f) f \<and> frame_id f \<in> fst ` set (facts_records k)"
    if "f \<in> set (case_frames c (take k fs))" for f
  proof -
    obtain n where "n < length (case_frames c (take k fs))" "f = case_frames c (take k fs) ! n"
      using \<open>f \<in> set (case_frames c (take k fs))\<close> by (auto simp: in_set_conv_nth)
    with assms(2) have n: "n < k" "f = case_frame c (word_of_nat n) (fst (fs ! n)) (snd (fs ! n)) (case_metadata c (fs ! n))"
      by (simp_all add: case_frames_def)
    have "(sample_record_id (word_of_nat n), [word_of_nat n, 1]) \<in> set (facts_records k)" using n(1) by (auto simp: facts_records_def)
    with facts_frame_codec(3,4) [OF assms(1), of n] n assms(2) dist show ?thesis by (force simp: frame_at_def)
  qed
  have "fst ` set (facts_records k) = frame_id ` set (case_frames c (take k fs))"
    using assms(2) by (force simp: facts_records_def case_frames_def sample_frame_id image_iff)
  moreover have "card (dom (map_of (facts_records k))) \<le> 128"
    using k card_length [of "map fst (facts_records k)"] by (simp add: dom_map_of_conv_image_fst)
  ultimately show "retained (case_facts_env c fs) (map_of (facts_records k)) [case_history c fs k]"
    using hist at by (simp add: retained_def dom_map_of_conv_image_fst case_history_def open_source_keys_def)
qed

lemma facts_transition:
  assumes "good_case c fs" "0 < k" "k < length fs"
  shows "Transition (case_facts_env c fs) True (with_ledger True (calm_world 2)) (case_recovery c (word_of_nat (k - 1)) (fs ! (k - 1)))
      \<lparr> tr_Event = fst (fs ! k), tr_Outcome = snd (fs ! k), tr_Metadata = case_metadata c (fs ! k) \<rparr> (calm_directory (facts_records k)) =
    ((Some (case_recovery c (word_of_nat k) (fs ! k)), None), calm_directory (facts_records (Suc k)))"
proof -
  let ?h = "case_history c fs k" and ?f = "case_frame c (word_of_nat k) (fst (fs ! k)) (snd (fs ! k)) (case_metadata c (fs ! k))"
    and ?r = "case_recovery c (word_of_nat (k - 1)) (fs ! (k - 1))"
  note codec = facts_frame_codec [OF assms(1,3)]
  have hist: "history (case_facts_env c fs) (rh_frames ?h) ?r"
    using facts_is_history [OF assms(1,2), of "\<lambda>n. case_frames c fs ! unat n"] assms(3) by (simp add: case_facts_env_def case_history_def)
  have next_hist: "history (case_facts_env c fs) (rh_frames ?h @ [?f]) (case_recovery c (word_of_nat k) (fs ! k))"
    using facts_is_history [OF assms(1), of "Suc k" "\<lambda>n. case_frames c fs ! unat n"] assms(3)
    by (simp add: case_facts_env_def case_history_def facts_frames_Suc)
  have "transition_of ?f = \<lparr> tr_Event = fst (fs ! k), tr_Outcome = snd (fs ! k), tr_Metadata = case_metadata c (fs ! k) \<rparr>"
    by (simp add: transition_of_def)
  moreover have "rec_schemaVersion ?r = 2" by (simp add: case_recovery_def)
  ultimately have app: "appendRecoveryTransition (case_facts_env c fs) (rh_frames ?h)
      \<lparr> tr_Event = fst (fs ! k), tr_Outcome = snd (fs ! k), tr_Metadata = case_metadata c (fs ! k) \<rparr> = Inr ?f"
    unfolding append_Inr [OF hist] using next_hist unfolding history_snoc [OF hist] by (metis sample_frame_simps(1))
  have find: "findRecoveryHistory [?h] ?r = Inr ?h"
    by (simp add: findRecoveryHistory_def same_identity_def case_history_def)
  have "k < 128" using assms by (simp add: good_case_def)
  from calm_transition [OF facts_calm(1) [OF assms(1)] _ facts_calm(2) [OF assms(1) _ assms(2)] find app codec(2,3)] assms(3) this
  obtain r' where r': "Transition (case_facts_env c fs) True (with_ledger True (calm_world (length [word_of_nat k :: u8, 1]))) ?r
      \<lparr> tr_Event = fst (fs ! k), tr_Outcome = snd (fs ! k), tr_Metadata = case_metadata c (fs ! k) \<rparr> (calm_directory (facts_records k)) =
      ((Some r', None), calm_directory (facts_records k @ [(frame_id ?f, [word_of_nat k, 1])]))"
    "history (case_facts_env c fs) (rh_frames ?h @ [?f]) r'" by (metis length_facts_records less_imp_le)
  then have "r' = case_recovery c (word_of_nat k) (fs ! k)" using next_hist by (metis replay_iff sum.inject(2))
  with r'(1) codec(4) show ?thesis by (simp add: facts_records_Suc numeral_2_eq_2)
qed

lemma facts_reserve:
  assumes "good_case c fs" "fs \<noteq> []"
  shows "Reserve (case_facts_env c fs) True (Some (replicate 32 0xBB)) (with_ledger True (calm_world 2)) (case_action c)
      sample_plan_digest (case_layout c) (calm_directory []) =
    ((Some (case_recovery c 0 (IntentReserved, [])), None), calm_directory (facts_records 1))"
proof -
  have first: "fs ! 0 = (IntentReserved, [])" using assms by (cases fs) (simp_all add: good_case_def)
  note codec = facts_frame_codec [OF assms(1), of 0, simplified first assms(2), simplified]
  have clone: "action_clone (case_action c) = case_action c"
    using recovery_action_clones(1) [OF case_recovery_action] by simp
  have "is_history (case_facts_env c fs) (case_history c fs 1)"
    unfolding case_facts_env_def using assms by (intro facts_is_history) (auto simp: Suc_leI)
  then have hist: "history (case_facts_env c fs) [case_frame c 0 IntentReserved [] []] (case_recovery c 0 (IntentReserved, []))"
    using assms(2) first by (cases fs) (simp_all add: case_history_def case_frames_def)
  then have frame: "recoveryFromFrame (case_facts_env c fs) (case_frame c 0 IntentReserved [] []) = Inr (case_recovery c 0 (IntentReserved, []))"
    by cases (auto dest: history_facts)
  have intent: "newIntentFrame (case_facts_env c fs) (case_binding c) = Inr (case_frame c 0 IntentReserved [] [])"
    using codec assms(2) by (simp add: newIntentFrame_Inr zero_digest_def planDigestLength_def)
  have token: "newRecoveryToken (Some (replicate 32 0xBB)) = Inr sample_token" by code_simp
  have binding: "newRecoveryBinding (case_facts_env c fs) (action_clone (case_action c)) sample_plan_digest sample_token (case_layout c) =
      Inr (case_binding c)"
    using sample_new_binding [of c "\<lambda>n. case_frames c fs ! unat n"]
    by (simp add: clone case_facts_env_def newRecoveryBinding_def recoveryLedgerSchemaVersionV2_def sample_binding_digest)
  have "validateRecoveryAction (case_action c) = None"
    using case_recovery_action by (auto simp: validateRecoveryAction_None)
  moreover have "validateRecoveryReservation (a_Kind (case_action c)) (case_layout c) = None"
    "plan_digest_validate sample_plan_digest = None" by (induct c; code_simp)+
  moreover have "retained (case_facts_env c fs) (map_of []) []" by (simp add: retained_def open_source_keys_def)
  moreover have "calm_records []" by (simp add: calm_records_def)
  ultimately have "Reserve (case_facts_env c fs) True (Some (replicate 32 0xBB)) (with_ledger True (calm_world (length [0 :: u8, 1])))
      (case_action c) sample_plan_digest (case_layout c) (calm_directory []) =
    ((Some (case_recovery c 0 (IntentReserved, [])), None),
     calm_directory ([] @ [(frame_id (case_frame c 0 IntentReserved [] []), [0, 1])]))"
    using codec assms(2) by (intro calm_reserve [where hs = "[]", OF _ _ _ _ _ _ token binding _ intent frame]) (simp_all add: clone)
  then show ?thesis by (simp add: facts_records_def sample_frame_id numeral_2_eq_2)
qed

lemma facts_reload:
  assumes "good_case c fs" "0 < k" "k \<le> length fs"
  shows "Reload (case_facts_env c fs) True (with_ledger False (calm_world 2)) (case_recovery c n p) (calm_directory (facts_records k)) =
    (Inr (Some (case_recovery c (word_of_nat (k - 1)) (fs ! (k - 1)))), calm_directory (facts_records k))"
proof -
  have "findRecoveryHistory [case_history c fs k] (case_recovery c n p) = Inr (case_history c fs k)"
    by (simp add: findRecoveryHistory_def same_identity_def case_history_def case_recovery_def)
  from calm_reload [OF facts_calm(1) [OF assms(1,3)] facts_calm(2) [OF assms(1,3,2)] this] show ?thesis
    by (simp add: case_history_def)
qed

text \<open>The same through the port: the tickets of the recovery and the state after \<open>k\<close> records.\<close>

definition case_ticket :: "sample_case \<Rightarrow> nat \<Rightarrow> u8 \<Rightarrow> recovery_event \<times> recovery_outcome \<Rightarrow> port_ticket" where
  "case_ticket c port n p = (case newTicket port (case_recovery c n p) of
     Inl _ \<Rightarrow> RecoveryTicket None | Inr t \<Rightarrow> RecoveryTicket (Some t))"

definition sample_port_world :: "nat \<Rightarrow> nat \<Rightarrow> 'f \<Rightarrow> 'f port_world_scheme" where
  "sample_port_world k clock content =
     \<lparr> pw_directory = calm_directory (facts_records k), pw_clock = clock,
       pw_calls = (\<lambda>_. \<lparr> cf_live = True, cf_random = Some (replicate 32 0xBB), cf_world = calm_world 2 \<rparr>), \<dots> = content \<rparr>"

abbreviation sample_ticket :: "nat \<Rightarrow> u8 \<Rightarrow> recovery_event \<times> recovery_outcome \<Rightarrow> port_ticket" where
  "sample_ticket \<equiv> case_ticket TrashCase"

lemma sample_tickets:
  assumes "good_case c fs" "k < length fs"
  shows "ticketResult port (Some (case_recovery c (word_of_nat k) (fs ! k))) err = (Some (case_ticket c port (word_of_nat k) (fs ! k)), err)"
    "ticket_view (case_ticket c port (word_of_nat k) (fs ! k)) = recovery_facts (case_recovery c (word_of_nat k) (fs ! k))"
    "unwrap port (Some (case_ticket c port (word_of_nat k) (fs ! k))) = Inr (case_recovery c (word_of_nat k) (fs ! k))"
proof -
  have "is_history (case_facts_env c fs) (case_history c fs (Suc k))"
    unfolding case_facts_env_def using assms by (intro facts_is_history) simp_all
  then have "history (case_facts_env c fs) (case_frames c (take (Suc k) fs)) (case_recovery c (word_of_nat k) (fs ! k))"
    by (simp add: case_history_def)
  from ticket_of_history [OF this, of port err] obtain t where
    "newTicket port (case_recovery c (word_of_nat k) (fs ! k)) = Inr t" "rt_port t = port"
    "rt_recovery t = case_recovery c (word_of_nat k) (fs ! k)"
    "ticket_view (RecoveryTicket (Some t)) = recovery_facts (case_recovery c (word_of_nat k) (fs ! k))"
    "ticketResult port (Some (case_recovery c (word_of_nat k) (fs ! k))) err = (Some (RecoveryTicket (Some t)), err)" .
  then show "ticketResult port (Some (case_recovery c (word_of_nat k) (fs ! k))) err = (Some (case_ticket c port (word_of_nat k) (fs ! k)), err)"
    "ticket_view (case_ticket c port (word_of_nat k) (fs ! k)) = recovery_facts (case_recovery c (word_of_nat k) (fs ! k))"
    "unwrap port (Some (case_ticket c port (word_of_nat k) (fs ! k))) = Inr (case_recovery c (word_of_nat k) (fs ! k))"
    by (simp_all add: case_ticket_def unwrap_def)
qed

lemma sample_port_reserve:
  assumes "good_case c fs" "fs \<noteq> []"
  shows "lp_Reserve (recovery_ledger_port (case_facts_env c fs) port) (case_action c) sample_plan_digest (case_layout c)
      (sample_port_world 0 clock content) = ((Some (case_ticket c port 0 (fs ! 0)), None), sample_port_world 1 (Suc clock) content)"
proof -
  have first: "fs ! 0 = (IntentReserved, [])" using assms by (cases fs) (simp_all add: good_case_def)
  have none: "facts_records 0 = []" by (simp add: facts_records_def)
  show ?thesis
    using facts_reserve [OF assms] sample_tickets(1) [OF assms(1), of 0 port None] assms(2) first
    by (simp add: recovery_ledger_port_def port_Reserve_def ledger_call_def sample_port_world_def none)
qed

lemma sample_port_transition:
  assumes "good_case c fs" "0 < k" "k < length fs"
  shows "lp_Transition (recovery_ledger_port (case_facts_env c fs) port) (Some (case_ticket c port (word_of_nat (k - 1)) (fs ! (k - 1))))
      \<lparr> pt_Event = fst (fs ! k), pt_ReconciliationOutcome = snd (fs ! k), pt_MetadataDisposition = case_metadata c (fs ! k) \<rparr> (sample_port_world k clock content) =
    ((Some (case_ticket c port (word_of_nat k) (fs ! k)), None), sample_port_world (Suc k) (Suc clock) content)"
proof -
  have "validateRecoveryFrame (case_facts_env c fs) (case_frame c (word_of_nat k) (fst (fs ! k)) (snd (fs ! k)) (case_metadata c (fs ! k))) = None"
    by (rule facts_frame_codec(1) [OF assms(1,3)])
  then have vocabulary: "recovery_event_validate (fst (fs ! k)) = None" "snd (fs ! k) = [] \<or> recovery_outcome_validate (snd (fs ! k)) = None"
    by (auto simp: validateRecoveryFrame_def checks_Cons validateOrdinaryTransition_def split: if_splits)
  have metadata: "case_metadata c (fs ! k) = [] \<or> recovery_metadata_validate (case_metadata c (fs ! k)) = None"
    by (simp add: case_metadata_def recovery_metadata_validate_def)
  from vocabulary have "recoveryTransitionFromPort \<lparr> pt_Event = fst (fs ! k), pt_ReconciliationOutcome = snd (fs ! k), pt_MetadataDisposition = case_metadata c (fs ! k) \<rparr> =
      Inr \<lparr> tr_Event = fst (fs ! k), tr_Outcome = snd (fs ! k), tr_Metadata = case_metadata c (fs ! k) \<rparr>"
    using from_port_Inr(1) [of "fst (fs ! k)" "fst (fs ! k)"] from_port_Inr(2) [of "snd (fs ! k)" "snd (fs ! k)"] from_port_Inr(3) [of "case_metadata c (fs ! k)" "case_metadata c (fs ! k)"]
    by (simp add: recoveryTransitionFromPort_def metadata)
  moreover have "k - 1 < length fs" using assms(3) by simp
  ultimately show ?thesis
    using facts_transition [OF assms] sample_tickets(1) [OF assms(1,3), of port None] sample_tickets(3) [OF assms(1), of "k - 1" port]
    by (simp add: recovery_ledger_port_def port_Transition_def ledger_call_def sample_port_world_def)
qed

lemma sample_port_reload:
  assumes "good_case c fs" "0 < k" "k \<le> length fs" "j < length fs"
  shows "lp_Reload (recovery_ledger_port (case_facts_env c fs) port) (Some (case_ticket c port (word_of_nat j) (fs ! j))) (sample_port_world k clock content) =
    ((Some (case_ticket c port (word_of_nat (k - 1)) (fs ! (k - 1))), None), sample_port_world k (Suc clock) content)"
proof -
  have "k - 1 < length fs" using assms(2,3) by simp
  then show ?thesis
    using facts_reload [OF assms(1-3)] sample_tickets(1) [OF assms(1), of "k - 1" port None] sample_tickets(3) [OF assms(1,4), of port]
    by (simp add: recovery_ledger_port_def port_Reload_def ledger_call_def sample_port_world_def)
qed

lemma sample_port_calm: "good_case c fs \<Longrightarrow> k \<le> length fs \<Longrightarrow> distinct_records (pw_directory (sample_port_world k clock content))"
  using calm_store(2) [OF facts_calm(1)] by (simp add: sample_port_world_def)

text \<open>A complete Trash move, as the ledger records it.\<close>

definition sample_move :: "(recovery_event \<times> recovery_outcome) list" where
  "sample_move = [(IntentReserved, []), (MetadataDispatchRecorded, []), (MetadataVerified, []), (MoveDispatchRecorded, []),
     (MoveVerified, [])]"

lemma sample_move_good: "good_facts sample_move"
  by code_simp

theorem ledger_progress_witness:
  "\<exists>r. Transition (facts_env sample_move) True (with_ledger True (calm_world 2)) (sample_recovery 0 (IntentReserved, []))
     \<lparr> tr_Event = MetadataDispatchRecorded, tr_Outcome = [], tr_Metadata = [] \<rparr> (calm_directory (facts_records 1)) =
     ((Some r, None), calm_directory (facts_records 2))"
proof -
  let ?h = "facts_history sample_move (Suc 0)" and ?f = "sample_frame 1 MetadataDispatchRecorded [] []"
  note good = sample_move_good
  have len: "length sample_move = 5" by (simp add: sample_move_def)
  have ok: "Suc 0 \<le> length sample_move" "Suc 0 < length sample_move" by (simp_all add: len)
  have fact: "sample_move ! Suc 0 = (MetadataDispatchRecorded, [])" "sample_move ! 0 = (IntentReserved, [])" by (simp_all add: sample_move_def)
  note codec = facts_frame_codec [OF good ok(2), unfolded fact, simplified]
  have hist: "history (facts_env sample_move) (rh_frames ?h) (sample_recovery 0 (IntentReserved, []))"
    using facts_is_history [OF good _ ok(1), of "\<lambda>n. sample_frames sample_move ! unat n"] fact(2) by (simp add: case_facts_env_def case_history_def)
  have "history (facts_env sample_move) (rh_frames ?h @ [?f]) (sample_recovery 1 (MetadataDispatchRecorded, []))"
    using facts_is_history [OF good, of 2 "\<lambda>n. sample_frames sample_move ! unat n"] facts_frames_Suc [OF ok(2)] fact len
    by (simp add: case_facts_env_def case_history_def numeral_2_eq_2)
  note step = this [unfolded history_snoc [OF hist]]
  have app: "appendRecoveryTransition (facts_env sample_move) (rh_frames ?h)
      \<lparr> tr_Event = MetadataDispatchRecorded, tr_Outcome = [], tr_Metadata = [] \<rparr> = Inr ?f"
    unfolding append_Inr [OF hist] using step by (simp add: transition_of_def case_recovery_def)
  have find: "findRecoveryHistory [?h] (sample_recovery 0 (IntentReserved, [])) = Inr ?h"
    by (simp add: findRecoveryHistory_def same_identity_def case_history_def case_recovery_def)
  have "facts_records (Suc 0) @ [(frame_id ?f, [1, 1])] = facts_records 2"
    using codec facts_records_Suc [of "Suc 0"] by (simp add: sample_frame_id numeral_2_eq_2)
  with ledger_progress [OF facts_calm(1) [OF good ok(1)] _ facts_calm(2) [OF good ok(1) zero_less_Suc] find app codec(2,3)]
  show ?thesis by (auto simp: numeral_2_eq_2)
qed

end
