(* ===== verification/TrashMove.thy ===== *)
theory TrashMove
  imports TrashWrite LedgerProgress
begin

text \<open>
  \<^verbatim>\<open>src/internal/trash/move.go\<close>: one receipt-bound, no-replace move to the Trash, recorded in the
  durable ledger before and after each effect. The ledger is any implementation of the port of
  \<^verbatim>\<open>RecoveryPort\<close>, whose tickets are read through their accessors \<open>view\<close>; the content operations
  are the record the source passes as \<^verbatim>\<open>trashMoveOperations\<close>. Both act on one state of the world.
\<close>

section \<open>Requests and operations\<close>

record 'l trash_move_request =
  tmr_action :: action
  tmr_planDigest :: plan_digest
  tmr_sourceLease :: 'l
  tmr_root :: trusted_root_id
  tmr_source :: byte_path
  tmr_basename :: bytes
  tmr_precondition :: filesystem_precondition
  tmr_trashLayoutBinding :: trash_layout_binding
  tmr_deletedAt :: civil_time

type_synonym trash_move_disposition = u8

definition TrashMoveNotApplied :: trash_move_disposition where "TrashMoveNotApplied = 1"
definition TrashMoveIndeterminate :: trash_move_disposition where "TrashMoveIndeterminate = 2"
definition TrashMoveVerified :: trash_move_disposition where "TrashMoveVerified = 3"

record ('x, 'l, 'd, 'p) trash_move_operations =
  tmo_write :: "string \<Rightarrow> byte_path \<Rightarrow> civil_time \<Rightarrow> 'x \<Rightarrow> (go_error + 'p metadata_publication option) \<times> 'x"
  tmo_selectDirectories :: "'x \<Rightarrow> (go_error + 'd option) \<times> 'x"
  tmo_move :: "'l \<Rightarrow> bytes \<Rightarrow> 'd \<Rightarrow> 'p option \<Rightarrow> filesystem_precondition \<Rightarrow> 'x \<Rightarrow>
    (trash_move_disposition \<times> go_error option) \<times> 'x"
  tmo_closeDirectories :: "'d \<Rightarrow> 'x \<Rightarrow> 'x"

text \<open>\<^verbatim>\<open>errors.Join\<close> of an error that may be nil and one that is not.\<close>

definition errors_Join :: "go_error option \<Rightarrow> go_error \<Rightarrow> go_error" where
  "errors_Join e f = (case e of None \<Rightarrow> f | Some e \<Rightarrow> e @ f)"

definition sameTrashMoveTarget :: "target \<Rightarrow> target \<Rightarrow> bool" where
  "sameTrashMoveTarget left right =
     (tgt_Kind left = TargetFilesystem \<and> tgt_Kind right = TargetFilesystem \<and>
      (case (tgt_Filesystem left, tgt_Filesystem right) of
         (Some l, Some r) \<Rightarrow> ft_Root l = ft_Root r \<and> byte_path_equal (ft_Path l) (ft_Path r)
       | _ \<Rightarrow> False))"

definition sameTrashMovePrecondition :: "filesystem_precondition \<Rightarrow> filesystem_precondition \<Rightarrow> bool" where
  "sameTrashMovePrecondition left right =
     (fp_Required left = fp_Required right \<and> fp_Snapshot left = fp_Snapshot right \<and>
      sameTrashMoveTarget (fp_Target left) (fp_Target right))"

definition filesystemTrashMoveTarget :: "trusted_root_id \<Rightarrow> byte_path \<Rightarrow> target" where
  "filesystemTrashMoveTarget root path =
     (case NewFilesystemTarget root path of Inl _ \<Rightarrow> zero_target | Inr t \<Rightarrow> t)"

definition trashMovePathAndBasename :: "byte_path \<Rightarrow> go_error + byte_path \<times> bytes" where
  "trashMovePathAndBasename path =
     (let components = path_components path in
      if length components = 0 then Inl [ErrUnsupported]
      else (case byte_path_new components of
          Inl _ \<Rightarrow> Inl [ErrUnsupported]
        | Inr cloned \<Rightarrow>
          (let basename = last components in
           if basename = [] \<or> basename = bytes_of ''.'' \<or> basename = bytes_of ''..'' then Inl [ErrUnsupported]
           else if list_ex (\<lambda>v. v = 0 \<or> v = 0x2F) basename then Inl [ErrUnsupported]
           else Inr (cloned, basename))))"

section \<open>Preparing a request\<close>

definition validateTrashMoveAction ::
    "action \<Rightarrow> go_error + filesystem_precondition \<times> byte_path \<times> trusted_root_id \<times> bytes" where
  "validateTrashMoveAction a =
     (case (tgt_Filesystem (a_Target a), pc_Filesystem (a_Precondition a)) of
        (Some f, Some precondition) \<Rightarrow>
          if tgt_Kind (a_Target a) \<noteq> TargetFilesystem \<or> pc_Kind (a_Precondition a) \<noteq> PreconditionFilesystemIdentity
          then Inl [ErrUnsupported]
          else (case checks
             [marked ErrUnsupported (filesystem_precondition_validate precondition),
              check (sameTrashMoveTarget (a_Target a) (fp_Target precondition)) [ErrUnsupported],
              failed (RequiredStatMask ActionTrashPath),
              check (RequiredStatMask ActionTrashPath = Inr (fp_Required precondition)) [ErrUnsupported],
              marked ErrUnsupported (trusted_root_id_validate (ft_Root f))] of
             Some e \<Rightarrow> Inl e
           | None \<Rightarrow>
             (case trashMovePathAndBasename (ft_Path f) of
                Inl e \<Rightarrow> Inl e
              | Inr (path, basename) \<Rightarrow> Inr (precondition, path, ft_Root f, basename)))
      | _ \<Rightarrow> Inl [ErrUnsupported])"

text \<open>
  The source parent is a lease of type \<open>'l\<close> with its \<^verbatim>\<open>RootID\<close>;
  \<open>resolved\<close> is \<^verbatim>\<open>linuxfs.ValidateResolvedTarget\<close>.
\<close>

definition newTrashMoveRequest ::
    "bool \<Rightarrow> action \<Rightarrow> plan_digest \<Rightarrow> 'l option \<Rightarrow> ('l \<Rightarrow> trusted_root_id) \<Rightarrow>
     ('l \<Rightarrow> bytes \<Rightarrow> filesystem_precondition \<Rightarrow> 'x \<Rightarrow> go_error option) \<Rightarrow> 'x trash_authority option \<Rightarrow> civil_time \<Rightarrow> 'x \<Rightarrow>
     go_error + 'l trash_move_request" where
  "newTrashMoveRequest live a planDigest source sourceRoot resolved authority deletedAt x =
     (let cloned = action_clone a in
      case checks
        [writeTrashInfoContextError live,
         marked ErrUnsupported (action_validate cloned),
         check (a_Kind cloned = ActionTrashPath) [ErrUnsupported],
         marked ErrUnsupported (plan_digest_validate planDigest)] of
        Some e \<Rightarrow> Inl e
      | None \<Rightarrow>
        (case (source, authority) of
           (Some source, Some authority) \<Rightarrow>
             if validateTrashDeletionDate deletedAt \<noteq> None then Inl [ErrUnsupported]
             else (case validateTrashMoveAction cloned of
                Inl e \<Rightarrow> Inl e
              | Inr (precondition, sourcePath, root, basename) \<Rightarrow>
                if sourceRoot source \<noteq> root \<or> ta_RootID authority \<noteq> root then Inl [ErrUnsupported]
                else (case ta_MetadataReconciliationIdentity authority x of
                   Inl e \<Rightarrow> Inl (classifyTrashMetadataAuthorityFailure e)
                 | Inr binding \<Rightarrow>
                   (case checks
                      [marked ErrUnsupported (trash_layout_binding_validate binding),
                       map_option classifyTrashMetadataAuthorityFailure (failed (ta_MetadataPathFor authority sourcePath x)),
                       resolved source basename precondition x] of
                      Some e \<Rightarrow> Inl e
                    | None \<Rightarrow> Inr \<lparr> tmr_action = cloned, tmr_planDigest = planDigest, tmr_sourceLease = source,
                        tmr_root = root, tmr_source = sourcePath, tmr_basename = basename,
                        tmr_precondition = precondition, tmr_trashLayoutBinding = binding, tmr_deletedAt = deletedAt \<rparr>)))
         | _ \<Rightarrow> Inl [ErrUnsupported]))"

definition validateTrashMoveExecution :: "bool \<Rightarrow> 'l trash_move_request \<Rightarrow> go_error option" where
  "validateTrashMoveExecution live request = checks
     [writeTrashInfoContextError live,
      marked ErrUnsupported (trusted_root_id_validate (tmr_root request)),
      marked ErrUnsupported (action_id_validate (a_ID (tmr_action request))),
      marked ErrUnsupported (plan_digest_validate (tmr_planDigest request)),
      marked ErrUnsupported (trash_layout_binding_validate (tmr_trashLayoutBinding request)),
      marked ErrUnsupported (validateTrashDeletionDate (tmr_deletedAt request)),
      (case trashMovePathAndBasename (tmr_source request) of
         Inl e \<Rightarrow> Some e
       | Inr (path, basename) \<Rightarrow> checks
         [check (basename = tmr_basename request) [ErrUnsupported],
          marked ErrUnsupported (filesystem_precondition_validate (tmr_precondition request)),
          check (sameTrashMoveTarget (fp_Target (tmr_precondition request)) (filesystemTrashMoveTarget (tmr_root request) path))
            [ErrUnsupported]]),
      failed (RequiredStatMask ActionTrashPath),
      check (RequiredStatMask ActionTrashPath = Inr (fp_Required (tmr_precondition request))) [ErrUnsupported]]"

section \<open>Tickets of a move\<close>

definition validateTrashMoveTicket :: "('t \<Rightarrow> ticket_facts) \<Rightarrow> 't option \<Rightarrow> 'l trash_move_request \<Rightarrow> go_error option" where
  "validateTrashMoveTicket view ticket request =
     (case ticket of
        None \<Rightarrow> Some [ErrUnsupported]
      | Some t \<Rightarrow> (let k = view t in checks
        [marked ErrUnsupported (validateTrashToken (tk_Token k)),
         check (\<not> (tk_RootID k \<noteq> tmr_root request \<or> \<not> byte_path_equal (tk_Source k) (tmr_source request) \<or>
             tk_ActionID k \<noteq> a_ID (tmr_action request) \<or> tk_ActionKind k \<noteq> ActionTrashPath \<or>
             tk_Destination k \<noteq> DestinationTrash)) [ErrUnsupported],
         check (tk_TrashLayoutBinding k = tmr_trashLayoutBinding request) [ErrUnsupported],
         check (sameTrashMovePrecondition (tk_Precondition k) (tmr_precondition request)) [ErrUnsupported]]))"

definition requireTrashMoveTicketEvent ::
    "('t \<Rightarrow> ticket_facts) \<Rightarrow> 't option \<Rightarrow> 'l trash_move_request \<Rightarrow> port_event \<Rightarrow> go_error option" where
  "requireTrashMoveTicketEvent view ticket request event =
     (case validateTrashMoveTicket view ticket request of
        Some e \<Rightarrow> Some e
      | None \<Rightarrow>
        (let k = view (the ticket) in checks
          [check (tk_Event k = event) [ErrUnsupported],
           check (\<not> tk_Closed k) [ErrUnsupported],
           check (\<not> (event \<noteq> EventReconciliationResolved \<and> (tk_Outcome k \<noteq> [] \<or> tk_MetadataDisposition k \<noteq> [])))
             [ErrUnsupported]]))"

definition to_event :: "port_event \<Rightarrow> port_transition" where
  "to_event e = \<lparr> pt_Event = e, pt_ReconciliationOutcome = [], pt_MetadataDisposition = [] \<rparr>"

definition transitionTrashMoveTicket ::
    "('t, 'x) ledger_port \<Rightarrow> ('t \<Rightarrow> ticket_facts) \<Rightarrow> 't option \<Rightarrow> 'l trash_move_request \<Rightarrow> port_transition \<Rightarrow> 'x \<Rightarrow>
     ('t option \<times> go_error option) \<times> 'x" where
  "transitionTrashMoveTicket ledger view ticket request transition x =
     (case lp_Transition ledger ticket transition x of
        ((Some updated, err), x') \<Rightarrow>
          (if (case ticket of None \<Rightarrow> True | Some t \<Rightarrow> tk_Token (view updated) \<noteq> tk_Token (view t))
           then (ticket, Some (errors_Join err [ErrUnsupported]))
           else case validateTrashMoveTicket view (Some updated) request of
             Some validationErr \<Rightarrow> (Some updated, Some (errors_Join err validationErr))
           | None \<Rightarrow>
             if tk_Event (view updated) \<noteq> pt_Event transition
             then (Some updated, Some (errors_Join err [ErrUnsupported]))
             else (Some updated, err),
           x')
      | ((None, Some err), x') \<Rightarrow> ((ticket, Some err), x')
      | ((None, None), x') \<Rightarrow> ((None, Some [ErrInterrupted]), x'))"

section \<open>The move\<close>

text \<open>A transition recorded for a cause that is reported in any case.\<close>

definition record_cause ::
    "('t, 'x) ledger_port \<Rightarrow> ('t \<Rightarrow> ticket_facts) \<Rightarrow> 't option \<Rightarrow> 'l trash_move_request \<Rightarrow> port_transition \<Rightarrow> go_error \<Rightarrow> 'x \<Rightarrow>
     ('t option \<times> go_error option) \<times> 'x" where
  "record_cause ledger view ticket request transition cause x =
     (case transitionTrashMoveTicket ledger view ticket request transition x of
        ((updated, transitionErr), x') \<Rightarrow>
          ((updated, Some (case transitionErr of None \<Rightarrow> cause | Some e \<Rightarrow> cause @ e)), x'))"

definition recordTrashMetadataIndeterminate ::
    "('t, 'x) ledger_port \<Rightarrow> ('t \<Rightarrow> ticket_facts) \<Rightarrow> 't option \<Rightarrow> 'l trash_move_request \<Rightarrow> go_error \<Rightarrow> 'x \<Rightarrow>
     ('t option \<times> go_error option) \<times> 'x" where
  "recordTrashMetadataIndeterminate ledger view ticket request =
     record_cause ledger view ticket request (to_event EventMetadataIndeterminate)"

definition reconcileTrashMetadataRetained ::
    "('t, 'x) ledger_port \<Rightarrow> ('t \<Rightarrow> ticket_facts) \<Rightarrow> 't option \<Rightarrow> 'l trash_move_request \<Rightarrow> go_error \<Rightarrow> 'x \<Rightarrow>
     ('t option \<times> go_error option) \<times> 'x" where
  "reconcileTrashMetadataRetained ledger view ticket request =
     record_cause ledger view ticket request
       \<lparr> pt_Event = EventReconciliationResolved, pt_ReconciliationOutcome = PortOutcomeNotApplied,
         pt_MetadataDisposition = PortMetadataRetained \<rparr>"

definition recordTrashMoveIndeterminate ::
    "('t, 'x) ledger_port \<Rightarrow> ('t \<Rightarrow> ticket_facts) \<Rightarrow> 't option \<Rightarrow> 'l trash_move_request \<Rightarrow> go_error \<Rightarrow> 'x \<Rightarrow>
     ('t option \<times> go_error option) \<times> 'x" where
  "recordTrashMoveIndeterminate ledger view ticket request =
     record_cause ledger view ticket request (to_event EventMoveIndeterminate)"

definition validateTrashMetadataPublication ::
    "('t \<Rightarrow> ticket_facts) \<Rightarrow> 'p metadata_publication option \<Rightarrow> 'l trash_move_request \<Rightarrow> 't option \<Rightarrow> go_error option" where
  "validateTrashMetadataPublication view publication request ticket = checks
     [check (case publication of None \<Rightarrow> False | Some p \<Rightarrow> mpub_publication p \<noteq> None) [ErrInterrupted],
      check (\<not> (publication_RootID publication \<noteq> tmr_root request \<or>
        publication_Token publication \<noteq> tk_Token (view (the ticket)))) [ErrDrifted]]"

text \<open>The \<^verbatim>\<open>switch\<close> on the disposition of the move.\<close>

definition conclude_move ::
    "('t, 'x) ledger_port \<Rightarrow> ('t \<Rightarrow> ticket_facts) \<Rightarrow> 't option \<Rightarrow> 'l trash_move_request \<Rightarrow>
     trash_move_disposition \<Rightarrow> go_error option \<Rightarrow> 'x \<Rightarrow> ('t option \<times> go_error option) \<times> 'x" where
  "conclude_move ledger view ticket request disposition moveErr x =
     (if disposition = TrashMoveVerified then
        (case moveErr of
           Some e \<Rightarrow> recordTrashMoveIndeterminate ledger view ticket request e x
         | None \<Rightarrow> transitionTrashMoveTicket ledger view ticket request (to_event EventMoveVerified) x)
      else if disposition = TrashMoveIndeterminate then
        recordTrashMoveIndeterminate ledger view ticket request (case moveErr of None \<Rightarrow> [ErrInterrupted] | Some e \<Rightarrow> e) x
      else if disposition = TrashMoveNotApplied then
        (let cause = (case moveErr of None \<Rightarrow> [ErrDrifted] | Some e \<Rightarrow> e) in
         case transitionTrashMoveTicket ledger view ticket request (to_event EventMoveIndeterminate) x of
           ((indeterminate, Some e), x') \<Rightarrow> ((indeterminate, Some (cause @ e)), x')
         | ((indeterminate, None), x') \<Rightarrow>
           (case transitionTrashMoveTicket ledger view indeterminate request
               \<lparr> pt_Event = EventReconciliationResolved, pt_ReconciliationOutcome = PortOutcomeNotApplied,
                 pt_MetadataDisposition = [] \<rparr> x' of
              ((reconciled, Some e), x'') \<Rightarrow> ((reconciled, Some (cause @ e)), x'')
            | ((reconciled, None), x'') \<Rightarrow> ((reconciled, Some cause), x'')))
      else recordTrashMoveIndeterminate ledger view ticket request [ErrInterrupted] x)"

text \<open>With the directories open: record the dispatch, move, conclude.\<close>

definition dispatch_move ::
    "('t, 'x) ledger_port \<Rightarrow> ('t \<Rightarrow> ticket_facts) \<Rightarrow> ('x, 'l, 'd, 'p) trash_move_operations \<Rightarrow> 't option \<Rightarrow>
     'l trash_move_request \<Rightarrow> 'p option \<Rightarrow> 'd \<Rightarrow> 'x \<Rightarrow> ('t option \<times> go_error option) \<times> 'x" where
  "dispatch_move ledger view ops ticket request publication directories x =
     (case transitionTrashMoveTicket ledger view ticket request (to_event EventMoveDispatchRecorded) x of
        ((ticket', Some e), x') \<Rightarrow> ((ticket', Some e), x')
      | ((ticket', None), x') \<Rightarrow>
        (case tmo_move ops (tmr_sourceLease request) (tmr_basename request) directories publication
            (tmr_precondition request) x' of
           ((disposition, moveErr), x'') \<Rightarrow> conclude_move ledger view ticket' request disposition moveErr x''))"

text \<open>With a receipt of the published metadata: record it, open the directories, dispatch, close.\<close>

definition select_and_move ::
    "('t, 'x) ledger_port \<Rightarrow> ('t \<Rightarrow> ticket_facts) \<Rightarrow> ('x, 'l, 'd, 'p) trash_move_operations \<Rightarrow> 't option \<Rightarrow>
     'l trash_move_request \<Rightarrow> 'p option \<Rightarrow> 'x \<Rightarrow> ('t option \<times> go_error option) \<times> 'x" where
  "select_and_move ledger view ops ticket request publication x =
     (case transitionTrashMoveTicket ledger view ticket request (to_event EventMetadataVerified) x of
        ((ticket', Some e), x') \<Rightarrow> ((ticket', Some e), x')
      | ((ticket', None), x') \<Rightarrow>
        (case tmo_selectDirectories ops x' of
           (Inl selectErr, x'') \<Rightarrow> reconcileTrashMetadataRetained ledger view ticket' request selectErr x''
         | (Inr None, x'') \<Rightarrow> reconcileTrashMetadataRetained ledger view ticket' request [ErrUnsupported] x''
         | (Inr (Some directories), x'') \<Rightarrow>
           (case dispatch_move ledger view ops ticket' request publication directories x'' of
              (result, x3) \<Rightarrow> (result, tmo_closeDirectories ops directories x3))))"

text \<open>With the metadata dispatch recorded: write the metadata.\<close>

definition write_and_move ::
    "('t, 'x) ledger_port \<Rightarrow> ('t \<Rightarrow> ticket_facts) \<Rightarrow> ('x, 'l, 'd, 'p) trash_move_operations \<Rightarrow> 't option \<Rightarrow>
     'l trash_move_request \<Rightarrow> 'x \<Rightarrow> ('t option \<times> go_error option) \<times> 'x" where
  "write_and_move ledger view ops ticket request x =
     (case tmo_write ops (tk_Token (view (the ticket))) (tmr_source request) (tmr_deletedAt request) x of
        (Inl writeErr, x') \<Rightarrow> recordTrashMetadataIndeterminate ledger view ticket request writeErr x'
      | (Inr publication, x') \<Rightarrow>
        (case validateTrashMetadataPublication view publication request ticket of
           Some e \<Rightarrow> recordTrashMetadataIndeterminate ledger view ticket request e x'
         | None \<Rightarrow> select_and_move ledger view ops ticket request (mpub_publication (the publication)) x'))"

definition moveToTrashWith ::
    "bool \<Rightarrow> ('t, 'x) ledger_port \<Rightarrow> ('t \<Rightarrow> ticket_facts) \<Rightarrow> 'l trash_move_request \<Rightarrow>
     ('x, 'l, 'd, 'p) trash_move_operations \<Rightarrow> 'x \<Rightarrow> ('t option \<times> go_error option) \<times> 'x" where
  "moveToTrashWith live ledger view request ops x =
     (case validateTrashMoveExecution live request of
        Some e \<Rightarrow> ((None, Some e), x)
      | None \<Rightarrow>
        (case lp_Reserve ledger (tmr_action request) (tmr_planDigest request) (tmr_trashLayoutBinding request) x of
           ((None, Some err), x1) \<Rightarrow> ((None, Some err), x1)
         | ((Some t, Some err), x1) \<Rightarrow>
             ((Some t, Some (case validateTrashMoveTicket view (Some t) request of None \<Rightarrow> err | Some v \<Rightarrow> err @ v)), x1)
         | ((ticket, None), x1) \<Rightarrow>
           (case requireTrashMoveTicketEvent view ticket request EventIntentReserved of
              Some e \<Rightarrow> ((ticket, Some e), x1)
            | None \<Rightarrow>
              (case transitionTrashMoveTicket ledger view ticket request (to_event EventMetadataDispatchRecorded) x1 of
                 ((ticket', Some e), x2) \<Rightarrow> ((ticket', Some e), x2)
               | ((ticket', None), x2) \<Rightarrow> write_and_move ledger view ops ticket' request x2))))"

text \<open>\<^verbatim>\<open>productionTrashMoveOperations\<close> over the operations of the filesystem layer.\<close>

definition productionTrashMoveOperations ::
    "bool \<Rightarrow> 'x trash_authority \<Rightarrow> ('x, 'd, 'p) publication_operations \<Rightarrow>
     ('l \<Rightarrow> bytes \<Rightarrow> 'd \<Rightarrow> 'p option \<Rightarrow> filesystem_precondition \<Rightarrow> 'x \<Rightarrow> (trash_move_disposition \<times> go_error option) \<times> 'x) \<Rightarrow>
     ('x, 'l, 'd, 'p) trash_move_operations" where
  "productionTrashMoveOperations live authority publication move =
     \<lparr> tmo_write = (\<lambda>token source deletedAt x.
         case writeTrashInfoDurableWith live authority token source deletedAt publication x of
           (Inl e, x') \<Rightarrow> (Inl e, x') | (Inr p, x') \<Rightarrow> (Inr (Some p), x')),
       tmo_selectDirectories = po_openDirectories publication,
       tmo_move = move,
       tmo_closeDirectories = po_close publication \<rparr>"

definition MoveToTrash ::
    "bool \<Rightarrow> ('t, 'x) ledger_port \<Rightarrow> ('t \<Rightarrow> ticket_facts) \<Rightarrow> action \<Rightarrow> plan_digest \<Rightarrow> 'l option \<Rightarrow> ('l \<Rightarrow> trusted_root_id) \<Rightarrow>
     ('l \<Rightarrow> bytes \<Rightarrow> filesystem_precondition \<Rightarrow> 'x \<Rightarrow> go_error option) \<Rightarrow> 'x trash_authority option \<Rightarrow> civil_time \<Rightarrow>
     ('x, 'd, 'p) publication_operations \<Rightarrow>
     ('l \<Rightarrow> bytes \<Rightarrow> 'd \<Rightarrow> 'p option \<Rightarrow> filesystem_precondition \<Rightarrow> 'x \<Rightarrow> (trash_move_disposition \<times> go_error option) \<times> 'x) \<Rightarrow>
     'x \<Rightarrow> ('t option \<times> go_error option) \<times> 'x" where
  "MoveToTrash live ledger view a planDigest source sourceRoot resolved authority deletedAt publication move x =
     (case newTrashMoveRequest live a planDigest source sourceRoot resolved authority deletedAt x of
        Inl e \<Rightarrow> ((None, Some e), x)
      | Inr request \<Rightarrow>
        moveToTrashWith live ledger view request (productionTrashMoveOperations live (the authority) publication move) x)"

section \<open>What a move does with a durable ledger\<close>

text \<open>The content operations leave the ledger alone.\<close>

definition ops_keep :: "('x \<Rightarrow> 'x \<Rightarrow> bool) \<Rightarrow> ('x, 'l, 'd, 'p) trash_move_operations \<Rightarrow> bool" where
  "ops_keep same ops \<longleftrightarrow>
     (\<forall>token source date x. same x (snd (tmo_write ops token source date x))) \<and>
     (\<forall>x. same x (snd (tmo_selectDirectories ops x))) \<and>
     (\<forall>l b d p q x. same x (snd (tmo_move ops l b d p q x))) \<and>
     (\<forall>d x. same x (tmo_closeDirectories ops d x))"

text \<open>A ticket of this request with exactly these durable events.\<close>

definition dispatched ::
    "('x \<Rightarrow> 't \<Rightarrow> port_event list \<Rightarrow> bool) \<Rightarrow> ('t \<Rightarrow> ticket_facts) \<Rightarrow> 'l trash_move_request \<Rightarrow> port_event list \<Rightarrow> 'x \<Rightarrow> 't \<Rightarrow> bool"
  where
  "dispatched durable view request es x k \<longleftrightarrow> durable x k es \<and> validateTrashMoveTicket view (Some k) request = None"

text \<open>
  The move of a request was dispatched durably with the token and came back verified, and in \<open>x'\<close> its
  ticket \<open>t\<close> has the complete forward history.
\<close>

definition moved_under where
  "moved_under durable view ops request publication token t x' \<longleftrightarrow>
     (\<exists>k k1 d x1 x2. dispatched durable view request (dispatch_events True) x1 k1 \<and> tk_Token (view k1) = token \<and>
        tmo_move ops (tmr_sourceLease request) (tmr_basename request) d publication (tmr_precondition request) x1 =
          ((TrashMoveVerified, None), x2) \<and>
        t = Some k \<and> tk_Token (view k) = token \<and>
        dispatched durable view request (dispatch_events True @ [EventMoveVerified]) x' k)"

text \<open>Before that, the metadata was written under the token of a durable dispatch, and its receipt binds root and token.\<close>

definition published_and_moved where
  "published_and_moved durable view ops request t x' \<longleftrightarrow>
     (\<exists>k0 r x0 x1. dispatched durable view request [EventIntentReserved, EventMetadataDispatchRecorded] x0 k0 \<and>
        tmo_write ops (tk_Token (view k0)) (tmr_source request) (tmr_deletedAt request) x0 =
          (Inr (Some \<lparr> mpub_rootID = tmr_root request, mpub_token = tk_Token (view k0), mpub_publication = Some r \<rparr>), x1) \<and>
        moved_under durable view ops request (Some r) (tk_Token (view k0)) t x')"

text \<open>
  Two sets of content operations that agree where the ledger already holds the dispatch: the write of
  the metadata under a dispatched token, the move under a dispatched move.
\<close>

definition agree_when_dispatched ::
    "('x \<Rightarrow> 't \<Rightarrow> port_event list \<Rightarrow> bool) \<Rightarrow> ('t \<Rightarrow> ticket_facts) \<Rightarrow> 'l trash_move_request \<Rightarrow>
     ('x, 'l, 'd, 'p) trash_move_operations \<Rightarrow> ('x, 'l, 'd, 'p) trash_move_operations \<Rightarrow> bool" where
  "agree_when_dispatched durable view request ops ops' \<longleftrightarrow>
     (\<forall>x k. dispatched durable view request [EventIntentReserved, EventMetadataDispatchRecorded] x k \<longrightarrow>
        tmo_write ops (tk_Token (view k)) (tmr_source request) (tmr_deletedAt request) x =
        tmo_write ops' (tk_Token (view k)) (tmr_source request) (tmr_deletedAt request) x) \<and>
     (\<forall>x k d p. dispatched durable view request (dispatch_events True) x k \<longrightarrow>
        tmo_move ops (tmr_sourceLease request) (tmr_basename request) d p (tmr_precondition request) x =
        tmo_move ops' (tmr_sourceLease request) (tmr_basename request) d p (tmr_precondition request) x) \<and>
     tmo_selectDirectories ops = tmo_selectDirectories ops' \<and> tmo_closeDirectories ops = tmo_closeDirectories ops'"

lemma valid_ticket_destination:
  "validateTrashMoveTicket view (Some k) request = None \<Longrightarrow> tk_Destination (view k) = DestinationTrash"
  by (simp add: validateTrashMoveTicket_def Let_def checks_Cons)

lemma to_event_simps [simp]:
  "pt_Event (to_event e) = e" "pt_ReconciliationOutcome (to_event e) = []" "pt_MetadataDisposition (to_event e) = []"
  by (simp_all add: to_event_def)

lemma forward_port_events:
  "is_forward EventIntentReserved" "is_forward EventMetadataDispatchRecorded" "is_forward EventMetadataVerified"
  "is_forward EventMoveDispatchRecorded" "is_forward EventMoveVerified" "is_forward EventMetadataIndeterminate"
  "is_forward EventMoveIndeterminate"
  by (simp_all add: is_forward_def same_vocabulary)

lemma forward_port_simps:
  "forward_events trash EventIntentReserved = [EventIntentReserved]"
  "forward_events trash EventMetadataDispatchRecorded = [EventIntentReserved, EventMetadataDispatchRecorded]"
  "forward_events trash EventMetadataVerified = [EventIntentReserved, EventMetadataDispatchRecorded, EventMetadataVerified]"
  "forward_events trash EventMoveDispatchRecorded = dispatch_events trash"
  "forward_events trash EventMoveVerified = dispatch_events trash @ [EventMoveVerified]"
  "forward_events trash EventMoveIndeterminate = dispatch_events trash @ [EventMoveIndeterminate]"
  by (simp_all add: same_vocabulary forward_simps)

context durable_ledger begin

lemma transition_ticket:
  assumes "invar x" "transitionTrashMoveTicket port view ticket request tr x = ((t, err), x')"
  shows "invar x' \<and> (err = None \<longrightarrow> (\<exists>k es k0. t = Some k \<and> dispatched durable view request es x' k \<and> tk_Event (view k) = pt_Event tr \<and>
      ticket = Some k0 \<and> tk_Token (view k) = tk_Token (view k0)))"
proof -
  obtain out e y where run: "lp_Transition port ticket tr x = ((out, e), y)" by (metis prod.exhaust)
  from assms(2) have y: "x' = y" using run
    by (auto simp: transitionTrashMoveTicket_def split: option.splits if_splits prod.splits)
  have "\<exists>k es k0. t = Some k \<and> dispatched durable view request es x' k \<and> tk_Event (view k) = pt_Event tr \<and>
      ticket = Some k0 \<and> tk_Token (view k) = tk_Token (view k0)" if "err = None"
  proof -
    from assms(2) run that obtain k k0 where k: "out = Some k" "e = None" "t = Some k"
      "validateTrashMoveTicket view (Some k) request = None" "tk_Event (view k) = pt_Event tr"
      "ticket = Some k0" "tk_Token (view k) = tk_Token (view k0)"
      by (auto simp: transitionTrashMoveTicket_def errors_Join_def split: option.splits if_splits prod.splits)
    with advanced [OF assms(1) run] y show ?thesis by (auto simp: dispatched_def)
  qed
  with advanced [OF assms(1) run] y show ?thesis by blast
qed

lemma transition_forward:
  assumes "invar x" "transitionTrashMoveTicket port view ticket request (to_event e) x = ((t, None), x')" "is_forward e"
  obtains k k0 where "t = Some k" "dispatched durable view request (forward_events True e) x' k" "invar x'"
    "ticket = Some k0" "tk_Token (view k) = tk_Token (view k0)"
proof -
  from transition_ticket [OF assms(1,2)] obtain k es k0 where
    k: "t = Some k" "dispatched durable view request es x' k" "tk_Event (view k) = e" "invar x'"
    "ticket = Some k0" "tk_Token (view k) = tk_Token (view k0)" by auto
  then have "es = forward_events True e"
    using forward [of x' k es] valid_ticket_destination [of view k request] assms(3) by (simp add: dispatched_def)
  with k that show thesis by blast
qed

lemma record_cause_fails:
  assumes "invar x" "record_cause port view ticket request tr cause x = ((t, err), x')"
  shows "err \<noteq> None \<and> invar x'"
proof -
  obtain t1 e1 x1 where run: "transitionTrashMoveTicket port view ticket request tr x = ((t1, e1), x1)" by (metis prod.exhaust)
  with assms(2) transition_ticket [OF assms(1) run] show ?thesis by (auto simp: record_cause_def)
qed

lemma records_fail:
  assumes "invar x"
  shows "recordTrashMetadataIndeterminate port view ticket request cause x = ((t, err), x') \<Longrightarrow> err \<noteq> None \<and> invar x'"
    "reconcileTrashMetadataRetained port view ticket request cause x = ((t, err), x') \<Longrightarrow> err \<noteq> None \<and> invar x'"
    "recordTrashMoveIndeterminate port view ticket request cause x = ((t, err), x') \<Longrightarrow> err \<noteq> None \<and> invar x'"
  unfolding recordTrashMetadataIndeterminate_def reconcileTrashMetadataRetained_def recordTrashMoveIndeterminate_def
  using record_cause_fails [OF assms] by blast+

lemma no_record_success:
  assumes "invar x"
  shows "recordTrashMetadataIndeterminate port view ticket request cause x \<noteq> ((t, None), x')"
    "reconcileTrashMetadataRetained port view ticket request cause x \<noteq> ((t, None), x')"
    "recordTrashMoveIndeterminate port view ticket request cause x \<noteq> ((t, None), x')"
  using records_fail [OF assms] by blast+

lemma conclude_success:
  assumes "invar x" "conclude_move port view (Some k0) request disposition moveErr x = ((t, None), x')"
  obtains k where "disposition = TrashMoveVerified" "moveErr = None" "t = Some k" "tk_Token (view k) = tk_Token (view k0)"
    "dispatched durable view request (dispatch_events True @ [EventMoveVerified]) x' k" "invar x'"
proof -
  have "disposition = TrashMoveVerified \<and> moveErr = None"
    using assms(2) by (auto simp: conclude_move_def Let_def no_record_success [OF assms(1)] split: if_splits option.splits prod.splits)
  moreover from this assms(2) have "transitionTrashMoveTicket port view (Some k0) request (to_event EventMoveVerified) x = ((t, None), x')"
    by (simp add: conclude_move_def)
  from transition_forward [OF assms(1) this forward_port_events(5), unfolded forward_port_simps]
  obtain k where "t = Some k" "dispatched durable view request (dispatch_events True @ [EventMoveVerified]) x' k" "invar x'"
    "tk_Token (view k) = tk_Token (view k0)" by (metis option.inject)
  ultimately show thesis using that by blast
qed

lemma dispatch_success:
  assumes "invar x" "ops_keep same ops"
    and "dispatch_move port view ops (Some k0) request publication directories x = ((t, None), x')"
  shows "moved_under durable view ops request publication (tk_Token (view k0)) t x' \<and> invar x'"
proof -
  obtain t1 e1 x1 where run: "transitionTrashMoveTicket port view (Some k0) request (to_event EventMoveDispatchRecorded) x = ((t1, e1), x1)"
    by (metis prod.exhaust)
  with assms(3) have e1: "e1 = None" by (auto simp: dispatch_move_def split: option.splits)
  from transition_forward [OF assms(1) run [unfolded e1] forward_port_events(4), unfolded forward_port_simps] obtain k1 where
    k1: "t1 = Some k1" "dispatched durable view request (dispatch_events True) x1 k1" "invar x1" "tk_Token (view k1) = tk_Token (view k0)"
    by (metis option.inject)
  let ?move = "tmo_move ops (tmr_sourceLease request) (tmr_basename request) directories publication (tmr_precondition request) x1"
  obtain disposition moveErr x2 where move: "?move = ((disposition, moveErr), x2)" by (metis prod.exhaust)
  have "same x1 (snd ?move)" using assms(2) unfolding ops_keep_def by blast
  then have "invar x2" using move k1(3) unaffected by simp
  moreover have "conclude_move port view (Some k1) request disposition moveErr x2 = ((t, None), x')"
    using assms(3) run e1 move k1(1) by (simp add: dispatch_move_def)
  ultimately obtain k where "disposition = TrashMoveVerified" "moveErr = None" "t = Some k" "tk_Token (view k) = tk_Token (view k1)"
    "dispatched durable view request (dispatch_events True @ [EventMoveVerified]) x' k" "invar x'"
    by (rule conclude_success)
  with k1 move show ?thesis unfolding moved_under_def by metis
qed

lemma select_success:
  assumes "invar x" "ops_keep same ops" "select_and_move port view ops (Some k0) request publication x = ((t, None), x')"
  shows "moved_under durable view ops request publication (tk_Token (view k0)) t x' \<and> invar x'"
proof -
  obtain t1 e1 x1 where run: "transitionTrashMoveTicket port view (Some k0) request (to_event EventMetadataVerified) x = ((t1, e1), x1)"
    by (metis prod.exhaust)
  with assms(3) have e1: "e1 = None" by (auto simp: select_and_move_def split: option.splits)
  from transition_forward [OF assms(1) run [unfolded e1] forward_port_events(3)] obtain k1 where
    k1: "t1 = Some k1" "invar x1" "tk_Token (view k1) = tk_Token (view k0)" by (metis option.inject)
  obtain selected x2 where sel: "tmo_selectDirectories ops x1 = (selected, x2)" by (metis prod.exhaust)
  have "same x1 (snd (tmo_selectDirectories ops x1))" using assms(2) unfolding ops_keep_def by blast
  then have x2: "invar x2" using sel k1(2) unaffected by simp
  from assms(3) run e1 sel obtain directories where directories: "selected = Inr (Some directories)"
    by (auto simp: select_and_move_def no_record_success [OF x2] split: sum.splits option.splits)
  obtain result x3 where inner: "dispatch_move port view ops t1 request publication directories x2 = (result, x3)"
    by (metis prod.exhaust)
  then have fin: "result = (t, None)" "x' = tmo_closeDirectories ops directories x3"
    using assms(3) run e1 sel directories by (auto simp: select_and_move_def)
  have "same x3 x'" unfolding fin using assms(2) unfolding ops_keep_def by blast
  then have keep: "invar x3 \<Longrightarrow> invar x'" "\<And>k es. durable x3 k es \<Longrightarrow> durable x' k es" using unaffected by blast+
  have "moved_under durable view ops request publication (tk_Token (view k1)) t x3 \<and> invar x3"
    by (rule dispatch_success [OF x2 assms(2)]) (use inner fin(1) k1(1) in simp)
  with keep k1(3) show ?thesis unfolding moved_under_def dispatched_def by metis
qed

lemma write_success:
  assumes "invar x" "ops_keep same ops" "write_and_move port view ops (Some k0) request x = ((t, None), x')"
  obtains p r x1 where
    "tmo_write ops (tk_Token (view k0)) (tmr_source request) (tmr_deletedAt request) x = (Inr (Some p), x1)"
    "p = \<lparr> mpub_rootID = tmr_root request, mpub_token = tk_Token (view k0), mpub_publication = Some r \<rparr>"
    "moved_under durable view ops request (Some r) (tk_Token (view k0)) t x'" "invar x'"
proof -
  let ?wr = "tmo_write ops (tk_Token (view k0)) (tmr_source request) (tmr_deletedAt request) x"
  obtain result x1 where wrote: "?wr = (result, x1)" by (metis prod.exhaust)
  have "same x (snd ?wr)" using assms(2) unfolding ops_keep_def by blast
  then have x1: "invar x1" using wrote assms(1) unaffected by simp
  from assms(3) wrote obtain p where p: "result = Inr p"
    "validateTrashMetadataPublication view p request (Some k0) = None"
    "select_and_move port view ops (Some k0) request (mpub_publication (the p)) x1 = ((t, None), x')"
    by (auto simp: write_and_move_def no_record_success [OF x1] split: sum.splits option.splits)
  from p(2) obtain q r where q: "p = Some q" "mpub_publication q = Some r" "mpub_rootID q = tmr_root request"
    "mpub_token q = tk_Token (view k0)"
    by (auto simp: validateTrashMetadataPublication_def checks_Cons publication_RootID_def publication_Token_def
        split: option.splits)
  with select_success [OF x1 assms(2) p(3)] that [of q x1 r] wrote p(1) show thesis by simp
qed

text \<open>Where a reservation leads.\<close>

lemma reservation_cases:
  fixes ops :: "('w, 'l, 'd, 'p) trash_move_operations"
  assumes "invar x" "validateTrashMoveExecution live request = None"
  obtains
    e x1 ticket where "moveToTrashWith live port view request ops x = ((ticket, Some e), x1)" "invar x1"
      "\<And>ops' :: ('w, 'l, 'd, 'p) trash_move_operations.
         moveToTrashWith live port view request ops' x = moveToTrashWith live port view request ops x"
  | k x2 where "dispatched durable view request [EventIntentReserved, EventMetadataDispatchRecorded] x2 k" "invar x2"
      "\<And>ops' :: ('w, 'l, 'd, 'p) trash_move_operations.
         moveToTrashWith live port view request ops' x = write_and_move port view ops' (Some k) request x2"
proof -
  let ?reserve = "lp_Reserve port (tmr_action request) (tmr_planDigest request) (tmr_trashLayoutBinding request) x"
  obtain t err x1 where run: "?reserve = ((t, err), x1)" by (metis prod.exhaust)
  from reserved [OF assms(1) run] have x1: "invar x1" by blast
  show thesis
  proof (cases err)
    case (Some e)
    with run x1 that(1) assms(2) show thesis by (cases t) (auto simp: moveToTrashWith_def)
  next
    case None
    show thesis
    proof (cases "requireTrashMoveTicketEvent view t request EventIntentReserved")
      case (Some e)
      with run x1 that(1) None assms(2) show thesis by (cases t) (auto simp: moveToTrashWith_def)
    next
      case fit: None
      obtain t2 e2 x2 where run2: "transitionTrashMoveTicket port view t request (to_event EventMetadataDispatchRecorded) x1 = ((t2, e2), x2)"
        by (metis prod.exhaust)
      have move: "moveToTrashWith live port view request ops' x =
          (case e2 of Some e \<Rightarrow> ((t2, Some e), x2) | None \<Rightarrow> write_and_move port view ops' t2 request x2)"
        for ops' :: "('w, 'l, 'd, 'p) trash_move_operations"
        using run run2 None fit assms(2) by (cases t; cases e2) (simp_all add: moveToTrashWith_def)
      show thesis
      proof (cases e2)
        case None
        from transition_forward [OF x1 run2 [unfolded None] forward_port_events(2), unfolded forward_port_simps] obtain k where
          "t2 = Some k" "dispatched durable view request [EventIntentReserved, EventMetadataDispatchRecorded] x2 k" "invar x2" by metis
        with move None that(2) show thesis by simp
      next
        case (Some e)
        with transition_ticket [OF x1 run2] move that(1) show thesis by simp
      qed
    qed
  qed
qed

lemma move_success:
  assumes "invar x" "ops_keep same ops" "moveToTrashWith live port view request ops x = ((t, None), x')"
  shows "published_and_moved durable view ops request t x' \<and> invar x'"
proof -
  have "validateTrashMoveExecution live request = None"
    using assms(3) by (auto simp: moveToTrashWith_def split: option.splits)
  with assms(1) show ?thesis
  proof (cases rule: reservation_cases [where ops = ops])
    case (1 e x1 ticket)
    with assms(3) show ?thesis by simp
  next
    case (2 k x2)
    with assms(3) have "write_and_move port view ops (Some k) request x2 = ((t, None), x')" by simp
    from write_success [OF 2(2) assms(2) this] 2(1) show ?thesis unfolding published_and_moved_def by metis
  qed
qed

lemma move_write_ahead:
  assumes "invar x" "ops_keep same ops" "agree_when_dispatched durable view request ops ops'"
  shows "moveToTrashWith live port view request ops x = moveToTrashWith live port view request ops' x"
proof (cases "validateTrashMoveExecution live request")
  case None
  have selects: "tmo_selectDirectories ops' = tmo_selectDirectories ops" "tmo_closeDirectories ops' = tmo_closeDirectories ops"
    using assms(3) unfolding agree_when_dispatched_def by simp_all
  have dispatch: "dispatch_move port view ops ticket request publication directories y =
      dispatch_move port view ops' ticket request publication directories y" if "invar y" for ticket publication directories y
  proof -
    obtain t1 e1 y1 where run: "transitionTrashMoveTicket port view ticket request (to_event EventMoveDispatchRecorded) y = ((t1, e1), y1)"
      by (metis prod.exhaust)
    show ?thesis
    proof (cases e1)
      case None
      from transition_forward [OF that run [unfolded None] forward_port_events(4), unfolded forward_port_simps] obtain k1 where
        "dispatched durable view request (dispatch_events True) y1 k1" by metis
      with assms(3) have "tmo_move ops (tmr_sourceLease request) (tmr_basename request) directories publication (tmr_precondition request) y1 =
          tmo_move ops' (tmr_sourceLease request) (tmr_basename request) directories publication (tmr_precondition request) y1"
        unfolding agree_when_dispatched_def by blast
      with run None show ?thesis by (simp add: dispatch_move_def)
    qed (simp add: dispatch_move_def run)
  qed
  have select: "select_and_move port view ops ticket request publication y = select_and_move port view ops' ticket request publication y"
    if "invar y" for ticket publication y
  proof -
    obtain t1 e1 y1 where run: "transitionTrashMoveTicket port view ticket request (to_event EventMetadataVerified) y = ((t1, e1), y1)"
      by (metis prod.exhaust)
    then have "invar y1" using transition_ticket [OF that run] by blast
    moreover have "same y1 (snd (tmo_selectDirectories ops y1))" using assms(2) unfolding ops_keep_def by blast
    ultimately have "invar (snd (tmo_selectDirectories ops y1))" using unaffected by blast
    then have "dispatch_move port view ops t1 request publication d (snd (tmo_selectDirectories ops y1)) =
        dispatch_move port view ops' t1 request publication d (snd (tmo_selectDirectories ops y1))" for d
      by (rule dispatch)
    then show ?thesis unfolding select_and_move_def run selects
      by (auto split: option.splits sum.splits prod.splits)
  qed
  from assms(1) None show ?thesis
  proof (cases rule: reservation_cases [where ops = ops])
    case (1 e x1 ticket)
    then show ?thesis by metis
  next
    case (2 k x2)
    let ?wr = "\<lambda>ops. tmo_write ops (tk_Token (view k)) (tmr_source request) (tmr_deletedAt request) x2"
    have writes: "?wr ops' = ?wr ops" using assms(3) 2(1) unfolding agree_when_dispatched_def by metis
    have "same x2 (snd (?wr ops))" using assms(2) unfolding ops_keep_def by blast
    then have "invar (snd (?wr ops))" using 2(2) unaffected by blast
    then have "select_and_move port view ops ticket request publication (snd (?wr ops)) =
        select_and_move port view ops' ticket request publication (snd (?wr ops))" for ticket publication
      by (rule select)
    then have "write_and_move port view ops (Some k) request x2 = write_and_move port view ops' (Some k) request x2"
      unfolding write_and_move_def option.sel writes by (auto split: option.splits sum.splits prod.splits)
    with 2(3) show ?thesis by simp
  qed
qed (simp add: moveToTrashWith_def)

end

section \<open>Properties\<close>

text \<open>
  C2: write-ahead. A move to the Trash writes the metadata only in a state in which the ledger durably
  holds exactly the reservation and the metadata dispatch of the ticket whose token names the record,
  and moves content only in a state in which it durably holds exactly the four events up to the move
  dispatch. So content operations that differ anywhere else give the same move, with the same final state.
\<close>

theorem trash_move_write_ahead:
  assumes "distinct_records (pw_directory w)" and "ops_keep (\<lambda>w w'. pw_directory w' = pw_directory w) ops"
    and "agree_when_dispatched (port_durable env port) ticket_view request ops ops'"
  shows "moveToTrashWith live (recovery_ledger_port env port) ticket_view request ops w =
    moveToTrashWith live (recovery_ledger_port env port) ticket_view request ops' w"
  by (rule recovery_port.move_write_ahead [OF assms])

text \<open>
  C1: success is earned and recorded. When a move to the Trash returns no error, the metadata was written
  under the dispatched token with a receipt for this root and token, the move came back verified
  and without an error after its dispatch was durable, and the ledger durably holds the complete history
  of the returned ticket: reserved, metadata dispatched and verified, move dispatched and verified.
\<close>

theorem trash_move_recorded:
  assumes "distinct_records (pw_directory w)" and "ops_keep (\<lambda>w w'. pw_directory w' = pw_directory w) ops"
    and "moveToTrashWith live (recovery_ledger_port env port) ticket_view request ops w = ((t, None), w')"
  shows "published_and_moved (port_durable env port) ticket_view ops request t w'"
  using recovery_port.move_success [OF assms] by blast

section \<open>A sample move\<close>

definition sample_request :: "unit trash_move_request" where
  "sample_request = \<lparr> tmr_action = sample_trash_action, tmr_planDigest = sample_plan_digest, tmr_sourceLease = (),
     tmr_root = ''root-1'', tmr_source = ft_Path sample_source, tmr_basename = [0x62],
     tmr_precondition = sample_recovery_precondition, tmr_trashLayoutBinding = sample_layout_binding,
     tmr_deletedAt = sample_date \<rparr>"

definition sample_operations :: "('x, unit, unit, unit) trash_move_operations" where
  "sample_operations =
     \<lparr> tmo_write = (\<lambda>token source date x.
         (Inr (Some \<lparr> mpub_rootID = ''root-1'', mpub_token = token, mpub_publication = Some () \<rparr>), x)),
       tmo_selectDirectories = (\<lambda>x. (Inr (Some ()), x)),
       tmo_move = (\<lambda>l b d p q x. ((TrashMoveVerified, None), x)),
       tmo_closeDirectories = (\<lambda>d x. x) \<rparr>"

lemma sample_execution: "validateTrashMoveExecution True sample_request = None"
proof -
  have "validateTrashDeletionDate (tmr_deletedAt sample_request) = None"
    using sample_info_valid [of "[0x61]"] by (simp add: sample_request_def sample_info_def trash_info_validate_def checks_Cons)
  then show ?thesis
    unfolding validateTrashMoveExecution_def checks_Cons marked_None
    by (intro conjI; (simp; fail)?; code_simp)
qed

lemma sample_move_ticket:
  assumes "k < 5"
  shows "validateTrashMoveTicket ticket_view (Some (sample_ticket port (word_of_nat k) (sample_move ! k))) sample_request = None"
proof -
  have "k < length sample_move" using assms by (simp add: sample_move_def)
  from sample_tickets(2) [OF sample_move_good this]
  have "ticket_view (sample_ticket port (word_of_nat k) (sample_move ! k)) = recovery_facts (sample_recovery (word_of_nat k) (sample_move ! k))" .
  then show ?thesis
    unfolding validateTrashMoveTicket_def option.case Let_def
    by (simp add: recovery_facts_def case_recovery_def Let_def) code_simp
qed

lemma sample_step:
  assumes "Suc k < 5" "fst (sample_move ! Suc k) = e"
  shows "transitionTrashMoveTicket (recovery_ledger_port (facts_env sample_move) port) ticket_view
      (Some (sample_ticket port (word_of_nat k) (sample_move ! k))) sample_request (to_event e) (sample_port_world (Suc k) clock content) =
    ((Some (sample_ticket port (word_of_nat (Suc k)) (sample_move ! Suc k)), None), sample_port_world (Suc (Suc k)) (Suc clock) content)"
proof -
  have len: "k < length sample_move" "Suc k < length sample_move" using assms(1) by (simp_all add: sample_move_def)
  have "snd (sample_move ! Suc k) = []" using assms(1) by (auto simp: sample_move_def less_Suc_eq numeral_eq_Suc)
  then have "lp_Transition (recovery_ledger_port (facts_env sample_move) port) (Some (sample_ticket port (word_of_nat k) (sample_move ! k)))
      (to_event e) (sample_port_world (Suc k) clock content) =
    ((Some (sample_ticket port (word_of_nat (Suc k)) (sample_move ! Suc k)), None), sample_port_world (Suc (Suc k)) (Suc clock) content)"
    using sample_port_transition [OF sample_move_good _ len(2), of port clock content] assms(2) by (simp add: to_event_def)
  then show ?thesis
    using sample_tickets(2) [OF sample_move_good len(1)] sample_tickets(2) [OF sample_move_good len(2)]
      sample_move_ticket [OF assms(1)] assms(2)
    by (simp add: transitionTrashMoveTicket_def recovery_facts_def case_recovery_def Let_def)
qed

lemma sample_move_run:
  "moveToTrashWith True (recovery_ledger_port (facts_env sample_move) port) ticket_view sample_request sample_operations
     (sample_port_world 0 0 content) =
   ((Some (sample_ticket port 4 (MoveVerified, [])), None), sample_port_world 5 5 content)"
proof -
  let ?port = "recovery_ledger_port (facts_env sample_move) port"
  have facts: "sample_move \<noteq> []" "sample_move ! 0 = (IntentReserved, [])" by (simp_all add: sample_move_def)
  have reserve: "lp_Reserve ?port (tmr_action sample_request) (tmr_planDigest sample_request) (tmr_trashLayoutBinding sample_request)
      (sample_port_world 0 0 content) = ((Some (sample_ticket port 0 (sample_move ! 0)), None), sample_port_world 1 1 content)"
    using sample_port_reserve [OF sample_move_good facts(1), of port 0 content] by (simp add: sample_request_def)
  have view: "ticket_view (sample_ticket port (word_of_nat k) (sample_move ! k)) = recovery_facts (sample_recovery (word_of_nat k) (sample_move ! k))"
    if "k < 5" for k
    using sample_tickets(2) [OF sample_move_good, of k port] that by (simp add: sample_move_def)
  have "\<not> recovery_Closed (sample_recovery 0 (IntentReserved, []))" by code_simp
  then have intent: "requireTrashMoveTicketEvent ticket_view (Some (sample_ticket port 0 (sample_move ! 0))) sample_request EventIntentReserved = None"
    using sample_move_ticket [of 0 port] view [of 0] facts(2)
    by (simp add: requireTrashMoveTicketEvent_def checks_Cons recovery_facts_def case_recovery_def Let_def same_vocabulary)
  have events: "fst (sample_move ! 1) = EventMetadataDispatchRecorded" "fst (sample_move ! 2) = EventMetadataVerified"
    "fst (sample_move ! 3) = EventMoveDispatchRecorded" "fst (sample_move ! 4) = EventMoveVerified"
    by (simp_all add: sample_move_def same_vocabulary)
  have publication: "validateTrashMetadataPublication ticket_view
      (Some \<lparr> mpub_rootID = ''root-1'', mpub_token = tk_Token (ticket_view k), mpub_publication = Some () \<rparr>) sample_request (Some k) = None" for k
    by (simp add: validateTrashMetadataPublication_def checks_Cons publication_RootID_def publication_Token_def sample_request_def)
  let ?t = "\<lambda>k. sample_ticket port (word_of_nat k) (sample_move ! k)"
  let ?step = "\<lambda>k e. transitionTrashMoveTicket ?port ticket_view (Some (?t k)) sample_request (to_event e) (sample_port_world (Suc k) (Suc k) content) =
    ((Some (?t (Suc k)), None), sample_port_world (Suc (Suc k)) (Suc (Suc k)) content)"
  have steps: "?step 0 EventMetadataDispatchRecorded" "?step 1 EventMetadataVerified" "?step 2 EventMoveDispatchRecorded" "?step 3 EventMoveVerified"
    by (rule sample_step; use events in \<open>simp add: eval_nat_numeral\<close>)+
  have "dispatch_move ?port ticket_view sample_operations (Some (?t 2)) sample_request (Some ()) () (sample_port_world 3 3 content) =
      ((Some (?t 4), None), sample_port_world 5 5 content)"
    using steps(3,4) by (simp add: dispatch_move_def sample_operations_def conclude_move_def eval_nat_numeral)
  then have "select_and_move ?port ticket_view sample_operations (Some (?t 1)) sample_request (Some ()) (sample_port_world 2 2 content) =
      ((Some (?t 4), None), sample_port_world 5 5 content)"
    using steps(2) by (simp add: select_and_move_def sample_operations_def eval_nat_numeral)
  then have "write_and_move ?port ticket_view sample_operations (Some (?t 1)) sample_request (sample_port_world 2 2 content) =
      ((Some (?t 4), None), sample_port_world 5 5 content)"
    using publication by (simp add: write_and_move_def sample_operations_def)
  then have "moveToTrashWith True ?port ticket_view sample_request sample_operations (sample_port_world 0 0 content) =
      ((Some (?t 4), None), sample_port_world 5 5 content)"
    using steps(1) reserve intent sample_execution by (simp add: moveToTrashWith_def eval_nat_numeral)
  moreover have "sample_move ! 4 = (MoveVerified, [])" by (simp add: sample_move_def)
  ultimately show ?thesis by simp
qed

lemma sample_operations_keep: "ops_keep (\<lambda>w w'. pw_directory w' = pw_directory w) sample_operations"
  by (simp add: ops_keep_def sample_operations_def)

text \<open>Operations that go wrong whenever the ledger is still empty.\<close>

definition eager_operations :: "('f port_world_scheme, unit, unit, unit) trash_move_operations" where
  "eager_operations = sample_operations
     \<lparr> tmo_move := (\<lambda>l b d p q x. if pw_directory x = calm_directory [] then ((TrashMoveNotApplied, None), x)
         else ((TrashMoveVerified, None), x)),
       tmo_write := (\<lambda>token source date x. if pw_directory x = calm_directory [] then (Inl [ErrDrifted], x)
         else tmo_write sample_operations token source date x) \<rparr>"

lemma durable_not_empty: "port_durable env port x k es \<Longrightarrow> es \<noteq> [] \<Longrightarrow> pw_directory x \<noteq> calm_directory []"
proof
  assume "port_durable env port x k es" "es \<noteq> []" and empty: "pw_directory x = calm_directory []"
  then obtain f where "stored env (ledger_store (calm_directory [])) f"
    by (auto simp: port_durable_def recorded_def neq_Nil_conv)
  moreover have "ledger_store (calm_directory []) = Map.empty"
    using calm_store(1) [of "[]"] by (simp add: calm_records_def)
  ultimately show False by (simp add: stored_def)
qed

theorem trash_move_write_ahead_witness:
  "moveToTrashWith True (recovery_ledger_port (facts_env sample_move) 7) ticket_view sample_request eager_operations
     (sample_port_world 0 0 ()) = ((Some (sample_ticket 7 4 (MoveVerified, [])), None), sample_port_world 5 5 ())"
proof -
  have "agree_when_dispatched (port_durable (facts_env sample_move) 7) ticket_view sample_request
      (sample_operations :: (unit port_world_scheme, unit, unit, unit) trash_move_operations) eager_operations"
    using durable_not_empty [where env = "facts_env sample_move" and port = 7]
    by (auto simp: agree_when_dispatched_def dispatched_def eager_operations_def dispatch_events_def)
      (auto simp: sample_operations_def)
  then have "moveToTrashWith True (recovery_ledger_port (facts_env sample_move) 7) ticket_view sample_request sample_operations (sample_port_world 0 0 ()) =
      moveToTrashWith True (recovery_ledger_port (facts_env sample_move) 7) ticket_view sample_request eager_operations (sample_port_world 0 0 ())"
    using sample_port_calm [OF sample_move_good, of 0 0 "()"] by (intro trash_move_write_ahead sample_operations_keep) simp_all
  with sample_move_run [of 7 "()"] show ?thesis by simp
qed

theorem trash_move_recorded_witness:
  "published_and_moved (port_durable (facts_env sample_move) 7) ticket_view sample_operations sample_request
     (Some (sample_ticket 7 4 (MoveVerified, []))) (sample_port_world 5 5 ())"
  by (rule trash_move_recorded [OF sample_port_calm [OF sample_move_good] sample_operations_keep sample_move_run]) simp

end
