(* ===== verification/TrashReconcile.thy ===== *)
theory TrashReconcile
  imports TrashMove
begin

text \<open>
  \<^verbatim>\<open>src/internal/trash/reconcile.go\<close>: the metadata-only recovery step for an outstanding Trash ticket.
  It probes the one owned record of the ticket and records whether the record is absent or retained.
  As in \<^verbatim>\<open>TrashMove\<close>, the ledger is an implementation of the port, the probes are the operations
  the source passes as a record, and both act on one state of the world.
\<close>

section \<open>Requests and operations\<close>

record trash_reconcile_request =
  trr_root :: trusted_root_id
  trr_source :: byte_path
  trr_actionID :: action_id
  trr_precondition :: filesystem_precondition
  trr_trashLayoutBinding :: trash_layout_binding
  trr_metadataPath :: byte_path
  trr_basis :: trash_path_basis

record ('x, 'd) metadata_reconcile_operations =
  mro_selectDirectories :: "'x \<Rightarrow> (go_error + 'd option) \<times> 'x"
  mro_probe :: "'d \<Rightarrow> string \<Rightarrow> 'x \<Rightarrow> (go_error + bytes option \<times> bool) \<times> 'x"
  mro_closeDirectories :: "'d \<Rightarrow> 'x \<Rightarrow> 'x"

definition validateTrashMetadataReconcileCore :: "trash_reconcile_request \<Rightarrow> go_error option" where
  "validateTrashMetadataReconcileCore request = checks
     [marked ErrUnsupported (trusted_root_id_validate (trr_root request)),
      marked ErrUnsupported (action_id_validate (trr_actionID request)),
      (case trashMovePathAndBasename (trr_source request) of
         Inl e \<Rightarrow> Some e
       | Inr (source, _) \<Rightarrow> checks
         [check (byte_path_equal source (trr_source request)) [ErrUnsupported],
          marked ErrUnsupported (filesystem_precondition_validate (trr_precondition request)),
          check (sameTrashMoveTarget (fp_Target (trr_precondition request)) (filesystemTrashMoveTarget (trr_root request) source))
            [ErrUnsupported]]),
      failed (RequiredStatMask ActionTrashPath),
      check (RequiredStatMask ActionTrashPath = Inr (fp_Required (trr_precondition request))) [ErrUnsupported]]"

definition validateTrashMetadataReconcileRequest :: "trash_reconcile_request \<Rightarrow> go_error option" where
  "validateTrashMetadataReconcileRequest request = checks
     [validateTrashMetadataReconcileCore request,
      marked ErrUnsupported (trash_layout_binding_validate (trr_trashLayoutBinding request)),
      marked ErrUnsupported (failed (byte_path_new (path_components (trr_metadataPath request)))),
      marked ErrUnsupported (trash_path_basis_validate (trr_basis request))]"

section \<open>Tickets of a reconciliation\<close>

definition validateTrashMetadataReconcileTicket ::
    "('t \<Rightarrow> ticket_facts) \<Rightarrow> 't option \<Rightarrow> trash_reconcile_request \<Rightarrow> go_error option" where
  "validateTrashMetadataReconcileTicket view ticket request =
     (case ticket of
        None \<Rightarrow> Some [ErrUnsupported]
      | Some t \<Rightarrow> (let k = view t in checks
        [marked ErrUnsupported (validateTrashToken (tk_Token k)),
         check (\<not> (tk_RootID k \<noteq> trr_root request \<or> \<not> byte_path_equal (tk_Source k) (trr_source request) \<or>
             tk_ActionID k \<noteq> trr_actionID request \<or> tk_ActionKind k \<noteq> ActionTrashPath \<or>
             tk_Destination k \<noteq> DestinationTrash)) [ErrUnsupported],
         check (tk_TrashLayoutBinding k = trr_trashLayoutBinding request) [ErrUnsupported],
         check (sameTrashMovePrecondition (tk_Precondition k) (trr_precondition request)) [ErrUnsupported]]))"

definition requireTrashMetadataIndeterminateTicket ::
    "('t \<Rightarrow> ticket_facts) \<Rightarrow> 't option \<Rightarrow> trash_reconcile_request \<Rightarrow> go_error option" where
  "requireTrashMetadataIndeterminateTicket view ticket request =
     (case validateTrashMetadataReconcileTicket view ticket request of
        Some e \<Rightarrow> Some e
      | None \<Rightarrow>
        (let k = view (the ticket) in checks
          [check (tk_Event k = EventMetadataIndeterminate) [ErrUnsupported],
           check (\<not> tk_Closed k) [ErrUnsupported],
           check (\<not> (tk_Outcome k \<noteq> [] \<or> tk_MetadataDisposition k \<noteq> [])) [ErrUnsupported]]))"

definition newTrashMetadataReconcileCoreRequest ::
    "('t \<Rightarrow> ticket_facts) \<Rightarrow> 't option \<Rightarrow> go_error + trash_reconcile_request" where
  "newTrashMetadataReconcileCoreRequest view ticket =
     (case ticket of
        None \<Rightarrow> Inl [ErrUnsupported]
      | Some t \<Rightarrow>
        (case trashMovePathAndBasename (tk_Source (view t)) of
           Inl e \<Rightarrow> Inl e
         | Inr (source, _) \<Rightarrow>
           (let request = \<lparr> trr_root = tk_RootID (view t), trr_source = source, trr_actionID = tk_ActionID (view t),
                  trr_precondition = tk_Precondition (view t), trr_trashLayoutBinding = tk_TrashLayoutBinding (view t),
                  trr_metadataPath = \<lparr> path_components = [] \<rparr>, trr_basis = 0 \<rparr>
            in case validateTrashMetadataReconcileCore request of Some e \<Rightarrow> Inl e | None \<Rightarrow> Inr request)))"

definition completeTrashMetadataReconcileRequest ::
    "('t \<Rightarrow> ticket_facts) \<Rightarrow> 't option \<Rightarrow> trash_reconcile_request \<Rightarrow> 'x trash_authority \<Rightarrow> 'x \<Rightarrow>
     go_error + trash_reconcile_request" where
  "completeTrashMetadataReconcileRequest view ticket request authority x =
     (case checks
        [requireTrashMetadataIndeterminateTicket view ticket request,
         check (ta_RootID authority = trr_root request) [ErrUnsupported],
         check (ta_AnchorKind authority \<noteq> []) [ErrUnsupported],
         marked ErrUnsupported (trash_layout_binding_validate (trr_trashLayoutBinding request))] of
        Some e \<Rightarrow> Inl e
      | None \<Rightarrow>
        (case ta_MetadataReconciliationIdentity authority x of
           Inl e \<Rightarrow> Inl (classifyTrashMetadataAuthorityFailure e)
         | Inr candidate \<Rightarrow>
           (case checks
              [marked ErrUnsupported (trash_layout_binding_validate candidate),
               check (trr_trashLayoutBinding request = candidate) [ErrUnsupported]] of
              Some e \<Rightarrow> Inl e
            | None \<Rightarrow>
              (case ta_MetadataPathFor authority (trr_source request) x of
                 Inl e \<Rightarrow> Inl (classifyTrashMetadataAuthorityFailure e)
               | Inr trusted \<Rightarrow>
                 (case byte_path_new (path_components trusted) of
                    Inl _ \<Rightarrow> Inl [ErrUnsupported]
                  | Inr metadataPath \<Rightarrow>
                    (case trashPathBasisFromMounts (ta_MetadataBasis authority) of
                       Inl e \<Rightarrow> Inl e
                     | Inr basis \<Rightarrow>
                       (let request' = request \<lparr> trr_metadataPath := metadataPath, trr_basis := basis \<rparr>
                        in case validateTrashMetadataReconcileRequest request' of
                             Some e \<Rightarrow> Inl e | None \<Rightarrow> Inr request')))))))"

definition validateTrashMetadataReconcileReloadInput :: "bool \<Rightarrow> 't option \<Rightarrow> go_error option" where
  "validateTrashMetadataReconcileReloadInput live ticket = checks
     [writeTrashInfoContextError live, check (ticket \<noteq> None) [ErrUnsupported]]"

definition validateTrashMetadataReconcileExecution ::
    "bool \<Rightarrow> ('t \<Rightarrow> ticket_facts) \<Rightarrow> 't option \<Rightarrow> trash_reconcile_request \<Rightarrow> go_error option" where
  "validateTrashMetadataReconcileExecution live view ticket request = checks
     [writeTrashInfoContextError live,
      validateTrashMetadataReconcileRequest request,
      requireTrashMetadataIndeterminateTicket view ticket request]"

definition reloadTrashMetadataReconcileTicket ::
    "bool \<Rightarrow> ('t, 'x) ledger_port \<Rightarrow> ('t \<Rightarrow> ticket_facts) \<Rightarrow> 't option \<Rightarrow> 'x \<Rightarrow> ('t option \<times> go_error option) \<times> 'x" where
  "reloadTrashMetadataReconcileTicket live ledger view ticket x =
     (case validateTrashMetadataReconcileReloadInput live ticket of
        Some e \<Rightarrow> ((ticket, Some e), x)
      | None \<Rightarrow>
        (case lp_Reload ledger ticket x of
           ((None, Some e), x') \<Rightarrow> ((ticket, Some e), x')
         | ((None, None), x') \<Rightarrow> ((ticket, Some [ErrInterrupted]), x')
         | ((Some current, err), x') \<Rightarrow>
           (if tk_Token (view current) \<noteq> tk_Token (view (the ticket))
            then (Some current, Some (errors_Join err [ErrUnsupported]))
            else (Some current, err),
            x')))"

definition transitionTrashMetadataReconcileTicket ::
    "('t, 'x) ledger_port \<Rightarrow> ('t \<Rightarrow> ticket_facts) \<Rightarrow> 't option \<Rightarrow> trash_reconcile_request \<Rightarrow> port_metadata \<Rightarrow> 'x \<Rightarrow>
     ('t option \<times> go_error option) \<times> 'x" where
  "transitionTrashMetadataReconcileTicket ledger view ticket request disposition x =
     (let transition = \<lparr> pt_Event = EventReconciliationResolved, pt_ReconciliationOutcome = PortOutcomeNotApplied,
            pt_MetadataDisposition = disposition \<rparr>
      in case lp_Transition ledger ticket transition x of
           ((Some updated, err), x') \<Rightarrow>
             (if (case ticket of None \<Rightarrow> True | Some t \<Rightarrow> tk_Token (view updated) \<noteq> tk_Token (view t))
              then (ticket, Some (errors_Join err [ErrUnsupported]))
              else case validateTrashMetadataReconcileTicket view (Some updated) request of
                Some validationErr \<Rightarrow> (Some updated, Some (errors_Join err validationErr))
              | None \<Rightarrow>
                if tk_Event (view updated) \<noteq> pt_Event transition \<or>
                   tk_Outcome (view updated) \<noteq> pt_ReconciliationOutcome transition \<or>
                   tk_MetadataDisposition (view updated) \<noteq> pt_MetadataDisposition transition \<or> \<not> tk_Closed (view updated)
                then (Some updated, Some (errors_Join err [ErrUnsupported]))
                else (Some updated, err),
              x')
         | ((None, Some err), x') \<Rightarrow> ((ticket, Some err), x')
         | ((None, None), x') \<Rightarrow> ((ticket, Some [ErrInterrupted]), x'))"

section \<open>The reconciliation\<close>

text \<open>
  A slice of bytes that may be nil. The record a probe returned binds a ticket's token when it is
  the canonical record of the request's path under that token; only the deletion date is free.
\<close>

definition bytes_or_nil :: "bytes option \<Rightarrow> bytes" where
  "bytes_or_nil contents = (case contents of None \<Rightarrow> [] | Some c \<Rightarrow> c)"

definition bound_metadata :: "trash_reconcile_request \<Rightarrow> string \<Rightarrow> bytes \<Rightarrow> go_error option" where
  "bound_metadata request token contents =
     (case parseTrashInfo contents token (trr_basis request) of
        Inl _ \<Rightarrow> Some [ErrDrifted]
      | Inr info \<Rightarrow>
        check (\<not> (ti_token info \<noteq> token \<or> ti_basis info \<noteq> trr_basis request \<or>
          \<not> byte_path_equal (ti_metadataPath info) (trr_metadataPath request))) [ErrDrifted])"

definition probed_disposition :: "trash_reconcile_request \<Rightarrow> string \<Rightarrow> bytes option \<times> bool \<Rightarrow> go_error + port_metadata" where
  "probed_disposition request token answer =
     (case answer of (contents, present) \<Rightarrow>
        if \<not> present \<and> contents \<noteq> None then Inl [ErrDrifted]
        else if present then
          (case bound_metadata request token (bytes_or_nil contents) of
             Some e \<Rightarrow> Inl e | None \<Rightarrow> Inr PortMetadataRetained)
        else Inr PortMetadataAbsent)"

text \<open>With the directories open: probe the record and resolve the ticket.\<close>

definition probe_and_resolve ::
    "('t, 'x) ledger_port \<Rightarrow> ('t \<Rightarrow> ticket_facts) \<Rightarrow> 't option \<Rightarrow> trash_reconcile_request \<Rightarrow>
     ('x, 'd) metadata_reconcile_operations \<Rightarrow> 'd \<Rightarrow> 'x \<Rightarrow> ('t option \<times> go_error option) \<times> 'x" where
  "probe_and_resolve ledger view current request ops directories x =
     (case mro_probe ops directories (tk_Token (view (the current))) x of
        (Inl e, x') \<Rightarrow> ((current, Some e), x')
      | (Inr answer, x') \<Rightarrow>
        (case probed_disposition request (tk_Token (view (the current))) answer of
           Inl e \<Rightarrow> ((current, Some e), x')
         | Inr disposition \<Rightarrow> transitionTrashMetadataReconcileTicket ledger view current request disposition x'))"

definition reconcileIndeterminateTrashMetadataWith ::
    "bool \<Rightarrow> ('t, 'x) ledger_port \<Rightarrow> ('t \<Rightarrow> ticket_facts) \<Rightarrow> 't option \<Rightarrow> trash_reconcile_request \<Rightarrow>
     ('x, 'd) metadata_reconcile_operations \<Rightarrow> 'x \<Rightarrow> ('t option \<times> go_error option) \<times> 'x" where
  "reconcileIndeterminateTrashMetadataWith live ledger view ticket request ops x =
     (case validateTrashMetadataReconcileExecution live view ticket request of
        Some e \<Rightarrow> ((ticket, Some e), x)
      | None \<Rightarrow>
        (case reloadTrashMetadataReconcileTicket live ledger view ticket x of
           ((current, Some e), x1) \<Rightarrow> ((current, Some e), x1)
         | ((current, None), x1) \<Rightarrow>
           (case validateTrashMetadataReconcileExecution live view current request of
              Some e \<Rightarrow> ((current, Some e), x1)
            | None \<Rightarrow>
              (case mro_selectDirectories ops x1 of
                 (Inl e, x2) \<Rightarrow> ((current, Some e), x2)
               | (Inr None, x2) \<Rightarrow> ((current, Some [ErrUnsupported]), x2)
               | (Inr (Some directories), x2) \<Rightarrow>
                 (case probe_and_resolve ledger view current request ops directories x2 of
                    (result, x3) \<Rightarrow> (result, mro_closeDirectories ops directories x3))))))"

definition reconcileIndeterminateTrashMetadataWithAuthority ::
    "bool \<Rightarrow> ('t, 'x) ledger_port \<Rightarrow> ('t \<Rightarrow> ticket_facts) \<Rightarrow> 't option \<Rightarrow> 'x trash_authority \<Rightarrow>
     ('x, 'd) metadata_reconcile_operations \<Rightarrow> 'x \<Rightarrow> ('t option \<times> go_error option) \<times> 'x" where
  "reconcileIndeterminateTrashMetadataWithAuthority live ledger view ticket authority ops x =
     (case reloadTrashMetadataReconcileTicket live ledger view ticket x of
        ((current, Some e), x1) \<Rightarrow> ((current, Some e), x1)
      | ((current, None), x1) \<Rightarrow>
        (case newTrashMetadataReconcileCoreRequest view current of
           Inl e \<Rightarrow> ((current, Some e), x1)
         | Inr core \<Rightarrow>
           (case completeTrashMetadataReconcileRequest view current core authority x1 of
              Inl e \<Rightarrow> ((current, Some e), x1)
            | Inr request \<Rightarrow> reconcileIndeterminateTrashMetadataWith live ledger view current request ops x1)))"

text \<open>
  The entry point: a nil lease is refused; the production operations select the directories of the lease
  and probe its owned record.
\<close>

definition productionTrashMetadataReconcileOperations ::
    "('x \<Rightarrow> (go_error + 'd option) \<times> 'x) \<Rightarrow> ('d \<Rightarrow> string \<Rightarrow> 'x \<Rightarrow> (go_error + bytes option \<times> bool) \<times> 'x) \<Rightarrow>
     ('d \<Rightarrow> 'x \<Rightarrow> 'x) \<Rightarrow> ('x, 'd) metadata_reconcile_operations" where
  "productionTrashMetadataReconcileOperations select probe close_directories =
     \<lparr> mro_selectDirectories = select, mro_probe = probe, mro_closeDirectories = close_directories \<rparr>"

definition ReconcileIndeterminateTrashMetadata ::
    "bool \<Rightarrow> ('t, 'x) ledger_port \<Rightarrow> ('t \<Rightarrow> ticket_facts) \<Rightarrow> 't option \<Rightarrow> 'x trash_authority option \<Rightarrow>
     ('x, 'd) metadata_reconcile_operations \<Rightarrow> 'x \<Rightarrow> ('t option \<times> go_error option) \<times> 'x" where
  "ReconcileIndeterminateTrashMetadata live ledger view ticket lease ops x =
     (case lease of
        None \<Rightarrow> ((ticket, Some [ErrUnsupported]), x)
      | Some authority \<Rightarrow> reconcileIndeterminateTrashMetadataWithAuthority live ledger view ticket authority ops x)"

section \<open>Requests bind what the ledger and the authority say\<close>

lemma complete_request:
  assumes "completeTrashMetadataReconcileRequest view ticket request authority x = Inr request'"
  shows "requireTrashMetadataIndeterminateTicket view ticket request = None"
    "ta_RootID authority = trr_root request'" "ta_MetadataReconciliationIdentity authority x = Inr (trr_trashLayoutBinding request')"
    "ta_MetadataPathFor authority (trr_source request') x = Inr (trr_metadataPath request')"
    "trashPathBasisFromMounts (ta_MetadataBasis authority) = Inr (trr_basis request')"
  using assms
  by (auto simp: completeTrashMetadataReconcileRequest_def Let_def checks_Cons byte_path_new_Inr
      split: option.splits sum.splits)

section \<open>Nothing is resolved without evidence\<close>

text \<open>
  The evidence behind a disposition: in a state \<open>x1\<close> whose ledger is that of \<open>x\<close>, ticket \<open>k\<close> is durably
  metadata-indeterminate and bound by the request, and the probe of its owned record gave the answer judged as the disposition.
\<close>

definition metadata_evidence ::
    "('x \<Rightarrow> 't \<Rightarrow> port_event list \<Rightarrow> bool) \<Rightarrow> ('x \<Rightarrow> 'x \<Rightarrow> bool) \<Rightarrow> ('t \<Rightarrow> ticket_facts) \<Rightarrow>
     ('x, 'd) metadata_reconcile_operations \<Rightarrow> trash_reconcile_request \<Rightarrow> 'x \<Rightarrow> 't \<Rightarrow> port_metadata \<Rightarrow> bool" where
  "metadata_evidence durable same view ops request x k disposition \<longleftrightarrow>
     (\<exists>x1 x2 x3 d answer. same x x1 \<and> durable x1 k (forward_events True EventMetadataIndeterminate) \<and>
        requireTrashMetadataIndeterminateTicket view (Some k) request = None \<and>
        mro_selectDirectories ops x1 = (Inr (Some d), x2) \<and>
        mro_probe ops d (tk_Token (view k)) x2 = (Inr answer, x3) \<and>
        probed_disposition request (tk_Token (view k)) answer = Inr disposition)"

text \<open>The result \<open>t\<close> carries the token of \<open>k\<close> and its resolution, all of it durable in \<open>x'\<close>.\<close>

definition durably_resolved ::
    "('x \<Rightarrow> 't \<Rightarrow> port_event list \<Rightarrow> bool) \<Rightarrow> ('t \<Rightarrow> ticket_facts) \<Rightarrow> 'x \<Rightarrow> 't \<Rightarrow> port_outcome \<Rightarrow> port_metadata \<Rightarrow> bool \<Rightarrow>
     't option \<Rightarrow> bool" where
  "durably_resolved durable view x' k out metadata closed t \<longleftrightarrow>
     (\<exists>k' es. t = Some k' \<and> tk_Token (view k') = tk_Token (view k) \<and> durable x' k' (es @ [EventReconciliationResolved]) \<and>
        tk_Outcome (view k') = out \<and> tk_MetadataDisposition (view k') = metadata \<and> tk_Closed (view k') = closed)"

text \<open>
  What recording a resolution of \<open>k\<close> made of the state \<open>x\<close>: without an error the resolution is durable and returned.
  With one, the records are as before, or exactly the record of this resolution was added.
\<close>

definition resolution_recorded ::
    "('x \<Rightarrow> 't \<Rightarrow> port_event list \<Rightarrow> bool) \<Rightarrow> ('t \<Rightarrow> port_transition \<Rightarrow> 'x \<Rightarrow> bool \<Rightarrow> 'x \<Rightarrow> bool) \<Rightarrow> ('t \<Rightarrow> ticket_facts) \<Rightarrow>
     'x \<Rightarrow> 't \<Rightarrow> port_outcome \<Rightarrow> port_metadata \<Rightarrow> bool \<Rightarrow> go_error option \<Rightarrow> 't option \<Rightarrow> 'x \<Rightarrow> bool" where
  "resolution_recorded durable attempt view x k out metadata closed err t x' \<longleftrightarrow>
     (err = None \<longrightarrow> durably_resolved durable view x' k out metadata closed t) \<and>
     attempt k \<lparr> pt_Event = EventReconciliationResolved, pt_ReconciliationOutcome = out, pt_MetadataDisposition = metadata \<rparr>
       x (err \<noteq> None) x'"

text \<open>The request is the one the authority and the ticket \<open>k\<close> determine in state \<open>y\<close>.\<close>

definition authority_binds ::
    "('t \<Rightarrow> ticket_facts) \<Rightarrow> 'x trash_authority \<Rightarrow> trash_reconcile_request \<Rightarrow> 't \<Rightarrow> 'x \<Rightarrow> bool" where
  "authority_binds view authority request k y \<longleftrightarrow>
     ta_RootID authority = tk_RootID (view k) \<and>
     ta_MetadataReconciliationIdentity authority y = Inr (tk_TrashLayoutBinding (view k)) \<and>
     ta_MetadataPathFor authority (tk_Source (view k)) y = Inr (trr_metadataPath request) \<and>
     trashPathBasisFromMounts (ta_MetadataBasis authority) = Inr (trr_basis request)"

definition probes_keep :: "('x \<Rightarrow> 'x \<Rightarrow> bool) \<Rightarrow> ('x, 'd) metadata_reconcile_operations \<Rightarrow> bool" where
  "probes_keep same ops \<longleftrightarrow>
     (\<forall>x. same x (snd (mro_selectDirectories ops x))) \<and> (\<forall>d token x. same x (snd (mro_probe ops d token x))) \<and>
     (\<forall>d x. same x (mro_closeDirectories ops d x))"

lemma probes_keepD:
  assumes "probes_keep same ops"
  shows "mro_selectDirectories ops x = (r, x1) \<Longrightarrow> same x x1" "mro_probe ops d token x = (a, x2) \<Longrightarrow> same x x2"
    "same x (mro_closeDirectories ops d x)"
  using assms unfolding probes_keep_def by (metis snd_conv)+

lemma indeterminate_facts:
  assumes "requireTrashMetadataIndeterminateTicket view ticket request = None"
  obtains k where "ticket = Some k" "tk_Event (view k) = EventMetadataIndeterminate" "tk_Destination (view k) = DestinationTrash"
    "tk_RootID (view k) = trr_root request" "tk_Source (view k) = trr_source request"
    "tk_TrashLayoutBinding (view k) = trr_trashLayoutBinding request"
  using assms
  by (auto simp: requireTrashMetadataIndeterminateTicket_def validateTrashMetadataReconcileTicket_def Let_def checks_Cons
      split: option.splits)

context recording_ledger begin

lemma reload_success:
  assumes "invar x" "reloadTrashMetadataReconcileTicket live port view ticket x = ((t, err), x')"
  shows "same x x' \<and> (err = None \<longrightarrow> (\<exists>k0 k es. ticket = Some k0 \<and> t = Some k \<and> tk_Token (view k) = tk_Token (view k0) \<and> durable x' k es))"
proof -
  obtain out e y where run: "lp_Reload port ticket x = ((out, e), y)" by (metis prod.exhaust)
  note law = reloaded [OF assms(1) run]
  show ?thesis
  proof (cases "validateTrashMetadataReconcileReloadInput live ticket")
    case (Some e)
    with assms(2) same_refl show ?thesis by (auto simp: reloadTrashMetadataReconcileTicket_def)
  next
    case None
    then obtain k0 where k0: "ticket = Some k0" by (auto simp: validateTrashMetadataReconcileReloadInput_def checks_Cons)
    have "x' = y" using assms(2) run None by (cases out; cases e) (simp_all add: reloadTrashMetadataReconcileTicket_def)
    moreover have "\<exists>k es. t = Some k \<and> tk_Token (view k) = tk_Token (view k0) \<and> durable x' k es" if "err = None"
      using assms(2) run None law that k0 \<open>x' = y\<close>
      by (cases out; cases e) (auto simp: reloadTrashMetadataReconcileTicket_def errors_Join_def split: if_splits)
    ultimately show ?thesis using law k0 by blast
  qed
qed

lemma metadata_transition:
  assumes "invar x" "transitionTrashMetadataReconcileTicket port view (Some k) request disposition x = ((t, err), x')"
  shows "invar x' \<and> resolution_recorded durable attempt view x k PortOutcomeNotApplied disposition True err t x'"
proof -
  let ?tr = "\<lparr> pt_Event = EventReconciliationResolved, pt_ReconciliationOutcome = PortOutcomeNotApplied,
    pt_MetadataDisposition = disposition \<rparr>"
  obtain out e y where run: "lp_Transition port (Some k) ?tr x = ((out, e), y)" by (metis prod.exhaust)
  note law = advanced [OF assms(1) run]
  have "x' = y" using assms(2) run
    by (cases out; cases e) (auto simp: transitionTrashMetadataReconcileTicket_def Let_def split: if_splits option.splits)
  moreover have "durably_resolved durable view x' k PortOutcomeNotApplied disposition True t" if "err = None"
    using assms(2) run law that \<open>x' = y\<close> unfolding durably_resolved_def
    by (cases out; cases e) (auto simp: transitionTrashMetadataReconcileTicket_def Let_def errors_Join_def split: if_splits option.splits)
  moreover have "attempt k ?tr x (err \<noteq> None) x'"
  proof (cases "err = None")
    case True
    then have "e = None" using assms(2) run
      by (cases out; cases e) (auto simp: transitionTrashMetadataReconcileTicket_def Let_def errors_Join_def split: if_splits option.splits)
    with True attempted [OF assms(1) run] \<open>x' = y\<close> show ?thesis by simp
  qed (use attempt_failed [OF attempted [OF assms(1) run]] \<open>x' = y\<close> in simp)
  ultimately show ?thesis using law unfolding resolution_recorded_def by blast
qed

text \<open>Observations before and after change no fact of the ledger.\<close>

lemma resolution_observed:
  "same v x \<Longrightarrow> resolution_recorded durable attempt view x k out metadata closed err t x' \<Longrightarrow> same x' v' \<Longrightarrow>
     resolution_recorded durable attempt view v k out metadata closed err t v'"
  unfolding resolution_recorded_def durably_resolved_def using unaffected(2) attempt_observed by blast

lemma probe_result:
  assumes "invar x" "probes_keep same ops" "probe_and_resolve port view (Some k) request ops d x = ((t, err), x')"
  shows "invar x' \<and> (same x x' \<and> err \<noteq> None \<or>
    (\<exists>answer disposition x1. mro_probe ops d (tk_Token (view k)) x = (Inr answer, x1) \<and>
       probed_disposition request (tk_Token (view k)) answer = Inr disposition \<and>
       resolution_recorded durable attempt view x k PortOutcomeNotApplied disposition True err t x'))"
proof -
  obtain r x1 where run: "mro_probe ops d (tk_Token (view k)) x = (r, x1)" by (metis prod.exhaust)
  note keep = probes_keepD(2) [OF assms(2) run]
  then have x1: "invar x1" using assms(1) unaffected by blast
  show ?thesis
  proof (cases r)
    case (Inl e)
    with assms(3) run keep x1 show ?thesis by (auto simp: probe_and_resolve_def)
  next
    case (Inr answer)
    show ?thesis
    proof (cases "probed_disposition request (tk_Token (view k)) answer")
      case (Inl e)
      with assms(3) run keep x1 Inr show ?thesis by (auto simp: probe_and_resolve_def)
    next
      case disposition: (Inr disposition)
      with assms(3) run Inr have "transitionTrashMetadataReconcileTicket port view (Some k) request disposition x1 = ((t, err), x')"
        by (simp add: probe_and_resolve_def)
      from metadata_transition [OF x1 this] resolution_observed [OF keep _ same_refl] run Inr disposition show ?thesis by blast
    qed
  qed
qed

lemma metadata_reconcile:
  assumes "invar x" "probes_keep same ops"
    and "reconcileIndeterminateTrashMetadataWith live port view ticket request ops x = ((t, err), x')"
  shows "invar x' \<and> (same x x' \<and> err \<noteq> None \<or>
    (\<exists>k0 k disposition. ticket = Some k0 \<and> tk_Token (view k) = tk_Token (view k0) \<and>
       metadata_evidence durable same view ops request x k disposition \<and>
       resolution_recorded durable attempt view x k PortOutcomeNotApplied disposition True err t x'))"
    (is "invar x' \<and> (_ \<or> ?evidence)")
proof -
  let ?valid = "\<lambda>t. validateTrashMetadataReconcileExecution live view t request"
  note run_def = reconcileIndeterminateTrashMetadataWith_def
  obtain current e1 x1 where reload: "reloadTrashMetadataReconcileTicket live port view ticket x = ((current, e1), x1)"
    by (metis prod.exhaust)
  obtain r x2 where select: "mro_selectDirectories ops x1 = (r, x2)" by (metis prod.exhaust)
  note loaded = reload_success [OF assms(1) reload] and selected = probes_keepD(1) [OF assms(2) select]
  have x2: "same x x2" "invar x1" "invar x2" using loaded selected same_trans assms(1) unaffected(1) by blast+
  have failed: ?thesis if "err \<noteq> None" "x' = x \<or> x' = x1 \<or> x' = x2"
    using that loaded x2 assms(1) same_refl by blast
  consider e where "?valid ticket = Some e" | e where "?valid ticket = None" "e1 = Some e"
    | e where "?valid ticket = None" "e1 = None" "?valid current = Some e"
    | "?valid ticket = None" "e1 = None" "?valid current = None" "\<forall>d. r \<noteq> Inr (Some d)"
    | d where "?valid ticket = None" "e1 = None" "?valid current = None" "r = Inr (Some d)"
    by (cases "?valid ticket"; cases e1; cases "?valid current"; metis)
  then show ?thesis
  proof cases
    case (1 e)
    with assms(3) have "err = Some e" "x' = x" unfolding run_def by simp_all
    then show ?thesis by (intro failed) simp_all
  next
    case (2 e)
    with assms(3) reload have "err = Some e" "x' = x1" unfolding run_def by simp_all
    then show ?thesis by (intro failed) simp_all
  next
    case (3 e)
    with assms(3) reload have "err = Some e" "x' = x1" unfolding run_def by simp_all
    then show ?thesis by (intro failed) simp_all
  next
    case 4
    with assms(3) reload select show ?thesis unfolding run_def by (intro failed) (auto split: sum.splits option.splits)
  next
    case (5 d)
    from 5(3) have valid: "requireTrashMetadataIndeterminateTicket view current request = None"
      by (simp add: validateTrashMetadataReconcileExecution_def checks_Cons)
    from loaded 5(2) obtain k0 k es where k: "ticket = Some k0" "current = Some k" "tk_Token (view k) = tk_Token (view k0)"
      "durable x1 k es" by blast
    have "tk_Event (view k) = EventMetadataIndeterminate" "tk_Destination (view k) = DestinationTrash"
      using indeterminate_facts [OF valid] k(2) by auto
    with forward [OF k(4)] k(4) have durable: "durable x1 k (forward_events True EventMetadataIndeterminate)"
      by (simp add: forward_port_events)
    obtain result x3 where inner: "probe_and_resolve port view (Some k) request ops d x2 = (result, x3)" by (metis prod.exhaust)
    then have out: "result = (t, err)" "x' = mro_closeDirectories ops d x3"
      using assms(3) reload select 5 k(2) unfolding run_def by simp_all
    have closed: "same x3 x'" unfolding out by (rule probes_keepD(3) [OF assms(2)])
    note probed = probe_result [OF x2(3) assms(2) inner [unfolded out(1)]]
    then have "invar x'" using closed unaffected(1) by blast
    moreover have "same x x'" if "same x2 x3" using that x2(1) closed same_trans by blast
    moreover have "?evidence" if "mro_probe ops d (tk_Token (view k)) x2 = (Inr answer, y)"
      "probed_disposition request (tk_Token (view k)) answer = Inr disposition"
      "resolution_recorded durable attempt view x2 k PortOutcomeNotApplied disposition True err t x3" for answer y disposition
    proof -
      have "metadata_evidence durable same view ops request x k disposition"
        unfolding metadata_evidence_def using loaded durable valid k(2) select 5(4) that(1,2) by blast
      with k(1,3) resolution_observed [OF x2(1) that(3) closed] show ?thesis by blast
    qed
    ultimately show ?thesis using probed by blast
  qed
qed

lemma metadata_reconcile_entry:
  assumes "invar x" "probes_keep same ops"
    and "ReconcileIndeterminateTrashMetadata live port view ticket lease ops x = ((t, err), x')"
  shows "same x x' \<and> err \<noteq> None \<or>
    (\<exists>authority k0 k request disposition y. lease = Some authority \<and> ticket = Some k0 \<and> tk_Token (view k) = tk_Token (view k0) \<and>
       same x y \<and> authority_binds view authority request k y \<and>
       metadata_evidence durable same view ops request y k disposition \<and>
       resolution_recorded durable attempt view x k PortOutcomeNotApplied disposition True err t x')"
proof (cases lease)
  case None
  with assms(3) same_refl show ?thesis by (auto simp: ReconcileIndeterminateTrashMetadata_def)
next
  case (Some authority)
  note run_def = reconcileIndeterminateTrashMetadataWithAuthority_def
  from Some assms(3) have run: "reconcileIndeterminateTrashMetadataWithAuthority live port view ticket authority ops x = ((t, err), x')"
    by (simp add: ReconcileIndeterminateTrashMetadata_def)
  obtain current e1 x1 where reload: "reloadTrashMetadataReconcileTicket live port view ticket x = ((current, e1), x1)"
    by (metis prod.exhaust)
  note loaded = reload_success [OF assms(1) reload]
  then have x1: "invar x1" using assms(1) unaffected(1) by blast
  show ?thesis
  proof (cases "\<exists>core request. e1 = None \<and> newTrashMetadataReconcileCoreRequest view current = Inr core \<and>
      completeTrashMetadataReconcileRequest view current core authority x1 = Inr request")
    case False
    then have "err \<noteq> None \<and> x' = x1" using run reload unfolding run_def
      by (cases e1; cases "newTrashMetadataReconcileCoreRequest view current") (auto split: sum.splits)
    with loaded show ?thesis by blast
  next
    case True
    then obtain core request where req: "e1 = None" "newTrashMetadataReconcileCoreRequest view current = Inr core"
      "completeTrashMetadataReconcileRequest view current core authority x1 = Inr request" by blast
    with run reload have "reconcileIndeterminateTrashMetadataWith live port view current request ops x1 = ((t, err), x')"
      unfolding run_def by simp
    note result = conjunct2 [OF metadata_reconcile [OF x1 assms(2) this]]
    from loaded req(1) obtain k0 k1 where k: "ticket = Some k0" "current = Some k1" "tk_Token (view k1) = tk_Token (view k0)"
      "same x x1" by blast
    note bound = complete_request [OF req(3)]
    from result show ?thesis
    proof
      assume "same x1 x' \<and> err \<noteq> None"
      with k(4) same_trans show ?thesis by blast
    next
      assume "\<exists>k0 k disposition. current = Some k0 \<and> tk_Token (view k) = tk_Token (view k0) \<and>
        metadata_evidence durable same view ops request x1 k disposition \<and>
        resolution_recorded durable attempt view x1 k PortOutcomeNotApplied disposition True err t x'"
      then obtain k2 k disposition where e: "current = Some k2" "tk_Token (view k) = tk_Token (view k2)"
        "metadata_evidence durable same view ops request x1 k disposition"
        "resolution_recorded durable attempt view x1 k PortOutcomeNotApplied disposition True err t x'" by blast
      then have "requireTrashMetadataIndeterminateTicket view (Some k) request = None" by (auto simp: metadata_evidence_def)
      from indeterminate_facts [OF this] have "tk_RootID (view k) = trr_root request" "tk_Source (view k) = trr_source request"
        "tk_TrashLayoutBinding (view k) = trr_trashLayoutBinding request" by auto
      with bound(2-5) have "authority_binds view authority request k x1" by (simp add: authority_binds_def)
      moreover have "tk_Token (view k) = tk_Token (view k0)" using e(1,2) k(2,3) by simp
      moreover have "resolution_recorded durable attempt view x k PortOutcomeNotApplied disposition True err t x'"
        by (rule resolution_observed [OF k(4) e(4) same_refl])
      ultimately show ?thesis using Some k(1,4) e(3) by (intro disjI2 exI conjI)
    qed
  qed
qed

end

section \<open>Properties\<close>

text \<open>
  C4: a metadata reconciliation records the judgement of its probe, or nothing. Either it reports an error and leaves the
  ledger as it was, or it has the evidence: the reloaded ticket carried the caller's token, was durably
  metadata-indeterminate and bound to the very layout of the lease, and the probe of its one owned record was judged
  retained (a canonical record of the ticket's path) or absent. Then, without an error, the closed ticket durably records that judgement;
  with an error, the records are unchanged, or the only new record is a prefix of the frame that carries exactly that judgement and
  continues the ticket's history.
\<close>

theorem metadata_reconcile_evidence:
  assumes "distinct_records (pw_directory w)" and "probes_keep (\<lambda>w w'. pw_directory w' = pw_directory w) ops"
    and "ReconcileIndeterminateTrashMetadata live (recovery_ledger_port env port) ticket_view ticket lease ops w = ((t, err), w')"
  shows "pw_directory w' = pw_directory w \<and> err \<noteq> None \<or>
    (\<exists>authority k0 k request disposition y. lease = Some authority \<and> ticket = Some k0 \<and>
       tk_Token (ticket_view k) = tk_Token (ticket_view k0) \<and> pw_directory y = pw_directory w \<and>
       authority_binds ticket_view authority request k y \<and>
       metadata_evidence (port_durable env port) (\<lambda>w w'. pw_directory w' = pw_directory w) ticket_view ops request y k disposition \<and>
       resolution_recorded (port_durable env port) (port_attempt env port) ticket_view w k PortOutcomeNotApplied disposition True err t w')"
  using recording_port.metadata_reconcile_entry [OF assms] by blast

section \<open>A sample run\<close>

definition sample_authority :: "'x trash_authority" where
  "sample_authority = \<lparr> ta_RootID = ''root-1'', ta_AnchorKind = TrashAnchorHomeData,
     ta_MetadataReconciliationIdentity = (\<lambda>x. Inr sample_layout_binding), ta_MetadataBasis = TrashMetadataBasisHomeAbsolute,
     ta_MetadataPathFor = (\<lambda>p x. Inr \<lparr> path_components = [[0x61]] \<rparr>) \<rparr>"

definition sample_reconcile_request :: trash_reconcile_request where
  "sample_reconcile_request = \<lparr> trr_root = ''root-1'', trr_source = ft_Path sample_source, trr_actionID = ''a1'',
     trr_precondition = sample_recovery_precondition, trr_trashLayoutBinding = sample_layout_binding,
     trr_metadataPath = \<lparr> path_components = [[0x61]] \<rparr>, trr_basis = trashPathBasisHomeAbsolute \<rparr>"

abbreviation sample_core_request :: trash_reconcile_request where
  "sample_core_request \<equiv> sample_reconcile_request \<lparr> trr_metadataPath := \<lparr> path_components = [] \<rparr>, trr_basis := 0 \<rparr>"

lemma sample_core_valid:
  "trashMovePathAndBasename (ft_Path sample_source) = Inr (ft_Path sample_source, [0x62])"
  "validateTrashMetadataReconcileCore sample_core_request = None"
  "validateTrashMetadataReconcileRequest sample_reconcile_request = None"
  by code_simp+

lemma sample_binding_facts:
  "rb_root sample_binding = ''root-1''" "rb_source sample_binding = ft_Path sample_source" "rb_actionID sample_binding = ''a1''"
  "rb_precondition sample_binding = sample_recovery_precondition" "rb_trashLayoutBinding sample_binding = sample_layout_binding"
  "rb_token sample_binding = sample_token"
  by (simp_all add: case_binding_def binding_of_def sample_source_def sample_trash_action_def)

lemma sample_core:
  assumes "view t = recovery_facts (sample_recovery n p)"
  shows "newTrashMetadataReconcileCoreRequest view (Some t) = Inr sample_core_request"
proof -
  have "tk_Source (view t) = ft_Path sample_source" "\<lparr> trr_root = tk_RootID (view t), trr_source = ft_Path sample_source,
      trr_actionID = tk_ActionID (view t), trr_precondition = tk_Precondition (view t),
      trr_trashLayoutBinding = tk_TrashLayoutBinding (view t), trr_metadataPath = \<lparr> path_components = [] \<rparr>, trr_basis = 0 \<rparr> =
      sample_core_request"
    using assms by (simp_all add: recovery_facts_def case_recovery_def Let_def sample_binding_facts sample_reconcile_request_def)
  then show ?thesis by (simp add: newTrashMetadataReconcileCoreRequest_def sample_core_valid)
qed

lemma sample_ticket_valid:
  assumes "view t = recovery_facts (sample_recovery n p)"
  shows "validateTrashMetadataReconcileTicket view (Some t) sample_reconcile_request = None"
    "validateTrashMetadataReconcileTicket view (Some t) sample_core_request = None"
proof -
  have "validateTrashToken sample_token = None" "sameTrashMovePrecondition sample_recovery_precondition sample_recovery_precondition"
    "rb_actionKind sample_binding = ActionTrashPath" "rb_destination sample_binding = DestinationTrash" by code_simp+
  then show "validateTrashMetadataReconcileTicket view (Some t) sample_reconcile_request = None"
    "validateTrashMetadataReconcileTicket view (Some t) sample_core_request = None"
    using assms
    by (simp_all add: validateTrashMetadataReconcileTicket_def checks_Cons recovery_facts_def case_recovery_def Let_def
        sample_binding_facts sample_reconcile_request_def)
qed

lemma sample_indeterminate:
  assumes "view t = recovery_facts (sample_recovery n (MetadataIndeterminate, []))"
  shows "requireTrashMetadataIndeterminateTicket view (Some t) sample_reconcile_request = None"
    "requireTrashMetadataIndeterminateTicket view (Some t) sample_core_request = None"
proof -
  have "\<not> recovery_Closed (sample_recovery n (MetadataIndeterminate, []))"
    by (simp add: recovery_Closed_def case_recovery_def recovery_vocabulary_defs)
  with assms sample_ticket_valid [of view t, OF assms]
  show "requireTrashMetadataIndeterminateTicket view (Some t) sample_reconcile_request = None"
    "requireTrashMetadataIndeterminateTicket view (Some t) sample_core_request = None"
    by (simp_all add: requireTrashMetadataIndeterminateTicket_def checks_Cons recovery_facts_def case_recovery_def Let_def
        same_vocabulary)
qed

lemma sample_complete:
  assumes "view t = recovery_facts (sample_recovery n (MetadataIndeterminate, []))"
  shows "completeTrashMetadataReconcileRequest view (Some t) sample_core_request sample_authority x = Inr sample_reconcile_request"
proof -
  have "trash_layout_binding_validate sample_layout_binding = None" "byte_path_new [[0x61]] = Inr \<lparr> path_components = [[0x61]] \<rparr>"
    "trashPathBasisFromMounts TrashMetadataBasisHomeAbsolute = Inr trashPathBasisHomeAbsolute" "TrashAnchorHomeData \<noteq> []"
    by code_simp+
  moreover have "sample_core_request \<lparr> trr_metadataPath := \<lparr> path_components = [[0x61]] \<rparr>, trr_basis := trashPathBasisHomeAbsolute \<rparr> =
      sample_reconcile_request" by (simp add: sample_reconcile_request_def)
  moreover have "ta_RootID sample_authority = trr_root sample_core_request" "trr_trashLayoutBinding sample_core_request = sample_layout_binding"
    by (simp_all add: sample_authority_def sample_reconcile_request_def)
  ultimately show ?thesis using sample_indeterminate(2) [of view t, OF assms] sample_core_valid(3)
    unfolding completeTrashMetadataReconcileRequest_def
    by (simp add: sample_authority_def checks_Cons marked_def)
qed

text \<open>
  A ledger whose last record says that the metadata is indeterminate, and a probe that finds the ticket's own record: the
  reconciliation records that the move was not applied and the record retained.
\<close>

definition sample_metadata_stuck :: "(recovery_event \<times> recovery_outcome) list" where
  "sample_metadata_stuck = [(IntentReserved, []), (MetadataDispatchRecorded, []), (MetadataIndeterminate, []),
     (ReconciliationResolved, OutcomeNotApplied)]"

definition placed_record :: bytes where
  "placed_record = trash_info_contents (bytes_of ''/a'') (bytes_of ''2024-02-29T12:30:05'')"

definition sample_metadata_probe :: "('x, unit) metadata_reconcile_operations" where
  "sample_metadata_probe = productionTrashMetadataReconcileOperations (\<lambda>x. (Inr (Some ()), x))
     (\<lambda>d token x. (Inr (Some placed_record, True), x)) (\<lambda>d x. x)"

lemma sample_metadata_stuck_good: "good_facts sample_metadata_stuck"
  by code_simp

lemma placed_bound: "bound_metadata sample_reconcile_request sample_token placed_record = None"
  by code_simp

lemma sample_metadata_resolved:
  "transitionTrashMetadataReconcileTicket (recovery_ledger_port (facts_env sample_metadata_stuck) port) ticket_view
     (Some (sample_ticket port 2 (MetadataIndeterminate, []))) sample_reconcile_request PortMetadataRetained (sample_port_world 3 2 content) =
   ((Some (sample_ticket port 3 (ReconciliationResolved, OutcomeNotApplied)), None), sample_port_world 4 3 content)"
proof -
  let ?port = "recovery_ledger_port (facts_env sample_metadata_stuck) port" and ?t = "sample_ticket port 2 (MetadataIndeterminate, [])"
    and ?u = "sample_ticket port 3 (ReconciliationResolved, OutcomeNotApplied)"
  have stuck: "length sample_metadata_stuck = 4" "sample_metadata_stuck ! 2 = (MetadataIndeterminate, [])"
    "sample_metadata_stuck ! 3 = (ReconciliationResolved, OutcomeNotApplied)" by (simp_all add: sample_metadata_stuck_def)
  have view: "ticket_view ?t = recovery_facts (sample_recovery 2 (MetadataIndeterminate, []))"
    "ticket_view ?u = recovery_facts (sample_recovery 3 (ReconciliationResolved, OutcomeNotApplied))"
    using sample_tickets(2) [OF sample_metadata_stuck_good, of 2 port] sample_tickets(2) [OF sample_metadata_stuck_good, of 3 port] stuck
    by simp_all
  then have "tk_Token (ticket_view ?t) = sample_token" "tk_Token (ticket_view ?u) = sample_token"
    by (simp_all add: recovery_facts_def case_recovery_def Let_def sample_binding_facts)
  moreover have "lp_Transition ?port (Some ?t) \<lparr> pt_Event = EventReconciliationResolved, pt_ReconciliationOutcome = PortOutcomeNotApplied,
      pt_MetadataDisposition = PortMetadataRetained \<rparr> (sample_port_world 3 2 content) = ((Some ?u, None), sample_port_world 4 3 content)"
    using sample_port_transition [OF sample_metadata_stuck_good, of 3 port 2 content] stuck by (simp add: same_vocabulary)
  moreover have "recovery_Closed (sample_recovery 3 (ReconciliationResolved, OutcomeNotApplied))"
    by (simp add: recovery_Closed_def case_recovery_def recovery_vocabulary_defs)
  then have "tk_Event (ticket_view ?u) = EventReconciliationResolved" "tk_Outcome (ticket_view ?u) = PortOutcomeNotApplied"
    "tk_MetadataDisposition (ticket_view ?u) = PortMetadataRetained" "tk_Closed (ticket_view ?u)"
    using view(2) by (simp_all add: recovery_facts_def case_recovery_def Let_def same_vocabulary)
  ultimately show ?thesis
    using sample_ticket_valid(1) [of ticket_view ?u 3 "(ReconciliationResolved, OutcomeNotApplied)", OF view(2)]
    by (simp add: transitionTrashMetadataReconcileTicket_def Let_def)
qed

lemma sample_metadata_run:
  "ReconcileIndeterminateTrashMetadata True (recovery_ledger_port (facts_env sample_metadata_stuck) port) ticket_view
     (Some (sample_ticket port 2 (MetadataIndeterminate, []))) (Some sample_authority) sample_metadata_probe
     (sample_port_world 3 0 content) =
   ((Some (sample_ticket port 3 (ReconciliationResolved, OutcomeNotApplied)), None), sample_port_world 4 3 content)"
proof -
  let ?port = "recovery_ledger_port (facts_env sample_metadata_stuck) port" and ?t = "sample_ticket port 2 (MetadataIndeterminate, [])"
    and ?u = "sample_ticket port 3 (ReconciliationResolved, OutcomeNotApplied)"
  have stuck: "length sample_metadata_stuck = 4" "sample_metadata_stuck ! 2 = (MetadataIndeterminate, [])"
    by (simp_all add: sample_metadata_stuck_def)
  have view: "ticket_view ?t = recovery_facts (sample_recovery 2 (MetadataIndeterminate, []))"
    using sample_tickets(2) [OF sample_metadata_stuck_good, of 2 port] stuck by simp
  then have token: "tk_Token (ticket_view ?t) = sample_token"
    by (simp add: recovery_facts_def case_recovery_def Let_def sample_binding_facts)
  have "lp_Reload ?port (Some ?t) (sample_port_world 3 clock content) = ((Some ?t, None), sample_port_world 3 (Suc clock) content)" for clock
    using sample_port_reload [OF sample_metadata_stuck_good, of 3 2 port clock content] stuck by simp
  then have reload: "reloadTrashMetadataReconcileTicket True ?port ticket_view (Some ?t) (sample_port_world 3 clock content) =
      ((Some ?t, None), sample_port_world 3 (Suc clock) content)" for clock
    by (simp add: reloadTrashMetadataReconcileTicket_def validateTrashMetadataReconcileReloadInput_def checks_Cons writeTrashInfoContextError_def)
  have valid: "validateTrashMetadataReconcileExecution True ticket_view (Some ?t) sample_reconcile_request = None"
    using sample_indeterminate(1) [of ticket_view ?t 2, OF view] sample_core_valid(3)
    by (simp add: validateTrashMetadataReconcileExecution_def checks_Cons writeTrashInfoContextError_def)
  have probe: "probe_and_resolve ?port ticket_view (Some ?t) sample_reconcile_request sample_metadata_probe () (sample_port_world 3 2 content) =
      ((Some ?u, None), sample_port_world 4 3 content)"
    using sample_metadata_resolved
    by (simp add: probe_and_resolve_def sample_metadata_probe_def productionTrashMetadataReconcileOperations_def token
        probed_disposition_def bytes_or_nil_def placed_bound)
  have ops: "mro_selectDirectories sample_metadata_probe x = (Inr (Some ()), x)" "mro_closeDirectories sample_metadata_probe d x = x" for d x
    by (simp_all add: sample_metadata_probe_def productionTrashMetadataReconcileOperations_def)
  have "reconcileIndeterminateTrashMetadataWith True ?port ticket_view (Some ?t) sample_reconcile_request sample_metadata_probe
      (sample_port_world 3 1 content) = ((Some ?u, None), sample_port_world 4 3 content)"
    using valid reload [of 1] probe by (simp add: reconcileIndeterminateTrashMetadataWith_def ops numeral_2_eq_2)
  then show ?thesis
    using reload [of 0] sample_core [of ticket_view ?t 2, OF view] sample_complete [of ticket_view ?t 2 "sample_port_world 3 (Suc 0) content", OF view]
    by (simp add: ReconcileIndeterminateTrashMetadata_def reconcileIndeterminateTrashMetadataWithAuthority_def)
qed

lemma sample_probes_keep: "probes_keep (\<lambda>w w'. pw_directory w' = pw_directory w) sample_metadata_probe"
  by (simp add: probes_keep_def sample_metadata_probe_def productionTrashMetadataReconcileOperations_def)

theorem metadata_reconcile_evidence_witness:
  "ReconcileIndeterminateTrashMetadata True (recovery_ledger_port (facts_env sample_metadata_stuck) 7) ticket_view
      (Some (sample_ticket 7 2 (MetadataIndeterminate, []))) (Some sample_authority) sample_metadata_probe (sample_port_world 3 0 ()) =
    ((Some (sample_ticket 7 3 (ReconciliationResolved, OutcomeNotApplied)), None), sample_port_world 4 3 ()) \<and>
   tk_MetadataDisposition (ticket_view (sample_ticket 7 3 (ReconciliationResolved, OutcomeNotApplied))) = PortMetadataRetained \<and>
   (\<exists>k. resolution_recorded (port_durable (facts_env sample_metadata_stuck) 7) (port_attempt (facts_env sample_metadata_stuck) 7) ticket_view
      (sample_port_world 3 0 ()) k PortOutcomeNotApplied PortMetadataRetained True None
      (Some (sample_ticket 7 3 (ReconciliationResolved, OutcomeNotApplied))) (sample_port_world 4 3 ()))"
proof -
  let ?u = "sample_ticket 7 3 (ReconciliationResolved, OutcomeNotApplied)"
  have "distinct_records (pw_directory (sample_port_world 3 0 ()))"
    by (rule sample_port_calm [OF sample_metadata_stuck_good]) (simp add: sample_metadata_stuck_def)
  from metadata_reconcile_evidence [OF this sample_probes_keep sample_metadata_run [of 7 "()"]]
  obtain k disposition where recorded: "resolution_recorded (port_durable (facts_env sample_metadata_stuck) 7)
      (port_attempt (facts_env sample_metadata_stuck) 7) ticket_view (sample_port_world 3 0 ()) k PortOutcomeNotApplied disposition True None
      (Some ?u) (sample_port_world 4 3 ())" by blast
  have "ticket_view ?u = recovery_facts (sample_recovery 3 (ReconciliationResolved, OutcomeNotApplied))"
    using sample_tickets(2) [OF sample_metadata_stuck_good, of 3 7] by (simp add: sample_metadata_stuck_def)
  then have "tk_MetadataDisposition (ticket_view ?u) = PortMetadataRetained"
    by (simp add: recovery_facts_def case_recovery_def Let_def same_vocabulary)
  moreover from this recorded have "disposition = PortMetadataRetained" by (auto simp: resolution_recorded_def durably_resolved_def)
  ultimately show ?thesis using recorded sample_metadata_run [of 7 "()"] by blast
qed

end
