(* ===== verification/TrashContentReconcile.thy ===== *)
theory TrashContentReconcile
  imports TrashReconcile
begin

text \<open>
  \<^verbatim>\<open>src/internal/trash/content_reconcile.go\<close>: the positive-only recovery step for an indeterminate
  move to the Trash. It resolves the move as verified when the owned record binds the ticket before and after, the
  source is absent before and after, and the content is present in between; anything else leaves the ticket open.
  The source carries its own copies of the request checks; \<^verbatim>\<open>move_reconcile_copies\<close> shows
  that they agree with those of \<^verbatim>\<open>TrashReconcile\<close>.
\<close>

section \<open>Requests and operations\<close>

type_synonym trash_move_reconcile_request = trash_reconcile_request

record ('x, 'd, 'l) move_reconcile_operations =
  cro_selectDirectories :: "'x \<Rightarrow> (go_error + 'd option) \<times> 'x"
  cro_probeMetadata :: "'d \<Rightarrow> string \<Rightarrow> 'x \<Rightarrow> (go_error + bytes option \<times> bool) \<times> 'x"
  cro_probeContent :: "'d \<Rightarrow> string \<Rightarrow> filesystem_precondition \<Rightarrow> 'x \<Rightarrow> (go_error + bool) \<times> 'x"
  cro_probeSourceAbsence :: "'l \<Rightarrow> bytes \<Rightarrow> filesystem_precondition \<Rightarrow> 'x \<Rightarrow> (go_error + bool) \<times> 'x"
  cro_closeDirectories :: "'d \<Rightarrow> 'x \<Rightarrow> 'x"

definition validateTrashMoveReconcileCore :: "trash_move_reconcile_request \<Rightarrow> go_error option" where
  "validateTrashMoveReconcileCore request = checks
     [marked ErrUnsupported (trusted_root_id_validate (trr_root request)),
      marked ErrUnsupported (action_id_validate (trr_actionID request)),
      (case trashMovePathAndBasename (trr_source request) of
         Inl e \<Rightarrow> Some e
       | Inr (source, _) \<Rightarrow> checks
         [check (byte_path_equal source (trr_source request)) [ErrUnsupported],
          marked ErrUnsupported (filesystem_precondition_validate (trr_precondition request)),
          check (sameTrashMoveTarget (fp_Target (trr_precondition request)) (filesystemTrashMoveTarget (trr_root request) source))
            [ErrUnsupported]]),
      failed (RequiredStatMask ActionTrashPath),
      check (RequiredStatMask ActionTrashPath = Inr (fp_Required (trr_precondition request))) [ErrUnsupported]]"

definition validateTrashMoveReconcileRequest :: "trash_move_reconcile_request \<Rightarrow> go_error option" where
  "validateTrashMoveReconcileRequest request = checks
     [validateTrashMoveReconcileCore request,
      marked ErrUnsupported (trash_layout_binding_validate (trr_trashLayoutBinding request)),
      marked ErrUnsupported (failed (byte_path_new (path_components (trr_metadataPath request)))),
      marked ErrUnsupported (trash_path_basis_validate (trr_basis request))]"

section \<open>Tickets of a reconciliation\<close>

definition validateTrashMoveReconcileTicket ::
    "('t \<Rightarrow> ticket_facts) \<Rightarrow> 't option \<Rightarrow> trash_move_reconcile_request \<Rightarrow> go_error option" where
  "validateTrashMoveReconcileTicket view ticket request =
     (case ticket of
        None \<Rightarrow> Some [ErrUnsupported]
      | Some t \<Rightarrow> (let k = view t in checks
        [marked ErrUnsupported (validateTrashToken (tk_Token k)),
         check (\<not> (tk_RootID k \<noteq> trr_root request \<or> \<not> byte_path_equal (tk_Source k) (trr_source request) \<or>
             tk_ActionID k \<noteq> trr_actionID request \<or> tk_ActionKind k \<noteq> ActionTrashPath \<or>
             tk_Destination k \<noteq> DestinationTrash)) [ErrUnsupported],
         check (tk_TrashLayoutBinding k = trr_trashLayoutBinding request) [ErrUnsupported],
         check (sameTrashMovePrecondition (tk_Precondition k) (trr_precondition request)) [ErrUnsupported]]))"

definition requireTrashMoveIndeterminateTicket ::
    "('t \<Rightarrow> ticket_facts) \<Rightarrow> 't option \<Rightarrow> trash_move_reconcile_request \<Rightarrow> go_error option" where
  "requireTrashMoveIndeterminateTicket view ticket request =
     (case validateTrashMoveReconcileTicket view ticket request of
        Some e \<Rightarrow> Some e
      | None \<Rightarrow>
        (let k = view (the ticket) in checks
          [check (tk_Event k = EventMoveIndeterminate) [ErrUnsupported],
           check (\<not> tk_Closed k) [ErrUnsupported],
           check (\<not> (tk_Outcome k \<noteq> [] \<or> tk_MetadataDisposition k \<noteq> [])) [ErrUnsupported]]))"

definition newTrashMoveReconcileCoreRequest ::
    "('t \<Rightarrow> ticket_facts) \<Rightarrow> 't option \<Rightarrow> go_error + trash_move_reconcile_request" where
  "newTrashMoveReconcileCoreRequest view ticket =
     (case ticket of
        None \<Rightarrow> Inl [ErrUnsupported]
      | Some t \<Rightarrow>
        (case trashMovePathAndBasename (tk_Source (view t)) of
           Inl e \<Rightarrow> Inl e
         | Inr (source, _) \<Rightarrow>
           (let request = \<lparr> trr_root = tk_RootID (view t), trr_source = source, trr_actionID = tk_ActionID (view t),
                  trr_precondition = tk_Precondition (view t), trr_trashLayoutBinding = tk_TrashLayoutBinding (view t),
                  trr_metadataPath = \<lparr> path_components = [] \<rparr>, trr_basis = 0 \<rparr>
            in case validateTrashMoveReconcileCore request of Some e \<Rightarrow> Inl e | None \<Rightarrow> Inr request)))"

definition completeTrashMoveReconcileRequest ::
    "('t \<Rightarrow> ticket_facts) \<Rightarrow> 't option \<Rightarrow> trash_move_reconcile_request \<Rightarrow> 'x trash_authority \<Rightarrow> 'x \<Rightarrow>
     go_error + trash_move_reconcile_request" where
  "completeTrashMoveReconcileRequest view ticket request authority x =
     (case checks
        [requireTrashMoveIndeterminateTicket view ticket request,
         check (ta_RootID authority = trr_root request) [ErrUnsupported],
         check (ta_AnchorKind authority \<noteq> []) [ErrUnsupported],
         marked ErrUnsupported (trash_layout_binding_validate (trr_trashLayoutBinding request))] of
        Some e \<Rightarrow> Inl e
      | None \<Rightarrow>
        (case ta_MetadataReconciliationIdentity authority x of
           Inl e \<Rightarrow> Inl (classifyTrashMetadataAuthorityFailure e)
         | Inr candidate \<Rightarrow>
           (case checks
              [marked ErrUnsupported (trash_layout_binding_validate candidate),
               check (trr_trashLayoutBinding request = candidate) [ErrUnsupported]] of
              Some e \<Rightarrow> Inl e
            | None \<Rightarrow>
              (case ta_MetadataPathFor authority (trr_source request) x of
                 Inl e \<Rightarrow> Inl (classifyTrashMetadataAuthorityFailure e)
               | Inr trusted \<Rightarrow>
                 (case byte_path_new (path_components trusted) of
                    Inl _ \<Rightarrow> Inl [ErrUnsupported]
                  | Inr metadataPath \<Rightarrow>
                    (case trashPathBasisFromMounts (ta_MetadataBasis authority) of
                       Inl e \<Rightarrow> Inl e
                     | Inr basis \<Rightarrow>
                       (let request' = request \<lparr> trr_metadataPath := metadataPath, trr_basis := basis \<rparr>
                        in case validateTrashMoveReconcileRequest request' of
                             Some e \<Rightarrow> Inl e | None \<Rightarrow> Inr request')))))))"

definition validateTrashMoveReconcileReloadInput :: "bool \<Rightarrow> 't option \<Rightarrow> go_error option" where
  "validateTrashMoveReconcileReloadInput live ticket = checks
     [writeTrashInfoContextError live, check (ticket \<noteq> None) [ErrUnsupported]]"

definition validateTrashMoveReconcileExecution ::
    "bool \<Rightarrow> ('t \<Rightarrow> ticket_facts) \<Rightarrow> 't option \<Rightarrow> trash_move_reconcile_request \<Rightarrow> go_error option" where
  "validateTrashMoveReconcileExecution live view ticket request = checks
     [writeTrashInfoContextError live,
      validateTrashMoveReconcileRequest request,
      requireTrashMoveIndeterminateTicket view ticket request]"

text \<open>Unlike the metadata step, a reload under another identity gives back the caller's ticket.\<close>

definition reloadTrashMoveReconcileTicket ::
    "bool \<Rightarrow> ('t, 'x) ledger_port \<Rightarrow> ('t \<Rightarrow> ticket_facts) \<Rightarrow> 't option \<Rightarrow> 'x \<Rightarrow> ('t option \<times> go_error option) \<times> 'x" where
  "reloadTrashMoveReconcileTicket live ledger view ticket x =
     (case validateTrashMoveReconcileReloadInput live ticket of
        Some e \<Rightarrow> ((ticket, Some e), x)
      | None \<Rightarrow>
        (case lp_Reload ledger ticket x of
           ((None, Some e), x') \<Rightarrow> ((ticket, Some e), x')
         | ((None, None), x') \<Rightarrow> ((ticket, Some [ErrInterrupted]), x')
         | ((Some current, err), x') \<Rightarrow>
           (if tk_Token (view current) \<noteq> tk_Token (view (the ticket))
            then (ticket, Some (errors_Join err [ErrUnsupported]))
            else (Some current, err),
            x')))"

definition transitionTrashMoveReconcileTicket ::
    "('t, 'x) ledger_port \<Rightarrow> ('t \<Rightarrow> ticket_facts) \<Rightarrow> 't option \<Rightarrow> trash_move_reconcile_request \<Rightarrow> 'x \<Rightarrow>
     ('t option \<times> go_error option) \<times> 'x" where
  "transitionTrashMoveReconcileTicket ledger view ticket request x =
     (let transition = \<lparr> pt_Event = EventReconciliationResolved, pt_ReconciliationOutcome = PortOutcomeMoveVerified,
            pt_MetadataDisposition = [] \<rparr>
      in case lp_Transition ledger ticket transition x of
           ((Some updated, err), x') \<Rightarrow>
             (if (case ticket of None \<Rightarrow> True | Some t \<Rightarrow> tk_Token (view updated) \<noteq> tk_Token (view t))
              then (ticket, Some (errors_Join err [ErrUnsupported]))
              else case validateTrashMoveReconcileTicket view (Some updated) request of
                Some validationErr \<Rightarrow> (Some updated, Some (errors_Join err validationErr))
              | None \<Rightarrow>
                if tk_Event (view updated) \<noteq> pt_Event transition \<or>
                   tk_Outcome (view updated) \<noteq> pt_ReconciliationOutcome transition \<or>
                   tk_MetadataDisposition (view updated) \<noteq> [] \<or> tk_Closed (view updated)
                then (Some updated, Some (errors_Join err [ErrUnsupported]))
                else (Some updated, err),
              x')
         | ((None, Some err), x') \<Rightarrow> ((ticket, Some err), x')
         | ((None, None), x') \<Rightarrow> ((ticket, Some [ErrInterrupted]), x'))"

section \<open>Probes\<close>

definition probeTrashMoveReconcileSourceAbsence ::
    "('l \<Rightarrow> bytes \<Rightarrow> filesystem_precondition \<Rightarrow> 'x \<Rightarrow> (go_error + bool) \<times> 'x) \<Rightarrow> 'l \<Rightarrow> trash_move_reconcile_request \<Rightarrow> 'x \<Rightarrow>
     go_error option \<times> 'x" where
  "probeTrashMoveReconcileSourceAbsence probe source request x =
     (case trashMovePathAndBasename (trr_source request) of
        Inl e \<Rightarrow> (Some e, x)
      | Inr (_, basename) \<Rightarrow>
        (case probe source basename (trr_precondition request) x of
           (Inl e, x') \<Rightarrow> (Some e, x')
         | (Inr absent, x') \<Rightarrow> (check absent [ErrDrifted], x')))"

definition probeTrashMoveReconcileMetadata ::
    "('d \<Rightarrow> string \<Rightarrow> 'x \<Rightarrow> (go_error + bytes option \<times> bool) \<times> 'x) \<Rightarrow> 'd \<Rightarrow> string \<Rightarrow> trash_move_reconcile_request \<Rightarrow> 'x \<Rightarrow>
     (go_error + bytes) \<times> 'x" where
  "probeTrashMoveReconcileMetadata probe directories token request x =
     (case probe directories token x of
        (Inl e, x') \<Rightarrow> (Inl e, x')
      | (Inr (contents, present), x') \<Rightarrow>
        (if \<not> present then Inl [ErrDrifted]
         else case bound_metadata request token (bytes_or_nil contents) of
             Some e \<Rightarrow> Inl e | None \<Rightarrow> Inr (bytes_or_nil contents),
         x'))"

section \<open>The reconciliation\<close>

text \<open>The five probes in their order; the two readings of the record must agree byte for byte.\<close>

definition prove_move ::
    "('x, 'd, 'l) move_reconcile_operations \<Rightarrow> 'l \<Rightarrow> 'd \<Rightarrow> string \<Rightarrow> trash_move_reconcile_request \<Rightarrow> 'x \<Rightarrow> go_error option \<times> 'x" where
  "prove_move ops source directories token request x =
     (case probeTrashMoveReconcileMetadata (cro_probeMetadata ops) directories token request x of
        (Inl e, x1) \<Rightarrow> (Some e, x1)
      | (Inr metadata, x1) \<Rightarrow>
        (case probeTrashMoveReconcileSourceAbsence (cro_probeSourceAbsence ops) source request x1 of
           (Some e, x2) \<Rightarrow> (Some e, x2)
         | (None, x2) \<Rightarrow>
           (case cro_probeContent ops directories token (trr_precondition request) x2 of
              (Inl e, x3) \<Rightarrow> (Some e, x3)
            | (Inr present, x3) \<Rightarrow>
              if \<not> present then (Some [ErrDrifted], x3)
              else (case probeTrashMoveReconcileSourceAbsence (cro_probeSourceAbsence ops) source request x3 of
                 (Some e, x4) \<Rightarrow> (Some e, x4)
               | (None, x4) \<Rightarrow>
                 (case probeTrashMoveReconcileMetadata (cro_probeMetadata ops) directories token request x4 of
                    (Inl e, x5) \<Rightarrow> (Some e, x5)
                  | (Inr final, x5) \<Rightarrow> (check (metadata = final) [ErrDrifted], x5))))))"

definition prove_and_resolve ::
    "('t, 'x) ledger_port \<Rightarrow> ('t \<Rightarrow> ticket_facts) \<Rightarrow> 't option \<Rightarrow> 'l \<Rightarrow> trash_move_reconcile_request \<Rightarrow>
     ('x, 'd, 'l) move_reconcile_operations \<Rightarrow> 'd \<Rightarrow> 'x \<Rightarrow> ('t option \<times> go_error option) \<times> 'x" where
  "prove_and_resolve ledger view current source request ops directories x =
     (case prove_move ops source directories (tk_Token (view (the current))) request x of
        (Some e, x') \<Rightarrow> ((current, Some e), x')
      | (None, x') \<Rightarrow> transitionTrashMoveReconcileTicket ledger view current request x')"

definition reconcileIndeterminateTrashMoveWithSource ::
    "bool \<Rightarrow> ('t, 'x) ledger_port \<Rightarrow> ('t \<Rightarrow> ticket_facts) \<Rightarrow> 't option \<Rightarrow> 'l \<Rightarrow> trash_move_reconcile_request \<Rightarrow>
     ('x, 'd, 'l) move_reconcile_operations \<Rightarrow> 'x \<Rightarrow> ('t option \<times> go_error option) \<times> 'x" where
  "reconcileIndeterminateTrashMoveWithSource live ledger view ticket source request ops x =
     (case validateTrashMoveReconcileExecution live view ticket request of
        Some e \<Rightarrow> ((ticket, Some e), x)
      | None \<Rightarrow>
        (case reloadTrashMoveReconcileTicket live ledger view ticket x of
           ((current, Some e), x1) \<Rightarrow> ((current, Some e), x1)
         | ((current, None), x1) \<Rightarrow>
           (case validateTrashMoveReconcileExecution live view current request of
              Some e \<Rightarrow> ((current, Some e), x1)
            | None \<Rightarrow>
              (case cro_selectDirectories ops x1 of
                 (Inl e, x2) \<Rightarrow> ((current, Some e), x2)
               | (Inr None, x2) \<Rightarrow> ((current, Some [ErrUnsupported]), x2)
               | (Inr (Some directories), x2) \<Rightarrow>
                 (case prove_and_resolve ledger view current source request ops directories x2 of
                    (result, x3) \<Rightarrow> (result, cro_closeDirectories ops directories x3))))))"

definition reconcileIndeterminateTrashMoveWithAuthority ::
    "bool \<Rightarrow> ('t, 'x) ledger_port \<Rightarrow> ('t \<Rightarrow> ticket_facts) \<Rightarrow> 't option \<Rightarrow> 'l \<Rightarrow> 'x trash_authority \<Rightarrow>
     ('x, 'd, 'l) move_reconcile_operations \<Rightarrow> 'x \<Rightarrow> ('t option \<times> go_error option) \<times> 'x" where
  "reconcileIndeterminateTrashMoveWithAuthority live ledger view ticket source authority ops x =
     (case reloadTrashMoveReconcileTicket live ledger view ticket x of
        ((current, Some e), x1) \<Rightarrow> ((current, Some e), x1)
      | ((current, None), x1) \<Rightarrow>
        (case newTrashMoveReconcileCoreRequest view current of
           Inl e \<Rightarrow> ((current, Some e), x1)
         | Inr core \<Rightarrow>
           (case completeTrashMoveReconcileRequest view current core authority x1 of
              Inl e \<Rightarrow> ((current, Some e), x1)
            | Inr request \<Rightarrow> reconcileIndeterminateTrashMoveWithSource live ledger view current source request ops x1)))"

definition productionTrashMoveReconcileOperations ::
    "('x \<Rightarrow> (go_error + 'd option) \<times> 'x) \<Rightarrow> ('d \<Rightarrow> string \<Rightarrow> 'x \<Rightarrow> (go_error + bytes option \<times> bool) \<times> 'x) \<Rightarrow>
     ('d \<Rightarrow> string \<Rightarrow> filesystem_precondition \<Rightarrow> 'x \<Rightarrow> (go_error + bool) \<times> 'x) \<Rightarrow>
     ('l \<Rightarrow> bytes \<Rightarrow> filesystem_precondition \<Rightarrow> 'x \<Rightarrow> (go_error + bool) \<times> 'x) \<Rightarrow> ('d \<Rightarrow> 'x \<Rightarrow> 'x) \<Rightarrow>
     ('x, 'd, 'l) move_reconcile_operations" where
  "productionTrashMoveReconcileOperations select probeInfo probeContent probeAbsence close_directories =
     \<lparr> cro_selectDirectories = select, cro_probeMetadata = probeInfo, cro_probeContent = probeContent,
       cro_probeSourceAbsence = probeAbsence, cro_closeDirectories = close_directories \<rparr>"

definition ReconcileIndeterminateTrashMove ::
    "bool \<Rightarrow> ('t, 'x) ledger_port \<Rightarrow> ('t \<Rightarrow> ticket_facts) \<Rightarrow> 't option \<Rightarrow> 'l option \<Rightarrow> 'x trash_authority option \<Rightarrow>
     ('x, 'd, 'l) move_reconcile_operations \<Rightarrow> 'x \<Rightarrow> ('t option \<times> go_error option) \<times> 'x" where
  "ReconcileIndeterminateTrashMove live ledger view ticket source lease ops x =
     (case (source, lease) of
        (Some source, Some authority) \<Rightarrow>
          reconcileIndeterminateTrashMoveWithAuthority live ledger view ticket source authority ops x
      | _ \<Rightarrow> ((ticket, Some [ErrUnsupported]), x))"

section \<open>The copies agree\<close>

lemma move_reconcile_copies:
  "validateTrashMoveReconcileCore = validateTrashMetadataReconcileCore"
  "validateTrashMoveReconcileRequest = validateTrashMetadataReconcileRequest"
  "validateTrashMoveReconcileTicket = validateTrashMetadataReconcileTicket"
  "newTrashMoveReconcileCoreRequest = newTrashMetadataReconcileCoreRequest"
  "validateTrashMoveReconcileReloadInput = validateTrashMetadataReconcileReloadInput"
proof -
  show core: "validateTrashMoveReconcileCore = validateTrashMetadataReconcileCore"
    by (intro ext) (simp add: validateTrashMoveReconcileCore_def validateTrashMetadataReconcileCore_def)
  show "validateTrashMoveReconcileRequest = validateTrashMetadataReconcileRequest"
    by (intro ext) (simp add: validateTrashMoveReconcileRequest_def validateTrashMetadataReconcileRequest_def core)
  show "validateTrashMoveReconcileTicket = validateTrashMetadataReconcileTicket"
    by (intro ext) (simp add: validateTrashMoveReconcileTicket_def validateTrashMetadataReconcileTicket_def)
  show "newTrashMoveReconcileCoreRequest = newTrashMetadataReconcileCoreRequest"
    by (intro ext) (simp only: newTrashMoveReconcileCoreRequest_def newTrashMetadataReconcileCoreRequest_def core)
  show "validateTrashMoveReconcileReloadInput = validateTrashMetadataReconcileReloadInput"
    by (intro ext) (simp add: validateTrashMoveReconcileReloadInput_def validateTrashMetadataReconcileReloadInput_def)
qed

section \<open>Nothing is resolved without proof\<close>

definition move_probes_keep :: "('x \<Rightarrow> 'x \<Rightarrow> bool) \<Rightarrow> ('x, 'd, 'l) move_reconcile_operations \<Rightarrow> bool" where
  "move_probes_keep same ops \<longleftrightarrow>
     (\<forall>x. same x (snd (cro_selectDirectories ops x))) \<and> (\<forall>d token x. same x (snd (cro_probeMetadata ops d token x))) \<and>
     (\<forall>d token p x. same x (snd (cro_probeContent ops d token p x))) \<and>
     (\<forall>l b p x. same x (snd (cro_probeSourceAbsence ops l b p x))) \<and> (\<forall>d x. same x (cro_closeDirectories ops d x))"

text \<open>
  The proof of a move: the bound record, the absent source, the retained content, the absent source and
  the same record again, each probed in the state the one before left.
\<close>

definition move_proved ::
    "('x, 'd, 'l) move_reconcile_operations \<Rightarrow> 'l \<Rightarrow> 'd \<Rightarrow> string \<Rightarrow> trash_move_reconcile_request \<Rightarrow> 'x \<Rightarrow> bool" where
  "move_proved ops source d token request x \<longleftrightarrow>
     (let basename = last (path_components (trr_source request)); expected = trr_precondition request
      in \<exists>c x1 x2 x3 x4 c' x5. cro_probeMetadata ops d token x = (Inr (c, True), x1) \<and>
           bound_metadata request token (bytes_or_nil c) = None \<and>
           cro_probeSourceAbsence ops source basename expected x1 = (Inr True, x2) \<and>
           cro_probeContent ops d token expected x2 = (Inr True, x3) \<and>
           cro_probeSourceAbsence ops source basename expected x3 = (Inr True, x4) \<and>
           cro_probeMetadata ops d token x4 = (Inr (c', True), x5) \<and> bytes_or_nil c' = bytes_or_nil c)"

definition move_evidence ::
    "('x \<Rightarrow> 't \<Rightarrow> port_event list \<Rightarrow> bool) \<Rightarrow> ('x \<Rightarrow> 'x \<Rightarrow> bool) \<Rightarrow> ('t \<Rightarrow> ticket_facts) \<Rightarrow>
     ('x, 'd, 'l) move_reconcile_operations \<Rightarrow> 'l \<Rightarrow> trash_move_reconcile_request \<Rightarrow> 'x \<Rightarrow> 't \<Rightarrow> bool" where
  "move_evidence durable same view ops source request x k \<longleftrightarrow>
     (\<exists>x1 x2 d. same x x1 \<and> durable x1 k (forward_events True EventMoveIndeterminate) \<and>
        requireTrashMoveIndeterminateTicket view (Some k) request = None \<and>
        cro_selectDirectories ops x1 = (Inr (Some d), x2) \<and> move_proved ops source d (tk_Token (view k)) request x2)"

lemma move_probes_keepD:
  assumes "move_probes_keep same ops"
  shows "cro_selectDirectories ops x = (r, x1) \<Longrightarrow> same x x1" "cro_probeMetadata ops d token x = (a, x2) \<Longrightarrow> same x x2"
    "cro_probeContent ops d token p x = (b, x3) \<Longrightarrow> same x x3" "cro_probeSourceAbsence ops l n p x = (b, x4) \<Longrightarrow> same x x4"
    "same x (cro_closeDirectories ops d x)"
  using assms unfolding move_probes_keep_def by (metis snd_conv)+

lemma basename_last: "trashMovePathAndBasename p = Inr (q, b) \<Longrightarrow> q = p \<and> b = last (path_components p)"
  by (cases p; cases q) (auto simp: trashMovePathAndBasename_def Let_def byte_path_new_Inr split: if_splits sum.splits)

lemma metadata_probe_Inr:
  "probeTrashMoveReconcileMetadata probe d token request x = (Inr c, x') \<longleftrightarrow>
     (\<exists>a. probe d token x = (Inr (a, True), x') \<and> bound_metadata request token (bytes_or_nil a) = None \<and> c = bytes_or_nil a)"
  by (auto simp: probeTrashMoveReconcileMetadata_def split: prod.splits sum.splits option.splits)

lemma absence_probe_None:
  assumes "probeTrashMoveReconcileSourceAbsence probe source request x = (None, x')"
  shows "probe source (last (path_components (trr_source request))) (trr_precondition request) x = (Inr True, x')"
  using assms
  by (auto simp: probeTrashMoveReconcileSourceAbsence_def dest!: basename_last split: prod.splits sum.splits)

lemma move_indeterminate_facts:
  assumes "requireTrashMoveIndeterminateTicket view ticket request = None"
  obtains k where "ticket = Some k" "tk_Event (view k) = EventMoveIndeterminate" "tk_Destination (view k) = DestinationTrash"
    "tk_RootID (view k) = trr_root request" "tk_Source (view k) = trr_source request"
    "tk_TrashLayoutBinding (view k) = trr_trashLayoutBinding request"
  using assms
  by (auto simp: requireTrashMoveIndeterminateTicket_def validateTrashMoveReconcileTicket_def Let_def checks_Cons
      split: option.splits)

lemma complete_move_request:
  assumes "completeTrashMoveReconcileRequest view ticket request authority x = Inr request'"
  shows "requireTrashMoveIndeterminateTicket view ticket request = None"
    "ta_RootID authority = trr_root request'" "ta_MetadataReconciliationIdentity authority x = Inr (trr_trashLayoutBinding request')"
    "ta_MetadataPathFor authority (trr_source request') x = Inr (trr_metadataPath request')"
    "trashPathBasisFromMounts (ta_MetadataBasis authority) = Inr (trr_basis request')"
  using assms
  by (auto simp: completeTrashMoveReconcileRequest_def Let_def checks_Cons byte_path_new_Inr split: option.splits sum.splits)

context recording_ledger begin

lemma prove_move_None:
  assumes "prove_move ops source d token request x = (None, x')"
  shows "move_proved ops source d token request x"
proof -
  let ?meta = "\<lambda>x. probeTrashMoveReconcileMetadata (cro_probeMetadata ops) d token request x"
  let ?gone = "\<lambda>x. probeTrashMoveReconcileSourceAbsence (cro_probeSourceAbsence ops) source request x"
  note run = assms [unfolded prove_move_def]
  obtain r x1 where 1: "?meta x = (r, x1)" by (metis prod.exhaust)
  with run obtain m where m: "r = Inr m" by (cases r) simp_all
  obtain e2 x2 where 2: "?gone x1 = (e2, x2)" by (metis prod.exhaust)
  with run 1 m have e2: "e2 = None" by (cases e2) simp_all
  obtain r3 x3 where 3: "cro_probeContent ops d token (trr_precondition request) x2 = (r3, x3)" by (metis prod.exhaust)
  with run 1 2 m e2 have r3: "r3 = Inr True" by (cases r3) (auto split: if_splits)
  obtain e4 x4 where 4: "?gone x3 = (e4, x4)" by (metis prod.exhaust)
  with run 1 2 3 m e2 r3 have e4: "e4 = None" by (cases e4) simp_all
  obtain r5 x5 where 5: "?meta x4 = (r5, x5)" by (metis prod.exhaust)
  with run 1 2 3 4 m e2 r3 e4 have "r5 = Inr m" by (cases r5) simp_all
  with 1 2 3 4 5 m e2 r3 e4 have "?meta x = (Inr m, x1)" "?gone x1 = (None, x2)"
    "cro_probeContent ops d token (trr_precondition request) x2 = (Inr True, x3)" "?gone x3 = (None, x4)"
    "?meta x4 = (Inr m, x5)" by simp_all
  then have meta: "?meta x = (Inr m, x1)" "?meta x4 = (Inr m, x5)" and gone: "?gone x1 = (None, x2)" "?gone x3 = (None, x4)"
    and content: "cro_probeContent ops d token (trr_precondition request) x2 = (Inr True, x3)" by simp_all
  from meta obtain c c' where "cro_probeMetadata ops d token x = (Inr (c, True), x1)" "bound_metadata request token (bytes_or_nil c) = None"
    "cro_probeMetadata ops d token x4 = (Inr (c', True), x5)" "bytes_or_nil c' = bytes_or_nil c"
    unfolding metadata_probe_Inr by auto
  with absence_probe_None [OF gone(1)] absence_probe_None [OF gone(2)] content show ?thesis
    unfolding move_proved_def Let_def by blast
qed

lemma absence_observes:
  assumes "move_probes_keep same ops" "probeTrashMoveReconcileSourceAbsence (cro_probeSourceAbsence ops) source request x = (e, x')"
  shows "same x x'"
  using assms(2) move_probes_keepD(4) [OF assms(1)] same_refl
  by (auto simp: probeTrashMoveReconcileSourceAbsence_def split: sum.splits prod.splits)

lemma metadata_observes:
  assumes "move_probes_keep same ops" "probeTrashMoveReconcileMetadata (cro_probeMetadata ops) d token request x = (r, x')"
  shows "same x x'"
  using assms(2) move_probes_keepD(2) [OF assms(1)]
  by (auto simp: probeTrashMoveReconcileMetadata_def split: sum.splits prod.splits)

lemma prove_move_observes:
  assumes "move_probes_keep same ops" "prove_move ops source d token request x = (e, x')"
  shows "same x x'"
proof -
  let ?meta = "\<lambda>x. probeTrashMoveReconcileMetadata (cro_probeMetadata ops) d token request x"
  let ?gone = "\<lambda>x. probeTrashMoveReconcileSourceAbsence (cro_probeSourceAbsence ops) source request x"
  let ?content = "\<lambda>x. cro_probeContent ops d token (trr_precondition request) x"
  define y1 where "y1 = snd (?meta x)"
  define y2 where "y2 = snd (?gone y1)"
  define y3 where "y3 = snd (?content y2)"
  define y4 where "y4 = snd (?gone y3)"
  have steps: "same x y1" "same y1 y2" "same y2 y3" "same y3 y4" "same y4 (snd (?meta y4))"
    unfolding y1_def y2_def y3_def y4_def
    using metadata_observes [OF assms(1)] absence_observes [OF assms(1)] move_probes_keepD(3) [OF assms(1)] by (metis prod.collapse)+
  then have "same x y2" "same x y3" "same x y4" "same x (snd (?meta y4))" using same_trans by blast+
  moreover have "x' \<in> {y1, y2, y3, y4, snd (?meta y4)}"
    using assms(2) unfolding prove_move_def y1_def y2_def y3_def y4_def
    by (auto split: prod.splits sum.splits option.splits if_splits)
  ultimately show ?thesis using steps(1) by blast
qed

lemma reload_move_success:
  assumes "invar x" "reloadTrashMoveReconcileTicket live port view ticket x = ((t, err), x')"
  shows "same x x' \<and> (err = None \<longrightarrow> (\<exists>k0 k es. ticket = Some k0 \<and> t = Some k \<and> tk_Token (view k) = tk_Token (view k0) \<and> durable x' k es))"
proof -
  obtain out e y where run: "lp_Reload port ticket x = ((out, e), y)" by (metis prod.exhaust)
  note law = reloaded [OF assms(1) run]
  show ?thesis
  proof (cases "validateTrashMoveReconcileReloadInput live ticket")
    case (Some e)
    with assms(2) same_refl show ?thesis by (auto simp: reloadTrashMoveReconcileTicket_def)
  next
    case None
    then obtain k0 where k0: "ticket = Some k0" by (auto simp: validateTrashMoveReconcileReloadInput_def checks_Cons)
    have "x' = y" using assms(2) run None by (cases out; cases e) (simp_all add: reloadTrashMoveReconcileTicket_def)
    moreover have "\<exists>k es. t = Some k \<and> tk_Token (view k) = tk_Token (view k0) \<and> durable x' k es" if "err = None"
      using assms(2) run None law that k0 \<open>x' = y\<close>
      by (cases out; cases e) (auto simp: reloadTrashMoveReconcileTicket_def errors_Join_def split: if_splits)
    ultimately show ?thesis using law k0 by blast
  qed
qed

lemma move_resolution:
  assumes "invar x" "transitionTrashMoveReconcileTicket port view (Some k) request x = ((t, err), x')"
  shows "invar x' \<and> resolution_recorded durable attempt view x k PortOutcomeMoveVerified [] False err t x'"
proof -
  let ?tr = "\<lparr> pt_Event = EventReconciliationResolved, pt_ReconciliationOutcome = PortOutcomeMoveVerified,
    pt_MetadataDisposition = [] \<rparr>"
  obtain out e y where run: "lp_Transition port (Some k) ?tr x = ((out, e), y)" by (metis prod.exhaust)
  note law = advanced [OF assms(1) run]
  have "x' = y" using assms(2) run
    by (cases out; cases e) (auto simp: transitionTrashMoveReconcileTicket_def Let_def split: if_splits option.splits)
  moreover have "durably_resolved durable view x' k PortOutcomeMoveVerified [] False t" if "err = None"
    using assms(2) run law that \<open>x' = y\<close> unfolding durably_resolved_def
    by (cases out; cases e) (auto simp: transitionTrashMoveReconcileTicket_def Let_def errors_Join_def split: if_splits option.splits)
  moreover have "attempt k ?tr x (err \<noteq> None) x'"
  proof (cases "err = None")
    case True
    then have "e = None" using assms(2) run
      by (cases out; cases e) (auto simp: transitionTrashMoveReconcileTicket_def Let_def errors_Join_def split: if_splits option.splits)
    with True attempted [OF assms(1) run] \<open>x' = y\<close> show ?thesis by simp
  qed (use attempt_failed [OF attempted [OF assms(1) run]] \<open>x' = y\<close> in simp)
  ultimately show ?thesis using law unfolding resolution_recorded_def by blast
qed

lemma move_reconcile:
  assumes "invar x" "move_probes_keep same ops"
    and "reconcileIndeterminateTrashMoveWithSource live port view ticket source request ops x = ((t, err), x')"
  shows "invar x' \<and> (same x x' \<and> err \<noteq> None \<or>
    (\<exists>k0 k. ticket = Some k0 \<and> tk_Token (view k) = tk_Token (view k0) \<and>
       move_evidence durable same view ops source request x k \<and>
       resolution_recorded durable attempt view x k PortOutcomeMoveVerified [] False err t x'))"
    (is "invar x' \<and> (_ \<or> ?evidence)")
proof -
  let ?valid = "\<lambda>t. validateTrashMoveReconcileExecution live view t request"
  note run_def = reconcileIndeterminateTrashMoveWithSource_def
  obtain current e1 x1 where reload: "reloadTrashMoveReconcileTicket live port view ticket x = ((current, e1), x1)"
    by (metis prod.exhaust)
  obtain r x2 where select: "cro_selectDirectories ops x1 = (r, x2)" by (metis prod.exhaust)
  note loaded = reload_move_success [OF assms(1) reload] and selected = move_probes_keepD(1) [OF assms(2) select]
  have x2: "same x x2" "invar x1" "invar x2" using loaded selected same_trans assms(1) unaffected(1) by blast+
  have failed: ?thesis if "err \<noteq> None" "x' = x \<or> x' = x1 \<or> x' = x2"
    using that loaded x2 assms(1) same_refl by blast
  consider e where "?valid ticket = Some e" | e where "?valid ticket = None" "e1 = Some e"
    | e where "?valid ticket = None" "e1 = None" "?valid current = Some e"
    | "?valid ticket = None" "e1 = None" "?valid current = None" "\<forall>d. r \<noteq> Inr (Some d)"
    | d where "?valid ticket = None" "e1 = None" "?valid current = None" "r = Inr (Some d)"
    by (cases "?valid ticket"; cases e1; cases "?valid current"; metis)
  then show ?thesis
  proof cases
    case (1 e)
    with assms(3) have "err = Some e" "x' = x" unfolding run_def by simp_all
    then show ?thesis by (intro failed) simp_all
  next
    case (2 e)
    with assms(3) reload have "err = Some e" "x' = x1" unfolding run_def by simp_all
    then show ?thesis by (intro failed) simp_all
  next
    case (3 e)
    with assms(3) reload have "err = Some e" "x' = x1" unfolding run_def by simp_all
    then show ?thesis by (intro failed) simp_all
  next
    case 4
    with assms(3) reload select show ?thesis unfolding run_def by (intro failed) (auto split: sum.splits option.splits)
  next
    case (5 d)
    from 5(3) have valid: "requireTrashMoveIndeterminateTicket view current request = None"
      by (simp add: validateTrashMoveReconcileExecution_def checks_Cons)
    from loaded 5(2) obtain k0 k es where k: "ticket = Some k0" "current = Some k" "tk_Token (view k) = tk_Token (view k0)"
      "durable x1 k es" by blast
    have "tk_Event (view k) = EventMoveIndeterminate" "tk_Destination (view k) = DestinationTrash"
      using move_indeterminate_facts [OF valid] k(2) by auto
    with forward [OF k(4)] k(4) have durable: "durable x1 k (forward_events True EventMoveIndeterminate)"
      by (simp add: forward_port_events)
    obtain e3 x3 where probed: "prove_move ops source d (tk_Token (view k)) request x2 = (e3, x3)" by (metis prod.exhaust)
    note keep = prove_move_observes [OF assms(2) probed]
    then have x3: "same x x3" "invar x3" using x2 same_trans unaffected(1) by blast+
    obtain result x4 where inner: "prove_and_resolve port view (Some k) source request ops d x2 = (result, x4)" by (metis prod.exhaust)
    then have out: "result = (t, err)" "x' = cro_closeDirectories ops d x4"
      using assms(3) reload select 5 k(2) unfolding run_def by simp_all
    have closed: "same x4 x'" unfolding out by (rule move_probes_keepD(5) [OF assms(2)])
    show ?thesis
    proof (cases e3)
      case (Some e)
      with inner out probed have "err = Some e" "x4 = x3" by (simp_all add: prove_and_resolve_def)
      with x3 closed same_trans unaffected(1) show ?thesis by blast
    next
      case None
      with inner out probed have "transitionTrashMoveReconcileTicket port view (Some k) request x3 = ((t, err), x4)"
        by (simp add: prove_and_resolve_def)
      note resolved = move_resolution [OF x3(2) this]
      have "move_evidence durable same view ops source request x k"
        unfolding move_evidence_def
        using loaded durable valid k(2) select 5(4) prove_move_None [OF probed [unfolded None]] by blast
      with k(1,3) resolved resolution_observed [OF x3(1) _ closed] unaffected(1) [OF closed] show ?thesis by blast
    qed
  qed
qed

lemma move_reconcile_entry:
  assumes "invar x" "move_probes_keep same ops"
    and "ReconcileIndeterminateTrashMove live port view ticket source lease ops x = ((t, err), x')"
  shows "same x x' \<and> err \<noteq> None \<or>
    (\<exists>l authority k0 k request y. source = Some l \<and> lease = Some authority \<and> ticket = Some k0 \<and>
       tk_Token (view k) = tk_Token (view k0) \<and> same x y \<and> authority_binds view authority request k y \<and>
       move_evidence durable same view ops l request y k \<and>
       resolution_recorded durable attempt view x k PortOutcomeMoveVerified [] False err t x')"
proof (cases "\<exists>l authority. source = Some l \<and> lease = Some authority")
  case False
  with assms(3) same_refl show ?thesis by (auto simp: ReconcileIndeterminateTrashMove_def split: option.splits)
next
  case True
  then obtain l authority where given: "source = Some l" "lease = Some authority" by blast
  note run_def = reconcileIndeterminateTrashMoveWithAuthority_def
  from given assms(3) have run: "reconcileIndeterminateTrashMoveWithAuthority live port view ticket l authority ops x = ((t, err), x')"
    by (simp add: ReconcileIndeterminateTrashMove_def)
  obtain current e1 x1 where reload: "reloadTrashMoveReconcileTicket live port view ticket x = ((current, e1), x1)"
    by (metis prod.exhaust)
  note loaded = reload_move_success [OF assms(1) reload]
  then have x1: "invar x1" using assms(1) unaffected(1) by blast
  show ?thesis
  proof (cases "\<exists>core request. e1 = None \<and> newTrashMoveReconcileCoreRequest view current = Inr core \<and>
      completeTrashMoveReconcileRequest view current core authority x1 = Inr request")
    case False
    then have "err \<noteq> None \<and> x' = x1" using run reload unfolding run_def
      by (cases e1; cases "newTrashMoveReconcileCoreRequest view current") (auto split: sum.splits)
    with loaded show ?thesis by blast
  next
    case True
    then obtain core request where req: "e1 = None" "newTrashMoveReconcileCoreRequest view current = Inr core"
      "completeTrashMoveReconcileRequest view current core authority x1 = Inr request" by blast
    with run reload have "reconcileIndeterminateTrashMoveWithSource live port view current l request ops x1 = ((t, err), x')"
      unfolding run_def by simp
    note result = conjunct2 [OF move_reconcile [OF x1 assms(2) this]]
    from loaded req(1) obtain k0 k1 where k: "ticket = Some k0" "current = Some k1" "tk_Token (view k1) = tk_Token (view k0)"
      "same x x1" by blast
    note bound = complete_move_request [OF req(3)]
    from result show ?thesis
    proof
      assume "same x1 x' \<and> err \<noteq> None"
      with k(4) same_trans show ?thesis by blast
    next
      assume "\<exists>k0 k. current = Some k0 \<and> tk_Token (view k) = tk_Token (view k0) \<and>
        move_evidence durable same view ops l request x1 k \<and>
        resolution_recorded durable attempt view x1 k PortOutcomeMoveVerified [] False err t x'"
      then obtain k2 k where e: "current = Some k2" "tk_Token (view k) = tk_Token (view k2)"
        "move_evidence durable same view ops l request x1 k"
        "resolution_recorded durable attempt view x1 k PortOutcomeMoveVerified [] False err t x'" by blast
      then have "requireTrashMoveIndeterminateTicket view (Some k) request = None" by (auto simp: move_evidence_def)
      from move_indeterminate_facts [OF this] have "tk_RootID (view k) = trr_root request" "tk_Source (view k) = trr_source request"
        "tk_TrashLayoutBinding (view k) = trr_trashLayoutBinding request" by auto
      with bound(2-5) have "authority_binds view authority request k x1" by (simp add: authority_binds_def)
      moreover have "tk_Token (view k) = tk_Token (view k0)" using e(1,2) k(2,3) by simp
      moreover have "resolution_recorded durable attempt view x k PortOutcomeMoveVerified [] False err t x'"
        by (rule resolution_observed [OF k(4) e(4) same_refl])
      ultimately show ?thesis using given k(1,4) e(3) by (intro disjI2 exI conjI)
    qed
  qed
qed

end

section \<open>Properties\<close>

text \<open>
  C3: a move reconciliation is positive-only. Either it reports an error and leaves the ledger as it was, or, for a durably
  move-indeterminate ticket of the caller's token bound to the very layout of the lease, every probe succeeded in turn: the bound
  record, the absent source, the retained content, the absent source, the same record. Then, without an error, the
  move is durably resolved as verified, and the ticket stays open for a restore; with an error, the records are unchanged, or
  the only new record is a prefix of the frame that carries this resolution.
\<close>

theorem move_reconcile_positive_only:
  assumes "distinct_records (pw_directory w)" and "move_probes_keep (\<lambda>w w'. pw_directory w' = pw_directory w) ops"
    and "ReconcileIndeterminateTrashMove live (recovery_ledger_port env port) ticket_view ticket source lease ops w = ((t, err), w')"
  shows "pw_directory w' = pw_directory w \<and> err \<noteq> None \<or>
    (\<exists>l authority k0 k request y. source = Some l \<and> lease = Some authority \<and> ticket = Some k0 \<and>
       tk_Token (ticket_view k) = tk_Token (ticket_view k0) \<and> pw_directory y = pw_directory w \<and>
       authority_binds ticket_view authority request k y \<and>
       move_evidence (port_durable env port) (\<lambda>w w'. pw_directory w' = pw_directory w) ticket_view ops l request y k \<and>
       resolution_recorded (port_durable env port) (port_attempt env port) ticket_view w k PortOutcomeMoveVerified [] False err t w')"
  using recording_port.move_reconcile_entry [OF assms] by blast

text \<open>
  C5: what a move to the Trash writes, its reconciliation accepts. A successful \<^verbatim>\<open>WriteTrashInfoDurable\<close> has published
  bytes under the token. Take any request that the same authority completes for the same source while it still answers
  the same record path for that source. The request binds those bytes as the ticket's own record, unless the
  deletion date read 0001-01-01T00:00:00: that record, once published, never reconciles.
\<close>

theorem written_record_reconciles:
  assumes "writeTrashInfoDurableWith live authority token source deletedAt ops x = (Inr p, x')"
    and "civil_ok deletedAt"
    and "completeTrashMoveReconcileRequest view ticket core authority y = Inr request"
    and "trr_source request = source" and "ta_MetadataPathFor authority source y = ta_MetadataPathFor authority source x"
  shows "\<exists>contents d x1 x2 receipt. po_openDirectories ops x = (Inr (Some d), x1) \<and>
    po_publish ops d token contents x1 = (Inr (Some receipt), x2) \<and> x' = po_close ops d x2 \<and>
    p = \<lparr> mpub_rootID = trr_root request, mpub_token = token, mpub_publication = Some receipt \<rparr> \<and>
    bound_metadata request token contents = (if wall_seconds deletedAt = 0 then Some [ErrDrifted] else None)"
proof -
  from assms(1) obtain contents d receipt x1 x2 where pub: "serialize_trash_info authority token source deletedAt x = Inr contents"
    "po_openDirectories ops x = (Inr (Some d), x1)" "po_publish ops d token contents x1 = (Inr (Some receipt), x2)"
    "x' = po_close ops d x2" "p = \<lparr> mpub_rootID = ta_RootID authority, mpub_token = token, mpub_publication = Some receipt \<rparr>"
    by (rule published)
  note bound = complete_move_request [OF assms(3)]
  from serialized_parses [OF pub(1) assms(2)] obtain info where info: "intended_info authority token source deletedAt x info"
    "parseTrashInfo contents token (ti_basis info) =
      (if wall_seconds deletedAt = 0 then Inl ''trash deletion date is required''
       else Inr (info \<lparr> ti_deletedAt := deletedAt \<lparr> ct_Offset := 0 \<rparr> \<rparr>))" .
  then have "ti_basis info = trr_basis request" "ti_metadataPath info = trr_metadataPath request" "ti_token info = token"
    using bound(4,5) assms(4,5) by (simp_all add: intended_info_def)
  with info(2) have "bound_metadata request token contents = (if wall_seconds deletedAt = 0 then Some [ErrDrifted] else None)"
    by (simp add: bound_metadata_def)
  moreover have "p = \<lparr> mpub_rootID = trr_root request, mpub_token = token, mpub_publication = Some receipt \<rparr>"
    using pub(5) bound(2) by simp
  ultimately show ?thesis using pub(2-4) by blast
qed

section \<open>A sample run\<close>

definition sample_move_stuck :: "(recovery_event \<times> recovery_outcome) list" where
  "sample_move_stuck = [(IntentReserved, []), (MetadataDispatchRecorded, []), (MetadataVerified, []), (MoveDispatchRecorded, []),
     (MoveIndeterminate, []), (ReconciliationResolved, OutcomeMoveVerified)]"

definition sample_move_probes :: "('x, unit, unit) move_reconcile_operations" where
  "sample_move_probes = productionTrashMoveReconcileOperations (\<lambda>x. (Inr (Some ()), x))
     (\<lambda>d token x. (Inr (Some placed_record, True), x)) (\<lambda>d token p x. (Inr True, x)) (\<lambda>l b p x. (Inr True, x)) (\<lambda>d x. x)"

lemma sample_move_stuck_good: "good_facts sample_move_stuck"
  by code_simp

lemma sample_move_selects:
  "cro_selectDirectories sample_move_probes x = (Inr (Some ()), x)" "cro_closeDirectories sample_move_probes d x = x"
  by (simp_all add: sample_move_probes_def productionTrashMoveReconcileOperations_def)

lemma sample_move_proved: "prove_move sample_move_probes () () sample_token sample_reconcile_request x = (None, x)"
proof -
  have "trashMovePathAndBasename (trr_source sample_reconcile_request) = Inr (ft_Path sample_source, [0x62])"
    using sample_core_valid(1) by (simp add: sample_reconcile_request_def)
  then show ?thesis
    by (simp add: prove_move_def sample_move_probes_def productionTrashMoveReconcileOperations_def bytes_or_nil_def placed_bound
        probeTrashMoveReconcileMetadata_def probeTrashMoveReconcileSourceAbsence_def)
qed

lemma sample_move_indeterminate:
  assumes "view t = recovery_facts (sample_recovery n (MoveIndeterminate, []))"
  shows "requireTrashMoveIndeterminateTicket view (Some t) sample_reconcile_request = None"
    "requireTrashMoveIndeterminateTicket view (Some t) sample_core_request = None"
proof -
  have "\<not> recovery_Closed (sample_recovery n (MoveIndeterminate, []))"
    by (simp add: recovery_Closed_def case_recovery_def recovery_vocabulary_defs)
  with assms sample_ticket_valid [of view t, OF assms]
  show "requireTrashMoveIndeterminateTicket view (Some t) sample_reconcile_request = None"
    "requireTrashMoveIndeterminateTicket view (Some t) sample_core_request = None"
    by (simp_all add: requireTrashMoveIndeterminateTicket_def move_reconcile_copies checks_Cons recovery_facts_def case_recovery_def
        Let_def same_vocabulary)
qed

lemma sample_move_complete:
  assumes "view t = recovery_facts (sample_recovery n (MoveIndeterminate, []))"
  shows "completeTrashMoveReconcileRequest view (Some t) sample_core_request sample_authority x = Inr sample_reconcile_request"
proof -
  have "trash_layout_binding_validate sample_layout_binding = None" "byte_path_new [[0x61]] = Inr \<lparr> path_components = [[0x61]] \<rparr>"
    "trashPathBasisFromMounts TrashMetadataBasisHomeAbsolute = Inr trashPathBasisHomeAbsolute" "TrashAnchorHomeData \<noteq> []"
    by code_simp+
  moreover have "sample_core_request \<lparr> trr_metadataPath := \<lparr> path_components = [[0x61]] \<rparr>, trr_basis := trashPathBasisHomeAbsolute \<rparr> =
      sample_reconcile_request" by (simp add: sample_reconcile_request_def)
  moreover have "ta_RootID sample_authority = trr_root sample_core_request" "trr_trashLayoutBinding sample_core_request = sample_layout_binding"
    by (simp_all add: sample_authority_def sample_reconcile_request_def)
  ultimately show ?thesis using sample_move_indeterminate(2) [of view t, OF assms] sample_core_valid(3)
    unfolding completeTrashMoveReconcileRequest_def
    by (simp add: sample_authority_def checks_Cons marked_def move_reconcile_copies)
qed

lemma sample_move_reconcile_run:
  "ReconcileIndeterminateTrashMove True (recovery_ledger_port (facts_env sample_move_stuck) port) ticket_view
     (Some (sample_ticket port 4 (MoveIndeterminate, []))) (Some ()) (Some sample_authority) sample_move_probes
     (sample_port_world 5 0 content) =
   ((Some (sample_ticket port 5 (ReconciliationResolved, OutcomeMoveVerified)), None), sample_port_world 6 3 content)"
proof -
  let ?port = "recovery_ledger_port (facts_env sample_move_stuck) port" and ?t = "sample_ticket port 4 (MoveIndeterminate, [])"
    and ?u = "sample_ticket port 5 (ReconciliationResolved, OutcomeMoveVerified)"
  have stuck: "length sample_move_stuck = 6" "sample_move_stuck ! 4 = (MoveIndeterminate, [])"
    "sample_move_stuck ! 5 = (ReconciliationResolved, OutcomeMoveVerified)"
    by (simp_all add: sample_move_stuck_def)
  have view: "ticket_view ?t = recovery_facts (sample_recovery 4 (MoveIndeterminate, []))"
    "ticket_view ?u = recovery_facts (sample_recovery 5 (ReconciliationResolved, OutcomeMoveVerified))"
    using sample_tickets(2) [OF sample_move_stuck_good, of 4 port] sample_tickets(2) [OF sample_move_stuck_good, of 5 port] stuck
    by simp_all
  then have token: "tk_Token (ticket_view ?t) = sample_token" "tk_Token (ticket_view ?u) = sample_token"
    by (simp_all add: recovery_facts_def case_recovery_def Let_def sample_binding_facts)
  have "lp_Reload ?port (Some ?t) (sample_port_world 5 clock content) = ((Some ?t, None), sample_port_world 5 (Suc clock) content)" for clock
    using sample_port_reload [OF sample_move_stuck_good, of 5 4 port clock content] stuck by simp
  then have reload: "reloadTrashMoveReconcileTicket True ?port ticket_view (Some ?t) (sample_port_world 5 clock content) =
      ((Some ?t, None), sample_port_world 5 (Suc clock) content)" for clock
    by (simp add: reloadTrashMoveReconcileTicket_def validateTrashMoveReconcileReloadInput_def checks_Cons writeTrashInfoContextError_def)
  have valid: "validateTrashMoveReconcileExecution True ticket_view (Some ?t) sample_reconcile_request = None"
    using sample_move_indeterminate(1) [of ticket_view ?t 4, OF view(1)] sample_core_valid(3)
    by (simp add: validateTrashMoveReconcileExecution_def checks_Cons writeTrashInfoContextError_def move_reconcile_copies)
  have transition: "lp_Transition ?port (Some ?t) \<lparr> pt_Event = EventReconciliationResolved, pt_ReconciliationOutcome = PortOutcomeMoveVerified,
      pt_MetadataDisposition = [] \<rparr> (sample_port_world 5 2 content) = ((Some ?u, None), sample_port_world 6 3 content)"
    using sample_port_transition [OF sample_move_stuck_good, of 5 port 2 content] stuck by (simp add: same_vocabulary)
  have "\<not> recovery_Closed (sample_recovery 5 (ReconciliationResolved, OutcomeMoveVerified))"
    by (simp add: recovery_Closed_def case_recovery_def recovery_vocabulary_defs)
  then have "tk_Event (ticket_view ?u) = EventReconciliationResolved" "tk_Outcome (ticket_view ?u) = PortOutcomeMoveVerified"
    "tk_MetadataDisposition (ticket_view ?u) = []" "\<not> tk_Closed (ticket_view ?u)"
    using view(2) by (simp_all add: recovery_facts_def case_recovery_def Let_def same_vocabulary)
  then have resolve: "transitionTrashMoveReconcileTicket ?port ticket_view (Some ?t) sample_reconcile_request (sample_port_world 5 2 content) =
      ((Some ?u, None), sample_port_world 6 3 content)"
    using transition token sample_ticket_valid(1) [of ticket_view ?u 5 "(ReconciliationResolved, OutcomeMoveVerified)", OF view(2)]
    by (simp add: transitionTrashMoveReconcileTicket_def Let_def move_reconcile_copies)
  have "reconcileIndeterminateTrashMoveWithSource True ?port ticket_view (Some ?t) () sample_reconcile_request sample_move_probes
      (sample_port_world 5 1 content) = ((Some ?u, None), sample_port_world 6 3 content)"
    using valid reload [of 1] resolve
    by (simp add: reconcileIndeterminateTrashMoveWithSource_def prove_and_resolve_def token sample_move_proved sample_move_selects
        numeral_2_eq_2)
  then show ?thesis
    using reload [of 0] sample_core [of ticket_view ?t 4 "(MoveIndeterminate, [])", OF view(1)]
      sample_move_complete [of ticket_view ?t 4 "sample_port_world 5 (Suc 0) content", OF view(1)]
    by (simp add: ReconcileIndeterminateTrashMove_def reconcileIndeterminateTrashMoveWithAuthority_def move_reconcile_copies)
qed

lemma sample_move_probes_keep: "move_probes_keep (\<lambda>w w'. pw_directory w' = pw_directory w) sample_move_probes"
  by (simp add: move_probes_keep_def sample_move_probes_def productionTrashMoveReconcileOperations_def)

theorem move_reconcile_positive_only_witness:
  "\<exists>k. durably_resolved (port_durable (facts_env sample_move_stuck) 7) ticket_view (sample_port_world 6 3 ()) k PortOutcomeMoveVerified [] False
     (Some (sample_ticket 7 5 (ReconciliationResolved, OutcomeMoveVerified)))"
proof -
  have "distinct_records (pw_directory (sample_port_world 5 0 ()))"
    by (rule sample_port_calm [OF sample_move_stuck_good]) (simp add: sample_move_stuck_def)
  from move_reconcile_positive_only [OF this sample_move_probes_keep sample_move_reconcile_run [of 7 "()"]]
  show ?thesis unfolding resolution_recorded_def by blast
qed

text \<open>
  A publication by the sample authority into a world that keeps the published records by token, and its
  reconciliation from that world.
\<close>

definition sample_publication :: "(string \<rightharpoonup> bytes, unit, unit) publication_operations" where
  "sample_publication = \<lparr> po_openDirectories = (\<lambda>x. (Inr (Some ()), x)),
     po_publish = (\<lambda>d token contents x. (Inr (Some ()), x(token \<mapsto> contents))), po_close = (\<lambda>d x. x) \<rparr>"

lemma sample_written:
  "writeTrashInfoDurableWith True sample_authority sample_token (ft_Path sample_source) sample_date sample_publication Map.empty =
     (Inr \<lparr> mpub_rootID = ''root-1'', mpub_token = sample_token, mpub_publication = Some () \<rparr>, [sample_token \<mapsto> placed_record])"
proof -
  let ?info = "sample_info [0x61] \<lparr> ti_token := sample_token \<rparr>"
  have "validateTrashToken sample_token = None" by code_simp
  then have valid: "trash_info_validate ?info = None"
    using sample_info_valid [of "[0x61]"] by (simp add: trash_info_validate_None sample_info_def)
  have "marshal ?info = Inr placed_record" by code_simp
  moreover have "newTrashInfo sample_token trashPathBasisHomeAbsolute \<lparr> path_components = [[0x61]] \<rparr> sample_date = Inr ?info"
    using valid by (simp add: newTrashInfo_def sample_info_def)
  moreover have "trusted_root_id_validate ''root-1'' = None" by code_simp
  moreover have "trashPathBasisFromMounts TrashMetadataBasisHomeAbsolute = Inr trashPathBasisHomeAbsolute" by code_simp
  ultimately show ?thesis
    by (simp add: writeTrashInfoDurableWith_def checks_Cons writeTrashInfoContextError_def sample_authority_def
        serialize_trash_info_def sample_publication_def publish_receipt_def marked_def)
qed

theorem written_record_reconciles_witness:
  "\<exists>x contents. writeTrashInfoDurableWith True sample_authority sample_token (ft_Path sample_source) sample_date sample_publication
       Map.empty = (Inr \<lparr> mpub_rootID = ''root-1'', mpub_token = sample_token, mpub_publication = Some () \<rparr>, x) \<and>
     x sample_token = Some contents \<and> bound_metadata sample_reconcile_request sample_token contents = None"
proof -
  let ?x = "[sample_token \<mapsto> placed_record]"
  have complete: "completeTrashMoveReconcileRequest (\<lambda>_. recovery_facts (sample_recovery 4 (MoveIndeterminate, []))) (Some ())
      sample_core_request sample_authority ?x = Inr sample_reconcile_request"
    by (rule sample_move_complete [where n = 4]) simp
  have "trr_source sample_reconcile_request = ft_Path sample_source" by (simp add: sample_reconcile_request_def)
  from written_record_reconciles [OF sample_written sample_date_facts(1) complete this] obtain contents d x1 x2 receipt
    where "po_openDirectories sample_publication Map.empty = (Inr (Some d), x1)"
      "po_publish sample_publication d sample_token contents x1 = (Inr (Some receipt), x2)" "?x = po_close sample_publication d x2"
      and bound: "bound_metadata sample_reconcile_request sample_token contents = None"
    using sample_date_facts(3) by (auto simp: sample_authority_def)
  then have "?x = [sample_token \<mapsto> contents]" by (auto simp: sample_publication_def)
  then have "?x sample_token = Some contents" by (metis fun_upd_same)
  with sample_written bound show ?thesis by blast
qed

end
