(* ===== verification/QuarantineRetain.thy ===== *)
theory QuarantineRetain
  imports TrashMove PrivateDirectory
begin

text \<open>
  \<^verbatim>\<open>src/internal/quarantine/quarantine.go\<close> and \<^verbatim>\<open>retain.go\<close>: the per-mount quarantine store and its one
  operation, a no-replace move of a source into the store, recorded in the durable ledger before and
  after. The mutex of the store is held over the whole operation, so an operation is one step here.
\<close>

section \<open>The store\<close>

text \<open>
  An opened directory is what the opener returned, with its \<^verbatim>\<open>RootID\<close> and \<^verbatim>\<open>Kind\<close>;
  \<open>qd_lease\<close> is the result of the type assertion to \<^verbatim>\<open>*linuxfs.PrivateDirectoryLease\<close>.
\<close>

record 'q quarantine_directory =
  qd_RootID :: trusted_root_id
  qd_Kind :: layout_kind
  qd_lease :: "'q option"

record 'q quarantine_store =
  qs_directory :: "'q quarantine_directory option"
  qs_privateLease :: "'q option"
  qs_rootID :: trusted_root_id
  qs_retain :: bool

definition openPerMountQuarantineWith ::
    "layout_kind \<Rightarrow> ('x \<Rightarrow> ('q quarantine_directory option \<times> go_error option) \<times> 'x) \<Rightarrow> ('q quarantine_directory \<Rightarrow> 'x \<Rightarrow> 'x) \<Rightarrow> 'x \<Rightarrow>
     (go_error + 'q quarantine_store) \<times> 'x" where
  "openPerMountQuarantineWith kind openDirectory close_directory x =
     (if kind \<noteq> LayoutPrivateQuarantine then (Inl [ErrUnsupported], x)
      else case openDirectory x of
          ((None, Some e), x') \<Rightarrow> (Inl e, x')
        | ((Some d, Some e), x') \<Rightarrow> (Inl e, close_directory d x')
        | ((None, None), x') \<Rightarrow> (Inl [ErrUnsupported], x')
        | ((Some d, None), x') \<Rightarrow>
          (if qd_Kind d \<noteq> LayoutPrivateQuarantine then (Inl [ErrDrifted], close_directory d x')
           else if trusted_root_id_validate (qd_RootID d) \<noteq> None then (Inl [ErrUnsupported], close_directory d x')
           else (Inr \<lparr> qs_directory = Some d, qs_privateLease = qd_lease d, qs_rootID = qd_RootID d, qs_retain = True \<rparr>, x')))"

definition store_RootID :: "'q quarantine_store option \<Rightarrow> trusted_root_id" where
  "store_RootID store = (case store of None \<Rightarrow> [] | Some s \<Rightarrow> qs_rootID s)"

definition store_Close ::
    "('q quarantine_directory \<Rightarrow> 'x \<Rightarrow> go_error option \<times> 'x) \<Rightarrow> 'q quarantine_store option \<Rightarrow> 'x \<Rightarrow>
     go_error option \<times> 'q quarantine_store option \<times> 'x" where
  "store_Close close_directory store x =
     (case store of
        None \<Rightarrow> (None, None, x)
      | Some s \<Rightarrow>
        (let closed = Some (s \<lparr> qs_directory := None, qs_privateLease := None, qs_retain := False \<rparr>)
         in case qs_directory s of
              None \<Rightarrow> (None, closed, x)
            | Some d \<Rightarrow> (case close_directory d x of (e, x') \<Rightarrow> (e, closed, x'))))"

definition store_withRetain ::
    "'q quarantine_store option \<Rightarrow> ('q \<Rightarrow> 'x \<Rightarrow> ('t option \<times> go_error option) \<times> 'x) \<Rightarrow> 'x \<Rightarrow> ('t option \<times> go_error option) \<times> 'x" where
  "store_withRetain store operation x =
     (case store of
        None \<Rightarrow> ((None, Some [ErrUnsupported]), x)
      | Some s \<Rightarrow>
        (case (qs_directory s, qs_privateLease s, qs_retain s) of
           (Some _, Some lease, True) \<Rightarrow> operation lease x
         | _ \<Rightarrow> ((None, Some [ErrUnsupported]), x)))"

section \<open>Requests\<close>

record 'l quarantine_retain_request =
  qrr_action :: action
  qrr_planDigest :: plan_digest
  qrr_sourceLease :: 'l
  qrr_root :: trusted_root_id
  qrr_source :: byte_path
  qrr_basename :: bytes
  qrr_precondition :: filesystem_precondition

type_synonym quarantine_retain_disposition = u8

definition QuarantineRetainNotApplied :: quarantine_retain_disposition where "QuarantineRetainNotApplied = 1"
definition QuarantineRetainIndeterminate :: quarantine_retain_disposition where "QuarantineRetainIndeterminate = 2"
definition QuarantineRetainVerified :: quarantine_retain_disposition where "QuarantineRetainVerified = 3"

text \<open>The bridge to LinuxFS: source parent, basename, quarantine directory, token, precondition.\<close>

type_synonym ('x, 'l, 'q) quarantine_retainer =
  "'l \<Rightarrow> bytes \<Rightarrow> 'q \<Rightarrow> string \<Rightarrow> filesystem_precondition \<Rightarrow> 'x \<Rightarrow> (quarantine_retain_disposition \<times> go_error option) \<times> 'x"

definition quarantineRetainContextError :: "bool \<Rightarrow> go_error option" where
  "quarantineRetainContextError live = check live [ErrInterrupted]"

definition sameQuarantineRetainTarget :: "target \<Rightarrow> target \<Rightarrow> bool" where
  "sameQuarantineRetainTarget left right =
     (tgt_Kind left = TargetFilesystem \<and> tgt_Kind right = TargetFilesystem \<and>
      (case (tgt_Filesystem left, tgt_Filesystem right) of
         (Some l, Some r) \<Rightarrow> ft_Root l = ft_Root r \<and> byte_path_equal (ft_Path l) (ft_Path r)
       | _ \<Rightarrow> False))"

definition sameQuarantineRetainPrecondition :: "filesystem_precondition \<Rightarrow> filesystem_precondition \<Rightarrow> bool" where
  "sameQuarantineRetainPrecondition left right =
     (fp_Required left = fp_Required right \<and> fp_Snapshot left = fp_Snapshot right \<and>
      sameQuarantineRetainTarget (fp_Target left) (fp_Target right))"

definition filesystemQuarantineRetainTarget :: "trusted_root_id \<Rightarrow> byte_path \<Rightarrow> target" where
  "filesystemQuarantineRetainTarget root path =
     (case NewFilesystemTarget root path of Inl _ \<Rightarrow> zero_target | Inr t \<Rightarrow> t)"

definition quarantineRetainPathAndBasename :: "byte_path \<Rightarrow> go_error + byte_path \<times> bytes" where
  "quarantineRetainPathAndBasename path =
     (let components = path_components path in
      if length components = 0 then Inl [ErrUnsupported]
      else (case byte_path_new components of
          Inl _ \<Rightarrow> Inl [ErrUnsupported]
        | Inr cloned \<Rightarrow>
          (let basename = last components in
           if basename = [] \<or> basename = bytes_of ''.'' \<or> basename = bytes_of ''..'' then Inl [ErrUnsupported]
           else if list_ex (\<lambda>v. v = 0 \<or> v = 0x2F) basename then Inl [ErrUnsupported]
           else Inr (cloned, basename))))"

definition quarantineRecoveryTokenPrefix :: string where "quarantineRecoveryTokenPrefix = ''ldc-''"
definition quarantineRecoveryTokenHexLen :: nat where "quarantineRecoveryTokenHexLen = 64"

definition validateQuarantineRecoveryToken :: "string \<Rightarrow> string option" where
  "validateQuarantineRecoveryToken token =
     (if length token \<noteq> length quarantineRecoveryTokenPrefix + quarantineRecoveryTokenHexLen \<or>
         take (length quarantineRecoveryTokenPrefix) token \<noteq> quarantineRecoveryTokenPrefix
      then Some ''Quarantine recovery token must be the prefix plus exactly 64 lowercase hexadecimal bytes''
      else if list_all (\<lambda>c. \<not> ((c < CHR ''0'' \<or> c > CHR ''9'') \<and> (c < CHR ''a'' \<or> c > CHR ''f'')))
          (drop (length quarantineRecoveryTokenPrefix) token)
      then None else Some ''Quarantine recovery token contains an unsupported byte'')"

definition validateQuarantineRetainAction ::
    "action \<Rightarrow> go_error + filesystem_precondition \<times> byte_path \<times> trusted_root_id \<times> bytes" where
  "validateQuarantineRetainAction a =
     (case (tgt_Filesystem (a_Target a), pc_Filesystem (a_Precondition a)) of
        (Some f, Some precondition) \<Rightarrow>
          if tgt_Kind (a_Target a) \<noteq> TargetFilesystem \<or> pc_Kind (a_Precondition a) \<noteq> PreconditionFilesystemIdentity
          then Inl [ErrUnsupported]
          else (case checks
             [marked ErrUnsupported (filesystem_precondition_validate precondition),
              check (sameQuarantineRetainTarget (a_Target a) (fp_Target precondition)) [ErrUnsupported],
              failed (RequiredStatMask ActionQuarantinePath),
              check (RequiredStatMask ActionQuarantinePath = Inr (fp_Required precondition)) [ErrUnsupported],
              marked ErrUnsupported (trusted_root_id_validate (ft_Root f))] of
             Some e \<Rightarrow> Inl e
           | None \<Rightarrow>
             (case quarantineRetainPathAndBasename (ft_Path f) of
                Inl e \<Rightarrow> Inl e
              | Inr (path, basename) \<Rightarrow> Inr (precondition, path, ft_Root f, basename)))
      | _ \<Rightarrow> Inl [ErrUnsupported])"

definition newQuarantineRetainRequest ::
    "bool \<Rightarrow> trusted_root_id \<Rightarrow> action \<Rightarrow> plan_digest \<Rightarrow> 'l option \<Rightarrow> ('l \<Rightarrow> trusted_root_id) \<Rightarrow>
     ('l \<Rightarrow> bytes \<Rightarrow> filesystem_precondition \<Rightarrow> 'x \<Rightarrow> go_error option) \<Rightarrow> 'x \<Rightarrow> go_error + 'l quarantine_retain_request" where
  "newQuarantineRetainRequest live storeRoot a planDigest source sourceRoot resolved x =
     (case quarantineRetainContextError live of
        Some e \<Rightarrow> Inl e
      | None \<Rightarrow>
        (case source of
           None \<Rightarrow> Inl [ErrUnsupported]
         | Some source \<Rightarrow>
           (let cloned = action_clone a in
            case checks
              [marked ErrUnsupported (action_validate cloned),
               check (a_Kind cloned = ActionQuarantinePath) [ErrUnsupported],
               marked ErrUnsupported (plan_digest_validate planDigest)] of
              Some e \<Rightarrow> Inl e
            | None \<Rightarrow>
              (case validateQuarantineRetainAction cloned of
                 Inl e \<Rightarrow> Inl e
               | Inr (precondition, sourcePath, root, basename) \<Rightarrow>
                 (case checks
                    [marked ErrUnsupported (trusted_root_id_validate storeRoot),
                     check (\<not> (sourceRoot source \<noteq> root \<or> storeRoot \<noteq> root)) [ErrUnsupported],
                     resolved source basename precondition x] of
                    Some e \<Rightarrow> Inl e
                  | None \<Rightarrow> Inr \<lparr> qrr_action = cloned, qrr_planDigest = planDigest, qrr_sourceLease = source,
                      qrr_root = root, qrr_source = sourcePath, qrr_basename = basename,
                      qrr_precondition = precondition \<rparr>)))))"

definition validateQuarantineRetainExecution :: "bool \<Rightarrow> 'l quarantine_retain_request \<Rightarrow> go_error option" where
  "validateQuarantineRetainExecution live request = checks
     [quarantineRetainContextError live,
      marked ErrUnsupported (action_validate (qrr_action request)),
      check (a_Kind (qrr_action request) = ActionQuarantinePath) [ErrUnsupported],
      marked ErrUnsupported (trusted_root_id_validate (qrr_root request)),
      marked ErrUnsupported (plan_digest_validate (qrr_planDigest request)),
      (case quarantineRetainPathAndBasename (qrr_source request) of
         Inl e \<Rightarrow> Some e
       | Inr (path, basename) \<Rightarrow> checks
         [check (basename = qrr_basename request) [ErrUnsupported],
          marked ErrUnsupported (filesystem_precondition_validate (qrr_precondition request)),
          check (sameQuarantineRetainTarget (fp_Target (qrr_precondition request))
            (filesystemQuarantineRetainTarget (qrr_root request) path)) [ErrUnsupported]]),
      failed (RequiredStatMask ActionQuarantinePath),
      check (RequiredStatMask ActionQuarantinePath = Inr (fp_Required (qrr_precondition request))) [ErrUnsupported]]"

section \<open>Tickets\<close>

definition validateQuarantineRetainTicket ::
    "('t \<Rightarrow> ticket_facts) \<Rightarrow> 't option \<Rightarrow> 'l quarantine_retain_request \<Rightarrow> go_error option" where
  "validateQuarantineRetainTicket view ticket request =
     (case ticket of
        None \<Rightarrow> Some [ErrUnsupported]
      | Some t \<Rightarrow> (let k = view t in checks
        [marked ErrUnsupported (validateQuarantineRecoveryToken (tk_Token k)),
         check (\<not> (tk_RootID k \<noteq> qrr_root request \<or> \<not> byte_path_equal (tk_Source k) (qrr_source request) \<or>
             tk_ActionID k \<noteq> a_ID (qrr_action request) \<or> tk_ActionKind k \<noteq> ActionQuarantinePath \<or>
             tk_Destination k \<noteq> DestinationQuarantine)) [ErrUnsupported],
         check (trash_layout_binding_is_zero (tk_TrashLayoutBinding k)) [ErrUnsupported],
         check (sameQuarantineRetainPrecondition (tk_Precondition k) (qrr_precondition request)) [ErrUnsupported]]))"

definition requireQuarantineRetainTicketEvent ::
    "('t \<Rightarrow> ticket_facts) \<Rightarrow> 't option \<Rightarrow> 'l quarantine_retain_request \<Rightarrow> port_event \<Rightarrow> go_error option" where
  "requireQuarantineRetainTicketEvent view ticket request event =
     (case validateQuarantineRetainTicket view ticket request of
        Some e \<Rightarrow> Some e
      | None \<Rightarrow>
        (let k = view (the ticket) in checks
          [check (tk_Event k = event) [ErrUnsupported],
           check (\<not> tk_Closed k) [ErrUnsupported],
           check (\<not> (tk_Outcome k \<noteq> [] \<or> tk_MetadataDisposition k \<noteq> [])) [ErrUnsupported]]))"

definition transitionQuarantineRetainTicket ::
    "('t, 'x) ledger_port \<Rightarrow> ('t \<Rightarrow> ticket_facts) \<Rightarrow> 't option \<Rightarrow> 'l quarantine_retain_request \<Rightarrow> port_transition \<Rightarrow> 'x \<Rightarrow>
     ('t option \<times> go_error option) \<times> 'x" where
  "transitionQuarantineRetainTicket ledger view ticket request transition x =
     (case lp_Transition ledger ticket transition x of
        ((Some updated, err), x') \<Rightarrow>
          (if (case ticket of None \<Rightarrow> True | Some t \<Rightarrow> tk_Token (view updated) \<noteq> tk_Token (view t))
           then (ticket, Some (errors_Join err [ErrUnsupported]))
           else case requireQuarantineRetainTicketEvent view (Some updated) request (pt_Event transition) of
             Some validationErr \<Rightarrow> (ticket, Some (errors_Join err validationErr))
           | None \<Rightarrow> (Some updated, err),
           x')
      | ((None, Some err), x') \<Rightarrow> ((ticket, Some err), x')
      | ((None, None), x') \<Rightarrow> ((ticket, Some [ErrInterrupted]), x'))"

definition recordQuarantineRetainIndeterminate ::
    "('t, 'x) ledger_port \<Rightarrow> ('t \<Rightarrow> ticket_facts) \<Rightarrow> 't option \<Rightarrow> 'l quarantine_retain_request \<Rightarrow> go_error \<Rightarrow> 'x \<Rightarrow>
     ('t option \<times> go_error option) \<times> 'x" where
  "recordQuarantineRetainIndeterminate ledger view ticket request cause x =
     (case transitionQuarantineRetainTicket ledger view ticket request (to_event EventMoveIndeterminate) x of
        ((updated, Some transitionErr), x') \<Rightarrow> ((updated, Some (cause @ transitionErr)), x')
      | ((updated, None), x') \<Rightarrow> ((updated, Some cause), x'))"

section \<open>The retain\<close>

definition retainWithOperationResult ::
    "('t, 'x) ledger_port \<Rightarrow> ('t \<Rightarrow> ticket_facts) \<Rightarrow> 't option \<Rightarrow> 'l quarantine_retain_request \<Rightarrow>
     quarantine_retain_disposition \<Rightarrow> go_error option \<Rightarrow> 'x \<Rightarrow> ('t option \<times> go_error option) \<times> 'x" where
  "retainWithOperationResult ledger view ticket request disposition retainErr x =
     (if disposition = QuarantineRetainVerified \<and> retainErr = None
      then transitionQuarantineRetainTicket ledger view ticket request (to_event EventMoveVerified) x
      else let cause = (case retainErr of
                   Some e \<Rightarrow> e
                 | None \<Rightarrow> if disposition = QuarantineRetainNotApplied then [ErrDrifted] else [ErrInterrupted])
           in recordQuarantineRetainIndeterminate ledger view ticket request cause x)"

definition retainWith ::
    "bool \<Rightarrow> ('t, 'x) ledger_port \<Rightarrow> ('t \<Rightarrow> ticket_facts) \<Rightarrow> 'l quarantine_retain_request \<Rightarrow> 'q \<Rightarrow> ('x, 'l, 'q) quarantine_retainer \<Rightarrow>
     'x \<Rightarrow> ('t option \<times> go_error option) \<times> 'x" where
  "retainWith live ledger view request quarantine retain x =
     (case validateQuarantineRetainExecution live request of
        Some e \<Rightarrow> ((None, Some e), x)
      | None \<Rightarrow>
        (case lp_Reserve ledger (qrr_action request) (qrr_planDigest request) zero_digest x of
           ((None, Some err), x1) \<Rightarrow> ((None, Some err), x1)
         | ((Some t, Some err), x1) \<Rightarrow>
             ((Some t, Some (case validateQuarantineRetainTicket view (Some t) request of None \<Rightarrow> err | Some v \<Rightarrow> err @ v)), x1)
         | ((ticket, None), x1) \<Rightarrow>
           (case requireQuarantineRetainTicketEvent view ticket request EventIntentReserved of
              Some e \<Rightarrow> ((ticket, Some e), x1)
            | None \<Rightarrow>
              (case transitionQuarantineRetainTicket ledger view ticket request (to_event EventMoveDispatchRecorded) x1 of
                 ((ticket', Some e), x2) \<Rightarrow> ((ticket', Some e), x2)
               | ((ticket', None), x2) \<Rightarrow>
                 (case retain (qrr_sourceLease request) (qrr_basename request) quarantine (tk_Token (view (the ticket')))
                     (qrr_precondition request) x2 of
                    ((disposition, retainErr), x3) \<Rightarrow>
                      retainWithOperationResult ledger view ticket' request disposition retainErr x3)))))"

definition Retain ::
    "bool \<Rightarrow> ('t, 'x) ledger_port \<Rightarrow> ('t \<Rightarrow> ticket_facts) \<Rightarrow> 'q quarantine_store option \<Rightarrow> action \<Rightarrow> plan_digest \<Rightarrow> 'l option \<Rightarrow>
     ('l \<Rightarrow> trusted_root_id) \<Rightarrow> ('l \<Rightarrow> bytes \<Rightarrow> filesystem_precondition \<Rightarrow> 'x \<Rightarrow> go_error option) \<Rightarrow> ('x, 'l, 'q) quarantine_retainer \<Rightarrow>
     'x \<Rightarrow> ('t option \<times> go_error option) \<times> 'x" where
  "Retain live ledger view store a planDigest source sourceRoot resolved retainer x =
     (case store of
        None \<Rightarrow> ((None, Some [ErrUnsupported]), x)
      | Some s \<Rightarrow> store_withRetain store (\<lambda>privateLease x.
          case newQuarantineRetainRequest live (qs_rootID s) a planDigest source sourceRoot resolved x of
            Inl e \<Rightarrow> ((None, Some e), x)
          | Inr request \<Rightarrow> retainWith live ledger view request privateLease retainer x) x)"

section \<open>What a retain does with a durable ledger\<close>

definition retainer_keeps :: "('x \<Rightarrow> 'x \<Rightarrow> bool) \<Rightarrow> ('x, 'l, 'q) quarantine_retainer \<Rightarrow> bool" where
  "retainer_keeps same retain \<longleftrightarrow> (\<forall>l b q token p x. same x (snd (retain l b q token p x)))"

text \<open>A ticket of this request with exactly these durable events.\<close>

definition retain_dispatched ::
    "('x \<Rightarrow> 't \<Rightarrow> port_event list \<Rightarrow> bool) \<Rightarrow> ('t \<Rightarrow> ticket_facts) \<Rightarrow> 'l quarantine_retain_request \<Rightarrow> port_event list \<Rightarrow> 'x \<Rightarrow> 't \<Rightarrow> bool"
  where
  "retain_dispatched durable view request es x k \<longleftrightarrow> durable x k es \<and> validateQuarantineRetainTicket view (Some k) request = None"

text \<open>
  The retain of a request ran under the token of a durable dispatch and came back verified, and in \<open>x'\<close> the ticket \<open>t\<close>
  has the complete history.
\<close>

definition retained_under where
  "retained_under durable view request quarantine retain t x' \<longleftrightarrow>
     (\<exists>k k1 x1 x2. retain_dispatched durable view request (dispatch_events False) x1 k1 \<and>
        retain (qrr_sourceLease request) (qrr_basename request) quarantine (tk_Token (view k1)) (qrr_precondition request) x1 =
          ((QuarantineRetainVerified, None), x2) \<and>
        t = Some k \<and> tk_Token (view k) = tk_Token (view k1) \<and>
        retain_dispatched durable view request (dispatch_events False @ [EventMoveVerified]) x' k)"

text \<open>Two retainers that agree where the ledger already holds the dispatch.\<close>

definition retainers_agree where
  "retainers_agree durable view request retain retain' \<longleftrightarrow>
     (\<forall>x k q. retain_dispatched durable view request (dispatch_events False) x k \<longrightarrow>
        retain (qrr_sourceLease request) (qrr_basename request) q (tk_Token (view k)) (qrr_precondition request) x =
        retain' (qrr_sourceLease request) (qrr_basename request) q (tk_Token (view k)) (qrr_precondition request) x)"

lemma quarantine_ticket_destination:
  "validateQuarantineRetainTicket view (Some k) request = None \<Longrightarrow> tk_Destination (view k) \<noteq> DestinationTrash"
  by (auto simp: validateQuarantineRetainTicket_def Let_def checks_Cons DestinationTrash_def DestinationQuarantine_def)

context durable_ledger begin

lemma retain_transition:
  assumes "invar x" "transitionQuarantineRetainTicket port view ticket request (to_event e) x = ((t, err), x')"
  shows "invar x' \<and> (err = None \<longrightarrow> (\<exists>k es k0. t = Some k \<and> retain_dispatched durable view request es x' k \<and> tk_Event (view k) = e \<and>
      ticket = Some k0 \<and> tk_Token (view k) = tk_Token (view k0)))"
proof -
  obtain out e1 y where run: "lp_Transition port ticket (to_event e) x = ((out, e1), y)" by (metis prod.exhaust)
  note law = advanced [OF assms(1) run]
  have y: "x' = y" using assms(2) run
    by (cases out; cases e1) (auto simp: transitionQuarantineRetainTicket_def split: option.splits if_splits)
  have "\<exists>k es k0. t = Some k \<and> retain_dispatched durable view request es x' k \<and> tk_Event (view k) = e \<and>
      ticket = Some k0 \<and> tk_Token (view k) = tk_Token (view k0)" if "err = None"
  proof -
    from assms(2) run that obtain k k0 where k: "out = Some k" "e1 = None" "t = Some k" "ticket = Some k0"
      "tk_Token (view k) = tk_Token (view k0)" "requireQuarantineRetainTicketEvent view (Some k) request e = None"
      by (cases out; cases e1) (auto simp: transitionQuarantineRetainTicket_def errors_Join_def split: option.splits if_splits)
    from k(6) have "validateQuarantineRetainTicket view (Some k) request = None" "tk_Event (view k) = e"
      by (auto simp: requireQuarantineRetainTicketEvent_def Let_def checks_Cons split: option.splits)
    with k law y show ?thesis by (auto simp: retain_dispatched_def)
  qed
  with law y show ?thesis by blast
qed

lemma retain_forward:
  assumes "invar x" "transitionQuarantineRetainTicket port view ticket request (to_event e) x = ((t, None), x')" "is_forward e"
  obtains k k0 where "t = Some k" "retain_dispatched durable view request (forward_events False e) x' k" "invar x'"
    "ticket = Some k0" "tk_Token (view k) = tk_Token (view k0)"
proof -
  from retain_transition [OF assms(1,2)] obtain k es k0 where
    k: "t = Some k" "retain_dispatched durable view request es x' k" "tk_Event (view k) = e" "invar x'"
    "ticket = Some k0" "tk_Token (view k) = tk_Token (view k0)" by auto
  then have "es = forward_events False e"
    using forward [of x' k es] quarantine_ticket_destination [of view k request] assms(3) by (simp add: retain_dispatched_def)
  with k that show thesis by blast
qed

lemma retain_result_success:
  assumes "invar x" "retainWithOperationResult port view (Some k1) request disposition retainErr x = ((t, None), x')"
  obtains k where "disposition = QuarantineRetainVerified" "retainErr = None" "t = Some k" "tk_Token (view k) = tk_Token (view k1)"
    "retain_dispatched durable view request (dispatch_events False @ [EventMoveVerified]) x' k" "invar x'"
proof -
  have ok: "disposition = QuarantineRetainVerified \<and> retainErr = None"
    using assms(2) by (auto simp: retainWithOperationResult_def recordQuarantineRetainIndeterminate_def Let_def
        split: if_splits option.splits prod.splits)
  with assms(2) have "transitionQuarantineRetainTicket port view (Some k1) request (to_event EventMoveVerified) x = ((t, None), x')"
    by (simp add: retainWithOperationResult_def)
  from retain_forward [OF assms(1) this forward_port_events(5), unfolded forward_port_simps] ok that show thesis
    by (metis option.inject)
qed

text \<open>Where a reservation leads.\<close>

lemma retain_cases:
  fixes retain :: "('w, 'l, 'q) quarantine_retainer"
  assumes "invar x"
  obtains
    e x1 ticket where "retainWith live port view request quarantine retain x = ((ticket, Some e), x1)" "invar x1"
      "\<And>retain' :: ('w, 'l, 'q) quarantine_retainer.
         retainWith live port view request quarantine retain' x = retainWith live port view request quarantine retain x"
  | k x2 where "retain_dispatched durable view request (dispatch_events False) x2 k" "invar x2"
      "\<And>retain' :: ('w, 'l, 'q) quarantine_retainer. retainWith live port view request quarantine retain' x =
         (case retain' (qrr_sourceLease request) (qrr_basename request) quarantine (tk_Token (view k)) (qrr_precondition request) x2 of
            ((disposition, retainErr), x3) \<Rightarrow> retainWithOperationResult port view (Some k) request disposition retainErr x3)"
proof (cases "validateQuarantineRetainExecution live request")
  case (Some e)
  with assms that(1) show thesis by (simp add: retainWith_def)
next
  case valid: None
  let ?reserve = "lp_Reserve port (qrr_action request) (qrr_planDigest request) zero_digest x"
  obtain t err x1 where run: "?reserve = ((t, err), x1)" by (metis prod.exhaust)
  from reserved [OF assms run] have x1: "invar x1" by blast
  show thesis
  proof (cases err)
    case (Some e)
    with run x1 that(1) valid show thesis by (cases t) (auto simp: retainWith_def)
  next
    case None
    show thesis
    proof (cases "requireQuarantineRetainTicketEvent view t request EventIntentReserved")
      case (Some e)
      with run x1 that(1) None valid show thesis by (cases t) (auto simp: retainWith_def)
    next
      case fit: None
      obtain t2 e2 x2 where run2: "transitionQuarantineRetainTicket port view t request (to_event EventMoveDispatchRecorded) x1 = ((t2, e2), x2)"
        by (metis prod.exhaust)
      have move: "retainWith live port view request quarantine retain' x =
          (case e2 of Some e \<Rightarrow> ((t2, Some e), x2) | None \<Rightarrow>
            (case retain' (qrr_sourceLease request) (qrr_basename request) quarantine (tk_Token (view (the t2))) (qrr_precondition request) x2 of
               ((disposition, retainErr), x3) \<Rightarrow> retainWithOperationResult port view t2 request disposition retainErr x3))"
        for retain' :: "('w, 'l, 'q) quarantine_retainer"
        using run run2 None fit valid by (cases t; cases e2) (simp_all add: retainWith_def)
      show thesis
      proof (cases e2)
        case None
        from retain_forward [OF x1 run2 [unfolded None] forward_port_events(4), unfolded forward_port_simps] obtain k where
          "t2 = Some k" "retain_dispatched durable view request (dispatch_events False) x2 k" "invar x2" by metis
        with move None that(2) show thesis by simp
      next
        case (Some e)
        with retain_transition [OF x1 run2] move that(1) show thesis by simp
      qed
    qed
  qed
qed

lemma retain_success:
  assumes "invar x" "retainer_keeps same retain" "retainWith live port view request quarantine retain x = ((t, None), x')"
  shows "retained_under durable view request quarantine retain t x'"
  using assms(1)
proof (cases rule: retain_cases [where retain = retain and live = live and request = request and quarantine = quarantine])
  case (1 e x1 ticket)
  with assms(3) show ?thesis by simp
next
  case (2 k x2)
  let ?retain = "retain (qrr_sourceLease request) (qrr_basename request) quarantine (tk_Token (view k)) (qrr_precondition request) x2"
  obtain disposition retainErr x3 where ran: "?retain = ((disposition, retainErr), x3)" by (metis prod.exhaust)
  have "same x2 (snd ?retain)" using assms(2) unfolding retainer_keeps_def by blast
  then have "invar x3" using 2(2) ran unaffected by simp
  moreover have "retainWithOperationResult port view (Some k) request disposition retainErr x3 = ((t, None), x')"
    using assms(3) 2(3) [of retain] ran by simp
  ultimately obtain k' where "disposition = QuarantineRetainVerified" "retainErr = None" "t = Some k'" "tk_Token (view k') = tk_Token (view k)"
    "retain_dispatched durable view request (dispatch_events False @ [EventMoveVerified]) x' k'"
    by (rule retain_result_success)
  with 2(1) ran show ?thesis unfolding retained_under_def by metis
qed

lemma retain_write_ahead:
  assumes "invar x" "retainers_agree durable view request retain retain'"
  shows "retainWith live port view request quarantine retain x = retainWith live port view request quarantine retain' x"
  using assms(1)
proof (cases rule: retain_cases [where retain = retain and live = live and request = request and quarantine = quarantine])
  case (1 e x1 ticket)
  then show ?thesis by simp
next
  case (2 k x2)
  from assms(2) 2(1) have "retain (qrr_sourceLease request) (qrr_basename request) quarantine (tk_Token (view k)) (qrr_precondition request) x2 =
      retain' (qrr_sourceLease request) (qrr_basename request) quarantine (tk_Token (view k)) (qrr_precondition request) x2"
    unfolding retainers_agree_def by blast
  with 2(3) show ?thesis by simp
qed

end

section \<open>Properties\<close>

text \<open>
  C6: the quarantine retain is write-ahead and its success is recorded. The retainer runs only in a state in which
  the ledger durably holds exactly the reservation and the move dispatch of the ticket whose token it gets, so retainers that differ
  elsewhere give the same run; and a run either reports an error or the retainer came back verified under that
  token and the returned ticket's complete history is durable.
\<close>

theorem quarantine_retain_recorded:
  assumes "distinct_records (pw_directory w)" and "retainer_keeps (\<lambda>w w'. pw_directory w' = pw_directory w) retain"
    and "retainers_agree (port_durable env port) ticket_view request retain retain'"
  shows "retainWith live (recovery_ledger_port env port) ticket_view request quarantine retain' w =
      retainWith live (recovery_ledger_port env port) ticket_view request quarantine retain w \<and>
    (case retainWith live (recovery_ledger_port env port) ticket_view request quarantine retain w of
       ((t, err), w') \<Rightarrow> err \<noteq> None \<or> retained_under (port_durable env port) ticket_view request quarantine retain t w')"
proof -
  let ?run = "retainWith live (recovery_ledger_port env port) ticket_view request quarantine retain w"
  obtain t err w' where run: "?run = ((t, err), w')" by (metis prod.exhaust)
  show ?thesis
  proof (cases err)
    case None
    from recovery_port.retain_success [OF assms(1,2) run [unfolded None]] recovery_port.retain_write_ahead [OF assms(1,3)] run
    show ?thesis by simp
  qed (use run recovery_port.retain_write_ahead [OF assms(1,3)] in simp)
qed

text \<open>Closing a store revokes it: every later retain is refused before it can reserve anything.\<close>

lemma closed_store_refuses:
  "store_Close close_directory store x = (e, store', x') \<Longrightarrow>
     Retain live ledger view store' a planDigest source sourceRoot resolved retainer y = ((None, Some [ErrUnsupported]), y)"
  by (cases store) (auto simp: store_Close_def Retain_def store_withRetain_def Let_def split: option.splits prod.splits)

text \<open>Closing twice closes the directory once.\<close>

lemma store_Close_idempotent:
  "store_Close close_directory store x = (e, store', x') \<Longrightarrow> store_Close close_directory store' y = (None, store', y)"
  by (cases store) (auto simp: store_Close_def Let_def split: option.splits prod.splits)

text \<open>An opened store holds a private quarantine directory of its root.\<close>

lemma opened_store:
  assumes "openPerMountQuarantineWith kind openDirectory close_directory x = (Inr store, x')"
  shows "kind = LayoutPrivateQuarantine \<and> (\<exists>d. openDirectory x = ((Some d, None), x') \<and> qd_Kind d = LayoutPrivateQuarantine \<and>
    qs_directory store = Some d \<and> qs_privateLease store = qd_lease d \<and> qs_rootID store = qd_RootID d \<and>
    trusted_root_id_validate (qs_rootID store) = None)"
  using assms by (auto simp: openPerMountQuarantineWith_def split: if_splits option.splits prod.splits)

section \<open>A sample retain\<close>

definition sample_quarantine_request :: "unit quarantine_retain_request" where
  "sample_quarantine_request = \<lparr> qrr_action = case_action QuarantineCase, qrr_planDigest = sample_plan_digest,
     qrr_sourceLease = (), qrr_root = ''root-1'', qrr_source = ft_Path sample_source, qrr_basename = [0x62],
     qrr_precondition = sample_recovery_precondition \<rparr>"

text \<open>The complete history of a retain, and the ticket after \<open>k + 1\<close> of its events.\<close>

definition sample_retain :: "(recovery_event \<times> recovery_outcome) list" where
  "sample_retain = [(IntentReserved, []), (MoveDispatchRecorded, []), (MoveVerified, [])]"

abbreviation retain_ticket :: "nat \<Rightarrow> nat \<Rightarrow> port_ticket" where
  "retain_ticket port k \<equiv> case_ticket QuarantineCase port (word_of_nat k) (sample_retain ! k)"

abbreviation retain_port :: "nat \<Rightarrow> (port_ticket, 'f port_world_scheme) ledger_port" where
  "retain_port port \<equiv> recovery_ledger_port (case_facts_env QuarantineCase sample_retain) port"

text \<open>
  A retainer that succeeds and leaves the token in the store, and one that fails without a trace whenever the ledger is
  still empty.
\<close>

definition sample_retainer :: "(string list port_world_scheme, unit, unit) quarantine_retainer" where
  "sample_retainer l b q token p x = ((QuarantineRetainVerified, None), port_world.more_update (\<lambda>tokens. token # tokens) x)"

definition eager_retainer :: "(string list port_world_scheme, unit, unit) quarantine_retainer" where
  "eager_retainer l b q token p x =
     (if pw_directory x = calm_directory [] then ((QuarantineRetainNotApplied, None), x) else sample_retainer l b q token p x)"

lemma sample_retain_good: "good_case QuarantineCase sample_retain"
  by code_simp

lemma sample_retain_length: "length sample_retain = 3"
  by (simp add: sample_retain_def)

lemma sample_quarantine_execution: "validateQuarantineRetainExecution True sample_quarantine_request = None"
  by code_simp

lemma sample_retainers_agree: "retainers_agree (port_durable env port) ticket_view request sample_retainer eager_retainer"
  using durable_not_empty [of env port]
  by (auto simp: retainers_agree_def retain_dispatched_def eager_retainer_def dispatch_events_def)

lemma retain_ticket_view:
  assumes "k < 3"
  shows "ticket_view (retain_ticket port k) = recovery_facts (case_recovery QuarantineCase (word_of_nat k) (sample_retain ! k))"
  using sample_tickets(2) [OF sample_retain_good] assms sample_retain_length by simp

lemma retain_ticket_valid:
  assumes "k < 3"
  shows "validateQuarantineRetainTicket ticket_view (Some (retain_ticket port k)) sample_quarantine_request = None"
  unfolding validateQuarantineRetainTicket_def option.case Let_def retain_ticket_view [OF assms]
  by (simp add: recovery_facts_def case_recovery_def Let_def) code_simp

lemma retain_ticket_event:
  assumes "k < 3"
  shows "requireQuarantineRetainTicketEvent ticket_view (Some (retain_ticket port k)) sample_quarantine_request (fst (sample_retain ! k)) = None"
    "tk_Token (ticket_view (retain_ticket port k)) = sample_token"
proof -
  have "snd (sample_retain ! k) = []" "\<not> recovery_Closed (case_recovery QuarantineCase n (sample_retain ! k))" for n
    using assms by (auto simp: sample_retain_def less_Suc_eq numeral_eq_Suc recovery_Closed_def case_recovery_def recovery_vocabulary_defs)
  then show "requireQuarantineRetainTicketEvent ticket_view (Some (retain_ticket port k)) sample_quarantine_request (fst (sample_retain ! k)) = None"
    using retain_ticket_valid [OF assms] retain_ticket_view [OF assms]
    by (simp add: requireQuarantineRetainTicketEvent_def checks_Cons recovery_facts_def case_recovery_def Let_def)
  show "tk_Token (ticket_view (retain_ticket port k)) = sample_token"
    using retain_ticket_view [OF assms] by (simp add: recovery_facts_def case_recovery_def Let_def sample_binding_digest)
qed

lemma retain_step:
  assumes "Suc k < 3" "fst (sample_retain ! Suc k) = e"
  shows "transitionQuarantineRetainTicket (retain_port port) ticket_view (Some (retain_ticket port k)) sample_quarantine_request
      (to_event e) (sample_port_world (Suc k) clock content) =
    ((Some (retain_ticket port (Suc k)), None), sample_port_world (Suc (Suc k)) (Suc clock) content)"
proof -
  have "snd (sample_retain ! Suc k) = []" using assms(1) by (auto simp: sample_retain_def less_Suc_eq numeral_eq_Suc)
  then have "lp_Transition (retain_port port) (Some (retain_ticket port k)) (to_event e) (sample_port_world (Suc k) clock content) =
      ((Some (retain_ticket port (Suc k)), None), sample_port_world (Suc (Suc k)) (Suc clock) content)"
    using sample_port_transition [OF sample_retain_good, of "Suc k" port clock content] assms sample_retain_length by (simp add: to_event_def)
  with retain_ticket_event [of "Suc k" port] retain_ticket_event(2) [of k port] assms show ?thesis
    by (simp add: transitionQuarantineRetainTicket_def to_event_def)
qed

lemma sample_retain_run:
  "retainWith True (retain_port port) ticket_view sample_quarantine_request () sample_retainer (sample_port_world 0 0 content) =
     ((Some (retain_ticket port 2), None), sample_port_world 3 3 (sample_token # content))"
proof -
  have "lp_Reserve (retain_port port) (qrr_action sample_quarantine_request) (qrr_planDigest sample_quarantine_request) zero_digest
      (sample_port_world 0 0 content) = ((Some (retain_ticket port 0), None), sample_port_world 1 1 content)"
    using sample_port_reserve [OF sample_retain_good, of port 0 content]
    by (simp add: sample_quarantine_request_def case_layout_def sample_retain_def)
  moreover have events: "fst (sample_retain ! 0) = EventIntentReserved" "fst (sample_retain ! Suc 0) = EventMoveDispatchRecorded"
    "fst (sample_retain ! Suc (Suc 0)) = EventMoveVerified" by (simp_all add: sample_retain_def same_vocabulary)
  moreover have "sample_retainer l b q token p (sample_port_world k clock content) =
      ((QuarantineRetainVerified, None), sample_port_world k clock (token # content))" for l b q token p k clock content
    by (simp add: sample_retainer_def sample_port_world_def)
  ultimately show ?thesis
    using retain_ticket_event [of 0 port] retain_ticket_event(2) [of 1 port] sample_quarantine_execution
      retain_step [of 0 _ port 1 content, OF _ events(2)] retain_step [of 1 _ port 2 "sample_token # content"]
    by (simp add: retainWith_def retainWithOperationResult_def eval_nat_numeral)
qed

theorem quarantine_retain_recorded_witness:
  "retainWith True (retain_port 7) ticket_view sample_quarantine_request () eager_retainer (sample_port_world 0 0 []) =
     ((Some (retain_ticket 7 2), None), sample_port_world 3 3 [sample_token]) \<and>
   retained_under (port_durable (case_facts_env QuarantineCase sample_retain) 7) ticket_view sample_quarantine_request () sample_retainer
     (Some (retain_ticket 7 2)) (sample_port_world 3 3 [sample_token])"
proof -
  have "distinct_records (pw_directory (sample_port_world 0 0 ([] :: string list)))"
    by (rule sample_port_calm [OF sample_retain_good]) simp
  moreover have "retainer_keeps (\<lambda>w w'. pw_directory w' = pw_directory w) sample_retainer"
    by (simp add: retainer_keeps_def sample_retainer_def)
  ultimately show ?thesis
    using quarantine_retain_recorded [OF _ _ sample_retainers_agree, where w = "sample_port_world 0 0 []" and env = "case_facts_env QuarantineCase sample_retain"
        and port = 7 and request = sample_quarantine_request and live = True and quarantine = "()"] sample_retain_run [of 7 "[]"] by simp
qed

end
