(* ===== verification/MountEvidence.thy ===== *)
theory MountEvidence
  imports PrivateDirectory
begin

text \<open>
  \<^verbatim>\<open>src/internal/mounts/authority.go\<close>, \<^verbatim>\<open>filesystem_linux.go\<close> and the checks of
  \<^verbatim>\<open>layout_lease_linux.go\<close>: the evidence about a mount that an engine or helper recorded, the evidence
  inspected on a held descriptor, and when the two agree. Raw texts of the mount table are byte strings. The
  sentinels are those of \<^verbatim>\<open>PrivateDirectory\<close>.
\<close>

section \<open>Evidence\<close>

record device_identity =
  di_Major :: u32
  di_Minor :: u32

record mount_namespace =
  mn_Device :: u64
  mn_Inode :: u64

type_synonym filesystem_type = bytes

definition FilesystemUnknown :: filesystem_type where "FilesystemUnknown = []"
definition FilesystemExt4 :: filesystem_type where "FilesystemExt4 = bytes_of ''ext4''"
definition FilesystemXFS :: filesystem_type where "FilesystemXFS = bytes_of ''xfs''"
definition FilesystemBtrfs :: filesystem_type where "FilesystemBtrfs = bytes_of ''btrfs''"

definition filesystem_supported :: "filesystem_type \<Rightarrow> bool" where
  "filesystem_supported filesystem = (filesystem \<in> {FilesystemExt4, FilesystemXFS, FilesystemBtrfs})"

record mount_record =
  mr_ID :: u64
  mr_ParentID :: u64
  mr_Device :: device_identity
  mr_Root :: bytes
  mr_MountPoint :: bytes
  mr_Filesystem :: filesystem_type
  mr_Source :: bytes

record layout_expectation =
  le_Namespace :: mount_namespace
  le_Device :: device_identity
  le_Inode :: u64
  le_UID :: u32
  le_GID :: u32
  le_Mode :: u32
  le_Mount :: mount_record

record root_expectation =
  re_Namespace :: mount_namespace
  re_Device :: device_identity
  re_Inode :: u64
  re_UID :: u32
  re_GID :: u32
  re_Mode :: u32
  re_Mount :: mount_record
  re_FixedLocalDevice :: bool
  re_BindFreeAttested :: bool

record filesystem_facts =
  ff_Filesystem :: filesystem_type
  ff_MountFilesystem :: filesystem_type
  ff_ReadOnly :: bool
  ff_MountRoot :: bytes
  ff_FixedLocalDevice :: bool
  ff_RootDevice :: device_identity
  ff_MountDevice :: device_identity

record mount_inspection =
  mi_Namespace :: mount_namespace
  mi_Device :: device_identity
  mi_Inode :: u64
  mi_UID :: u32
  mi_GID :: u32
  mi_Mode :: u32
  mi_Mount :: mount_record
  mi_Filesystem :: filesystem_facts

definition no_device :: device_identity where "no_device = \<lparr> di_Major = 0, di_Minor = 0 \<rparr>"

section \<open>Validation\<close>

definition mount_namespace_validate :: "mount_namespace \<Rightarrow> mount_error option" where
  "mount_namespace_validate namespace = check (\<not> (mn_Device namespace = 0 \<or> mn_Inode namespace = 0)) [MountErrInvalidAuthority]"

definition hasNUL :: "bytes \<Rightarrow> bool" where
  "hasNUL value = list_ex (\<lambda>c. c = 0) value"

definition validateTrustedRootMountRecord :: "mount_record \<Rightarrow> mount_error option" where
  "validateTrustedRootMountRecord r = checks
     [check (mr_ID r \<noteq> 0) [MountErrInvalidAuthority],
      check (mr_ParentID r \<noteq> 0) [MountErrInvalidAuthority],
      check (mr_Device r \<noteq> no_device) [MountErrInvalidAuthority],
      check (filesystem_supported (mr_Filesystem r)) [MountErrInvalidAuthority],
      check (mr_Root r = [0x2F]) [MountErrInvalidAuthority],
      check (mr_MountPoint r \<noteq> [] \<and> hd (mr_MountPoint r) = 0x2F \<and> \<not> hasNUL (mr_MountPoint r)) [MountErrInvalidAuthority],
      check (mr_Source r \<noteq> [] \<and> \<not> hasNUL (mr_Source r)) [MountErrInvalidAuthority]]"

definition root_expectation_validate :: "root_expectation \<Rightarrow> mount_error option" where
  "root_expectation_validate e = checks
     [mount_namespace_validate (re_Namespace e),
      check (re_Inode e \<noteq> 0) [MountErrInvalidAuthority],
      validateTrustedRootMountRecord (re_Mount e),
      check (re_Device e = mr_Device (re_Mount e)) [MountErrInvalidAuthority],
      check (re_FixedLocalDevice e) [MountErrUnsupported],
      check (re_BindFreeAttested e) [MountErrUnsupported]]"

definition layout_expectation_validate :: "layout_expectation \<Rightarrow> mount_error option" where
  "layout_expectation_validate e = checks
     [mount_namespace_validate (le_Namespace e),
      check (le_Device e \<noteq> no_device) [MountErrInvalidAuthority],
      check (le_Inode e \<noteq> 0) [MountErrInvalidAuthority],
      validateTrustedRootMountRecord (le_Mount e),
      check (le_Device e = mr_Device (le_Mount e)) [MountErrInvalidAuthority]]"

definition sameMountRecord :: "mount_record \<Rightarrow> mount_record \<Rightarrow> bool" where
  "sameMountRecord left right =
     (mr_ID left = mr_ID right \<and> mr_ParentID left = mr_ParentID right \<and> mr_Device left = mr_Device right \<and>
      mr_Root left = mr_Root right \<and> mr_MountPoint left = mr_MountPoint right \<and>
      mr_Filesystem left = mr_Filesystem right \<and> mr_Source left = mr_Source right)"

lemma sameMountRecord_eq [simp]: "sameMountRecord left right \<longleftrightarrow> left = right"
  by (cases left; cases right) (auto simp: sameMountRecord_def)

section \<open>Comparing inspected evidence\<close>

definition CheckSupportedFilesystem :: "filesystem_facts \<Rightarrow> mount_error option" where
  "CheckSupportedFilesystem facts = checks
     [check (filesystem_supported (ff_Filesystem facts)) [MountErrUnsupported],
      check (ff_MountFilesystem facts = ff_Filesystem facts) [MountErrUnsupported],
      check (\<not> ff_ReadOnly facts) [MountErrUnsupported],
      check (ff_MountRoot facts = [0x2F]) [MountErrUnsupported],
      check (ff_RootDevice facts = ff_MountDevice facts) [MountErrUnsupported],
      check (ff_FixedLocalDevice facts) [MountErrUnsupported]]"

definition CheckMountNamespace :: "mount_namespace \<Rightarrow> mount_namespace \<Rightarrow> mount_error option" where
  "CheckMountNamespace expected observed = checks
     [mount_namespace_validate expected,
      check (\<not> (mn_Device observed = 0 \<or> mn_Inode observed = 0)) [MountErrDrifted],
      check (expected = observed) [MountErrDrifted]]"

definition checkRootEvidence :: "root_expectation \<Rightarrow> mount_inspection \<Rightarrow> mount_error option" where
  "checkRootEvidence e a = checks
     [root_expectation_validate e,
      CheckMountNamespace (re_Namespace e) (mi_Namespace a),
      check (re_Device e = mi_Device a) [MountErrDrifted],
      check (re_Inode e = mi_Inode a) [MountErrDrifted],
      check (\<not> (re_UID e \<noteq> mi_UID a \<or> re_GID e \<noteq> mi_GID a)) [MountErrDrifted],
      check (re_Mode e = mi_Mode a) [MountErrDrifted],
      check (mr_ID (re_Mount e) = mr_ID (mi_Mount a)) [MountErrDrifted],
      check (mr_ParentID (re_Mount e) = mr_ParentID (mi_Mount a)) [MountErrDrifted],
      check (mr_Device (re_Mount e) = mr_Device (mi_Mount a)) [MountErrDrifted],
      check (mr_Root (re_Mount e) = mr_Root (mi_Mount a)) [MountErrDrifted],
      check (mr_MountPoint (re_Mount e) = mr_MountPoint (mi_Mount a)) [MountErrDrifted],
      check (mr_Filesystem (re_Mount e) = mr_Filesystem (mi_Mount a)) [MountErrDrifted],
      check (mr_Source (re_Mount e) = mr_Source (mi_Mount a)) [MountErrDrifted],
      check (mr_Filesystem (re_Mount e) = ff_Filesystem (mi_Filesystem a)) [MountErrDrifted],
      check (mr_Root (re_Mount e) = ff_MountRoot (mi_Filesystem a)) [MountErrDrifted],
      check (\<not> (mi_Device a \<noteq> mr_Device (mi_Mount a) \<or> mi_Device a \<noteq> ff_RootDevice (mi_Filesystem a) \<or>
        mr_Device (mi_Mount a) \<noteq> ff_MountDevice (mi_Filesystem a))) [MountErrDrifted]]"

definition checkLayoutEvidence :: "layout_expectation \<Rightarrow> mount_inspection \<Rightarrow> mount_error option" where
  "checkLayoutEvidence e a = checks
     [layout_expectation_validate e,
      CheckMountNamespace (le_Namespace e) (mi_Namespace a),
      check (le_Device e = mi_Device a) [MountErrDrifted],
      check (le_Inode e = mi_Inode a) [MountErrDrifted],
      check (\<not> (le_UID e \<noteq> mi_UID a \<or> le_GID e \<noteq> mi_GID a)) [MountErrDrifted],
      check (le_Mode e = mi_Mode a) [MountErrDrifted],
      check (sameMountRecord (le_Mount e) (mi_Mount a)) [MountErrDrifted],
      check (\<not> ff_ReadOnly (mi_Filesystem a)) [MountErrUnsupported],
      check (\<not> (mi_Device a \<noteq> mr_Device (mi_Mount a) \<or> mi_Device a \<noteq> ff_RootDevice (mi_Filesystem a) \<or>
        mr_Device (mi_Mount a) \<noteq> ff_MountDevice (mi_Filesystem a))) [MountErrDrifted]]"

definition checkLayoutRootBinding :: "mount_inspection \<Rightarrow> mount_inspection \<Rightarrow> mount_error option" where
  "checkLayoutRootBinding root layout = checks
     [CheckMountNamespace (mi_Namespace root) (mi_Namespace layout),
      check (\<not> (mi_Device root \<noteq> mi_Device layout \<or> \<not> sameMountRecord (mi_Mount root) (mi_Mount layout))) [MountErrUnsupported],
      check (\<not> (ff_Filesystem (mi_Filesystem root) \<noteq> ff_Filesystem (mi_Filesystem layout) \<or>
        ff_MountFilesystem (mi_Filesystem root) \<noteq> ff_MountFilesystem (mi_Filesystem layout) \<or>
        ff_MountRoot (mi_Filesystem root) \<noteq> ff_MountRoot (mi_Filesystem layout))) [MountErrUnsupported]]"

section \<open>Inspecting a descriptor\<close>

record descriptor_mount_evidence =
  dme_Device :: device_identity
  dme_Inode :: u64
  dme_UID :: u32
  dme_GID :: u32
  dme_Mode :: u32
  dme_MountID :: u64
  dme_Filesystem :: filesystem_type
  dme_ReadOnly :: bool

definition mountInspectionAttemptLimit :: nat where "mountInspectionAttemptLimit = 3"
definition permissionModeMask :: u32 where "permissionModeMask = 0xFFF"

definition filesystemFromMagic :: "int \<Rightarrow> filesystem_type" where
  "filesystemFromMagic magic =
     (if magic = 0xEF53 then FilesystemExt4 else if magic = 0x58465342 then FilesystemXFS
      else if magic = 0x9123683E then FilesystemBtrfs else FilesystemUnknown)"

definition syscallQualificationError :: "errno \<Rightarrow> mount_error" where
  "syscallQualificationError e = (if e \<in> {ENOSYS, EOPNOTSUPP, EINVAL} then [MountErrUnsupported] else [MountErrDrifted])"

text \<open>The answer of \<^verbatim>\<open>fstatfs\<close>: the magic number of the filesystem and whether it is mounted read-only.\<close>

definition inspectDescriptorMountEvidence ::
    "errno + statx \<Rightarrow> errno + int \<times> bool \<Rightarrow> mount_error + descriptor_mount_evidence" where
  "inspectDescriptorMountEvidence stat statfs =
     (let required = STATX_TYPE OR STATX_MODE OR STATX_UID OR STATX_GID OR STATX_INO OR STATX_MNT_ID in
      case stat of
        Inl e \<Rightarrow> Inl (syscallQualificationError e)
      | Inr s \<Rightarrow>
        if stx_Mask s AND required \<noteq> required then Inl [MountErrUnsupported]
        else if stx_Mode s AND 0xF000 \<noteq> 0x4000 then Inl [MountErrDrifted]
        else (case statfs of
            Inl e \<Rightarrow> Inl (syscallQualificationError e)
          | Inr (magic, readOnly) \<Rightarrow> Inr
              \<lparr> dme_Device = \<lparr> di_Major = stx_Dev_major s, di_Minor = stx_Dev_minor s \<rparr>, dme_Inode = stx_Ino s,
                dme_UID = stx_Uid s, dme_GID = stx_Gid s, dme_Mode = ucast (stx_Mode s) AND permissionModeMask,
                dme_MountID = stx_Mnt_id s, dme_Filesystem = filesystemFromMagic magic, dme_ReadOnly = readOnly \<rparr>))"

definition FindMountRecord :: "mount_record list \<Rightarrow> u64 \<Rightarrow> mount_record option" where
  "FindMountRecord records mountID = find (\<lambda>r. mr_ID r = mountID) records"

definition checkMountTopology :: "mount_record list \<Rightarrow> mount_record \<Rightarrow> mount_error option" where
  "checkMountTopology records target =
     check (\<not> list_ex (\<lambda>r. mr_ID r \<noteq> mr_ID target \<and> mr_Device r = mr_Device target \<and>
       mr_Filesystem r = mr_Filesystem target \<and> mr_Root r = mr_Root target) records) [MountErrUnsupported]"

text \<open>
  What one attempt reads, in the order it asks: descriptor, namespace, mount table, namespace, descriptor.
  Attempt \<open>k\<close> reads \<open>answers k\<close>.
\<close>

record inspection_answers =
  ia_descriptorBefore :: "mount_error + descriptor_mount_evidence"
  ia_namespaceBefore :: "mount_error + mount_namespace"
  ia_mountInfo :: "mount_error + mount_record list"
  ia_namespaceAfter :: "mount_error + mount_namespace"
  ia_descriptorAfter :: "mount_error + descriptor_mount_evidence"

definition inspection_of :: "mount_record \<Rightarrow> mount_namespace \<Rightarrow> descriptor_mount_evidence \<Rightarrow> mount_inspection" where
  "inspection_of record namespace evidence =
     \<lparr> mi_Namespace = namespace, mi_Device = dme_Device evidence, mi_Inode = dme_Inode evidence, mi_UID = dme_UID evidence,
       mi_GID = dme_GID evidence, mi_Mode = dme_Mode evidence, mi_Mount = record,
       mi_Filesystem = \<lparr> ff_Filesystem = dme_Filesystem evidence, ff_MountFilesystem = mr_Filesystem record,
         ff_ReadOnly = dme_ReadOnly evidence, ff_MountRoot = mr_Root record, ff_FixedLocalDevice = False,
         ff_RootDevice = dme_Device evidence, ff_MountDevice = mr_Device record \<rparr> \<rparr>"

text \<open>One attempt; \<open>None\<close> for an unstable sample.\<close>

definition inspect_once :: "inspection_answers \<Rightarrow> mount_error + mount_inspection option" where
  "inspect_once a =
     (case ia_descriptorBefore a of
        Inl e \<Rightarrow> Inl e
      | Inr before \<Rightarrow>
        (case ia_namespaceBefore a of
           Inl e \<Rightarrow> Inl e
         | Inr namespaceBefore \<Rightarrow>
           (case ia_mountInfo a of
              Inl _ \<Rightarrow> Inl [MountErrUnsupported]
            | Inr records \<Rightarrow>
              (case FindMountRecord records (dme_MountID before) of
                 None \<Rightarrow> Inl [MountErrUnsupported]
               | Some record \<Rightarrow>
                 (case checkMountTopology records record of
                    Some e \<Rightarrow> Inl e
                  | None \<Rightarrow>
                    (case ia_namespaceAfter a of
                       Inl e \<Rightarrow> Inl e
                     | Inr namespaceAfter \<Rightarrow>
                       (case ia_descriptorAfter a of
                          Inl e \<Rightarrow> Inl e
                        | Inr after \<Rightarrow>
                          if before \<noteq> after \<or> namespaceBefore \<noteq> namespaceAfter then Inr None
                          else Inr (Some (inspection_of record namespaceAfter after)))))))))"

fun inspect_attempts :: "(nat \<Rightarrow> inspection_answers) \<Rightarrow> nat \<Rightarrow> nat \<Rightarrow> mount_error + mount_inspection" where
  "inspect_attempts answers k 0 = Inl [MountErrDrifted]"
| "inspect_attempts answers k (Suc n) =
     (case inspect_once (answers k) of
        Inl e \<Rightarrow> Inl e
      | Inr (Some inspection) \<Rightarrow> Inr inspection
      | Inr None \<Rightarrow> inspect_attempts answers (Suc k) n)"

definition inspectMountWith :: "int \<Rightarrow> (nat \<Rightarrow> inspection_answers) \<Rightarrow> mount_error + mount_inspection" where
  "inspectMountWith fd answers =
     (if fd < 0 then Inl [MountErrInvalidAuthority] else inspect_attempts answers 0 mountInspectionAttemptLimit)"

definition currentMountNamespace :: "errno + u64 \<times> u64 \<Rightarrow> mount_error + mount_namespace" where
  "currentMountNamespace stat =
     (case stat of
        Inl _ \<Rightarrow> Inl [MountErrUnsupported]
      | Inr (dev, ino) \<Rightarrow>
        if dev = 0 \<or> ino = 0 then Inl [MountErrUnsupported] else Inr \<lparr> mn_Device = dev, mn_Inode = ino \<rparr>)"

section \<open>Capturing expectations\<close>

definition captureRootExpectationWith ::
    "mount_error option \<Rightarrow> mount_error + mount_inspection \<Rightarrow> bool \<Rightarrow> bool \<Rightarrow> mount_error + root_expectation" where
  "captureRootExpectationWith kernelError inspected fixedLocalDevice bindFreeAttested =
     (case kernelError of
        Some e \<Rightarrow> Inl e
      | None \<Rightarrow>
        (case inspected of
           Inl e \<Rightarrow> Inl e
         | Inr i \<Rightarrow>
           (case CheckSupportedFilesystem (mi_Filesystem i \<lparr> ff_FixedLocalDevice := fixedLocalDevice \<rparr>) of
              Some e \<Rightarrow> Inl e
            | None \<Rightarrow>
              (let expectation = \<lparr> re_Namespace = mi_Namespace i, re_Device = mi_Device i, re_Inode = mi_Inode i, re_UID = mi_UID i,
                     re_GID = mi_GID i, re_Mode = mi_Mode i, re_Mount = mi_Mount i, re_FixedLocalDevice = fixedLocalDevice,
                     re_BindFreeAttested = bindFreeAttested \<rparr>
               in case root_expectation_validate expectation of Some e \<Rightarrow> Inl e | None \<Rightarrow> Inr expectation))))"

section \<open>What agreement means\<close>

text \<open>The expectation that an inspection would be recorded as.\<close>

definition recorded_expectation :: "mount_inspection \<Rightarrow> root_expectation" where
  "recorded_expectation a =
     \<lparr> re_Namespace = mi_Namespace a, re_Device = mi_Device a, re_Inode = mi_Inode a, re_UID = mi_UID a,
       re_GID = mi_GID a, re_Mode = mi_Mode a, re_Mount = mi_Mount a, re_FixedLocalDevice = True, re_BindFreeAttested = True \<rparr>"

text \<open>Facts of a filesystem that agree with its mount record and device.\<close>

definition consistent_facts :: "mount_inspection \<Rightarrow> bool" where
  "consistent_facts a \<longleftrightarrow> ff_Filesystem (mi_Filesystem a) = mr_Filesystem (mi_Mount a) \<and>
     ff_MountRoot (mi_Filesystem a) = mr_Root (mi_Mount a) \<and> ff_RootDevice (mi_Filesystem a) = mi_Device a \<and>
     ff_MountDevice (mi_Filesystem a) = mr_Device (mi_Mount a)"

lemma mount_record_eqI:
  fixes r s :: mount_record
  shows "mr_ID r = mr_ID s \<Longrightarrow> mr_ParentID r = mr_ParentID s \<Longrightarrow> mr_Device r = mr_Device s \<Longrightarrow> mr_Root r = mr_Root s \<Longrightarrow>
   mr_MountPoint r = mr_MountPoint s \<Longrightarrow> mr_Filesystem r = mr_Filesystem s \<Longrightarrow> mr_Source r = mr_Source s \<Longrightarrow> r = s"
  by (cases r; cases s) simp

lemma root_validate_attested: "root_expectation_validate e = None \<Longrightarrow> re_FixedLocalDevice e \<and> re_BindFreeAttested e \<and>
    re_Device e = mr_Device (re_Mount e) \<and> mn_Device (re_Namespace e) \<noteq> 0 \<and> mn_Inode (re_Namespace e) \<noteq> 0"
  by (simp add: root_expectation_validate_def mount_namespace_validate_def checks_Cons)

lemma checkRootEvidence_None:
  "checkRootEvidence e a = None \<longleftrightarrow> root_expectation_validate e = None \<and> e = recorded_expectation a \<and> consistent_facts a"
proof
  assume "checkRootEvidence e a = None"
  then have v: "root_expectation_validate e = None" "re_Namespace e = mi_Namespace a" "re_Device e = mi_Device a" "re_Inode e = mi_Inode a"
    "re_UID e = mi_UID a" "re_GID e = mi_GID a" "re_Mode e = mi_Mode a" "consistent_facts a" and m: "re_Mount e = mi_Mount a"
    by (auto simp: checkRootEvidence_def CheckMountNamespace_def checks_Cons consistent_facts_def intro: mount_record_eqI)
  with root_validate_attested [OF v(1)] have "e = recorded_expectation a"
    by (cases e) (simp add: recorded_expectation_def)
  with v show "root_expectation_validate e = None \<and> e = recorded_expectation a \<and> consistent_facts a" by blast
next
  assume a: "root_expectation_validate e = None \<and> e = recorded_expectation a \<and> consistent_facts a"
  with root_validate_attested [of e] show "checkRootEvidence e a = None"
    by (auto simp: checkRootEvidence_def CheckMountNamespace_def mount_namespace_validate_def checks_Cons consistent_facts_def
        recorded_expectation_def)
qed

lemma layout_binding_mount:
  assumes "checkLayoutEvidence e a = None" "checkLayoutRootBinding root a = None"
  shows "le_Mount e = mi_Mount root \<and> le_Device e = mi_Device root \<and> le_Namespace e = mi_Namespace root \<and>
    mi_Mount a = mi_Mount root \<and> le_Inode e = mi_Inode a \<and> le_UID e = mi_UID a \<and> le_GID e = mi_GID a \<and> le_Mode e = mi_Mode a \<and>
    \<not> ff_ReadOnly (mi_Filesystem a)"
  using assms by (auto simp: checkLayoutEvidence_def checkLayoutRootBinding_def CheckMountNamespace_def checks_Cons)

lemma inspect_once_stable:
  assumes "inspect_once a = Inr (Some i)"
  obtains evidence namespace records r where
    "ia_descriptorBefore a = Inr evidence" "ia_descriptorAfter a = Inr evidence"
    "ia_namespaceBefore a = Inr namespace" "ia_namespaceAfter a = Inr namespace"
    "ia_mountInfo a = Inr records" "r \<in> set records" "mr_ID r = dme_MountID evidence"
    "\<forall>s \<in> set records. mr_ID s = mr_ID r \<or> mr_Device s \<noteq> mr_Device r \<or> mr_Filesystem s \<noteq> mr_Filesystem r \<or> mr_Root s \<noteq> mr_Root r"
    "i = inspection_of r namespace evidence"
proof -
  from assms obtain evidence namespace records r where r: "ia_descriptorBefore a = Inr evidence" "ia_descriptorAfter a = Inr evidence"
    "ia_namespaceBefore a = Inr namespace" "ia_namespaceAfter a = Inr namespace"
    "ia_mountInfo a = Inr records" "FindMountRecord records (dme_MountID evidence) = Some r" "checkMountTopology records r = None"
    "i = inspection_of r namespace evidence"
    by (auto simp: inspect_once_def split: sum.splits option.splits if_splits)
  moreover have "r \<in> set records" "mr_ID r = dme_MountID evidence"
    using r(6) by (auto simp: FindMountRecord_def find_Some_iff)
  moreover have "\<forall>s \<in> set records. mr_ID s = mr_ID r \<or> mr_Device s \<noteq> mr_Device r \<or> mr_Filesystem s \<noteq> mr_Filesystem r \<or> mr_Root s \<noteq> mr_Root r"
    using r(7) by (auto simp: checkMountTopology_def list_ex_iff)
  ultimately show thesis using that by blast
qed

lemma inspect_attempts_stable:
  "inspect_attempts answers k n = Inr i \<Longrightarrow> \<exists>j < n. inspect_once (answers (k + j)) = Inr (Some i)"
proof (induction answers k n rule: inspect_attempts.induct)
  case (2 answers k n)
  show ?case
  proof (cases "inspect_once (answers k) = Inr (Some i)")
    case True
    then show ?thesis by (intro exI [of _ 0]) simp
  next
    case False
    with "2.prems" have none: "inspect_once (answers k) = Inr None" and rest: "inspect_attempts answers (Suc k) n = Inr i"
      by (auto split: sum.splits option.splits)
    from "2.IH" [OF none _ rest] obtain j where "j < n" "inspect_once (answers (Suc k + j)) = Inr (Some i)" by auto
    then show ?thesis by (intro exI [of _ "Suc j"]) simp
  qed
qed simp

lemma inspection_consistent: "consistent_facts (inspection_of r namespace evidence) \<longleftrightarrow>
    dme_Filesystem evidence = mr_Filesystem r"
  by (simp add: consistent_facts_def inspection_of_def)

section \<open>Properties\<close>

text \<open>
  C14: requalifying a root is comparing with a fresh capture. Of what an inspection reports, the checks that
  admit a trusted root accept an expectation exactly when capturing that inspection with both attestations would
  record this very expectation.
\<close>

theorem root_accepted_iff_recaptured:
  "checkRootEvidence e (inspection_of r namespace evidence) = None \<and>
   CheckSupportedFilesystem (mi_Filesystem (inspection_of r namespace evidence) \<lparr> ff_FixedLocalDevice := re_FixedLocalDevice e \<rparr>) = None \<longleftrightarrow>
   captureRootExpectationWith None (Inr (inspection_of r namespace evidence)) True True = Inr e"
proof -
  let ?i = "inspection_of r namespace evidence"
  have capture: "captureRootExpectationWith None (Inr ?i) True True = Inr e \<longleftrightarrow>
      CheckSupportedFilesystem (mi_Filesystem ?i \<lparr> ff_FixedLocalDevice := True \<rparr>) = None \<and>
      root_expectation_validate e = None \<and> e = recorded_expectation ?i"
    by (auto simp: captureRootExpectationWith_def recorded_expectation_def Let_def split: option.splits)
  have consistent: "CheckSupportedFilesystem (mi_Filesystem ?i \<lparr> ff_FixedLocalDevice := True \<rparr>) = None \<Longrightarrow> consistent_facts ?i"
    by (simp add: CheckSupportedFilesystem_def checks_Cons inspection_consistent) (simp add: inspection_of_def)
  show ?thesis
    unfolding capture checkRootEvidence_None using consistent by (auto simp: recorded_expectation_def)
qed

text \<open>
  C15: an inspection is evidence of one moment. When it succeeds, one of the three attempts saw the same
  descriptor evidence and the same mount namespace before and after it read the mount table; the record it reports
  is the table's entry for the descriptor's mount, and no other mount shows the same root of the same filesystem.
\<close>

theorem inspection_stable:
  assumes "inspectMountWith fd answers = Inr i"
  shows "\<exists>k < 3. \<exists>evidence namespace records r.
    ia_descriptorBefore (answers k) = Inr evidence \<and> ia_descriptorAfter (answers k) = Inr evidence \<and>
    ia_namespaceBefore (answers k) = Inr namespace \<and> ia_namespaceAfter (answers k) = Inr namespace \<and>
    ia_mountInfo (answers k) = Inr records \<and> r \<in> set records \<and> mr_ID r = dme_MountID evidence \<and>
    (\<forall>s \<in> set records. mr_ID s = mr_ID r \<or> mr_Device s \<noteq> mr_Device r \<or> mr_Filesystem s \<noteq> mr_Filesystem r \<or> mr_Root s \<noteq> mr_Root r) \<and>
    i = inspection_of r namespace evidence"
proof -
  from assms have "inspect_attempts answers 0 3 = Inr i"
    by (simp add: inspectMountWith_def mountInspectionAttemptLimit_def split: if_splits)
  from inspect_attempts_stable [OF this] obtain k where "k < 3" and k: "inspect_once (answers k) = Inr (Some i)" by auto
  then show ?thesis using inspect_once_stable [OF k] by metis
qed

definition sample_mount :: mount_record where
  "sample_mount = \<lparr> mr_ID = 77, mr_ParentID = 1, mr_Device = \<lparr> di_Major = 8, di_Minor = 1 \<rparr>, mr_Root = [0x2F],
     mr_MountPoint = [0x2F], mr_Filesystem = FilesystemExt4, mr_Source = bytes_of ''/dev/sda1'' \<rparr>"

definition sample_evidence :: "u64 \<Rightarrow> u32 \<Rightarrow> descriptor_mount_evidence" where
  "sample_evidence inode mode =
     \<lparr> dme_Device = \<lparr> di_Major = 8, di_Minor = 1 \<rparr>, dme_Inode = inode, dme_UID = 1000, dme_GID = 1000, dme_Mode = mode,
       dme_MountID = 77, dme_Filesystem = FilesystemExt4, dme_ReadOnly = False \<rparr>"

definition sample_namespace :: mount_namespace where "sample_namespace = \<lparr> mn_Device = 4, mn_Inode = 9 \<rparr>"

text \<open>Unstable at the first attempt, stable at the second.\<close>

definition sample_answers :: "nat \<Rightarrow> inspection_answers" where
  "sample_answers k =
     \<lparr> ia_descriptorBefore = Inr (sample_evidence 2 (if k = 0 then 0x1FF else 0x1C0)), ia_namespaceBefore = Inr sample_namespace,
       ia_mountInfo = Inr [sample_mount], ia_namespaceAfter = Inr sample_namespace,
       ia_descriptorAfter = Inr (sample_evidence 2 0x1C0) \<rparr>"

theorem inspection_stable_witness:
  "inspect_once (sample_answers 0) = Inr None \<and>
   inspectMountWith 3 sample_answers = Inr (inspection_of sample_mount sample_namespace (sample_evidence 2 0x1C0)) \<and>
   (\<exists>k < 3. ia_descriptorBefore (sample_answers k) = ia_descriptorAfter (sample_answers k))"
proof -
  have first: "inspect_once (sample_answers 0) = Inr None" by code_simp
  have run: "inspectMountWith 3 sample_answers = Inr (inspection_of sample_mount sample_namespace (sample_evidence 2 0x1C0))"
    by code_simp
  from inspection_stable [OF run] first run show ?thesis by metis
qed

end
