(* ===== verification/Descriptors.thy ===== *)
theory Descriptors
  imports MountEvidence
begin

text \<open>
  The descriptor table of the process as \<^verbatim>\<open>src/internal/mounts\<close> uses it: \<^verbatim>\<open>unix.Close\<close>,
  \<^verbatim>\<open>F_DUPFD_CLOEXEC\<close>, the queries of a descriptor, and the loops of the package that release
  descriptors. The kernel is a parameter: which descriptor a duplication picks and which call fails may depend on the
  number of calls made before. \<open>pr_stray\<close> lists the closes of descriptors that were not open, which in a
  program with several threads could hit a descriptor of another owner.
\<close>

section \<open>The process and the kernel\<close>

record open_directory =
  od_Flags :: u32
  od_Status :: u32
  od_Stat :: "errno + u32"

record process =
  pr_open :: "int \<Rightarrow> open_directory option"
  pr_calls :: nat
  pr_stray :: "int list"

record kernel_answers =
  ka_Dup :: "process \<Rightarrow> int \<Rightarrow> errno + int"
  ka_Close :: "nat \<Rightarrow> int \<Rightarrow> errno option"

definition FD_CLOEXEC :: u32 where "FD_CLOEXEC = 1"
definition O_PATH :: u32 where "O_PATH = 0x200000"
definition O_ACCMODE :: u32 where "O_ACCMODE = 3"
definition O_RDONLY :: u32 where "O_RDONLY = 0"

definition tick :: "process \<Rightarrow> process" where
  "tick p = p \<lparr> pr_calls := Suc (pr_calls p) \<rparr>"

text \<open>Linux releases the descriptor whether or not \<^verbatim>\<open>close\<close> reports an error.\<close>

definition unix_Close :: "kernel_answers \<Rightarrow> int \<Rightarrow> process \<Rightarrow> errno option \<times> process" where
  "unix_Close K fd p =
     (case pr_open p fd of
        None \<Rightarrow> (Some EBADF, (tick p) \<lparr> pr_stray := pr_stray p @ [fd] \<rparr>)
      | Some _ \<Rightarrow> (ka_Close K (pr_calls p) fd, (tick p) \<lparr> pr_open := (pr_open p)(fd := None) \<rparr>))"

definition dup_cloexec :: "kernel_answers \<Rightarrow> int \<Rightarrow> process \<Rightarrow> (errno + int) \<times> process" where
  "dup_cloexec K fd p =
     (case pr_open p fd of
        None \<Rightarrow> (Inl EBADF, tick p)
      | Some d \<Rightarrow>
        (case ka_Dup K p fd of
           Inl e \<Rightarrow> (Inl e, tick p)
         | Inr n \<Rightarrow> (Inr n, (tick p) \<lparr> pr_open := (pr_open p)(n \<mapsto> d \<lparr> od_Flags := FD_CLOEXEC \<rparr>) \<rparr>)))"

text \<open>\<^verbatim>\<open>fcntl(2)\<close>: \<^verbatim>\<open>F_DUPFD_CLOEXEC\<close> with minimum 3 answers with an unused descriptor from 3 on.\<close>

definition fresh_duplicates :: "kernel_answers \<Rightarrow> bool" where
  "fresh_duplicates K \<longleftrightarrow> (\<forall>p fd n. ka_Dup K p fd = Inr n \<longrightarrow> 3 \<le> n \<and> pr_open p n = None)"

section \<open>Queries\<close>

definition fcntl_getfd :: "int \<Rightarrow> process \<Rightarrow> errno + u32" where
  "fcntl_getfd fd p = (case pr_open p fd of None \<Rightarrow> Inl EBADF | Some d \<Rightarrow> Inr (od_Flags d))"

definition fcntl_getfl :: "int \<Rightarrow> process \<Rightarrow> errno + u32" where
  "fcntl_getfl fd p = (case pr_open p fd of None \<Rightarrow> Inl EBADF | Some d \<Rightarrow> Inr (od_Status d))"

definition unix_Fstat :: "int \<Rightarrow> process \<Rightarrow> errno + u32" where
  "unix_Fstat fd p = (case pr_open p fd of None \<Rightarrow> Inl EBADF | Some d \<Rightarrow> od_Stat d)"

text \<open>\<^verbatim>\<open>openTrustedRootWith\<close> writes the same tests out.\<close>

definition validateLeasedDirectoryFD :: "int \<Rightarrow> process \<Rightarrow> mount_error option" where
  "validateLeasedDirectoryFD fd p =
     (case fcntl_getfd fd p of
        Inl _ \<Rightarrow> Some [MountErrDrifted]
      | Inr fdFlags \<Rightarrow>
        if fdFlags AND FD_CLOEXEC = 0 then Some [MountErrInvalidAuthority]
        else (case fcntl_getfl fd p of
            Inl _ \<Rightarrow> Some [MountErrDrifted]
          | Inr statusFlags \<Rightarrow>
            if statusFlags AND O_PATH \<noteq> 0 then Some [MountErrInvalidAuthority]
            else if statusFlags AND O_ACCMODE \<noteq> O_RDONLY then Some [MountErrInvalidAuthority]
            else (case unix_Fstat fd p of
                Inl _ \<Rightarrow> Some [MountErrDrifted]
              | Inr mode \<Rightarrow> if mode AND 0xF000 \<noteq> 0x4000 then Some [MountErrDrifted] else None)))"

text \<open>An open directory that can be synced and does not leak into a child process.\<close>

definition leasable :: "open_directory \<Rightarrow> bool" where
  "leasable d \<longleftrightarrow> od_Flags d AND FD_CLOEXEC \<noteq> 0 \<and> od_Status d AND O_PATH = 0 \<and> od_Status d AND O_ACCMODE = O_RDONLY \<and>
     (\<exists>mode. od_Stat d = Inr mode \<and> mode AND 0xF000 = 0x4000)"

lemma validateLeasedDirectoryFD_None:
  "validateLeasedDirectoryFD fd p = None \<longleftrightarrow> (\<exists>d. pr_open p fd = Some d \<and> leasable d)"
  by (auto simp: validateLeasedDirectoryFD_def fcntl_getfd_def fcntl_getfl_def unix_Fstat_def leasable_def
      split: option.splits sum.splits)

section \<open>Releasing descriptors\<close>

text \<open>\<^verbatim>\<open>closeOwnedTrashDescriptors\<close>: each nonnegative descriptor once, errors ignored.\<close>

fun close_owned :: "kernel_answers \<Rightarrow> int list \<Rightarrow> int list \<Rightarrow> process \<Rightarrow> process" where
  "close_owned K closed [] p = p"
| "close_owned K closed (fd # fds) p =
     (if fd < 0 \<or> fd \<in> set closed then close_owned K closed fds p
      else close_owned K (fd # closed) fds (snd (unix_Close K fd p)))"

definition closeOwnedTrashDescriptors :: "kernel_answers \<Rightarrow> int list \<Rightarrow> process \<Rightarrow> process" where
  "closeOwnedTrashDescriptors K fds p = close_owned K [] fds p"

text \<open>The loop of the three \<^verbatim>\<open>Close\<close> methods: reserved descriptors are left alone, the first error is kept.\<close>

fun close_entries :: "kernel_answers \<Rightarrow> int list \<Rightarrow> int list \<Rightarrow> process \<Rightarrow> errno option \<times> process" where
  "close_entries K closed [] p = (None, p)"
| "close_entries K closed (fd # fds) p =
     (if fd < 3 \<or> fd \<in> set closed then close_entries K closed fds p
      else let (e, p1) = unix_Close K fd p; (later, p2) = close_entries K (fd # closed) fds p1
           in (if e \<noteq> None then e else later, p2))"

text \<open>
  \<open>p'\<close> has exactly the descriptors of \<open>p\<close> without \<open>fds\<close>, and no descriptor of another owner was
  closed on the way.
\<close>

definition released :: "int set \<Rightarrow> process \<Rightarrow> process \<Rightarrow> bool" where
  "released fds p p' \<longleftrightarrow> pr_open p' = (\<lambda>x. if x \<in> fds then None else pr_open p x) \<and> pr_stray p' = pr_stray p"

lemma released_refl [simp]: "released {} p p"
  by (simp add: released_def)

lemma released_trans: "released A p q \<Longrightarrow> released B q r \<Longrightarrow> released (A \<union> B) p r"
  by (auto simp: released_def)

lemma unix_Close_released:
  "pr_open p fd \<noteq> None \<Longrightarrow> released {fd} p (snd (unix_Close K fd p))"
  by (auto simp: unix_Close_def released_def tick_def split: option.splits)

lemma close_owned_released:
  "\<forall>fd \<in> set fds. 0 \<le> fd \<longrightarrow> fd \<in> set closed \<or> pr_open p fd \<noteq> None \<Longrightarrow>
   released {fd \<in> set fds. 0 \<le> fd \<and> fd \<notin> set closed} p (close_owned K closed fds p)"
proof (induction K closed fds p rule: close_owned.induct)
  case (2 K closed fd fds p)
  show ?case
  proof (cases "fd < 0 \<or> fd \<in> set closed")
    case True
    then have "{x \<in> set (fd # fds). 0 \<le> x \<and> x \<notin> set closed} = {x \<in> set fds. 0 \<le> x \<and> x \<notin> set closed}" by auto
    with "2.IH"(1) [OF True] "2.prems" True show ?thesis by simp
  next
    case False
    let ?q = "snd (unix_Close K fd p)"
    from False "2.prems" have one: "released {fd} p ?q" by (intro unix_Close_released) auto
    then have "\<forall>x \<in> set fds. 0 \<le> x \<longrightarrow> x \<in> set (fd # closed) \<or> pr_open ?q x \<noteq> None"
      using "2.prems" by (auto simp: released_def)
    from "2.IH"(2) [OF False this] have "released {x \<in> set fds. 0 \<le> x \<and> x \<notin> set (fd # closed)} ?q (close_owned K (fd # closed) fds ?q)" .
    from released_trans [OF one this] have "released ({fd} \<union> {x \<in> set fds. 0 \<le> x \<and> x \<notin> set (fd # closed)}) p (close_owned K closed (fd # fds) p)"
      using False by simp
    moreover have "{fd} \<union> {x \<in> set fds. 0 \<le> x \<and> x \<notin> set (fd # closed)} = {x \<in> set (fd # fds). 0 \<le> x \<and> x \<notin> set closed}"
      using False by auto
    ultimately show ?thesis by simp
  qed
qed simp

lemma closeOwned_released:
  "\<forall>fd \<in> set fds. 0 \<le> fd \<longrightarrow> pr_open p fd \<noteq> None \<Longrightarrow>
   released {fd \<in> set fds. 0 \<le> fd} p (closeOwnedTrashDescriptors K fds p)"
  using close_owned_released [of fds "[]" p K] by (simp add: closeOwnedTrashDescriptors_def)

lemma close_entries_released:
  "\<forall>fd \<in> set fds. 3 \<le> fd \<longrightarrow> fd \<in> set closed \<or> pr_open p fd \<noteq> None \<Longrightarrow>
   released {fd \<in> set fds. 3 \<le> fd \<and> fd \<notin> set closed} p (snd (close_entries K closed fds p))"
proof (induction K closed fds p rule: close_entries.induct)
  case (2 K closed fd fds p)
  show ?case
  proof (cases "fd < 3 \<or> fd \<in> set closed")
    case True
    then have "{x \<in> set (fd # fds). 3 \<le> x \<and> x \<notin> set closed} = {x \<in> set fds. 3 \<le> x \<and> x \<notin> set closed}" by auto
    with "2.IH"(1) [OF True] "2.prems" True show ?thesis by simp
  next
    case False
    obtain e q where q: "unix_Close K fd p = (e, q)" by fastforce
    from False "2.prems" have one: "released {fd} p q" using unix_Close_released [of p fd K] by (auto simp: q)
    then have "\<forall>x \<in> set fds. 3 \<le> x \<longrightarrow> x \<in> set (fd # closed) \<or> pr_open q x \<noteq> None"
      using "2.prems" by (auto simp: released_def)
    from "2.IH"(2) [OF False refl q [symmetric] this]
    have "released {x \<in> set fds. 3 \<le> x \<and> x \<notin> set (fd # closed)} q (snd (close_entries K (fd # closed) fds q))" .
    from released_trans [OF one this] have
      "released ({fd} \<union> {x \<in> set fds. 3 \<le> x \<and> x \<notin> set (fd # closed)}) p (snd (close_entries K closed (fd # fds) p))"
      using False q by (simp add: case_prod_beta)
    moreover have "{fd} \<union> {x \<in> set fds. 3 \<le> x \<and> x \<notin> set (fd # closed)} = {x \<in> set (fd # fds). 3 \<le> x \<and> x \<notin> set closed}"
      using False by auto
    ultimately show ?thesis by simp
  qed
qed simp

text \<open>A duplication adds one descriptor of the same directory, or nothing.\<close>

lemma dup_cloexec_Inr:
  assumes "fresh_duplicates K" "dup_cloexec K fd p = (Inr n, q)"
  obtains d where "pr_open p fd = Some d" "pr_open p n = None" "3 \<le> n"
    "pr_open q = (pr_open p)(n \<mapsto> d \<lparr> od_Flags := FD_CLOEXEC \<rparr>)" "pr_stray q = pr_stray p"
  using assms by (auto simp: dup_cloexec_def fresh_duplicates_def tick_def split: option.splits sum.splits)

lemma dup_cloexec_Inl: "dup_cloexec K fd p = (Inl e, q) \<Longrightarrow> pr_open q = pr_open p \<and> pr_stray q = pr_stray p"
  by (auto simp: dup_cloexec_def tick_def split: option.splits sum.splits)

lemma tick_simps [simp]: "pr_open (tick p) = pr_open p" "pr_stray (tick p) = pr_stray p"
  by (simp_all add: tick_def)

section \<open>Sequencing\<close>

text \<open>\<^verbatim>\<open>x, err := m; if err != nil { return err }\<close> and \<^verbatim>\<open>if err := e; err != nil { return err }\<close>.\<close>

definition after_ok :: "('e + 'a) \<times> process \<Rightarrow> ('a \<Rightarrow> process \<Rightarrow> ('e + 'b) \<times> process) \<Rightarrow> ('e + 'b) \<times> process" where
  "after_ok m f = (case m of (Inl e, p) \<Rightarrow> (Inl e, p) | (Inr x, p) \<Rightarrow> f x p)"

definition unless_error :: "'e option \<Rightarrow> process \<Rightarrow> ('e + 'a) \<times> process \<Rightarrow> ('e + 'a) \<times> process" where
  "unless_error e p m = (case e of Some x \<Rightarrow> (Inl x, p) | None \<Rightarrow> m)"

lemma after_ok_simps [simp]: "after_ok (Inl e, p) f = (Inl e, p)" "after_ok (Inr x, p) f = f x p"
  by (simp_all add: after_ok_def)

lemma unless_error_simps [simp]: "unless_error (Some e) p m = (Inl e, p)" "unless_error None p m = m"
  by (simp_all add: unless_error_def)

lemma after_ok_Inr: "after_ok m f = (Inr y, q) \<longleftrightarrow> (\<exists>x p. m = (Inr x, p) \<and> f x p = (Inr y, q))"
  by (cases m; cases "fst m") auto

lemma after_ok_Inl: "after_ok m f = (Inl e, q) \<longleftrightarrow> m = (Inl e, q) \<or> (\<exists>x p. m = (Inr x, p) \<and> f x p = (Inl e, q))"
  by (cases m; cases "fst m") auto

lemma unless_error_Inr: "unless_error e p m = (Inr y, q) \<longleftrightarrow> e = None \<and> m = (Inr y, q)"
  by (cases e) auto

lemma unless_error_Inl: "unless_error e p m = (Inl x, q) \<longleftrightarrow> (e = Some x \<and> q = p) \<or> (e = None \<and> m = (Inl x, q))"
  by (cases e) auto

text \<open>Computations that leave the table alone.\<close>

definition same_table :: "process \<Rightarrow> process \<Rightarrow> bool" where
  "same_table p q \<longleftrightarrow> pr_open q = pr_open p \<and> pr_stray q = pr_stray p"

lemma same_table_refl [simp]: "same_table p p" and same_table_tick [simp]: "same_table p (tick p)"
  by (simp_all add: same_table_def)

lemma same_table_trans: "same_table p q \<Longrightarrow> same_table q r \<Longrightarrow> same_table p r"
  by (simp add: same_table_def)

lemma after_ok_same:
  "same_table p (snd m) \<Longrightarrow> (\<And>x q. m = (Inr x, q) \<Longrightarrow> same_table p q \<Longrightarrow> same_table p (snd (f x q))) \<Longrightarrow> same_table p (snd (after_ok m f))"
  by (cases m; cases "fst m") auto

lemma unless_error_same: "same_table p q \<Longrightarrow> same_table p (snd m) \<Longrightarrow> same_table p (snd (unless_error e q m))"
  by (cases e) auto

end
