(* ===== verification/MountInfo.thy ===== *)
theory MountInfo
  imports MountEvidence CivilTime
begin

text \<open>
  \<^verbatim>\<open>src/internal/mounts/mountinfo_linux.go\<close> and the kernel check of \<^verbatim>\<open>filesystem_linux.go\<close>:
  the parser of \<^verbatim>\<open>/proc/self/mountinfo\<close> and of the kernel's release text. An error of an inner
  function is its message without arguments; \<open>ParseMountInfo\<close> and the kernel check return the sentinels their
  callers inspect. The writer of the table, which the parser has to understand, is the kernel; its documented
  format is \<open>mountinfo_line\<close>.
\<close>

section \<open>What the parser uses of the Go library\<close>

definition and_then :: "'e + 'a \<Rightarrow> ('a \<Rightarrow> 'e + 'b) \<Rightarrow> 'e + 'b" where
  "and_then r f = (case r of Inl e \<Rightarrow> Inl e | Inr x \<Rightarrow> f x)"

lemma and_then_simps [simp]: "and_then (Inl e) f = Inl e" "and_then (Inr x) f = f x"
  by (simp_all add: and_then_def)

lemma and_then_Inr: "and_then r f = Inr y \<longleftrightarrow> (\<exists>x. r = Inr x \<and> f x = Inr y)"
  by (cases r) simp_all

definition required :: "bool \<Rightarrow> 'e \<Rightarrow> 'e + 'a \<Rightarrow> 'e + 'a" where
  "required b e r = (if b then r else Inl e)"

lemma required_Inr: "required b e r = Inr y \<longleftrightarrow> b \<and> r = Inr y"
  by (simp add: required_def)

lemma required_simps [simp]: "required True e r = r" "required False e r = Inl e"
  by (simp_all add: required_def)

definition or_fail :: "'a option \<Rightarrow> 'e \<Rightarrow> 'e + 'a" where
  "or_fail r e = (case r of None \<Rightarrow> Inl e | Some x \<Rightarrow> Inr x)"

lemma or_fail_simps [simp]: "or_fail None e = Inl e" "or_fail (Some x) e = Inr x"
  by (simp_all add: or_fail_def)

lemma or_fail_Inr: "or_fail r e = Inr y \<longleftrightarrow> r = Some y"
  by (cases r) simp_all

text \<open>\<^verbatim>\<open>strings.Split\<close> and \<^verbatim>\<open>bytes.Split\<close> with a separator of one byte.\<close>

fun split_byte :: "u8 \<Rightarrow> bytes \<Rightarrow> bytes list" where
  "split_byte sep [] = [[]]"
| "split_byte sep (c # s) =
     (if c = sep then [] # split_byte sep s else (c # hd (split_byte sep s)) # tl (split_byte sep s))"

text \<open>\<^verbatim>\<open>strconv.ParseUint(value, 10, bits)\<close>.\<close>

definition decimal_value :: "bytes \<Rightarrow> nat" where
  "decimal_value s = foldl (\<lambda>n c. n * 10 + digit_value c) 0 s"

definition parse_uint :: "nat \<Rightarrow> bytes \<Rightarrow> nat option" where
  "parse_uint bits s =
     (if s \<noteq> [] \<and> list_all is_digit s \<and> decimal_value s < 2 ^ bits then Some (decimal_value s) else None)"

text \<open>\<^verbatim>\<open>strconv.Atoi\<close>: an optional sign, then the digits of a 64-bit integer.\<close>

definition parse_int :: "bytes \<Rightarrow> int option" where
  "parse_int s =
     (let negative = (s \<noteq> [] \<and> hd s = 0x2D);
          digits = (if s \<noteq> [] \<and> (hd s = 0x2D \<or> hd s = 0x2B) then tl s else s)
      in if digits = [] \<or> \<not> list_all is_digit digits then None
         else if negative \<and> decimal_value digits \<le> 2 ^ 63 then Some (- int (decimal_value digits))
         else if \<not> negative \<and> decimal_value digits < 2 ^ 63 then Some (int (decimal_value digits)) else None)"

lemma split_byte_ne: "split_byte sep s \<noteq> []"
  by (induction s) auto

lemma split_byte_free: "sep \<notin> set s \<Longrightarrow> split_byte sep s = [s]"
  by (induction s) auto

lemma split_byte_append:
  "sep \<notin> set s \<Longrightarrow> split_byte sep (s @ sep # t) = s # split_byte sep t"
  by (induction s) auto

lemma decimal_value_snoc: "decimal_value (s @ [c]) = decimal_value s * 10 + digit_value c"
  by (simp add: decimal_value_def)

lemma decimal_round:
  "decimal n \<noteq> [] \<and> list_all is_digit (decimal n) \<and> decimal_value (decimal n) = n"
proof (induction n rule: decimal.induct)
  case (1 n)
  show ?case
  proof (cases "n < 10")
    case True
    then show ?thesis by (simp add: decimal.simps decimal_value_def)
  next
    case False
    then have step: "decimal n = decimal (n div 10) @ [digit (n mod 10)]" by (subst decimal.simps) simp
    have "n mod 10 < 10" by simp
    with "1.IH" [OF False] show ?thesis by (simp add: step decimal_value_snoc)
  qed
qed

lemma parse_uint_decimal: "n < 2 ^ bits \<Longrightarrow> parse_uint bits (decimal n) = Some n"
  using decimal_round [of n] by (simp add: parse_uint_def)

lemma decimal_free: "\<not> is_digit c \<Longrightarrow> c \<notin> set (decimal n)"
  using decimal_round [of n] by (auto simp: list_all_iff)

section \<open>The mount table\<close>

definition parsePositiveUint64 :: "bytes \<Rightarrow> string + u64" where
  "parsePositiveUint64 value =
     (case parse_uint 64 value of
        None \<Rightarrow> Inl ''invalid mount ID''
      | Some parsed \<Rightarrow> if parsed = 0 then Inl ''invalid mount ID'' else Inr (word_of_nat parsed))"

definition parseMountDevice :: "bytes \<Rightarrow> string + device_identity" where
  "parseMountDevice value =
     (let majorText = takeWhile (\<lambda>c. c \<noteq> 0x3A) value; minorText = tl (dropWhile (\<lambda>c. c \<noteq> 0x3A) value) in
      required (0x3A \<in> set value \<and> majorText \<noteq> [] \<and> minorText \<noteq> [] \<and> 0x3A \<notin> set minorText) ''invalid mount device''
      (and_then (or_fail (parse_uint 32 majorText) ''invalid mount device major'') (\<lambda>major.
       and_then (or_fail (parse_uint 32 minorText) ''invalid mount device minor'') (\<lambda>minor.
       Inr \<lparr> di_Major = word_of_nat major, di_Minor = word_of_nat minor \<rparr>))))"

definition mount_escape :: "bytes \<Rightarrow> string + u8" where
  "mount_escape e =
     (if e = bytes_of ''040'' then Inr 0x20 else if e = bytes_of ''011'' then Inr 0x09
      else if e = bytes_of ''012'' then Inr 0x0A else if e = bytes_of ''134'' then Inr 0x5C
      else Inl ''unsupported escape'')"

text \<open>The loop of \<^verbatim>\<open>decodeMountInfoField\<close>.\<close>

fun decode_escapes :: "bytes \<Rightarrow> string + bytes" where
  "decode_escapes [] = Inr []"
| "decode_escapes (c # s) =
     (if c \<noteq> 0x5C
      then required (c \<noteq> 0) ''NUL byte'' (and_then (decode_escapes s) (\<lambda>decoded. Inr (c # decoded)))
      else case s of
          a # b # d # rest \<Rightarrow> and_then (mount_escape [a, b, d]) (\<lambda>replacement.
            and_then (decode_escapes rest) (\<lambda>decoded. Inr (replacement # decoded)))
        | _ \<Rightarrow> Inl ''truncated escape'')"

definition decodeMountInfoField :: "bytes \<Rightarrow> string + bytes" where
  "decodeMountInfoField value = (if value = [] then Inl ''empty field'' else decode_escapes value)"

text \<open>The search for the only field \<^verbatim>\<open>-\<close>.\<close>

fun find_separator :: "bytes list \<Rightarrow> nat \<Rightarrow> int \<Rightarrow> string + int" where
  "find_separator [] index separator = Inr separator"
| "find_separator (cell # cells) index separator =
     (if cell = [0x2D]
      then if separator \<noteq> -1 then Inl ''multiple mountinfo separators'' else find_separator cells (Suc index) (int index)
      else find_separator cells (Suc index) separator)"

definition parseMountInfoLine :: "bytes \<Rightarrow> string + mount_record" where
  "parseMountInfoLine line =
     (let cells = split_byte 0x20 line in
      required ([] \<notin> set cells) ''empty mountinfo field''
      (and_then (find_separator cells 0 (-1)) (\<lambda>separator.
       required (\<not> separator < 6) ''missing or truncated mountinfo separator''
       (required (int (length cells) = separator + 4) ''mountinfo post-separator fields are malformed''
       (let after = (\<lambda>k. cells ! (nat separator + k)) in
       and_then (parsePositiveUint64 (cells ! 0)) (\<lambda>mountID.
       and_then (parsePositiveUint64 (cells ! 1)) (\<lambda>parentID.
       and_then (parseMountDevice (cells ! 2)) (\<lambda>device.
       and_then (decodeMountInfoField (cells ! 3)) (\<lambda>root.
       and_then (decodeMountInfoField (cells ! 4)) (\<lambda>mountPoint.
       required (mountPoint \<noteq> [] \<and> hd mountPoint = 0x2F) ''mount point is not absolute''
       (required (\<not> (after 1 = [] \<or> set (after 1) \<inter> {0x20, 0x09, 0x0A, 0x5C} \<noteq> {})) ''invalid filesystem type''
       (and_then (decodeMountInfoField (after 2)) (\<lambda>source.
       required (source \<noteq> []) ''empty mount source''
       (required (after 3 \<noteq> []) ''empty super options''
       (Inr \<lparr> mr_ID = mountID, mr_ParentID = parentID, mr_Device = device, mr_Root = root, mr_MountPoint = mountPoint,
         mr_Filesystem = after 1, mr_Source = source \<rparr>)))))))))))))))"

text \<open>The loop over the lines; \<open>seen\<close> holds the identifiers so far.\<close>

fun parse_lines :: "u64 list \<Rightarrow> bytes list \<Rightarrow> string + mount_record list" where
  "parse_lines seen [] = Inr []"
| "parse_lines seen (line # lines) =
     (if line = [] then if lines = [] then Inr [] else Inl ''mountinfo line is empty''
      else and_then (parseMountInfoLine line) (\<lambda>record.
        required (mr_ID record \<notin> set seen) ''mountinfo line repeats mount ID''
        (and_then (parse_lines (mr_ID record # seen) lines) (\<lambda>records. Inr (record # records)))))"

definition ParseMountInfo :: "bytes \<Rightarrow> mount_error + mount_record list" where
  "ParseMountInfo input =
     (case parse_lines [] (split_byte 0x0A input) of
        Inl _ \<Rightarrow> Inl [MountErrInvalidAuthority]
      | Inr [] \<Rightarrow> Inl [MountErrInvalidAuthority]
      | Inr records \<Rightarrow> Inr records)"

text \<open>The answer of \<^verbatim>\<open>os.ReadFile\<close>.\<close>

definition ReadMountInfo :: "errno + bytes \<Rightarrow> mount_error + mount_record list" where
  "ReadMountInfo contents = (case contents of Inl _ \<Rightarrow> Inl [] | Inr c \<Rightarrow> ParseMountInfo c)"

section \<open>The kernel release\<close>

definition minimumKernelMajor :: int where "minimumKernelMajor = 5"
definition minimumKernelMinor :: int where "minimumKernelMinor = 15"

definition parseKernelRelease :: "bytes \<Rightarrow> string + int \<times> int" where
  "parseKernelRelease release =
     (let version = takeWhile (\<lambda>c. c \<noteq> 0x2D) release; parts = split_byte 0x2E version in
      if length parts < 2 then Inl ''expected major.minor''
      else case parse_int (parts ! 0) of
          None \<Rightarrow> Inl ''invalid major version''
        | Some major \<Rightarrow>
          if major < 0 then Inl ''invalid major version''
          else (case parse_int (parts ! 1) of
              None \<Rightarrow> Inl ''invalid minor version''
            | Some minor \<Rightarrow> if minor < 0 then Inl ''invalid minor version'' else Inr (major, minor)))"

definition checkMinimumKernelRelease :: "bytes \<Rightarrow> mount_error option" where
  "checkMinimumKernelRelease release =
     (case parseKernelRelease release of
        Inl _ \<Rightarrow> Some [MountErrUnsupported]
      | Inr (major, minor) \<Rightarrow>
        check (\<not> (major < minimumKernelMajor \<or> major = minimumKernelMajor \<and> minor < minimumKernelMinor)) [MountErrUnsupported])"

text \<open>The answer of \<^verbatim>\<open>uname\<close>: the release field, filled up with NUL bytes.\<close>

definition checkMinimumKernel :: "errno + bytes \<Rightarrow> mount_error option" where
  "checkMinimumKernel name =
     (case name of
        Inl _ \<Rightarrow> Some [MountErrUnsupported]
      | Inr release \<Rightarrow> checkMinimumKernelRelease (takeWhile (\<lambda>c. c \<noteq> 0) release))"

section \<open>The kernel's format\<close>

text \<open>
  A line of \<^verbatim>\<open>proc_pid_mountinfo(5)\<close>: the fields up to the mount options, any number of optional fields,
  the separator, the filesystem type, the source and the super options. Space, tab, newline and backslash are
  written as three octal digits in the root, the mount point and the source. Later kernels escape a number sign in
  the source as well, as \<^verbatim>\<open>\043\<close>; \<open>hash\<close> says that the kernel does.
\<close>

record mount_entry =
  me_Record :: mount_record
  me_Options :: bytes
  me_Optional :: "bytes list"
  me_Super :: bytes

definition escape_byte :: "bool \<Rightarrow> u8 \<Rightarrow> bytes" where
  "escape_byte hash c =
     (if c = 0x20 then 0x5C # bytes_of ''040'' else if c = 0x09 then 0x5C # bytes_of ''011''
      else if c = 0x0A then 0x5C # bytes_of ''012'' else if c = 0x5C then 0x5C # bytes_of ''134''
      else if hash \<and> c = 0x23 then 0x5C # bytes_of ''043'' else [c])"

definition escape_bytes :: "bool \<Rightarrow> bytes \<Rightarrow> bytes" where "escape_bytes hash s = concat (map (escape_byte hash) s)"

fun join_byte :: "u8 \<Rightarrow> bytes list \<Rightarrow> bytes" where
  "join_byte sep [] = []"
| "join_byte sep [s] = s"
| "join_byte sep (s # t # ts) = s @ sep # join_byte sep (t # ts)"

definition mountinfo_cells :: "bool \<Rightarrow> mount_entry \<Rightarrow> bytes list" where
  "mountinfo_cells hash e = (let r = me_Record e in
     [decimal (unat (mr_ID r)), decimal (unat (mr_ParentID r)),
      decimal (unat (di_Major (mr_Device r))) @ 0x3A # decimal (unat (di_Minor (mr_Device r))),
      escape_bytes False (mr_Root r), escape_bytes False (mr_MountPoint r), me_Options e] @ me_Optional e @
     [[0x2D], mr_Filesystem r, escape_bytes hash (mr_Source r), me_Super e])"

definition mountinfo_line :: "bool \<Rightarrow> mount_entry \<Rightarrow> bytes" where
  "mountinfo_line hash e = join_byte 0x20 (mountinfo_cells hash e)"

definition mountinfo_table :: "bool \<Rightarrow> mount_entry list \<Rightarrow> bytes" where
  "mountinfo_table hash es = concat (map (\<lambda>e. mountinfo_line hash e @ [0x0A]) es)"

text \<open>
  What a field of the table holds. The source is any string without NUL, as the caller of \<^verbatim>\<open>mount\<close>
  chose it; every other field is not empty and no lone hyphen. Options may hold backslashes.
\<close>

definition plain_cell :: "bytes \<Rightarrow> bool" where
  "plain_cell s \<longleftrightarrow> s \<noteq> [] \<and> s \<noteq> [0x2D] \<and> set s \<inter> {0x20, 0x0A} = {}"

definition path_cell :: "bytes \<Rightarrow> bool" where "path_cell s \<longleftrightarrow> s \<noteq> [] \<and> s \<noteq> [0x2D] \<and> 0 \<notin> set s"

definition renderable :: "mount_entry \<Rightarrow> bool" where
  "renderable e \<longleftrightarrow> mr_ID (me_Record e) \<noteq> 0 \<and> mr_ParentID (me_Record e) \<noteq> 0 \<and>
     path_cell (mr_Root (me_Record e)) \<and> path_cell (mr_MountPoint (me_Record e)) \<and> hd (mr_MountPoint (me_Record e)) = 0x2F \<and>
     plain_cell (mr_Filesystem (me_Record e)) \<and> set (mr_Filesystem (me_Record e)) \<inter> {0x09, 0x5C} = {} \<and>
     0 \<notin> set (mr_Source (me_Record e)) \<and>
     plain_cell (me_Options e) \<and> (\<forall>s \<in> set (me_Optional e). plain_cell s) \<and> plain_cell (me_Super e)"

text \<open>The sources the parser takes.\<close>

definition readable_source :: "bool \<Rightarrow> bytes \<Rightarrow> bool" where
  "readable_source hash s \<longleftrightarrow> s \<noteq> [] \<and> s \<noteq> [0x2D] \<and> \<not> (hash \<and> 0x23 \<in> set s)"

lemma split_join:
  "cells \<noteq> [] \<Longrightarrow> \<forall>c \<in> set cells. sep \<notin> set c \<Longrightarrow> split_byte sep (join_byte sep cells) = cells"
  by (induction sep cells rule: join_byte.induct) (auto simp: split_byte_free split_byte_append)

lemma escape_bytes_simps [simp]: "escape_bytes hash [] = []" "escape_bytes hash (c # s) = escape_byte hash c @ escape_bytes hash s"
  by (simp_all add: escape_bytes_def)

lemma octal_bytes:
  "byte_of CHR ''0'' = 0x30" "byte_of CHR ''1'' = 0x31" "byte_of CHR ''2'' = 0x32" "byte_of CHR ''3'' = 0x33" "byte_of CHR ''4'' = 0x34"
  by code_simp+

lemma escape_byte_free: "c \<in> {0x20, 0x0A} \<Longrightarrow> c \<notin> set (escape_byte hash d)"
  by (auto simp: escape_byte_def octal_bytes)

lemma escape_free: "c \<in> {0x20, 0x0A} \<Longrightarrow> c \<notin> set (escape_bytes hash s)"
  using escape_byte_free by (induction s) auto

lemma escape_ne [simp]: "escape_byte hash c \<noteq> []"
  by (simp add: escape_byte_def)

lemma escape_nil: "escape_bytes hash s = [] \<longleftrightarrow> s = []"
  by (cases s) simp_all

lemma escape_hyphen: "escape_bytes hash s = [0x2D] \<longleftrightarrow> s = [0x2D]"
proof (cases s)
  case (Cons c t)
  show ?thesis
  proof (cases t)
    case (Cons d u)
    have "length (escape_byte hash c) \<ge> 1" "length (escape_byte hash d) \<ge> 1" by (simp_all add: escape_byte_def)
    with \<open>s = c # t\<close> Cons have "length (escape_bytes hash s) \<noteq> length [0x2D :: u8]" by simp
    then have "escape_bytes hash s \<noteq> [0x2D]" by metis
    with \<open>s = c # t\<close> Cons show ?thesis by simp
  qed (simp add: Cons escape_byte_def octal_bytes)
qed simp

lemma decode_escape: "0 \<notin> set s \<Longrightarrow> \<not> (hash \<and> 0x23 \<in> set s) \<Longrightarrow> decode_escapes (escape_bytes hash s) = Inr s"
  by (induction s) (auto simp: escape_byte_def octal_bytes mount_escape_def)

lemma decode_number_sign: "0x23 \<in> set s \<Longrightarrow> \<exists>e. decode_escapes (escape_bytes True s) = Inl e"
proof (induction s)
  case (Cons c s)
  consider "c = 0x23" | "c \<noteq> 0x23" "0x23 \<in> set s" using Cons.prems by auto
  then show ?case
  proof cases
    case 2
    with Cons.IH obtain e where "decode_escapes (escape_bytes True s) = Inl e" by blast
    with 2(1) show ?thesis by (auto simp: escape_byte_def octal_bytes mount_escape_def required_def)
  qed (simp add: escape_byte_def octal_bytes mount_escape_def)
qed simp

lemma decode_field:
  "s \<noteq> [] \<Longrightarrow> 0 \<notin> set s \<Longrightarrow> \<not> (hash \<and> 0x23 \<in> set s) \<Longrightarrow> decodeMountInfoField (escape_bytes hash s) = Inr s"
  by (simp add: decodeMountInfoField_def escape_nil decode_escape)

lemma decode_path: "path_cell s \<Longrightarrow> decodeMountInfoField (escape_bytes False s) = Inr s"
  by (simp add: path_cell_def decode_field)

lemma mount_device_parsed:
  "parseMountDevice (decimal (unat (di_Major d)) @ 0x3A # decimal (unat (di_Minor d))) = Inr d"
proof -
  have c: "0x3A \<notin> set (decimal n)" for n by (rule decimal_free) (simp add: is_digit_def)
  have t: "takeWhile (\<lambda>c. c \<noteq> 0x3A) (decimal n @ 0x3A # s) = decimal n"
    "dropWhile (\<lambda>c. c \<noteq> 0x3A) (decimal n @ 0x3A # s) = 0x3A # s" for n s
    using c [of n] by (auto simp: takeWhile_tail dropWhile_append takeWhile_eq_all_conv dropWhile_eq_Nil_conv)
  have b: "unat (w :: u32) < 2 ^ 32" for w using unsigned_less [where 'a = nat, of w] by simp
  from c t decimal_round show ?thesis
    by (simp add: parseMountDevice_def parse_uint_decimal [OF b])
qed

lemma positive_parsed: "w \<noteq> 0 \<Longrightarrow> parsePositiveUint64 (decimal (unat w)) = Inr w"
  using unsigned_less [where 'a = nat, of w] by (simp add: parsePositiveUint64_def parse_uint_decimal unat_eq_zero)

lemma find_separator_before:
  "[0x2D] \<notin> set xs \<Longrightarrow> find_separator (xs @ ys) index separator = find_separator ys (index + length xs) separator"
  by (induction xs arbitrary: index) auto

lemma find_separator_none: "[0x2D] \<notin> set xs \<Longrightarrow> find_separator xs index separator = Inr separator"
  using find_separator_before [of xs "[]"] by simp

lemma find_separator_once:
  "[0x2D] \<notin> set xs \<Longrightarrow> [0x2D] \<notin> set ys \<Longrightarrow> find_separator (xs @ [0x2D] # ys) 0 (-1) = Inr (int (length xs))"
  by (simp add: find_separator_before find_separator_none)

lemma find_separator_twice:
  "[0x2D] \<in> set ys \<Longrightarrow> separator \<noteq> -1 \<Longrightarrow> \<exists>e. find_separator ys index separator = Inl e"
  by (induction ys arbitrary: index) auto

text \<open>Separators inside no cell, hyphens only at the separator.\<close>

lemma plain_free: "plain_cell s \<Longrightarrow> c \<in> {0x20, 0x0A} \<Longrightarrow> c \<notin> set s"
  by (auto simp: plain_cell_def)

lemma number_free: "c \<in> {0x20, 0x0A} \<Longrightarrow> c \<notin> set (decimal n)"
  by (rule decimal_free) (auto simp: is_digit_def)

lemma cells_free:
  assumes "renderable e" "c \<in> {0x20, 0x0A}" "s \<in> set (mountinfo_cells hash e)"
  shows "c \<notin> set s"
  using assms plain_free [of _ c] number_free [of c] escape_free [of c]
  unfolding mountinfo_cells_def renderable_def Let_def by auto

lemma line_cells: "renderable e \<Longrightarrow> split_byte 0x20 (mountinfo_line hash e) = mountinfo_cells hash e"
  unfolding mountinfo_line_def by (rule split_join) (auto simp: mountinfo_cells_def Let_def dest: cells_free [of e "0x20" _ hash])

lemma join_set: "set (join_byte sep cells) \<subseteq> insert sep (\<Union> (set ` set cells))"
  by (induction sep cells rule: join_byte.induct) auto

lemma line_no_newline: "renderable e \<Longrightarrow> 0x0A \<notin> set (mountinfo_line hash e)"
  using join_set [of "0x20" "mountinfo_cells hash e"] cells_free [of e "0x0A" _ hash] by (auto simp: mountinfo_line_def)

lemma line_ne: "mountinfo_line hash e \<noteq> []"
proof -
  obtain c d cs where "mountinfo_cells hash e = c # d # cs" by (auto simp: mountinfo_cells_def Let_def)
  then show ?thesis by (simp add: mountinfo_line_def)
qed

lemma table_lines:
  "\<forall>e \<in> set es. renderable e \<Longrightarrow> split_byte 0x0A (mountinfo_table hash es) = map (mountinfo_line hash) es @ [[]]"
  by (induction es) (simp_all add: mountinfo_table_def split_byte_append line_no_newline)

text \<open>The cells of a line: those before the separator, which no source can disturb, and those after it.\<close>

definition front_cells :: "mount_entry \<Rightarrow> bytes list" where
  "front_cells e = (let r = me_Record e in
     [decimal (unat (mr_ID r)), decimal (unat (mr_ParentID r)),
      decimal (unat (di_Major (mr_Device r))) @ 0x3A # decimal (unat (di_Minor (mr_Device r))),
      escape_bytes False (mr_Root r), escape_bytes False (mr_MountPoint r), me_Options e] @ me_Optional e)"

definition rear_cells :: "bool \<Rightarrow> mount_entry \<Rightarrow> bytes list" where
  "rear_cells hash e = [mr_Filesystem (me_Record e), escape_bytes hash (mr_Source (me_Record e)), me_Super e]"

lemma cells_parts: "mountinfo_cells hash e = front_cells e @ [0x2D] # rear_cells hash e"
  by (simp add: mountinfo_cells_def front_cells_def rear_cells_def Let_def)

lemma front_proper:
  assumes "renderable e"
  shows "[] \<notin> set (front_cells e)" "[0x2D] \<notin> set (front_cells e)"
proof -
  have "decimal n \<noteq> []" "decimal n \<noteq> [0x2D]" for n
    using decimal_round [of n] by (auto simp: is_digit_def)
  moreover have "decimal m @ 0x3A # decimal n \<noteq> [0x2D]" for m n by (cases "decimal m") auto
  ultimately have "\<forall>s \<in> set (front_cells e). s \<noteq> [] \<and> s \<noteq> [0x2D]"
    using assms unfolding front_cells_def renderable_def Let_def
    by (auto simp: path_cell_def plain_cell_def escape_hyphen escape_nil)
  then show "[] \<notin> set (front_cells e)" "[0x2D] \<notin> set (front_cells e)" by blast+
qed

lemma rear_proper:
  assumes "renderable e" "mr_Source (me_Record e) \<noteq> []" "mr_Source (me_Record e) \<noteq> [0x2D]"
  shows "[] \<notin> set (rear_cells hash e)" "[0x2D] \<notin> set (rear_cells hash e)"
proof -
  have "mr_Filesystem (me_Record e) \<noteq> []" "mr_Filesystem (me_Record e) \<noteq> [0x2D]" "me_Super e \<noteq> []" "me_Super e \<noteq> [0x2D]"
    using assms(1) by (simp_all add: renderable_def plain_cell_def)
  with assms(2,3) show "[] \<notin> set (rear_cells hash e)" "[0x2D] \<notin> set (rear_cells hash e)"
    by (simp_all add: rear_cells_def escape_hyphen escape_nil eq_commute [of "[]"] eq_commute [of "[0x2D]"])
qed

text \<open>What the parser of a line sees once the fields are there and the separator is found.\<close>

lemma line_after_separator:
  assumes "renderable e" "mr_Source (me_Record e) \<noteq> []" "mr_Source (me_Record e) \<noteq> [0x2D]"
  shows "parseMountInfoLine (mountinfo_line hash e) =
    and_then (decodeMountInfoField (escape_bytes hash (mr_Source (me_Record e)))) (\<lambda>source.
      required (source \<noteq> []) ''empty mount source'' (Inr (me_Record e \<lparr> mr_Source := source \<rparr>)))"
proof -
  let ?r = "me_Record e" and ?front = "front_cells e" and ?rear = "rear_cells hash e"
  let ?cells = "?front @ [0x2D] # ?rear"
  note proper = front_proper [OF assms(1)] rear_proper [OF assms, of hash]
  have cell: "?cells ! 0 = decimal (unat (mr_ID ?r))" "?cells ! 1 = decimal (unat (mr_ParentID ?r))"
    "?cells ! 2 = decimal (unat (di_Major (mr_Device ?r))) @ 0x3A # decimal (unat (di_Minor (mr_Device ?r)))"
    "?cells ! 3 = escape_bytes False (mr_Root ?r)" "?cells ! 4 = escape_bytes False (mr_MountPoint ?r)"
    by (simp_all add: front_cells_def Let_def)
  have nth: "?cells ! (length ?front + Suc k) = ?rear ! k" for k by (simp add: nth_append)
  have after: "?cells ! (length ?front + 1) = mr_Filesystem ?r" "?cells ! (length ?front + 2) = escape_bytes hash (mr_Source ?r)"
    "?cells ! (length ?front + 3) = me_Super e"
    using nth [of 0] nth [of 1] nth [of 2] by (simp_all add: rear_cells_def)
  have shape: "\<not> int (length ?front) < 6" "int (length ?cells) = int (length ?front) + 4" "[] \<notin> set ?cells"
    using proper by (simp_all add: front_cells_def rear_cells_def Let_def)
  have whole: "\<lparr> mr_ID = mr_ID ?r, mr_ParentID = mr_ParentID ?r, mr_Device = mr_Device ?r, mr_Root = mr_Root ?r,
      mr_MountPoint = mr_MountPoint ?r, mr_Filesystem = mr_Filesystem ?r, mr_Source = s \<rparr> = ?r \<lparr> mr_Source := s \<rparr>" for s by simp
  have cells: "split_byte 0x20 (mountinfo_line hash e) = ?cells" using line_cells [OF assms(1)] by (simp only: cells_parts)
  have fields_ok: "mr_ID ?r \<noteq> 0" "mr_ParentID ?r \<noteq> 0" "path_cell (mr_Root ?r)" "path_cell (mr_MountPoint ?r)" "hd (mr_MountPoint ?r) = 0x2F"
    "mr_Filesystem ?r \<noteq> []" "set (mr_Filesystem ?r) \<inter> {0x20, 0x09, 0x0A, 0x5C} = {}" "me_Super e \<noteq> []"
    using assms(1) by (auto simp: renderable_def plain_cell_def)
  then have "mr_MountPoint ?r \<noteq> []" by (simp add: path_cell_def)
  then show ?thesis
    unfolding parseMountInfoLine_def cells Let_def find_separator_once [OF proper(2,4)] and_then_simps nat_int cell after
    using shape fields_ok by (simp add: positive_parsed mount_device_parsed decode_path whole)
qed

lemma line_parsed:
  assumes "renderable e" "readable_source hash (mr_Source (me_Record e))"
  shows "parseMountInfoLine (mountinfo_line hash e) = Inr (me_Record e)"
  using line_after_separator [OF assms(1)] assms decode_field [of "mr_Source (me_Record e)" hash]
  by (simp add: readable_source_def renderable_def)

lemma line_refused:
  assumes "renderable e" "\<not> readable_source hash (mr_Source (me_Record e))"
  shows "\<exists>x. parseMountInfoLine (mountinfo_line hash e) = Inl x"
proof -
  let ?s = "mr_Source (me_Record e)"
  from assms(2) consider "?s = []" | "?s = [0x2D]" | "?s \<noteq> []" "?s \<noteq> [0x2D]" hash "0x23 \<in> set ?s"
    unfolding readable_source_def by blast
  then show ?thesis
  proof cases
    case 1
    then have "[] \<in> set (mountinfo_cells hash e)" by (simp add: mountinfo_cells_def Let_def)
    then show ?thesis by (simp add: parseMountInfoLine_def line_cells [OF assms(1)] Let_def)
  next
    case 2
    then have "[0x2D] \<in> set (rear_cells hash e)" by (simp add: rear_cells_def escape_byte_def)
    then obtain x where "find_separator (mountinfo_cells hash e) 0 (-1) = Inl x"
      using find_separator_before [OF front_proper(2) [OF assms(1)]] find_separator_twice unfolding cells_parts by fastforce
    then show ?thesis by (cases "[] \<in> set (mountinfo_cells hash e)") (simp_all add: parseMountInfoLine_def line_cells [OF assms(1)] Let_def)
  next
    case 3
    with decode_number_sign obtain x where "decode_escapes (escape_bytes hash ?s) = Inl x" by auto
    then show ?thesis using line_after_separator [OF assms(1) 3(1,2)] 3(1) by (simp add: decodeMountInfoField_def escape_nil)
  qed
qed

lemma lines_parsed:
  assumes "\<forall>e \<in> set es. renderable e \<and> readable_source hash (mr_Source (me_Record e))"
    "distinct (map (\<lambda>e. mr_ID (me_Record e)) es)" "\<forall>e \<in> set es. mr_ID (me_Record e) \<notin> set seen"
  shows "parse_lines seen (map (mountinfo_line hash) es @ [[]]) = Inr (map me_Record es)"
  using assms
proof (induction es arbitrary: seen)
  case (Cons e es)
  then have "parse_lines (mr_ID (me_Record e) # seen) (map (mountinfo_line hash) es @ [[]]) = Inr (map me_Record es)"
    by (intro Cons.IH) (auto simp: image_iff)
  with Cons.prems show ?case by (simp add: line_parsed line_ne)
qed simp

text \<open>One refused line refuses the table.\<close>

lemma bad_line_rejects:
  "line \<in> set lines \<Longrightarrow> line \<noteq> [] \<Longrightarrow> parseMountInfoLine line = Inl m \<Longrightarrow> \<exists>e. parse_lines seen lines = Inl e"
proof (induction lines arbitrary: seen)
  case (Cons l lines)
  show ?case
  proof (cases "l = line")
    case False
    with Cons have "lines \<noteq> []" "\<exists>e. parse_lines s lines = Inl e" for s by auto
    then show ?thesis by (cases "parseMountInfoLine l") (auto simp: required_def, metis and_then_simps(1))
  qed (use Cons in auto)
qed simp

section \<open>Properties\<close>


definition sample_entry :: "u64 \<Rightarrow> bytes \<Rightarrow> bytes \<Rightarrow> mount_entry" where
  "sample_entry mountID point source =
     \<lparr> me_Record = \<lparr> mr_ID = mountID, mr_ParentID = 1, mr_Device = \<lparr> di_Major = 8, di_Minor = 1 \<rparr>, mr_Root = [0x2F],
         mr_MountPoint = point, mr_Filesystem = FilesystemExt4, mr_Source = source \<rparr>,
       me_Options = bytes_of ''rw'', me_Optional = [bytes_of ''shared:5''], me_Super = bytes_of ''rw'' \<rparr>"


text \<open>
  The kernel check accepts a release \<^verbatim>\<open>major.minor\<close> with any continuation exactly from 5.15 on.
\<close>

lemma takeWhile_decimal: "\<not> is_digit c \<Longrightarrow> takeWhile (\<lambda>d. d \<noteq> c) (decimal n @ s) = decimal n @ takeWhile (\<lambda>d. d \<noteq> c) s"
  using decimal_free [of c n] by (intro takeWhile_append2) auto

lemma parse_int_decimal: "n < 2 ^ 63 \<Longrightarrow> parse_int (decimal n) = Some (int n)"
proof -
  assume "n < 2 ^ 63"
  moreover have "is_digit (hd (decimal n))" using decimal_round [of n] by (cases "decimal n") auto
  then have "hd (decimal n) \<noteq> 0x2D" "hd (decimal n) \<noteq> 0x2B" by (auto simp: is_digit_def)
  ultimately show ?thesis using decimal_round [of n] by (simp add: parse_int_def)
qed

lemma version_parts:
  "s = [] \<or> hd s = 0x2E \<Longrightarrow> \<exists>suffix. split_byte 0x2E (decimal m @ 0x2E # decimal n @ s) = decimal m # decimal n # suffix"
  using decimal_free [of "0x2E"] split_byte_append [of "0x2E"] split_byte_free [of "0x2E"]
  by (cases s) (auto simp: is_digit_def)

theorem kernel_floor_exact:
  assumes "major < 2 ^ 63" "minor < 2 ^ 63" "suffix = [] \<or> hd suffix \<in> {0, 0x2D, 0x2E}"
  shows "checkMinimumKernel (Inr (decimal major @ 0x2E # decimal minor @ suffix)) = None \<longleftrightarrow>
    5 < major \<or> major = 5 \<and> 15 \<le> minor"
proof -
  define s where "s = takeWhile (\<lambda>c. c \<noteq> 0x2D) (takeWhile (\<lambda>c. c \<noteq> 0) suffix)"
  have "s = [] \<or> hd s = 0x2E" using assms(3) by (cases suffix) (auto simp: s_def)
  from version_parts [OF this] obtain rest where parts:
    "split_byte 0x2E (decimal major @ 0x2E # decimal minor @ s) = decimal major # decimal minor # rest" by blast
  have "takeWhile (\<lambda>c. c \<noteq> 0x2D) (takeWhile (\<lambda>c. c \<noteq> 0) (decimal major @ 0x2E # decimal minor @ suffix)) =
      decimal major @ 0x2E # decimal minor @ s"
    by (simp add: takeWhile_decimal is_digit_def s_def)
  with parts assms(1,2) have "parseKernelRelease (takeWhile (\<lambda>c. c \<noteq> 0) (decimal major @ 0x2E # decimal minor @ suffix)) =
      Inr (int major, int minor)"
    by (simp add: parseKernelRelease_def parse_int_decimal)
  then show ?thesis
    by (auto simp: checkMinimumKernel_def checkMinimumKernelRelease_def minimumKernelMajor_def minimumKernelMinor_def check_def)
qed

end
