(* ===== verification/RootLeases.thy ===== *)
theory RootLeases
  imports Descriptors MountInfo
begin

text \<open>
  \<^verbatim>\<open>src/internal/mounts/root_lease_linux.go\<close> and \<^verbatim>\<open>layout_lease_linux.go\<close>: opening a trusted root
  and a layout on it, requalifying them, lending duplicates and closing. The inspector answers for a descriptor and
  the number of system calls made so far, so that its answer may change between calls. A layout lease points to its
  root lease; each operation takes that lease as it is at the call.
\<close>

section \<open>Authorities\<close>

type_synonym root_inspector = "int \<Rightarrow> nat \<Rightarrow> mount_error + mount_inspection"
type_synonym root_opener = "process \<Rightarrow> (mount_error + int) \<times> process"

record root_authority =
  ra_ID :: trusted_root_id
  ra_Open :: "root_opener option"
  ra_Expected :: root_expectation

record layout_authority =
  la_Root :: trusted_root_id
  la_Kind :: layout_kind
  la_Open :: "root_opener option"
  la_Expected :: layout_expectation

definition invalid_root :: "trusted_root_id \<Rightarrow> mount_error option" where
  "invalid_root root = map_option (\<lambda>_. [MountErrInvalidAuthority]) (trusted_root_id_validate root)"

definition root_authority_validate :: "root_authority \<Rightarrow> trusted_root_id \<Rightarrow> mount_error option" where
  "root_authority_validate a requested = checks
     [invalid_root requested,
      invalid_root (ra_ID a),
      check (ra_ID a = requested) [MountErrInvalidAuthority],
      check (ra_Open a \<noteq> None) [MountErrInvalidAuthority],
      root_expectation_validate (ra_Expected a)]"

definition LayoutTrash :: layout_kind where "LayoutTrash = ''trash''"

definition layout_kind_validate :: "layout_kind \<Rightarrow> mount_error option" where
  "layout_kind_validate kind =
     check (kind \<in> {LayoutPrivateState, LayoutPrivateStaging, LayoutPrivateQuarantine, LayoutTrash}) [MountErrInvalidAuthority]"

definition layout_authority_validate :: "layout_authority \<Rightarrow> trusted_root_id \<Rightarrow> layout_kind \<Rightarrow> mount_error option" where
  "layout_authority_validate a requestedRoot requestedKind = checks
     [invalid_root requestedRoot,
      layout_kind_validate requestedKind,
      invalid_root (la_Root a),
      check (la_Root a = requestedRoot) [MountErrInvalidAuthority],
      layout_kind_validate (la_Kind a),
      check (la_Kind a = requestedKind) [MountErrInvalidAuthority],
      check (la_Open a \<noteq> None) [MountErrInvalidAuthority],
      layout_expectation_validate (la_Expected a)]"

section \<open>The root lease\<close>

record root_lease =
  rl_rootID :: trusted_root_id
  rl_expected :: root_expectation
  rl_fd :: int
  rl_closed :: bool

definition root_RootID :: "root_lease option \<Rightarrow> trusted_root_id" where
  "root_RootID lease = (case lease of None \<Rightarrow> [] | Some l \<Rightarrow> rl_rootID l)"

definition call_inspect :: "root_inspector \<Rightarrow> int \<Rightarrow> process \<Rightarrow> (mount_error + mount_inspection) \<times> process" where
  "call_inspect inspect fd p = (inspect fd (pr_calls p), tick p)"

definition root_withFD :: "root_lease option \<Rightarrow> (int \<Rightarrow> process \<Rightarrow> (mount_error + 'a) \<times> process) \<Rightarrow> process \<Rightarrow> (mount_error + 'a) \<times> process" where
  "root_withFD lease operation p =
     (case lease of
        None \<Rightarrow> (Inl [MountErrLeaseClosed], p)
      | Some l \<Rightarrow> if rl_closed l \<or> rl_fd l < 0 then (Inl [MountErrLeaseClosed], p) else operation (rl_fd l) p)"

text \<open>The error of the duplication itself carries no sentinel.\<close>

definition lend :: "kernel_answers \<Rightarrow> int \<Rightarrow> process \<Rightarrow> (mount_error + int) \<times> process" where
  "lend K fd p = (case dup_cloexec K fd p of (Inl _, q) \<Rightarrow> (Inl [], q) | (Inr n, q) \<Rightarrow> (Inr n, q))"

definition DuplicateRootDescriptor :: "kernel_answers \<Rightarrow> root_lease option \<Rightarrow> process \<Rightarrow> (mount_error + int) \<times> process" where
  "DuplicateRootDescriptor K lease p = root_withFD lease (lend K) p"

definition root_Close :: "kernel_answers \<Rightarrow> root_lease \<Rightarrow> process \<Rightarrow> errno option \<times> root_lease \<times> process" where
  "root_Close K l p =
     (if rl_closed l then (None, l, p)
      else let closed = l \<lparr> rl_closed := True, rl_fd := -1 \<rparr> in
        if rl_fd l < 0 then (None, closed, p)
        else let (e, q) = unix_Close K (rl_fd l) p in (e, closed, q))"

text \<open>The evidence of a held root, and what admits it.\<close>

definition root_qualified :: "root_expectation \<Rightarrow> mount_inspection \<Rightarrow> mount_error option" where
  "root_qualified expected inspection = checks
     [checkRootEvidence expected inspection,
      CheckSupportedFilesystem (mi_Filesystem inspection \<lparr> ff_FixedLocalDevice := re_FixedLocalDevice expected \<rparr>)]"

text \<open>
  Qualifying a descriptor that an opener just handed over: the pattern of both open functions. On an error
  the descriptor is closed again, on success it belongs to the lease.
\<close>

definition qualify_or_close ::
    "kernel_answers \<Rightarrow> root_inspector \<Rightarrow> (mount_inspection \<Rightarrow> mount_error option) \<Rightarrow> 'l \<Rightarrow> int \<Rightarrow> process \<Rightarrow> (mount_error + 'l) \<times> process" where
  "qualify_or_close K inspect test lease fd p =
     (let (r, p) = unless_error (validateLeasedDirectoryFD fd p) p
        (after_ok (call_inspect inspect fd p) (\<lambda>i p. unless_error (test i) p (Inr lease, p)))
      in case r of Inl e \<Rightarrow> (Inl e, snd (unix_Close K fd p)) | Inr lease \<Rightarrow> (Inr lease, p))"

definition openTrustedRootWith ::
    "kernel_answers \<Rightarrow> (trusted_root_id \<Rightarrow> root_authority option) option \<Rightarrow> trusted_root_id \<Rightarrow> root_inspector \<Rightarrow>
     mount_error option \<Rightarrow> process \<Rightarrow> (mount_error + root_lease) \<times> process" where
  "openTrustedRootWith K registry rootID inspect kernelError p =
     (case registry of
        None \<Rightarrow> (Inl [MountErrInvalidAuthority], p)
      | Some lookup \<Rightarrow>
        unless_error (invalid_root rootID) p
        (case lookup rootID of
           None \<Rightarrow> (Inl [MountErrUnknownTrustedRoot], p)
         | Some authority \<Rightarrow>
           unless_error (root_authority_validate authority rootID) p
           (unless_error kernelError p
           (after_ok (the (ra_Open authority) p) (\<lambda>fd p.
             if fd < 0 then (Inl [MountErrInvalidAuthority], p)
             else
               qualify_or_close K inspect (root_qualified (ra_Expected authority))
                 \<lparr> rl_rootID = rootID, rl_expected = ra_Expected authority, rl_fd = fd, rl_closed = False \<rparr> fd p)))))"

definition root_requalifyWith :: "root_inspector \<Rightarrow> root_lease option \<Rightarrow> process \<Rightarrow> (mount_error + mount_inspection) \<times> process" where
  "root_requalifyWith inspect lease p =
     (case lease of
        None \<Rightarrow> (Inl [MountErrLeaseClosed], p)
      | Some l \<Rightarrow>
        unless_error (root_expectation_validate (rl_expected l)) p
        (root_withFD lease (\<lambda>fd p. after_ok (call_inspect inspect fd p) (\<lambda>current p.
           unless_error (root_qualified (rl_expected l) current) p (Inr current, p))) p))"

section \<open>The layout lease\<close>

record layout_lease =
  ll_rootID :: trusted_root_id
  ll_kind :: layout_kind
  ll_expected :: layout_expectation
  ll_fd :: int
  ll_closed :: bool

text \<open>The checks on the inspected layout, against its expectation and the root it lies on.\<close>

definition layout_qualified :: "layout_expectation \<Rightarrow> mount_inspection \<Rightarrow> mount_inspection \<Rightarrow> mount_error option" where
  "layout_qualified expected rootInspection layoutInspection = checks
     [checkLayoutEvidence expected layoutInspection, checkLayoutRootBinding rootInspection layoutInspection]"

definition layout_duplicateWith ::
    "kernel_answers \<Rightarrow> root_inspector \<Rightarrow> root_lease option \<Rightarrow> layout_lease option \<Rightarrow> process \<Rightarrow> (mount_error + int) \<times> process" where
  "layout_duplicateWith K inspect root lease p =
     (case lease of
        None \<Rightarrow> (Inl [MountErrLeaseClosed], p)
      | Some l \<Rightarrow>
        if ll_closed l \<or> ll_fd l < 0 then (Inl [MountErrLeaseClosed], p)
        else if root = None then (Inl [MountErrLeaseClosed], p)
        else if root_RootID root \<noteq> ll_rootID l then (Inl [MountErrDrifted], p)
        else unless_error (validateLeasedDirectoryFD (ll_fd l) p) p
          (after_ok (root_requalifyWith inspect root p) (\<lambda>rootInspection p.
           after_ok (call_inspect inspect (ll_fd l) p) (\<lambda>layoutInspection p.
           unless_error (layout_qualified (ll_expected l) rootInspection layoutInspection) p
           (lend K (ll_fd l) p)))))"

definition layout_Close :: "kernel_answers \<Rightarrow> layout_lease \<Rightarrow> process \<Rightarrow> errno option \<times> layout_lease \<times> process" where
  "layout_Close K l p =
     (if ll_closed l then (None, l, p)
      else let closed = l \<lparr> ll_closed := True, ll_fd := -1 \<rparr> in
        if ll_fd l < 0 then (None, closed, p)
        else let (e, q) = unix_Close K (ll_fd l) p in (e, closed, q))"

definition openTrustedLayoutWith ::
    "kernel_answers \<Rightarrow> (trusted_root_id \<Rightarrow> layout_kind \<Rightarrow> layout_authority option) option \<Rightarrow> root_lease option \<Rightarrow> layout_kind \<Rightarrow>
     root_inspector \<Rightarrow> mount_error option \<Rightarrow> process \<Rightarrow> (mount_error + layout_lease) \<times> process" where
  "openTrustedLayoutWith K registry root kind inspect kernelError p =
     (case registry of
        None \<Rightarrow> (Inl [MountErrInvalidAuthority], p)
      | Some lookup \<Rightarrow>
        if root = None then (Inl [MountErrLeaseClosed], p)
        else let rootID = root_RootID root in
          unless_error (checks [invalid_root rootID, layout_kind_validate kind]) p
          (case lookup rootID kind of
             None \<Rightarrow> (Inl [MountErrUnknownLayout], p)
           | Some authority \<Rightarrow>
             unless_error (layout_authority_validate authority rootID kind) p
             (unless_error kernelError p
             (after_ok (root_requalifyWith inspect root p) (\<lambda>rootInspection p.
              after_ok (the (la_Open authority) p) (\<lambda>fd p.
                if fd < 0 then (Inl [MountErrInvalidAuthority], p)
                else
                  qualify_or_close K inspect (layout_qualified (la_Expected authority) rootInspection)
                    \<lparr> ll_rootID = rootID, ll_kind = kind, ll_expected = la_Expected authority, ll_fd = fd, ll_closed = False \<rparr> fd p))))))"

definition captureLayoutExpectationWith ::
    "root_lease option \<Rightarrow> int \<Rightarrow> root_inspector \<Rightarrow> process \<Rightarrow> (mount_error + layout_expectation) \<times> process" where
  "captureLayoutExpectationWith root fd inspect p =
     (if fd < 0 then (Inl [MountErrInvalidAuthority], p)
      else if root = None then (Inl [MountErrLeaseClosed], p)
      else after_ok (root_requalifyWith inspect root p) (\<lambda>rootInspection p.
        unless_error (validateLeasedDirectoryFD fd p) p
        (after_ok (call_inspect inspect fd p) (\<lambda>layout p.
         unless_error (checkLayoutRootBinding rootInspection layout) p
         (let expectation = \<lparr> le_Namespace = mi_Namespace layout, le_Device = mi_Device layout, le_Inode = mi_Inode layout,
                le_UID = mi_UID layout, le_GID = mi_GID layout, le_Mode = mi_Mode layout, le_Mount = mi_Mount layout \<rparr>
          in unless_error (layout_expectation_validate expectation) p (Inr expectation, p))))))"

section \<open>What the operations do to the descriptor table\<close>

text \<open>The contract of an opener: exactly one new descriptor, or none.\<close>

definition opener_contract :: "root_opener \<Rightarrow> bool" where
  "opener_contract open_root \<longleftrightarrow> (\<forall>p r q. open_root p = (r, q) \<longrightarrow>
     (case r of
        Inl _ \<Rightarrow> same_table p q
      | Inr fd \<Rightarrow> if fd < 0 then same_table p q
          else pr_open p fd = None \<and> (\<exists>d. pr_open q = (pr_open p)(fd \<mapsto> d)) \<and> pr_stray q = pr_stray p))"

definition acquired :: "process \<Rightarrow> process \<Rightarrow> int \<Rightarrow> open_directory \<Rightarrow> bool" where
  "acquired p q fd d \<longleftrightarrow> 0 \<le> fd \<and> pr_open p fd = None \<and> leasable d \<and> pr_open q = (pr_open p)(fd \<mapsto> d) \<and> pr_stray q = pr_stray p"

lemma call_inspect_Inr: "call_inspect inspect fd p = (Inr i, q) \<longleftrightarrow> inspect fd (pr_calls p) = Inr i \<and> q = tick p"
  by (auto simp: call_inspect_def)

lemma call_inspect_same [simp]: "same_table p (snd (call_inspect inspect fd p))"
  by (simp add: call_inspect_def)

lemma requalify_Inr:
  "root_requalifyWith inspect root p = (Inr i, q) \<Longrightarrow>
   \<exists>l. root = Some l \<and> \<not> rl_closed l \<and> \<not> rl_fd l < 0 \<and> inspect (rl_fd l) (pr_calls p) = Inr i \<and>
     root_qualified (rl_expected l) i = None \<and> q = tick p"
  by (cases root) (auto simp: root_requalifyWith_def root_withFD_def unless_error_Inr after_ok_Inr call_inspect_Inr split: if_splits)

lemma requalify_same [simp]: "same_table p (snd (root_requalifyWith inspect root p))"
  by (auto simp: root_requalifyWith_def root_withFD_def split: option.splits
      intro!: unless_error_same after_ok_same dest: same_table_trans)

lemma requalify_Inl: "root_requalifyWith inspect root p = (Inl e, q) \<Longrightarrow> same_table p q"
  using requalify_same [of p inspect root] by simp

lemma lend_Inr:
  assumes "fresh_duplicates K" "lend K fd p = (Inr n, q)"
  shows "\<exists>d. pr_open p fd = Some d \<and> pr_open p n = None \<and> 3 \<le> n \<and>
    pr_open q = (pr_open p)(n \<mapsto> d \<lparr> od_Flags := FD_CLOEXEC \<rparr>) \<and> pr_stray q = pr_stray p"
proof -
  from assms(2) have "dup_cloexec K fd p = (Inr n, q)" by (auto simp: lend_def split: prod.splits sum.splits)
  from dup_cloexec_Inr [OF assms(1) this] show ?thesis by metis
qed

lemma lend_Inl: "lend K fd p = (Inl e, q) \<Longrightarrow> same_table p q"
  using dup_cloexec_Inl [of K fd p] by (auto simp: lend_def same_table_def split: prod.splits sum.splits)

lemma qualify_Inr:
  "qualify_or_close K inspect test lease fd p = (Inr l, q) \<Longrightarrow>
   l = lease \<and> same_table p q \<and> (\<exists>d. pr_open p fd = Some d \<and> leasable d) \<and> (\<exists>i. inspect fd (pr_calls p) = Inr i \<and> test i = None)"
  by (auto simp: qualify_or_close_def unless_error_Inr after_ok_Inr call_inspect_Inr validateLeasedDirectoryFD_None
      split: prod.splits sum.splits)

lemma qualify_Inl:
  assumes "qualify_or_close K inspect test lease fd p = (Inl e, q)" "pr_open p fd \<noteq> None"
  shows "released {fd} p q"
proof -
  from assms(1) obtain p1 where p1: "unless_error (validateLeasedDirectoryFD fd p) p
      (after_ok (call_inspect inspect fd p) (\<lambda>i p. unless_error (test i) p (Inr lease, p))) = (Inl e, p1)" and q: "q = snd (unix_Close K fd p1)"
    by (auto simp: qualify_or_close_def split: prod.splits sum.splits)
  have "same_table p p1"
    using p1 by (auto simp: unless_error_Inl after_ok_Inl call_inspect_def)
  then show ?thesis
    using unix_Close_released [of p1 fd K] assms(2) by (auto simp: same_table_def released_def q)
qed

text \<open>Opener and qualification together.\<close>

lemma open_and_qualify:
  assumes "opener_contract open_root"
    and "after_ok (open_root p) (\<lambda>fd p. if fd < 0 then (Inl [MountErrInvalidAuthority], p)
      else qualify_or_close K inspect (test fd) (lease fd) fd p) = (r, q)"
  shows "case r of
      Inl _ \<Rightarrow> same_table p q
    | Inr l \<Rightarrow> \<exists>fd d i n. l = lease fd \<and> acquired p q fd d \<and> inspect fd n = Inr i \<and> test fd i = None"
proof -
  obtain s p1 where o: "open_root p = (s, p1)" by fastforce
  note contract = assms(1) [unfolded opener_contract_def, rule_format, OF o]
  show ?thesis
  proof (cases s)
    case (Inl e)
    with o contract assms(2) show ?thesis by auto
  next
    case (Inr fd)
    show ?thesis
    proof (cases "fd < 0")
      case True
      with contract assms(2) o Inr show ?thesis by auto
    next
      case False
      with contract Inr obtain d where d: "pr_open p fd = None" "pr_open p1 = (pr_open p)(fd \<mapsto> d)" "pr_stray p1 = pr_stray p" by auto
      from assms(2) o Inr False have run: "qualify_or_close K inspect (test fd) (lease fd) fd p1 = (r, q)" by simp
      show ?thesis
      proof (cases r)
        case (Inl e)
        have "released {fd} p1 q" using qualify_Inl [OF run [unfolded Inl]] d by simp
        with d Inl show ?thesis by (auto simp: released_def same_table_def fun_eq_iff)
      next
        case (Inr l)
        from qualify_Inr [OF run [unfolded Inr]] d False
        obtain i where l: "l = lease fd" and q: "acquired p q fd d" and i: "inspect fd (pr_calls p1) = Inr i" "test fd i = None"
          by (auto simp: acquired_def same_table_def)
        show ?thesis unfolding Inr sum.case by (intro exI conjI) (rule l, rule q, rule i(1), rule i(2))
      qed
    qed
  qed
qed

lemma acquired_close:
  "acquired p q fd d \<Longrightarrow> same_table p (snd (unix_Close K fd q))"
  using unix_Close_released [of q fd K] by (auto simp: acquired_def released_def same_table_def fun_eq_iff)

lemma root_Close_acquired:
  "acquired p q fd d \<Longrightarrow> root_Close K \<lparr> rl_rootID = root, rl_expected = e, rl_fd = fd, rl_closed = False \<rparr> q = (x, l, q') \<Longrightarrow>
   same_table p q' \<and> rl_closed l \<and> root_Close K l q' = (None, l, q')"
  using acquired_close [of p q fd d K] by (auto simp: root_Close_def acquired_def Let_def split: prod.splits if_splits)

lemma layout_Close_acquired:
  "acquired p q fd d \<Longrightarrow>
   layout_Close K \<lparr> ll_rootID = root, ll_kind = kind, ll_expected = e, ll_fd = fd, ll_closed = False \<rparr> q = (x, l, q') \<Longrightarrow>
   same_table p q' \<and> ll_closed l \<and> layout_Close K l q' = (None, l, q')"
  using acquired_close [of p q fd d K] by (auto simp: layout_Close_def acquired_def Let_def split: prod.splits if_splits)

section \<open>Properties\<close>

text \<open>
  C12: opening a trusted root neither leaks nor steals a descriptor. Whatever fails, the descriptor table is
  the one before the call. On success the lease holds one new descriptor of a directory that is close-on-exec, read-only
  and not \<^verbatim>\<open>O_PATH\<close>, opened for the authority registered under the requested root, on which an
  inspection was admitted by the recorded expectation; closing the lease gives back the table before the call, and a
  second close does nothing.
\<close>

theorem root_open_owned:
  assumes "\<forall>a. lookup rootID = Some a \<longrightarrow> opener_contract (the (ra_Open a))"
    and "openTrustedRootWith K (Some lookup) rootID inspect kernelError p = (r, q)"
  shows "case r of
      Inl _ \<Rightarrow> same_table p q
    | Inr lease \<Rightarrow>
      (\<exists>a d i n. lookup rootID = Some a \<and> ra_ID a = rootID \<and> rl_rootID lease = rootID \<and> rl_expected lease = ra_Expected a \<and>
        acquired p q (rl_fd lease) d \<and> inspect (rl_fd lease) n = Inr i \<and> root_qualified (ra_Expected a) i = None) \<and>
      (\<forall>x closed q'. root_Close K lease q = (x, closed, q') \<longrightarrow> same_table p q' \<and> root_Close K closed q' = (None, closed, q'))"
proof (cases "\<exists>a. lookup rootID = Some a \<and> root_authority_validate a rootID = None \<and> kernelError = None \<and> invalid_root rootID = None")
  case False
  then have "(\<forall>l. r \<noteq> Inr l) \<and> q = p"
    using assms(2) by (auto simp: openTrustedRootWith_def unless_error_Inr unless_error_def split: option.splits)
  then show ?thesis by (cases r) simp_all
next
  case True
  then obtain a where a: "lookup rootID = Some a" "root_authority_validate a rootID = None" and ok: "kernelError = None" "invalid_root rootID = None"
    by blast
  define lease where "lease fd = \<lparr> rl_rootID = rootID, rl_expected = ra_Expected a, rl_fd = fd, rl_closed = False \<rparr>" for fd
  have own: "ra_ID a = rootID" using a(2) by (simp add: root_authority_validate_def checks_Cons)
  from assms(1) a(1) have contract: "opener_contract (the (ra_Open a))" by blast
  have "after_ok (the (ra_Open a) p) (\<lambda>fd p. if fd < 0 then (Inl [MountErrInvalidAuthority], p)
      else qualify_or_close K inspect (root_qualified (ra_Expected a)) (lease fd) fd p) = (r, q)"
    unfolding lease_def using assms(2) a ok by (simp add: openTrustedRootWith_def)
  from open_and_qualify [OF contract this] show ?thesis
  proof (cases r)
    case (Inr l)
    with open_and_qualify [OF contract \<open>after_ok _ _ = (r, q)\<close>] obtain fd d i n
      where l: "l = lease fd" and q: "acquired p q fd d" and i: "inspect fd n = Inr i" "root_qualified (ra_Expected a) i = None" by auto
    have "\<forall>x closed q'. root_Close K l q = (x, closed, q') \<longrightarrow> same_table p q' \<and> root_Close K closed q' = (None, closed, q')"
      using root_Close_acquired [OF q] unfolding l lease_def by blast
    moreover have "\<exists>a d i n. lookup rootID = Some a \<and> ra_ID a = rootID \<and> rl_rootID l = rootID \<and> rl_expected l = ra_Expected a \<and>
        acquired p q (rl_fd l) d \<and> inspect (rl_fd l) n = Inr i \<and> root_qualified (ra_Expected a) i = None"
      using a(1) own q i unfolding l lease_def by auto
    ultimately show ?thesis unfolding Inr by simp
  qed simp
qed

text \<open>
  C13: what a layout lease lends. A failing call leaves the descriptor table as it was. When the call succeeds,
  the lease and its root lease are open and name the same root, the root was inspected again and admitted by its
  expectation, then the layout was inspected and agreed with its own expectation and with the mount of the root, and
  the only change of the table is a fresh close-on-exec duplicate, from 3 on, of the directory the lease holds.
\<close>

theorem layout_lends_requalified:
  assumes "fresh_duplicates K" "layout_duplicateWith K inspect root lease p = (r, q)"
  shows "case r of
      Inl _ \<Rightarrow> same_table p q
    | Inr fd \<Rightarrow> \<exists>l held i j d. lease = Some l \<and> \<not> ll_closed l \<and> root = Some held \<and> \<not> rl_closed held \<and> rl_rootID held = ll_rootID l \<and>
        inspect (rl_fd held) (pr_calls p) = Inr i \<and> root_qualified (rl_expected held) i = None \<and>
        inspect (ll_fd l) (Suc (pr_calls p)) = Inr j \<and> layout_qualified (ll_expected l) i j = None \<and>
        le_Mount (ll_expected l) = re_Mount (rl_expected held) \<and>
        pr_open p (ll_fd l) = Some d \<and> leasable d \<and> 3 \<le> fd \<and> pr_open p fd = None \<and>
        pr_open q = (pr_open p)(fd \<mapsto> d \<lparr> od_Flags := FD_CLOEXEC \<rparr>) \<and> pr_stray q = pr_stray p"
proof (cases r)
  case (Inl e)
  have "same_table p q"
    using assms(2) unfolding Inl layout_duplicateWith_def
    by (auto split: option.splits if_splits simp: unless_error_Inl after_ok_Inl unless_error_Inr call_inspect_def
        dest!: requalify_Inr requalify_Inl lend_Inl simp: same_table_def)
  with Inl show ?thesis by simp
next
  case (Inr fd)
  from assms(2) obtain l i j p1 where l: "lease = Some l" "\<not> ll_closed l" "root_RootID root = ll_rootID l"
    and valid: "validateLeasedDirectoryFD (ll_fd l) p = None" and i: "root_requalifyWith inspect root p = (Inr i, p1)"
    and j: "inspect (ll_fd l) (pr_calls p1) = Inr j" "layout_qualified (ll_expected l) i j = None"
    and lent: "lend K (ll_fd l) (tick p1) = (Inr fd, q)"
    unfolding Inr layout_duplicateWith_def
    by (auto split: option.splits if_splits simp: unless_error_Inr after_ok_Inr call_inspect_Inr)
  from requalify_Inr [OF i] obtain held where held: "root = Some held" "\<not> rl_closed held" "inspect (rl_fd held) (pr_calls p) = Inr i"
    "root_qualified (rl_expected held) i = None" and p1: "p1 = tick p" by blast
  from lend_Inr [OF assms(1) lent] obtain d where d: "pr_open p (ll_fd l) = Some d" "pr_open p fd = None" "3 \<le> fd"
    "pr_open q = (pr_open p)(fd \<mapsto> d \<lparr> od_Flags := FD_CLOEXEC \<rparr>)" "pr_stray q = pr_stray p"
    by (auto simp: p1)
  from valid d have leasable: "leasable d" by (simp add: validateLeasedDirectoryFD_None)
  from held(4) j(2) have mount: "le_Mount (ll_expected l) = re_Mount (rl_expected held)"
    using layout_binding_mount [of "ll_expected l" j i] unfolding root_qualified_def layout_qualified_def checks_Cons checkRootEvidence_None
    by (simp add: recorded_expectation_def)
  show ?thesis unfolding Inr sum.case
    by (intro exI conjI) (use l held j d leasable mount in \<open>auto simp: p1 root_RootID_def tick_def\<close>)
qed

text \<open>A process with the standard streams, a kernel that answers with the lowest unused descriptor from 3 on.\<close>

definition sample_open_directory :: open_directory where
  "sample_open_directory = \<lparr> od_Flags = FD_CLOEXEC, od_Status = O_RDONLY, od_Stat = Inr 0x41C0 \<rparr>"

definition sample_process :: process where
  "sample_process = \<lparr> pr_open = (\<lambda>fd. if 0 \<le> fd \<and> fd < 3 then Some \<lparr> od_Flags = 0, od_Status = 2, od_Stat = Inr 0x2190 \<rparr> else None),
     pr_calls = 0, pr_stray = [] \<rparr>"

definition lowest_unused :: "process \<Rightarrow> errno + int" where
  "lowest_unused p = or_fail (find (\<lambda>n. pr_open p n = None) [3..64]) EAGAIN"

definition sample_kernel :: kernel_answers where
  "sample_kernel = \<lparr> ka_Dup = (\<lambda>p _. lowest_unused p), ka_Close = (\<lambda>_ _. None) \<rparr>"

definition sample_opener :: root_opener where
  "sample_opener p = (case lowest_unused p of
     Inl _ \<Rightarrow> (Inl [], p) | Inr n \<Rightarrow> (Inr n, (tick p) \<lparr> pr_open := (pr_open p)(n \<mapsto> sample_open_directory) \<rparr>))"

lemma lowest_unused_Inr: "lowest_unused p = Inr n \<Longrightarrow> 3 \<le> n \<and> pr_open p n = None"
  unfolding lowest_unused_def or_fail_Inr find_Some_iff by (metis atLeastAtMost_iff nth_mem set_upto)

lemma sample_kernel_fresh: "fresh_duplicates sample_kernel"
  by (auto simp: fresh_duplicates_def sample_kernel_def dest: lowest_unused_Inr)

lemma sample_opener_contract: "opener_contract sample_opener"
  by (auto simp: opener_contract_def sample_opener_def dest: lowest_unused_Inr split: sum.splits)

definition sample_root_inspection :: mount_inspection where
  "sample_root_inspection = inspection_of sample_mount sample_namespace (sample_evidence 2 0x1ED)"

definition sample_layout_inspection :: mount_inspection where
  "sample_layout_inspection = inspection_of sample_mount sample_namespace (sample_evidence 42 0x1C0)"

text \<open>Descriptor 3 is the root, 4 the layout.\<close>

definition sample_inspector :: root_inspector where
  "sample_inspector fd n = (if fd = 3 then Inr sample_root_inspection else Inr sample_layout_inspection)"

definition sample_root_authority :: root_authority where
  "sample_root_authority = \<lparr> ra_ID = ''root-1'', ra_Open = Some sample_opener, ra_Expected = recorded_expectation sample_root_inspection \<rparr>"

definition sample_layout_expectation :: layout_expectation where
  "sample_layout_expectation = \<lparr> le_Namespace = sample_namespace, le_Device = \<lparr> di_Major = 8, di_Minor = 1 \<rparr>, le_Inode = 42,
     le_UID = 1000, le_GID = 1000, le_Mode = 0x1C0, le_Mount = sample_mount \<rparr>"

definition sample_root_lease :: root_lease where
  "sample_root_lease = \<lparr> rl_rootID = ''root-1'', rl_expected = recorded_expectation sample_root_inspection, rl_fd = 3, rl_closed = False \<rparr>"

definition sample_layout_lease :: layout_lease where
  "sample_layout_lease = \<lparr> ll_rootID = ''root-1'', ll_kind = LayoutPrivateState, ll_expected = sample_layout_expectation, ll_fd = 4, ll_closed = False \<rparr>"

definition sample_opened :: "process \<Rightarrow> int \<Rightarrow> process" where
  "sample_opened p fd = p \<lparr> pr_open := (pr_open p)(fd \<mapsto> sample_open_directory) \<rparr>"

lemma sample_inspections: "root_qualified (recorded_expectation sample_root_inspection) sample_root_inspection = None"
  "layout_qualified sample_layout_expectation sample_root_inspection sample_layout_inspection = None"
  "root_authority_validate sample_root_authority ''root-1'' = None" "invalid_root ''root-1'' = None"
  by code_simp+

theorem root_open_owned_witness:
  "\<exists>lease q. openTrustedRootWith sample_kernel (Some (\<lambda>_. Some sample_root_authority)) ''root-1'' sample_inspector None sample_process =
      (Inr lease, q) \<and> rl_fd lease = 3 \<and> rl_rootID lease = ''root-1'' \<and> pr_open q 3 \<noteq> None \<and>
      (\<forall>x closed q'. root_Close sample_kernel lease q = (x, closed, q') \<longrightarrow> same_table sample_process q')"
proof -
  have unused: "lowest_unused sample_process = Inr 3" by code_simp
  define q where "q = tick (sample_opened (tick sample_process) 3)"
  have "validateLeasedDirectoryFD 3 (sample_opened (tick sample_process) 3) = None" by code_simp
  then have run: "openTrustedRootWith sample_kernel (Some (\<lambda>_. Some sample_root_authority)) ''root-1'' sample_inspector None sample_process =
      (Inr sample_root_lease, q)"
    using sample_inspections unused
    by (simp add: openTrustedRootWith_def sample_root_authority_def sample_opener_def qualify_or_close_def call_inspect_def
        sample_inspector_def sample_root_lease_def sample_opened_def q_def)
  have "\<forall>a. Some sample_root_authority = Some a \<longrightarrow> opener_contract (the (ra_Open a))"
    using sample_opener_contract by (simp add: sample_root_authority_def)
  from root_open_owned [where lookup = "\<lambda>_. Some sample_root_authority", OF this run]
  have "\<forall>x closed q'. root_Close sample_kernel sample_root_lease q = (x, closed, q') \<longrightarrow> same_table sample_process q'"
    and "\<exists>d. acquired sample_process q (rl_fd sample_root_lease) d" by auto
  with run show ?thesis by (intro exI [of _ sample_root_lease] exI [of _ q]) (auto simp: sample_root_lease_def acquired_def)
qed

theorem layout_lends_requalified_witness:
  "\<exists>q. layout_duplicateWith sample_kernel sample_inspector (Some sample_root_lease) (Some sample_layout_lease)
      (sample_opened (sample_opened sample_process 3) 4) = (Inr 5, q) \<and>
    pr_open q 5 = Some sample_open_directory \<and>
    layout_duplicateWith sample_kernel sample_inspector (Some (sample_root_lease \<lparr> rl_closed := True \<rparr>)) (Some sample_layout_lease)
      (sample_opened (sample_opened sample_process 3) 4) = (Inl [MountErrLeaseClosed], sample_opened (sample_opened sample_process 3) 4)"
proof -
  let ?p = "sample_opened (sample_opened sample_process 3) 4"
  have "fst (layout_duplicateWith sample_kernel sample_inspector (Some sample_root_lease) (Some sample_layout_lease) ?p) = Inr 5"
    by code_simp
  then obtain q where run: "layout_duplicateWith sample_kernel sample_inspector (Some sample_root_lease) (Some sample_layout_lease) ?p = (Inr 5, q)"
    by (metis prod.collapse)
  from layout_lends_requalified [OF sample_kernel_fresh run]
  have "pr_open q 5 = Some sample_open_directory"
    by (auto simp: sample_layout_lease_def sample_opened_def sample_open_directory_def)
  moreover have "validateLeasedDirectoryFD 4 ?p = None" "root_expectation_validate (recorded_expectation sample_root_inspection) = None"
    by code_simp+
  then have "layout_duplicateWith sample_kernel sample_inspector (Some (sample_root_lease \<lparr> rl_closed := True \<rparr>)) (Some sample_layout_lease) ?p =
      (Inl [MountErrLeaseClosed], ?p)"
    by (simp add: layout_duplicateWith_def sample_layout_lease_def sample_root_lease_def root_RootID_def root_requalifyWith_def root_withFD_def)
  ultimately show ?thesis using run by blast
qed

text \<open>
  The same for a layout on a held root: no leak on any failure; on success the layout directory lies on the
  mount its root lease was admitted on.
\<close>

theorem layout_open_owned:
  assumes contract: "\<forall>a. lookup (root_RootID root) kind = Some a \<longrightarrow> opener_contract (the (la_Open a))"
    and run: "openTrustedLayoutWith K (Some lookup) root kind inspect kernelError p = (r, q)"
  shows "case r of
      Inl _ \<Rightarrow> same_table p q
    | Inr lease \<Rightarrow>
      (\<exists>held a d i j n. root = Some held \<and> lookup (rl_rootID held) kind = Some a \<and> ll_rootID lease = rl_rootID held \<and> ll_kind lease = kind \<and>
        ll_expected lease = la_Expected a \<and> acquired p q (ll_fd lease) d \<and>
        inspect (rl_fd held) (pr_calls p) = Inr i \<and> root_qualified (rl_expected held) i = None \<and>
        inspect (ll_fd lease) n = Inr j \<and> layout_qualified (la_Expected a) i j = None) \<and>
      (\<forall>x closed q'. layout_Close K lease q = (x, closed, q') \<longrightarrow> same_table p q' \<and> layout_Close K closed q' = (None, closed, q'))"
proof (cases "\<exists>a i q1. root \<noteq> None \<and> lookup (root_RootID root) kind = Some a \<and> kernelError = None \<and> root_requalifyWith inspect root p = (Inr i, q1) \<and>
    invalid_root (root_RootID root) = None \<and> layout_kind_validate kind = None \<and> layout_authority_validate a (root_RootID root) kind = None")
  case False
  have "(\<forall>l. r \<noteq> Inr l) \<and> same_table p q"
  proof (cases r)
    case (Inl e)
    with run False show ?thesis
      by (auto simp: openTrustedLayoutWith_def unless_error_Inl unless_error_Inr after_ok_Inl Let_def checks_Cons
          dest: requalify_Inl split: option.splits if_splits)
  next
    case (Inr l)
    with run False show ?thesis
      by (auto simp: openTrustedLayoutWith_def unless_error_Inr after_ok_Inr Let_def checks_Cons split: option.splits if_splits)
  qed
  then show ?thesis by (cases r) simp_all
next
  case True
  then obtain a i q1 where a: "root \<noteq> None" "lookup (root_RootID root) kind = Some a" "kernelError = None"
    "root_requalifyWith inspect root p = (Inr i, q1)" "invalid_root (root_RootID root) = None" "layout_kind_validate kind = None"
    "layout_authority_validate a (root_RootID root) kind = None" by blast
  from requalify_Inr [OF a(4)] obtain held where held: "root = Some held" "inspect (rl_fd held) (pr_calls p) = Inr i"
    "root_qualified (rl_expected held) i = None" and q1: "q1 = tick p" by blast
  define lease where "lease fd = \<lparr> ll_rootID = root_RootID root, ll_kind = kind, ll_expected = la_Expected a, ll_fd = fd, ll_closed = False \<rparr>" for fd
  from contract a(2) have open_contract: "opener_contract (the (la_Open a))" by blast
  have "after_ok (the (la_Open a) q1) (\<lambda>fd p. if fd < 0 then (Inl [MountErrInvalidAuthority], p)
      else qualify_or_close K inspect (layout_qualified (la_Expected a) i) (lease fd) fd p) = (r, q)"
    unfolding lease_def using run a by (simp add: openTrustedLayoutWith_def Let_def)
  note opened = open_and_qualify [OF open_contract this]
  show ?thesis
  proof (cases r)
    case (Inl e)
    with opened show ?thesis by (simp add: q1 same_table_def)
  next
    case (Inr l)
    with opened obtain fd d j n where l: "l = lease fd" and q: "acquired p q fd d"
      and j: "inspect fd n = Inr j" "layout_qualified (la_Expected a) i j = None" by (auto simp: q1 acquired_def)
    have "\<forall>x closed q'. layout_Close K l q = (x, closed, q') \<longrightarrow> same_table p q' \<and> layout_Close K closed q' = (None, closed, q')"
      using layout_Close_acquired [OF q] unfolding l lease_def by blast
    moreover have "\<exists>held a d i j n. root = Some held \<and> lookup (rl_rootID held) kind = Some a \<and> ll_rootID l = rl_rootID held \<and> ll_kind l = kind \<and>
        ll_expected l = la_Expected a \<and> acquired p q (ll_fd l) d \<and> inspect (rl_fd held) (pr_calls p) = Inr i \<and>
        root_qualified (rl_expected held) i = None \<and> inspect (ll_fd l) n = Inr j \<and> layout_qualified (la_Expected a) i j = None"
      using a(2) held q j unfolding l lease_def by (auto simp: root_RootID_def)
    ultimately show ?thesis unfolding Inr by simp
  qed
qed

end
