(* ===== verification/TrashLease.thy ===== *)
theory TrashLease
  imports MountEvidence TrashWrite
begin

text \<open>
  \<^verbatim>\<open>src/internal/mounts/trash_lease_linux.go\<close>: the authority over a Trash layout that an engine or helper
  configured, the lease on its descriptors, the digest that identifies the layout in the ledger, and the
  path a record carries. \<open>lease_authority\<close> at the end is the lease seen through the interface the Trash package
  uses. Descriptors are Go integers.
\<close>

section \<open>Configuration\<close>

type_synonym trash_placement = string

definition TrashPlacementHome :: trash_placement where "TrashPlacementHome = ''home''"
definition TrashPlacementTopUser :: trash_placement where "TrashPlacementTopUser = ''top_user''"
definition TrashPlacementTopShared :: trash_placement where "TrashPlacementTopShared = ''top_shared''"

record trash_topology =
  tt_AnchorKind :: trash_anchor_kind
  tt_Anchor :: layout_expectation

record trash_metadata_mapping =
  tmm_Basis :: trash_metadata_basis
  tmm_Prefix :: byte_path

record trash_layout_expectation =
  tle_TrashRoot :: layout_expectation
  tle_Files :: layout_expectation
  tle_Info :: layout_expectation
  tle_HasSharedTop :: bool
  tle_SharedTop :: layout_expectation

record trash_descriptors =
  td_Anchor :: int
  td_TrashRoot :: int
  td_Files :: int
  td_Info :: int
  td_SharedTop :: int
  td_normalized :: bool

record trash_configuration =
  tc_Root :: trusted_root_id
  tc_Placement :: trash_placement
  tc_OwnerUID :: u32
  tc_Metadata :: trash_metadata_mapping
  tc_Topology :: trash_topology
  tc_Expected :: trash_layout_expectation

section \<open>Validation\<close>

definition trash_placement_validate :: "trash_placement \<Rightarrow> mount_error option" where
  "trash_placement_validate placement =
     check (placement \<in> {TrashPlacementHome, TrashPlacementTopUser, TrashPlacementTopShared}) [MountErrInvalidAuthority]"

definition trash_anchor_kind_validate :: "trash_anchor_kind \<Rightarrow> mount_error option" where
  "trash_anchor_kind_validate kind = check (kind \<in> {TrashAnchorHomeData, TrashAnchorFilesystemTop}) [MountErrInvalidAuthority]"

definition trash_metadata_basis_validate :: "trash_metadata_basis \<Rightarrow> mount_error option" where
  "trash_metadata_basis_validate basis =
     check (basis \<in> {TrashMetadataBasisHomeAbsolute, TrashMetadataBasisTopRelative}) [MountErrInvalidAuthority]"

definition no_namespace :: mount_namespace where "no_namespace = \<lparr> mn_Device = 0, mn_Inode = 0 \<rparr>"

definition no_mount :: mount_record where
  "no_mount = \<lparr> mr_ID = 0, mr_ParentID = 0, mr_Device = no_device, mr_Root = [], mr_MountPoint = [], mr_Filesystem = [], mr_Source = [] \<rparr>"

definition isZeroTrashLayoutExpectation :: "layout_expectation \<Rightarrow> bool" where
  "isZeroTrashLayoutExpectation e =
     (le_Namespace e = no_namespace \<and> le_Device e = no_device \<and> le_Inode e = 0 \<and> le_UID e = 0 \<and> le_GID e = 0 \<and>
      le_Mode e = 0 \<and> le_Mount e = no_mount)"

definition topology_configured :: "trash_topology \<Rightarrow> bool" where
  "topology_configured topology = (tt_AnchorKind topology \<noteq> [])"

definition trash_topology_validate :: "trash_topology \<Rightarrow> trash_placement \<Rightarrow> mount_error option" where
  "trash_topology_validate topology placement =
     (if \<not> topology_configured topology
      then check (isZeroTrashLayoutExpectation (tt_Anchor topology)) [MountErrInvalidAuthority]
      else checks
        [trash_anchor_kind_validate (tt_AnchorKind topology),
         layout_expectation_validate (tt_Anchor topology),
         if placement = TrashPlacementHome then check (tt_AnchorKind topology = TrashAnchorHomeData) [MountErrInvalidAuthority]
         else if placement = TrashPlacementTopUser \<or> placement = TrashPlacementTopShared
         then check (tt_AnchorKind topology = TrashAnchorFilesystemTop) [MountErrInvalidAuthority]
         else Some [MountErrInvalidAuthority]])"

definition trash_metadata_mapping_validate :: "trash_metadata_mapping \<Rightarrow> trash_placement \<Rightarrow> mount_error option" where
  "trash_metadata_mapping_validate mapping placement = checks
     [trash_metadata_basis_validate (tmm_Basis mapping),
      if placement = TrashPlacementHome then check (tmm_Basis mapping = TrashMetadataBasisHomeAbsolute) [MountErrInvalidAuthority]
      else if placement = TrashPlacementTopUser \<or> placement = TrashPlacementTopShared
      then check (tmm_Basis mapping = TrashMetadataBasisTopRelative) [MountErrInvalidAuthority]
      else None,
      if path_components (tmm_Prefix mapping) \<noteq> []
      then map_option (\<lambda>_. [MountErrInvalidAuthority]) (failed (byte_path_new (path_components (tmm_Prefix mapping))))
      else None]"

definition onTrashRootMount :: "layout_expectation \<Rightarrow> layout_expectation \<Rightarrow> bool" where
  "onTrashRootMount root role =
     (sameMountRecord (le_Mount root) (le_Mount role) \<and> le_Namespace root = le_Namespace role \<and> le_Device root = le_Device role)"

definition trash_role_validate :: "trash_layout_expectation \<Rightarrow> u32 \<Rightarrow> layout_expectation \<Rightarrow> mount_error option" where
  "trash_role_validate expected ownerUID role = checks
     [layout_expectation_validate role,
      check (le_UID role = ownerUID) [MountErrInvalidAuthority],
      check (le_Mode role AND 0xFFF = 0x1C0) [MountErrInvalidAuthority],
      check (onTrashRootMount (tle_TrashRoot expected) role) [MountErrInvalidAuthority]]"

definition trash_layout_expectation_validate :: "trash_layout_expectation \<Rightarrow> trash_placement \<Rightarrow> u32 \<Rightarrow> mount_error option" where
  "trash_layout_expectation_validate e placement ownerUID = checks
     ([trash_role_validate e ownerUID (tle_TrashRoot e), trash_role_validate e ownerUID (tle_Files e),
       trash_role_validate e ownerUID (tle_Info e),
       check (\<not> (le_Inode (tle_TrashRoot e) = le_Inode (tle_Files e) \<or> le_Inode (tle_TrashRoot e) = le_Inode (tle_Info e) \<or>
         le_Inode (tle_Files e) = le_Inode (tle_Info e))) [MountErrInvalidAuthority]] @
      (if placement \<noteq> TrashPlacementTopShared
       then [check (\<not> (tle_HasSharedTop e \<or> \<not> isZeroTrashLayoutExpectation (tle_SharedTop e))) [MountErrInvalidAuthority]]
       else
         [check (tle_HasSharedTop e) [MountErrInvalidAuthority],
          layout_expectation_validate (tle_SharedTop e),
          check (le_Mode (tle_SharedTop e) AND 0x200 \<noteq> 0) [MountErrInvalidAuthority],
          check (onTrashRootMount (tle_TrashRoot e) (tle_SharedTop e)) [MountErrInvalidAuthority],
          check (\<not> (le_Inode (tle_SharedTop e) = le_Inode (tle_TrashRoot e) \<or> le_Inode (tle_SharedTop e) = le_Inode (tle_Files e) \<or>
            le_Inode (tle_SharedTop e) = le_Inode (tle_Info e))) [MountErrInvalidAuthority]]))"

definition validateTrashTopologyBinding :: "trash_topology \<Rightarrow> trash_layout_expectation \<Rightarrow> mount_error option" where
  "validateTrashTopologyBinding topology e =
     (let anchor = tt_Anchor topology in checks
       [check (\<not> (\<not> sameMountRecord (le_Mount anchor) (le_Mount (tle_TrashRoot e)) \<or>
          le_Namespace anchor \<noteq> le_Namespace (tle_TrashRoot e) \<or> le_Device anchor \<noteq> le_Device (tle_TrashRoot e)))
          [MountErrInvalidAuthority],
        check (\<not> (le_Inode anchor = le_Inode (tle_TrashRoot e) \<or> le_Inode anchor = le_Inode (tle_Files e) \<or>
          le_Inode anchor = le_Inode (tle_Info e) \<or> tle_HasSharedTop e \<and> le_Inode anchor = le_Inode (tle_SharedTop e)))
          [MountErrInvalidAuthority]])"

text \<open>\<^verbatim>\<open>TrashAuthority.validate\<close>; an authority without an opener does not occur here.\<close>

definition trash_configuration_validate :: "trash_configuration \<Rightarrow> trusted_root_id \<Rightarrow> mount_error option" where
  "trash_configuration_validate a requestedRoot = checks
     [map_option (\<lambda>_. [MountErrInvalidAuthority]) (trusted_root_id_validate requestedRoot),
      map_option (\<lambda>_. [MountErrInvalidAuthority]) (trusted_root_id_validate (tc_Root a)),
      check (tc_Root a = requestedRoot) [MountErrInvalidAuthority],
      trash_placement_validate (tc_Placement a),
      trash_metadata_mapping_validate (tc_Metadata a) (tc_Placement a),
      trash_layout_expectation_validate (tc_Expected a) (tc_Placement a) (tc_OwnerUID a),
      trash_topology_validate (tc_Topology a) (tc_Placement a),
      if topology_configured (tc_Topology a) then validateTrashTopologyBinding (tc_Topology a) (tc_Expected a) else None]"

text \<open>The loop over the roles: each descriptor above the standard streams and new.\<close>

fun descriptor_roles_check :: "int list \<Rightarrow> int list \<Rightarrow> mount_error option" where
  "descriptor_roles_check seen [] = None"
| "descriptor_roles_check seen (fd # fds) =
     (if fd < 3 then Some [MountErrInvalidAuthority]
      else if fd \<in> set seen then Some [MountErrInvalidAuthority]
      else descriptor_roles_check (fd # seen) fds)"

definition trash_descriptors_validate :: "trash_descriptors \<Rightarrow> trash_placement \<Rightarrow> mount_error option" where
  "trash_descriptors_validate d placement =
     (case checks [trash_placement_validate placement, check (td_normalized d) [MountErrInvalidAuthority]] of
        Some e \<Rightarrow> Some e
      | None \<Rightarrow>
        (let roles = [td_TrashRoot d, td_Files d, td_Info d] @ (if td_Anchor d \<noteq> -1 then [td_Anchor d] else [])
         in if placement = TrashPlacementTopShared then descriptor_roles_check [] (roles @ [td_SharedTop d])
            else if td_SharedTop d \<noteq> -1 then Some [MountErrInvalidAuthority]
            else descriptor_roles_check [] roles))"

definition trash_descriptors_validateTopology :: "trash_descriptors \<Rightarrow> trash_placement \<Rightarrow> mount_error option" where
  "trash_descriptors_validateTopology d placement = checks
     [trash_descriptors_validate d placement, check (\<not> td_Anchor d < 3) [MountErrInvalidAuthority]]"

section \<open>The lease\<close>

text \<open>\<open>tl_root\<close> is the identity of the held root lease, \<open>None\<close> for a nil one.\<close>

record trash_lease =
  tl_root :: "trusted_root_id option"
  tl_rootID :: trusted_root_id
  tl_placement :: trash_placement
  tl_ownerUID :: u32
  tl_metadata :: trash_metadata_mapping
  tl_topology :: trash_topology
  tl_expected :: trash_layout_expectation
  tl_descriptors :: trash_descriptors
  tl_closed :: bool

definition validateMetadataReconciliationIdentityLocked :: "trash_lease \<Rightarrow> mount_error option" where
  "validateMetadataReconciliationIdentityLocked l = checks
     [check (tl_root l \<noteq> None) [MountErrLeaseClosed],
      check (tl_root l = Some (tl_rootID l)) [MountErrDrifted],
      map_option (\<lambda>_. [MountErrInvalidAuthority]) (trusted_root_id_validate (tl_rootID l)),
      trash_placement_validate (tl_placement l),
      trash_metadata_mapping_validate (tl_metadata l) (tl_placement l),
      trash_layout_expectation_validate (tl_expected l) (tl_placement l) (tl_ownerUID l),
      trash_topology_validate (tl_topology l) (tl_placement l),
      validateTrashTopologyBinding (tl_topology l) (tl_expected l),
      trash_descriptors_validateTopology (tl_descriptors l) (tl_placement l)]"

section \<open>The encoding of a layout\<close>

text \<open>Each method of the encoder appends; its result here is what it appends.\<close>

definition be_bytes :: "nat \<Rightarrow> nat \<Rightarrow> bytes" where
  "be_bytes n v = map (\<lambda>i. word_of_nat (v div 256 ^ (n - Suc i))) [0..<n]"

definition encode_uint64Raw :: "u64 \<Rightarrow> bytes" where "encode_uint64Raw v = be_bytes 8 (unat v)"

definition encode_field :: "string \<Rightarrow> bytes \<Rightarrow> bytes" where
  "encode_field name value =
     encode_uint64Raw (word_of_nat (length name)) @ bytes_of name @ encode_uint64Raw (word_of_nat (length value)) @ value"

definition encode_text :: "string \<Rightarrow> bytes \<Rightarrow> bytes" where "encode_text name value = encode_field name value"
definition encode_uint32 :: "string \<Rightarrow> u32 \<Rightarrow> bytes" where "encode_uint32 name value = encode_field name (be_bytes 4 (unat value))"
definition encode_uint64 :: "string \<Rightarrow> u64 \<Rightarrow> bytes" where "encode_uint64 name value = encode_field name (be_bytes 8 (unat value))"
definition encode_boolean :: "string \<Rightarrow> bool \<Rightarrow> bytes" where "encode_boolean name value = encode_field name [if value then 1 else 0]"

definition encode_bytePath :: "string \<Rightarrow> byte_path \<Rightarrow> bytes" where
  "encode_bytePath name value =
     encode_uint64 (name @ ''.component_count'') (word_of_nat (length (path_components value))) @
     concat (map (encode_field (name @ ''.component'')) (path_components value))"

definition encode_expectation :: "string \<Rightarrow> layout_expectation \<Rightarrow> bytes" where
  "encode_expectation name v = concat
     [encode_uint64 (name @ ''.namespace.device'') (mn_Device (le_Namespace v)),
      encode_uint64 (name @ ''.namespace.inode'') (mn_Inode (le_Namespace v)),
      encode_uint32 (name @ ''.device.major'') (di_Major (le_Device v)),
      encode_uint32 (name @ ''.device.minor'') (di_Minor (le_Device v)),
      encode_uint64 (name @ ''.inode'') (le_Inode v),
      encode_uint32 (name @ ''.uid'') (le_UID v),
      encode_uint32 (name @ ''.gid'') (le_GID v),
      encode_uint32 (name @ ''.mode'') (le_Mode v),
      encode_uint64 (name @ ''.mount.id'') (mr_ID (le_Mount v)),
      encode_uint64 (name @ ''.mount.parent_id'') (mr_ParentID (le_Mount v)),
      encode_uint32 (name @ ''.mount.device.major'') (di_Major (mr_Device (le_Mount v))),
      encode_uint32 (name @ ''.mount.device.minor'') (di_Minor (mr_Device (le_Mount v))),
      encode_text (name @ ''.mount.root'') (mr_Root (le_Mount v)),
      encode_text (name @ ''.mount.point'') (mr_MountPoint (le_Mount v)),
      encode_text (name @ ''.mount.filesystem'') (mr_Filesystem (le_Mount v)),
      encode_text (name @ ''.mount.source'') (mr_Source (le_Mount v))]"

definition encodeTrashLayoutBinding :: "trash_lease \<Rightarrow> bytes" where
  "encodeTrashLayoutBinding l = concat
     [encode_text ''version'' (bytes_of ''1''),
      encode_text ''root'' (bytes_of (tl_rootID l)),
      encode_text ''placement'' (bytes_of (tl_placement l)),
      encode_uint32 ''owner_uid'' (tl_ownerUID l),
      encode_text ''metadata.basis'' (bytes_of (tmm_Basis (tl_metadata l))),
      encode_bytePath ''metadata.prefix'' (tmm_Prefix (tl_metadata l)),
      encode_text ''topology.anchor_kind'' (bytes_of (tt_AnchorKind (tl_topology l))),
      encode_expectation ''topology.anchor'' (tt_Anchor (tl_topology l)),
      encode_expectation ''roles.trash_root'' (tle_TrashRoot (tl_expected l)),
      encode_expectation ''roles.files'' (tle_Files (tl_expected l)),
      encode_expectation ''roles.info'' (tle_Info (tl_expected l)),
      encode_boolean ''roles.has_shared_top'' (tle_HasSharedTop (tl_expected l)),
      if tle_HasSharedTop (tl_expected l) then encode_expectation ''roles.shared_top'' (tle_SharedTop (tl_expected l)) else []]"

section \<open>What the lease tells the Trash package\<close>

definition MetadataReconciliationIdentity :: "(bytes \<Rightarrow> bytes) \<Rightarrow> trash_lease \<Rightarrow> mount_error + trash_layout_binding" where
  "MetadataReconciliationIdentity sha256 l =
     (if tl_closed l then Inl [MountErrLeaseClosed]
      else if \<not> topology_configured (tl_topology l) then Inl [MountErrUnsupported]
      else case validateMetadataReconciliationIdentityLocked l of
          Some e \<Rightarrow> Inl e
        | None \<Rightarrow> Inr (ComputeTrashLayoutBinding sha256 (encodeTrashLayoutBinding l)))"

definition MetadataPathFor :: "trash_lease \<Rightarrow> byte_path \<Rightarrow> mount_error + byte_path" where
  "MetadataPathFor l source =
     (if tl_closed l then Inl [MountErrLeaseClosed]
      else case byte_path_new (path_components source) of
          Inl _ \<Rightarrow> Inl [MountErrInvalidAuthority]
        | Inr _ \<Rightarrow>
          (case byte_path_new (path_components (tmm_Prefix (tl_metadata l)) @ path_components source) of
             Inl _ \<Rightarrow> Inl [MountErrInvalidAuthority]
           | Inr mapped \<Rightarrow>
             (case PercentDecodeTrashPath (PercentEncodeTrashPath mapped) of
                Inl _ \<Rightarrow> Inl [MountErrInvalidAuthority]
              | Inr _ \<Rightarrow> Inr mapped)))"

text \<open>The lease as the private interface of the Trash package; a nil lease is the caller's \<open>None\<close>.\<close>

definition lease_authority :: "(bytes \<Rightarrow> bytes) \<Rightarrow> ('x \<Rightarrow> trash_lease) \<Rightarrow> trash_lease \<Rightarrow> 'x trash_authority" where
  "lease_authority sha256 held l =
     \<lparr> ta_RootID = tl_rootID l, ta_AnchorKind = tt_AnchorKind (tl_topology l),
       ta_MetadataReconciliationIdentity = (\<lambda>x. MetadataReconciliationIdentity sha256 (held x)),
       ta_MetadataBasis = tmm_Basis (tl_metadata l), ta_MetadataPathFor = (\<lambda>p x. MetadataPathFor (held x) p) \<rparr>"

end
