(* ===== verification/TrashHandoff.thy ===== *)
theory TrashHandoff
  imports RootLeases TrashLease
begin

text \<open>
  The descriptor side of \<^verbatim>\<open>src/internal/mounts/trash_lease_linux.go\<close>: the constructor that takes over the
  descriptors of a Trash bundle, the open function, requalification, and the two handoffs of duplicates to
  \<^verbatim>\<open>linuxfs\<close>. The duplication is an argument of the handoffs, as in the code: \<open>fcntl_duplicate\<close> is the
  one in use. The root lease a Trash lease points to is an argument of each operation.
\<close>

section \<open>Taking over a bundle\<close>

definition emptyTrashDescriptors :: trash_descriptors where
  "emptyTrashDescriptors = \<lparr> td_Anchor = -1, td_TrashRoot = -1, td_Files = -1, td_Info = -1, td_SharedTop = -1, td_normalized = False \<rparr>"

fun raw_descriptors_refused :: "int list \<Rightarrow> int list \<Rightarrow> bool" where
  "raw_descriptors_refused before [] = False"
| "raw_descriptors_refused before (fd # raw) =
     (fd < -1 \<or> (\<not> fd < 0 \<and> fd \<in> set before) \<or> raw_descriptors_refused (before @ [fd]) raw)"

text \<open>The second loop: \<open>normalized\<close> holds the results so far, the list what is left of the originals.\<close>

fun normalize_raw :: "kernel_answers \<Rightarrow> int list \<Rightarrow> int list \<Rightarrow> process \<Rightarrow> (mount_error + int list) \<times> process" where
  "normalize_raw K normalized [] p = (Inr normalized, p)"
| "normalize_raw K normalized (fd # raw) p =
     (if fd < 0 then normalize_raw K (normalized @ [-1]) raw p
      else case dup_cloexec K fd p of
          (Inl _, p) \<Rightarrow>
            (Inl [MountErrInvalidAuthority], closeOwnedTrashDescriptors K normalized (closeOwnedTrashDescriptors K (fd # raw) p))
        | (Inr n, p) \<Rightarrow>
          (case unix_Close K fd p of
             (Some _, p) \<Rightarrow>
               (Inl [MountErrDrifted], closeOwnedTrashDescriptors K (normalized @ [n]) (closeOwnedTrashDescriptors K raw p))
           | (None, p) \<Rightarrow> normalize_raw K (normalized @ [n]) raw p))"

definition descriptors_of :: "int list \<Rightarrow> trash_descriptors" where
  "descriptors_of fds = \<lparr> td_Anchor = fds ! 0, td_TrashRoot = fds ! 1, td_Files = fds ! 2, td_Info = fds ! 3,
     td_SharedTop = fds ! 4, td_normalized = True \<rparr>"

definition newTrashDescriptors ::
    "kernel_answers \<Rightarrow> int \<Rightarrow> int \<Rightarrow> int \<Rightarrow> int \<Rightarrow> int \<Rightarrow> process \<Rightarrow> (mount_error + trash_descriptors) \<times> process" where
  "newTrashDescriptors K anchor trashRoot files info sharedTop p =
     (let raw = [anchor, trashRoot, files, info, sharedTop] in
      if raw_descriptors_refused [] raw then (Inl [MountErrInvalidAuthority], closeOwnedTrashDescriptors K raw p)
      else after_ok (normalize_raw K [] raw p) (\<lambda>normalized p. (Inr (descriptors_of normalized), p)))"

definition NewTrashDescriptors :: "kernel_answers \<Rightarrow> int \<Rightarrow> int \<Rightarrow> int \<Rightarrow> int \<Rightarrow> process \<Rightarrow> (mount_error + trash_descriptors) \<times> process" where
  "NewTrashDescriptors K trashRoot files info sharedTop p = newTrashDescriptors K (-1) trashRoot files info sharedTop p"

definition NewTrashTopologyDescriptors ::
    "kernel_answers \<Rightarrow> int \<Rightarrow> int \<Rightarrow> int \<Rightarrow> int \<Rightarrow> int \<Rightarrow> process \<Rightarrow> (mount_error + trash_descriptors) \<times> process" where
  "NewTrashTopologyDescriptors K anchor trashRoot files info sharedTop p =
     (if anchor < 0
      then (Inl [MountErrInvalidAuthority], closeOwnedTrashDescriptors K [anchor, trashRoot, files, info, sharedTop] p)
      else newTrashDescriptors K anchor trashRoot files info sharedTop p)"

definition trash_descriptor_list :: "trash_descriptors \<Rightarrow> int list" where
  "trash_descriptor_list d = [td_Anchor d, td_TrashRoot d, td_Files d, td_Info d, td_SharedTop d]"

definition trash_descriptors_Close :: "kernel_answers \<Rightarrow> trash_descriptors \<Rightarrow> process \<Rightarrow> errno option \<times> trash_descriptors \<times> process" where
  "trash_descriptors_Close K d p = (let (e, q) = close_entries K [] (trash_descriptor_list d) p in (e, emptyTrashDescriptors, q))"

section \<open>Requalification\<close>

definition checkTrashDescriptor ::
    "root_inspector \<Rightarrow> mount_inspection \<Rightarrow> int \<times> layout_expectation \<Rightarrow> process \<Rightarrow> (mount_error + unit) \<times> process" where
  "checkTrashDescriptor inspect rootInspection role p = (case role of (fd, expected) \<Rightarrow>
     if fd < 3 then (Inl [MountErrInvalidAuthority], p)
     else unless_error (validateLeasedDirectoryFD fd p) p
       (after_ok (call_inspect inspect fd p) (\<lambda>inspection p.
        unless_error (layout_qualified expected rootInspection inspection) p (Inr (), p))))"

text \<open>The calls of \<^verbatim>\<open>checkTrashDescriptor\<close> one after the other.\<close>

fun check_trash_roles ::
    "root_inspector \<Rightarrow> mount_inspection \<Rightarrow> (int \<times> layout_expectation) list \<Rightarrow> process \<Rightarrow> (mount_error + unit) \<times> process" where
  "check_trash_roles inspect rootInspection [] p = (Inr (), p)"
| "check_trash_roles inspect rootInspection (role # roles) p =
     after_ok (checkTrashDescriptor inspect rootInspection role p) (\<lambda>_ p. check_trash_roles inspect rootInspection roles p)"

definition fixed_roles :: "trash_descriptors \<Rightarrow> trash_layout_expectation \<Rightarrow> trash_placement \<Rightarrow> (int \<times> layout_expectation) list" where
  "fixed_roles d e placement =
     [(td_TrashRoot d, tle_TrashRoot e), (td_Files d, tle_Files e), (td_Info d, tle_Info e)] @
     (if placement = TrashPlacementTopShared then [(td_SharedTop d, tle_SharedTop e)] else [])"

definition trash_requalifyLocked :: "root_inspector \<Rightarrow> root_lease option \<Rightarrow> trash_lease \<Rightarrow> process \<Rightarrow> (mount_error + unit) \<times> process" where
  "trash_requalifyLocked inspect root l p =
     (if root = None \<or> root_RootID root \<noteq> tl_rootID l then (Inl [MountErrDrifted], p)
      else unless_error (checks
          [trash_layout_expectation_validate (tl_expected l) (tl_placement l) (tl_ownerUID l),
           trash_descriptors_validate (tl_descriptors l) (tl_placement l)]) p
        (after_ok (root_requalifyWith inspect root p) (\<lambda>rootInspection p.
         after_ok (check_trash_roles inspect rootInspection (fixed_roles (tl_descriptors l) (tl_expected l) (tl_placement l)) p) (\<lambda>_ p.
           if topology_configured (tl_topology l)
           then unless_error (checks
               [trash_topology_validate (tl_topology l) (tl_placement l),
                validateTrashTopologyBinding (tl_topology l) (tl_expected l),
                trash_descriptors_validateTopology (tl_descriptors l) (tl_placement l)]) p
             (checkTrashDescriptor inspect rootInspection (td_Anchor (tl_descriptors l), tt_Anchor (tl_topology l)) p)
           else if td_Anchor (tl_descriptors l) \<noteq> -1 then (Inl [MountErrInvalidAuthority], p)
           else (Inr (), p)))))"

section \<open>The handoffs\<close>

text \<open>\<^verbatim>\<open>func(int) (int, error)\<close>: the number it returns counts even beside an error.\<close>

type_synonym duplicator = "int \<Rightarrow> process \<Rightarrow> (int \<times> errno option) \<times> process"

definition fcntl_duplicate :: "kernel_answers \<Rightarrow> duplicator" where
  "fcntl_duplicate K fd p = (case dup_cloexec K fd p of (Inl e, q) \<Rightarrow> ((-1, Some e), q) | (Inr n, q) \<Rightarrow> ((n, None), q))"

record trash_topology_set =
  ts_AnchorFD :: int
  ts_TrashRootFD :: int
  ts_FilesFD :: int
  ts_InfoFD :: int
  ts_SharedTopFD :: int

definition EmptyTrashTopologyDescriptorSet :: trash_topology_set where
  "EmptyTrashTopologyDescriptorSet = \<lparr> ts_AnchorFD = -1, ts_TrashRootFD = -1, ts_FilesFD = -1, ts_InfoFD = -1, ts_SharedTopFD = -1 \<rparr>"

definition set_descriptor_list :: "trash_topology_set \<Rightarrow> int list" where
  "set_descriptor_list s = [ts_AnchorFD s, ts_TrashRootFD s, ts_FilesFD s, ts_InfoFD s, ts_SharedTopFD s]"

definition topology_set_Close :: "kernel_answers \<Rightarrow> trash_topology_set \<Rightarrow> process \<Rightarrow> errno option \<times> trash_topology_set \<times> process" where
  "topology_set_Close K s p = (let (e, q) = close_entries K [] (set_descriptor_list s) p in (e, EmptyTrashTopologyDescriptorSet, q))"

definition validateTopologyDuplicateDescriptor :: "trash_lease \<Rightarrow> int \<Rightarrow> trash_topology_set \<Rightarrow> process \<Rightarrow> mount_error option" where
  "validateTopologyDuplicateDescriptor l fd s p = checks
     [check (\<not> fd < 3) [MountErrInvalidAuthority],
      check (fd \<notin> set (trash_descriptor_list (tl_descriptors l))) [MountErrInvalidAuthority],
      check (fd \<notin> set (set_descriptor_list s)) [MountErrInvalidAuthority],
      validateLeasedDirectoryFD fd p]"

definition closeRejectedTopologyDuplicate :: "kernel_answers \<Rightarrow> trash_lease \<Rightarrow> int \<Rightarrow> trash_topology_set \<Rightarrow> process \<Rightarrow> process" where
  "closeRejectedTopologyDuplicate K l fd s p =
     (if fd < 3 \<or> fd \<in> set (trash_descriptor_list (tl_descriptors l)) \<or> fd \<in> set (set_descriptor_list s) then p
      else snd (unix_Close K fd p))"

text \<open>The loop over the roles: a held descriptor and the field its duplicate goes to.\<close>

definition put_descriptor :: "nat \<Rightarrow> int \<Rightarrow> trash_topology_set \<Rightarrow> trash_topology_set" where
  "put_descriptor out n s =
     (if out = 0 then s \<lparr> ts_AnchorFD := n \<rparr> else if out = 1 then s \<lparr> ts_TrashRootFD := n \<rparr>
      else if out = 2 then s \<lparr> ts_FilesFD := n \<rparr> else if out = 3 then s \<lparr> ts_InfoFD := n \<rparr>
      else s \<lparr> ts_SharedTopFD := n \<rparr>)"

fun duplicate_roles ::
    "kernel_answers \<Rightarrow> duplicator \<Rightarrow> trash_lease \<Rightarrow> (int \<times> nat) list \<Rightarrow> trash_topology_set \<Rightarrow>
     process \<Rightarrow> (mount_error + trash_topology_set) \<times> process" where
  "duplicate_roles K duplicate l [] s p = (Inr s, p)"
| "duplicate_roles K duplicate l ((fd, out) # roles) s p =
     (case duplicate fd p of ((n, err), p) \<Rightarrow>
       (case (if err \<noteq> None then Some [] else validateTopologyDuplicateDescriptor l n s p) of
          Some e \<Rightarrow> (Inl e, snd (snd (topology_set_Close K s (closeRejectedTopologyDuplicate K l n s p))))
        | None \<Rightarrow> duplicate_roles K duplicate l roles (put_descriptor out n s) p))"

definition topology_roles :: "trash_lease \<Rightarrow> (int \<times> nat) list" where
  "topology_roles l = (let d = tl_descriptors l in
     [(td_Anchor d, 0), (td_TrashRoot d, 1), (td_Files d, 2), (td_Info d, 3)] @
     (if tl_placement l = TrashPlacementTopShared then [(td_SharedTop d, 4)] else []))"

definition duplicateTopologyWithFcntl ::
    "kernel_answers \<Rightarrow> root_inspector \<Rightarrow> duplicator \<Rightarrow> root_lease option \<Rightarrow> trash_lease option \<Rightarrow> process \<Rightarrow>
     (mount_error + trash_topology_set) \<times> process" where
  "duplicateTopologyWithFcntl K inspect duplicate root lease p =
     (case lease of
        None \<Rightarrow> (Inl [MountErrLeaseClosed], p)
      | Some l \<Rightarrow>
        if tl_closed l then (Inl [MountErrLeaseClosed], p)
        else if \<not> topology_configured (tl_topology l) then (Inl [MountErrUnsupported], p)
        else after_ok (trash_requalifyLocked inspect root l p) (\<lambda>_ p.
          duplicate_roles K duplicate l (topology_roles l) EmptyTrashTopologyDescriptorSet p))"

record trash_descriptor_pair =
  tp_FilesFD :: int
  tp_InfoFD :: int

definition pair_Close :: "kernel_answers \<Rightarrow> trash_descriptor_pair \<Rightarrow> process \<Rightarrow> errno option \<times> trash_descriptor_pair \<times> process" where
  "pair_Close K pair p =
     (let (e, q) = close_entries K [] [tp_FilesFD pair, tp_InfoFD pair] p in (e, \<lparr> tp_FilesFD = -1, tp_InfoFD = -1 \<rparr>, q))"

definition pair_reserved :: "trash_lease \<Rightarrow> int set" where
  "pair_reserved l = {td_TrashRoot (tl_descriptors l), td_Files (tl_descriptors l), td_Info (tl_descriptors l), td_SharedTop (tl_descriptors l)}"

definition validateDuplicateDescriptor :: "trash_lease \<Rightarrow> int \<Rightarrow> int \<Rightarrow> process \<Rightarrow> mount_error option" where
  "validateDuplicateDescriptor l fd pairedFD p = checks
     [check (\<not> fd < 3) [MountErrInvalidAuthority],
      check (fd \<noteq> pairedFD) [MountErrInvalidAuthority],
      check (fd \<notin> pair_reserved l) [MountErrInvalidAuthority],
      validateLeasedDirectoryFD fd p]"

definition closeRejectedDuplicate :: "kernel_answers \<Rightarrow> trash_lease \<Rightarrow> int \<Rightarrow> int \<Rightarrow> process \<Rightarrow> process" where
  "closeRejectedDuplicate K l fd pairedFD p =
     (if fd < 3 \<or> fd \<in> pair_reserved l then p else if fd = pairedFD then p else snd (unix_Close K fd p))"

text \<open>One duplication with its checks.\<close>

definition duplicate_checked ::
    "kernel_answers \<Rightarrow> duplicator \<Rightarrow> trash_lease \<Rightarrow> int \<Rightarrow> int \<Rightarrow> process \<Rightarrow> (mount_error + int) \<times> process" where
  "duplicate_checked K duplicate l fd pairedFD p =
     (case duplicate fd p of ((n, err), p) \<Rightarrow>
       (case (if err \<noteq> None then Some [] else validateDuplicateDescriptor l n pairedFD p) of
          Some e \<Rightarrow> (Inl e, closeRejectedDuplicate K l n pairedFD p)
        | None \<Rightarrow> (Inr n, p)))"

definition duplicateWithFcntl ::
    "kernel_answers \<Rightarrow> root_inspector \<Rightarrow> duplicator \<Rightarrow> root_lease option \<Rightarrow> trash_lease option \<Rightarrow> process \<Rightarrow>
     (mount_error + trash_descriptor_pair) \<times> process" where
  "duplicateWithFcntl K inspect duplicate root lease p =
     (case lease of
        None \<Rightarrow> (Inl [MountErrLeaseClosed], p)
      | Some l \<Rightarrow>
        if tl_closed l then (Inl [MountErrLeaseClosed], p)
        else after_ok (trash_requalifyLocked inspect root l p) (\<lambda>_ p.
          after_ok (duplicate_checked K duplicate l (td_Files (tl_descriptors l)) (-1) p) (\<lambda>files p.
          (case duplicate_checked K duplicate l (td_Info (tl_descriptors l)) files p of
             (Inl e, p) \<Rightarrow> (Inl e, snd (snd (pair_Close K \<lparr> tp_FilesFD = files, tp_InfoFD = -1 \<rparr> p)))
           | (Inr info, p) \<Rightarrow> (Inr \<lparr> tp_FilesFD = files, tp_InfoFD = info \<rparr>, p)))))"

definition trash_lease_Close :: "kernel_answers \<Rightarrow> trash_lease \<Rightarrow> process \<Rightarrow> errno option \<times> trash_lease \<times> process" where
  "trash_lease_Close K l p =
     (if tl_closed l then (None, l, p)
      else let (e, d, q) = trash_descriptors_Close K (tl_descriptors l) p in (e, l \<lparr> tl_closed := True, tl_descriptors := d \<rparr>, q))"

section \<open>Opening\<close>

text \<open>An opener hands over a bundle even beside an error.\<close>

type_synonym trash_opener = "process \<Rightarrow> (mount_error option \<times> trash_descriptors) \<times> process"

text \<open>The checks of \<^verbatim>\<open>openTrustedTrashWith\<close> on what the opener handed over, and the lease they give.\<close>

definition bundle_checks ::
    "root_inspector \<Rightarrow> mount_inspection \<Rightarrow> trash_configuration \<Rightarrow> mount_error option \<Rightarrow> trash_descriptors \<Rightarrow> trusted_root_id \<Rightarrow> process \<Rightarrow>
     (mount_error + trash_lease) \<times> process" where
  "bundle_checks inspect rootInspection a err d rootID p =
     unless_error err p
     (unless_error (trash_descriptors_validate d (tc_Placement a)) p
     (after_ok
       (if topology_configured (tc_Topology a)
        then unless_error (trash_descriptors_validateTopology d (tc_Placement a)) p
          (checkTrashDescriptor inspect rootInspection (td_Anchor d, tt_Anchor (tc_Topology a)) p)
        else if td_Anchor d \<noteq> -1 then (Inl [MountErrInvalidAuthority], p) else (Inr (), p)) (\<lambda>_ p.
      after_ok (check_trash_roles inspect rootInspection (fixed_roles d (tc_Expected a) (tc_Placement a)) p) (\<lambda>_ p.
      (Inr \<lparr> tl_root = Some rootID, tl_rootID = rootID, tl_placement = tc_Placement a, tl_ownerUID = tc_OwnerUID a,
         tl_metadata = tc_Metadata a, tl_topology = tc_Topology a, tl_expected = tc_Expected a,
         tl_descriptors = d, tl_closed = False \<rparr>, p)))))"

definition openTrustedTrashWith ::
    "kernel_answers \<Rightarrow> (trusted_root_id \<Rightarrow> (trash_configuration \<times> trash_opener) option) option \<Rightarrow> root_lease option \<Rightarrow>
     root_inspector \<Rightarrow> mount_error option \<Rightarrow> process \<Rightarrow> (mount_error + trash_lease) \<times> process" where
  "openTrustedTrashWith K registry root inspect kernelError p =
     (case registry of
        None \<Rightarrow> (Inl [MountErrInvalidAuthority], p)
      | Some lookup \<Rightarrow>
        if root = None then (Inl [MountErrLeaseClosed], p)
        else let rootID = root_RootID root in
          unless_error (invalid_root rootID) p
          (case lookup rootID of
             None \<Rightarrow> (Inl [MountErrUnknownTrash], p)
           | Some (a, opener) \<Rightarrow>
             unless_error (trash_configuration_validate a rootID) p
             (unless_error kernelError p
             (after_ok (root_requalifyWith inspect root p) (\<lambda>rootInspection p.
               (case opener p of ((err, d), p) \<Rightarrow>
                 (let (r, p) = bundle_checks inspect rootInspection a err d rootID p
                  in case r of
                      Inl e \<Rightarrow> (Inl e, snd (snd (trash_descriptors_Close K d p)))
                    | Inr lease \<Rightarrow> (Inr lease, p))))))))"

section \<open>Ownership of a bundle\<close>

definition held :: "int list \<Rightarrow> int set" where "held fds = {fd \<in> set fds. 0 \<le> fd}"

lemma held_simps [simp]: "held [] = {}" "held (fd # fds) = (if fd < 0 then held fds else insert fd (held fds))" "held (xs @ ys) = held xs \<union> held ys"
  by (auto simp: held_def)

text \<open>\<open>n\<close> is, after the call, a close-on-exec descriptor of what \<open>fd\<close> was before it.\<close>

definition transferred :: "process \<Rightarrow> process \<Rightarrow> int \<Rightarrow> int \<Rightarrow> bool" where
  "transferred p q fd n \<longleftrightarrow>
     (if fd < 0 then n = -1 else 3 \<le> n \<and> pr_open q n = map_option (\<lambda>d. d \<lparr> od_Flags := FD_CLOEXEC \<rparr>) (pr_open p fd))"

text \<open>The originals are gone, the results are new, and nothing else changed.\<close>

definition bundle_moved :: "process \<Rightarrow> process \<Rightarrow> int list \<Rightarrow> int list \<Rightarrow> bool" where
  "bundle_moved p q raw out \<longleftrightarrow> list_all2 (transferred p q) raw out \<and> distinct (filter ((\<le>) 0) out) \<and> pr_stray q = pr_stray p \<and>
     (\<forall>x \<in> held out. x \<in> held raw \<or> pr_open p x = None) \<and>
     (\<forall>x. x \<notin> held out \<longrightarrow> pr_open q x = (if x \<in> held raw then None else pr_open p x))"

lemma closeOwned_held:
  "\<forall>x \<in> held fds. pr_open p x \<noteq> None \<Longrightarrow> released (held fds) p (closeOwnedTrashDescriptors K fds p)"
  using closeOwned_released [of fds p K] by (simp add: held_def)

lemma distinct_held: "distinct (filter ((\<le>) 0) (xs @ ys)) \<Longrightarrow> held xs \<inter> held ys = {}"
  by (auto simp: held_def)

lemma closeOwned_two:
  assumes "\<forall>x \<in> held xs \<union> held ys. pr_open p x \<noteq> None" "held xs \<inter> held ys = {}"
  shows "released (held xs \<union> held ys) p (closeOwnedTrashDescriptors K xs (closeOwnedTrashDescriptors K ys p))"
proof -
  have one: "released (held ys) p (closeOwnedTrashDescriptors K ys p)" using assms(1) by (intro closeOwned_held) auto
  then have "\<forall>x \<in> held xs. pr_open (closeOwnedTrashDescriptors K ys p) x \<noteq> None"
    using assms by (auto simp: released_def)
  from released_trans [OF one closeOwned_held [OF this]] show ?thesis by (simp add: Un_commute)
qed

lemma bundle_moved_skip:
  "bundle_moved p q raw new \<Longrightarrow> fd < 0 \<Longrightarrow> bundle_moved p q (fd # raw) (-1 # new)"
  by (simp add: bundle_moved_def transferred_def)

text \<open>One descriptor moved from \<open>fd\<close> to \<open>n\<close>, then the rest.\<close>

lemma bundle_moved_step:
  assumes moved: "bundle_moved p2 q raw new" and open_fd: "pr_open p fd = Some d" and fd: "0 \<le> fd" "fd \<notin> held raw"
    and n: "3 \<le> n" "pr_open p n = None" "n \<notin> held new" and raw: "\<forall>x \<in> held raw. pr_open p x \<noteq> None"
    and p2: "pr_open p2 = ((pr_open p)(n \<mapsto> d \<lparr> od_Flags := FD_CLOEXEC \<rparr>))(fd := None)" "pr_stray p2 = pr_stray p"
  shows "bundle_moved p q (fd # raw) (n # new)"
proof -
  have ne: "n \<noteq> fd" using open_fd n(2) by auto
  have n_raw: "n \<notin> held raw" using raw n(2) by auto
  have rest: "\<forall>x \<in> held raw. pr_open p2 x = pr_open p x" using fd n_raw by (auto simp: p2)
  have "list_all2 (transferred p2 q) raw new" using moved by (simp add: bundle_moved_def)
  then have all: "list_all2 (transferred p q) raw new"
    by (rule list.rel_mono_strong) (use rest in \<open>auto simp: transferred_def held_def split: if_splits\<close>)
  have "pr_open q n = Some (d \<lparr> od_Flags := FD_CLOEXEC \<rparr>)"
    using moved n n_raw ne by (simp add: bundle_moved_def p2)
  then have one: "transferred p q fd n" using fd n open_fd by (simp add: transferred_def)
  have dist: "distinct (filter ((\<le>) 0) (n # new))" using moved n by (auto simp: bundle_moved_def held_def)
  have fresh: "\<forall>x \<in> held (n # new). x \<in> held (fd # raw) \<or> pr_open p x = None"
  proof
    fix x assume x: "x \<in> held (n # new)"
    have m: "x \<in> held raw \<or> pr_open p2 x = None" if "x \<in> held new" using that moved by (simp add: bundle_moved_def)
    show "x \<in> held (fd # raw) \<or> pr_open p x = None"
    proof (cases "x = n")
      case False
      with x n have "x \<in> held new" by auto
      with m False fd show ?thesis by (cases "x = fd") (auto simp: p2)
    qed (use n in simp)
  qed
  have other: "pr_open q x = (if x \<in> held (fd # raw) then None else pr_open p x)" if "x \<notin> held (n # new)" for x
    using that moved n fd by (auto simp: bundle_moved_def p2)
  show ?thesis
    unfolding bundle_moved_def using one all dist fresh other moved p2(2) by (simp add: bundle_moved_def)
qed

lemma normalize_moved:
  "fresh_duplicates K \<Longrightarrow> distinct (filter ((\<le>) 0) (normalized @ raw)) \<Longrightarrow> \<forall>x \<in> held normalized \<union> held raw. pr_open p x \<noteq> None \<Longrightarrow>
    normalize_raw K normalized raw p = (r, q) \<Longrightarrow>
    (case r of
       Inl _ \<Rightarrow> released (held normalized \<union> held raw) p q
     | Inr out \<Rightarrow> \<exists>new. out = normalized @ new \<and> bundle_moved p q raw new \<and> held normalized \<inter> held new = {})"
proof (induction raw arbitrary: normalized p)
  case (Cons fd raw)
  show ?case
  proof (cases "fd < 0")
    case True
    with Cons.prems have "case r of Inl _ \<Rightarrow> released (held (normalized @ [-1]) \<union> held raw) p q
      | Inr out \<Rightarrow> \<exists>new. out = (normalized @ [-1]) @ new \<and> bundle_moved p q raw new \<and> held (normalized @ [-1]) \<inter> held new = {}"
      by (intro Cons.IH) auto
    with True show ?thesis by (auto split: sum.splits intro: bundle_moved_skip)
  next
    case False
    obtain a p1 where dup: "dup_cloexec K fd p = (a, p1)" by fastforce
    have disjoint: "held normalized \<inter> held (fd # raw) = {}" using Cons.prems(2) by (rule distinct_held)
    have fd_raw: "fd \<notin> held raw" and fd_norm: "fd \<notin> held normalized" using Cons.prems(2) False by (auto simp: held_def)
    show ?thesis
    proof (cases a)
      case (Inl e)
      with dup dup_cloexec_Inl have p1: "pr_open p1 = pr_open p" "pr_stray p1 = pr_stray p" by blast+
      then have "released (held normalized \<union> held (fd # raw)) p1
          (closeOwnedTrashDescriptors K normalized (closeOwnedTrashDescriptors K (fd # raw) p1))"
        using Cons.prems(3) disjoint by (intro closeOwned_two) auto
      with p1 Cons.prems(4) False Inl dup show ?thesis by (auto simp: released_def fun_eq_iff)
    next
      case (Inr n)
      from dup_cloexec_Inr [OF Cons.prems(1) dup [unfolded Inr]] obtain d where d: "pr_open p fd = Some d" "pr_open p n = None" "3 \<le> n"
        "pr_open p1 = (pr_open p)(n \<mapsto> d \<lparr> od_Flags := FD_CLOEXEC \<rparr>)" "pr_stray p1 = pr_stray p" by blast
      have all_open: "\<forall>x \<in> held normalized. pr_open p x \<noteq> None" "\<forall>x \<in> held raw. pr_open p x \<noteq> None"
        using Cons.prems(3) False by simp_all
      have n_new: "n \<notin> held raw" "n \<notin> held normalized" "n \<noteq> fd" using all_open d(1,2) by auto
      obtain ce p2 where close: "unix_Close K fd p1 = (ce, p2)" by fastforce
      have p2: "pr_open p2 = (pr_open p1)(fd := None)" "pr_stray p2 = pr_stray p"
        using unix_Close_released [of p1 fd K] d close n_new by (auto simp: released_def fun_eq_iff)
      show ?thesis
      proof (cases ce)
        case (Some e)
        have "released (held (normalized @ [n]) \<union> held raw) p2
            (closeOwnedTrashDescriptors K (normalized @ [n]) (closeOwnedTrashDescriptors K raw p2))"
          using Cons.prems(3) disjoint n_new fd_raw fd_norm d(3) by (intro closeOwned_two) (auto simp: p2 d(4))
        with Cons.prems(4) False Inr dup close Some d(2-) n_new show ?thesis by (auto simp: released_def p2 fun_eq_iff)
      next
        case None
        with Cons.prems(4) False Inr dup close have run: "normalize_raw K (normalized @ [n]) raw p2 = (r, q)" by simp
        have "distinct (filter ((\<le>) 0) ((normalized @ [n]) @ raw))"
          using Cons.prems(2) n_new d(3) False by (auto simp: held_def)
        moreover have "\<forall>x \<in> held (normalized @ [n]) \<union> held raw. pr_open p2 x \<noteq> None"
          using Cons.prems(3) n_new fd_raw fd_norm d by (auto simp: p2)
        ultimately have rest: "case r of Inl _ \<Rightarrow> released (held (normalized @ [n]) \<union> held raw) p2 q
          | Inr out \<Rightarrow> \<exists>new. out = (normalized @ [n]) @ new \<and> bundle_moved p2 q raw new \<and> held (normalized @ [n]) \<inter> held new = {}"
          using Cons.IH [OF Cons.prems(1) _ _ run] by blast
        show ?thesis
        proof (cases r)
          case (Inl e)
          with rest d n_new False show ?thesis by (auto simp: released_def p2 fun_eq_iff)
        next
          case (Inr out)
          with rest obtain new where new: "out = normalized @ n # new" "bundle_moved p2 q raw new" "held (normalized @ [n]) \<inter> held new = {}"
            by auto
          have "bundle_moved p q (fd # raw) (n # new)"
            by (rule bundle_moved_step [OF new(2) d(1) _ fd_raw d(3,2)])
              (use False new(3) d Cons.prems(3) in \<open>auto simp: p2\<close>)
          with new n_new d(3) Inr show ?thesis by auto
        qed
      qed
    qed
  qed
qed (auto simp: bundle_moved_def)

lemma raw_refused_False:
  "\<not> raw_descriptors_refused before raw \<Longrightarrow> (\<forall>fd \<in> set raw. -1 \<le> fd) \<and> distinct (filter ((\<le>) 0) raw) \<and> set before \<inter> held raw = {}"
  by (induction before raw rule: raw_descriptors_refused.induct) (auto simp: held_def)

text \<open>
  C10: the constructor of a Trash bundle takes over its descriptors whole. On any failure, a refused argument, a
  failed duplication or a failed close, exactly the descriptors handed in are released, those already duplicated
  included, and none twice. On success each role is a close-on-exec duplicate, from 3 on, of the directory handed in
  for it, no two roles share one, the originals are released and the rest of the table is untouched.
\<close>

theorem bundle_constructor_owned:
  assumes "fresh_duplicates K" and "\<forall>fd \<in> held [anchor, trashRoot, files, info, sharedTop]. pr_open p fd \<noteq> None"
    and "newTrashDescriptors K anchor trashRoot files info sharedTop p = (r, q)"
  shows "case r of
      Inl _ \<Rightarrow> released (held [anchor, trashRoot, files, info, sharedTop]) p q
    | Inr d \<Rightarrow> td_normalized d \<and> bundle_moved p q [anchor, trashRoot, files, info, sharedTop] (trash_descriptor_list d)"
proof -
  define raw where "raw = [anchor, trashRoot, files, info, sharedTop]"
  have run: "(if raw_descriptors_refused [] raw then (Inl [MountErrInvalidAuthority], closeOwnedTrashDescriptors K raw p)
      else after_ok (normalize_raw K [] raw p) (\<lambda>normalized p. (Inr (descriptors_of normalized), p))) = (r, q)"
    using assms(3) by (simp only: newTrashDescriptors_def Let_def raw_def)
  note all_open = assms(2) [folded raw_def]
  have "case r of Inl _ \<Rightarrow> released (held raw) p q | Inr d \<Rightarrow> td_normalized d \<and> bundle_moved p q raw (trash_descriptor_list d)"
  proof (cases "raw_descriptors_refused [] raw")
    case True
    with run closeOwned_held [OF all_open] show ?thesis by auto
  next
    case False
    obtain s p1 where s: "normalize_raw K [] raw p = (s, p1)" by fastforce
    from raw_refused_False [OF False] have distinct: "distinct (filter ((\<le>) 0) ([] @ raw))" by simp
    from normalize_moved [OF assms(1) distinct _ s] all_open
    have moved: "case s of Inl _ \<Rightarrow> released (held raw) p p1 | Inr out \<Rightarrow> bundle_moved p p1 raw out" by (cases s) simp_all
    show ?thesis
    proof (cases s)
      case (Inl e)
      with run False s moved show ?thesis by auto
    next
      case (Inr out)
      with moved have out: "bundle_moved p p1 raw out" by simp
      then have "list_all2 (transferred p p1) [anchor, trashRoot, files, info, sharedTop] out" by (simp only: bundle_moved_def raw_def)
      then obtain a b c d e where "out = [a, b, c, d, e]" by (auto simp: list_all2_Cons1)
      then have "trash_descriptor_list (descriptors_of out) = out" by (simp add: descriptors_of_def trash_descriptor_list_def)
      with run False s Inr out show ?thesis by (auto simp: descriptors_of_def)
    qed
  qed
  then show ?thesis by (simp only: raw_def)
qed

section \<open>Requalified roles\<close>

lemma checkTrashDescriptor_same: "same_table p (snd (checkTrashDescriptor inspect rootInspection role p))"
  by (cases role) (auto simp: checkTrashDescriptor_def intro!: unless_error_same after_ok_same dest: same_table_trans)

lemma check_trash_roles_same: "same_table p (snd (check_trash_roles inspect rootInspection roles p))"
proof (induction roles arbitrary: p)
  case (Cons role roles)
  show ?case unfolding check_trash_roles.simps
    by (rule after_ok_same [OF checkTrashDescriptor_same]) (rule same_table_trans [OF _ Cons.IH])
qed simp

lemma trash_requalify_same: "same_table p (snd (trash_requalifyLocked inspect root l p))"
proof -
  have tail: "same_table p (snd (if topology_configured (tl_topology l)
           then unless_error e q (checkTrashDescriptor inspect i role q)
           else if b then (Inl x, q) else (Inr (), q)))" if "same_table p q" for e q i role x b
    using that unless_error_same [OF that same_table_trans [OF that checkTrashDescriptor_same [of q inspect i role]]] by simp
  show ?thesis
    unfolding trash_requalifyLocked_def
    by (auto intro!: unless_error_same after_ok_same tail intro: same_table_trans [OF _ check_trash_roles_same])
qed

text \<open>A role that passed: an open directory, inspected and in agreement with its expectation.\<close>

definition role_admitted ::
    "root_inspector \<Rightarrow> process \<Rightarrow> mount_inspection \<Rightarrow> int \<times> layout_expectation \<Rightarrow> bool" where
  "role_admitted inspect p rootInspection role \<longleftrightarrow> (case role of (fd, expected) \<Rightarrow> 3 \<le> fd \<and>
     (\<exists>d. pr_open p fd = Some d \<and> leasable d) \<and>
     (\<exists>n i. inspect fd n = Inr i \<and> layout_qualified expected rootInspection i = None))"

lemma checkTrashDescriptor_Inr:
  "checkTrashDescriptor inspect rootInspection role p = (Inr u, q) \<Longrightarrow> role_admitted inspect p rootInspection role \<and> same_table p q"
  using checkTrashDescriptor_same [of p inspect rootInspection role]
  by (auto simp: checkTrashDescriptor_def role_admitted_def unless_error_Inr after_ok_Inr call_inspect_Inr validateLeasedDirectoryFD_None
      split: prod.splits if_splits)

lemma role_admitted_same: "same_table p q \<Longrightarrow> role_admitted inspect q = role_admitted inspect p"
  by (simp add: role_admitted_def same_table_def fun_eq_iff)

lemma check_trash_roles_Inr:
  "check_trash_roles inspect rootInspection roles p = (Inr u, q) \<Longrightarrow>
   (\<forall>role \<in> set roles. role_admitted inspect p rootInspection role) \<and> same_table p q"
proof (induction roles arbitrary: p)
  case (Cons role roles)
  then obtain v p1 where one: "checkTrashDescriptor inspect rootInspection role p = (Inr v, p1)"
    and rest: "check_trash_roles inspect rootInspection roles p1 = (Inr u, q)"
    by (auto simp: after_ok_Inr)
  note first = checkTrashDescriptor_Inr [OF one]
  with Cons.IH [OF rest] show ?case
    by (auto simp: role_admitted_same intro: same_table_trans)
qed simp

text \<open>All descriptors of a lease whose requalification passed.\<close>

definition all_roles :: "trash_lease \<Rightarrow> (int \<times> layout_expectation) list" where
  "all_roles l = fixed_roles (tl_descriptors l) (tl_expected l) (tl_placement l) @
     (if topology_configured (tl_topology l) then [(td_Anchor (tl_descriptors l), tt_Anchor (tl_topology l))] else [])"

lemma descriptors_valid:
  "trash_descriptors_validate d placement = None \<Longrightarrow> placement = TrashPlacementTopShared \<or> td_SharedTop d = -1"
  by (auto simp: trash_descriptors_validate_def Let_def split: option.splits if_splits)

lemma trash_requalify_Inr:
  assumes "trash_requalifyLocked inspect root l p = (Inr u, q)"
  shows "\<exists>h i. root = Some h \<and> rl_rootID h = tl_rootID l \<and> \<not> rl_closed h \<and> inspect (rl_fd h) (pr_calls p) = Inr i \<and>
      root_qualified (rl_expected h) i = None \<and> (\<forall>role \<in> set (all_roles l). role_admitted inspect p i role) \<and>
      trash_descriptors_validate (tl_descriptors l) (tl_placement l) = None \<and>
      (topology_configured (tl_topology l) \<or> td_Anchor (tl_descriptors l) = -1)"
    and "same_table p q"
proof -
  from assms obtain i p1 p2 v where root: "root \<noteq> None" "root_RootID root = tl_rootID l"
    and valid: "trash_descriptors_validate (tl_descriptors l) (tl_placement l) = None"
    and i: "root_requalifyWith inspect root p = (Inr i, p1)"
    and roles: "check_trash_roles inspect i (fixed_roles (tl_descriptors l) (tl_expected l) (tl_placement l)) p1 = (Inr v, p2)"
    and tail: "(if topology_configured (tl_topology l)
           then unless_error (checks
               [trash_topology_validate (tl_topology l) (tl_placement l),
                validateTrashTopologyBinding (tl_topology l) (tl_expected l),
                trash_descriptors_validateTopology (tl_descriptors l) (tl_placement l)]) p2
             (checkTrashDescriptor inspect i (td_Anchor (tl_descriptors l), tt_Anchor (tl_topology l)) p2)
           else if td_Anchor (tl_descriptors l) \<noteq> -1 then (Inl [MountErrInvalidAuthority], p2)
           else (Inr (), p2)) = (Inr u, q)"
    unfolding trash_requalifyLocked_def by (auto simp: unless_error_Inr after_ok_Inr checks_Cons split: if_splits)
  from requalify_Inr [OF i] obtain h where h: "root = Some h" "\<not> rl_closed h" "inspect (rl_fd h) (pr_calls p) = Inr i"
    "root_qualified (rl_expected h) i = None" and p1: "same_table p p1" by auto
  note r = check_trash_roles_Inr [OF roles]
  have p2: "same_table p p2" using p1 r by (blast intro: same_table_trans)
  have anchor: "topology_configured (tl_topology l) \<longrightarrow>
      role_admitted inspect p i (td_Anchor (tl_descriptors l), tt_Anchor (tl_topology l))"
    using tail checkTrashDescriptor_Inr [of inspect i "(td_Anchor (tl_descriptors l), tt_Anchor (tl_topology l))" p2 u q]
    by (auto simp: unless_error_Inr role_admitted_same [OF p2])
  have "\<forall>role \<in> set (all_roles l). role_admitted inspect p i role"
    using r anchor by (auto simp: all_roles_def role_admitted_same [OF p1])
  with h root valid tail show "\<exists>h i. root = Some h \<and> rl_rootID h = tl_rootID l \<and> \<not> rl_closed h \<and> inspect (rl_fd h) (pr_calls p) = Inr i \<and>
      root_qualified (rl_expected h) i = None \<and> (\<forall>role \<in> set (all_roles l). role_admitted inspect p i role) \<and>
      trash_descriptors_validate (tl_descriptors l) (tl_placement l) = None \<and>
      (topology_configured (tl_topology l) \<or> td_Anchor (tl_descriptors l) = -1)"
    by (intro exI [of _ h] exI [of _ i]) (auto simp: root_RootID_def split: if_splits)
  show "same_table p q" using trash_requalify_same [of p inspect root l] by (simp add: assms)
qed

lemma authority_open:
  assumes "trash_requalifyLocked inspect root l p = (Inr u, q)"
  shows "\<forall>x \<in> set (trash_descriptor_list (tl_descriptors l)). x = -1 \<or> (3 \<le> x \<and> pr_open q x \<noteq> None)"
proof -
  from trash_requalify_Inr [OF assms] obtain i where roles: "\<forall>role \<in> set (all_roles l). role_admitted inspect p i role"
    and rest: "trash_descriptors_validate (tl_descriptors l) (tl_placement l) = None"
      "topology_configured (tl_topology l) \<or> td_Anchor (tl_descriptors l) = -1" "same_table p q" by blast
  from roles have open_fds: "\<forall>x \<in> fst ` set (all_roles l). 3 \<le> x \<and> pr_open q x \<noteq> None"
    using rest(3) by (auto simp: role_admitted_def same_table_def)
  from open_fds descriptors_valid [OF rest(1)] rest(2) show ?thesis
    by (auto simp: all_roles_def fixed_roles_def trash_descriptor_list_def split: if_splits)
qed

section \<open>Ownership of the handoffs\<close>

definition handles :: "int list \<Rightarrow> int set" where "handles fds = {x \<in> set fds. 3 \<le> x}"

text \<open>\<open>q\<close> is \<open>p\<close> with the new descriptors \<open>H\<close>.\<close>

definition extends :: "process \<Rightarrow> int set \<Rightarrow> process \<Rightarrow> bool" where
  "extends p H q \<longleftrightarrow> (\<forall>x. x \<notin> H \<longrightarrow> pr_open q x = pr_open p x) \<and>
     (\<forall>x \<in> H. 3 \<le> x \<and> pr_open p x = None \<and> pr_open q x \<noteq> None) \<and> pr_stray q = pr_stray p"

text \<open>\<open>n\<close> is a new close-on-exec descriptor of the directory of \<open>fd\<close>.\<close>

definition lent :: "process \<Rightarrow> process \<Rightarrow> int \<Rightarrow> int \<Rightarrow> bool" where
  "lent p q fd n \<longleftrightarrow> 3 \<le> n \<and> pr_open p n = None \<and>
     (\<exists>d. pr_open p fd = Some d \<and> pr_open q n = Some (d \<lparr> od_Flags := FD_CLOEXEC \<rparr>))"

lemma extends_close: "extends p (handles fds) q \<Longrightarrow> same_table p (snd (close_entries K [] fds q))"
  using close_entries_released [of fds "[]" q K]
  by (auto simp: extends_def handles_def released_def same_table_def fun_eq_iff)

lemma extends_same: "same_table q q' \<Longrightarrow> extends p H q' = extends p H q"
  by (simp add: extends_def same_table_def)

lemma fcntl_duplicate_cases:
  assumes "fresh_duplicates K" "fcntl_duplicate K fd p = ((n, err), q)"
  obtains (failed) "n = -1" "err \<noteq> None" "same_table p q"
    | (lent) d where "err = None" "pr_open p fd = Some d" "pr_open p n = None" "3 \<le> n"
        "pr_open q = (pr_open p)(n \<mapsto> d \<lparr> od_Flags := FD_CLOEXEC \<rparr>)" "pr_stray q = pr_stray p"
proof (cases "dup_cloexec K fd p")
  case (Pair r q')
  show thesis
  proof (cases r)
    case (Inl e)
    with Pair assms(2) dup_cloexec_Inl [of K fd p e q'] show thesis
      by (intro failed) (auto simp: fcntl_duplicate_def same_table_def)
  next
    case (Inr m)
    from dup_cloexec_Inr [OF assms(1) Pair [unfolded Inr]] obtain d where "pr_open p fd = Some d" "pr_open p m = None" "3 \<le> m"
      "pr_open q' = (pr_open p)(m \<mapsto> d \<lparr> od_Flags := FD_CLOEXEC \<rparr>)" "pr_stray q' = pr_stray p" by blast
    with Pair Inr assms(2) show thesis by (intro lent [of d]) (auto simp: fcntl_duplicate_def)
  qed
qed

lemma put_descriptor_list:
  "out < 5 \<Longrightarrow> set_descriptor_list (put_descriptor out n s) = (set_descriptor_list s)[out := n]"
proof -
  assume "out < 5"
  then consider "out = 0" | "out = 1" | "out = 2" | "out = 3" | "out = 4" by linarith
  then show ?thesis by cases (simp_all add: put_descriptor_def set_descriptor_list_def)
qed

lemma length_set_list [simp]: "length (set_descriptor_list s) = 5"
  by (simp add: set_descriptor_list_def)

lemma set_update_free:
  assumes "i < length xs" "xs ! i = -1" "3 \<le> n"
  shows "handles (xs[i := n]) = insert n (handles xs)"
proof -
  obtain a b where xs: "xs = a @ -1 # b" "length a = i" using assms(1,2) using id_take_nth_drop [of i xs] by (metis length_take less_or_eq_imp_le min.absorb2)
  have "xs[i := n] = a @ n # b" unfolding xs(2) [symmetric] unfolding xs(1) by simp
  then show ?thesis using assms(3) by (auto simp: handles_def xs(1))
qed

text \<open>What the loop keeps: \<open>s\<close> holds what was duplicated so far, the fields of the remaining roles are free.\<close>

definition handoff_state :: "process \<Rightarrow> trash_lease \<Rightarrow> (int \<times> nat) list \<Rightarrow> trash_topology_set \<Rightarrow> process \<Rightarrow> bool" where
  "handoff_state p0 l roles s p \<longleftrightarrow> extends p0 (handles (set_descriptor_list s)) p \<and>
     (\<forall>x \<in> set (trash_descriptor_list (tl_descriptors l)). x = -1 \<or> (3 \<le> x \<and> pr_open p0 x \<noteq> None)) \<and>
     distinct (map snd roles) \<and> (\<forall>(fd, out) \<in> set roles. out < 5 \<and> set_descriptor_list s ! out = -1 \<and> pr_open p0 fd \<noteq> None)"

lemma handoff_step:
  assumes state: "handoff_state p0 l ((fd, out) # roles) s p"
    and d: "pr_open p fd = Some d" "pr_open p n = None" "3 \<le> n" "pr_open q = (pr_open p)(n \<mapsto> d \<lparr> od_Flags := FD_CLOEXEC \<rparr>)" "pr_stray q = pr_stray p"
  shows "handoff_state p0 l roles (put_descriptor out n s) q" and "lent p0 q fd n" and "n \<notin> handles (set_descriptor_list s)"
proof -
  have out: "out < 5" "set_descriptor_list s ! out = -1" "pr_open p0 fd \<noteq> None" and other: "out \<notin> snd ` set roles"
    and ext: "extends p0 (handles (set_descriptor_list s)) p"
    using state by (auto simp: handoff_state_def)
  show n: "n \<notin> handles (set_descriptor_list s)" using ext d(2) by (auto simp: extends_def)
  have h: "handles (set_descriptor_list (put_descriptor out n s)) = insert n (handles (set_descriptor_list s))"
    using out d(3) by (simp add: put_descriptor_list set_update_free)
  have n0: "pr_open p0 n = None" using ext n d(2) by (simp add: extends_def)
  have "extends p0 (insert n (handles (set_descriptor_list s))) q"
    using ext n n0 d(3-5) by (auto simp: extends_def)
  moreover have "\<forall>(fd', i) \<in> set roles. i < 5 \<and> (set_descriptor_list s)[out := n] ! i = -1 \<and> pr_open p0 fd' \<noteq> None"
  proof (clarify)
    fix fd' i assume "(fd', i) \<in> set roles"
    with state other show "i < 5 \<and> (set_descriptor_list s)[out := n] ! i = -1 \<and> pr_open p0 fd' \<noteq> None"
      by (cases "i = out") (force simp: handoff_state_def)+
  qed
  ultimately show "handoff_state p0 l roles (put_descriptor out n s) q"
    using state out(1) unfolding handoff_state_def h by (simp add: put_descriptor_list)
  have "fd \<notin> handles (set_descriptor_list s)" using ext out(3) by (auto simp: extends_def)
  with ext d n0 show "lent p0 q fd n" by (auto simp: lent_def extends_def)
qed

lemma distinct_update_free:
  assumes "i < length xs" "xs ! i = -1" "3 \<le> n" "n \<notin> handles xs" "distinct (filter ((\<le>) 3) xs)"
  shows "distinct (filter ((\<le>) 3) (xs[i := n]))"
proof -
  obtain a b where xs: "xs = a @ -1 # b" "length a = i"
    using assms(1,2) id_take_nth_drop [of i xs] by (metis length_take less_or_eq_imp_le min.absorb2)
  have "xs[i := n] = a @ n # b" unfolding xs(2) [symmetric] unfolding xs(1) by simp
  then show ?thesis using assms(3-) by (auto simp: handles_def xs(1))
qed

text \<open>The outcome of the loop, seen from the table before it.\<close>

definition handoff_done :: "process \<Rightarrow> (int \<times> nat) list \<Rightarrow> trash_topology_set \<Rightarrow> process \<Rightarrow> trash_topology_set \<Rightarrow> process \<Rightarrow> bool" where
  "handoff_done p0 roles s p t q \<longleftrightarrow> extends p0 (handles (set_descriptor_list t)) q \<and>
     (\<forall>(fd, out) \<in> set roles. lent p0 q fd (set_descriptor_list t ! out)) \<and>
     (\<forall>i < 5. i \<notin> snd ` set roles \<longrightarrow> set_descriptor_list t ! i = set_descriptor_list s ! i) \<and>
     (\<forall>x \<in> handles (set_descriptor_list s). pr_open q x = pr_open p x) \<and>
     (distinct (filter ((\<le>) 3) (set_descriptor_list s)) \<longrightarrow> distinct (filter ((\<le>) 3) (set_descriptor_list t)))"

lemma handoff_done_step:
  assumes state: "handoff_state p0 l ((fd, out) # roles) s p"
    and d: "pr_open p fd = Some d" "pr_open p n = None" "3 \<le> n" "pr_open p1 = (pr_open p)(n \<mapsto> d \<lparr> od_Flags := FD_CLOEXEC \<rparr>)" "pr_stray p1 = pr_stray p"
    and tail: "handoff_done p0 roles (put_descriptor out n s) p1 t q"
  shows "handoff_done p0 ((fd, out) # roles) s p t q"
proof -
  note step = handoff_step [OF state d]
  have out: "out < 5" "set_descriptor_list s ! out = -1" "out \<notin> snd ` set roles" using state by (auto simp: handoff_state_def)
  have s': "set_descriptor_list (put_descriptor out n s) = (set_descriptor_list s)[out := n]" using out(1) by (rule put_descriptor_list)
  have h: "handles ((set_descriptor_list s)[out := n]) = insert n (handles (set_descriptor_list s))"
    using out d(3) by (simp add: set_update_free)
  have keep: "\<forall>x \<in> insert n (handles (set_descriptor_list s)). pr_open q x = pr_open p1 x"
    using tail unfolding handoff_done_def s' h by blast
  have slot: "set_descriptor_list t ! out = n"
    using tail out unfolding handoff_done_def s' by simp
  have one: "lent p0 q fd (set_descriptor_list t ! out)"
    using step(2) keep unfolding slot by (auto simp: lent_def)
  have free: "\<forall>i < 5. i \<notin> snd ` set ((fd, out) # roles) \<longrightarrow> set_descriptor_list t ! i = set_descriptor_list s ! i"
    using tail unfolding handoff_done_def s' by auto
  have same: "\<forall>x \<in> handles (set_descriptor_list s). pr_open q x = pr_open p x"
    using keep step(3) by (auto simp: d(4))
  have dist: "distinct (filter ((\<le>) 3) (set_descriptor_list s)) \<longrightarrow> distinct (filter ((\<le>) 3) (set_descriptor_list t))"
    using tail distinct_update_free [of out "set_descriptor_list s" n] out d(3) step(3) unfolding handoff_done_def s' by simp
  show ?thesis using tail one free same dist unfolding handoff_done_def by auto
qed

lemma topology_set_Close_extends:
  "extends p0 (handles (set_descriptor_list s)) p \<Longrightarrow> same_table p0 (snd (snd (topology_set_Close K s p)))"
  using extends_close [of p0 "set_descriptor_list s" p K] by (auto simp: topology_set_Close_def Let_def split: prod.splits)

lemma duplicate_roles_owned:
  assumes fresh: "fresh_duplicates K"
  shows "handoff_state p0 l roles s p \<Longrightarrow> duplicate_roles K (fcntl_duplicate K) l roles s p = (r, q) \<Longrightarrow>
    (case r of Inl _ \<Rightarrow> same_table p0 q | Inr t \<Rightarrow> handoff_done p0 roles s p t q)"
proof (induction roles arbitrary: s p)
  case (Cons role roles)
  obtain fd out where role: "role = (fd, out)" by fastforce
  obtain n err p1 where dup: "fcntl_duplicate K fd p = ((n, err), p1)" by (metis prod.exhaust)
  note state = Cons.prems(1) [unfolded role]
  have ext: "extends p0 (handles (set_descriptor_list s)) p" using state by (simp add: handoff_state_def)
  from fresh dup show ?case
  proof (cases rule: fcntl_duplicate_cases)
    case failed
    then have "r = Inl []" "q = snd (snd (topology_set_Close K s p1))"
      using Cons.prems(2) dup by (auto simp: role closeRejectedTopologyDuplicate_def)
    moreover have "extends p0 (handles (set_descriptor_list s)) p1" using ext extends_same [OF failed(3)] by simp
    ultimately show ?thesis by (simp add: topology_set_Close_extends)
  next
    case (lent d)
    note step = handoff_step [OF state lent(2-6)]
    show ?thesis
    proof (cases "validateTopologyDuplicateDescriptor l n s p1")
      case None
      with lent(1) Cons.prems(2) dup have "duplicate_roles K (fcntl_duplicate K) l roles (put_descriptor out n s) p1 = (r, q)"
        by (simp add: role)
      from Cons.IH [OF step(1) this] show ?thesis
        using handoff_done_step [OF state lent(2-6)] by (cases r) (simp_all add: role)
    next
      case (Some e)
      have "\<forall>x \<in> set (trash_descriptor_list (tl_descriptors l)). x = -1 \<or> (3 \<le> x \<and> pr_open p0 x \<noteq> None)"
        using state by (simp add: handoff_state_def)
      moreover have "pr_open p0 n = None" using step(2) by (simp add: lent_def)
      ultimately have auth: "n \<notin> set (trash_descriptor_list (tl_descriptors l))" using lent(4) by force
      have set: "n \<notin> set (set_descriptor_list s)" using step(3) lent(4) by (simp add: handles_def)
      have run: "r = Inl e" "q = snd (snd (topology_set_Close K s (snd (unix_Close K n p1))))"
        using Some Cons.prems(2) dup lent(1,4) auth set by (auto simp: role closeRejectedTopologyDuplicate_def)
      have "pr_open p1 n \<noteq> None" by (simp add: lent(5))
      from unix_Close_released [OF this, of K] have "same_table p (snd (unix_Close K n p1))"
        using lent(3,5,6) by (auto simp: released_def same_table_def fun_eq_iff)
      from extends_same [OF this] ext have "extends p0 (handles (set_descriptor_list s)) (snd (unix_Close K n p1))" by simp
      with run show ?thesis by (simp add: topology_set_Close_extends)
    qed
  qed
qed (auto simp: handoff_done_def handoff_state_def)

lemma topology_roles_fds:
  "topology_configured (tl_topology l) \<Longrightarrow> fst ` set (topology_roles l) = fst ` set (all_roles l)"
  by (auto simp: topology_roles_def all_roles_def fixed_roles_def Let_def)

text \<open>What the finished loop says of each field of the set.\<close>

lemma empty_set_list: "set_descriptor_list EmptyTrashTopologyDescriptorSet = [-1, -1, -1, -1, -1]"
  by (simp add: set_descriptor_list_def EmptyTrashTopologyDescriptorSet_def)

lemma handoff_done_fields:
  assumes "handoff_done p (topology_roles l) EmptyTrashTopologyDescriptorSet p1 s q"
  shows "lent p q (td_Anchor (tl_descriptors l)) (ts_AnchorFD s)" "lent p q (td_TrashRoot (tl_descriptors l)) (ts_TrashRootFD s)"
    "lent p q (td_Files (tl_descriptors l)) (ts_FilesFD s)" "lent p q (td_Info (tl_descriptors l)) (ts_InfoFD s)"
    "if tl_placement l = TrashPlacementTopShared then lent p q (td_SharedTop (tl_descriptors l)) (ts_SharedTopFD s)
     else ts_SharedTopFD s = -1"
    "distinct (filter ((\<le>) 3) (set_descriptor_list s))" "extends p (handles (set_descriptor_list s)) q"
proof -
  have slots: "set_descriptor_list s ! 0 = ts_AnchorFD s" "set_descriptor_list s ! Suc 0 = ts_TrashRootFD s" "set_descriptor_list s ! 2 = ts_FilesFD s"
    "set_descriptor_list s ! 3 = ts_InfoFD s" "set_descriptor_list s ! 4 = ts_SharedTopFD s"
    by (simp_all add: set_descriptor_list_def)
  have all: "\<forall>(fd, out) \<in> set (topology_roles l). lent p q fd (set_descriptor_list s ! out)"
    and rest: "\<forall>i < 5. i \<notin> snd ` set (topology_roles l) \<longrightarrow> set_descriptor_list s ! i = [-1, -1, -1, -1, -1] ! i"
    using assms by (simp_all add: handoff_done_def empty_set_list)
  show "lent p q (td_Anchor (tl_descriptors l)) (ts_AnchorFD s)" "lent p q (td_TrashRoot (tl_descriptors l)) (ts_TrashRootFD s)"
    "lent p q (td_Files (tl_descriptors l)) (ts_FilesFD s)" "lent p q (td_Info (tl_descriptors l)) (ts_InfoFD s)"
    using all by (simp_all add: topology_roles_def Let_def slots)
  show "if tl_placement l = TrashPlacementTopShared then lent p q (td_SharedTop (tl_descriptors l)) (ts_SharedTopFD s)
     else ts_SharedTopFD s = -1"
    using all rest [rule_format, of 4] by (simp add: topology_roles_def Let_def slots)
qed (use assms in \<open>simp_all add: handoff_done_def empty_set_list\<close>)

text \<open>
  C8: the full handoff to \<^verbatim>\<open>linuxfs\<close> lends all roles of a requalified layout or nothing. On any failure the
  descriptor table is the one before the call. On success the lease is open and has a topology, its root was inspected
  again and admitted, every role of the layout, the anchor included, is an open directory whose inspection agreed with
  its expectation on the mount of the root, each field of the set is a new close-on-exec descriptor of that very role,
  no two fields share one, and closing the set gives back the table before the call.
\<close>

theorem topology_handoff_owned:
  assumes fresh: "fresh_duplicates K"
    and run: "duplicateTopologyWithFcntl K inspect (fcntl_duplicate K) root (Some l) p = (r, q)"
  shows "case r of
      Inl _ \<Rightarrow> same_table p q
    | Inr s \<Rightarrow> \<not> tl_closed l \<and> topology_configured (tl_topology l) \<and>
        (\<exists>h i. root = Some h \<and> rl_rootID h = tl_rootID l \<and> \<not> rl_closed h \<and> inspect (rl_fd h) (pr_calls p) = Inr i \<and>
          root_qualified (rl_expected h) i = None \<and> (\<forall>role \<in> set (all_roles l). role_admitted inspect p i role)) \<and>
        lent p q (td_Anchor (tl_descriptors l)) (ts_AnchorFD s) \<and> lent p q (td_TrashRoot (tl_descriptors l)) (ts_TrashRootFD s) \<and>
        lent p q (td_Files (tl_descriptors l)) (ts_FilesFD s) \<and> lent p q (td_Info (tl_descriptors l)) (ts_InfoFD s) \<and>
        (if tl_placement l = TrashPlacementTopShared then lent p q (td_SharedTop (tl_descriptors l)) (ts_SharedTopFD s)
         else ts_SharedTopFD s = -1) \<and>
        distinct (filter ((\<le>) 3) (set_descriptor_list s)) \<and> extends p (handles (set_descriptor_list s)) q \<and>
        same_table p (snd (snd (topology_set_Close K s q)))"
proof (cases "tl_closed l \<or> \<not> topology_configured (tl_topology l) \<or> (\<exists>e p1. trash_requalifyLocked inspect root l p = (Inl e, p1))")
  case True
  then have "\<exists>e. r = Inl e \<and> same_table p q"
    using run trash_requalify_same [of p inspect root l] by (auto simp: duplicateTopologyWithFcntl_def split: if_splits)
  then show ?thesis by auto
next
  case False
  then obtain u p1 where req: "trash_requalifyLocked inspect root l p = (Inr u, p1)" by (metis prod.exhaust sum.exhaust)
  with False run have loop: "duplicate_roles K (fcntl_duplicate K) l (topology_roles l) EmptyTrashTopologyDescriptorSet p1 = (r, q)"
    by (simp add: duplicateTopologyWithFcntl_def)
  note facts = trash_requalify_Inr [OF req]
  have roles: "\<forall>x \<in> fst ` set (topology_roles l). pr_open p x \<noteq> None"
    using facts(1) False topology_roles_fds [of l] by (auto simp: role_admitted_def)
  have outs: "distinct (map snd (topology_roles l))" "\<forall>(fd, i) \<in> set (topology_roles l). i < 5 \<and> [-1, -1, -1, -1, -1 :: int] ! i = -1"
    by (auto simp: topology_roles_def Let_def)
  have "handoff_state p l (topology_roles l) EmptyTrashTopologyDescriptorSet p1"
    using authority_open [OF req] facts(2) outs roles
    by (auto simp: handoff_state_def empty_set_list handles_def extends_def same_table_def)
  from duplicate_roles_owned [OF fresh this loop] show ?thesis
  proof (cases r)
    case (Inl e)
    with duplicate_roles_owned [OF fresh \<open>handoff_state _ _ _ _ _\<close> loop] show ?thesis by simp
  next
    case (Inr s)
    with duplicate_roles_owned [OF fresh \<open>handoff_state _ _ _ _ _\<close> loop]
    have d: "handoff_done p (topology_roles l) EmptyTrashTopologyDescriptorSet p1 s q" by simp
    note fields_lent = handoff_done_fields [OF d]
    show ?thesis unfolding Inr sum.case
      using False facts(1) fields_lent topology_set_Close_extends [OF fields_lent(7)] by blast
  qed
qed

section \<open>The descriptors of the authority stay open\<close>

text \<open>Whatever a duplication answers; it only must not touch those descriptors itself.\<close>

definition leaves_alone :: "duplicator \<Rightarrow> int set \<Rightarrow> bool" where
  "leaves_alone duplicate A \<longleftrightarrow> (\<forall>fd p n err q. duplicate fd p = ((n, err), q) \<longrightarrow> (\<forall>x \<in> A. pr_open q x = pr_open p x))"

lemma unix_Close_other: "x \<noteq> fd \<Longrightarrow> pr_open (snd (unix_Close K fd p)) x = pr_open p x"
  by (simp add: unix_Close_def tick_def split: option.splits)

lemma close_entries_other:
  "x \<notin> handles fds \<Longrightarrow> pr_open (snd (close_entries K closed fds p)) x = pr_open p x"
proof (induction K closed fds p rule: close_entries.induct)
  case (2 K closed fd fds p)
  show ?case
  proof (cases "fd < 3 \<or> fd \<in> set closed")
    case True
    with "2.IH"(1) [OF True] "2.prems" show ?thesis by (auto simp: handles_def)
  next
    case False
    obtain e q where q: "unix_Close K fd p = (e, q)" by fastforce
    from "2.prems" False have "x \<notin> handles fds" "x \<noteq> fd" by (auto simp: handles_def)
    with "2.IH"(2) [OF False refl q [symmetric]] unix_Close_other [of x fd K p] q False
    show ?thesis by (simp add: case_prod_beta)
  qed
qed simp

lemma topology_set_Close_other:
  "x \<notin> handles (set_descriptor_list s) \<Longrightarrow> pr_open (snd (snd (topology_set_Close K s p))) x = pr_open p x"
  using close_entries_other [of x "set_descriptor_list s" K "[]" p] by (auto simp: topology_set_Close_def Let_def split: prod.splits)

lemma closeRejectedTopology_other:
  "x \<in> set (trash_descriptor_list (tl_descriptors l)) \<Longrightarrow> pr_open (closeRejectedTopologyDuplicate K l n s p) x = pr_open p x"
  by (cases "x = n") (simp_all add: closeRejectedTopologyDuplicate_def unix_Close_other)

lemma duplicate_roles_other:
  assumes A: "A \<subseteq> set (trash_descriptor_list (tl_descriptors l))" and dup: "leaves_alone duplicate A"
  shows "\<forall>(fd, out) \<in> set roles. out < 5 \<Longrightarrow> A \<inter> handles (set_descriptor_list s) = {} \<Longrightarrow>
    duplicate_roles K duplicate l roles s p = (r, q) \<Longrightarrow>
    (\<forall>x \<in> A. pr_open q x = pr_open p x) \<and> (\<forall>t. r = Inr t \<longrightarrow> A \<inter> handles (set_descriptor_list t) = {})"
proof (induction roles arbitrary: s p)
  case (Cons role roles)
  obtain fd out where role: "role = (fd, out)" by fastforce
  obtain n err p1 where call: "duplicate fd p = ((n, err), p1)" by (metis prod.exhaust)
  with dup have p1: "\<forall>x \<in> A. pr_open p1 x = pr_open p x" by (simp add: leaves_alone_def)
  show ?case
  proof (cases "if err \<noteq> None then Some [] else validateTopologyDuplicateDescriptor l n s p1")
    case (Some e)
    with Cons.prems(3) call have q: "r = Inl e" "q = snd (snd (topology_set_Close K s (closeRejectedTopologyDuplicate K l n s p1)))"
      by (auto simp: role)
    with p1 A Cons.prems(2) show ?thesis
      by (auto simp: topology_set_Close_other closeRejectedTopology_other disjoint_iff subset_iff)
  next
    case None
    then have "err = None" "validateTopologyDuplicateDescriptor l n s p1 = None" by (auto split: if_splits)
    then have n: "n \<notin> set (trash_descriptor_list (tl_descriptors l))"
      and run: "duplicate_roles K duplicate l roles (put_descriptor out n s) p1 = (r, q)"
      using Cons.prems(3) call by (simp_all add: role validateTopologyDuplicateDescriptor_def checks_Cons)
    have "handles (set_descriptor_list (put_descriptor out n s)) \<subseteq> insert n (handles (set_descriptor_list s))"
      using Cons.prems(1) set_update_subset_insert [of "set_descriptor_list s" out n] by (auto simp: role put_descriptor_list handles_def)
    with n A Cons.prems(2) have "A \<inter> handles (set_descriptor_list (put_descriptor out n s)) = {}" by blast
    with Cons.IH [OF _ this run] Cons.prems(1) p1 show ?thesis by auto
  qed
qed auto

text \<open>
  C9: no handoff closes what the authority holds. Whatever the duplication returns, a reserved number, a
  descriptor of the lease, one it returned before, or a number beside an error, every descriptor of the lease is as open
  after the full handoff as before it, and none of them is in the set handed over, so closing that set does not
  touch them either.
\<close>

theorem topology_handoff_keeps_authority:
  assumes "leaves_alone duplicate (set (trash_descriptor_list (tl_descriptors l)))"
    and "duplicateTopologyWithFcntl K inspect duplicate root (Some l) p = (r, q)"
    and "x \<in> set (trash_descriptor_list (tl_descriptors l))" "3 \<le> x"
  shows "pr_open q x = pr_open p x \<and> (\<forall>s. r = Inr s \<longrightarrow> x \<notin> set (set_descriptor_list s) \<and>
    pr_open (snd (snd (topology_set_Close K s q))) x = pr_open p x)"
proof (cases "tl_closed l \<or> \<not> topology_configured (tl_topology l) \<or> (\<exists>e p1. trash_requalifyLocked inspect root l p = (Inl e, p1))")
  case True
  then have "\<exists>e. r = Inl e \<and> same_table p q"
    using assms(2) trash_requalify_same [of p inspect root l] by (auto simp: duplicateTopologyWithFcntl_def split: if_splits)
  then show ?thesis by (auto simp: same_table_def)
next
  case False
  then obtain u p1 where req: "trash_requalifyLocked inspect root l p = (Inr u, p1)" by (metis prod.exhaust sum.exhaust)
  with False assms(2) have loop: "duplicate_roles K duplicate l (topology_roles l) EmptyTrashTopologyDescriptorSet p1 = (r, q)"
    by (simp add: duplicateTopologyWithFcntl_def)
  have outs: "\<forall>(fd, out) \<in> set (topology_roles l). out < 5" by (auto simp: topology_roles_def Let_def)
  have empty: "handles (set_descriptor_list EmptyTrashTopologyDescriptorSet) = {}"
    by (simp add: set_descriptor_list_def EmptyTrashTopologyDescriptorSet_def handles_def)
  have p1: "same_table p p1" using trash_requalify_Inr(2) [OF req] .
  from duplicate_roles_other [OF subset_refl assms(1) outs _ loop] empty
  have keep: "\<forall>y \<in> set (trash_descriptor_list (tl_descriptors l)). pr_open q y = pr_open p1 y"
    and sets: "\<forall>t. r = Inr t \<longrightarrow> set (trash_descriptor_list (tl_descriptors l)) \<inter> handles (set_descriptor_list t) = {}" by auto
  have q: "pr_open q x = pr_open p x" using keep assms(3) p1 by (simp add: same_table_def)
  have "x \<notin> handles (set_descriptor_list s)" if "r = Inr s" for s using sets that assms(3) by blast
  then show ?thesis using q assms(4) by (auto simp: topology_set_Close_other handles_def)
qed

text \<open>
  The pair of files and info keeps all but the anchor: its checks do not compare with the anchor a lease with a
  topology also holds. \<^verbatim>\<open>fcntl\<close> never answers with an open descriptor, so this needs another duplication.
\<close>

lemma closeRejected_other: "x \<in> pair_reserved l \<Longrightarrow> pr_open (closeRejectedDuplicate K l n m p) x = pr_open p x"
  by (cases "x = n") (simp_all add: closeRejectedDuplicate_def unix_Close_other)

lemma duplicate_checked_other:
  assumes "duplicate_checked K duplicate l fd m p = (r, q)" "leaves_alone duplicate (pair_reserved l)" "x \<in> pair_reserved l"
  shows "pr_open q x = pr_open p x \<and> (\<forall>n. r = Inr n \<longrightarrow> n \<noteq> x)"
proof -
  obtain n err p1 where call: "duplicate fd p = ((n, err), p1)" by (metis prod.exhaust)
  with assms(2,3) have p1: "pr_open p1 x = pr_open p x" by (simp add: leaves_alone_def)
  show ?thesis
  proof (cases "if err \<noteq> None then Some [] else validateDuplicateDescriptor l n m p1")
    case (Some e)
    with assms(1) call have "r = Inl e" "q = closeRejectedDuplicate K l n m p1" by (auto simp: duplicate_checked_def)
    with p1 assms(3) show ?thesis by (simp add: closeRejected_other)
  next
    case None
    then have "err = None" "validateDuplicateDescriptor l n m p1 = None" by (auto split: if_splits)
    with assms(1,3) call p1 show ?thesis by (auto simp: duplicate_checked_def validateDuplicateDescriptor_def checks_Cons)
  qed
qed

theorem pair_handoff_keeps_roles:
  assumes alone: "leaves_alone duplicate (pair_reserved l)"
    and run: "duplicateWithFcntl K inspect duplicate root (Some l) p = (r, q)" and x: "x \<in> pair_reserved l"
  shows "pr_open q x = pr_open p x \<and> (\<forall>pair. r = Inr pair \<longrightarrow> x \<noteq> tp_FilesFD pair \<and> x \<noteq> tp_InfoFD pair)"
proof (cases "tl_closed l \<or> (\<exists>e p1. trash_requalifyLocked inspect root l p = (Inl e, p1))")
  case True
  then have "\<exists>e. r = Inl e \<and> same_table p q"
    using run trash_requalify_same [of p inspect root l] by (auto simp: duplicateWithFcntl_def split: if_splits)
  then show ?thesis by (auto simp: same_table_def)
next
  case False
  then obtain u p1 where req: "trash_requalifyLocked inspect root l p = (Inr u, p1)" by (metis prod.exhaust sum.exhaust)
  have p1: "pr_open p1 x = pr_open p x" using trash_requalify_Inr(2) [OF req] by (simp add: same_table_def)
  obtain f p2 where files: "duplicate_checked K duplicate l (td_Files (tl_descriptors l)) (-1) p1 = (f, p2)" by fastforce
  note one = duplicate_checked_other [OF files alone x]
  show ?thesis
  proof (cases f)
    case (Inl e)
    with run False req files one p1 show ?thesis by (auto simp: duplicateWithFcntl_def)
  next
    case (Inr n)
    obtain g p3 where info: "duplicate_checked K duplicate l (td_Info (tl_descriptors l)) n p2 = (g, p3)" by fastforce
    note two = duplicate_checked_other [OF info alone x]
    have "x \<notin> handles [n, -1]" using one Inr by (auto simp: handles_def)
    then have "pr_open (snd (snd (pair_Close K \<lparr> tp_FilesFD = n, tp_InfoFD = -1 \<rparr> p3))) x = pr_open p3 x"
      using close_entries_other [of x "[n, -1]" K "[]" p3] by (auto simp: pair_Close_def Let_def split: prod.splits)
    with run False req files info one two p1 Inr show ?thesis
      by (cases g) (auto simp: duplicateWithFcntl_def)
  qed
qed

section \<open>Opening a lease\<close>

text \<open>The contract of an opener: what it hands over is newly opened, also beside an error.\<close>

definition bundle_contract :: "trash_opener \<Rightarrow> bool" where
  "bundle_contract opener \<longleftrightarrow> (\<forall>p err d q. opener p = ((err, d), q) \<longrightarrow> extends p (handles (trash_descriptor_list d)) q)"

lemma trash_descriptors_Close_extends:
  "extends p (handles (trash_descriptor_list d)) q \<Longrightarrow> same_table p (snd (snd (trash_descriptors_Close K d q)))"
  using extends_close [of p "trash_descriptor_list d" q K] by (auto simp: trash_descriptors_Close_def Let_def split: prod.splits)

lemma trash_lease_Close_extends:
  assumes "extends p (handles (trash_descriptor_list (tl_descriptors l))) q" "\<not> tl_closed l" "trash_lease_Close K l q = (e, closed, q')"
  shows "same_table p q' \<and> trash_lease_Close K closed q' = (None, closed, q')"
  using assms trash_descriptors_Close_extends [OF assms(1), of K] by (auto simp: trash_lease_Close_def split: prod.splits)

lemma bundle_checks_same: "same_table p (snd (bundle_checks inspect i a err d rootID p))"
proof -
  have head: "same_table p (snd (if topology_configured (tc_Topology a)
        then unless_error (trash_descriptors_validateTopology d (tc_Placement a)) p
          (checkTrashDescriptor inspect i (td_Anchor d, tt_Anchor (tc_Topology a)) p)
        else if td_Anchor d \<noteq> -1 then (Inl [MountErrInvalidAuthority], p) else (Inr (), p)))"
    using unless_error_same [OF same_table_refl checkTrashDescriptor_same [of p inspect i "(td_Anchor d, tt_Anchor (tc_Topology a))"]] by simp
  show ?thesis
    unfolding bundle_checks_def
    by (intro unless_error_same same_table_refl after_ok_same head)
      (auto intro: same_table_trans [OF _ check_trash_roles_same])
qed

lemma bundle_checks_Inr:
  assumes "bundle_checks inspect i a err d rootID p = (Inr l, q)"
  shows "err = None \<and> tl_rootID l = rootID \<and> tl_placement l = tc_Placement a \<and> tl_ownerUID l = tc_OwnerUID a \<and> tl_metadata l = tc_Metadata a \<and>
    tl_topology l = tc_Topology a \<and> tl_expected l = tc_Expected a \<and> tl_descriptors l = d \<and> \<not> tl_closed l \<and> tl_root l = Some rootID \<and>
    same_table p q \<and> trash_descriptors_validate d (tc_Placement a) = None \<and>
    (\<forall>role \<in> set (all_roles l). role_admitted inspect p i role)"
proof -
  from assms obtain u v p1 where err: "err = None" "trash_descriptors_validate d (tc_Placement a) = None"
    and head: "(if topology_configured (tc_Topology a)
        then unless_error (trash_descriptors_validateTopology d (tc_Placement a)) p
          (checkTrashDescriptor inspect i (td_Anchor d, tt_Anchor (tc_Topology a)) p)
        else if td_Anchor d \<noteq> -1 then (Inl [MountErrInvalidAuthority], p) else (Inr (), p)) = (Inr u, p1)"
    and roles: "check_trash_roles inspect i (fixed_roles d (tc_Expected a) (tc_Placement a)) p1 = (Inr v, q)"
    and l: "l = \<lparr> tl_root = Some rootID, tl_rootID = rootID, tl_placement = tc_Placement a, tl_ownerUID = tc_OwnerUID a,
         tl_metadata = tc_Metadata a, tl_topology = tc_Topology a, tl_expected = tc_Expected a, tl_descriptors = d, tl_closed = False \<rparr>"
    unfolding bundle_checks_def unless_error_Inr after_ok_Inr by auto
  have anchor: "same_table p p1 \<and> (topology_configured (tc_Topology a) \<longrightarrow> role_admitted inspect p i (td_Anchor d, tt_Anchor (tc_Topology a)))"
    using head checkTrashDescriptor_Inr [of inspect i "(td_Anchor d, tt_Anchor (tc_Topology a))" p u p1]
    by (auto simp: unless_error_Inr split: if_splits)
  have same: "same_table p q" using bundle_checks_same [of p inspect i a err d rootID] by (simp add: assms)
  have "\<forall>role \<in> set (all_roles l). role_admitted inspect p i role"
    using check_trash_roles_Inr [OF roles] anchor role_admitted_same [of p p1 inspect] by (auto simp: all_roles_def l)
  with err same show ?thesis by (simp add: l)
qed

text \<open>Whatever is refused before the opener runs leaves the table alone.\<close>

lemma open_refused:
  assumes run: "openTrustedTrashWith K (Some lookup) root inspect kernelError p = (r, q)"
    and refused: "\<not> (\<exists>a opener i p1. root \<noteq> None \<and> lookup (root_RootID root) = Some (a, opener) \<and> kernelError = None \<and>
      root_requalifyWith inspect root p = (Inr i, p1) \<and> invalid_root (root_RootID root) = None \<and>
      trash_configuration_validate a (root_RootID root) = None)"
  shows "\<exists>e. r = Inl e \<and> same_table p q"
proof (cases "root = None \<or> invalid_root (root_RootID root) \<noteq> None \<or> lookup (root_RootID root) = None")
  case True
  with run show ?thesis by (auto simp: openTrustedTrashWith_def Let_def unless_error_def split: if_splits option.splits)
next
  case named: False
  obtain rq p1 where rq: "root_requalifyWith inspect root p = (rq, p1)" by fastforce
  from named obtain a opener where a: "lookup (root_RootID root) = Some (a, opener)" by (cases "lookup (root_RootID root)") auto
  show ?thesis
  proof (cases "trash_configuration_validate a (root_RootID root) = None \<and> kernelError = None")
    case True
    with refused a rq named obtain e where "rq = Inl e" by (cases rq) auto
    with True run a rq named requalify_Inl show ?thesis by (auto simp: openTrustedTrashWith_def Let_def)
  next
    case False
    with run a named show ?thesis by (auto simp: openTrustedTrashWith_def Let_def unless_error_def split: option.splits)
  qed
qed

text \<open>
  C7: opening a Trash lease keeps the bundle whole or releases it. Whatever is refused, also an opener that
  fails beside a partly filled bundle, the descriptor table is the one before the call. On success the root was inspected
  again and admitted, the lease carries the configuration registered under that root, which is valid, and every role of
  it, the anchor included, is an open directory whose inspection agreed with its expectation; closing the lease gives
  back the table before the call and a second close does nothing.
\<close>

theorem trash_open_owned:
  assumes contract: "\<forall>a opener. lookup (root_RootID root) = Some (a, opener) \<longrightarrow> bundle_contract opener"
    and run: "openTrustedTrashWith K (Some lookup) root inspect kernelError p = (r, q)"
  shows "case r of
      Inl _ \<Rightarrow> same_table p q
    | Inr l \<Rightarrow>
      (\<exists>h a opener i. root = Some h \<and> lookup (rl_rootID h) = Some (a, opener) \<and>
        trash_configuration_validate a (rl_rootID h) = None \<and> tl_rootID l = rl_rootID h \<and> tl_placement l = tc_Placement a \<and>
        tl_ownerUID l = tc_OwnerUID a \<and> tl_metadata l = tc_Metadata a \<and> tl_topology l = tc_Topology a \<and> tl_expected l = tc_Expected a \<and>
        inspect (rl_fd h) (pr_calls p) = Inr i \<and> root_qualified (rl_expected h) i = None \<and>
        (\<forall>role \<in> set (all_roles l). role_admitted inspect q i role)) \<and>
      extends p (handles (trash_descriptor_list (tl_descriptors l))) q \<and>
      (\<forall>e closed q'. trash_lease_Close K l q = (e, closed, q') \<longrightarrow> same_table p q' \<and> trash_lease_Close K closed q' = (None, closed, q'))"
proof (cases "\<exists>a opener i p1. root \<noteq> None \<and> lookup (root_RootID root) = Some (a, opener) \<and> kernelError = None \<and>
    root_requalifyWith inspect root p = (Inr i, p1) \<and> invalid_root (root_RootID root) = None \<and> trash_configuration_validate a (root_RootID root) = None")
  case False
  with open_refused [OF run] show ?thesis by auto
next
  case True
  then obtain a opener i p1 where a: "root \<noteq> None" "lookup (root_RootID root) = Some (a, opener)" "kernelError = None"
    "root_requalifyWith inspect root p = (Inr i, p1)" "invalid_root (root_RootID root) = None"
    "trash_configuration_validate a (root_RootID root) = None" by blast
  from requalify_Inr [OF a(4)] obtain h where h: "root = Some h" "inspect (rl_fd h) (pr_calls p) = Inr i"
    "root_qualified (rl_expected h) i = None" and p1: "same_table p p1" by auto
  have id: "root_RootID root = rl_rootID h" by (simp add: h root_RootID_def)
  obtain err d p2 where handed: "opener p1 = ((err, d), p2)" by (metis prod.exhaust)
  from contract a(2) have "bundle_contract opener" by blast
  with handed have "extends p1 (handles (trash_descriptor_list d)) p2" by (simp add: bundle_contract_def)
  with p1 have ext: "extends p (handles (trash_descriptor_list d)) p2" by (simp add: extends_def same_table_def)
  obtain s p3 where checks: "bundle_checks inspect i a err d (rl_rootID h) p2 = (s, p3)" by fastforce
  have same: "same_table p2 p3" using bundle_checks_same [of p2 inspect i a err d "rl_rootID h"] by (simp add: checks)
  then have ext3: "extends p (handles (trash_descriptor_list d)) p3" using ext extends_same by blast
  have tail: "(case s of Inl e \<Rightarrow> (Inl e, snd (snd (trash_descriptors_Close K d p3))) | Inr lease \<Rightarrow> (Inr lease, p3)) = (r, q)"
    using run a handed checks by (simp add: openTrustedTrashWith_def Let_def id)
  show ?thesis
  proof (cases s)
    case (Inl e)
    with tail trash_descriptors_Close_extends [OF ext3, of K] show ?thesis by auto
  next
    case (Inr l)
    note l = bundle_checks_Inr [OF checks [unfolded Inr]]
    have roles: "\<forall>role \<in> set (all_roles l). role_admitted inspect p3 i role"
      using l role_admitted_same [OF same] by simp
    have ext_l: "extends p (handles (trash_descriptor_list (tl_descriptors l))) p3" using ext3 l by simp
    have r: "r = Inr l" "q = p3" using tail Inr by simp_all
    have closes: "\<forall>e closed q'. trash_lease_Close K l p3 = (e, closed, q') \<longrightarrow> same_table p q' \<and> trash_lease_Close K closed q' = (None, closed, q')"
      using trash_lease_Close_extends [OF ext_l] l by blast
    have "\<exists>h a opener i. root = Some h \<and> lookup (rl_rootID h) = Some (a, opener) \<and>
        trash_configuration_validate a (rl_rootID h) = None \<and> tl_rootID l = rl_rootID h \<and> tl_placement l = tc_Placement a \<and>
        tl_ownerUID l = tc_OwnerUID a \<and> tl_metadata l = tc_Metadata a \<and> tl_topology l = tc_Topology a \<and> tl_expected l = tc_Expected a \<and>
        inspect (rl_fd h) (pr_calls p) = Inr i \<and> root_qualified (rl_expected h) i = None \<and>
        (\<forall>role \<in> set (all_roles l). role_admitted inspect p3 i role)"
      by (rule exI [of _ h], rule exI [of _ a], rule exI [of _ opener], rule exI [of _ i])
        (use h a l roles id in simp)
    with ext_l closes show ?thesis unfolding r sum.case by blast
  qed
qed

section \<open>A concrete layout\<close>

text \<open>Root on descriptor 3; anchor, Trash root, files and info on 4 to 7.\<close>

definition sample_role :: "u64 \<Rightarrow> layout_expectation" where
  "sample_role inode = sample_layout_expectation \<lparr> le_Inode := inode \<rparr>"

definition sample_trash_inspector :: root_inspector where
  "sample_trash_inspector fd n = (if fd = 3 then Inr sample_root_inspection
     else Inr (inspection_of sample_mount sample_namespace (sample_evidence (word_of_int (46 + fd)) 0x1C0)))"

definition sample_trash_process :: process where
  "sample_trash_process = \<lparr> pr_open = (\<lambda>fd. if 3 \<le> fd \<and> fd \<le> 7 then Some sample_open_directory else None), pr_calls = 0, pr_stray = [] \<rparr>"

definition sample_trash_configuration :: trash_configuration where
  "sample_trash_configuration = \<lparr> tc_Root = ''root-1'', tc_Placement = TrashPlacementHome, tc_OwnerUID = 1000,
     tc_Metadata = \<lparr> tmm_Basis = TrashMetadataBasisHomeAbsolute, tmm_Prefix = \<lparr> path_components = [] \<rparr> \<rparr>,
     tc_Topology = \<lparr> tt_AnchorKind = TrashAnchorHomeData, tt_Anchor = sample_role 50 \<rparr>,
     tc_Expected = \<lparr> tle_TrashRoot = sample_role 51, tle_Files = sample_role 52, tle_Info = sample_role 53, tle_HasSharedTop = False,
       tle_SharedTop = \<lparr> le_Namespace = no_namespace, le_Device = no_device, le_Inode = 0, le_UID = 0, le_GID = 0, le_Mode = 0, le_Mount = no_mount \<rparr> \<rparr> \<rparr>"

definition sample_bundle :: trash_descriptors where
  "sample_bundle = \<lparr> td_Anchor = 4, td_TrashRoot = 5, td_Files = 6, td_Info = 7, td_SharedTop = -1, td_normalized = True \<rparr>"

definition sample_trash_lease :: trash_lease where
  "sample_trash_lease = (let c = sample_trash_configuration in
     \<lparr> tl_root = Some ''root-1'', tl_rootID = ''root-1'', tl_placement = tc_Placement c, tl_ownerUID = tc_OwnerUID c,
       tl_metadata = tc_Metadata c, tl_topology = tc_Topology c, tl_expected = tc_Expected c, tl_descriptors = sample_bundle, tl_closed = False \<rparr>)"

theorem pair_handoff_accepts_anchor:
  "\<exists>pair. fst (duplicateWithFcntl sample_kernel sample_trash_inspector (\<lambda>fd p. ((if fd = 6 then 4 else 9, None),
        p \<lparr> pr_open := \<lambda>x. if x = 9 then Some sample_open_directory else pr_open p x \<rparr>))
      (Some sample_root_lease) (Some sample_trash_lease) sample_trash_process) = Inr pair \<and>
    tp_FilesFD pair = td_Anchor (tl_descriptors sample_trash_lease)"
proof -
  have "fst (duplicateWithFcntl sample_kernel sample_trash_inspector (\<lambda>fd p. ((if fd = 6 then 4 else 9, None),
        p \<lparr> pr_open := \<lambda>x. if x = 9 then Some sample_open_directory else pr_open p x \<rparr>))
      (Some sample_root_lease) (Some sample_trash_lease) sample_trash_process) = Inr \<lparr> tp_FilesFD = 4, tp_InfoFD = 9 \<rparr>"
    by code_simp
  moreover have "td_Anchor (tl_descriptors sample_trash_lease) = 4" by code_simp
  ultimately show ?thesis by simp
qed

text \<open>A Trash root that came on a closed standard stream; info ends up on the number files came on.\<close>

definition sample_unnormalized :: process where
  "sample_unnormalized = \<lparr> pr_open = (\<lambda>fd. if fd \<in> {0, 5, 6} then Some sample_open_directory else None), pr_calls = 0, pr_stray = [] \<rparr>"

theorem bundle_constructor_owned_witness:
  "\<exists>q. newTrashDescriptors sample_kernel (-1) 0 5 6 (-1) sample_unnormalized =
      (Inr \<lparr> td_Anchor = -1, td_TrashRoot = 3, td_Files = 4, td_Info = 5, td_SharedTop = -1, td_normalized = True \<rparr>, q) \<and>
    pr_open q 0 = None \<and> pr_open q 5 = Some sample_open_directory \<and> pr_open q 6 = None \<and> pr_stray q = []"
proof -
  let ?d = "\<lparr> td_Anchor = -1, td_TrashRoot = 3, td_Files = 4, td_Info = 5, td_SharedTop = -1, td_normalized = True \<rparr>"
  have "fst (newTrashDescriptors sample_kernel (-1) 0 5 6 (-1) sample_unnormalized) = Inr ?d" by code_simp
  then obtain q where run: "newTrashDescriptors sample_kernel (-1) 0 5 6 (-1) sample_unnormalized = (Inr ?d, q)" by (metis prod.collapse)
  have "\<forall>fd \<in> held [-1, 0, 5, 6, -1]. pr_open sample_unnormalized fd \<noteq> None" by (simp add: sample_unnormalized_def)
  from bundle_constructor_owned [OF sample_kernel_fresh this run]
  have moved: "bundle_moved sample_unnormalized q [-1, 0, 5, 6, -1] [-1, 3, 4, 5, -1]"
    by (simp add: trash_descriptor_list_def)
  then have "pr_open q 5 = map_option (\<lambda>d. d \<lparr> od_Flags := FD_CLOEXEC \<rparr>) (pr_open sample_unnormalized 6)"
    by (simp add: bundle_moved_def transferred_def)
  moreover have "pr_open q x = (if x \<in> {0, 5, 6} then None else pr_open sample_unnormalized x)" if "x \<notin> {3, 4, 5}" for x
    using moved that by (simp add: bundle_moved_def)
  moreover have "pr_stray q = []" using moved by (simp add: bundle_moved_def sample_unnormalized_def)
  ultimately show ?thesis using run by (auto simp: sample_unnormalized_def sample_open_directory_def)
qed

lemma sample_handoff:
  "fst (duplicateTopologyWithFcntl sample_kernel sample_trash_inspector (fcntl_duplicate sample_kernel) (Some sample_root_lease)
      (Some sample_trash_lease) sample_trash_process) =
    Inr \<lparr> ts_AnchorFD = 8, ts_TrashRootFD = 9, ts_FilesFD = 10, ts_InfoFD = 11, ts_SharedTopFD = -1 \<rparr>"
  by code_simp

theorem topology_handoff_owned_witness:
  "\<exists>s q. duplicateTopologyWithFcntl sample_kernel sample_trash_inspector (fcntl_duplicate sample_kernel) (Some sample_root_lease)
      (Some sample_trash_lease) sample_trash_process = (Inr s, q) \<and> ts_FilesFD s = 10 \<and>
    lent sample_trash_process q 6 10 \<and> same_table sample_trash_process (snd (snd (topology_set_Close sample_kernel s q)))"
proof -
  from sample_handoff obtain q where run: "duplicateTopologyWithFcntl sample_kernel sample_trash_inspector (fcntl_duplicate sample_kernel)
      (Some sample_root_lease) (Some sample_trash_lease) sample_trash_process =
      (Inr \<lparr> ts_AnchorFD = 8, ts_TrashRootFD = 9, ts_FilesFD = 10, ts_InfoFD = 11, ts_SharedTopFD = -1 \<rparr>, q)" by (metis prod.collapse)
  have "td_Files (tl_descriptors sample_trash_lease) = 6" by (simp add: sample_trash_lease_def sample_bundle_def Let_def)
  with topology_handoff_owned [OF sample_kernel_fresh run] run show ?thesis by auto
qed

text \<open>A duplication that answers the Trash root with the anchor of the lease, beside an error.\<close>

definition sample_confused :: duplicator where
  "sample_confused fd p = ((4, if fd = 5 then Some EBADF else None), p)"

theorem topology_handoff_keeps_authority_witness:
  "\<exists>q. duplicateTopologyWithFcntl sample_kernel sample_trash_inspector sample_confused (Some sample_root_lease)
      (Some sample_trash_lease) sample_trash_process = (Inl [MountErrInvalidAuthority], q) \<and> pr_open q 4 = Some sample_open_directory"
proof -
  have "fst (duplicateTopologyWithFcntl sample_kernel sample_trash_inspector sample_confused (Some sample_root_lease)
      (Some sample_trash_lease) sample_trash_process) = Inl [MountErrInvalidAuthority]" by code_simp
  then obtain q where run: "duplicateTopologyWithFcntl sample_kernel sample_trash_inspector sample_confused (Some sample_root_lease)
      (Some sample_trash_lease) sample_trash_process = (Inl [MountErrInvalidAuthority], q)" by (metis prod.collapse)
  have four: "4 \<in> set (trash_descriptor_list (tl_descriptors sample_trash_lease))"
    by (simp add: sample_trash_lease_def sample_bundle_def trash_descriptor_list_def Let_def)
  have "leaves_alone sample_confused (set (trash_descriptor_list (tl_descriptors sample_trash_lease)))"
    by (simp add: leaves_alone_def sample_confused_def)
  from topology_handoff_keeps_authority [OF this run four] run show ?thesis
    by (simp add: sample_trash_process_def)
qed

definition sample_bundle_opener :: trash_opener where
  "sample_bundle_opener p =
     (if \<forall>fd \<in> {4, 5, 6, 7}. pr_open p fd = None
      then ((None, sample_bundle), p \<lparr> pr_open := \<lambda>x. if x \<in> {4, 5, 6, 7} then Some sample_open_directory else pr_open p x \<rparr>)
      else ((Some [], emptyTrashDescriptors), p))"

lemma sample_bundle_contract: "bundle_contract sample_bundle_opener"
proof -
  have "extends p (handles (trash_descriptor_list d)) q" if "sample_bundle_opener p = ((err, d), q)" for p err d q
  proof (cases "\<forall>fd \<in> {4, 5, 6, 7}. pr_open p fd = None")
    case True
    then have "d = sample_bundle" "q = p \<lparr> pr_open := \<lambda>x. if x \<in> {4, 5, 6, 7} then Some sample_open_directory else pr_open p x \<rparr>"
      using that by (simp_all add: sample_bundle_opener_def)
    moreover have "handles (trash_descriptor_list sample_bundle) = {4, 5, 6, 7}"
      by (auto simp: handles_def trash_descriptor_list_def sample_bundle_def)
    ultimately show ?thesis using True by (simp add: extends_def)
  next
    case False
    then have "d = emptyTrashDescriptors" "q = p" using that unfolding sample_bundle_opener_def by (simp_all split: if_splits)
    then show ?thesis by (simp add: extends_def handles_def trash_descriptor_list_def emptyTrashDescriptors_def)
  qed
  then show ?thesis by (simp add: bundle_contract_def)
qed

theorem trash_open_owned_witness:
  "\<exists>l q. openTrustedTrashWith sample_kernel (Some (\<lambda>_. Some (sample_trash_configuration, sample_bundle_opener))) (Some sample_root_lease)
      sample_trash_inspector None (sample_opened sample_process 3) = (Inr l, q) \<and> tl_descriptors l = sample_bundle \<and> pr_open q 4 \<noteq> None \<and>
    (\<forall>e closed q'. trash_lease_Close sample_kernel l q = (e, closed, q') \<longrightarrow> same_table (sample_opened sample_process 3) q')"
proof -
  let ?p = "sample_opened sample_process 3" and ?lookup = "\<lambda>_ :: trusted_root_id. Some (sample_trash_configuration, sample_bundle_opener)"
  have "fst (openTrustedTrashWith sample_kernel (Some ?lookup) (Some sample_root_lease) sample_trash_inspector None ?p) = Inr sample_trash_lease"
    by code_simp
  then obtain q where run: "openTrustedTrashWith sample_kernel (Some ?lookup) (Some sample_root_lease) sample_trash_inspector None ?p =
      (Inr sample_trash_lease, q)" by (metis prod.collapse)
  have "\<forall>a opener. ?lookup (root_RootID (Some sample_root_lease)) = Some (a, opener) \<longrightarrow> bundle_contract opener"
    using sample_bundle_contract by simp
  from trash_open_owned [where lookup = ?lookup, OF this run]
  have closes: "\<forall>e closed q'. trash_lease_Close sample_kernel sample_trash_lease q = (e, closed, q') \<longrightarrow> same_table ?p q'"
    and ext: "extends ?p (handles (trash_descriptor_list (tl_descriptors sample_trash_lease))) q" by auto
  have d: "tl_descriptors sample_trash_lease = sample_bundle" by (simp add: sample_trash_lease_def Let_def)
  have "4 \<in> handles (trash_descriptor_list sample_bundle)" by (simp add: handles_def trash_descriptor_list_def sample_bundle_def)
  with ext have "pr_open q 4 \<noteq> None" unfolding d by (auto simp: extends_def)
  with run d closes show ?thesis by (intro exI [of _ sample_trash_lease] exI [of _ q]) auto
qed

end
