(* ===== verification/TrashBinding.thy ===== *)
theory TrashBinding
  imports TrashHandoff
begin

text \<open>
  The digest that stands for a Trash layout in the recovery ledger identifies the layout. The encoding of
  \<^verbatim>\<open>src/internal/mounts/trash_lease_linux.go\<close> is uniquely readable: each field is determined by the bytes and
  the rest of the bytes is determined as well. So two leases with one encoding have one configuration.
\<close>

section \<open>Fixed-width integers\<close>

lemma be_bytes_Suc: "be_bytes (Suc n) v = be_bytes n (v div 256) @ [word_of_nat v]"
proof -
  have "v div 256 ^ (Suc n - Suc i) = v div 256 div 256 ^ (n - Suc i)" if "i < n" for i
  proof -
    have "(256 :: nat) ^ (Suc n - Suc i) = 256 * 256 ^ (n - Suc i)" using that by (simp add: Suc_diff_Suc flip: power_Suc)
    then show ?thesis by (simp add: div_mult2_eq)
  qed
  then show ?thesis by (auto simp: be_bytes_def)
qed

lemma length_be_bytes [simp]: "length (be_bytes n v) = n"
  by (simp add: be_bytes_def)

lemma be_bytes_inject: "v < 256 ^ n \<Longrightarrow> w < 256 ^ n \<Longrightarrow> be_bytes n v = be_bytes n w \<longleftrightarrow> v = w"
proof (induction n arbitrary: v w)
  case (Suc n)
  have low: "(word_of_nat v :: u8) = word_of_nat w \<longleftrightarrow> v mod 256 = w mod 256"
    by (simp add: word_of_nat_eq_iff take_bit_eq_mod)
  have "v div 256 < 256 ^ n" "w div 256 < 256 ^ n" using Suc.prems by (simp_all add: less_mult_imp_div_less mult.commute)
  from Suc.IH [OF this] low show ?case
    by (simp add: be_bytes_Suc) (metis div_mult_mod_eq)
qed simp

section \<open>Fields\<close>

definition go_sized :: "'a list \<Rightarrow> bool" where "go_sized s \<longleftrightarrow> length s < 2 ^ 64"

lemma uint64Raw_inject: "encode_uint64Raw v = encode_uint64Raw w \<longleftrightarrow> v = w"
  using unsigned_less [of v, where 'a = nat] unsigned_less [of w, where 'a = nat]
  by (simp add: encode_uint64Raw_def be_bytes_inject word_unat_eq_iff [of v w])

lemma length_uint64Raw [simp]: "length (encode_uint64Raw v) = 8"
  by (simp add: encode_uint64Raw_def)

lemma word_of_length: "go_sized s \<Longrightarrow> go_sized t \<Longrightarrow> (word_of_nat (length s) :: u64) = word_of_nat (length t) \<longleftrightarrow> length s = length t"
  by (simp add: go_sized_def word_of_nat_eq_iff take_bit_nat_eq_self)

named_theorems reading \<open>a field and what follows it are determined by the bytes\<close>

lemma field_read:
  "go_sized v \<Longrightarrow> go_sized w \<Longrightarrow> encode_field name v @ r = encode_field name w @ s \<longleftrightarrow> v = w \<and> r = s"
proof -
  assume sized: "go_sized v" "go_sized w"
  have "encode_field name v @ r = encode_field name w @ s \<longleftrightarrow>
      encode_uint64Raw (word_of_nat (length v)) @ v @ r = encode_uint64Raw (word_of_nat (length w)) @ w @ s"
    by (simp add: encode_field_def)
  also have "\<dots> \<longleftrightarrow> length v = length w \<and> v @ r = w @ s"
    by (simp add: append_eq_append_conv uint64Raw_inject word_of_length [OF sized])
  finally show ?thesis by auto
qed

lemma text_read [reading]:
  "go_sized v \<Longrightarrow> go_sized w \<Longrightarrow> encode_text name v @ r = encode_text name w @ s \<longleftrightarrow> v = w \<and> r = s"
  by (simp add: encode_text_def field_read)

lemma uint32_read [reading]: "encode_uint32 name v @ r = encode_uint32 name w @ s \<longleftrightarrow> v = w \<and> r = s"
  using unsigned_less [of v, where 'a = nat] unsigned_less [of w, where 'a = nat]
  by (simp add: encode_uint32_def field_read go_sized_def be_bytes_inject word_unat_eq_iff [of v w])

lemma uint64_read [reading]: "encode_uint64 name v @ r = encode_uint64 name w @ s \<longleftrightarrow> v = w \<and> r = s"
  using unsigned_less [of v, where 'a = nat] unsigned_less [of w, where 'a = nat]
  by (simp add: encode_uint64_def field_read go_sized_def be_bytes_inject word_unat_eq_iff [of v w])

lemma boolean_read [reading]: "encode_boolean name v @ r = encode_boolean name w @ s \<longleftrightarrow> v = w \<and> r = s"
  by (simp add: encode_boolean_def field_read go_sized_def)

lemma components_read:
  "length cs = length ds \<Longrightarrow> \<forall>c \<in> set cs \<union> set ds. go_sized c \<Longrightarrow>
   concat (map (encode_field name) cs) @ r = concat (map (encode_field name) ds) @ s \<longleftrightarrow> cs = ds \<and> r = s"
  by (induction cs ds rule: list_induct2) (auto simp: field_read)

definition path_sized :: "byte_path \<Rightarrow> bool" where
  "path_sized p \<longleftrightarrow> go_sized (path_components p) \<and> (\<forall>c \<in> set (path_components p). go_sized c)"

lemma path_read [reading]:
  assumes "path_sized p" "path_sized q"
  shows "encode_bytePath name p @ r = encode_bytePath name q @ s \<longleftrightarrow> p = q \<and> r = s"
proof -
  have "encode_bytePath name p @ r = encode_bytePath name q @ s \<longleftrightarrow>
      length (path_components p) = length (path_components q) \<and>
      concat (map (encode_field (name @ ''.component'')) (path_components p)) @ r =
      concat (map (encode_field (name @ ''.component'')) (path_components q)) @ s"
    using assms by (simp add: encode_bytePath_def uint64_read word_of_length path_sized_def)
  also have "\<dots> \<longleftrightarrow> path_components p = path_components q \<and> r = s"
  proof (cases "length (path_components p) = length (path_components q)")
    case True
    have "\<forall>c \<in> set (path_components p) \<union> set (path_components q). go_sized c" using assms by (auto simp: path_sized_def)
    from components_read [OF True this] True show ?thesis by simp
  qed auto
  finally show ?thesis by (cases p; cases q) simp
qed

definition expectation_sized :: "layout_expectation \<Rightarrow> bool" where
  "expectation_sized e \<longleftrightarrow> go_sized (mr_Root (le_Mount e)) \<and> go_sized (mr_MountPoint (le_Mount e)) \<and>
     go_sized (mr_Filesystem (le_Mount e)) \<and> go_sized (mr_Source (le_Mount e))"

lemma layout_expectation_eq_iff:
  fixes e f :: layout_expectation
  shows "e = f \<longleftrightarrow> le_Namespace e = le_Namespace f \<and> le_Device e = le_Device f \<and> le_Inode e = le_Inode f \<and> le_UID e = le_UID f \<and>
    le_GID e = le_GID f \<and> le_Mode e = le_Mode f \<and> le_Mount e = le_Mount f"
  by (cases e; cases f) simp

lemma mount_record_eq_iff:
  fixes r s :: mount_record
  shows "r = s \<longleftrightarrow> mr_ID r = mr_ID s \<and> mr_ParentID r = mr_ParentID s \<and> mr_Device r = mr_Device s \<and> mr_Root r = mr_Root s \<and>
    mr_MountPoint r = mr_MountPoint s \<and> mr_Filesystem r = mr_Filesystem s \<and> mr_Source r = mr_Source s"
  by (cases r; cases s) simp

lemma small_evidence_eq_iff:
  fixes m n :: mount_namespace and d c :: device_identity
  shows "m = n \<longleftrightarrow> mn_Device m = mn_Device n \<and> mn_Inode m = mn_Inode n"
    and "d = c \<longleftrightarrow> di_Major d = di_Major c \<and> di_Minor d = di_Minor c"
  by (cases m; cases n; simp) (cases d; cases c; simp)

lemma expectation_read [reading]:
  assumes "expectation_sized e" "expectation_sized f"
  shows "encode_expectation name e @ r = encode_expectation name f @ s \<longleftrightarrow> e = f \<and> r = s"
proof -
  have "encode_expectation name e @ r = encode_expectation name f @ s \<longleftrightarrow>
      mn_Device (le_Namespace e) = mn_Device (le_Namespace f) \<and> mn_Inode (le_Namespace e) = mn_Inode (le_Namespace f) \<and>
      di_Major (le_Device e) = di_Major (le_Device f) \<and> di_Minor (le_Device e) = di_Minor (le_Device f) \<and>
      le_Inode e = le_Inode f \<and> le_UID e = le_UID f \<and> le_GID e = le_GID f \<and> le_Mode e = le_Mode f \<and>
      mr_ID (le_Mount e) = mr_ID (le_Mount f) \<and> mr_ParentID (le_Mount e) = mr_ParentID (le_Mount f) \<and>
      di_Major (mr_Device (le_Mount e)) = di_Major (mr_Device (le_Mount f)) \<and> di_Minor (mr_Device (le_Mount e)) = di_Minor (mr_Device (le_Mount f)) \<and>
      mr_Root (le_Mount e) = mr_Root (le_Mount f) \<and> mr_MountPoint (le_Mount e) = mr_MountPoint (le_Mount f) \<and>
      mr_Filesystem (le_Mount e) = mr_Filesystem (le_Mount f) \<and> mr_Source (le_Mount e) = mr_Source (le_Mount f) \<and> r = s"
    using assms by (simp add: encode_expectation_def reading expectation_sized_def)
  then show ?thesis
    unfolding layout_expectation_eq_iff mount_record_eq_iff small_evidence_eq_iff by blast
qed

section \<open>The layout\<close>

definition configuration_of :: "trash_lease \<Rightarrow> trash_configuration" where
  "configuration_of l = \<lparr> tc_Root = tl_rootID l, tc_Placement = tl_placement l, tc_OwnerUID = tl_ownerUID l, tc_Metadata = tl_metadata l,
     tc_Topology = tl_topology l, tc_Expected = tl_expected l \<rparr>"

text \<open>Go's lengths fit 64 bits.\<close>

definition lease_sized :: "trash_lease \<Rightarrow> bool" where
  "lease_sized l \<longleftrightarrow> go_sized (tl_rootID l) \<and> go_sized (tl_placement l) \<and> go_sized (tmm_Basis (tl_metadata l)) \<and>
     path_sized (tmm_Prefix (tl_metadata l)) \<and> go_sized (tt_AnchorKind (tl_topology l)) \<and> expectation_sized (tt_Anchor (tl_topology l)) \<and>
     expectation_sized (tle_TrashRoot (tl_expected l)) \<and> expectation_sized (tle_Files (tl_expected l)) \<and>
     expectation_sized (tle_Info (tl_expected l)) \<and> expectation_sized (tle_SharedTop (tl_expected l))"

lemma go_sized_bytes [simp]: "go_sized (bytes_of s) = go_sized s"
  by (simp add: go_sized_def)

text \<open>Without the flag the shared parent is the zero value.\<close>

definition zero_layout :: layout_expectation where
  "zero_layout = \<lparr> le_Namespace = no_namespace, le_Device = no_device, le_Inode = 0, le_UID = 0, le_GID = 0, le_Mode = 0, le_Mount = no_mount \<rparr>"

lemma isZero_iff: "isZeroTrashLayoutExpectation e \<longleftrightarrow> e = zero_layout"
  by (cases e) (simp add: isZeroTrashLayoutExpectation_def zero_layout_def)

lemma layout_shared_top:
  "trash_layout_expectation_validate e placement owner = None \<Longrightarrow> tle_HasSharedTop e \<or> tle_SharedTop e = zero_layout"
  by (auto simp: trash_layout_expectation_validate_def checks_append checks_Cons isZero_iff split: if_splits)

lemma trash_layout_expectation_eq_iff:
  fixes e f :: trash_layout_expectation
  shows "e = f \<longleftrightarrow> tle_TrashRoot e = tle_TrashRoot f \<and> tle_Files e = tle_Files f \<and> tle_Info e = tle_Info f \<and>
    tle_HasSharedTop e = tle_HasSharedTop f \<and> tle_SharedTop e = tle_SharedTop f"
  by (cases e; cases f) simp

lemma trash_metadata_eq_iff:
  fixes m n :: trash_metadata_mapping and t u :: trash_topology
  shows "m = n \<longleftrightarrow> tmm_Basis m = tmm_Basis n \<and> tmm_Prefix m = tmm_Prefix n"
    and "t = u \<longleftrightarrow> tt_AnchorKind t = tt_AnchorKind u \<and> tt_Anchor t = tt_Anchor u"
  by (cases m; cases n; simp) (cases t; cases u; simp)

lemma encoding_exact:
  assumes sized: "lease_sized l" "lease_sized m"
    and shared: "tle_HasSharedTop (tl_expected l) \<or> tle_SharedTop (tl_expected l) = zero_layout"
      "tle_HasSharedTop (tl_expected m) \<or> tle_SharedTop (tl_expected m) = zero_layout"
  shows "encodeTrashLayoutBinding l = encodeTrashLayoutBinding m \<longleftrightarrow> configuration_of l = configuration_of m"
proof -
  let ?top = "\<lambda>l. if tle_HasSharedTop (tl_expected l) then encode_expectation ''roles.shared_top'' (tle_SharedTop (tl_expected l)) else []"
  have top: "?top l = ?top m \<longleftrightarrow> tle_SharedTop (tl_expected l) = tle_SharedTop (tl_expected m)"
    if "tle_HasSharedTop (tl_expected l) = tle_HasSharedTop (tl_expected m)"
    using that shared expectation_read [of "tle_SharedTop (tl_expected l)" "tle_SharedTop (tl_expected m)" "''roles.shared_top''" "[]" "[]"] sized
    by (auto simp: lease_sized_def)
  have "encodeTrashLayoutBinding l = encodeTrashLayoutBinding m \<longleftrightarrow>
      tl_rootID l = tl_rootID m \<and> tl_placement l = tl_placement m \<and> tl_ownerUID l = tl_ownerUID m \<and>
      tmm_Basis (tl_metadata l) = tmm_Basis (tl_metadata m) \<and> tmm_Prefix (tl_metadata l) = tmm_Prefix (tl_metadata m) \<and>
      tt_AnchorKind (tl_topology l) = tt_AnchorKind (tl_topology m) \<and> tt_Anchor (tl_topology l) = tt_Anchor (tl_topology m) \<and>
      tle_TrashRoot (tl_expected l) = tle_TrashRoot (tl_expected m) \<and> tle_Files (tl_expected l) = tle_Files (tl_expected m) \<and>
      tle_Info (tl_expected l) = tle_Info (tl_expected m) \<and> tle_HasSharedTop (tl_expected l) = tle_HasSharedTop (tl_expected m) \<and> ?top l = ?top m"
    using sized unfolding encodeTrashLayoutBinding_def lease_sized_def concat.simps append_Nil2
    by (simp add: reading go_sized_def [of "''1''"] del: bytes_of_simps)
  then show ?thesis
    using top by (auto simp: configuration_of_def trash_layout_expectation_eq_iff trash_metadata_eq_iff)
qed

section \<open>Properties\<close>

lemma identity_Inr:
  assumes "MetadataReconciliationIdentity sha256 l = Inr b"
  shows "b = ComputeTrashLayoutBinding sha256 (encodeTrashLayoutBinding l)"
    and "tle_HasSharedTop (tl_expected l) \<or> tle_SharedTop (tl_expected l) = zero_layout"
  using assms layout_shared_top
  by (auto simp: MetadataReconciliationIdentity_def validateMetadataReconciliationIdentityLocked_def checks_Cons split: if_splits option.splits)

text \<open>
  C11: the binding that a ticket of the recovery ledger carries identifies the Trash layout. Two leases with a
  topology answer with the same binding exactly when they have the same root, placement, owner, metadata mapping,
  topology and expectations of every role, given that SHA-256 does not collide on their two encodings.
\<close>

theorem layout_binding_identifies:
  assumes "MetadataReconciliationIdentity sha256 l = Inr b" "MetadataReconciliationIdentity sha256 m = Inr c"
    and "lease_sized l" "lease_sized m"
    and "\<forall>x. length (sha256 x) = 32"
    and "inj_on sha256 {trashLayoutBindingDomain @ encodeTrashLayoutBinding l, trashLayoutBindingDomain @ encodeTrashLayoutBinding m}"
  shows "b = c \<longleftrightarrow> configuration_of l = configuration_of m"
proof -
  have "digest_copy (sha256 x) = sha256 x" for x
    using assms(5) by (simp add: digest_copy_def planDigestLength_def)
  then have "b = c \<longleftrightarrow> sha256 (trashLayoutBindingDomain @ encodeTrashLayoutBinding l) = sha256 (trashLayoutBindingDomain @ encodeTrashLayoutBinding m)"
    using identity_Inr(1) [OF assms(1)] identity_Inr(1) [OF assms(2)] by (simp add: ComputeTrashLayoutBinding_def)
  also have "\<dots> \<longleftrightarrow> encodeTrashLayoutBinding l = encodeTrashLayoutBinding m"
    using inj_on_eq_iff [OF assms(6)] by simp
  also have "\<dots> \<longleftrightarrow> configuration_of l = configuration_of m"
    by (rule encoding_exact [OF assms(3,4) identity_Inr(2) [OF assms(1)] identity_Inr(2) [OF assms(2)]])
  finally show ?thesis .
qed

text \<open>A hash of 32 bytes that tells the sample lease from any other.\<close>

definition sample_hash :: "bytes \<Rightarrow> bytes" where
  "sample_hash x = (if x = trashLayoutBindingDomain @ encodeTrashLayoutBinding sample_trash_lease then replicate 32 1 else replicate 32 2)"

definition sample_prefixed :: trash_lease where
  "sample_prefixed = sample_trash_lease \<lparr> tl_metadata := \<lparr> tmm_Basis = TrashMetadataBasisHomeAbsolute, tmm_Prefix = \<lparr> path_components = [[0x61]] \<rparr> \<rparr> \<rparr>"

definition sample_reopened :: trash_lease where
  "sample_reopened = sample_trash_lease \<lparr> tl_descriptors := sample_bundle \<lparr> td_Anchor := 12, td_TrashRoot := 13, td_Files := 14, td_Info := 15 \<rparr> \<rparr>"

lemma sample_leases_valid:
  "validateMetadataReconciliationIdentityLocked sample_trash_lease = None"
  "validateMetadataReconciliationIdentityLocked sample_prefixed = None"
  "validateMetadataReconciliationIdentityLocked sample_reopened = None"
  by code_simp+

lemma sample_identity:
  assumes "l \<in> {sample_trash_lease, sample_prefixed, sample_reopened}"
  shows "MetadataReconciliationIdentity sample_hash l = Inr (ComputeTrashLayoutBinding sample_hash (encodeTrashLayoutBinding l)) \<and> lease_sized l"
proof -
  have kind: "topology_configured (tl_topology sample_trash_lease)" by code_simp
  have open_lease: "\<not> tl_closed l \<and> tl_topology l = tl_topology sample_trash_lease \<and> validateMetadataReconciliationIdentityLocked l = None"
    using assms sample_leases_valid by (auto simp: sample_prefixed_def sample_reopened_def sample_trash_lease_def Let_def)
  have "lease_sized l"
    using assms
    by (auto simp: lease_sized_def go_sized_def path_sized_def expectation_sized_def sample_prefixed_def sample_reopened_def sample_trash_lease_def
        Let_def sample_trash_configuration_def sample_role_def sample_layout_expectation_def sample_mount_def FilesystemExt4_def no_mount_def
        TrashPlacementHome_def TrashMetadataBasisHomeAbsolute_def TrashAnchorHomeData_def)
  with open_lease kind show ?thesis by (simp add: MetadataReconciliationIdentity_def)
qed

theorem layout_binding_identifies_witness:
  "MetadataReconciliationIdentity sample_hash sample_trash_lease = MetadataReconciliationIdentity sample_hash sample_reopened \<and>
   MetadataReconciliationIdentity sample_hash sample_trash_lease \<noteq> MetadataReconciliationIdentity sample_hash sample_prefixed"
proof -
  have hash: "\<forall>x. length (sample_hash x) = 32" by (simp add: sample_hash_def)
  have inj: "inj_on sample_hash {trashLayoutBindingDomain @ encodeTrashLayoutBinding sample_trash_lease, y}" for y
    by (auto simp: inj_on_def sample_hash_def)
  note one = sample_identity [of sample_trash_lease, simplified]
  note two = sample_identity [of sample_prefixed, simplified]
  note three = sample_identity [of sample_reopened, simplified]
  have "configuration_of sample_trash_lease = configuration_of sample_reopened" by (simp add: configuration_of_def sample_reopened_def)
  moreover have "configuration_of sample_trash_lease \<noteq> configuration_of sample_prefixed"
    by (simp add: configuration_of_def sample_prefixed_def sample_trash_lease_def sample_trash_configuration_def Let_def)
  ultimately show ?thesis
    using layout_binding_identifies [OF conjunct1 [OF one] conjunct1 [OF two] conjunct2 [OF one] conjunct2 [OF two] hash inj]
      layout_binding_identifies [OF conjunct1 [OF one] conjunct1 [OF three] conjunct2 [OF one] conjunct2 [OF three] hash inj]
      one two three by simp
qed

text \<open>What the lease answers for a source: its prefix, then the source, a path that the decoder accepts.\<close>

lemma MetadataPathFor_Inr:
  assumes "MetadataPathFor l source = Inr m"
  shows "path_components m = path_components (tmm_Prefix (tl_metadata l)) @ path_components source" "byte_path_validate m = None"
    "\<not> tl_closed l"
  using assms by (auto simp: MetadataPathFor_def byte_path_new_Inr byte_path_validate_None split: if_splits sum.splits)

text \<open>
  The record that is serialized for a source under a lease reads back, with the basis of the lease, as the prefix of
  the lease followed by the source, and with the wall clock of the deletion.
\<close>

theorem lease_record_names_source:
  assumes "serialize_trash_info (lease_authority sha256 lease_in l) token source deletedAt x = Inr contents"
    and "civil_ok deletedAt" "wall_seconds deletedAt \<noteq> 0"
  shows "\<exists>basis info. trashPathBasisFromMounts (tmm_Basis (tl_metadata l)) = Inr basis \<and> parseTrashInfo contents token basis = Inr info \<and>
    path_components (ti_metadataPath info) = path_components (tmm_Prefix (tl_metadata (lease_in x))) @ path_components source \<and>
    ti_deletedAt info = deletedAt \<lparr> ct_Offset := 0 \<rparr>"
proof -
  obtain info where info: "intended_info (lease_authority sha256 lease_in l) token source deletedAt x info"
    "parseTrashInfo contents token (ti_basis info) = Inr (info \<lparr> ti_deletedAt := deletedAt \<lparr> ct_Offset := 0 \<rparr> \<rparr>)"
    using serialized_parses [OF assms(1,2)] assms(3) by auto
  then have "MetadataPathFor (lease_in x) source = Inr (ti_metadataPath info)"
    "trashPathBasisFromMounts (tmm_Basis (tl_metadata l)) = Inr (ti_basis info)"
    by (simp_all add: intended_info_def lease_authority_def)
  with info(2) MetadataPathFor_Inr(1) show ?thesis by auto
qed

end
