(* ===== verification/Spec2Isabelle.thy ===== *)
theory Spec2Isabelle
  imports DomainSize DomainResult PrivateLedger RecoveryLedger TrashContentReconcile QuarantineRetain TrashBinding
begin

text \<open>
  A verification development of LinuxDeepClean, a disk cleaner for Linux whose destructive steps are planned, bound to
  evidence and recorded in a durable recovery ledger before they happen. The Go code is under \<^verbatim>\<open>src/internal\<close>. This theory
  only gathers the others; each of them opens with what it models and ends with its properties.

  \<^bold>\<open>The program.\<close> Providers observe candidates with typed evidence. A plan holds actions; each has a target, evidence, a
  precondition and the transaction graph that backs its guarantee (\<^verbatim>\<open>domain\<close>). An engine or helper process opens trusted roots,
  layouts and Trash directories as held descriptors whose mount evidence it recorded before, and lends duplicates only after it
  inspected them again (\<^verbatim>\<open>mounts\<close>). A content operation, a move to the Trash (\<^verbatim>\<open>trash\<close>) or into quarantine
  (\<^verbatim>\<open>quarantine\<close>), reserves an intent through an interface that carries data only (\<^verbatim>\<open>recoveryport\<close>), records the dispatch of
  each effect, performs the effect on descriptors (\<^verbatim>\<open>linuxfs\<close>) and records the outcome. The recovery ledger (\<^verbatim>\<open>state\<close>)
  stores each fact as an immutable, digest-chained frame in its own file of an executor-private directory (\<^verbatim>\<open>linuxfs\<close>). After
  a crash or an ambiguous answer, a reconciliation probes the world and resolves the outstanding recovery.

  \<^bold>\<open>Conventions\<close> (\<open>Prelude\<close>). A Go \<^verbatim>\<open>error\<close> is an option, a result with an error a sum whose left side is the error. Where callers
  use \<^verbatim>\<open>errors.Is\<close>, an error is the list of sentinels it wraps; elsewhere it is its message without arguments. Integers whose width matters are
  words, strings that carry path bytes are lists of bytes. A struct is a record, a Go union a record with a kind and optional fields,
  so that malformed unions are values of the model. State is passed explicitly. What the context, the kernel, the random source and other
  packages answer is an argument: a function of the number of calls made so far, or a script with one entry per call, so every theorem is about all
  answers and all orders of failures. Chains of checks with early returns are lists evaluated by \<open>checks\<close>.

  \<^bold>\<open>Values and plans.\<close>
  \<^item> \<open>PathBytes\<close>: \<^verbatim>\<open>pathbytes/byte_path.go\<close>, \<^verbatim>\<open>trash_percent_codec.go\<close>. Byte paths; the strict decoder accepts exactly the
    canonical encodings within its limits.
  \<^item> \<open>DomainIds\<close>, \<open>DomainSize\<close>, \<open>DomainGraph\<close>: \<^verbatim>\<open>domain/identifiers.go\<close>, \<^verbatim>\<open>capability.go\<close>, \<^verbatim>\<open>size.go\<close>,
    \<^verbatim>\<open>transaction_graph.go\<close>. Validation of identifiers and digests, overflow-checked sums, graphs in canonical order with their binary search.
  \<^item> \<open>DomainEvidence\<close>, \<open>DomainPrecondition\<close>, \<open>DomainAction\<close>: \<^verbatim>\<open>evidence.go\<close>, \<^verbatim>\<open>precondition.go\<close>, \<^verbatim>\<open>candidate.go\<close>,
    \<^verbatim>\<open>action.go\<close>. Accepted unions are exactly one variant; evidence and precondition are bound to the target of the action.
  \<^item> \<open>DomainPlan\<close>, \<open>DomainResult\<close>: \<^verbatim>\<open>plan.go\<close>, \<^verbatim>\<open>result.go\<close>. The dependency search decides acyclicity and returns, the constructor
    stores a canonical fixed point, the fields of a result are those of its outcome, the exit summary counts exactly.

  \<^bold>\<open>Files.\<close>
  \<^item> \<open>LinuxErrors\<close>, \<open>LinuxSnapshot\<close>, \<open>PrivateDirectory\<close>: \<^verbatim>\<open>linuxfs/errors.go\<close>, \<^verbatim>\<open>snapshot_linux.go\<close>,
    \<^verbatim>\<open>private_directory_linux.go\<close>. Classification of kernel results, snapshots from \<^verbatim>\<open>statx\<close>, the comparison with a precondition, the
    lease on a private directory.
  \<^item> \<open>DurableFile\<close>, \<open>LedgerRecordID\<close>, \<open>PrivateLedger\<close>: \<^verbatim>\<open>durable_file_linux.go\<close>, \<^verbatim>\<open>private_ledger_linux.go\<close>. Publication never
    replaces a file; the ledger is append-only; listing and reading are exact; starting a session keeps the records. A directory is the list of its
    entries, a file its contents with the answer of \<^verbatim>\<open>statx\<close>.

  \<^bold>\<open>The recovery ledger.\<close>
  \<^item> \<open>RecoveryBinding\<close>, \<open>RecoveryFrame\<close>, \<open>RecoveryReplay\<close>, \<open>RecoveryRecords\<close>, \<open>RecoveryLedger\<close>: the parts of
    \<^verbatim>\<open>state/recovery_ledger.go\<close> in order. The abstract specification is the inductive graph \<open>recovery_step\<close> on stages, the inductive
    predicate \<open>history\<close> on chained frames, and the inductive \<open>ledger_step\<close> on sets of histories. Replay accepts exactly the histories, whose
    stages are paths of the graph; reserving and advancing refine one abstract step, whatever the session answers; reading gives the retained histories back.
  \<^item> \<open>RecoveryPort\<close>, \<open>LedgerProgress\<close>: \<^verbatim>\<open>recoveryport/ledger.go\<close>, \<^verbatim>\<open>state/recovery_ledger_port.go\<close>. The tickets, the operations
    of the port, what they promise their clients, and that without faults every step of the graph succeeds.

  \<^bold>\<open>Content operations.\<close>
  \<^item> \<open>CivilTime\<close>, \<open>TrashInfo\<close>, \<open>TrashWrite\<close>: \<^verbatim>\<open>trash/metadata.go\<close>, \<^verbatim>\<open>write.go\<close>. The record of a deletion, its parser and its
    publication. A published record is bound again by the reconciliation, but for one wall clock.
  \<^item> \<open>TrashMove\<close>, \<open>QuarantineRetain\<close>: \<^verbatim>\<open>trash/move.go\<close>, \<^verbatim>\<open>quarantine/quarantine.go\<close>, \<^verbatim>\<open>retain.go\<close>. Write-ahead: operations that
    differ only where their dispatch is not durable give the same run. Success means the effect happened under the ticket's token and its
    complete history is durable.
  \<^item> \<open>TrashReconcile\<close>, \<open>TrashContentReconcile\<close>: \<^verbatim>\<open>trash/reconcile.go\<close>, \<^verbatim>\<open>content_reconcile.go\<close>. Nothing is resolved without
    its evidence, and an error leaves at most a prefix of the frame of that resolution behind.

  \<^bold>\<open>Authority over mounts.\<close>
  \<^item> \<open>MountEvidence\<close>, \<open>MountInfo\<close>: \<^verbatim>\<open>mounts/authority.go\<close>, \<^verbatim>\<open>filesystem_linux.go\<close>, \<^verbatim>\<open>mountinfo_linux.go\<close>. Inspecting a descriptor
    joins it with the mount table; a root is admitted exactly when recording it again gives the same expectation; what the parser makes of a table in the
    kernel's format.
  \<^item> \<open>Descriptors\<close>, \<open>RootLeases\<close>, \<open>TrashLease\<close>, \<open>TrashHandoff\<close>, \<open>TrashBinding\<close>: \<^verbatim>\<open>root_lease_linux.go\<close>,
    \<^verbatim>\<open>layout_lease_linux.go\<close>, \<^verbatim>\<open>trash_lease_linux.go\<close>. The state is the descriptor table of the process. Opening, lending and closing are
    all-or-nothing on that table, on every failure path, and lend only what was inspected again; the layout binding identifies the layout.

  \<^bold>\<open>Interfaces.\<close> A contract between components is a locale, interpreted on the model in the theory of its provider: copies of domain
  values (\<open>defensive_copy\<close>), strict codecs (\<open>canonical_codec\<close>, \<open>escape_code\<close>), the locked session the recovery ledger runs on
  (\<open>ledger_session\<close>, provided by the private ledger), and the ledger behind the port (\<open>durable_ledger\<close>, extended by \<open>observed_ledger\<close>
  for clients that only look and by \<open>recording_ledger\<close> for clients that resolve). The content operations are proved once for every ledger with
  that contract; their properties are the instances for the recovery ledger.

  \<^bold>\<open>Bounds.\<close> The dependency search has one unit of fuel more than there are actions, shown to be enough. The other loops end by
  themselves: three attempts of \<^verbatim>\<open>openat2\<close>, three of a mount inspection, 16 frames of a recovery, 128 recoveries and 256 records of a
  ledger, 65536 bytes of a frame, as in the code. A script of kernel answers is finite; a call after its end succeeds with all it was asked for, so an
  endless sequence of interrupted calls is not a run of the model.

  \<^bold>\<open>Parameters.\<close> SHA-256, the CBOR library and the action codec of \<^verbatim>\<open>planproto\<close> are fields of an environment. A theorem that needs the library to
  decode what it encoded, or two given texts not to collide, says so. The kernel's duplication answers new descriptors where a theorem assumes \<open>fresh_duplicates\<close>;
  others hold for any answer. Openers keep \<open>bundle_contract\<close> or \<open>opener_contract\<close>: they open what they hand over and nothing else. Content operations and probes
  may do anything to the world but write to the ledger directory. The \<open>sample_\<close> and \<open>case_\<close> definitions are concrete environments that show each hypothesis can hold.

  \<^bold>\<open>Not modelled.\<close>
  \<^item> The descriptor operations of \<^verbatim>\<open>linuxfs\<close> (\<^verbatim>\<open>resolve_linux.go\<close> but for its retrying open, and \<^verbatim>\<open>stage\<close>, \<^verbatim>\<open>trash\<close>,
    \<^verbatim>\<open>restore\<close>, \<^verbatim>\<open>remove\<close> and the probes): sequences of system calls on held descriptors, whose meaning is the kernel's. Their callers take
    them as parameters.
  \<^item> \<^verbatim>\<open>planproto\<close>: transfer objects that copy domain values field by field for a third-party CBOR library and \<^verbatim>\<open>encoding/json\<close>;
    \<^verbatim>\<open>pathbytes/json_codec.go\<close>: a driver of the tokenizer of \<^verbatim>\<open>encoding/json\<close>.
  \<^item> \<^verbatim>\<open>application\<close>, \<^verbatim>\<open>presenters\<close>, \<^verbatim>\<open>cmd\<close> and the virtual machine guard of the tests: input, output and process entry points.
  \<^item> Mutexes: an operation that holds its lock throughout is one step. Checks for nil function values and nil interfaces have no counterpart where the
    model's type has no nil. Other processes do not change a ledger directory while its exclusive lock is held.
\<close>

end
